(* ===== verification/Prelude.thy ===== *)
theory Prelude
  imports Main "HOL-Library.Multiset" "HOL-Library.AList"
    "HOL-Library.Char_ord" "HOL-Library.List_Lexorder" "HOL-Library.Product_Lexorder"
begin

text \<open>
  Shared vocabulary of the development: the fact collections the component theories fill, and
  generic lemmas on association lists (the model of Go maps that the code iterates over), on
  sorting by a key, and on folding a fallible step over a list.
\<close>

named_theorems go_eval "equations that evaluate the model on concrete inputs"
named_theorems go_split "case splits on the results of fallible operations"

subsection \<open>Fallible results\<close>

text \<open>A Go function returning \<open>(T, error)\<close> is a function into a sum: the error on the left.\<close>

definition is_ok :: "'e + 'a \<Rightarrow> bool" where
  "is_ok r = (case r of Inl _ \<Rightarrow> False | Inr _ \<Rightarrow> True)"

lemma is_ok_simps [simp, go_eval]: "is_ok (Inl e) = False" "is_ok (Inr x) = True"
  by (simp_all add: is_ok_def)

lemma is_ok_iff: "is_ok r \<longleftrightarrow> (\<exists>x. r = Inr x)"
  by (cases r) auto

text \<open>
  \<open>for _, x := range xs { s, err = f(s, x); if err != nil { return err } }\<close>: the step is
  applied left to right and the first error stops the loop.
\<close>

fun fold_res :: "('s \<Rightarrow> 'x \<Rightarrow> 'e + 's) \<Rightarrow> 's \<Rightarrow> 'x list \<Rightarrow> 'e + 's" where
  "fold_res f s [] = Inr s"
| "fold_res f s (x # xs) = (case f s x of Inl e \<Rightarrow> Inl e | Inr s' \<Rightarrow> fold_res f s' xs)"

lemma fold_res_append:
  "fold_res f s (xs @ ys) = (case fold_res f s xs of Inl e \<Rightarrow> Inl e | Inr s' \<Rightarrow> fold_res f s' ys)"
  by (induction xs arbitrary: s) (auto split: sum.splits)

lemma fold_res_invariant:
  assumes "fold_res f s xs = Inr s'" and "P s"
    and "\<And>s x s'. x \<in> set xs \<Longrightarrow> P s \<Longrightarrow> f s x = Inr s' \<Longrightarrow> P s'"
  shows "P s'"
  using assms
proof (induction xs arbitrary: s)
  case Nil
  then show ?case by simp
next
  case (Cons x xs)
  then obtain s1 where s1: "f s x = Inr s1" "fold_res f s1 xs = Inr s'"
    by (auto split: sum.splits)
  with Cons.prems have "P s1" by auto
  with Cons.IH [OF s1(2)] Cons.prems(3) show ?case by auto
qed

text \<open>
  The same loop collecting one output per element: \<open>out = append(out, y)\<close>.
\<close>

fun map_res :: "('x \<Rightarrow> 'e + 'y) \<Rightarrow> 'x list \<Rightarrow> 'e + 'y list" where
  "map_res f [] = Inr []"
| "map_res f (x # xs) =
     (case f x of Inl e \<Rightarrow> Inl e
      | Inr y \<Rightarrow> (case map_res f xs of Inl e \<Rightarrow> Inl e | Inr ys \<Rightarrow> Inr (y # ys)))"

lemma map_res_Inr_iff:
  "map_res f xs = Inr ys \<longleftrightarrow> map f xs = map Inr ys"
proof
  show "map_res f xs = Inr ys \<Longrightarrow> map f xs = map Inr ys"
    by (induction xs arbitrary: ys) (auto split: sum.splits)
  show "map f xs = map Inr ys \<Longrightarrow> map_res f xs = Inr ys"
    by (induction xs arbitrary: ys) auto
qed

lemma map_res_length: "map_res f xs = Inr ys \<Longrightarrow> length ys = length xs"
  unfolding map_res_Inr_iff by (metis length_map)

lemma map_res_nth: "map_res f xs = Inr ys \<Longrightarrow> i < length xs \<Longrightarrow> f (xs ! i) = Inr (ys ! i)"
  unfolding map_res_Inr_iff by (metis length_map nth_map)

lemma map_res_Inl: "map_res f xs = Inl e \<Longrightarrow> \<exists>x \<in> set xs. f x = Inl e"
  by (induction xs) (auto split: sum.splits)

lemma map_res_ok_iff: "is_ok (map_res f xs) \<longleftrightarrow> (\<forall>x \<in> set xs. is_ok (f x))"
  by (induction xs) (auto split: sum.splits)

subsection \<open>Association lists and sorting\<close>

lemma map_of_AList_update [simp]: "map_of (AList.update k v m) = (map_of m)(k \<mapsto> v)"
  by (rule update_conv')

lemma distinct_keys_update [intro]:
  "distinct (map fst m) \<Longrightarrow> distinct (map fst (AList.update k v m))"
  by (rule distinct_update)

lemma sort_key_unique:
  fixes f :: "'a \<Rightarrow> 'b::linorder"
  assumes "set xs = set ys" and "distinct (map f xs)" and "distinct (map f ys)"
  shows "sort_key f xs = sort_key f ys"
proof (rule map_sorted_distinct_set_unique)
  show "inj_on f (set (sort_key f xs) \<union> set (sort_key f ys))"
    using assms by (simp add: distinct_map)
  show "distinct (map f (sort_key f xs))" "distinct (map f (sort_key f ys))"
    using assms by (simp_all add: distinct_map)
qed (use assms in simp_all)

lemma insort_key_map:
  "(\<And>x. f (g x) = f x) \<Longrightarrow> insort_key f (g x) (map g xs) = map g (insort_key f x xs)"
  by (induction xs) auto

lemma sort_key_map:
  "(\<And>x. f (g x) = f x) \<Longrightarrow> sort_key f (map g xs) = map g (sort_key f xs)"
  by (induction xs) (simp_all add: insort_key_map)

lemma set_map_of_cong:
  assumes "map_of m = map_of m'" and "distinct (map fst m)" and "distinct (map fst m')"
  shows "set m = set m'"
  using assms by (metis map_of_eq_Some_iff subrelI subset_antisym)

end
