(* ===== verification/Go_Strings.thy ===== *)
theory Go_Strings
  imports Prelude "HOL-Library.Sublist" "HOL-Library.Word"
begin

text \<open>
  The parts of Go's standard library the program uses on strings. A Go string is a sequence of
  bytes, modelled as a \<^typ>\<open>string\<close> whose characters are the bytes (so a non-ASCII rune is
  several characters, its UTF-8 encoding). Modelled here: \<^verbatim>\<open>strings.TrimSpace\<close>,
  \<^verbatim>\<open>strings.HasPrefix\<close>, \<^verbatim>\<open>strings.Contains\<close>,
  \<^verbatim>\<open>(*big.Int).SetString(s, 10)\<close>, \<^verbatim>\<open>(*big.Int).String\<close>,
  \<^verbatim>\<open>strconv.FormatUint\<close>, \<^verbatim>\<open>strconv.ParseInt(s, 10, 64)\<close> and
  \<^verbatim>\<open>strconv.FormatInt\<close>. The lemmas are the ones every component needs: trimming is
  idempotent and leaves a string alone whose ends are printable, and a printed number parses back.
\<close>

subsection \<open>strings.TrimSpace\<close>

text \<open>
  \<^verbatim>\<open>TrimSpace\<close> removes the runes of \<^verbatim>\<open>unicode.IsSpace\<close> at both ends. These are
  the UTF-8 encodings of U+0009..U+000D, U+0020, U+0085, U+00A0, U+1680, U+2000..U+200A, U+2028,
  U+2029, U+202F, U+205F and U+3000. Since UTF-8 is self-synchronising, the first (last) rune of a
  string is one of them exactly when the string starts (ends) with its encoding.
\<close>

definition space_encodings :: "string list" where
  "space_encodings =
     [[CHR 0x09], [CHR 0x0A], [CHR 0x0B], [CHR 0x0C], [CHR 0x0D], [CHR 0x20],
      [CHR 0xC2, CHR 0x85], [CHR 0xC2, CHR 0xA0], [CHR 0xE1, CHR 0x9A, CHR 0x80],
      [CHR 0xE2, CHR 0x80, CHR 0x80], [CHR 0xE2, CHR 0x80, CHR 0x81],
      [CHR 0xE2, CHR 0x80, CHR 0x82], [CHR 0xE2, CHR 0x80, CHR 0x83],
      [CHR 0xE2, CHR 0x80, CHR 0x84], [CHR 0xE2, CHR 0x80, CHR 0x85],
      [CHR 0xE2, CHR 0x80, CHR 0x86], [CHR 0xE2, CHR 0x80, CHR 0x87],
      [CHR 0xE2, CHR 0x80, CHR 0x88], [CHR 0xE2, CHR 0x80, CHR 0x89],
      [CHR 0xE2, CHR 0x80, CHR 0x8A], [CHR 0xE2, CHR 0x80, CHR 0xA8],
      [CHR 0xE2, CHR 0x80, CHR 0xA9], [CHR 0xE2, CHR 0x80, CHR 0xAF],
      [CHR 0xE2, CHR 0x81, CHR 0x9F], [CHR 0xE3, CHR 0x80, CHR 0x80]]"

definition front_match :: "string list \<Rightarrow> string \<Rightarrow> string option" where
  "front_match encs s = find (\<lambda>e. e \<noteq> [] \<and> prefix e s) encs"

lemma front_match_Some:
  "front_match encs s = Some e \<Longrightarrow> e \<in> set encs \<and> e \<noteq> [] \<and> prefix e s"
  by (auto simp: front_match_def find_Some_iff)

lemma front_match_None:
  "front_match encs s = None \<longleftrightarrow> (\<forall>e \<in> set encs. e \<noteq> [] \<longrightarrow> \<not> prefix e s)"
  by (auto simp: front_match_def find_None_iff)

function strip_front :: "string list \<Rightarrow> string \<Rightarrow> string" where
  "strip_front encs s =
     (case front_match encs s of None \<Rightarrow> s | Some e \<Rightarrow> strip_front encs (drop (length e) s))"
  by pat_completeness auto
termination
  by (relation "measure (\<lambda>(encs, s). length s)")
     (auto dest!: front_match_Some simp: prefix_def)

declare strip_front.simps [simp del]

definition trim_left :: "string \<Rightarrow> string" where
  "trim_left s = strip_front space_encodings s"

definition trim_right :: "string \<Rightarrow> string" where
  "trim_right s = rev (strip_front (map rev space_encodings) (rev s))"

definition trim_space :: "string \<Rightarrow> string" where
  "trim_space s = trim_right (trim_left s)"

lemma strip_front_stuck: "front_match encs (strip_front encs s) = None"
proof (induction encs s rule: strip_front.induct)
  case (1 encs s)
  then show ?case
    by (cases "front_match encs s") (simp_all add: strip_front.simps [of encs s])
qed

lemma strip_front_id: "front_match encs s = None \<Longrightarrow> strip_front encs s = s"
  by (simp add: strip_front.simps [of encs s])

lemma suffix_strip_front: "suffix (strip_front encs s) s"
proof (induction encs s rule: strip_front.induct)
  case (1 encs s)
  show ?case
  proof (cases "front_match encs s")
    case None
    then show ?thesis by (simp add: strip_front_id)
  next
    case (Some e)
    then have "suffix (strip_front encs (drop (length e) s)) (drop (length e) s)"
      by (rule "1.IH")
    with Some show ?thesis
      by (simp add: strip_front.simps [of encs s]) (metis suffix_drop suffix_order.trans)
  qed
qed

lemma prefix_trim_right: "prefix (trim_right s) s"
  unfolding trim_right_def
  by (metis suffix_strip_front rev_rev_ident suffix_to_prefix)

lemma front_match_prefix:
  "front_match encs s = None \<Longrightarrow> prefix t s \<Longrightarrow> front_match encs t = None"
  by (auto simp: front_match_None dest: prefix_order.trans)

text \<open>Trimming twice is trimming once: the builders and the state layer may both trim.\<close>

lemma trim_space_idem [simp]: "trim_space (trim_space s) = trim_space s"
proof -
  let ?l = "trim_left s"
  have l: "front_match space_encodings ?l = None"
    by (simp add: trim_left_def strip_front_stuck)
  have "front_match space_encodings (trim_right ?l) = None"
    by (rule front_match_prefix [OF l prefix_trim_right])
  then have "trim_left (trim_right ?l) = trim_right ?l"
    by (simp add: trim_left_def strip_front_id)
  then have "trim_space (trim_space s) = trim_right (trim_right ?l)"
    by (simp add: trim_space_def)
  also have "\<dots> = trim_right ?l"
    by (simp add: trim_right_def strip_front_id strip_front_stuck)
  finally show ?thesis by (simp add: trim_space_def)
qed

lemma front_match_Nil [simp]: "front_match encs [] = None"
  by (simp add: front_match_None)

lemma trim_space_Nil [simp, go_eval]: "trim_space [] = []"
  by (simp add: trim_space_def trim_left_def trim_right_def strip_front_id)

text \<open>A printable ASCII byte neither starts nor ends the encoding of a space.\<close>

definition plain_char :: "char \<Rightarrow> bool" where
  "plain_char c \<longleftrightarrow> (32::nat) < of_char c \<and> of_char c < (127::nat)"

definition plain :: "string \<Rightarrow> bool" where
  "plain s \<longleftrightarrow> s \<noteq> [] \<and> list_all plain_char s"

lemma space_encodings_not_plain:
  "\<forall>e \<in> set space_encodings. e \<noteq> [] \<and> \<not> plain_char (hd e) \<and> \<not> plain_char (last e)"
  by (simp add: space_encodings_def plain_char_def)

lemma trim_space_ends:
  assumes "plain_char c" and "plain_char (last (c # cs))"
  shows "trim_space (c # cs) = c # cs"
proof -
  have "front_match space_encodings (c # cs) = None"
    unfolding front_match_None
  proof (intro ballI impI notI)
    fix e assume "e \<in> set space_encodings" "e \<noteq> []" "prefix e (c # cs)"
    from this(2,3) have "hd e = c" by (cases e) simp_all
    with \<open>e \<in> set space_encodings\<close> assms(1) show False using space_encodings_not_plain by blast
  qed
  then have l: "trim_left (c # cs) = c # cs" by (simp add: trim_left_def strip_front_id)
  have "front_match (map rev space_encodings) (rev (c # cs)) = None"
    unfolding front_match_None
  proof (intro ballI impI notI)
    fix e assume e: "e \<in> set (map rev space_encodings)" "e \<noteq> []" "prefix e (rev (c # cs))"
    then obtain e' where e': "e' \<in> set space_encodings" "e = rev e'" by auto
    with e have "suffix e' (c # cs)" by (simp add: suffix_to_prefix)
    moreover from e e' have "e' \<noteq> []" by simp
    ultimately have "last e' = last (c # cs)"
      unfolding suffix_def by (metis last_append)
    with e' assms(2) show False using space_encodings_not_plain by metis
  qed
  then have "trim_right (c # cs) = rev (rev (c # cs))"
    unfolding trim_right_def by (subst strip_front_id) simp_all
  with l show ?thesis by (simp add: trim_space_def)
qed

lemma trim_space_plain: "plain s \<Longrightarrow> trim_space s = s"
  by (cases s) (auto simp: plain_def list_all_iff intro!: trim_space_ends)

lemma trim_space_ends_eval [go_eval]:
  "plain_char c \<and> plain_char (last (c # cs)) \<Longrightarrow> trim_space (c # cs) = c # cs"
  by (simp add: trim_space_ends)

subsection \<open>Prefixes and substrings\<close>

text \<open>\<^verbatim>\<open>strings.HasPrefix(s, p)\<close> is \<^term>\<open>prefix p s\<close>.\<close>

fun go_contains :: "string \<Rightarrow> string \<Rightarrow> bool" where
  "go_contains [] p = (p = [])"
| "go_contains (c # s) p = (prefix p (c # s) \<or> go_contains s p)"

lemma go_contains_iff: "go_contains s p \<longleftrightarrow> (\<exists>u v. s = u @ p @ v)"
proof
  show "go_contains s p \<Longrightarrow> \<exists>u v. s = u @ p @ v"
  proof (induction s)
    case (Cons c s)
    show ?case
    proof (cases "prefix p (c # s)")
      case True
      then obtain v where "c # s = [] @ p @ v" by (auto simp: prefix_def)
      then show ?thesis by blast
    next
      case False
      with Cons obtain u v where "s = u @ p @ v" by auto
      then have "c # s = (c # u) @ p @ v" by simp
      then show ?thesis by blast
    qed
  qed simp
next
  assume "\<exists>u v. s = u @ p @ v"
  then obtain u v where "s = u @ p @ v" by blast
  then show "go_contains s p"
  proof (induction u arbitrary: s)
    case Nil
    then have "prefix p s" by simp
    then show ?case by (cases s) auto
  next
    case (Cons c u)
    then show ?case by (cases s) auto
  qed
qed

subsection \<open>Decimal numbers\<close>

definition digit_char :: "nat \<Rightarrow> char" where
  "digit_char d = char_of (48 + d)"

definition digit_val :: "char \<Rightarrow> nat option" where
  "digit_val c = (if 48 \<le> (of_char c :: nat) \<and> (of_char c :: nat) \<le> 57
     then Some (of_char c - 48) else None)"

lemma digit_val_char [simp]: "d < 10 \<Longrightarrow> digit_val (digit_char d) = Some d"
  by (simp add: digit_val_def digit_char_def)

lemma digit_char_eval [go_eval]:
  "digit_char 0 = CHR ''0''" "digit_char 1 = CHR ''1''" "digit_char (Suc 0) = CHR ''1''"
  "digit_char 2 = CHR ''2''" "digit_char 3 = CHR ''3''" "digit_char 4 = CHR ''4''"
  "digit_char 5 = CHR ''5''" "digit_char 6 = CHR ''6''" "digit_char 7 = CHR ''7''"
  "digit_char 8 = CHR ''8''" "digit_char 9 = CHR ''9''"
  by (simp_all add: digit_char_def char_of_def bit_0 bit_Suc)

lemma plain_digit_char: "d < 10 \<Longrightarrow> plain_char (digit_char d)"
  by (simp add: plain_char_def digit_char_def)

fun nat_to_dec :: "nat \<Rightarrow> string" where
  "nat_to_dec n = (if n < 10 then [digit_char n]
     else nat_to_dec (n div 10) @ [digit_char (n mod 10)])"

declare nat_to_dec.simps [simp del]

fun digits_value :: "nat \<Rightarrow> string \<Rightarrow> nat option" where
  "digits_value acc [] = Some acc"
| "digits_value acc (c # cs) =
     (case digit_val c of None \<Rightarrow> None | Some d \<Rightarrow> digits_value (10 * acc + d) cs)"

text \<open>
  \<^verbatim>\<open>SetString(s, 10)\<close>: an optional sign, then at least one digit, and nothing after it
  (an underscore is accepted only for base 0).
\<close>

definition unsigned10 :: "string \<Rightarrow> nat option" where
  "unsigned10 s = (if s = [] then None else digits_value 0 s)"

definition set_string10 :: "string \<Rightarrow> int option" where
  "set_string10 s = (case s of [] \<Rightarrow> None
     | c # cs \<Rightarrow> if c = CHR ''+'' then map_option int (unsigned10 cs)
                else if c = CHR ''-'' then map_option (\<lambda>n. - int n) (unsigned10 cs)
                else map_option int (unsigned10 s))"

definition int_to_dec :: "int \<Rightarrow> string" where
  "int_to_dec v = (if v < 0 then CHR ''-'' # nat_to_dec (nat (- v)) else nat_to_dec (nat v))"

lemma digits_value_append:
  "digits_value acc (xs @ ys) =
     (case digits_value acc xs of None \<Rightarrow> None | Some a \<Rightarrow> digits_value a ys)"
  by (induction acc xs rule: digits_value.induct) (auto split: option.splits)

lemma digits_value_nat_to_dec: "digits_value 0 (nat_to_dec n) = Some n"
proof (induction n rule: nat_to_dec.induct)
  case (1 n)
  show ?case
  proof (cases "n < 10")
    case True
    then show ?thesis by (simp add: nat_to_dec.simps [of n])
  next
    case False
    with "1.IH" have "digits_value 0 (nat_to_dec (n div 10)) = Some (n div 10)" by simp
    with False show ?thesis by (simp add: nat_to_dec.simps [of n] digits_value_append)
  qed
qed

lemma nat_to_dec_not_Nil [simp]: "nat_to_dec n \<noteq> []"
  by (simp add: nat_to_dec.simps [of n])

lemma nat_to_dec_digits: "c \<in> set (nat_to_dec n) \<Longrightarrow> \<exists>d < 10. c = digit_char d"
proof (induction n rule: nat_to_dec.induct)
  case (1 n)
  then show ?case
    by (cases "n < 10") (auto simp: nat_to_dec.simps [of n] intro: exI [where x = "n mod 10"])
qed

lemma plain_nat_to_dec: "plain (nat_to_dec n)"
  by (auto simp: plain_def list_all_iff dest: nat_to_dec_digits intro: plain_digit_char)

lemma trim_space_nat_to_dec [simp]: "trim_space (nat_to_dec n) = nat_to_dec n"
  by (simp add: trim_space_plain plain_nat_to_dec)

lemma unsigned10_nat_to_dec [simp]: "unsigned10 (nat_to_dec n) = Some n"
  by (simp add: unsigned10_def digits_value_nat_to_dec)

lemma digit_char_not_sign: "d < 10 \<Longrightarrow> digit_char d \<noteq> CHR ''+'' \<and> digit_char d \<noteq> CHR ''-''"
proof -
  assume "d < 10"
  then have "digit_val (digit_char d) = Some d" by simp
  moreover have "digit_val CHR ''+'' = None" "digit_val CHR ''-'' = None"
    by (simp_all add: digit_val_def)
  ultimately show ?thesis by auto
qed

lemma set_string10_nat_to_dec [simp]: "set_string10 (nat_to_dec n) = Some (int n)"
proof -
  obtain c cs where eq: "nat_to_dec n = c # cs" by (cases "nat_to_dec n") simp_all
  then obtain d where "d < 10" "c = digit_char d" using nat_to_dec_digits [of c n] by auto
  then have "c \<noteq> CHR ''+''" "c \<noteq> CHR ''-''" using digit_char_not_sign by auto
  moreover have "unsigned10 (c # cs) = Some n" using unsigned10_nat_to_dec [of n] eq by simp
  ultimately show ?thesis by (simp add: set_string10_def eq)
qed

text \<open>Printing then parsing any integer gives it back.\<close>

lemma set_string10_int_to_dec: "set_string10 (int_to_dec v) = Some v"
  by (simp add: int_to_dec_def) (simp add: set_string10_def)

lemma nat_to_dec_inj: "nat_to_dec m = nat_to_dec n \<longleftrightarrow> m = n"
  by (metis option.inject unsigned10_nat_to_dec)

lemma int_to_dec_inj: "int_to_dec v = int_to_dec w \<longleftrightarrow> v = w"
  by (metis option.inject set_string10_int_to_dec)

subsection \<open>64-bit integers\<close>

text \<open>
  \<^verbatim>\<open>strconv.FormatUint(x, 10)\<close> on \<^verbatim>\<open>uint64\<close>, and \<^verbatim>\<open>strconv.ParseInt(s, 10, 64)\<close>,
  which fails on a syntax error and outside the range of \<^verbatim>\<open>int64\<close>.
\<close>

definition format_uint :: "64 word \<Rightarrow> string" where
  "format_uint x = nat_to_dec (unat x)"

definition parse_int64 :: "string \<Rightarrow> int option" where
  "parse_int64 s = (case set_string10 s of None \<Rightarrow> None
     | Some v \<Rightarrow> if - (2 ^ 63) \<le> v \<and> v < 2 ^ 63 then Some v else None)"

definition format_int64 :: "64 word \<Rightarrow> string" where
  "format_int64 x = int_to_dec (sint x)"

lemma format_uint_inj: "format_uint x = format_uint y \<longleftrightarrow> x = y"
  by (simp add: format_uint_def nat_to_dec_inj word_unat_eq_iff)

lemma parse_int64_range: "parse_int64 s = Some v \<Longrightarrow> - (2 ^ 63) \<le> v \<and> v < 2 ^ 63"
  by (auto simp: parse_int64_def split: option.splits if_splits)

lemma parse_int64_format: "parse_int64 (format_int64 x) = Some (sint x)"
  using sint_range_size [of x]
  by (simp add: parse_int64_def format_int64_def set_string10_int_to_dec word_size)

end
