(* ===== verification/Go_Types.thy ===== *)
theory Go_Types
  imports Go_Strings
begin

text \<open>
  The data the components exchange: the structs of \<^verbatim>\<open>pkg/types\<close> as records (one prefix per
  struct, fields in the source's order) and the error values.

  A Go error is modelled by what \<^verbatim>\<open>errors.Is\<close> sees of it: the sentinel at the bottom of its
  \<^verbatim>\<open>%w\<close> chain. An error that wraps no sentinel is \<open>ErrText\<close> with its fixed text, and an
  error that comes from a system outside the repository is \<open>ErrExternal\<close> with the text that
  system gave. A panic unwinds every caller, so it is a result like an error, \<open>ErrPanic\<close>, that no
  caller of the model handles. The words \<^verbatim>\<open>fmt.Errorf\<close> puts around a sentinel are not modelled.
\<close>

datatype go_error =
  \<comment> \<open>package state\<close>
    ErrDepositAlreadyApplied | ErrInvalidDepositRecord | ErrInvalidOwner | ErrInvalidDenom
  | ErrInvalidAmount | ErrAmountNegative | ErrInvalidWithdrawIntent | ErrInsufficientBalance
  | ErrInvalidWithdrawRequest | ErrWithdrawAlreadyApplied | ErrNonceMismatch
  | ErrInvalidNullifierInput | ErrInvalidWithdrawAddress
  \<comment> \<open>package batch\<close>
  | ErrInvalidSettlementInputs | ErrInvalidWitnessInputs | ErrInvalidPublicInputs
  | ErrInvalidBuildInput | ErrInsufficientOffchainBalance
  \<comment> \<open>package repository\<close>
  | ErrDepositNotFound | ErrWithdrawRequestNotFound | ErrWithdrawRecordNotFound
  | ErrWithdrawAlreadyClaimed | ErrOffchainSettlementRecordNotFound
  \<comment> \<open>package service\<close>
  | ErrOffchainSettlementUnavailable | ErrNoPendingSettlementOperations
  | ErrInvalidPendingSettlement | ErrOffchainSettlementServiceRequired
  | ErrManualBatchInsufficientOffchainBalance | ErrManualBatchDepositNotFound
  | ErrProofVerificationFailed
  \<comment> \<open>package sequencer\<close>
  | ErrBatchNotAccepted
  \<comment> \<open>errors without a sentinel, and errors of other systems\<close>
  | ErrText string | ErrExternal string
  \<comment> \<open>a panic\<close>
  | ErrPanic string

type_synonym 'a res = "go_error + 'a"

subsection \<open>Accounts, deposits, withdrawals\<close>

record account =
  acc_owner :: string
  acc_denom :: string
  acc_balance :: string
  acc_nonce :: string

record deposit_record =
  dep_id :: string
  dep_owner :: string
  dep_denom :: string
  dep_amount :: string
  dep_processed :: bool
  dep_created_height :: int
  dep_tx_hash :: string

record withdraw_request =
  wr_id :: string
  wr_owner :: string
  wr_denom :: string
  wr_amount :: string
  wr_destination :: string
  wr_nonce :: string
  wr_signature :: string

record withdraw_record =
  wrec_id :: string
  wrec_owner :: string
  wrec_denom :: string
  wrec_amount :: string
  wrec_destination :: string
  wrec_nullifier :: string
  wrec_claimed :: bool

subsection \<open>Settlement, witness and proof\<close>

record settlement_deposit =
  sd_id :: string
  sd_owner :: string
  sd_denom :: string
  sd_amount :: string

record settlement_withdrawal =
  sw_id :: string
  sw_owner :: string
  sw_denom :: string
  sw_amount :: string
  sw_destination :: string
  sw_destination_hash :: string
  sw_nullifier :: string

record settlement_update =
  su_batch_id :: string
  su_old_root :: string
  su_new_root :: string
  su_deposits :: "settlement_deposit list"
  su_withdrawals :: "settlement_withdrawal list"

record batch_commitments =
  bc_deposits_root :: string
  bc_withdrawals_root :: string
  bc_nullifiers_root :: string
  bc_withdraw_outputs_root :: string

record witness_account =
  wa_owner :: string
  wa_user_secret :: string
  wa_nonce :: string
  wa_old_balance :: string
  wa_new_balance :: string

record witness =
  wit_accounts :: "witness_account list"
  wit_state_path :: "string list"

record proof_bundle =
  pb_proof :: string
  pb_public_inputs :: "string list"
  pb_vk_id :: string

record verifier_artifact =
  va_vk_id :: string
  va_hash_mode :: string
  va_curve :: string
  va_backend :: string
  va_public_input_count :: int
  va_public_input_names :: "string list"
  va_verifying_key :: string

subsection \<open>Request and response bodies\<close>

record withdraw_request_body =
  wb_owner :: string
  wb_denom :: string
  wb_amount :: string
  wb_destination :: string

record build_batch_body =
  bb_deposit_ids :: "string list"
  bb_withdraw_ids :: "string list"

record partial_state =
  ps_current_root :: string
  ps_proof_status :: string
  ps_deposit_status :: string
  ps_withdraw_status :: string
  ps_batch_status :: string

definition empty_partial_state :: partial_state where
  "empty_partial_state = \<lparr>ps_current_root = [], ps_proof_status = [], ps_deposit_status = [],
     ps_withdraw_status = [], ps_batch_status = []\<rparr>"

record build_batch_response =
  bbr_update :: settlement_update
  bbr_commitments :: batch_commitments
  bbr_witness :: witness
  bbr_state :: partial_state

record submit_batch_body =
  sb_update :: settlement_update
  sb_commitments :: batch_commitments
  sb_proof :: proof_bundle

record submit_batch_response =
  sbr_tx_hash :: string
  sbr_accepted :: bool
  sbr_proof_status :: string
  sbr_update :: settlement_update
  sbr_commitments :: batch_commitments
  sbr_withdraw_records :: "withdraw_record list"
  sbr_state :: partial_state

record balance_snapshot =
  bs_user :: "string \<rightharpoonup> string"
  bs_module :: "string \<rightharpoonup> string"

end
