(* ===== verification/Account_State.thy ===== *)
theory Account_State
  imports Go_Types
begin

text \<open>
  \<^verbatim>\<open>internal/state/account_state.go\<close>: the table of balances and nonces. The Go map
  \<^verbatim>\<open>accounts\<close> is an association list with distinct keys, in the (unspecified) order in
  which a Go map is iterated; the amounts are decimal strings, as in the source, and every operation
  parses and prints them. The abstract state is a partial function from keys to pairs of
  natural numbers: \<open>credit\<close> and \<open>debit\<close> refine addition and guarded subtraction on it.
\<close>

subsection \<open>Amounts\<close>

definition parse_non_negative_amount :: "string \<Rightarrow> nat res" where
  "parse_non_negative_amount amount =
     (let a = trim_space amount in
      if a = [] then Inl ErrInvalidAmount
      else case set_string10 a of None \<Rightarrow> Inl ErrInvalidAmount
        | Some v \<Rightarrow> if v < 0 then Inl ErrInvalidAmount else Inr (nat v))"

definition parse_positive_amount :: "string \<Rightarrow> nat res" where
  "parse_positive_amount amount =
     (case parse_non_negative_amount amount of Inl e \<Rightarrow> Inl e
      | Inr v \<Rightarrow> if v = 0 then Inl ErrAmountNegative else Inr v)"

lemma parse_non_negative_nat_to_dec [simp]: "parse_non_negative_amount (nat_to_dec n) = Inr n"
  by (simp add: parse_non_negative_amount_def)

lemma parse_positive_nat_to_dec: "0 < n \<Longrightarrow> parse_positive_amount (nat_to_dec n) = Inr n"
  by (simp add: parse_positive_amount_def)

lemma parse_positive_pos: "parse_positive_amount s = Inr n \<Longrightarrow> 0 < n"
  by (auto simp: parse_positive_amount_def split: sum.splits if_splits)

lemma parse_positive_non_negative:
  "parse_positive_amount s = Inr n \<longleftrightarrow> parse_non_negative_amount s = Inr n \<and> 0 < n"
  by (auto simp: parse_positive_amount_def split: sum.splits if_splits)

lemma parse_amount_trim [simp]:
  "parse_non_negative_amount (trim_space s) = parse_non_negative_amount s"
  "parse_positive_amount (trim_space s) = parse_positive_amount s"
  by (simp_all add: parse_non_negative_amount_def parse_positive_amount_def)

lemma parse_non_negative_errors:
  "parse_non_negative_amount s = Inl e \<Longrightarrow> e = ErrInvalidAmount"
  by (auto simp: parse_non_negative_amount_def Let_def split: if_splits option.splits)

lemma parse_positive_errors:
  "parse_positive_amount s = Inl e \<Longrightarrow> e = ErrInvalidAmount \<or> e = ErrAmountNegative"
  by (auto simp: parse_positive_amount_def split: sum.splits if_splits
      dest: parse_non_negative_errors)

subsection \<open>Keys\<close>

type_synonym account_key = "string \<times> string"

definition new_account_key :: "string \<Rightarrow> string \<Rightarrow> account_key res" where
  "new_account_key owner denom =
     (let owner = trim_space owner; denom = trim_space denom in
      if owner = [] then Inl ErrInvalidOwner
      else if denom = [] then Inl ErrInvalidDenom
      else Inr (owner, denom))"

lemma new_account_key_Inr:
  "new_account_key ow d = Inr k \<longleftrightarrow>
     k = (trim_space ow, trim_space d) \<and> trim_space ow \<noteq> [] \<and> trim_space d \<noteq> []"
  by (auto simp: new_account_key_def Let_def)

lemma new_account_key_trim [simp]: "new_account_key (trim_space ow) (trim_space d) = new_account_key ow d"
  by (simp add: new_account_key_def)

subsection \<open>The table and its operations\<close>

type_synonym account_state = "(account_key \<times> account) list"

definition new_account_state :: account_state where
  "new_account_state = []"

definition account_get :: "account_state \<Rightarrow> string \<Rightarrow> string \<Rightarrow> account option" where
  "account_get s owner denom =
     (case new_account_key owner denom of Inl _ \<Rightarrow> None | Inr key \<Rightarrow> map_of s key)"

definition zero_account :: "string \<Rightarrow> string \<Rightarrow> account" where
  "zero_account owner denom =
     \<lparr>acc_owner = owner, acc_denom = denom, acc_balance = ''0'', acc_nonce = ''0''\<rparr>"

definition account_get_or_zero :: "account_state \<Rightarrow> string \<Rightarrow> string \<Rightarrow> account" where
  "account_get_or_zero s owner denom =
     (case account_get s owner denom of Some acc \<Rightarrow> acc | None \<Rightarrow> zero_account owner denom)"

definition credit :: "account_state \<Rightarrow> string \<Rightarrow> string \<Rightarrow> string \<Rightarrow> (account_state \<times> account) res" where
  "credit s owner denom amount =
     (case new_account_key owner denom of Inl e \<Rightarrow> Inl e
      | Inr key \<Rightarrow>
     (case parse_positive_amount amount of Inl e \<Rightarrow> Inl e
      | Inr delta \<Rightarrow>
        let acc = (case map_of s key of Some acc \<Rightarrow> acc | None \<Rightarrow> zero_account (fst key) (snd key)) in
     (case parse_non_negative_amount (acc_balance acc) of Inl e \<Rightarrow> Inl e
      | Inr bal \<Rightarrow>
        let acc' = acc\<lparr>acc_balance := nat_to_dec (bal + delta)\<rparr>
        in Inr (AList.update key acc' s, acc'))))"

definition debit :: "account_state \<Rightarrow> string \<Rightarrow> string \<Rightarrow> string \<Rightarrow> (account_state \<times> account) res" where
  "debit s owner denom amount =
     (case new_account_key owner denom of Inl e \<Rightarrow> Inl e
      | Inr key \<Rightarrow>
     (case parse_positive_amount amount of Inl e \<Rightarrow> Inl e
      | Inr delta \<Rightarrow>
        let acc = (case map_of s key of Some acc \<Rightarrow> acc | None \<Rightarrow> zero_account (fst key) (snd key)) in
     (case parse_non_negative_amount (acc_balance acc) of Inl e \<Rightarrow> Inl e
      | Inr bal \<Rightarrow>
        if bal < delta then Inl ErrInsufficientBalance
        else
     (case parse_non_negative_amount (acc_nonce acc) of Inl e \<Rightarrow> Inl e
      | Inr nonce \<Rightarrow>
        let acc' = acc\<lparr>acc_balance := nat_to_dec (bal - delta), acc_nonce := nat_to_dec (nonce + 1)\<rparr>
        in Inr (AList.update key acc' s, acc')))))"

text \<open>
  \<^verbatim>\<open>sort.Slice\<close> with the comparison by owner and then denom: the accounts of a table have
  pairwise different keys, so the result does not depend on the sorting algorithm
  (\<open>sort_accounts_unique\<close> below).
\<close>

definition account_key_of :: "account \<Rightarrow> account_key" where
  "account_key_of a = (acc_owner a, acc_denom a)"

definition sort_accounts :: "account list \<Rightarrow> account list" where
  "sort_accounts out = sort_key account_key_of out"

definition snapshot_accounts :: "account_state \<Rightarrow> account list" where
  "snapshot_accounts s = sort_accounts (map snd s)"

subsection \<open>Well-formed tables\<close>

text \<open>
  An account is stored under its own, trimmed and non-empty, key, and its amounts are canonical
  decimals. This is what makes the \<^verbatim>\<open>corrupt balance\<close> and \<^verbatim>\<open>corrupt nonce\<close>
  branches unreachable.
\<close>

definition wf_account :: "account_key \<Rightarrow> account \<Rightarrow> bool" where
  "wf_account k a \<longleftrightarrow> account_key_of a = k \<and> new_account_key (fst k) (snd k) = Inr k
     \<and> (\<exists>b. acc_balance a = nat_to_dec b) \<and> (\<exists>n. acc_nonce a = nat_to_dec n)"

definition wf_accounts :: "account_state \<Rightarrow> bool" where
  "wf_accounts s \<longleftrightarrow> distinct (map fst s) \<and> (\<forall>(k, a) \<in> set s. wf_account k a)"

lemma zero_eq_dec: "''0'' = nat_to_dec 0"
  by (simp add: nat_to_dec.simps [of 0] digit_char_eval)

lemma parse_zero [simp]: "parse_non_negative_amount ''0'' = Inr 0"
  by (simp add: zero_eq_dec)

lemma wf_accounts_new [simp]: "wf_accounts new_account_state"
  by (simp add: wf_accounts_def new_account_state_def)

lemma wf_accounts_lookup: "wf_accounts s \<Longrightarrow> map_of s k = Some a \<Longrightarrow> wf_account k a"
  by (auto simp: wf_accounts_def dest: map_of_SomeD)

lemma wf_accounts_update:
  assumes "wf_accounts s" and "wf_account k a"
  shows "wf_accounts (AList.update k a s)"
proof -
  have "distinct (map fst (AList.update k a s))" using assms by (auto simp: wf_accounts_def)
  moreover have "wf_account k' a'" if "(k', a') \<in> set (AList.update k a s)" for k' a'
  proof -
    have "map_of (AList.update k a s) k' = Some a'"
      using that calculation by (rule map_of_is_SomeI [rotated])
    with assms show ?thesis by (auto split: if_splits dest: wf_accounts_lookup)
  qed
  ultimately show ?thesis by (auto simp: wf_accounts_def)
qed

lemma wf_zero_account:
  "new_account_key (fst k) (snd k) = Inr k \<Longrightarrow> wf_account k (zero_account (fst k) (snd k))"
  by (auto simp: wf_account_def zero_account_def account_key_of_def zero_eq_dec)

subsection \<open>The abstract ledger\<close>

text \<open>
  The number a string of the table stands for, and the abstract view of a table: for every key
  with an account, its balance and nonce as numbers.
\<close>

definition amount_of :: "string \<Rightarrow> nat" where
  "amount_of s = (case parse_non_negative_amount s of Inl _ \<Rightarrow> 0 | Inr n \<Rightarrow> n)"

type_synonym ledger = "account_key \<rightharpoonup> nat \<times> nat"

definition bal_of :: "ledger \<Rightarrow> account_key \<Rightarrow> nat" where
  "bal_of L k = (case L k of None \<Rightarrow> 0 | Some (b, _) \<Rightarrow> b)"

definition nonce_of :: "ledger \<Rightarrow> account_key \<Rightarrow> nat" where
  "nonce_of L k = (case L k of None \<Rightarrow> 0 | Some (_, n) \<Rightarrow> n)"

definition amounts_of :: "account \<Rightarrow> nat \<times> nat" where
  "amounts_of a = (amount_of (acc_balance a), amount_of (acc_nonce a))"

definition ledger_of :: "account_state \<Rightarrow> ledger" where
  "ledger_of s k = map_option amounts_of (map_of s k)"

definition ledger_credit :: "account_key \<Rightarrow> nat \<Rightarrow> ledger \<Rightarrow> ledger" where
  "ledger_credit k n L = L(k \<mapsto> (bal_of L k + n, nonce_of L k))"

definition ledger_debit :: "account_key \<Rightarrow> nat \<Rightarrow> ledger \<Rightarrow> ledger" where
  "ledger_debit k n L = L(k \<mapsto> (bal_of L k - n, nonce_of L k + 1))"

lemma bal_nonce_upd [simp]:
  "bal_of (L(k \<mapsto> (b, n))) k' = (if k' = k then b else bal_of L k')"
  "nonce_of (L(k \<mapsto> (b, n))) k' = (if k' = k then n else nonce_of L k')"
  by (simp_all add: bal_of_def nonce_of_def)

lemma bal_nonce_empty [simp]: "bal_of Map.empty k = 0" "nonce_of Map.empty k = 0"
  by (simp_all add: bal_of_def nonce_of_def)

lemma bal_credit [simp]: "bal_of (ledger_credit k n L) k' = bal_of L k' + (if k' = k then n else 0)"
  and nonce_credit [simp]: "nonce_of (ledger_credit k n L) k' = nonce_of L k'"
  by (auto simp: ledger_credit_def)

lemma bal_debit [simp]: "bal_of (ledger_debit k n L) k' = bal_of L k' - (if k' = k then n else 0)"
  and nonce_debit [simp]: "nonce_of (ledger_debit k n L) k' = nonce_of L k' + (if k' = k then 1 else 0)"
  by (auto simp: ledger_debit_def)

lemma amount_of_nat_to_dec [simp]: "amount_of (nat_to_dec n) = n"
  by (simp add: amount_of_def)

lemma amount_of_zero [simp]: "amount_of ''0'' = 0"
  by (simp add: amount_of_def)

lemma ledger_of_new [simp]: "ledger_of new_account_state = Map.empty"
  by (simp add: ledger_of_def new_account_state_def fun_eq_iff)

text \<open>What a lookup in a well-formed table returns, read as numbers.\<close>

definition lookup_account :: "account_state \<Rightarrow> account_key \<Rightarrow> account" where
  "lookup_account s k = (case map_of s k of Some acc \<Rightarrow> acc | None \<Rightarrow> zero_account (fst k) (snd k))"

lemma lookup_account_wf:
  assumes "wf_accounts s" and "new_account_key (fst k) (snd k) = Inr k"
  shows "wf_account k (lookup_account s k)"
  using assms wf_zero_account
  by (auto simp: lookup_account_def split: option.splits dest: wf_accounts_lookup)

lemma lookup_account_amounts:
  assumes "wf_accounts s" and "new_account_key (fst k) (snd k) = Inr k"
  shows "acc_balance (lookup_account s k) = nat_to_dec (bal_of (ledger_of s) k)"
    and "acc_nonce (lookup_account s k) = nat_to_dec (nonce_of (ledger_of s) k)"
  using lookup_account_wf [OF assms]
  by (auto simp: lookup_account_def ledger_of_def bal_of_def nonce_of_def amounts_of_def
      wf_account_def zero_account_def zero_eq_dec split: option.splits)

lemma valid_key_trim:
  "new_account_key ow d = Inr k \<Longrightarrow> new_account_key (fst k) (snd k) = Inr k"
  by (auto simp: new_account_key_Inr)

lemma get_or_zero_amounts:
  assumes "wf_accounts s" and "new_account_key ow d = Inr k"
  shows "acc_balance (account_get_or_zero s ow d) = nat_to_dec (bal_of (ledger_of s) k)"
    and "acc_nonce (account_get_or_zero s ow d) = nat_to_dec (nonce_of (ledger_of s) k)"
  using lookup_account_amounts [OF assms(1) valid_key_trim [OF assms(2)]] assms(2)
  by (auto simp: account_get_or_zero_def account_get_def lookup_account_def zero_account_def
      split: option.splits)

subsection \<open>What the operations do\<close>

text \<open>
  On a well-formed table the two mutators are exactly: check the key, check the amount, check the
  balance, then write one account. The unreachable branches are gone.
\<close>

lemma credit_eq:
  assumes "wf_accounts s"
  shows "credit s ow d amt =
    (case new_account_key ow d of Inl e \<Rightarrow> Inl e
     | Inr k \<Rightarrow> (case parse_positive_amount amt of Inl e \<Rightarrow> Inl e
     | Inr n \<Rightarrow>
        let acc' = (lookup_account s k)\<lparr>acc_balance := nat_to_dec (bal_of (ledger_of s) k + n)\<rparr>
        in Inr (AList.update k acc' s, acc')))"
proof (cases "new_account_key ow d")
  case (Inr k)
  note amounts = lookup_account_amounts [OF assms valid_key_trim [OF Inr]]
  show ?thesis
    by (cases "parse_positive_amount amt")
       (simp_all add: credit_def lookup_account_def [symmetric] Let_def Inr amounts)
qed (simp add: credit_def)

lemma debit_eq:
  assumes "wf_accounts s"
  shows "debit s ow d amt =
    (case new_account_key ow d of Inl e \<Rightarrow> Inl e
     | Inr k \<Rightarrow> (case parse_positive_amount amt of Inl e \<Rightarrow> Inl e
     | Inr n \<Rightarrow>
        if bal_of (ledger_of s) k < n then Inl ErrInsufficientBalance
        else let acc' = (lookup_account s k)\<lparr>acc_balance := nat_to_dec (bal_of (ledger_of s) k - n),
                   acc_nonce := nat_to_dec (nonce_of (ledger_of s) k + 1)\<rparr>
             in Inr (AList.update k acc' s, acc')))"
proof (cases "new_account_key ow d")
  case (Inr k)
  note amounts = lookup_account_amounts [OF assms valid_key_trim [OF Inr]]
  show ?thesis
    by (cases "parse_positive_amount amt")
       (simp_all add: debit_def lookup_account_def [symmetric] Let_def Inr amounts)
qed (simp add: debit_def)

lemma credit_wf:
  assumes "wf_accounts s" and "credit s ow d amt = Inr (s', a)"
  shows "wf_accounts s'"
proof (cases "new_account_key ow d")
  case (Inr k)
  have "wf_account k (lookup_account s k)"
    by (rule lookup_account_wf [OF assms(1) valid_key_trim [OF Inr]])
  with assms Inr show ?thesis
    by (auto simp: credit_eq Let_def wf_account_def account_key_of_def
        split: sum.splits if_splits intro!: wf_accounts_update)
qed (use assms in \<open>simp add: credit_def\<close>)

lemma debit_wf:
  assumes "wf_accounts s" and "debit s ow d amt = Inr (s', a)"
  shows "wf_accounts s'"
proof (cases "new_account_key ow d")
  case (Inr k)
  have "wf_account k (lookup_account s k)"
    by (rule lookup_account_wf [OF assms(1) valid_key_trim [OF Inr]])
  with assms Inr show ?thesis
    by (auto simp: debit_eq Let_def wf_account_def account_key_of_def
        split: sum.splits if_splits intro!: wf_accounts_update)
qed (use assms in \<open>simp add: debit_def\<close>)

lemma ledger_of_update:
  "ledger_of (AList.update k a s) = (ledger_of s)(k \<mapsto> amounts_of a)"
  by (auto simp: ledger_of_def fun_eq_iff)

lemma credit_ledger:
  assumes "wf_accounts s" and "credit s ow d amt = Inr (s', a)"
  shows "\<exists>k n. new_account_key ow d = Inr k \<and> parse_positive_amount amt = Inr n
    \<and> ledger_of s' = ledger_credit k n (ledger_of s)"
proof (cases "new_account_key ow d")
  case (Inr k)
  note amounts = lookup_account_amounts [OF assms(1) valid_key_trim [OF Inr]]
  from assms Inr show ?thesis
    by (auto simp: credit_eq Let_def ledger_of_update amounts_of_def ledger_credit_def amounts
        split: sum.splits if_splits)
qed (use assms in \<open>simp add: credit_def\<close>)

lemma debit_ledger:
  assumes "wf_accounts s" and "debit s ow d amt = Inr (s', a)"
  shows "\<exists>k n. new_account_key ow d = Inr k \<and> parse_positive_amount amt = Inr n
    \<and> n \<le> bal_of (ledger_of s) k \<and> ledger_of s' = ledger_debit k n (ledger_of s)"
proof (cases "new_account_key ow d")
  case (Inr k)
  note amounts = lookup_account_amounts [OF assms(1) valid_key_trim [OF Inr]]
  from assms Inr show ?thesis
    by (auto simp: debit_eq Let_def ledger_of_update amounts_of_def ledger_debit_def amounts
        split: sum.splits if_splits)
qed (use assms in \<open>simp add: debit_def\<close>)

subsection \<open>The snapshot does not depend on map iteration order\<close>

lemma wf_accounts_keys: "wf_accounts s \<Longrightarrow> map account_key_of (map snd s) = map fst s"
  by (auto simp: wf_accounts_def wf_account_def)

lemma sort_accounts_unique:
  assumes "set xs = set ys" and "distinct (map account_key_of xs)" and "distinct (map account_key_of ys)"
  shows "sort_accounts xs = sort_accounts ys"
  unfolding sort_accounts_def by (rule sort_key_unique [OF assms])

lemma snapshot_accounts_cong:
  assumes "wf_accounts s" and "wf_accounts s'" and "map_of s = map_of s'"
  shows "snapshot_accounts s = snapshot_accounts s'"
proof -
  have "set s = set s'"
    by (rule set_map_of_cong) (use assms in \<open>simp_all add: wf_accounts_def\<close>)
  then have "set (map snd s) = set (map snd s')" by simp
  moreover have "distinct (map account_key_of (map snd s))" "distinct (map account_key_of (map snd s'))"
    using assms wf_accounts_keys by (auto simp only: wf_accounts_def)
  ultimately show ?thesis unfolding snapshot_accounts_def by (rule sort_accounts_unique)
qed

text \<open>
  A well-formed account is determined by its key and its two numbers, so the abstract ledger
  determines the snapshot: the state root is a function of the ledger.
\<close>

lemma wf_account_determined:
  "wf_account k a \<Longrightarrow> wf_account k b \<Longrightarrow> amounts_of a = amounts_of b \<Longrightarrow> a = (b :: account)"
  by (cases a; cases b) (auto simp: wf_account_def amounts_of_def account_key_of_def)

lemma ledger_determines_table:
  assumes "wf_accounts s" and "wf_accounts s'" and "ledger_of s = ledger_of s'"
  shows "map_of s = map_of s'"
proof
  fix k
  have "map_option amounts_of (map_of s k) = map_option amounts_of (map_of s' k)"
    using fun_cong [OF assms(3), of k] by (simp add: ledger_of_def)
  then show "map_of s k = map_of s' k"
    using wf_accounts_lookup [OF assms(1), of k] wf_accounts_lookup [OF assms(2), of k]
    by (cases "map_of s k"; cases "map_of s' k") (auto dest: wf_account_determined)
qed

lemma ledger_determines_snapshot:
  assumes "wf_accounts s" and "wf_accounts s'" and "ledger_of s = ledger_of s'"
  shows "snapshot_accounts s = snapshot_accounts s'"
  using assms ledger_determines_table snapshot_accounts_cong by blast

end
