(* ===== verification/Go_Hash.thy ===== *)
theory Go_Hash
  imports Go_Strings
begin

text \<open>
  \<^verbatim>\<open>crypto/sha256\<close>, \<^verbatim>\<open>encoding/hex\<close> and the helpers of
  \<^verbatim>\<open>pkg/hash/hash.go\<close>. The digest is modelled as the standard defines it (FIPS 180-4), on
  32-bit words, so every root, nullifier and commitment of the model is the string the program
  computes. What the program relies on is only the shape of a digest: \<^verbatim>\<open>0x\<close> followed by
  64 lower-case hexadecimal digits. Nothing here assumes that the digest has no collisions; a
  theorem that needs two digests to differ says so.
\<close>

unbundle bit_operations_syntax

type_synonym u32 = "32 word"

subsection \<open>The SHA-256 compression function\<close>

definition sha_rotr :: "nat \<Rightarrow> u32 \<Rightarrow> u32" where
  "sha_rotr n x = drop_bit n x OR push_bit (32 - n) x"

definition sha_big0 :: "u32 \<Rightarrow> u32" where
  "sha_big0 x = sha_rotr 2 x XOR sha_rotr 13 x XOR sha_rotr 22 x"

definition sha_big1 :: "u32 \<Rightarrow> u32" where
  "sha_big1 x = sha_rotr 6 x XOR sha_rotr 11 x XOR sha_rotr 25 x"

definition sha_small0 :: "u32 \<Rightarrow> u32" where
  "sha_small0 x = sha_rotr 7 x XOR sha_rotr 18 x XOR drop_bit 3 x"

definition sha_small1 :: "u32 \<Rightarrow> u32" where
  "sha_small1 x = sha_rotr 17 x XOR sha_rotr 19 x XOR drop_bit 10 x"

definition sha_choose :: "u32 \<Rightarrow> u32 \<Rightarrow> u32 \<Rightarrow> u32" where
  "sha_choose x y z = (x AND y) XOR (NOT x AND z)"

definition sha_majority :: "u32 \<Rightarrow> u32 \<Rightarrow> u32 \<Rightarrow> u32" where
  "sha_majority x y z = (x AND y) XOR (x AND z) XOR (y AND z)"

definition sha_round_keys :: "u32 list" where
  "sha_round_keys =
     [1116352408, 1899447441, 3049323471, 3921009573, 961987163, 1508970993,
      2453635748, 2870763221, 3624381080, 310598401, 607225278, 1426881987,
      1925078388, 2162078206, 2614888103, 3248222580, 3835390401, 4022224774,
      264347078, 604807628, 770255983, 1249150122, 1555081692, 1996064986,
      2554220882, 2821834349, 2952996808, 3210313671, 3336571891, 3584528711,
      113926993, 338241895, 666307205, 773529912, 1294757372, 1396182291,
      1695183700, 1986661051, 2177026350, 2456956037, 2730485921, 2820302411,
      3259730800, 3345764771, 3516065817, 3600352804, 4094571909, 275423344,
      430227734, 506948616, 659060556, 883997877, 958139571, 1322822218,
      1537002063, 1747873779, 1955562222, 2024104815, 2227730452, 2361852424,
      2428436474, 2756734187, 3204031479, 3329325298]"

datatype sha_state = ShaState u32 u32 u32 u32 u32 u32 u32 u32

definition sha_initial :: sha_state where
  "sha_initial = ShaState 1779033703 3144134277 1013904242 2773480762 1359893119 2600822924 528734635 1541459225"

text \<open>
  The message schedule is a window of sixteen words that slides by one word in each of the 64
  rounds; a round consumes one key and the first word of the window.
\<close>

definition sha_next_word :: "u32 list \<Rightarrow> u32" where
  "sha_next_word w = sha_small1 (w ! 14) + w ! 9 + sha_small0 (w ! 1) + w ! 0"

fun sha_mix :: "u32 \<Rightarrow> u32 \<Rightarrow> sha_state \<Rightarrow> sha_state" where
  "sha_mix t1 t2 (ShaState a b c d e f g h) = ShaState (t1 + t2) a b c (d + t1) e f g"

fun sha_round :: "sha_state \<Rightarrow> u32 \<Rightarrow> u32 \<Rightarrow> sha_state" where
  "sha_round (ShaState a b c d e f g h) k w =
     sha_mix (h + sha_big1 e + sha_choose e f g + k + w) (sha_big0 a + sha_majority a b c)
       (ShaState a b c d e f g h)"

fun sha_rounds :: "sha_state \<Rightarrow> u32 list \<Rightarrow> u32 list \<Rightarrow> sha_state" where
  "sha_rounds s [] w = s"
| "sha_rounds s (k # ks) w = sha_rounds (sha_round s k (hd w)) ks (tl w @ [sha_next_word w])"

fun sha_add :: "sha_state \<Rightarrow> sha_state \<Rightarrow> sha_state" where
  "sha_add (ShaState a b c d e f g h) (ShaState a' b' c' d' e' f' g' h') =
     ShaState (a + a') (b + b') (c + c') (d + d') (e + e') (f + f') (g + g') (h + h')"

definition sha_block :: "sha_state \<Rightarrow> u32 list \<Rightarrow> sha_state" where
  "sha_block s w = sha_add s (sha_rounds s sha_round_keys w)"

subsection \<open>Padding, blocks and output\<close>

fun bytes_to_words :: "string \<Rightarrow> u32 list" where
  "bytes_to_words (a # b # c # d # cs) =
     (of_char a * 16777216 + of_char b * 65536 + of_char c * 256 + of_char d) # bytes_to_words cs"
| "bytes_to_words _ = []"

text \<open>
  A message of \<open>n\<close> bytes is followed by a byte \<open>0x80\<close>, zeros up to 56 modulo 64, and the bit
  length in eight big-endian bytes.
\<close>

fun be_bytes :: "nat \<Rightarrow> nat \<Rightarrow> string" where
  "be_bytes 0 n = []"
| "be_bytes (Suc k) n = be_bytes k (n div 256) @ [char_of (n mod 256)]"

definition sha_pad :: "string \<Rightarrow> string" where
  "sha_pad m = m @ CHR 0x80 # replicate ((119 - length m mod 64) mod 64) (CHR 0x00)
     @ be_bytes 8 (8 * length m)"

fun sha_blocks :: "sha_state \<Rightarrow> nat \<Rightarrow> u32 list \<Rightarrow> sha_state" where
  "sha_blocks s 0 ws = s"
| "sha_blocks s (Suc n) ws = sha_blocks (sha_block s (take 16 ws)) n (drop 16 ws)"

fun sha_words :: "sha_state \<Rightarrow> u32 list" where
  "sha_words (ShaState a b c d e f g h) = [a, b, c, d, e, f, g, h]"

definition sha256_sum :: "string \<Rightarrow> string" where
  "sha256_sum m = concat (map (\<lambda>w. be_bytes 4 (unat w))
     (sha_words (sha_blocks sha_initial (length (sha_pad m) div 64) (bytes_to_words (sha_pad m)))))"

definition hex_digit :: "nat \<Rightarrow> char" where
  "hex_digit d = (if d < 10 then char_of (48 + d) else char_of (87 + d))"

definition hex_encode :: "string \<Rightarrow> string" where
  "hex_encode s = concat (map (\<lambda>c. [hex_digit (of_char c div 16), hex_digit (of_char c mod 16)]) s)"

subsection \<open>pkg/hash\<close>

definition hex_prefix :: string where
  "hex_prefix = ''0x''"

definition sha256_hex :: "string \<Rightarrow> string" where
  "sha256_hex data = hex_prefix @ hex_encode (sha256_sum data)"

definition is_hex_prefixed :: "string \<Rightarrow> bool" where
  "is_hex_prefixed s = prefix hex_prefix s"

definition strip_hex :: "string \<Rightarrow> string" where
  "strip_hex s = (if is_hex_prefixed s then drop (length hex_prefix) s else s)"

subsection \<open>The shape of a digest\<close>

lemma length_be_bytes [simp]: "length (be_bytes k n) = k"
  by (induction k arbitrary: n) auto

lemma length_sha256_sum: "length (sha256_sum m) = 32"
  by (cases "sha_blocks sha_initial (length (sha_pad m) div 64) (bytes_to_words (sha_pad m))")
     (simp add: sha256_sum_def)

lemma length_hex_encode: "length (hex_encode s) = 2 * length s"
  by (simp add: hex_encode_def length_concat comp_def sum_list_triv)

lemma length_sha_pad_mod: "length (sha_pad m) mod 64 = 0"
proof -
  define q r where "q = length m div 64" and "r = length m mod 64"
  then have len: "length m = 64 * q + r" and r: "r < 64" by simp_all
  have "(119 - r) mod 64 = (if r \<le> 55 then 55 - r else 119 - r)"
    using r by (simp add: mod_if)
  with r have "\<exists>k. 64 * q + r + (119 - r) mod 64 + 9 = 64 * k"
    by (intro exI [where x = "if r \<le> 55 then q + 1 else q + 2"]) auto
  then obtain k where "64 * q + r + (119 - r) mod 64 + 9 = 64 * k" by blast
  then have "length (sha_pad m) = 64 * k"
    unfolding sha_pad_def by (simp add: len r)
  then show ?thesis by simp
qed

lemma plain_hex_digit: "d < 16 \<Longrightarrow> plain_char (hex_digit d)"
  by (auto simp: plain_char_def hex_digit_def)

lemma list_all_hex_encode: "list_all plain_char (hex_encode s)"
proof -
  have "(of_char c :: nat) div 16 < 16" "(of_char c :: nat) mod 16 < 16" for c :: char
    using nat_of_char_less_256 [of c] by (simp_all add: less_mult_imp_div_less)
  then show ?thesis
    by (auto simp: hex_encode_def list_all_iff intro: plain_hex_digit)
qed

lemma length_sha256_hex [simp]: "length (sha256_hex m) = 66"
  by (simp add: sha256_hex_def length_hex_encode length_sha256_sum hex_prefix_def)

lemma plain_sha256_hex: "plain (sha256_hex m)"
  by (simp add: plain_def sha256_hex_def list_all_hex_encode hex_prefix_def plain_char_def)

lemma trim_space_sha256_hex [simp, go_eval]: "trim_space (sha256_hex m) = sha256_hex m"
  by (simp add: trim_space_plain plain_sha256_hex)

lemma is_hex_prefixed_sha256_hex [simp, go_eval]: "is_hex_prefixed (sha256_hex m)"
  by (simp add: is_hex_prefixed_def sha256_hex_def)

lemma length_strip_hex_sha256_hex [simp, go_eval]: "length (strip_hex (sha256_hex m)) = 64"
  by (simp add: strip_hex_def hex_prefix_def)

lemma sha256_hex_neq_short [go_eval]:
  "length s \<noteq> 66 \<Longrightarrow> sha256_hex m \<noteq> s" "length s \<noteq> 66 \<Longrightarrow> s \<noteq> sha256_hex m"
  by auto

lemma sha256_hex_not_Nil [simp]: "sha256_hex m \<noteq> []"
  using length_sha256_hex [of m] by fastforce

text \<open>
  The interface the builders rely on: whatever digest the protocol settles on, its output is a
  non-empty hexadecimal string with prefix, stable under trimming. \<^verbatim>\<open>batch.validateHex\<close>
  and \<^verbatim>\<open>batch.validateRoot\<close> accept exactly such strings.
\<close>

definition hex_value :: "string \<Rightarrow> bool" where
  "hex_value v \<longleftrightarrow> trim_space v \<noteq> [] \<and> is_hex_prefixed (trim_space v)
     \<and> strip_hex (trim_space v) \<noteq> []"

locale hex_digest =
  fixes H :: "string \<Rightarrow> string" and size :: nat
  assumes prefixed: "is_hex_prefixed (H m)"
    and trimmed: "trim_space (H m) = H m"
    and size: "length (H m) = size"
    and size_min: "2 < size"
begin

lemma hex_value: "hex_value (H m)"
proof -
  have "length (strip_hex (H m)) = size - 2"
    by (simp add: strip_hex_def prefixed size hex_prefix_def)
  then have "strip_hex (H m) \<noteq> []" using size_min by auto
  moreover have "H m \<noteq> []" using size [of m] size_min by auto
  ultimately show ?thesis by (simp add: hex_value_def trimmed prefixed)
qed

lemma differs: "length s \<noteq> size \<Longrightarrow> H m \<noteq> s"
  using size by auto

end

interpretation sha: hex_digest sha256_hex 66
  by unfold_locales simp_all

lemma hex_value_sha256_hex [simp, go_eval]: "hex_value (sha256_hex m)"
  by (rule sha.hex_value)

end
