(* ===== verification/Go_Json.thy ===== *)
theory Go_Json
  imports Go_Types
begin

text \<open>
  \<^verbatim>\<open>encoding/json\<close> as \<^verbatim>\<open>state.ComputeRoot\<close> uses it: \<^verbatim>\<open>json.Marshal\<close> of a slice
  of \<^verbatim>\<open>types.Account\<close>. Strings are written with HTML escaping, as \<^verbatim>\<open>Marshal\<close> does:
  the quote, the backslash, control bytes, \<^verbatim>\<open><\<close>, \<^verbatim>\<open>>\<close> and \<^verbatim>\<open>&\<close> are
  escaped, a byte that starts no valid UTF-8 sequence becomes the escape of U+FFFD, and U+2028 and
  U+2029 are escaped.
\<close>

subsection \<open>UTF-8\<close>

definition byte :: "char \<Rightarrow> nat" where
  "byte c = of_char c"

definition cont_byte :: "char \<Rightarrow> bool" where
  "cont_byte c \<longleftrightarrow> 128 \<le> byte c \<and> byte c \<le> 191"

text \<open>
  The length of the valid encoding at the front of a string, 0 where there is none
  (\<^verbatim>\<open>utf8.DecodeRuneInString\<close> then returns \<^verbatim>\<open>(RuneError, 1)\<close>).
\<close>

definition utf8_len :: "string \<Rightarrow> nat" where
  "utf8_len s = (case s of [] \<Rightarrow> 0 | b0 # r \<Rightarrow>
     if byte b0 < 128 then 1
     else (case r of [] \<Rightarrow> 0 | b1 # r1 \<Rightarrow>
       if 194 \<le> byte b0 \<and> byte b0 \<le> 223 then (if cont_byte b1 then 2 else 0)
       else (case r1 of [] \<Rightarrow> 0 | b2 # r2 \<Rightarrow>
         if 224 \<le> byte b0 \<and> byte b0 \<le> 239 then
           (if (if byte b0 = 224 then 160 \<le> byte b1 \<and> byte b1 \<le> 191
                else if byte b0 = 237 then 128 \<le> byte b1 \<and> byte b1 \<le> 159
                else cont_byte b1) \<and> cont_byte b2 then 3 else 0)
         else (case r2 of [] \<Rightarrow> 0 | b3 # _ \<Rightarrow>
           if 240 \<le> byte b0 \<and> byte b0 \<le> 244 then
             (if (if byte b0 = 240 then 144 \<le> byte b1 \<and> byte b1 \<le> 191
                  else if byte b0 = 244 then 128 \<le> byte b1 \<and> byte b1 \<le> 143
                  else cont_byte b1) \<and> cont_byte b2 \<and> cont_byte b3 then 4 else 0)
           else 0))))"

subsection \<open>Strings\<close>

definition lower_hex :: "nat \<Rightarrow> char" where
  "lower_hex d = (if d < 10 then char_of (48 + d) else char_of (87 + d))"

definition json_ascii :: "char \<Rightarrow> string" where
  "json_ascii c =
     (if c = CHR 0x22 \<or> c = CHR 0x5C then [CHR 0x5C, c]
      else if c = CHR 0x08 then [CHR 0x5C, CHR ''b'']
      else if c = CHR 0x0C then [CHR 0x5C, CHR ''f'']
      else if c = CHR 0x0A then [CHR 0x5C, CHR ''n'']
      else if c = CHR 0x0D then [CHR 0x5C, CHR ''r'']
      else if c = CHR 0x09 then [CHR 0x5C, CHR ''t'']
      else if byte c < 32 \<or> c = CHR ''<'' \<or> c = CHR ''>'' \<or> c = CHR ''&''
        then CHR 0x5C # ''u00'' @ [lower_hex (byte c div 16), lower_hex (byte c mod 16)]
      else [c])"

text \<open>Each step consumes at least one byte, so the recursion is on the length.\<close>

function json_chars :: "string \<Rightarrow> string" where
  "json_chars s = (case s of [] \<Rightarrow> [] | c # cs \<Rightarrow>
     if byte c < 128 then json_ascii c @ json_chars cs
     else if utf8_len s \<le> 1 then CHR 0x5C # ''ufffd'' @ json_chars cs
     else if take 3 s = [CHR 0xE2, CHR 0x80, CHR 0xA8] then CHR 0x5C # ''u2028'' @ json_chars (drop 3 s)
     else if take 3 s = [CHR 0xE2, CHR 0x80, CHR 0xA9] then CHR 0x5C # ''u2029'' @ json_chars (drop 3 s)
     else take (utf8_len s) s @ json_chars (drop (utf8_len s) s))"
  by pat_completeness auto
termination
  by (relation "measure length") auto

declare json_chars.simps [simp del]

definition json_string :: "string \<Rightarrow> string" where
  "json_string s = CHR 0x22 # json_chars s @ [CHR 0x22]"

subsection \<open>Objects and arrays\<close>

fun json_fields :: "(string \<times> string) list \<Rightarrow> string" where
  "json_fields [] = []"
| "json_fields [(k, v)] = json_string k @ CHR '':'' # v"
| "json_fields ((k, v) # kvs) = json_string k @ CHR '':'' # v @ CHR '','' # json_fields kvs"

definition json_object :: "(string \<times> string) list \<Rightarrow> string" where
  "json_object kvs = CHR 0x7B # json_fields kvs @ [CHR 0x7D]"

fun json_items :: "string list \<Rightarrow> string" where
  "json_items [] = []"
| "json_items [v] = v"
| "json_items (v # vs) = v @ CHR '','' # json_items vs"

definition json_array :: "string list \<Rightarrow> string" where
  "json_array vs = CHR ''['' # json_items vs @ [CHR '']'']"

definition json_account :: "account \<Rightarrow> string" where
  "json_account a = json_object
     [(''owner'', json_string (acc_owner a)), (''denom'', json_string (acc_denom a)),
      (''balance'', json_string (acc_balance a)), (''nonce'', json_string (acc_nonce a))]"

end
