(* ===== verification/Local_State.thy ===== *)
theory Local_State
  imports Account_State Go_Hash Go_Json
begin

text \<open>
  \<^verbatim>\<open>internal/state\<close>: the off-chain mirror. \<^verbatim>\<open>root.go\<close> (the state root),
  \<^verbatim>\<open>local_state.go\<close> (deposits), \<^verbatim>\<open>withdrawal.go\<close> (withdrawals),
  \<^verbatim>\<open>nullifier.go\<close>, \<^verbatim>\<open>withdraw_address_hash.go\<close> and
  \<^verbatim>\<open>withdraw_request.go\<close> (the request builder). In the source every error is returned before
  the first write, so an operation that fails returns only its error here. The mutex makes each
  operation atomic.
\<close>

subsection \<open>The state root\<close>

definition state_domain_tag :: string where
  "state_domain_tag = ''zkdex/state/v1''"

definition root_preimage :: "account list \<Rightarrow> string" where
  "root_preimage accounts = state_domain_tag @ CHR ''|'' # json_array (map json_account accounts)"

definition compute_root :: "account list \<Rightarrow> string" where
  "compute_root accounts = sha256_hex (root_preimage accounts)"

subsection \<open>The mirror\<close>

record local_state =
  ls_accounts :: account_state
  ls_root :: string
  ls_deposits :: "string set"
  ls_nullifiers :: "string set"

definition new_local_state :: local_state where
  "new_local_state = \<lparr>ls_accounts = new_account_state,
     ls_root = compute_root (snapshot_accounts new_account_state),
     ls_deposits = {}, ls_nullifiers = {}\<rparr>"

definition new_local_state_with_genesis_root :: "string \<Rightarrow> local_state" where
  "new_local_state_with_genesis_root genesis =
     (if genesis \<noteq> [] then new_local_state\<lparr>ls_root := genesis\<rparr> else new_local_state)"

definition local_account :: "local_state \<Rightarrow> string \<Rightarrow> string \<Rightarrow> account" where
  "local_account s owner denom = account_get_or_zero (ls_accounts s) owner denom"

definition validate_deposit :: "deposit_record \<Rightarrow> go_error option" where
  "validate_deposit d =
     (if dep_id d = [] then Some ErrInvalidDepositRecord
      else if dep_owner d = [] then Some ErrInvalidDepositRecord
      else if dep_denom d = [] then Some ErrInvalidDepositRecord
      else case parse_positive_amount (dep_amount d) of
          Inl _ \<Rightarrow> Some ErrInvalidDepositRecord | Inr _ \<Rightarrow> None)"

definition apply_deposit :: "local_state \<Rightarrow> deposit_record \<Rightarrow> (local_state \<times> string) res" where
  "apply_deposit s d =
     (case validate_deposit d of Some e \<Rightarrow> Inl e
      | None \<Rightarrow>
        if dep_id d \<in> ls_deposits s then Inl ErrDepositAlreadyApplied
        else case credit (ls_accounts s) (dep_owner d) (dep_denom d) (dep_amount d) of
            Inl e \<Rightarrow> Inl e
          | Inr (accounts, _) \<Rightarrow>
              let root = compute_root (snapshot_accounts accounts)
              in Inr (s\<lparr>ls_accounts := accounts, ls_deposits := insert (dep_id d) (ls_deposits s),
                        ls_root := root\<rparr>, root))"

definition is_deposit_applied :: "local_state \<Rightarrow> string \<Rightarrow> bool" where
  "is_deposit_applied s i \<longleftrightarrow> i \<in> ls_deposits s"

subsection \<open>Withdrawals\<close>

definition validate_withdraw_request :: "withdraw_request \<Rightarrow> go_error option" where
  "validate_withdraw_request r =
     (if trim_space (wr_id r) = [] then Some ErrInvalidWithdrawRequest
      else if trim_space (wr_owner r) = [] then Some ErrInvalidWithdrawRequest
      else if trim_space (wr_denom r) = [] then Some ErrInvalidWithdrawRequest
      else if trim_space (wr_destination r) = [] then Some ErrInvalidWithdrawRequest
      else case parse_positive_amount (wr_amount r) of
          Inl _ \<Rightarrow> Some ErrInvalidWithdrawRequest
        | Inr _ \<Rightarrow> (case parse_non_negative_amount (wr_nonce r) of
              Inl _ \<Rightarrow> Some ErrInvalidWithdrawRequest | Inr _ \<Rightarrow> None))"

definition apply_withdrawal ::
    "local_state \<Rightarrow> withdraw_request \<Rightarrow> string \<Rightarrow> (local_state \<times> string) res" where
  "apply_withdrawal s req nullifier0 =
     (case validate_withdraw_request req of Some e \<Rightarrow> Inl e
      | None \<Rightarrow>
     let nullifier = trim_space nullifier0 in
     if nullifier = [] then Inl ErrInvalidWithdrawRequest
     else case parse_positive_amount (wr_amount req) of Inl _ \<Rightarrow> Inl ErrInvalidWithdrawRequest
      | Inr amount \<Rightarrow>
     (case parse_non_negative_amount (wr_nonce req) of Inl _ \<Rightarrow> Inl ErrInvalidWithdrawRequest
      | Inr req_nonce \<Rightarrow>
     let owner = trim_space (wr_owner req); denom = trim_space (wr_denom req) in
     if nullifier \<in> ls_nullifiers s then Inl ErrWithdrawAlreadyApplied
     else let acc = account_get_or_zero (ls_accounts s) owner denom in
     (case parse_non_negative_amount (acc_balance acc) of Inl e \<Rightarrow> Inl e
      | Inr bal \<Rightarrow>
     if bal < amount then Inl ErrInsufficientBalance
     else (case parse_non_negative_amount (acc_nonce acc) of Inl e \<Rightarrow> Inl e
      | Inr cur_nonce \<Rightarrow>
     if req_nonce \<noteq> cur_nonce + 1 then Inl ErrNonceMismatch
     else (case debit (ls_accounts s) owner denom (wr_amount req) of Inl e \<Rightarrow> Inl e
      | Inr (accounts, _) \<Rightarrow>
        let root = compute_root (snapshot_accounts accounts)
        in Inr (s\<lparr>ls_accounts := accounts, ls_nullifiers := insert nullifier (ls_nullifiers s),
                  ls_root := root\<rparr>, root))))))"

definition is_nullifier_applied :: "local_state \<Rightarrow> string \<Rightarrow> bool" where
  "is_nullifier_applied s nullifier0 =
     (let nullifier = trim_space nullifier0
      in if nullifier = [] then False else nullifier \<in> ls_nullifiers s)"

subsection \<open>Nullifiers and destination hashes\<close>

definition nullifier_domain_tag :: string where
  "nullifier_domain_tag = ''zkdex/nullifier/v0''"

definition nullifier_preimage :: "string \<Rightarrow> nat \<Rightarrow> string" where
  "nullifier_preimage secret nonce =
     nullifier_domain_tag @ CHR ''|'' # secret @ CHR ''|'' # nat_to_dec nonce"

definition nullifier_for :: "string \<Rightarrow> string \<Rightarrow> string res" where
  "nullifier_for user_secret nonce =
     (let secret = trim_space user_secret in
      if secret = [] then Inl ErrInvalidNullifierInput
      else case parse_non_negative_amount nonce of Inl _ \<Rightarrow> Inl ErrInvalidNullifierInput
        | Inr n \<Rightarrow> Inr (sha256_hex (nullifier_preimage secret n)))"

definition withdraw_address_domain_tag :: string where
  "withdraw_address_domain_tag = ''zkdex/withdrawAddr/v0''"

definition address_preimage :: "string \<Rightarrow> string" where
  "address_preimage dest = withdraw_address_domain_tag @ CHR ''|'' # dest"

definition withdraw_address_hash :: "string \<Rightarrow> string res" where
  "withdraw_address_hash destination =
     (let dest = trim_space destination in
      if dest = [] then Inl ErrInvalidWithdrawAddress
      else Inr (sha256_hex (address_preimage dest)))"

subsection \<open>The withdraw request builder\<close>

record withdraw_intent =
  wi_owner :: string
  wi_denom :: string
  wi_amount :: string
  wi_destination :: string

text \<open>The builder's own state is its sequence number; the mirror is only read.\<close>

definition build_withdraw_request ::
    "local_state \<Rightarrow> 64 word \<Rightarrow> withdraw_intent \<Rightarrow> (64 word \<times> withdraw_request) res" where
  "build_withdraw_request s seq intent =
     (let owner = trim_space (wi_owner intent); denom = trim_space (wi_denom intent);
          dest = trim_space (wi_destination intent); amt = trim_space (wi_amount intent) in
      if owner = [] then Inl ErrInvalidWithdrawIntent
      else if denom = [] then Inl ErrInvalidWithdrawIntent
      else if dest = [] then Inl ErrInvalidWithdrawIntent
      else case parse_positive_amount amt of Inl _ \<Rightarrow> Inl ErrInvalidWithdrawIntent
      | Inr amount \<Rightarrow>
      let acc = local_account s owner denom in
      (case parse_non_negative_amount (acc_balance acc) of Inl e \<Rightarrow> Inl e
      | Inr bal \<Rightarrow>
      if bal < amount then Inl ErrInsufficientBalance
      else (case parse_non_negative_amount (acc_nonce acc) of Inl e \<Rightarrow> Inl e
      | Inr current \<Rightarrow>
        Inr (seq + 1, \<lparr>wr_id = ''wd-'' @ format_uint (seq + 1), wr_owner = owner, wr_denom = denom,
          wr_amount = nat_to_dec amount, wr_destination = dest,
          wr_nonce = nat_to_dec (current + 1), wr_signature = []\<rparr>))))"

subsection \<open>Invariants\<close>

definition wf_local :: "local_state \<Rightarrow> bool" where
  "wf_local s \<longleftrightarrow> wf_accounts (ls_accounts s)"

text \<open>The root is that of the accounts: true after every successful operation.\<close>

definition root_current :: "local_state \<Rightarrow> bool" where
  "root_current s \<longleftrightarrow> ls_root s = compute_root (snapshot_accounts (ls_accounts s))"

abbreviation local_ledger :: "local_state \<Rightarrow> ledger" where
  "local_ledger s \<equiv> ledger_of (ls_accounts s)"

lemma wf_local_new [simp]: "wf_local new_local_state"
  by (simp add: wf_local_def new_local_state_def)

lemma wf_local_genesis [simp]: "wf_local (new_local_state_with_genesis_root g)"
  by (simp add: wf_local_def new_local_state_with_genesis_root_def new_local_state_def)

lemma root_current_new [simp]: "root_current new_local_state"
  by (simp add: root_current_def new_local_state_def)

subsection \<open>The abstract specification\<close>

text \<open>
  The contract of the mirror, without strings: a ledger of numbers, the set of deposits credited and
  the set of nullifiers consumed. The order of the checks is part of it, since it decides which
  error a caller sees.
\<close>

record mirror =
  mi_ledger :: ledger
  mi_deposits :: "string set"
  mi_nullifiers :: "string set"

definition mirror_of :: "local_state \<Rightarrow> mirror" where
  "mirror_of s = \<lparr>mi_ledger = local_ledger s, mi_deposits = ls_deposits s,
     mi_nullifiers = ls_nullifiers s\<rparr>"

definition spec_deposit :: "mirror \<Rightarrow> deposit_record \<Rightarrow> mirror res" where
  "spec_deposit M d =
     (if dep_id d = [] \<or> dep_owner d = [] \<or> dep_denom d = []
         \<or> \<not> is_ok (parse_positive_amount (dep_amount d)) then Inl ErrInvalidDepositRecord
      else if dep_id d \<in> mi_deposits M then Inl ErrDepositAlreadyApplied
      else if trim_space (dep_owner d) = [] then Inl ErrInvalidOwner
      else if trim_space (dep_denom d) = [] then Inl ErrInvalidDenom
      else Inr (M\<lparr>mi_ledger := ledger_credit (trim_space (dep_owner d), trim_space (dep_denom d))
                    (amount_of (dep_amount d)) (mi_ledger M),
                  mi_deposits := insert (dep_id d) (mi_deposits M)\<rparr>))"

definition spec_withdrawal :: "mirror \<Rightarrow> withdraw_request \<Rightarrow> string \<Rightarrow> mirror res" where
  "spec_withdrawal M r nullifier =
     (let k = (trim_space (wr_owner r), trim_space (wr_denom r)); nf = trim_space nullifier;
          n = amount_of (wr_amount r); c = amount_of (wr_nonce r) in
      if trim_space (wr_id r) = [] \<or> fst k = [] \<or> snd k = [] \<or> trim_space (wr_destination r) = []
         \<or> \<not> is_ok (parse_positive_amount (wr_amount r))
         \<or> \<not> is_ok (parse_non_negative_amount (wr_nonce r)) \<or> nf = []
        then Inl ErrInvalidWithdrawRequest
      else if nf \<in> mi_nullifiers M then Inl ErrWithdrawAlreadyApplied
      else if bal_of (mi_ledger M) k < n then Inl ErrInsufficientBalance
      else if c \<noteq> nonce_of (mi_ledger M) k + 1 then Inl ErrNonceMismatch
      else Inr (M\<lparr>mi_ledger := ledger_debit k n (mi_ledger M),
                  mi_nullifiers := insert nf (mi_nullifiers M)\<rparr>))"

text \<open>
  A successful result of the concrete operation, seen through the abstraction: the new mirror is
  abstracted, the new state is well-formed, and the returned root is that of the new accounts.
\<close>

definition abstracts :: "(local_state \<times> string) res \<Rightarrow> mirror res \<Rightarrow> bool" where
  "abstracts c a = (case c of Inl e \<Rightarrow> a = Inl e
     | Inr (s, root) \<Rightarrow> a = Inr (mirror_of s) \<and> wf_local s \<and> root_current s \<and> root = ls_root s)"

lemma amount_of_parse: "parse_non_negative_amount s = Inr n \<Longrightarrow> amount_of s = n"
  "parse_positive_amount s = Inr n \<Longrightarrow> amount_of s = n"
  by (auto simp: amount_of_def parse_positive_non_negative)

lemma new_account_key_cases:
  "new_account_key ow d =
     (if trim_space ow = [] then Inl ErrInvalidOwner
      else if trim_space d = [] then Inl ErrInvalidDenom
      else Inr (trim_space ow, trim_space d))"
  by (simp add: new_account_key_def)

lemma apply_deposit_refines:
  assumes "wf_local s"
  shows "abstracts (apply_deposit s d) (spec_deposit (mirror_of s) d)"
proof -
  have wf: "wf_accounts (ls_accounts s)" using assms by (simp add: wf_local_def)
  show ?thesis
  proof (cases "validate_deposit d")
    case (Some e)
    then show ?thesis
      by (auto simp: abstracts_def apply_deposit_def spec_deposit_def validate_deposit_def
          split: if_splits sum.splits)
  next
    case None
    then have valid: "dep_id d \<noteq> []" "dep_owner d \<noteq> []" "dep_denom d \<noteq> []"
      "is_ok (parse_positive_amount (dep_amount d))"
      by (auto simp: validate_deposit_def split: if_splits sum.splits)
    show ?thesis
    proof (cases "credit (ls_accounts s) (dep_owner d) (dep_denom d) (dep_amount d)")
      case (Inl e)
      with valid None show ?thesis
        by (auto simp: abstracts_def apply_deposit_def spec_deposit_def mirror_of_def is_ok_iff
            credit_eq [OF wf] new_account_key_cases Let_def split: if_splits)
    next
      case (Inr r)
      then obtain t a where r: "credit (ls_accounts s) (dep_owner d) (dep_denom d) (dep_amount d)
        = Inr (t, a)" by (cases r) auto
      obtain k n where kn: "new_account_key (dep_owner d) (dep_denom d) = Inr k"
        "parse_positive_amount (dep_amount d) = Inr n"
        "ledger_of t = ledger_credit k n (local_ledger s)"
        using credit_ledger [OF wf r] by auto
      with r None valid credit_wf [OF wf r] show ?thesis
        by (auto simp: abstracts_def apply_deposit_def spec_deposit_def mirror_of_def
            new_account_key_Inr amount_of_parse wf_local_def root_current_def Let_def)
    qed
  qed
qed

lemma validate_withdraw_request_None:
  "validate_withdraw_request r = None \<longleftrightarrow>
     trim_space (wr_id r) \<noteq> [] \<and> trim_space (wr_owner r) \<noteq> [] \<and> trim_space (wr_denom r) \<noteq> []
     \<and> trim_space (wr_destination r) \<noteq> [] \<and> is_ok (parse_positive_amount (wr_amount r))
     \<and> is_ok (parse_non_negative_amount (wr_nonce r))"
  by (auto simp: validate_withdraw_request_def split: sum.splits)

lemma validate_withdraw_request_Some:
  "validate_withdraw_request r = Some e \<Longrightarrow> e = ErrInvalidWithdrawRequest"
  by (auto simp: validate_withdraw_request_def split: if_splits sum.splits)

lemma apply_withdrawal_refines:
  assumes "wf_local s"
  shows "abstracts (apply_withdrawal s r nf) (spec_withdrawal (mirror_of s) r nf)"
proof (cases "validate_withdraw_request r")
  case (Some e)
  with validate_withdraw_request_Some [OF this] validate_withdraw_request_None [of r] show ?thesis
    by (auto simp: abstracts_def apply_withdrawal_def spec_withdrawal_def Let_def)
next
  case None
  have wf: "wf_accounts (ls_accounts s)" using assms by (simp add: wf_local_def)
  let ?k = "(trim_space (wr_owner r), trim_space (wr_denom r))"
  from None validate_withdraw_request_None obtain n c where
    n: "parse_positive_amount (wr_amount r) = Inr n" and
    c: "parse_non_negative_amount (wr_nonce r) = Inr c"
    by (auto simp: is_ok_iff)
  have key: "new_account_key (wr_owner r) (wr_denom r) = Inr ?k"
    and key': "new_account_key (fst ?k) (snd ?k) = Inr ?k"
    using None validate_withdraw_request_None by (auto simp: new_account_key_Inr)
  have valid: "trim_space (wr_id r) \<noteq> []" "trim_space (wr_owner r) \<noteq> []" "trim_space (wr_denom r) \<noteq> []"
    "trim_space (wr_destination r) \<noteq> []"
    using None validate_withdraw_request_None by auto
  have amounts:
    "acc_balance (account_get_or_zero (ls_accounts s) (fst ?k) (snd ?k)) = nat_to_dec (bal_of (local_ledger s) ?k)"
    "acc_nonce (account_get_or_zero (ls_accounts s) (fst ?k) (snd ?k)) = nat_to_dec (nonce_of (local_ledger s) ?k)"
    by (rule get_or_zero_amounts [OF wf key'])+
  have conc: "apply_withdrawal s r nf =
     (if trim_space nf = [] then Inl ErrInvalidWithdrawRequest
      else if trim_space nf \<in> ls_nullifiers s then Inl ErrWithdrawAlreadyApplied
      else if bal_of (local_ledger s) ?k < n then Inl ErrInsufficientBalance
      else if c \<noteq> nonce_of (local_ledger s) ?k + 1 then Inl ErrNonceMismatch
      else case debit (ls_accounts s) (fst ?k) (snd ?k) (wr_amount r) of Inl e \<Rightarrow> Inl e
        | Inr (t, _) \<Rightarrow> Inr (s\<lparr>ls_accounts := t,
              ls_nullifiers := insert (trim_space nf) (ls_nullifiers s),
              ls_root := compute_root (snapshot_accounts t)\<rparr>, compute_root (snapshot_accounts t)))"
    using amounts by (simp add: apply_withdrawal_def None n c Let_def split: sum.split prod.split)
  have spec: "spec_withdrawal (mirror_of s) r nf =
     (if trim_space nf = [] then Inl ErrInvalidWithdrawRequest
      else if trim_space nf \<in> ls_nullifiers s then Inl ErrWithdrawAlreadyApplied
      else if bal_of (local_ledger s) ?k < n then Inl ErrInsufficientBalance
      else if c \<noteq> nonce_of (local_ledger s) ?k + 1 then Inl ErrNonceMismatch
      else Inr ((mirror_of s)\<lparr>mi_ledger := ledger_debit ?k n (local_ledger s),
                  mi_nullifiers := insert (trim_space nf) (ls_nullifiers s)\<rparr>))"
    using valid n c by (simp add: spec_withdrawal_def Let_def mirror_of_def amount_of_parse)
  show ?thesis
  proof (cases "bal_of (local_ledger s) ?k < n")
    case True
    then show ?thesis unfolding conc spec abstracts_def by simp
  next
    case False
    then obtain t a where p: "debit (ls_accounts s) (fst ?k) (snd ?k) (wr_amount r) = Inr (t, a)"
      by (simp add: debit_eq [OF wf] key' [simplified] n Let_def)
    obtain k' n' where "new_account_key (fst ?k) (snd ?k) = Inr k'"
      "parse_positive_amount (wr_amount r) = Inr n'" "ledger_of t = ledger_debit k' n' (local_ledger s)"
      using debit_ledger [OF wf p] by blast
    then have t: "ledger_of t = ledger_debit ?k n (local_ledger s)"
      unfolding key' n by simp
    show ?thesis
      unfolding conc spec abstracts_def p
      using t debit_wf [OF wf p] False by (simp add: mirror_of_def wf_local_def root_current_def)
  qed
qed

lemmas mirror_refines = apply_deposit_refines apply_withdrawal_refines

lemma apply_deposit_ok:
  assumes "wf_local s" and "apply_deposit s d = Inr (s', root)"
  shows "spec_deposit (mirror_of s) d = Inr (mirror_of s')" and "wf_local s'" and "root_current s'"
    and "root = ls_root s'"
  using apply_deposit_refines [OF assms(1), of d] assms(2) by (simp_all add: abstracts_def)

lemma apply_withdrawal_ok:
  assumes "wf_local s" and "apply_withdrawal s r nf = Inr (s', root)"
  shows "spec_withdrawal (mirror_of s) r nf = Inr (mirror_of s')" and "wf_local s'"
    and "root_current s'" and "root = ls_root s'"
  using apply_withdrawal_refines [OF assms(1), of r nf] assms(2) by (simp_all add: abstracts_def)

text \<open>
  The root is a function of the abstract ledger: two mirrors that agree on it have the same root as
  soon as each has applied something.
\<close>

lemma root_determined:
  assumes "wf_local s" "wf_local s'" "root_current s" "root_current s'"
    and "mi_ledger (mirror_of s) = mi_ledger (mirror_of s')"
  shows "ls_root s = ls_root s'"
  using assms ledger_determines_snapshot [of "ls_accounts s" "ls_accounts s'"]
  by (simp add: wf_local_def root_current_def mirror_of_def)

end
