(* ===== verification/Settlement_Builder.thy ===== *)
theory Settlement_Builder
  imports Local_State
begin

text \<open>
  \<^verbatim>\<open>internal/batch/builder.go\<close> (STATE-08): validation of the inputs of a batch and assembly
  of the \<^verbatim>\<open>SettlementUpdate\<close>. The only state of the builder is its sequence counter, a
  \<^verbatim>\<open>uint64\<close>, which names the batch. A batch the builder accepts satisfies
  \<open>settlement_valid\<close>, and the builder accepts every input that satisfies \<open>inputs_valid\<close>.
\<close>

record withdrawal_input =
  wn_request :: withdraw_request
  wn_nullifier :: string
  wn_destination_hash :: string

record settlement_inputs =
  si_old_root :: string
  si_new_root :: string
  si_deposits :: "deposit_record list"
  si_withdrawals :: "withdrawal_input list"

subsection \<open>Validation\<close>

definition batch_parse_non_negative :: "string \<Rightarrow> nat res" where
  "batch_parse_non_negative amount =
     (let s = trim_space amount in
      if s = [] then Inl (ErrText ''empty'')
      else case set_string10 s of None \<Rightarrow> Inl (ErrText ''not a base-10 integer'')
        | Some v \<Rightarrow> if v < 0 then Inl (ErrText ''negative'') else Inr (nat v))"

definition batch_parse_positive :: "string \<Rightarrow> nat res" where
  "batch_parse_positive amount =
     (case batch_parse_non_negative amount of Inl e \<Rightarrow> Inl e
      | Inr v \<Rightarrow> if v = 0 then Inl (ErrText ''must be > 0'') else Inr v)"

definition validate_root :: "string \<Rightarrow> go_error option" where
  "validate_root root =
     (let r = trim_space root in
      if r = [] then Some ErrInvalidSettlementInputs
      else if \<not> is_hex_prefixed r then Some ErrInvalidSettlementInputs
      else if length (strip_hex r) = 0 then Some ErrInvalidSettlementInputs
      else None)"

definition validate_hex :: "string \<Rightarrow> go_error option" where
  "validate_hex value =
     (let v = trim_space value in
      if v = [] then Some ErrInvalidSettlementInputs
      else if \<not> is_hex_prefixed v then Some ErrInvalidSettlementInputs
      else if length (strip_hex v) = 0 then Some ErrInvalidSettlementInputs
      else None)"

definition batch_validate_deposit :: "deposit_record \<Rightarrow> nat res" where
  "batch_validate_deposit d =
     (if trim_space (dep_id d) = [] then Inl ErrInvalidSettlementInputs
      else if trim_space (dep_owner d) = [] then Inl ErrInvalidSettlementInputs
      else if trim_space (dep_denom d) = [] then Inl ErrInvalidSettlementInputs
      else case batch_parse_positive (dep_amount d) of
          Inl _ \<Rightarrow> Inl ErrInvalidSettlementInputs | Inr amt \<Rightarrow> Inr amt)"

definition batch_validate_withdraw :: "withdraw_request \<Rightarrow> nat res" where
  "batch_validate_withdraw w =
     (if trim_space (wr_id w) = [] then Inl ErrInvalidSettlementInputs
      else if trim_space (wr_owner w) = [] then Inl ErrInvalidSettlementInputs
      else if trim_space (wr_denom w) = [] then Inl ErrInvalidSettlementInputs
      else if trim_space (wr_destination w) = [] then Inl ErrInvalidSettlementInputs
      else case batch_parse_positive (wr_amount w) of Inl _ \<Rightarrow> Inl ErrInvalidSettlementInputs
        | Inr amt \<Rightarrow> (case batch_parse_non_negative (wr_nonce w) of
              Inl _ \<Rightarrow> Inl ErrInvalidSettlementInputs | Inr _ \<Rightarrow> Inr amt))"

text \<open>
  The last branch (no deposit and no withdrawal) is the index panic of the source; \<open>Build\<close>
  rejects the empty batch before it.
\<close>

definition pick_batch_denom :: "settlement_inputs \<Rightarrow> string res" where
  "pick_batch_denom inp =
     (case si_deposits inp of d # _ \<Rightarrow>
        (if trim_space (dep_denom d) = [] then Inl ErrInvalidSettlementInputs
         else Inr (trim_space (dep_denom d)))
      | [] \<Rightarrow> (case si_withdrawals inp of w # _ \<Rightarrow>
        (if trim_space (wr_denom (wn_request w)) = [] then Inl ErrInvalidSettlementInputs
         else Inr (trim_space (wr_denom (wn_request w))))
      | [] \<Rightarrow> Inl (ErrText ''panic: index out of range'')))"

subsection \<open>The builder\<close>

definition settle_deposit :: "string \<Rightarrow> deposit_record \<Rightarrow> settlement_deposit res" where
  "settle_deposit denom d =
     (case batch_validate_deposit d of Inl e \<Rightarrow> Inl e
      | Inr amt \<Rightarrow>
        if dep_denom d \<noteq> denom then Inl ErrInvalidSettlementInputs
        else Inr \<lparr>sd_id = dep_id d, sd_owner = dep_owner d, sd_denom = dep_denom d,
                  sd_amount = nat_to_dec amt\<rparr>)"

definition settle_withdrawal :: "string \<Rightarrow> withdrawal_input \<Rightarrow> settlement_withdrawal res" where
  "settle_withdrawal denom w =
     (case batch_validate_withdraw (wn_request w) of Inl e \<Rightarrow> Inl e
      | Inr amt \<Rightarrow>
        if wr_denom (wn_request w) \<noteq> denom then Inl ErrInvalidSettlementInputs
        else (case validate_hex (wn_nullifier w) of Some e \<Rightarrow> Inl e
        | None \<Rightarrow> (case validate_hex (wn_destination_hash w) of Some e \<Rightarrow> Inl e
        | None \<Rightarrow> (case withdraw_address_hash (wr_destination (wn_request w)) of
            Inl _ \<Rightarrow> Inl ErrInvalidSettlementInputs
          | Inr rederived \<Rightarrow>
            if rederived \<noteq> wn_destination_hash w then Inl ErrInvalidSettlementInputs
            else Inr \<lparr>sw_id = wr_id (wn_request w), sw_owner = wr_owner (wn_request w),
                  sw_denom = wr_denom (wn_request w), sw_amount = nat_to_dec amt,
                  sw_destination = wr_destination (wn_request w),
                  sw_destination_hash = wn_destination_hash w, sw_nullifier = wn_nullifier w\<rparr>))))"

definition settlement_build :: "64 word \<Rightarrow> settlement_inputs \<Rightarrow> (64 word \<times> settlement_update) res" where
  "settlement_build seq inp =
     (case validate_root (si_old_root inp) of Some e \<Rightarrow> Inl e
      | None \<Rightarrow> (case validate_root (si_new_root inp) of Some e \<Rightarrow> Inl e
      | None \<Rightarrow>
        if si_old_root inp = si_new_root inp then Inl ErrInvalidSettlementInputs
        else if si_deposits inp = [] \<and> si_withdrawals inp = [] then Inl ErrInvalidSettlementInputs
        else (case pick_batch_denom inp of Inl e \<Rightarrow> Inl e
      | Inr denom \<Rightarrow> (case map_res (settle_deposit denom) (si_deposits inp) of Inl e \<Rightarrow> Inl e
      | Inr deposits \<Rightarrow> (case map_res (settle_withdrawal denom) (si_withdrawals inp) of Inl e \<Rightarrow> Inl e
      | Inr withdrawals \<Rightarrow>
        Inr (seq + 1, \<lparr>su_batch_id = ''batch-'' @ format_uint (seq + 1),
             su_old_root = si_old_root inp, su_new_root = si_new_root inp,
             su_deposits = deposits, su_withdrawals = withdrawals\<rparr>))))))"

subsection \<open>The checks as predicates\<close>

lemma batch_parse_eq:
  "is_ok (batch_parse_non_negative s) = is_ok (parse_non_negative_amount s)"
  "batch_parse_non_negative s = Inr n \<longleftrightarrow> parse_non_negative_amount s = Inr n"
  "batch_parse_positive s = Inr n \<longleftrightarrow> parse_positive_amount s = Inr n"
  by (auto simp: batch_parse_non_negative_def parse_non_negative_amount_def batch_parse_positive_def
      parse_positive_amount_def Let_def split: option.splits)

lemma batch_parse_Inl:
  "batch_parse_positive s = Inl e \<Longrightarrow> \<not> is_ok (parse_positive_amount s)"
  "batch_parse_non_negative s = Inl e \<Longrightarrow> \<not> is_ok (parse_non_negative_amount s)"
   apply (metis batch_parse_eq(3) is_ok_iff sum.distinct(1))
  apply (metis batch_parse_eq(2) is_ok_iff sum.distinct(1))
  done

lemma validate_root_eq: "validate_root r = (if hex_value r then None else Some ErrInvalidSettlementInputs)"
  by (simp add: validate_root_def hex_value_def Let_def)

lemma validate_hex_eq: "validate_hex r = (if hex_value r then None else Some ErrInvalidSettlementInputs)"
  by (simp add: validate_hex_def hex_value_def Let_def)

definition good_deposit :: "string \<Rightarrow> deposit_record \<Rightarrow> bool" where
  "good_deposit denom d \<longleftrightarrow> trim_space (dep_id d) \<noteq> [] \<and> trim_space (dep_owner d) \<noteq> []
     \<and> trim_space (dep_denom d) \<noteq> [] \<and> dep_denom d = denom \<and> is_ok (parse_positive_amount (dep_amount d))"

definition good_withdrawal :: "string \<Rightarrow> withdrawal_input \<Rightarrow> bool" where
  "good_withdrawal denom w \<longleftrightarrow>
     trim_space (wr_id (wn_request w)) \<noteq> [] \<and> trim_space (wr_owner (wn_request w)) \<noteq> []
     \<and> trim_space (wr_denom (wn_request w)) \<noteq> [] \<and> wr_denom (wn_request w) = denom
     \<and> is_ok (parse_positive_amount (wr_amount (wn_request w)))
     \<and> is_ok (parse_non_negative_amount (wr_nonce (wn_request w)))
     \<and> hex_value (wn_nullifier w)
     \<and> withdraw_address_hash (wr_destination (wn_request w)) = Inr (wn_destination_hash w)"

definition deposit_entry :: "deposit_record \<Rightarrow> settlement_deposit" where
  "deposit_entry d = \<lparr>sd_id = dep_id d, sd_owner = dep_owner d, sd_denom = dep_denom d,
     sd_amount = nat_to_dec (amount_of (dep_amount d))\<rparr>"

definition withdrawal_entry :: "withdrawal_input \<Rightarrow> settlement_withdrawal" where
  "withdrawal_entry w = \<lparr>sw_id = wr_id (wn_request w), sw_owner = wr_owner (wn_request w),
     sw_denom = wr_denom (wn_request w), sw_amount = nat_to_dec (amount_of (wr_amount (wn_request w))),
     sw_destination = wr_destination (wn_request w), sw_destination_hash = wn_destination_hash w,
     sw_nullifier = wn_nullifier w\<rparr>"

lemma settle_deposit_eq:
  "settle_deposit denom d =
     (if good_deposit denom d then Inr (deposit_entry d) else Inl ErrInvalidSettlementInputs)"
proof (cases "batch_parse_positive (dep_amount d)")
  case (Inl e)
  with batch_parse_Inl(1) [OF Inl] show ?thesis
    by (auto simp: settle_deposit_def batch_validate_deposit_def good_deposit_def)
next
  case (Inr n)
  then have "parse_positive_amount (dep_amount d) = Inr n" by (simp add: batch_parse_eq)
  with Inr show ?thesis
    by (auto simp: settle_deposit_def batch_validate_deposit_def good_deposit_def deposit_entry_def
        amount_of_parse)
qed

lemma withdraw_address_hash_hex: "withdraw_address_hash d = Inr h \<Longrightarrow> hex_value h"
  by (auto simp: withdraw_address_hash_def Let_def split: if_splits)

lemma withdraw_address_hash_dest: "withdraw_address_hash d = Inr h \<Longrightarrow> trim_space d \<noteq> []"
  by (auto simp: withdraw_address_hash_def Let_def split: if_splits)

lemma batch_validate_withdraw_eq:
  "batch_validate_withdraw w =
     (if trim_space (wr_id w) \<noteq> [] \<and> trim_space (wr_owner w) \<noteq> [] \<and> trim_space (wr_denom w) \<noteq> []
         \<and> trim_space (wr_destination w) \<noteq> [] \<and> is_ok (parse_positive_amount (wr_amount w))
         \<and> is_ok (parse_non_negative_amount (wr_nonce w))
      then Inr (amount_of (wr_amount w)) else Inl ErrInvalidSettlementInputs)"
proof (cases "batch_parse_positive (wr_amount w)")
  case (Inl e)
  with batch_parse_Inl(1) [OF Inl] show ?thesis by (auto simp: batch_validate_withdraw_def)
next
  case (Inr n)
  then have n: "parse_positive_amount (wr_amount w) = Inr n" by (simp add: batch_parse_eq)
  show ?thesis
    using Inr n amount_of_parse(2) [OF n] batch_parse_eq(1) [of "wr_nonce w"]
    by (cases "batch_parse_non_negative (wr_nonce w)") (auto simp: batch_validate_withdraw_def)
qed

lemma settle_withdrawal_eq:
  "settle_withdrawal denom w =
     (if good_withdrawal denom w then Inr (withdrawal_entry w) else Inl ErrInvalidSettlementInputs)"
proof (cases "withdraw_address_hash (wr_destination (wn_request w))")
  case (Inl e)
  then show ?thesis
    by (auto simp: settle_withdrawal_def good_withdrawal_def batch_validate_withdraw_eq validate_hex_eq)
next
  case (Inr h)
  with withdraw_address_hash_hex [OF Inr] withdraw_address_hash_dest [OF Inr] show ?thesis
    by (auto simp: settle_withdrawal_def good_withdrawal_def batch_validate_withdraw_eq validate_hex_eq
        withdrawal_entry_def)
qed

subsection \<open>Acceptance\<close>

definition batch_denom :: "settlement_inputs \<Rightarrow> string" where
  "batch_denom inp = (case si_deposits inp of d # _ \<Rightarrow> trim_space (dep_denom d)
     | [] \<Rightarrow> (case si_withdrawals inp of w # _ \<Rightarrow> trim_space (wr_denom (wn_request w)) | [] \<Rightarrow> []))"

definition inputs_valid :: "settlement_inputs \<Rightarrow> bool" where
  "inputs_valid inp \<longleftrightarrow> hex_value (si_old_root inp) \<and> hex_value (si_new_root inp)
     \<and> si_old_root inp \<noteq> si_new_root inp \<and> \<not> (si_deposits inp = [] \<and> si_withdrawals inp = [])
     \<and> (\<forall>d \<in> set (si_deposits inp). good_deposit (batch_denom inp) d)
     \<and> (\<forall>w \<in> set (si_withdrawals inp). good_withdrawal (batch_denom inp) w)"

lemma map_res_if:
  "map_res (\<lambda>x. if P x then Inr (g x) else Inl e) xs = (if \<forall>x \<in> set xs. P x then Inr (map g xs) else Inl e)"
  by (induction xs) auto

lemma settle_lists_eq:
  "map_res (settle_deposit den) ds =
     (if \<forall>d \<in> set ds. good_deposit den d then Inr (map deposit_entry ds) else Inl ErrInvalidSettlementInputs)"
  "map_res (settle_withdrawal den) ws =
     (if \<forall>w \<in> set ws. good_withdrawal den w then Inr (map withdrawal_entry ws) else Inl ErrInvalidSettlementInputs)"
  unfolding settle_deposit_eq [abs_def] settle_withdrawal_eq [abs_def] map_res_if by (rule refl)+

lemma pick_batch_denom_eq:
  assumes "\<not> (si_deposits inp = [] \<and> si_withdrawals inp = [])"
  shows "pick_batch_denom inp =
    (if batch_denom inp = [] then Inl ErrInvalidSettlementInputs else Inr (batch_denom inp))"
  using assms by (auto simp: pick_batch_denom_def batch_denom_def split: list.splits)

text \<open>The builder decides \<open>inputs_valid\<close>, with one error for every failure.\<close>

lemma batch_denom_nonempty:
  assumes "\<not> (si_deposits inp = [] \<and> si_withdrawals inp = [])"
    and "\<forall>d \<in> set (si_deposits inp). good_deposit (batch_denom inp) d"
    and "\<forall>w \<in> set (si_withdrawals inp). good_withdrawal (batch_denom inp) w"
  shows "batch_denom inp \<noteq> []"
proof (cases "si_deposits inp")
  case (Cons d ds)
  with assms(2) have "trim_space (dep_denom d) \<noteq> []" unfolding good_deposit_def by auto
  with Cons show ?thesis by (simp add: batch_denom_def)
next
  case Nil
  with assms(1) obtain w ws where w: "si_withdrawals inp = w # ws"
    by (cases "si_withdrawals inp") auto
  with assms(3) have "trim_space (wr_denom (wn_request w)) \<noteq> []" unfolding good_withdrawal_def by auto
  with Nil w show ?thesis by (simp add: batch_denom_def)
qed

lemma settlement_build_eq:
  "settlement_build seq inp =
     (if inputs_valid inp
      then Inr (seq + 1, \<lparr>su_batch_id = ''batch-'' @ format_uint (seq + 1),
             su_old_root = si_old_root inp, su_new_root = si_new_root inp,
             su_deposits = map deposit_entry (si_deposits inp),
             su_withdrawals = map withdrawal_entry (si_withdrawals inp)\<rparr>)
      else Inl ErrInvalidSettlementInputs)"
proof (cases "hex_value (si_old_root inp) \<and> hex_value (si_new_root inp)
     \<and> si_old_root inp \<noteq> si_new_root inp \<and> \<not> (si_deposits inp = [] \<and> si_withdrawals inp = [])")
  case False
  then show ?thesis
    by (auto simp: settlement_build_def inputs_valid_def validate_root_eq)
next
  case True
  then have "settlement_build seq inp =
     (case pick_batch_denom inp of Inl e \<Rightarrow> Inl e
      | Inr denom \<Rightarrow> (case map_res (settle_deposit denom) (si_deposits inp) of Inl e \<Rightarrow> Inl e
      | Inr deposits \<Rightarrow> (case map_res (settle_withdrawal denom) (si_withdrawals inp) of Inl e \<Rightarrow> Inl e
      | Inr withdrawals \<Rightarrow>
        Inr (seq + 1, \<lparr>su_batch_id = ''batch-'' @ format_uint (seq + 1),
             su_old_root = si_old_root inp, su_new_root = si_new_root inp,
             su_deposits = deposits, su_withdrawals = withdrawals\<rparr>))))"
    by (auto simp: settlement_build_def validate_root_eq)
  with True batch_denom_nonempty [of inp] show ?thesis
    by (auto simp: pick_batch_denom_eq settle_lists_eq inputs_valid_def)
qed

end
