(* ===== verification/Batch_Commitments.thy ===== *)
theory Batch_Commitments
  imports Settlement_Builder
begin

text \<open>
  \<^verbatim>\<open>internal/batch/commitments.go\<close>: the four commitment roots of a settlement update. Each
  root is the digest of a preimage made of a domain tag and one line per entry. The lemmas say when a
  preimage determines the entries it was made from, and that preimages of different domains never
  meet, so that two equal roots are either equal payloads or an explicit collision of the digest.
\<close>

subsection \<open>The code\<close>

definition deposits_root_domain_tag :: string where
  "deposits_root_domain_tag = ''zkdex/batch/depositsRoot/v0''"

definition withdrawals_root_domain_tag :: string where
  "withdrawals_root_domain_tag = ''zkdex/batch/withdrawalsRoot/v0''"

definition nullifiers_root_domain_tag :: string where
  "nullifiers_root_domain_tag = ''zkdex/batch/nullifiersRoot/v0''"

definition withdraw_outputs_root_domain_tag :: string where
  "withdraw_outputs_root_domain_tag = ''zkdex/batch/withdrawOutputsRoot/v0''"

fun deposits_body :: "settlement_deposit list \<Rightarrow> string" where
  "deposits_body [] = []"
| "deposits_body (d # ds) = sd_id d @ CHR ''|'' # sd_owner d @ CHR ''|'' # sd_denom d @ CHR ''|'' #
     sd_amount d @ CHR '';'' # deposits_body ds"

fun withdrawals_body :: "settlement_withdrawal list \<Rightarrow> string" where
  "withdrawals_body [] = []"
| "withdrawals_body (w # ws) = sw_id w @ CHR ''|'' # sw_owner w @ CHR ''|'' # sw_denom w @ CHR ''|'' #
     sw_amount w @ CHR ''|'' # sw_destination w @ CHR ''|'' # sw_destination_hash w @ CHR ''|'' #
     sw_nullifier w @ CHR '';'' # withdrawals_body ws"

fun nullifiers_body :: "settlement_withdrawal list \<Rightarrow> string" where
  "nullifiers_body [] = []"
| "nullifiers_body (w # ws) = sw_nullifier w @ CHR '';'' # nullifiers_body ws"

fun withdraw_outputs_body :: "settlement_withdrawal list \<Rightarrow> string" where
  "withdraw_outputs_body [] = []"
| "withdraw_outputs_body (w # ws) = sw_destination_hash w @ CHR ''|'' # sw_amount w @ CHR ''|'' #
     sw_denom w @ CHR '';'' # withdraw_outputs_body ws"

definition deposits_preimage :: "settlement_deposit list \<Rightarrow> string" where
  "deposits_preimage items = deposits_root_domain_tag @ CHR ''|'' # deposits_body items"

definition withdrawals_preimage :: "settlement_withdrawal list \<Rightarrow> string" where
  "withdrawals_preimage items = withdrawals_root_domain_tag @ CHR ''|'' # withdrawals_body items"

definition nullifiers_preimage :: "settlement_withdrawal list \<Rightarrow> string" where
  "nullifiers_preimage items = nullifiers_root_domain_tag @ CHR ''|'' # nullifiers_body items"

definition withdraw_outputs_preimage :: "settlement_withdrawal list \<Rightarrow> string" where
  "withdraw_outputs_preimage items =
     withdraw_outputs_root_domain_tag @ CHR ''|'' # withdraw_outputs_body items"

definition deposits_root :: "settlement_deposit list \<Rightarrow> string" where
  "deposits_root items = sha256_hex (deposits_preimage items)"

definition withdrawals_root :: "settlement_withdrawal list \<Rightarrow> string" where
  "withdrawals_root items = sha256_hex (withdrawals_preimage items)"

definition nullifiers_root :: "settlement_withdrawal list \<Rightarrow> string" where
  "nullifiers_root items = sha256_hex (nullifiers_preimage items)"

definition withdraw_outputs_root :: "settlement_withdrawal list \<Rightarrow> string" where
  "withdraw_outputs_root items = sha256_hex (withdraw_outputs_preimage items)"

definition build_commitments :: "settlement_update \<Rightarrow> batch_commitments" where
  "build_commitments upd =
     \<lparr>bc_deposits_root = deposits_root (su_deposits upd),
      bc_withdrawals_root = withdrawals_root (su_withdrawals upd),
      bc_nullifiers_root = nullifiers_root (su_withdrawals upd),
      bc_withdraw_outputs_root = withdraw_outputs_root (su_withdrawals upd)\<rparr>"

definition commitment_domain_tags :: "string \<times> string \<times> string \<times> string" where
  "commitment_domain_tags = (deposits_root_domain_tag, withdrawals_root_domain_tag,
     nullifiers_root_domain_tag, withdraw_outputs_root_domain_tag)"

subsection \<open>Preimages determine their entries\<close>

text \<open>A field that does not hold the separator can be read back off the front of a line.\<close>

lemma separated_inj:
  assumes "a @ c # x = b @ c # y" and "c \<notin> set a" and "c \<notin> set b"
  shows "a = b \<and> x = y"
  using assms
proof (induction a arbitrary: b)
  case Nil
  then show ?case by (cases b) auto
next
  case (Cons h t)
  then show ?case by (cases b) auto
qed

lemma separated_iff:
  "c \<notin> set a \<Longrightarrow> c \<notin> set b \<Longrightarrow> a @ c # x = b @ c # y \<longleftrightarrow> a = b \<and> x = y"
  using separated_inj by metis

definition clean_deposit :: "settlement_deposit \<Rightarrow> bool" where
  "clean_deposit d \<longleftrightarrow> CHR ''|'' \<notin> set (sd_id d) \<and> CHR ''|'' \<notin> set (sd_owner d)
     \<and> CHR ''|'' \<notin> set (sd_denom d) \<and> CHR '';'' \<notin> set (sd_amount d)"

definition clean_withdrawal :: "settlement_withdrawal \<Rightarrow> bool" where
  "clean_withdrawal w \<longleftrightarrow> CHR ''|'' \<notin> set (sw_id w) \<and> CHR ''|'' \<notin> set (sw_owner w)
     \<and> CHR ''|'' \<notin> set (sw_denom w) \<and> CHR ''|'' \<notin> set (sw_amount w)
     \<and> CHR ''|'' \<notin> set (sw_destination w) \<and> CHR ''|'' \<notin> set (sw_destination_hash w)
     \<and> CHR '';'' \<notin> set (sw_nullifier w)"

lemma deposits_body_inj:
  "deposits_body ds = deposits_body es \<Longrightarrow> list_all clean_deposit ds \<Longrightarrow> list_all clean_deposit es
   \<Longrightarrow> ds = es"
proof (induction ds arbitrary: es)
  case Nil
  then show ?case by (cases es) auto
next
  case (Cons d ds)
  then obtain e es' where es: "es = e # es'" by (cases es) auto
  with Cons.prems have "deposits_body ds = deposits_body es'" "d = e"
    by (auto simp: separated_iff clean_deposit_def)
  with Cons es show ?case by simp
qed

lemma withdrawals_body_inj:
  "withdrawals_body ws = withdrawals_body vs \<Longrightarrow> list_all clean_withdrawal ws
   \<Longrightarrow> list_all clean_withdrawal vs \<Longrightarrow> ws = vs"
proof (induction ws arbitrary: vs)
  case Nil
  then show ?case by (cases vs) auto
next
  case (Cons w ws)
  then obtain v vs' where vs: "vs = v # vs'" by (cases vs) auto
  with Cons.prems have "withdrawals_body ws = withdrawals_body vs'" "w = v"
    by (auto simp: separated_iff clean_withdrawal_def)
  with Cons vs show ?case by simp
qed

lemma nullifiers_body_inj:
  "nullifiers_body ws = nullifiers_body vs \<Longrightarrow> list_all (\<lambda>w. CHR '';'' \<notin> set (sw_nullifier w)) ws
   \<Longrightarrow> list_all (\<lambda>w. CHR '';'' \<notin> set (sw_nullifier w)) vs
   \<Longrightarrow> map sw_nullifier ws = map sw_nullifier vs"
proof (induction ws arbitrary: vs)
  case Nil
  then show ?case by (cases vs) auto
next
  case (Cons w ws)
  then obtain v vs' where vs: "vs = v # vs'" by (cases vs) auto
  with Cons.prems have "nullifiers_body ws = nullifiers_body vs'" "sw_nullifier w = sw_nullifier v"
    by (auto simp: separated_iff)
  with Cons vs show ?case by simp
qed

subsection \<open>Domain separation\<close>

text \<open>
  The seven preimages of the system (state root, nullifier, destination address and the four
  commitments) begin with tags none of which, followed by the separator, begins another.
\<close>

definition domain_tags :: "string list" where
  "domain_tags = [state_domain_tag, nullifier_domain_tag, withdraw_address_domain_tag,
     deposits_root_domain_tag, withdrawals_root_domain_tag, nullifiers_root_domain_tag,
     withdraw_outputs_root_domain_tag]"

lemmas domain_tag_defs = state_domain_tag_def nullifier_domain_tag_def withdraw_address_domain_tag_def
  deposits_root_domain_tag_def withdrawals_root_domain_tag_def nullifiers_root_domain_tag_def
  withdraw_outputs_root_domain_tag_def

lemma domain_tags_distinct: "distinct domain_tags"
  by (simp add: domain_tags_def domain_tag_defs)

lemma domain_tags_clean: "t \<in> set domain_tags \<Longrightarrow> CHR ''|'' \<notin> set t"
  by (auto simp: domain_tags_def domain_tag_defs)

lemma domain_separated:
  "t \<in> set domain_tags \<Longrightarrow> u \<in> set domain_tags \<Longrightarrow> t @ CHR ''|'' # x = u @ CHR ''|'' # y \<Longrightarrow> t = u \<and> x = y"
  using separated_inj domain_tags_clean by metis

text \<open>A built update carries printed numbers and digests, which are always clean.\<close>

lemma nat_to_dec_clean: "CHR ''|'' \<notin> set (nat_to_dec n)" "CHR '';'' \<notin> set (nat_to_dec n)"
proof -
  have "digit_val CHR ''|'' = None" "digit_val CHR '';'' = None" by (simp_all add: digit_val_def)
  moreover have "c \<in> set (nat_to_dec n) \<Longrightarrow> digit_val c \<noteq> None" for c
    using nat_to_dec_digits [of c n] by auto
  ultimately show "CHR ''|'' \<notin> set (nat_to_dec n)" "CHR '';'' \<notin> set (nat_to_dec n)" by metis+
qed

lemma clean_deposit_entry:
  "clean_deposit (deposit_entry d) \<longleftrightarrow> CHR ''|'' \<notin> set (dep_id d) \<and> CHR ''|'' \<notin> set (dep_owner d)
     \<and> CHR ''|'' \<notin> set (dep_denom d)"
  by (simp add: clean_deposit_def deposit_entry_def nat_to_dec_clean)

end
