(* ===== verification/Public_Inputs.thy ===== *)
theory Public_Inputs
  imports Batch_Commitments
begin

text \<open>
  \<^verbatim>\<open>internal/batch/public_inputs.go\<close> (STATE-10): the six public inputs of the circuit, in
  the order the verifier expects.
\<close>

definition public_input_count :: nat where
  "public_input_count = 6"

definition public_input_labels :: "string list" where
  "public_input_labels = [''oldStateRoot'', ''newStateRoot'', ''depositsRoot'', ''withdrawalsRoot'',
     ''nullifiersRoot'', ''withdrawOutputsRoot'']"

text \<open>
  \<^verbatim>\<open>wrapPublicInputErr\<close> prints its cause with \<^verbatim>\<open>%s\<close>, so only the outer sentinel is
  left in the chain.
\<close>

definition wrap_public_input_err :: "go_error \<Rightarrow> go_error" where
  "wrap_public_input_err cause = ErrInvalidPublicInputs"

definition build_public_inputs :: "settlement_update \<Rightarrow> batch_commitments \<Rightarrow> string list res" where
  "build_public_inputs upd com =
     (case validate_hex (su_old_root upd) of Some e \<Rightarrow> Inl (wrap_public_input_err e)
      | None \<Rightarrow> (case validate_hex (su_new_root upd) of Some e \<Rightarrow> Inl (wrap_public_input_err e)
      | None \<Rightarrow> if su_old_root upd = su_new_root upd then Inl ErrInvalidPublicInputs
      else (case validate_hex (bc_deposits_root com) of Some e \<Rightarrow> Inl (wrap_public_input_err e)
      | None \<Rightarrow> (case validate_hex (bc_withdrawals_root com) of Some e \<Rightarrow> Inl (wrap_public_input_err e)
      | None \<Rightarrow> (case validate_hex (bc_nullifiers_root com) of Some e \<Rightarrow> Inl (wrap_public_input_err e)
      | None \<Rightarrow> (case validate_hex (bc_withdraw_outputs_root com) of Some e \<Rightarrow> Inl (wrap_public_input_err e)
      | None \<Rightarrow> Inr [su_old_root upd, su_new_root upd, bc_deposits_root com, bc_withdrawals_root com,
                     bc_nullifiers_root com, bc_withdraw_outputs_root com]))))))"

lemma build_public_inputs_eq:
  "build_public_inputs upd com =
     (if hex_value (su_old_root upd) \<and> hex_value (su_new_root upd) \<and> su_old_root upd \<noteq> su_new_root upd
         \<and> hex_value (bc_deposits_root com) \<and> hex_value (bc_withdrawals_root com)
         \<and> hex_value (bc_nullifiers_root com) \<and> hex_value (bc_withdraw_outputs_root com)
      then Inr [su_old_root upd, su_new_root upd, bc_deposits_root com, bc_withdrawals_root com,
                bc_nullifiers_root com, bc_withdraw_outputs_root com]
      else Inl ErrInvalidPublicInputs)"
  by (simp add: build_public_inputs_def validate_hex_eq wrap_public_input_err_def)

text \<open>The commitments the builder derives always pass these checks.\<close>

lemma hex_value_commitments [simp]:
  "hex_value (bc_deposits_root (build_commitments u))"
  "hex_value (bc_withdrawals_root (build_commitments u))"
  "hex_value (bc_nullifiers_root (build_commitments u))"
  "hex_value (bc_withdraw_outputs_root (build_commitments u))"
  by (simp_all add: build_commitments_def deposits_root_def withdrawals_root_def nullifiers_root_def
      withdraw_outputs_root_def)

end
