(* ===== verification/Witness_Builder.thy ===== *)
theory Witness_Builder
  imports Public_Inputs
begin

text \<open>
  \<^verbatim>\<open>internal/batch/witness.go\<close> (STATE-09): the witness of a batch. For each account the
  builder re-checks what the circuit will check, the balance equation ZK-04 and the nullifiers ZK-05.
  \<open>build_witness_eq\<close> says that it decides \<open>account_consistent\<close> for every account.
\<close>

record account_witness_secret =
  aw_owner :: string
  aw_user_secret :: string
  aw_old_balance :: string
  aw_new_balance :: string

record witness_inputs =
  wt_settlement :: settlement_inputs
  wt_accounts :: "account_witness_secret list"
  wt_state_path :: "string list"

subsection \<open>The code\<close>

text \<open>The loop that adds up the deposits of one owner.\<close>

definition witness_deposit_step :: "string \<Rightarrow> nat \<Rightarrow> deposit_record \<Rightarrow> nat res" where
  "witness_deposit_step owner sum0 d =
     (if dep_owner d \<noteq> owner then Inr sum0
      else case batch_parse_positive (dep_amount d) of
          Inl _ \<Rightarrow> Inl ErrInvalidWitnessInputs | Inr amt \<Rightarrow> Inr (sum0 + amt))"

text \<open>The loop over the withdrawals: the sum, the last nonce, and the owner's withdrawals.\<close>

definition witness_withdraw_step ::
    "string \<Rightarrow> nat \<times> string \<times> withdrawal_input list \<Rightarrow> withdrawal_input
     \<Rightarrow> (nat \<times> string \<times> withdrawal_input list) res" where
  "witness_withdraw_step owner acc w = (case acc of (sum0, last_nonce, owned) \<Rightarrow>
     if wr_owner (wn_request w) \<noteq> owner then Inr (sum0, last_nonce, owned)
     else case batch_parse_positive (wr_amount (wn_request w)) of
          Inl _ \<Rightarrow> Inl ErrInvalidWitnessInputs
        | Inr amt \<Rightarrow> Inr (sum0 + amt, wr_nonce (wn_request w), owned @ [w]))"

text \<open>ZK-05 for one withdrawal.\<close>

definition witness_check_nullifier :: "string \<Rightarrow> withdrawal_input \<Rightarrow> go_error option" where
  "witness_check_nullifier secret w =
     (case batch_parse_non_negative (wr_nonce (wn_request w)) of
        Inl _ \<Rightarrow> Some ErrInvalidWitnessInputs
      | Inr nonce \<Rightarrow> (case nullifier_for secret (nat_to_dec nonce) of
          Inl _ \<Rightarrow> Some ErrInvalidWitnessInputs
        | Inr rederived \<Rightarrow> if rederived \<noteq> wn_nullifier w then Some ErrInvalidWitnessInputs else None))"

fun witness_check_nullifiers :: "string \<Rightarrow> withdrawal_input list \<Rightarrow> go_error option" where
  "witness_check_nullifiers secret [] = None"
| "witness_check_nullifiers secret (w # ws) =
     (case witness_check_nullifier secret w of Some e \<Rightarrow> Some e
      | None \<Rightarrow> witness_check_nullifiers secret ws)"

definition witness_nonce_field :: "string \<Rightarrow> string res" where
  "witness_nonce_field last_nonce =
     (if last_nonce \<noteq> [] then
        (case batch_parse_non_negative last_nonce of
           Inl _ \<Rightarrow> Inl ErrInvalidWitnessInputs | Inr n \<Rightarrow> Inr (nat_to_dec n))
      else Inr ''0'')"

text \<open>The body of the loop over the accounts.\<close>

definition witness_account_of ::
    "settlement_inputs \<Rightarrow> account_witness_secret \<Rightarrow> witness_account res" where
  "witness_account_of settlement acc =
     (let owner = trim_space (aw_owner acc); secret = trim_space (aw_user_secret acc) in
      if owner = [] then Inl ErrInvalidWitnessInputs
      else if secret = [] then Inl ErrInvalidWitnessInputs
      else case batch_parse_non_negative (aw_old_balance acc) of
        Inl _ \<Rightarrow> Inl ErrInvalidWitnessInputs
      | Inr old_bal \<Rightarrow> (case batch_parse_non_negative (aw_new_balance acc) of
        Inl _ \<Rightarrow> Inl ErrInvalidWitnessInputs
      | Inr new_bal \<Rightarrow> (case fold_res (witness_deposit_step owner) 0 (si_deposits settlement) of
        Inl e \<Rightarrow> Inl e
      | Inr sum_deposit \<Rightarrow>
        (case fold_res (witness_withdraw_step owner) (0, [], []) (si_withdrawals settlement) of
        Inl e \<Rightarrow> Inl e
      | Inr (sum_withdraw, last_nonce, owned) \<Rightarrow>
        if sum_deposit = 0 \<and> sum_withdraw = 0 then Inl ErrInvalidWitnessInputs
        else if new_bal + sum_withdraw \<noteq> old_bal + sum_deposit then Inl ErrInvalidWitnessInputs
        else (case witness_check_nullifiers secret owned of Some e \<Rightarrow> Inl e
      | None \<Rightarrow> (case witness_nonce_field last_nonce of Inl e \<Rightarrow> Inl e
      | Inr nonce_field \<Rightarrow>
        Inr \<lparr>wa_owner = owner, wa_user_secret = secret, wa_nonce = nonce_field,
             wa_old_balance = nat_to_dec old_bal, wa_new_balance = nat_to_dec new_bal\<rparr>))))))"

definition build_witness :: "witness_inputs \<Rightarrow> witness res" where
  "build_witness inp =
     (if wt_accounts inp = [] then Inl ErrInvalidWitnessInputs
      else case map_res (witness_account_of (wt_settlement inp)) (wt_accounts inp) of
          Inl e \<Rightarrow> Inl e
        | Inr out \<Rightarrow> Inr \<lparr>wit_accounts = out, wit_state_path = wt_state_path inp\<rparr>)"

subsection \<open>The loops in closed form\<close>

definition owned_deposits :: "string \<Rightarrow> deposit_record list \<Rightarrow> deposit_record list" where
  "owned_deposits owner ds = filter (\<lambda>d. dep_owner d = owner) ds"

definition owned_withdrawals :: "string \<Rightarrow> withdrawal_input list \<Rightarrow> withdrawal_input list" where
  "owned_withdrawals owner ws = filter (\<lambda>w. wr_owner (wn_request w) = owner) ws"

definition deposit_total :: "deposit_record list \<Rightarrow> nat" where
  "deposit_total ds = (\<Sum>d \<leftarrow> ds. amount_of (dep_amount d))"

definition withdraw_total :: "withdrawal_input list \<Rightarrow> nat" where
  "withdraw_total ws = (\<Sum>w \<leftarrow> ws. amount_of (wr_amount (wn_request w)))"

abbreviation amount_ok :: "string \<Rightarrow> bool" where
  "amount_ok s \<equiv> is_ok (parse_positive_amount s)"

abbreviation nonce_ok :: "string \<Rightarrow> bool" where
  "nonce_ok s \<equiv> is_ok (parse_non_negative_amount s)"

lemma batch_parse_positive_if:
  "batch_parse_positive s = Inr n \<Longrightarrow> amount_ok s \<and> amount_of s = n"
  "batch_parse_positive s = Inl e \<Longrightarrow> \<not> amount_ok s"
  using batch_parse_Inl(1) by (auto simp: batch_parse_eq amount_of_parse is_ok_iff)

lemma batch_parse_non_negative_if:
  "batch_parse_non_negative s = Inr n \<Longrightarrow> nonce_ok s \<and> amount_of s = n"
  "batch_parse_non_negative s = Inl e \<Longrightarrow> \<not> nonce_ok s"
  using batch_parse_Inl(2) by (auto simp: batch_parse_eq amount_of_parse is_ok_iff)

lemma witness_deposit_loop:
  "fold_res (witness_deposit_step owner) sum0 ds =
     (if \<forall>d \<in> set (owned_deposits owner ds). amount_ok (dep_amount d)
      then Inr (sum0 + deposit_total (owned_deposits owner ds)) else Inl ErrInvalidWitnessInputs)"
proof (induction ds arbitrary: sum0)
  case Nil
  then show ?case by (simp add: owned_deposits_def deposit_total_def)
next
  case (Cons d ds)
  then show ?case
    by (cases "batch_parse_positive (dep_amount d)")
       (auto simp: witness_deposit_step_def owned_deposits_def deposit_total_def
         dest: batch_parse_positive_if)
qed

definition last_nonce_of :: "string \<Rightarrow> withdrawal_input list \<Rightarrow> string" where
  "last_nonce_of start ws = (if ws = [] then start else wr_nonce (wn_request (last ws)))"

lemma witness_withdraw_loop:
  "fold_res (witness_withdraw_step owner) (sum0, ln, acc) ws =
     (if \<forall>w \<in> set (owned_withdrawals owner ws). amount_ok (wr_amount (wn_request w))
      then Inr (sum0 + withdraw_total (owned_withdrawals owner ws),
                last_nonce_of ln (owned_withdrawals owner ws), acc @ owned_withdrawals owner ws)
      else Inl ErrInvalidWitnessInputs)"
proof (induction ws arbitrary: sum0 ln acc)
  case Nil
  then show ?case by (simp add: owned_withdrawals_def withdraw_total_def last_nonce_of_def)
next
  case (Cons w ws)
  then show ?case
    by (cases "batch_parse_positive (wr_amount (wn_request w))")
       (auto simp: witness_withdraw_step_def owned_withdrawals_def withdraw_total_def last_nonce_of_def
         dest: batch_parse_positive_if)
qed

text \<open>ZK-05 as a predicate.\<close>

definition nullifier_matches :: "string \<Rightarrow> withdrawal_input \<Rightarrow> bool" where
  "nullifier_matches secret w \<longleftrightarrow> nonce_ok (wr_nonce (wn_request w))
     \<and> nullifier_for secret (nat_to_dec (amount_of (wr_nonce (wn_request w)))) = Inr (wn_nullifier w)"

lemma witness_check_nullifier_eq:
  "witness_check_nullifier secret w =
     (if nullifier_matches secret w then None else Some ErrInvalidWitnessInputs)"
  by (auto simp: witness_check_nullifier_def nullifier_matches_def split: sum.split
      dest: batch_parse_non_negative_if)

lemma witness_check_nullifiers_eq:
  "witness_check_nullifiers secret ws =
     (if \<forall>w \<in> set ws. nullifier_matches secret w then None else Some ErrInvalidWitnessInputs)"
  by (induction ws) (auto simp: witness_check_nullifier_eq)

definition witness_nonce :: "withdrawal_input list \<Rightarrow> nat" where
  "witness_nonce ws = (if ws = [] then 0 else amount_of (wr_nonce (wn_request (last ws))))"

lemma nonce_ok_not_Nil: "nonce_ok s \<Longrightarrow> s \<noteq> []"
  by (auto simp: parse_non_negative_amount_def)

lemma witness_nonce_field_eq:
  assumes "\<forall>w \<in> set ws. nonce_ok (wr_nonce (wn_request w))"
  shows "witness_nonce_field (last_nonce_of [] ws) = Inr (nat_to_dec (witness_nonce ws))"
proof (cases "ws = []")
  case True
  then show ?thesis
    by (simp add: witness_nonce_field_def last_nonce_of_def witness_nonce_def nat_to_dec.simps go_eval)
next
  case False
  then have "last ws \<in> set ws" by simp
  with assms have ok: "nonce_ok (wr_nonce (wn_request (last ws)))" by blast
  then obtain n where "batch_parse_non_negative (wr_nonce (wn_request (last ws))) = Inr n"
    by (auto simp: batch_parse_eq is_ok_iff)
  with False nonce_ok_not_Nil [OF ok] show ?thesis
    by (auto simp: witness_nonce_field_def last_nonce_of_def witness_nonce_def
        dest: batch_parse_non_negative_if)
qed

subsection \<open>What the builder decides\<close>

definition account_consistent :: "settlement_inputs \<Rightarrow> account_witness_secret \<Rightarrow> bool" where
  "account_consistent settlement a \<longleftrightarrow>
     (let owner = trim_space (aw_owner a); secret = trim_space (aw_user_secret a);
          ds = owned_deposits owner (si_deposits settlement);
          ws = owned_withdrawals owner (si_withdrawals settlement) in
      owner \<noteq> [] \<and> secret \<noteq> [] \<and> nonce_ok (aw_old_balance a) \<and> nonce_ok (aw_new_balance a)
      \<and> (\<forall>d \<in> set ds. amount_ok (dep_amount d))
      \<and> (\<forall>w \<in> set ws. amount_ok (wr_amount (wn_request w)))
      \<and> \<not> (deposit_total ds = 0 \<and> withdraw_total ws = 0)
      \<and> amount_of (aw_new_balance a) + withdraw_total ws = amount_of (aw_old_balance a) + deposit_total ds
      \<and> (\<forall>w \<in> set ws. nullifier_matches secret w))"

definition witness_entry :: "settlement_inputs \<Rightarrow> account_witness_secret \<Rightarrow> witness_account" where
  "witness_entry settlement a =
     \<lparr>wa_owner = trim_space (aw_owner a), wa_user_secret = trim_space (aw_user_secret a),
      wa_nonce = nat_to_dec (witness_nonce
        (owned_withdrawals (trim_space (aw_owner a)) (si_withdrawals settlement))),
      wa_old_balance = nat_to_dec (amount_of (aw_old_balance a)),
      wa_new_balance = nat_to_dec (amount_of (aw_new_balance a))\<rparr>"

lemma witness_account_of_eq:
  "witness_account_of settlement a =
     (if account_consistent settlement a then Inr (witness_entry settlement a)
      else Inl ErrInvalidWitnessInputs)"
proof -
  let ?ow = "trim_space (aw_owner a)" and ?ws = "owned_withdrawals (trim_space (aw_owner a)) (si_withdrawals settlement)"
  have nonce: "witness_nonce_field (last_nonce_of [] ?ws) = Inr (nat_to_dec (witness_nonce ?ws))"
    if "\<forall>w \<in> set ?ws. nullifier_matches (trim_space (aw_user_secret a)) w"
    using that by (intro witness_nonce_field_eq) (auto simp: nullifier_matches_def)
  show ?thesis
  proof (cases "batch_parse_non_negative (aw_old_balance a)")
    case (Inl e)
    with batch_parse_non_negative_if(2) [OF Inl] show ?thesis
      by (simp add: witness_account_of_def account_consistent_def Let_def)
  next
    case old: (Inr ob)
    show ?thesis
    proof (cases "batch_parse_non_negative (aw_new_balance a)")
      case (Inl e)
      with old batch_parse_non_negative_if(2) [OF Inl] show ?thesis
        by (simp add: witness_account_of_def account_consistent_def Let_def)
    next
      case new: (Inr nb)
      show ?thesis
        using nonce batch_parse_non_negative_if(1) [OF old] batch_parse_non_negative_if(1) [OF new]
        by (simp add: witness_account_of_def account_consistent_def witness_entry_def Let_def old new
            witness_deposit_loop witness_withdraw_loop witness_check_nullifiers_eq)
    qed
  qed
qed

lemma build_witness_eq:
  "build_witness inp =
     (if wt_accounts inp \<noteq> [] \<and> (\<forall>a \<in> set (wt_accounts inp). account_consistent (wt_settlement inp) a)
      then Inr \<lparr>wit_accounts = map (witness_entry (wt_settlement inp)) (wt_accounts inp),
                wit_state_path = wt_state_path inp\<rparr>
      else Inl ErrInvalidWitnessInputs)"
  unfolding build_witness_def witness_account_of_eq [abs_def] map_res_if by simp

end
