(* ===== verification/Offchain_Manager.thy ===== *)
theory Offchain_Manager
  imports Local_State
begin

text \<open>
  \<^verbatim>\<open>internal/state/offchain_manager.go\<close>: the long-lived mirror with snapshots and rollback.
  Every method holds the manager's mutex for its whole body, so a method is one atomic step of the
  model. Snapshots are deep copies in the source; records are values here, so taking one is copying
  the fields. The interface \<^verbatim>\<open>service.StateRollback\<close> that the batch service uses of the
  manager is the locale \<open>state_rollback\<close>, interpreted below on the manager.
\<close>

subsection \<open>Snapshots\<close>

record snapshot =
  sn_root :: string
  sn_accounts :: account_state
  sn_deposits :: "string set"
  sn_nullifiers :: "string set"
  sn_gen :: "64 word"

definition snapshot_account :: "snapshot \<Rightarrow> string \<Rightarrow> string \<Rightarrow> account" where
  "snapshot_account s owner denom =
     (case new_account_key owner denom of Inl _ \<Rightarrow> zero_account owner denom
      | Inr key \<Rightarrow> (case map_of (sn_accounts s) key of
            Some acc \<Rightarrow> acc | None \<Rightarrow> zero_account owner denom))"

definition snapshot_account_list :: "snapshot \<Rightarrow> account list" where
  "snapshot_account_list s = sort_accounts (map snd (sn_accounts s))"

definition snapshot_is_deposit_applied :: "snapshot \<Rightarrow> string \<Rightarrow> bool" where
  "snapshot_is_deposit_applied s i \<longleftrightarrow> i \<in> sn_deposits s"

definition snapshot_is_nullifier_applied :: "snapshot \<Rightarrow> string \<Rightarrow> bool" where
  "snapshot_is_nullifier_applied s nf \<longleftrightarrow> nf \<in> sn_nullifiers s"

definition new_local_state_from_snapshot :: "snapshot \<Rightarrow> local_state" where
  "new_local_state_from_snapshot s = \<lparr>ls_accounts = sn_accounts s,
     ls_root = (if sn_root s = [] then compute_root (snapshot_accounts (sn_accounts s)) else sn_root s),
     ls_deposits = sn_deposits s, ls_nullifiers = sn_nullifiers s\<rparr>"

subsection \<open>The manager\<close>

record manager =
  mg_ls :: local_state
  mg_gen :: "64 word"

definition new_manager :: manager where
  "new_manager = \<lparr>mg_ls = new_local_state, mg_gen = 0\<rparr>"

definition new_manager_with_genesis_root :: "string \<Rightarrow> manager" where
  "new_manager_with_genesis_root g = \<lparr>mg_ls = new_local_state_with_genesis_root g, mg_gen = 0\<rparr>"

text \<open>The request builder is created afresh for each call, so its sequence starts at 0.\<close>

definition manager_build_withdraw_request ::
    "manager \<Rightarrow> withdraw_intent \<Rightarrow> string \<Rightarrow> withdraw_request res" where
  "manager_build_withdraw_request m intent withdraw_id =
     (case build_withdraw_request (mg_ls m) 0 intent of Inl e \<Rightarrow> Inl e
      | Inr (_, req) \<Rightarrow> Inr (req\<lparr>wr_id := withdraw_id\<rparr>))"

definition manager_apply_deposit :: "manager \<Rightarrow> deposit_record \<Rightarrow> (manager \<times> string) res" where
  "manager_apply_deposit m d =
     (case apply_deposit (mg_ls m) d of Inl e \<Rightarrow> Inl e
      | Inr (ls, root) \<Rightarrow> Inr (m\<lparr>mg_ls := ls, mg_gen := mg_gen m + 1\<rparr>, root))"

definition manager_apply_withdraw_request ::
    "manager \<Rightarrow> withdraw_request \<Rightarrow> string \<Rightarrow> (manager \<times> string) res" where
  "manager_apply_withdraw_request m req nullifier =
     (case apply_withdrawal (mg_ls m) req nullifier of Inl e \<Rightarrow> Inl e
      | Inr (ls, root) \<Rightarrow> Inr (m\<lparr>mg_ls := ls, mg_gen := mg_gen m + 1\<rparr>, root))"

definition manager_snapshot :: "manager \<Rightarrow> snapshot" where
  "manager_snapshot m = \<lparr>sn_root = ls_root (mg_ls m), sn_accounts = ls_accounts (mg_ls m),
     sn_deposits = ls_deposits (mg_ls m), sn_nullifiers = ls_nullifiers (mg_ls m),
     sn_gen = mg_gen m\<rparr>"

definition manager_rollback :: "snapshot \<Rightarrow> manager \<Rightarrow> manager" where
  "manager_rollback s m = m\<lparr>mg_ls := new_local_state_from_snapshot s, mg_gen := mg_gen m + 1\<rparr>"

definition manager_root :: "manager \<Rightarrow> string" where
  "manager_root m = ls_root (mg_ls m)"

definition manager_account :: "manager \<Rightarrow> string \<Rightarrow> string \<Rightarrow> account" where
  "manager_account m owner denom = local_account (mg_ls m) owner denom"

definition manager_is_deposit_applied :: "manager \<Rightarrow> string \<Rightarrow> bool" where
  "manager_is_deposit_applied m i \<longleftrightarrow> is_deposit_applied (mg_ls m) i"

definition manager_is_nullifier_applied :: "manager \<Rightarrow> string \<Rightarrow> bool" where
  "manager_is_nullifier_applied m nf \<longleftrightarrow> is_nullifier_applied (mg_ls m) nf"

definition manager_generation :: "manager \<Rightarrow> 64 word" where
  "manager_generation m = mg_gen m"

subsection \<open>Invariant\<close>

text \<open>A root is never the empty string, which is what lets a snapshot be restored exactly.\<close>

definition wf_manager :: "manager \<Rightarrow> bool" where
  "wf_manager m \<longleftrightarrow> wf_local (mg_ls m) \<and> ls_root (mg_ls m) \<noteq> []"

lemma compute_root_not_Nil [simp]: "compute_root a \<noteq> []"
  by (simp add: compute_root_def)

lemma wf_manager_new [simp]: "wf_manager new_manager" "wf_manager (new_manager_with_genesis_root g)"
  by (simp_all add: wf_manager_def new_manager_def new_manager_with_genesis_root_def
      new_local_state_with_genesis_root_def new_local_state_def wf_local_def)

lemma manager_apply_deposit_wf:
  "wf_manager m \<Longrightarrow> manager_apply_deposit m d = Inr (m', r) \<Longrightarrow> wf_manager m'"
  using apply_deposit_ok [of "mg_ls m" d]
  by (auto simp: manager_apply_deposit_def wf_manager_def root_current_def split: sum.splits)

lemma manager_apply_withdraw_wf:
  "wf_manager m \<Longrightarrow> manager_apply_withdraw_request m req nf = Inr (m', r) \<Longrightarrow> wf_manager m'"
  using apply_withdrawal_ok [of "mg_ls m" req nf]
  by (auto simp: manager_apply_withdraw_request_def wf_manager_def root_current_def split: sum.splits)

text \<open>Snapshots read like the manager they were taken from.\<close>

lemma snapshot_account_manager [simp]:
  "snapshot_account (manager_snapshot m) ow d = manager_account m ow d"
  by (auto simp: snapshot_account_def manager_snapshot_def manager_account_def local_account_def
      account_get_or_zero_def account_get_def split: sum.splits option.splits)

lemma snapshot_root_manager [simp]: "sn_root (manager_snapshot m) = manager_root m"
  by (simp add: manager_snapshot_def manager_root_def)

lemma local_state_from_manager_snapshot:
  "wf_manager m \<Longrightarrow> new_local_state_from_snapshot (manager_snapshot m) = mg_ls m"
  by (simp add: new_local_state_from_snapshot_def manager_snapshot_def wf_manager_def)

subsection \<open>The rollback interface\<close>

text \<open>
  What a client of \<^verbatim>\<open>Snapshot\<close> and \<^verbatim>\<open>Rollback\<close> may assume: restoring a snapshot gives
  the state it was taken from back, whatever happened in between (\<open>obs\<close> is everything a client can
  read but the generation counter).
\<close>

locale state_rollback =
  fixes take_snapshot :: "'m \<Rightarrow> 's" and restore :: "'s \<Rightarrow> 'm \<Rightarrow> 'm"
    and obs :: "'m \<Rightarrow> 'o" and ok :: "'m \<Rightarrow> bool"
  assumes restore_snapshot: "ok m \<Longrightarrow> obs (restore (take_snapshot m) m') = obs m"
    and restore_ok: "ok m \<Longrightarrow> ok (restore (take_snapshot m) m')"
begin

text \<open>Restoring is idempotent and forgets any steps taken in between.\<close>

lemma restore_twice:
  "ok m \<Longrightarrow> obs (restore (take_snapshot m) (restore (take_snapshot m) m')) = obs m"
  by (rule restore_snapshot)

lemma restore_forgets: "ok m \<Longrightarrow> obs (restore (take_snapshot m) a) = obs (restore (take_snapshot m) b)"
  by (simp add: restore_snapshot)

lemma snapshot_of_restored:
  "ok m \<Longrightarrow> obs (restore (take_snapshot (restore (take_snapshot m) m')) x) = obs m"
  by (simp add: restore_snapshot restore_ok)

end

interpretation mgr: state_rollback manager_snapshot manager_rollback mg_ls wf_manager
  by unfold_locales
     (simp_all add: manager_rollback_def local_state_from_manager_snapshot wf_manager_def)

end
