(* ===== verification/Mirror_Log.thy ===== *)
theory Mirror_Log
  imports Offchain_Manager
begin

text \<open>
  Histories of the mirror. A log is the list of operations that succeeded, in order. On the abstract
  specification it obeys the laws a settlement engine needs: per account, money is conserved and
  nonces are consecutive; no deposit is credited twice and no nullifier is spent twice; and a
  history can be replayed with all deposits first, which is how the service rebuilds the mirror
  after a restart.
\<close>

datatype mirror_op = OpDeposit deposit_record | OpWithdraw withdraw_request string

fun is_deposit_op :: "mirror_op \<Rightarrow> bool" where
  "is_deposit_op (OpDeposit _) = True"
| "is_deposit_op (OpWithdraw _ _) = False"

fun op_apply :: "local_state \<Rightarrow> mirror_op \<Rightarrow> local_state res" where
  "op_apply s (OpDeposit d) =
     (case apply_deposit s d of Inl e \<Rightarrow> Inl e | Inr (s', _) \<Rightarrow> Inr s')"
| "op_apply s (OpWithdraw r nf) =
     (case apply_withdrawal s r nf of Inl e \<Rightarrow> Inl e | Inr (s', _) \<Rightarrow> Inr s')"

fun spec_op :: "mirror \<Rightarrow> mirror_op \<Rightarrow> mirror res" where
  "spec_op M (OpDeposit d) = spec_deposit M d"
| "spec_op M (OpWithdraw r nf) = spec_withdrawal M r nf"

fun op_key :: "mirror_op \<Rightarrow> account_key" where
  "op_key (OpDeposit d) = (trim_space (dep_owner d), trim_space (dep_denom d))"
| "op_key (OpWithdraw r _) = (trim_space (wr_owner r), trim_space (wr_denom r))"

fun op_amount :: "mirror_op \<Rightarrow> nat" where
  "op_amount (OpDeposit d) = amount_of (dep_amount d)"
| "op_amount (OpWithdraw r _) = amount_of (wr_amount r)"

lemma op_apply_Inr:
  "op_apply s (OpDeposit d) = Inr s' \<longleftrightarrow> (\<exists>root. apply_deposit s d = Inr (s', root))"
  "op_apply s (OpWithdraw r nf) = Inr s' \<longleftrightarrow> (\<exists>root. apply_withdrawal s r nf = Inr (s', root))"
  by (cases "apply_deposit s d"; cases "apply_withdrawal s r nf"; auto)+

subsection \<open>A run of the mirror is a run of its specification\<close>

lemma op_apply_ok:
  assumes "wf_local s" and "op_apply s x = Inr s'"
  shows "spec_op (mirror_of s) x = Inr (mirror_of s') \<and> wf_local s' \<and> root_current s'"
  using assms apply_deposit_ok [OF assms(1)] apply_withdrawal_ok [OF assms(1)]
  by (cases x) (auto split: sum.splits)

lemma op_apply_spec:
  assumes "wf_local s" and "spec_op (mirror_of s) x = Inr M"
  shows "\<exists>s'. op_apply s x = Inr s' \<and> mirror_of s' = M \<and> wf_local s' \<and> root_current s'"
proof (cases x)
  case (OpDeposit d)
  with assms apply_deposit_refines [OF assms(1), of d] show ?thesis
    by (auto simp: abstracts_def split: sum.splits)
next
  case (OpWithdraw r nf)
  with assms apply_withdrawal_refines [OF assms(1), of r nf] show ?thesis
    by (auto simp: abstracts_def split: sum.splits)
qed

lemma op_run_ok:
  assumes "wf_local s" and "fold_res op_apply s xs = Inr s'"
  shows "fold_res spec_op (mirror_of s) xs = Inr (mirror_of s') \<and> wf_local s'
    \<and> (xs \<noteq> [] \<longrightarrow> root_current s')"
  using assms
proof (induction xs arbitrary: s)
  case Nil
  then show ?case by simp
next
  case (Cons x xs)
  from Cons.prems(2) obtain s1 where s1: "op_apply s x = Inr s1" "fold_res op_apply s1 xs = Inr s'"
    by (auto split: sum.splits)
  note ok = op_apply_ok [OF Cons.prems(1) s1(1)]
  with Cons.IH [OF _ s1(2)] s1(2) show ?case by (cases xs) auto
qed

lemma op_run_spec:
  assumes "wf_local s" and "fold_res spec_op (mirror_of s) xs = Inr M"
  shows "\<exists>s'. fold_res op_apply s xs = Inr s' \<and> mirror_of s' = M \<and> wf_local s'
    \<and> (xs \<noteq> [] \<longrightarrow> root_current s')"
  using assms
proof (induction xs arbitrary: s)
  case Nil
  then show ?case by simp
next
  case (Cons x xs)
  from Cons.prems(2) obtain M1 where M1: "spec_op (mirror_of s) x = Inr M1"
    "fold_res spec_op M1 xs = Inr M" by (auto split: sum.splits)
  then obtain s1 where s1: "op_apply s x = Inr s1" "mirror_of s1 = M1" "wf_local s1" "root_current s1"
    using op_apply_spec [OF Cons.prems(1)] by blast
  with Cons.IH [of s1] M1 s1 show ?case by (cases xs) auto
qed

subsection \<open>One step of the specification\<close>

lemma amount_of_pos: "is_ok (parse_positive_amount a) \<Longrightarrow> 0 < amount_of a"
  by (auto simp: is_ok_iff amount_of_parse dest: parse_positive_pos)

lemma spec_deposit_Inr:
  "spec_deposit M d = Inr M' \<longleftrightarrow>
     dep_id d \<noteq> [] \<and> dep_owner d \<noteq> [] \<and> dep_denom d \<noteq> [] \<and> is_ok (parse_positive_amount (dep_amount d))
     \<and> trim_space (dep_owner d) \<noteq> [] \<and> trim_space (dep_denom d) \<noteq> [] \<and> dep_id d \<notin> mi_deposits M
     \<and> M' = M\<lparr>mi_ledger := ledger_credit (op_key (OpDeposit d)) (op_amount (OpDeposit d)) (mi_ledger M),
              mi_deposits := insert (dep_id d) (mi_deposits M)\<rparr>"
  by (auto simp: spec_deposit_def)

definition withdraw_shape :: "withdraw_request \<Rightarrow> string \<Rightarrow> bool" where
  "withdraw_shape r nf \<longleftrightarrow> trim_space (wr_id r) \<noteq> [] \<and> trim_space (wr_owner r) \<noteq> []
     \<and> trim_space (wr_denom r) \<noteq> [] \<and> trim_space (wr_destination r) \<noteq> []
     \<and> is_ok (parse_positive_amount (wr_amount r)) \<and> is_ok (parse_non_negative_amount (wr_nonce r))
     \<and> trim_space nf \<noteq> []"

lemma spec_withdrawal_Inr:
  "spec_withdrawal M r nf = Inr M' \<longleftrightarrow>
     withdraw_shape r nf \<and> trim_space nf \<notin> mi_nullifiers M
     \<and> op_amount (OpWithdraw r nf) \<le> bal_of (mi_ledger M) (op_key (OpWithdraw r nf))
     \<and> amount_of (wr_nonce r) = nonce_of (mi_ledger M) (op_key (OpWithdraw r nf)) + 1
     \<and> M' = M\<lparr>mi_ledger := ledger_debit (op_key (OpWithdraw r nf)) (op_amount (OpWithdraw r nf)) (mi_ledger M),
              mi_nullifiers := insert (trim_space nf) (mi_nullifiers M)\<rparr>"
  by (auto simp: spec_withdrawal_def withdraw_shape_def Let_def not_less)

subsection \<open>Conservation and sequencing\<close>

definition deposited :: "account_key \<Rightarrow> mirror_op list \<Rightarrow> nat" where
  "deposited k xs = (\<Sum>x \<leftarrow> xs. if is_deposit_op x \<and> op_key x = k then op_amount x else 0)"

definition withdrawn :: "account_key \<Rightarrow> mirror_op list \<Rightarrow> nat" where
  "withdrawn k xs = (\<Sum>x \<leftarrow> xs. if \<not> is_deposit_op x \<and> op_key x = k then op_amount x else 0)"

fun deposit_ids :: "mirror_op list \<Rightarrow> string list" where
  "deposit_ids [] = []"
| "deposit_ids (OpDeposit d # xs) = dep_id d # deposit_ids xs"
| "deposit_ids (OpWithdraw _ _ # xs) = deposit_ids xs"

fun spent_nullifiers :: "mirror_op list \<Rightarrow> string list" where
  "spent_nullifiers [] = []"
| "spent_nullifiers (OpDeposit _ # xs) = spent_nullifiers xs"
| "spent_nullifiers (OpWithdraw _ nf # xs) = trim_space nf # spent_nullifiers xs"

fun nonces_used :: "account_key \<Rightarrow> mirror_op list \<Rightarrow> nat list" where
  "nonces_used k [] = []"
| "nonces_used k (OpDeposit _ # xs) = nonces_used k xs"
| "nonces_used k (OpWithdraw r nf # xs) =
     (if op_key (OpWithdraw r nf) = k then amount_of (wr_nonce r) # nonces_used k xs
      else nonces_used k xs)"

lemma deposited_simps [simp]:
  "deposited k [] = 0" "withdrawn k [] = 0"
  "deposited k (x # xs) = (if is_deposit_op x \<and> op_key x = k then op_amount x else 0) + deposited k xs"
  "withdrawn k (x # xs) = (if \<not> is_deposit_op x \<and> op_key x = k then op_amount x else 0) + withdrawn k xs"
  by (simp_all add: deposited_def withdrawn_def)

lemma spec_run_balance:
  "fold_res spec_op M xs = Inr M' \<Longrightarrow>
     bal_of (mi_ledger M') k + withdrawn k xs = bal_of (mi_ledger M) k + deposited k xs"
proof (induction xs arbitrary: M)
  case Nil
  then show ?case by simp
next
  case (Cons x xs)
  then obtain M1 where M1: "spec_op M x = Inr M1" "fold_res spec_op M1 xs = Inr M'"
    by (auto split: sum.splits)
  from Cons.IH [OF M1(2)] M1(1) show ?case
    by (cases x) (auto simp: spec_deposit_Inr spec_withdrawal_Inr)
qed

lemma spec_run_nonces:
  "fold_res spec_op M xs = Inr M' \<Longrightarrow>
     nonces_used k xs = [nonce_of (mi_ledger M) k + 1 ..< nonce_of (mi_ledger M') k + 1]
     \<and> nonce_of (mi_ledger M) k \<le> nonce_of (mi_ledger M') k"
proof (induction xs arbitrary: M)
  case Nil
  then show ?case by simp
next
  case (Cons x xs)
  then obtain M1 where M1: "spec_op M x = Inr M1" "fold_res spec_op M1 xs = Inr M'"
    by (auto split: sum.splits)
  from Cons.IH [OF M1(2)] M1(1) show ?case
    by (cases x) (auto simp: spec_deposit_Inr spec_withdrawal_Inr upt_rec [of "Suc (nonce_of _ _)"])
qed

lemma spec_run_ids:
  "fold_res spec_op M xs = Inr M' \<Longrightarrow>
     distinct (deposit_ids xs) \<and> set (deposit_ids xs) \<inter> mi_deposits M = {}
     \<and> mi_deposits M' = mi_deposits M \<union> set (deposit_ids xs)
     \<and> distinct (spent_nullifiers xs) \<and> set (spent_nullifiers xs) \<inter> mi_nullifiers M = {}
     \<and> mi_nullifiers M' = mi_nullifiers M \<union> set (spent_nullifiers xs)"
proof (induction xs arbitrary: M)
  case Nil
  then show ?case by simp
next
  case (Cons x xs)
  then obtain M1 where M1: "spec_op M x = Inr M1" "fold_res spec_op M1 xs = Inr M'"
    by (auto split: sum.splits)
  from Cons.IH [OF M1(2)] M1(1) show ?case
    by (cases x) (auto simp: spec_deposit_Inr spec_withdrawal_Inr)
qed

subsection \<open>Replaying with all deposits first\<close>

lemma ledger_swap:
  assumes "n \<le> bal_of L k" and "0 < n"
  shows "ledger_credit k' m (ledger_debit k n L) = ledger_debit k n (ledger_credit k' m L)"
  using assms
  by (cases "k = k'") (auto simp: ledger_credit_def ledger_debit_def fun_eq_iff)

lemma withdraw_then_deposit:
  assumes "spec_op M (OpWithdraw r nf) = Inr M1" and "spec_op M1 (OpDeposit d) = Inr M2"
  shows "\<exists>M1'. spec_op M (OpDeposit d) = Inr M1' \<and> spec_op M1' (OpWithdraw r nf) = Inr M2"
proof -
  let ?k = "op_key (OpWithdraw r nf)" and ?n = "op_amount (OpWithdraw r nf)"
  from assms have le: "?n \<le> bal_of (mi_ledger M) ?k" and pos: "0 < ?n"
    by (auto simp: spec_withdrawal_Inr withdraw_shape_def intro: amount_of_pos)
  from assms show ?thesis
    by (auto simp: spec_withdrawal_Inr spec_deposit_Inr ledger_swap [OF le pos, simplified])
qed

lemma withdraw_past_deposits:
  assumes "fold_res spec_op M (OpWithdraw r nf # xs) = Inr M'" and "list_all is_deposit_op xs"
  shows "fold_res spec_op M (xs @ [OpWithdraw r nf]) = Inr M'"
  using assms
proof (induction xs arbitrary: M)
  case Nil
  then show ?case by simp
next
  case (Cons x xs)
  then obtain d where x: "x = OpDeposit d" by (cases x) auto
  from Cons.prems(1) x obtain M1 M2 where M: "spec_op M (OpWithdraw r nf) = Inr M1"
    "spec_op M1 (OpDeposit d) = Inr M2" "fold_res spec_op M2 xs = Inr M'"
    by (auto split: sum.splits)
  from withdraw_then_deposit [OF M(1,2)] obtain M1' where
    M1': "spec_op M (OpDeposit d) = Inr M1'" "spec_op M1' (OpWithdraw r nf) = Inr M2" by blast
  with M have "fold_res spec_op M1' (OpWithdraw r nf # xs) = Inr M'" by simp
  with Cons.IH [OF this] Cons.prems(2) x M1'(1) show ?case by simp
qed

definition deposits_first :: "mirror_op list \<Rightarrow> mirror_op list" where
  "deposits_first xs = filter is_deposit_op xs @ filter (\<lambda>x. \<not> is_deposit_op x) xs"

lemma spec_run_deposits_first:
  "fold_res spec_op M xs = Inr M' \<Longrightarrow> fold_res spec_op M (deposits_first xs) = Inr M'"
proof (induction xs arbitrary: M)
  case Nil
  then show ?case by (simp add: deposits_first_def)
next
  case (Cons x xs)
  then obtain M1 where M1: "spec_op M x = Inr M1" "fold_res spec_op M1 xs = Inr M'"
    by (auto split: sum.splits)
  from Cons.IH [OF M1(2)] have tail: "fold_res spec_op M1 (deposits_first xs) = Inr M'" .
  show ?case
  proof (cases x)
    case (OpDeposit d)
    with M1 tail show ?thesis by (simp add: deposits_first_def)
  next
    case (OpWithdraw r nf)
    let ?d = "filter is_deposit_op xs" and ?w = "filter (\<lambda>x. \<not> is_deposit_op x) xs"
    from tail obtain M2 where M2: "fold_res spec_op M1 ?d = Inr M2" "fold_res spec_op M2 ?w = Inr M'"
      by (auto simp: deposits_first_def fold_res_append split: sum.splits)
    with M1 OpWithdraw have "fold_res spec_op M (OpWithdraw r nf # ?d) = Inr M2" by simp
    then have "fold_res spec_op M (?d @ [OpWithdraw r nf]) = Inr M2"
      by (rule withdraw_past_deposits) (simp add: list_all_iff)
    with M2 OpWithdraw show ?thesis
      by (auto simp: deposits_first_def fold_res_append split: sum.splits)
  qed
qed

text \<open>
  On the concrete mirror: the replayed state has the same ledger and the same sets, and the same
  root if anything was applied.
\<close>

lemma replay_deposits_first:
  assumes "wf_local s" and "fold_res op_apply s xs = Inr s'"
  shows "\<exists>t. fold_res op_apply s (deposits_first xs) = Inr t \<and> mirror_of t = mirror_of s'
    \<and> (xs \<noteq> [] \<longrightarrow> ls_root t = ls_root s')"
proof -
  note run = op_run_ok [OF assms]
  then have "fold_res spec_op (mirror_of s) (deposits_first xs) = Inr (mirror_of s')"
    using spec_run_deposits_first by blast
  from op_run_spec [OF assms(1) this] obtain t where
    t: "fold_res op_apply s (deposits_first xs) = Inr t" "mirror_of t = mirror_of s'" "wf_local t"
       "deposits_first xs \<noteq> [] \<longrightarrow> root_current t" by blast
  have "ls_root t = ls_root s'" if "xs \<noteq> []"
  proof (rule root_determined)
    show "root_current t"
      using t(4) that by (cases xs) (auto simp: deposits_first_def)
  qed (use run t that in simp_all)
  with t show ?thesis by blast
qed

end
