(* ===== verification/Batch_Facade.thy ===== *)
theory Batch_Facade
  imports Witness_Builder Mirror_Log
begin

text \<open>
  \<^verbatim>\<open>internal/batch/local_builder.go\<close> and \<^verbatim>\<open>snapshot_builder.go\<close>: from a batch
  request to the settlement update, its commitments and its witness. Both run the batch on a working
  copy of the mirror, the first from the empty one, the second from the manager's snapshot, and
  differ in nothing else but the old root and the old balances. The interface
  \<^verbatim>\<open>batch.Builder\<close> is the locale \<open>batch_builder\<close>, interpreted on both.
\<close>

record account_secret =
  as_owner :: string
  as_user_secret :: string

record build_input =
  bi_old_root :: string
  bi_deposits :: "deposit_record list"
  bi_requests :: "withdraw_request list"
  bi_secrets :: "account_secret list"

record build_output =
  bo_update :: settlement_update
  bo_commitments :: batch_commitments
  bo_witness :: witness

type_synonym participant = "string \<times> string"

subsection \<open>Secrets and participants\<close>

definition mvp_mock_secret :: string where
  "mvp_mock_secret = ''mock-user-secret''"

definition index_secret :: "(string \<rightharpoonup> string) \<Rightarrow> account_secret \<Rightarrow> (string \<rightharpoonup> string) res" where
  "index_secret out s =
     (let owner = trim_space (as_owner s); secret = trim_space (as_user_secret s) in
      if owner = [] then Inl ErrInvalidBuildInput
      else if secret = [] then Inl ErrInvalidBuildInput
      else if owner \<in> dom out then Inl ErrInvalidBuildInput
      else Inr (out(owner \<mapsto> secret)))"

definition index_secrets :: "account_secret list \<Rightarrow> (string \<rightharpoonup> string) res" where
  "index_secrets secrets = fold_res index_secret Map.empty secrets"

definition resolve_secret :: "(string \<rightharpoonup> string) \<Rightarrow> string \<Rightarrow> string" where
  "resolve_secret provided owner =
     (case provided owner of Some s \<Rightarrow> s | None \<Rightarrow> mvp_mock_secret)"

text \<open>The closure \<^verbatim>\<open>add\<close>: only the owner is remembered in \<^verbatim>\<open>seen\<close>.\<close>

definition add_participant ::
    "string set \<times> participant list \<Rightarrow> string \<times> string \<Rightarrow> (string set \<times> participant list) res" where
  "add_participant acc raw = (case (acc, raw) of ((seen, out), (raw_owner, raw_denom)) \<Rightarrow>
     let owner = trim_space raw_owner; denom = trim_space raw_denom in
     if owner = [] then Inl ErrInvalidBuildInput
     else if denom = [] then Inl ErrInvalidBuildInput
     else if owner \<in> seen then Inr (seen, out)
     else Inr (insert owner seen, out @ [(owner, denom)]))"

definition collect_participants ::
    "deposit_record list \<Rightarrow> withdraw_request list \<Rightarrow> participant list res" where
  "collect_participants deps reqs =
     (case fold_res add_participant ({}, [])
        (map (\<lambda>d. (dep_owner d, dep_denom d)) deps @ map (\<lambda>r. (wr_owner r, wr_denom r)) reqs) of
        Inl e \<Rightarrow> Inl e | Inr (_, out) \<Rightarrow> Inr out)"

subsection \<open>Running the batch on the working copy\<close>

definition facade_deposit :: "local_state \<Rightarrow> deposit_record \<Rightarrow> local_state res" where
  "facade_deposit ls d =
     (case apply_deposit ls d of Inl _ \<Rightarrow> Inl ErrInvalidBuildInput | Inr (ls', _) \<Rightarrow> Inr ls')"

definition facade_withdraw ::
    "(string \<rightharpoonup> string) \<Rightarrow> local_state \<times> withdrawal_input list \<Rightarrow> withdraw_request
     \<Rightarrow> (local_state \<times> withdrawal_input list) res" where
  "facade_withdraw secrets acc req = (case acc of (ls, withdrawals) \<Rightarrow>
     let owner = trim_space (wr_owner req); secret = resolve_secret secrets owner in
     case nullifier_for secret (wr_nonce req) of Inl _ \<Rightarrow> Inl ErrInvalidBuildInput
     | Inr nullifier \<Rightarrow> (case withdraw_address_hash (wr_destination req) of
         Inl _ \<Rightarrow> Inl ErrInvalidBuildInput
     | Inr dest_hash \<Rightarrow> (case apply_withdrawal ls req nullifier of
         Inl e \<Rightarrow> Inl (if e = ErrInsufficientBalance then ErrInsufficientOffchainBalance
                      else ErrInvalidBuildInput)
     | Inr (ls', _) \<Rightarrow>
         Inr (ls', withdrawals @ [\<lparr>wn_request = req, wn_nullifier = nullifier,
                                   wn_destination_hash = dest_hash\<rparr>]))))"

text \<open>
  The second half of both \<^verbatim>\<open>Build\<close> methods. \<open>old_balance\<close> is the constant
  \<^verbatim>\<open>"0"\<close> of the local builder and the snapshot's balance of the other. The sequence counter
  advances when the settlement is built, even if the witness is then refused.
\<close>

definition facade_assemble ::
    "64 word \<Rightarrow> string \<Rightarrow> (string \<Rightarrow> string \<Rightarrow> string) \<Rightarrow> (string \<rightharpoonup> string) \<Rightarrow> participant list
     \<Rightarrow> deposit_record list \<Rightarrow> local_state \<Rightarrow> withdrawal_input list \<Rightarrow> 64 word \<times> build_output res" where
  "facade_assemble seq old_root old_balance secrets parts deps ls withdrawals =
     (let sin = \<lparr>si_old_root = old_root, si_new_root = ls_root ls, si_deposits = deps,
                 si_withdrawals = withdrawals\<rparr> in
      case settlement_build seq sin of Inl e \<Rightarrow> (seq, Inl e)
      | Inr (seq', upd) \<Rightarrow>
        let accounts = map (\<lambda>(owner, denom).
              \<lparr>aw_owner = owner, aw_user_secret = resolve_secret secrets owner,
               aw_old_balance = old_balance owner denom,
               aw_new_balance = acc_balance (local_account ls owner denom)\<rparr>) parts in
        (case build_witness \<lparr>wt_settlement = sin, wt_accounts = accounts, wt_state_path = []\<rparr> of
           Inl e \<Rightarrow> (seq', Inl e)
         | Inr wit \<Rightarrow> (seq', Inr \<lparr>bo_update = upd, bo_commitments = build_commitments upd,
                                  bo_witness = wit\<rparr>)))"

subsection \<open>The two builders\<close>

definition local_build ::
    "64 word \<Rightarrow> go_error option \<Rightarrow> build_input \<Rightarrow> 64 word \<times> build_output res" where
  "local_build seq ctx inp =
     (case ctx of Some e \<Rightarrow> (seq, Inl e)
      | None \<Rightarrow> (case validate_root (bi_old_root inp) of Some e \<Rightarrow> (seq, Inl e)
      | None \<Rightarrow> (case index_secrets (bi_secrets inp) of Inl e \<Rightarrow> (seq, Inl e)
      | Inr secrets \<Rightarrow> (case collect_participants (bi_deposits inp) (bi_requests inp) of
          Inl e \<Rightarrow> (seq, Inl e)
      | Inr parts \<Rightarrow> (case fold_res facade_deposit new_local_state (bi_deposits inp) of
          Inl e \<Rightarrow> (seq, Inl e)
      | Inr ls1 \<Rightarrow> (case fold_res (facade_withdraw secrets) (ls1, []) (bi_requests inp) of
          Inl e \<Rightarrow> (seq, Inl e)
      | Inr (ls2, withdrawals) \<Rightarrow>
          facade_assemble seq (bi_old_root inp) (\<lambda>_ _. ''0'') secrets parts (bi_deposits inp)
            ls2 withdrawals))))))"

definition snapshot_build ::
    "manager \<Rightarrow> 64 word \<Rightarrow> go_error option \<Rightarrow> build_input \<Rightarrow> 64 word \<times> build_output res" where
  "snapshot_build m seq ctx inp =
     (case ctx of Some e \<Rightarrow> (seq, Inl e)
      | None \<Rightarrow> (case index_secrets (bi_secrets inp) of Inl e \<Rightarrow> (seq, Inl e)
      | Inr secrets \<Rightarrow> (case collect_participants (bi_deposits inp) (bi_requests inp) of
          Inl e \<Rightarrow> (seq, Inl e)
      | Inr parts \<Rightarrow>
          let snap = manager_snapshot m; old_root = sn_root snap in
          (case validate_root old_root of Some e \<Rightarrow> (seq, Inl e)
      | None \<Rightarrow> (case fold_res facade_deposit (new_local_state_from_snapshot snap) (bi_deposits inp) of
          Inl e \<Rightarrow> (seq, Inl e)
      | Inr ls1 \<Rightarrow> (case fold_res (facade_withdraw secrets) (ls1, []) (bi_requests inp) of
          Inl e \<Rightarrow> (seq, Inl e)
      | Inr (ls2, withdrawals) \<Rightarrow>
          facade_assemble seq old_root (\<lambda>owner denom. acc_balance (snapshot_account snap owner denom))
            secrets parts (bi_deposits inp) ls2 withdrawals))))))"

subsection \<open>Secrets are trimmed and not empty\<close>

lemma mvp_mock_secret_facts [simp]: "trim_space mvp_mock_secret = mvp_mock_secret" "mvp_mock_secret \<noteq> []"
  by (simp_all add: mvp_mock_secret_def trim_space_plain plain_def plain_char_def)

definition secrets_ok :: "(string \<rightharpoonup> string) \<Rightarrow> bool" where
  "secrets_ok m \<longleftrightarrow> (\<forall>s \<in> ran m. trim_space s = s \<and> s \<noteq> [])"

lemma index_secret_ok: "index_secret m x = Inr m' \<Longrightarrow> secrets_ok m \<Longrightarrow> secrets_ok m'"
  by (auto simp: secrets_ok_def index_secret_def Let_def domIff split: if_splits)

lemma index_secrets_ok: "index_secrets xs = Inr m \<Longrightarrow> secrets_ok m"
  unfolding index_secrets_def
proof (erule fold_res_invariant [where P = secrets_ok])
  show "secrets_ok Map.empty" by (simp add: secrets_ok_def)
qed (rule index_secret_ok)

lemma resolve_secret_ok:
  "secrets_ok m \<Longrightarrow> trim_space (resolve_secret m ow) = resolve_secret m ow \<and> resolve_secret m ow \<noteq> []"
  by (auto simp: resolve_secret_def secrets_ok_def ran_def split: option.splits)

subsection \<open>Participants\<close>

definition trim_pair :: "string \<times> string \<Rightarrow> string \<times> string" where
  "trim_pair r = (trim_space (fst r), trim_space (snd r))"

lemma add_participant_Inr:
  "add_participant (seen, out) r = Inr acc \<longleftrightarrow>
     fst (trim_pair r) \<noteq> [] \<and> snd (trim_pair r) \<noteq> []
     \<and> acc = (if fst (trim_pair r) \<in> seen then (seen, out)
              else (insert (fst (trim_pair r)) seen, out @ [trim_pair r]))"
  by (cases r) (auto simp: add_participant_def trim_pair_def Let_def)

lemma collect_owners:
  "fold_res add_participant (seen, out) raws = Inr (seen', out') \<Longrightarrow> seen = fst ` set out \<Longrightarrow>
     seen' = fst ` set out' \<and> fst ` set out' = fst ` set out \<union> fst ` trim_pair ` set raws"
proof (induction raws arbitrary: seen out)
  case Nil
  then show ?case by auto
next
  case (Cons r rs)
  from Cons.prems(1) obtain s1 o1 where a: "add_participant (seen, out) r = Inr (s1, o1)"
    "fold_res add_participant (s1, o1) rs = Inr (seen', out')" by (auto split: sum.splits)
  from a(1) Cons.prems(2) have "s1 = fst ` set o1" "fst ` set o1 = insert (fst (trim_pair r)) (fst ` set out)"
    by (simp_all add: add_participant_Inr insert_absorb split: if_splits)
  with Cons.IH [OF a(2)] show ?case by simp
qed

lemma collect_distinct:
  "fold_res add_participant (seen, out) raws = Inr (seen', out') \<Longrightarrow> seen = fst ` set out \<Longrightarrow>
     distinct (map fst out) \<Longrightarrow> distinct (map fst out')"
proof (induction raws arbitrary: seen out)
  case Nil
  then show ?case by simp
next
  case (Cons r rs)
  from Cons.prems(1) obtain s1 o1 where a: "add_participant (seen, out) r = Inr (s1, o1)"
    "fold_res add_participant (s1, o1) rs = Inr (seen', out')" by (auto split: sum.splits)
  from a(1) Cons.prems(2,3) have "s1 = fst ` set o1" "distinct (map fst o1)"
    by (simp_all add: add_participant_Inr split: if_splits)
  with Cons.IH [OF a(2)] show ?case by simp
qed

lemma collect_from:
  "fold_res add_participant (seen, out) raws = Inr (seen', out') \<Longrightarrow>
     set out' \<subseteq> set out \<union> trim_pair ` set raws
     \<and> (\<forall>r \<in> set raws. fst (trim_pair r) \<noteq> [] \<and> snd (trim_pair r) \<noteq> [])"
proof (induction raws arbitrary: seen out)
  case Nil
  then show ?case by simp
next
  case (Cons r rs)
  from Cons.prems(1) obtain s1 o1 where a: "add_participant (seen, out) r = Inr (s1, o1)"
    "fold_res add_participant (s1, o1) rs = Inr (seen', out')" by (auto split: sum.splits)
  from Cons.IH [OF a(2)] a(1) show ?case
    by (auto simp: add_participant_Inr split: if_splits)
qed

definition batch_parties :: "deposit_record list \<Rightarrow> withdraw_request list \<Rightarrow> (string \<times> string) list" where
  "batch_parties deps reqs =
     map (\<lambda>d. (dep_owner d, dep_denom d)) deps @ map (\<lambda>r. (wr_owner r, wr_denom r)) reqs"

lemma collect_participants_ok:
  assumes "collect_participants deps reqs = Inr parts"
  shows "distinct (map fst parts)"
    and "fst ` set parts = fst ` trim_pair ` set (batch_parties deps reqs)"
    and "set parts \<subseteq> trim_pair ` set (batch_parties deps reqs)"
    and "\<forall>p \<in> set parts. fst p \<noteq> [] \<and> snd p \<noteq> []"
proof -
  from assms obtain seen where
    run: "fold_res add_participant ({}, []) (batch_parties deps reqs) = Inr (seen, parts)"
    by (auto simp: collect_participants_def batch_parties_def split: sum.splits)
  show "distinct (map fst parts)" using collect_distinct [OF run] by simp
  show "fst ` set parts = fst ` trim_pair ` set (batch_parties deps reqs)"
    using collect_owners [OF run] by simp
  show sub: "set parts \<subseteq> trim_pair ` set (batch_parties deps reqs)" using collect_from [OF run] by simp
  show "\<forall>p \<in> set parts. fst p \<noteq> [] \<and> snd p \<noteq> []" using collect_from [OF run] by auto
qed

subsection \<open>A run of the batch is a run of the mirror\<close>

definition batch_ops :: "deposit_record list \<Rightarrow> withdrawal_input list \<Rightarrow> mirror_op list" where
  "batch_ops deps ws = map OpDeposit deps @ map (\<lambda>w. OpWithdraw (wn_request w) (wn_nullifier w)) ws"

lemma facade_deposits_run:
  "fold_res facade_deposit s deps = Inr s' \<Longrightarrow> fold_res op_apply s (map OpDeposit deps) = Inr s'"
  by (induction deps arbitrary: s) (auto simp: facade_deposit_def split: sum.splits)

definition derived :: "(string \<rightharpoonup> string) \<Rightarrow> withdrawal_input \<Rightarrow> bool" where
  "derived secrets w \<longleftrightarrow>
     nullifier_for (resolve_secret secrets (trim_space (wr_owner (wn_request w)))) (wr_nonce (wn_request w))
       = Inr (wn_nullifier w)
     \<and> withdraw_address_hash (wr_destination (wn_request w)) = Inr (wn_destination_hash w)"

lemma facade_withdraw_Inr:
  "facade_withdraw secrets (s, ws) req = Inr (s', ws') \<longleftrightarrow>
     (\<exists>w. wn_request w = req \<and> derived secrets w \<and> ws' = ws @ [w]
        \<and> op_apply s (OpWithdraw req (wn_nullifier w)) = Inr s')"
proof
  assume "facade_withdraw secrets (s, ws) req = Inr (s', ws')"
  then obtain nf h r where "nullifier_for (resolve_secret secrets (trim_space (wr_owner req))) (wr_nonce req) = Inr nf"
    "withdraw_address_hash (wr_destination req) = Inr h" "apply_withdrawal s req nf = Inr (s', r)"
    "ws' = ws @ [\<lparr>wn_request = req, wn_nullifier = nf, wn_destination_hash = h\<rparr>]"
    by (auto simp: facade_withdraw_def Let_def split: sum.splits)
  then show "\<exists>w. wn_request w = req \<and> derived secrets w \<and> ws' = ws @ [w]
        \<and> op_apply s (OpWithdraw req (wn_nullifier w)) = Inr s'"
    by (intro exI [of _ "\<lparr>wn_request = req, wn_nullifier = nf, wn_destination_hash = h\<rparr>"])
       (simp add: derived_def)
next
  assume "\<exists>w. wn_request w = req \<and> derived secrets w \<and> ws' = ws @ [w]
        \<and> op_apply s (OpWithdraw req (wn_nullifier w)) = Inr s'"
  then obtain w r where w: "wn_request w = req" "derived secrets w" "ws' = ws @ [w]"
    "apply_withdrawal s req (wn_nullifier w) = Inr (s', r)" unfolding op_apply_Inr by blast
  then show "facade_withdraw secrets (s, ws) req = Inr (s', ws')"
    by (auto simp: facade_withdraw_def derived_def Let_def)
qed

lemma facade_withdrawals_run:
  "fold_res (facade_withdraw secrets) (s, ws) reqs = Inr (s', ws') \<Longrightarrow>
     \<exists>vs. ws' = ws @ vs \<and> map wn_request vs = reqs \<and> (\<forall>w \<in> set vs. derived secrets w)
       \<and> fold_res op_apply s (map (\<lambda>w. OpWithdraw (wn_request w) (wn_nullifier w)) vs) = Inr s'"
proof (induction reqs arbitrary: s ws)
  case Nil
  then show ?case by simp
next
  case (Cons r rs)
  from Cons.prems obtain s1 ws1 where a: "facade_withdraw secrets (s, ws) r = Inr (s1, ws1)"
    "fold_res (facade_withdraw secrets) (s1, ws1) rs = Inr (s', ws')" by (auto split: sum.splits)
  from a(1) obtain w where w: "wn_request w = r" "derived secrets w" "ws1 = ws @ [w]"
    "op_apply s (OpWithdraw r (wn_nullifier w)) = Inr s1" by (auto simp: facade_withdraw_Inr)
  from Cons.IH [OF a(2)] obtain vs where vs: "ws' = ws1 @ vs" "map wn_request vs = rs"
    "\<forall>w \<in> set vs. derived secrets w"
    "fold_res op_apply s1 (map (\<lambda>w. OpWithdraw (wn_request w) (wn_nullifier w)) vs) = Inr s'" by blast
  with w show ?case by (intro exI [of _ "w # vs"]) simp
qed

lemma facade_run:
  assumes "fold_res facade_deposit s deps = Inr s1"
    and "fold_res (facade_withdraw secrets) (s1, []) reqs = Inr (s2, ws)"
  shows "fold_res op_apply s (batch_ops deps ws) = Inr s2" and "map wn_request ws = reqs"
    and "\<forall>w \<in> set ws. derived secrets w"
  using facade_deposits_run [OF assms(1)] facade_withdrawals_run [OF assms(2)]
  by (auto simp: batch_ops_def fold_res_append)

subsection \<open>The witness checks always pass\<close>

text \<open>
  In a batch the settlement builder accepted, all denominations are the same string, so an owner's
  entries in the batch are those of the one account \<open>(owner, denom)\<close>, provided the owners carry no
  outer whitespace: the witness builder compares them untrimmed.
\<close>

definition owners_trimmed :: "deposit_record list \<Rightarrow> withdraw_request list \<Rightarrow> bool" where
  "owners_trimmed deps reqs \<longleftrightarrow> (\<forall>p \<in> set (batch_parties deps reqs). trim_space (fst p) = fst p)"

lemma deposit_total_ops:
  assumes "\<forall>d \<in> set deps. dep_denom d = den \<and> trim_space (dep_owner d) = dep_owner d"
    and "trim_space den = den"
  shows "deposited (ow, den) (batch_ops deps ws) = deposit_total (owned_deposits ow deps)"
proof -
  have "deposited (ow, den) (map (\<lambda>w. OpWithdraw (wn_request w) (wn_nullifier w)) ws) = 0" for ws
    by (induction ws) simp_all
  then have "deposited (ow, den) (batch_ops deps ws) = deposited (ow, den) (map OpDeposit deps)"
    by (simp add: batch_ops_def deposited_def)
  also have "\<dots> = deposit_total (owned_deposits ow deps)"
    using assms by (induction deps) (auto simp: owned_deposits_def deposit_total_def)
  finally show ?thesis .
qed

lemma withdraw_total_ops:
  assumes "\<forall>w \<in> set ws. wr_denom (wn_request w) = den
      \<and> trim_space (wr_owner (wn_request w)) = wr_owner (wn_request w)"
    and "trim_space den = den"
  shows "withdrawn (ow, den) (batch_ops deps ws) = withdraw_total (owned_withdrawals ow ws)"
proof -
  have "withdrawn (ow, den) (map OpDeposit deps) = 0" for deps
    by (induction deps) simp_all
  then have "withdrawn (ow, den) (batch_ops deps ws)
    = withdrawn (ow, den) (map (\<lambda>w. OpWithdraw (wn_request w) (wn_nullifier w)) ws)"
    by (simp add: batch_ops_def withdrawn_def)
  also have "\<dots> = withdraw_total (owned_withdrawals ow ws)"
    using assms by (induction ws) (auto simp: owned_withdrawals_def withdraw_total_def)
  finally show ?thesis .
qed

lemma nullifier_for_canonical:
  "is_ok (parse_non_negative_amount n) \<Longrightarrow> nullifier_for secret (nat_to_dec (amount_of n)) = nullifier_for secret n"
  by (auto simp: nullifier_for_def is_ok_iff amount_of_parse Let_def)

lemma derived_matches:
  assumes "derived secrets w" and "trim_space (wr_owner (wn_request w)) = ow" and "nonce_ok (wr_nonce (wn_request w))"
  shows "nullifier_matches (resolve_secret secrets ow) w"
  using assms nullifier_for_canonical [OF assms(3)] by (simp add: nullifier_matches_def derived_def)

lemma local_account_balance:
  assumes "wf_local s" and "trim_space ow = ow" "ow \<noteq> []" "trim_space d = d" "d \<noteq> []"
  shows "acc_balance (local_account s ow d) = nat_to_dec (bal_of (local_ledger s) (ow, d))"
  unfolding local_account_def
  by (rule get_or_zero_amounts(1)) (use assms in \<open>simp_all add: wf_local_def new_account_key_Inr\<close>)

lemma run_balance_equation:
  assumes "wf_local s" and "fold_res op_apply s xs = Inr s'"
  shows "bal_of (local_ledger s') k + withdrawn k xs = bal_of (local_ledger s) k + deposited k xs"
  using op_run_ok [OF assms] spec_run_balance [of "mirror_of s" xs "mirror_of s'" k]
  by (simp add: mirror_of_def)

text \<open>Everything the second half of a builder knows about the batch it was given.\<close>

definition batch_facts ::
    "(string \<rightharpoonup> string) \<Rightarrow> local_state \<Rightarrow> deposit_record list \<Rightarrow> withdrawal_input list \<Rightarrow> local_state \<Rightarrow> bool" where
  "batch_facts secrets s deps ws s' \<longleftrightarrow> secrets_ok secrets \<and> wf_local s \<and> wf_local s'
     \<and> (\<forall>k. bal_of (local_ledger s') k + withdrawn k (batch_ops deps ws)
              = bal_of (local_ledger s) k + deposited k (batch_ops deps ws))
     \<and> (\<forall>w \<in> set ws. derived secrets w) \<and> owners_trimmed deps (map wn_request ws)"

lemma party_consistent:
  assumes facts: "batch_facts secrets s deps ws s'"
    and valid: "inputs_valid \<lparr>si_old_root = r, si_new_root = r', si_deposits = deps, si_withdrawals = ws\<rparr>"
    and p: "(ow, d) \<in> trim_pair ` set (batch_parties deps (map wn_request ws))"
    and old: "acc_balance (local_account s ow d) = ob"
  shows "account_consistent \<lparr>si_old_root = r, si_new_root = r', si_deposits = deps, si_withdrawals = ws\<rparr>
    \<lparr>aw_owner = ow, aw_user_secret = resolve_secret secrets ow, aw_old_balance = ob,
     aw_new_balance = acc_balance (local_account s' ow d)\<rparr>"
proof -
  let ?inp = "\<lparr>si_old_root = r, si_new_root = r', si_deposits = deps, si_withdrawals = ws\<rparr>"
  let ?ds = "owned_deposits ow deps" and ?ws = "owned_withdrawals ow ws"
  from facts have wf: "wf_local s" "wf_local s'"
    and run: "bal_of (local_ledger s') k + withdrawn k (batch_ops deps ws)
      = bal_of (local_ledger s) k + deposited k (batch_ops deps ws)"
    and der: "\<forall>w \<in> set ws. derived secrets w" and sec: "secrets_ok secrets"
    and trimmed: "owners_trimmed deps (map wn_request ws)" for k
    unfolding batch_facts_def by blast+
  define den where "den = batch_denom ?inp"
  from valid have gd: "\<forall>x \<in> set deps. good_deposit den x" and gw: "\<forall>w \<in> set ws. good_withdrawal den w"
    by (simp_all add: inputs_valid_def den_def)
  have den: "trim_space den = den"
    by (auto simp: den_def batch_denom_def split: list.splits)
  from trimmed have td: "\<forall>x \<in> set deps. trim_space (dep_owner x) = dep_owner x"
    and tw: "\<forall>w \<in> set ws. trim_space (wr_owner (wn_request w)) = wr_owner (wn_request w)"
    by (simp_all add: owners_trimmed_def batch_parties_def ball_Un)
  from p consider (dep) x where "x \<in> set deps" "ow = trim_space (dep_owner x)" "d = trim_space (dep_denom x)"
    | (wd) w where "w \<in> set ws" "ow = trim_space (wr_owner (wn_request w))"
        "d = trim_space (wr_denom (wn_request w))"
    by (auto simp: batch_parties_def trim_pair_def)
  then have "d = den \<and> trim_space ow = ow \<and> ow \<noteq> [] \<and> den \<noteq> []
    \<and> \<not> (deposit_total ?ds = 0 \<and> withdraw_total ?ws = 0)"
  proof (cases)
    case dep
    with gd have g: "good_deposit den x" by blast
    with dep den have "d = den \<and> trim_space ow = ow \<and> ow \<noteq> [] \<and> den \<noteq> []"
      by (auto simp: good_deposit_def)
    from g have pos: "0 < amount_of (dep_amount x)" by (simp add: good_deposit_def amount_of_pos)
    from dep td have "x \<in> set ?ds" by (simp add: owned_deposits_def)
    then have "amount_of (dep_amount x) \<le> deposit_total ?ds"
      unfolding deposit_total_def by (intro member_le_sum_list) auto
    with pos show ?thesis using \<open>d = den \<and> _\<close> by simp
  next
    case wd
    with gw have g: "good_withdrawal den w" by blast
    with wd den have "d = den \<and> trim_space ow = ow \<and> ow \<noteq> [] \<and> den \<noteq> []"
      by (auto simp: good_withdrawal_def)
    from g have pos: "0 < amount_of (wr_amount (wn_request w))"
      by (simp add: good_withdrawal_def amount_of_pos)
    from wd tw have "w \<in> set ?ws" by (simp add: owned_withdrawals_def)
    then have "amount_of (wr_amount (wn_request w)) \<le> withdraw_total ?ws"
      unfolding withdraw_total_def by (intro member_le_sum_list) auto
    with pos show ?thesis using \<open>d = den \<and> _\<close> by simp
  qed
  then have d: "d = den" and ow: "trim_space ow = ow" "ow \<noteq> []" and den_ne: "den \<noteq> []"
    and nz: "\<not> (deposit_total ?ds = 0 \<and> withdraw_total ?ws = 0)" by simp_all
  have bal: "acc_balance (local_account t ow d) = nat_to_dec (bal_of (local_ledger t) (ow, den))" if "wf_local t" for t
    using local_account_balance [OF that ow, of den] den den_ne d by simp
  have "deposited (ow, den) (batch_ops deps ws) = deposit_total ?ds"
    "withdrawn (ow, den) (batch_ops deps ws) = withdraw_total ?ws"
    using gd gw td tw den
    by (auto intro!: deposit_total_ops withdraw_total_ops simp: good_deposit_def good_withdrawal_def)
  with run [of "(ow, den)"] have
    eq: "bal_of (local_ledger s') (ow, den) + withdraw_total ?ws = bal_of (local_ledger s) (ow, den) + deposit_total ?ds"
    by simp
  have nf: "nullifier_matches (resolve_secret secrets ow) w" if "w \<in> set ?ws" for w
    using that der gw tw by (intro derived_matches) (auto simp: owned_withdrawals_def good_withdrawal_def)
  have amts: "\<forall>x \<in> set ?ds. amount_ok (dep_amount x)" "\<forall>w \<in> set ?ws. amount_ok (wr_amount (wn_request w))"
    using gd gw by (auto simp: owned_deposits_def owned_withdrawals_def good_deposit_def good_withdrawal_def)
  show ?thesis
    using resolve_secret_ok [OF sec, of ow] ow bal [OF wf(1)] bal [OF wf(2)] old nz eq nf amts
    by (auto simp: account_consistent_def Let_def)
qed

definition party_witness ::
    "(string \<rightharpoonup> string) \<Rightarrow> local_state \<Rightarrow> withdrawal_input list \<Rightarrow> local_state \<Rightarrow> participant \<Rightarrow> witness_account" where
  "party_witness secrets s ws s' p =
     \<lparr>wa_owner = fst p, wa_user_secret = resolve_secret secrets (fst p),
      wa_nonce = nat_to_dec (witness_nonce (owned_withdrawals (fst p) ws)),
      wa_old_balance = nat_to_dec (bal_of (local_ledger s) p),
      wa_new_balance = nat_to_dec (bal_of (local_ledger s') p)\<rparr>"

definition batch_update ::
    "64 word \<Rightarrow> string \<Rightarrow> string \<Rightarrow> deposit_record list \<Rightarrow> withdrawal_input list \<Rightarrow> settlement_update" where
  "batch_update seq r r' deps ws = \<lparr>su_batch_id = ''batch-'' @ format_uint seq, su_old_root = r,
     su_new_root = r', su_deposits = map deposit_entry deps, su_withdrawals = map withdrawal_entry ws\<rparr>"

lemma witness_of_parties:
  assumes facts: "batch_facts secrets s deps ws s'"
    and valid: "inputs_valid \<lparr>si_old_root = r, si_new_root = r', si_deposits = deps, si_withdrawals = ws\<rparr>"
    and ps: "ps \<noteq> []" "set ps \<subseteq> trim_pair ` set (batch_parties deps (map wn_request ws))"
      "\<forall>p \<in> set ps. fst p \<noteq> [] \<and> snd p \<noteq> []"
    and accs: "accs = map (\<lambda>p. \<lparr>aw_owner = fst p, aw_user_secret = resolve_secret secrets (fst p),
        aw_old_balance = acc_balance (local_account s (fst p) (snd p)),
        aw_new_balance = acc_balance (local_account s' (fst p) (snd p))\<rparr>) ps"
  shows "build_witness \<lparr>wt_settlement = \<lparr>si_old_root = r, si_new_root = r', si_deposits = deps,
        si_withdrawals = ws\<rparr>, wt_accounts = accs, wt_state_path = []\<rparr>
    = Inr \<lparr>wit_accounts = map (party_witness secrets s ws s') ps, wit_state_path = []\<rparr>"
proof -
  let ?sin = "\<lparr>si_old_root = r, si_new_root = r', si_deposits = deps, si_withdrawals = ws\<rparr>"
  let ?acc = "\<lambda>p. \<lparr>aw_owner = fst p, aw_user_secret = resolve_secret secrets (fst p),
        aw_old_balance = acc_balance (local_account s (fst p) (snd p)),
        aw_new_balance = acc_balance (local_account s' (fst p) (snd p))\<rparr>"
  have "account_consistent ?sin (?acc p) \<and> witness_entry ?sin (?acc p) = party_witness secrets s ws s' p"
    if "p \<in> set ps" for p
  proof -
    obtain ow d where p: "p = (ow, d)" by (cases p)
    from that p ps have in_parties: "(ow, d) \<in> trim_pair ` set (batch_parties deps (map wn_request ws))"
      and ne: "ow \<noteq> []" "d \<noteq> []" by auto
    from in_parties have tr: "trim_space ow = ow" "trim_space d = d" by (auto simp: trim_pair_def)
    from facts have wf: "wf_local s" "wf_local s'" and sec: "secrets_ok secrets" by (simp_all add: batch_facts_def)
    from party_consistent [OF facts valid in_parties refl]
    show ?thesis
      using p tr local_account_balance [OF wf(1) tr(1) ne(1) tr(2) ne(2)]
        local_account_balance [OF wf(2) tr(1) ne(1) tr(2) ne(2)] resolve_secret_ok [OF sec, of ow]
      by (simp add: witness_entry_def party_witness_def)
  qed
  with ps(1) show ?thesis unfolding accs by (simp add: build_witness_eq)
qed

lemma facade_assemble_eq:
  assumes facts: "batch_facts secrets s deps ws s'"
    and parts: "collect_participants deps (map wn_request ws) = Inr parts"
    and old: "\<forall>(ow, d) \<in> set parts. old_balance ow d = acc_balance (local_account s ow d)"
  shows "facade_assemble seq r old_balance secrets parts deps s' ws =
    (if inputs_valid \<lparr>si_old_root = r, si_new_root = ls_root s', si_deposits = deps, si_withdrawals = ws\<rparr>
     then (seq + 1, Inr \<lparr>bo_update = batch_update (seq + 1) r (ls_root s') deps ws,
        bo_commitments = build_commitments (batch_update (seq + 1) r (ls_root s') deps ws),
        bo_witness = \<lparr>wit_accounts = map (party_witness secrets s ws s') parts, wit_state_path = []\<rparr>\<rparr>)
     else (seq, Inl ErrInvalidSettlementInputs))"
    (is "?lhs = (if inputs_valid ?sin then _ else _)")
proof (cases "inputs_valid ?sin")
  case False
  then show ?thesis by (simp add: facade_assemble_def settlement_build_eq)
next
  case True
  note col = collect_participants_ok [OF parts]
  from True have "batch_parties deps (map wn_request ws) \<noteq> []"
    by (auto simp: inputs_valid_def batch_parties_def)
  then have ne: "parts \<noteq> []" using col(2) by auto
  have "map (\<lambda>(owner, denom). \<lparr>aw_owner = owner, aw_user_secret = resolve_secret secrets owner,
      aw_old_balance = old_balance owner denom,
      aw_new_balance = acc_balance (local_account s' owner denom)\<rparr>) parts
    = map (\<lambda>p. \<lparr>aw_owner = fst p, aw_user_secret = resolve_secret secrets (fst p),
      aw_old_balance = acc_balance (local_account s (fst p) (snd p)),
      aw_new_balance = acc_balance (local_account s' (fst p) (snd p))\<rparr>) parts"
    using old by auto
  with True show ?thesis
    unfolding facade_assemble_def
    by (simp add: settlement_build_eq batch_update_def Let_def
        witness_of_parties [OF facts True ne col(3,4)])
qed

subsection \<open>The builders\<close>

lemma facade_assemble_built:
  assumes "facade_assemble seq r old_balance secrets parts deps s' ws = (seq', Inr out)"
  shows "seq' = seq + 1" and "bo_update out = batch_update (seq + 1) r (ls_root s') deps ws"
    and "bo_commitments out = build_commitments (bo_update out)"
    and "inputs_valid \<lparr>si_old_root = r, si_new_root = ls_root s', si_deposits = deps, si_withdrawals = ws\<rparr>"
  using assms
  by (auto simp: facade_assemble_def settlement_build_eq batch_update_def Let_def split: if_splits sum.splits)

lemma facade_assemble_seq:
  "facade_assemble seq r old_balance secrets parts deps s' ws = (seq', Inl e) \<Longrightarrow> seq' = seq \<or> seq' = seq + 1"
  by (auto simp: facade_assemble_def settlement_build_eq Let_def split: if_splits sum.splits)

lemma facade_errors:
  "facade_deposit s d = Inl e \<Longrightarrow> e = ErrInvalidBuildInput"
  "facade_withdraw secrets (s, ws) req = Inl e \<Longrightarrow> e = ErrInvalidBuildInput \<or> e = ErrInsufficientOffchainBalance"
  "index_secret out sec = Inl e \<Longrightarrow> e = ErrInvalidBuildInput"
  "add_participant (seen, acc) raw = Inl e \<Longrightarrow> e = ErrInvalidBuildInput"
  by (auto simp: facade_deposit_def facade_withdraw_def index_secret_def add_participant_def Let_def
      split: sum.splits if_splits prod.splits)

lemma fold_res_Inl: "fold_res f s xs = Inl e \<Longrightarrow> \<exists>s' x. f s' x = Inl e"
  by (induction xs arbitrary: s) (auto split: sum.splits)

lemma facade_fold_errors:
  "fold_res facade_deposit s deps = Inl e \<Longrightarrow> e = ErrInvalidBuildInput"
  "fold_res (facade_withdraw secrets) acc reqs = Inl e
     \<Longrightarrow> e = ErrInvalidBuildInput \<or> e = ErrInsufficientOffchainBalance"
  "index_secrets secs = Inl e \<Longrightarrow> e = ErrInvalidBuildInput"
  "collect_participants deps reqs = Inl e \<Longrightarrow> e = ErrInvalidBuildInput"
  by (auto simp: index_secrets_def collect_participants_def split: sum.splits
      dest!: fold_res_Inl dest: facade_errors)

text \<open>What a successful build on the manager's snapshot has done.\<close>

definition snapshot_built ::
    "manager \<Rightarrow> 64 word \<Rightarrow> build_input \<Rightarrow> build_output \<Rightarrow> bool" where
  "snapshot_built m seq inp out \<longleftrightarrow> (\<exists>secrets parts ws s'.
     index_secrets (bi_secrets inp) = Inr secrets
     \<and> collect_participants (bi_deposits inp) (bi_requests inp) = Inr parts
     \<and> map wn_request ws = bi_requests inp \<and> (\<forall>w \<in> set ws. derived secrets w)
     \<and> fold_res op_apply (mg_ls m) (batch_ops (bi_deposits inp) ws) = Inr s'
     \<and> bo_update out = batch_update seq (manager_root m) (ls_root s') (bi_deposits inp) ws
     \<and> bo_commitments out = build_commitments (bo_update out)
     \<and> bo_witness out = \<lparr>wit_accounts = map (party_witness secrets (mg_ls m) ws s') parts, wit_state_path = []\<rparr>)"

definition facade_error :: "go_error \<Rightarrow> bool" where
  "facade_error e \<longleftrightarrow> e = ErrInvalidBuildInput \<or> e = ErrInsufficientOffchainBalance
     \<or> e = ErrInvalidSettlementInputs"

lemma snapshot_build_result:
  assumes wf: "wf_manager m" and trimmed: "owners_trimmed (bi_deposits inp) (bi_requests inp)"
    and res: "snapshot_build m seq None inp = (seq', r)"
  shows "case r of Inl e \<Rightarrow> seq' = seq \<and> facade_error e
    | Inr out \<Rightarrow> seq' = seq + 1 \<and> snapshot_built m seq' inp out"
proof (cases "\<exists>secrets parts ls1 ls2 ws. index_secrets (bi_secrets inp) = Inr secrets
     \<and> collect_participants (bi_deposits inp) (bi_requests inp) = Inr parts \<and> hex_value (manager_root m)
     \<and> fold_res facade_deposit (mg_ls m) (bi_deposits inp) = Inr ls1
     \<and> fold_res (facade_withdraw secrets) (ls1, []) (bi_requests inp) = Inr (ls2, ws)")
  case False
  with res local_state_from_manager_snapshot [OF wf] show ?thesis
    by (auto simp: snapshot_build_def validate_root_eq Let_def facade_error_def
        split: sum.splits if_splits prod.splits dest!: facade_fold_errors)
next
  case True
  then obtain secrets parts ls1 ls2 ws where
    s: "index_secrets (bi_secrets inp) = Inr secrets" and
    p: "collect_participants (bi_deposits inp) (bi_requests inp) = Inr parts" and
    root: "hex_value (manager_root m)" and
    run: "fold_res facade_deposit (mg_ls m) (bi_deposits inp) = Inr ls1"
      "fold_res (facade_withdraw secrets) (ls1, []) (bi_requests inp) = Inr (ls2, ws)" by blast
  note fr = facade_run [OF run]
  have wfl: "wf_local (mg_ls m)" using wf by (simp add: wf_manager_def)
  have facts: "batch_facts secrets (mg_ls m) (bi_deposits inp) ws ls2"
    using fr trimmed index_secrets_ok [OF s] wfl op_run_ok [OF wfl fr(1)] run_balance_equation [OF wfl fr(1)]
    by (simp add: batch_facts_def)
  have eq: "snapshot_build m seq None inp = facade_assemble seq (manager_root m)
      (\<lambda>owner denom. acc_balance (manager_account m owner denom)) secrets parts (bi_deposits inp) ls2 ws"
    using s p root run by (simp add: snapshot_build_def validate_root_eq Let_def local_state_from_manager_snapshot [OF wf])
  have "facade_assemble seq (manager_root m) (\<lambda>owner denom. acc_balance (manager_account m owner denom))
      secrets parts (bi_deposits inp) ls2 ws = (seq', r)" using eq res by simp
  then have cases: "seq' = seq \<and> r = Inl ErrInvalidSettlementInputs \<or> seq' = seq + 1
      \<and> r = Inr \<lparr>bo_update = batch_update (seq + 1) (manager_root m) (ls_root ls2) (bi_deposits inp) ws,
        bo_commitments = build_commitments (batch_update (seq + 1) (manager_root m) (ls_root ls2) (bi_deposits inp) ws),
        bo_witness = \<lparr>wit_accounts = map (party_witness secrets (mg_ls m) ws ls2) parts, wit_state_path = []\<rparr>\<rparr>"
    using p fr(2)
    by (subst (asm) facade_assemble_eq [OF facts]) (auto simp: manager_account_def split: if_splits)
  then show ?thesis
  proof
    assume c: "seq' = seq + 1 \<and> r = Inr \<lparr>bo_update = batch_update (seq + 1) (manager_root m) (ls_root ls2) (bi_deposits inp) ws,
        bo_commitments = build_commitments (batch_update (seq + 1) (manager_root m) (ls_root ls2) (bi_deposits inp) ws),
        bo_witness = \<lparr>wit_accounts = map (party_witness secrets (mg_ls m) ws ls2) parts, wit_state_path = []\<rparr>\<rparr>"
    have "snapshot_built m (seq + 1) inp out" if "r = Inr out" for out
      unfolding snapshot_built_def
      by (intro exI [of _ secrets] exI [of _ parts] exI [of _ ws] exI [of _ ls2])
         (use that c s p fr in auto)
    with c show ?thesis by simp
  qed (simp add: facade_error_def)
qed

subsection \<open>The Builder interface\<close>

text \<open>
  What the batch service relies on: a cancelled build does nothing; a successful one takes the next
  number, and its commitments are those of its update. From this follows that the public inputs can
  always be derived from a build, and that the batches of one builder have different names.
\<close>

fun build_all :: "('n \<Rightarrow> 'i \<Rightarrow> 'n \<times> 'o res) \<Rightarrow> 'n \<Rightarrow> 'i list \<Rightarrow> 'o list" where
  "build_all f seq [] = []"
| "build_all f seq (i # is) = (case f seq i of (seq', Inl _) \<Rightarrow> build_all f seq' is
     | (seq', Inr out) \<Rightarrow> out # build_all f seq' is)"

locale batch_builder =
  fixes build :: "'env \<Rightarrow> 64 word \<Rightarrow> go_error option \<Rightarrow> build_input \<Rightarrow> 64 word \<times> build_output res"
  assumes cancelled: "build env seq (Some e) inp = (seq, Inl e)"
    and numbered: "build env seq ctx inp = (seq', Inr out) \<Longrightarrow>
      seq' = seq + 1 \<and> su_batch_id (bo_update out) = ''batch-'' @ format_uint seq'"
    and committed: "build env seq ctx inp = (seq', Inr out) \<Longrightarrow>
      bo_commitments out = build_commitments (bo_update out)"
    and rooted: "build env seq ctx inp = (seq', Inr out) \<Longrightarrow> hex_value (su_old_root (bo_update out))
      \<and> hex_value (su_new_root (bo_update out)) \<and> su_old_root (bo_update out) \<noteq> su_new_root (bo_update out)"
    and refused: "build env seq ctx inp = (seq', Inl e) \<Longrightarrow> seq' = seq \<or> seq' = seq + 1"
begin

lemma public_inputs:
  "build env seq ctx inp = (seq', Inr out) \<Longrightarrow>
     build_public_inputs (bo_update out) (bo_commitments out) =
       Inr [su_old_root (bo_update out), su_new_root (bo_update out),
            deposits_root (su_deposits (bo_update out)), withdrawals_root (su_withdrawals (bo_update out)),
            nullifiers_root (su_withdrawals (bo_update out)),
            withdraw_outputs_root (su_withdrawals (bo_update out))]"
  using committed rooted by (simp add: build_public_inputs_eq) (simp add: build_commitments_def)

lemma ids_from:
  "out \<in> set (build_all (\<lambda>seq (ctx, inp). build env seq ctx inp) seq is) \<Longrightarrow>
     \<exists>i. 1 \<le> i \<and> i \<le> length is \<and> su_batch_id (bo_update out) = ''batch-'' @ format_uint (seq + of_nat i)"
proof (induction "is" arbitrary: seq)
  case Nil
  then show ?case by simp
next
  case (Cons x "is")
  obtain ctx inp where x: "x = (ctx, inp)" by (cases x)
  obtain seq' r where b: "build env seq ctx inp = (seq', r)" by (cases "build env seq ctx inp")
  have seq': "seq' = seq \<or> seq' = seq + 1"
    using b refused numbered by (cases r) auto
  show ?case
  proof (cases "out \<in> set (build_all (\<lambda>seq (ctx, inp). build env seq ctx inp) seq' is)")
    case True
    from Cons.IH [OF True] obtain i where
      i: "1 \<le> i" "i \<le> length is" "su_batch_id (bo_update out) = ''batch-'' @ format_uint (seq' + of_nat i)"
      by blast
    from seq' show ?thesis
    proof
      assume "seq' = seq"
      with i show ?thesis by auto
    next
      assume "seq' = seq + 1"
      with i show ?thesis by (intro exI [of _ "Suc i"]) (simp add: add_ac)
    qed
  next
    case False
    with Cons.prems b x obtain "r = Inr out" by (cases r) auto
    with numbered [of env seq ctx inp seq' out] b show ?thesis by (intro exI [of _ 1]) simp
  qed
qed

lemma ids_distinct:
  "length is < 2 ^ 64 \<Longrightarrow>
     distinct (map (\<lambda>out. su_batch_id (bo_update out)) (build_all (\<lambda>seq (ctx, inp). build env seq ctx inp) seq is))"
proof (induction "is" arbitrary: seq)
  case Nil
  then show ?case by simp
next
  case (Cons x "is")
  obtain ctx inp where x: "x = (ctx, inp)" by (cases x)
  obtain seq' r where b: "build env seq ctx inp = (seq', r)" by (cases "build env seq ctx inp")
  show ?case
  proof (cases r)
    case (Inl e)
    with Cons b x show ?thesis by simp
  next
    case (Inr out)
    with numbered b have out: "su_batch_id (bo_update out) = ''batch-'' @ format_uint seq'" by blast
    have "su_batch_id (bo_update o') \<noteq> su_batch_id (bo_update out)"
      if "o' \<in> set (build_all (\<lambda>seq (ctx, inp). build env seq ctx inp) seq' is)" for o'
    proof -
      from ids_from [OF that] obtain i where i: "1 \<le> i" "i \<le> length is"
        "su_batch_id (bo_update o') = ''batch-'' @ format_uint (seq' + of_nat i)" by blast
      from i Cons.prems have "0 < i" "i < 2 ^ 64" by simp_all
      then have "(of_nat i :: 64 word) \<noteq> 0"
        by (simp add: word_of_nat_eq_0_iff nat_dvd_not_less)
      with i out show ?thesis by (simp add: format_uint_inj)
    qed
    then have "su_batch_id (bo_update out) \<notin> (\<lambda>out. su_batch_id (bo_update out)) `
        set (build_all (\<lambda>seq (ctx, inp). build env seq ctx inp) seq' is)" by fastforce
    with Cons b x Inr show ?thesis by simp
  qed
qed

end

lemma inputs_valid_roots:
  "inputs_valid inp \<Longrightarrow> hex_value (si_old_root inp) \<and> hex_value (si_new_root inp) \<and> si_old_root inp \<noteq> si_new_root inp"
  by (simp add: inputs_valid_def)

lemmas built_facts = facade_assemble_built facade_assemble_built(4) [THEN inputs_valid_roots]

interpretation lb: batch_builder "\<lambda>_ :: unit. local_build"
proof
  show "local_build seq (Some e) inp = (seq, Inl e)" for seq e inp by (simp add: local_build_def)
next
  fix seq ctx inp seq' out
  assume "local_build seq ctx inp = (seq', Inr out)"
  then obtain secrets parts ls2 ws ob where
    "facade_assemble seq (bi_old_root inp) ob secrets parts (bi_deposits inp) ls2 ws = (seq', Inr out)"
    by (auto simp: local_build_def split: option.splits sum.splits prod.splits)
  from built_facts [OF this] show
    "seq' = seq + 1 \<and> su_batch_id (bo_update out) = ''batch-'' @ format_uint seq'"
    "bo_commitments out = build_commitments (bo_update out)"
    "hex_value (su_old_root (bo_update out)) \<and> hex_value (su_new_root (bo_update out))
      \<and> su_old_root (bo_update out) \<noteq> su_new_root (bo_update out)"
    by (simp_all add: batch_update_def)
next
  show "seq' = seq \<or> seq' = seq + 1" if "local_build seq ctx inp = (seq', Inl e)" for seq ctx inp seq' e
    using that by (auto simp: local_build_def split: option.splits sum.splits prod.splits
        dest: facade_assemble_seq)
qed

interpretation sb: batch_builder snapshot_build
proof
  show "snapshot_build m seq (Some e) inp = (seq, Inl e)" for m seq e inp by (simp add: snapshot_build_def)
next
  fix m seq ctx inp seq' out
  assume "snapshot_build m seq ctx inp = (seq', Inr out)"
  then obtain secrets parts ls2 ws ob r where
    "facade_assemble seq r ob secrets parts (bi_deposits inp) ls2 ws = (seq', Inr out)"
    by (auto simp: snapshot_build_def Let_def split: option.splits sum.splits prod.splits)
  from built_facts [OF this] show
    "seq' = seq + 1 \<and> su_batch_id (bo_update out) = ''batch-'' @ format_uint seq'"
    "bo_commitments out = build_commitments (bo_update out)"
    "hex_value (su_old_root (bo_update out)) \<and> hex_value (su_new_root (bo_update out))
      \<and> su_old_root (bo_update out) \<noteq> su_new_root (bo_update out)"
    by (simp_all add: batch_update_def)
next
  show "seq' = seq \<or> seq' = seq + 1" if "snapshot_build m seq ctx inp = (seq', Inl e)" for m seq ctx inp seq' e
    using that by (auto simp: snapshot_build_def Let_def split: option.splits sum.splits prod.splits
        dest: facade_assemble_seq)
qed

end
