(* ===== verification/Settlement_Repository.thy ===== *)
theory Settlement_Repository
  imports Go_Types
begin

text \<open>
  \<^verbatim>\<open>internal/repository/offchain_settlement_repository.go\<close> over the tables of
  \<^verbatim>\<open>migrations/003_offchain_settlement.sql\<close>: the durable log of pending transitions and
  the root cursor. A table is the list of its rows; a nullable column is an option. Each method is
  one statement or one transaction, so it is atomic. What the database decides is explicit: the time
  of an insert is an argument, the collation of text is a field, and \<open>db_faults\<close> is the script of
  failures (connection loss, cancelled context, a value the server refuses): a call that finds
  \<open>Some e\<close> at its head fails with that error and changes nothing else.
\<close>

subsection \<open>Transitions and tables\<close>

record state_cursor =
  cu_name :: string
  cu_committed_root :: string
  cu_pending_root :: string
  cu_last_batch_id :: string

record deposit_move =
  pd_id :: string
  pd_owner :: string
  pd_denom :: string
  pd_amount :: string
  pd_root_before :: string
  pd_root_after :: string
  pd_balance_before :: string
  pd_balance_after :: string

record withdrawal_move =
  pw_id :: string
  pw_owner :: string
  pw_denom :: string
  pw_amount :: string
  pw_destination :: string
  pw_nonce :: string
  pw_signature :: string
  pw_nullifier :: string
  pw_destination_hash :: string
  pw_root_before :: string
  pw_root_after :: string
  pw_balance_before :: string
  pw_balance_after :: string

text \<open>
  \<^verbatim>\<open>PendingDepositTransition\<close> and \<^verbatim>\<open>PendingWithdrawalTransition\<close> end in the same
  four fields; a transition is the move and those four.
\<close>

record 'd transition =
  tr_move :: 'd
  tr_status :: string
  tr_batch_id :: string
  tr_tx_hash :: string
  tr_error :: string

type_synonym pending_deposit = "deposit_move transition"
type_synonym pending_withdrawal = "withdrawal_move transition"

record 'd row =
  row_move :: 'd
  row_status :: string
  row_batch_id :: "string option"
  row_tx_hash :: "string option"
  row_error :: "string option"
  row_created :: nat

record settlement_db =
  db_pool :: bool
  db_faults :: "string option list"
  db_collation :: "string \<Rightarrow> nat list"
  db_cursors :: "string \<rightharpoonup> state_cursor"
  db_deposits :: "deposit_move row list"
  db_withdrawals :: "withdrawal_move row list"

definition status_pending :: string where "status_pending = ''pending''"
definition status_included :: string where "status_included = ''included''"
definition status_committed :: string where "status_committed = ''committed''"
definition status_failed :: string where "status_failed = ''failed''"
definition status_claimed :: string where "status_claimed = ''claimed''"

definition default_cursor_name :: string where
  "default_cursor_name = ''default''"

subsection \<open>SQL pieces\<close>

text \<open>\<^verbatim>\<open>NULLIF(x, '')\<close> and \<^verbatim>\<open>COALESCE(x, '')\<close>.\<close>

definition nullif_empty :: "string \<Rightarrow> string option" where
  "nullif_empty x = (if x = [] then None else Some x)"

definition coalesce_empty :: "string option \<Rightarrow> string" where
  "coalesce_empty x = (case x of None \<Rightarrow> [] | Some v \<Rightarrow> v)"

text \<open>
  Every call: the pool must be there, then the script decides whether the statement or transaction
  runs. \<open>body\<close> is what it does when it runs; on an error of its own the transaction is rolled back.
\<close>

definition db_next :: "settlement_db \<Rightarrow> settlement_db" where
  "db_next db = db\<lparr>db_faults := tl (db_faults db)\<rparr>"

definition db_fault :: "settlement_db \<Rightarrow> string option" where
  "db_fault db = (case db_faults db of [] \<Rightarrow> None | f # _ \<Rightarrow> f)"

definition db_call ::
    "(settlement_db \<Rightarrow> (settlement_db \<times> 'a) res) \<Rightarrow> settlement_db \<Rightarrow> settlement_db \<times> 'a res" where
  "db_call body db =
     (if \<not> db_pool db then (db, Inl (ErrText ''offchain settlement repository db pool is nil''))
      else case db_fault db of Some e \<Rightarrow> (db_next db, Inl (ErrExternal e))
      | None \<Rightarrow> (case body (db_next db) of
          Inl e \<Rightarrow> (db_next db, Inl e) | Inr (db', x) \<Rightarrow> (db', Inr x)))"

text \<open>\<^verbatim>\<open>UPDATE ... SET ... WHERE\<close>, and the number of rows it affected.\<close>

definition update_rows :: "('r \<Rightarrow> bool) \<Rightarrow> ('r \<Rightarrow> 'r) \<Rightarrow> 'r list \<Rightarrow> 'r list \<times> nat" where
  "update_rows cond upd rows =
     (map (\<lambda>r. if cond r then upd r else r) rows, length (filter cond rows))"

definition mark_row ::
    "string \<Rightarrow> string option \<Rightarrow> string option \<Rightarrow> string option \<Rightarrow> 'd row \<Rightarrow> 'd row" where
  "mark_row status batch tx err r =
     r\<lparr>row_status := status, row_batch_id := batch, row_tx_hash := tx, row_error := err\<rparr>"

definition read_row :: "'d row \<Rightarrow> 'd transition" where
  "read_row r = \<lparr>tr_move = row_move r, tr_status = row_status r,
     tr_batch_id = coalesce_empty (row_batch_id r), tr_tx_hash = coalesce_empty (row_tx_hash r),
     tr_error = coalesce_empty (row_error r)\<rparr>"

definition new_row :: "nat \<Rightarrow> 'd transition \<Rightarrow> string \<Rightarrow> 'd row" where
  "new_row now t status = \<lparr>row_move = tr_move t, row_status = status,
     row_batch_id = nullif_empty (tr_batch_id t), row_tx_hash = nullif_empty (tr_tx_hash t),
     row_error = nullif_empty (tr_error t), row_created = now\<rparr>"

text \<open>\<^verbatim>\<open>INSERT ... ON CONFLICT (key) DO UPDATE\<close>: an existing row keeps its creation time.\<close>

definition upsert_row :: "('d \<Rightarrow> string) \<Rightarrow> nat \<Rightarrow> 'd transition \<Rightarrow> string \<Rightarrow> 'd row list \<Rightarrow> 'd row list" where
  "upsert_row key now t status rows =
     (if key (tr_move t) \<in> set (map (key \<circ> row_move) rows)
      then map (\<lambda>r. if key (row_move r) = key (tr_move t)
                    then (new_row now t status)\<lparr>row_created := row_created r\<rparr> else r) rows
      else rows @ [new_row now t status])"

text \<open>\<^verbatim>\<open>WHERE status = 'pending' ORDER BY created_at ASC, id ASC\<close>.\<close>

definition pending_rows ::
    "(string \<Rightarrow> nat list) \<Rightarrow> ('d \<Rightarrow> string) \<Rightarrow> 'd row list \<Rightarrow> 'd row list" where
  "pending_rows coll key rows =
     sort_key (\<lambda>r. (row_created r, coll (key (row_move r)))) (filter (\<lambda>r. row_status r = status_pending) rows)"

definition deposit_statuses :: "string list" where
  "deposit_statuses = [status_pending, status_included, status_committed, status_failed]"

definition withdrawal_statuses :: "string list" where
  "withdrawal_statuses = deposit_statuses @ [status_claimed]"

subsection \<open>The cursor\<close>

definition get_cursor :: "string \<Rightarrow> settlement_db \<Rightarrow> settlement_db \<times> state_cursor res" where
  "get_cursor name0 = db_call (\<lambda>db.
     let name = (if name0 = [] then default_cursor_name else name0) in
     case db_cursors db name of None \<Rightarrow> Inl ErrOffchainSettlementRecordNotFound
     | Some c \<Rightarrow> Inr (db, c))"

definition upsert_cursor :: "state_cursor \<Rightarrow> settlement_db \<Rightarrow> settlement_db \<times> unit res" where
  "upsert_cursor cursor0 = db_call (\<lambda>db.
     let cursor = (if cu_name cursor0 = [] then cursor0\<lparr>cu_name := default_cursor_name\<rparr> else cursor0)
     in Inr (db\<lparr>db_cursors := (db_cursors db)(cu_name cursor \<mapsto> cursor)\<rparr>, ()))"

subsection \<open>Saving and listing\<close>

definition save_pending_deposit ::
    "nat \<Rightarrow> pending_deposit \<Rightarrow> settlement_db \<Rightarrow> settlement_db \<times> unit res" where
  "save_pending_deposit now t = db_call (\<lambda>db.
     let status = (if tr_status t = [] then status_pending else tr_status t) in
     if status \<notin> set deposit_statuses then Inl (ErrExternal ''check constraint'')
     else Inr (db\<lparr>db_deposits := upsert_row pd_id now t status (db_deposits db)\<rparr>, ()))"

text \<open>The unique index on the nullifier refuses a second row that carries it.\<close>

definition save_pending_withdrawal ::
    "nat \<Rightarrow> pending_withdrawal \<Rightarrow> settlement_db \<Rightarrow> settlement_db \<times> unit res" where
  "save_pending_withdrawal now t = db_call (\<lambda>db.
     let status = (if tr_status t = [] then status_pending else tr_status t) in
     if status \<notin> set withdrawal_statuses then Inl (ErrExternal ''check constraint'')
     else if \<exists>r \<in> set (db_withdrawals db). pw_nullifier (row_move r) = pw_nullifier (tr_move t)
             \<and> pw_id (row_move r) \<noteq> pw_id (tr_move t)
       then Inl (ErrExternal ''unique index on nullifier'')
     else Inr (db\<lparr>db_withdrawals := upsert_row pw_id now t status (db_withdrawals db)\<rparr>, ()))"

definition list_pending_deposits :: "settlement_db \<Rightarrow> settlement_db \<times> pending_deposit list res" where
  "list_pending_deposits = db_call (\<lambda>db.
     Inr (db, map read_row (pending_rows (db_collation db) pd_id (db_deposits db))))"

definition list_pending_withdrawals :: "settlement_db \<Rightarrow> settlement_db \<times> pending_withdrawal list res" where
  "list_pending_withdrawals = db_call (\<lambda>db.
     Inr (db, map read_row (pending_rows (db_collation db) pw_id (db_withdrawals db))))"

subsection \<open>Inclusion, commit, failure, reopening\<close>

text \<open>One \<^verbatim>\<open>UPDATE\<close> per identifier; an identifier without a row aborts the transaction.\<close>

definition include_step ::
    "('d \<Rightarrow> string) \<Rightarrow> string \<Rightarrow> 'd row list \<Rightarrow> string \<Rightarrow> 'd row list res" where
  "include_step key batch rows i =
     (case update_rows (\<lambda>r. key (row_move r) = i)
             (\<lambda>r. r\<lparr>row_status := status_included, row_batch_id := Some batch\<rparr>) rows of
        (rows', affected) \<Rightarrow>
          if affected = 0 then Inl ErrOffchainSettlementRecordNotFound else Inr rows')"

definition mark_included ::
    "string \<Rightarrow> string list \<Rightarrow> string list \<Rightarrow> settlement_db \<Rightarrow> settlement_db \<times> unit res" where
  "mark_included batch deposit_ids withdraw_ids = db_call (\<lambda>db.
     case fold_res (include_step pd_id batch) (db_deposits db) deposit_ids of Inl e \<Rightarrow> Inl e
     | Inr deps \<Rightarrow> (case fold_res (include_step pw_id batch) (db_withdrawals db) withdraw_ids of Inl e \<Rightarrow> Inl e
     | Inr wds \<Rightarrow> Inr (db\<lparr>db_deposits := deps, db_withdrawals := wds\<rparr>, ())))"

definition settle_rows :: "string \<Rightarrow> string \<Rightarrow> string \<Rightarrow> string \<Rightarrow> 'd row list \<Rightarrow> 'd row list" where
  "settle_rows batch status tx_hash msg rows =
     fst (update_rows (\<lambda>r. row_batch_id r = Some batch)
       (\<lambda>r. r\<lparr>row_status := status, row_tx_hash := nullif_empty tx_hash, row_error := nullif_empty msg\<rparr>) rows)"

definition mark_by_batch ::
    "string \<Rightarrow> string \<Rightarrow> string \<Rightarrow> string \<Rightarrow> settlement_db \<Rightarrow> settlement_db \<times> unit res" where
  "mark_by_batch batch status tx_hash msg = db_call (\<lambda>db.
     Inr (db\<lparr>db_deposits := settle_rows batch status tx_hash msg (db_deposits db),
             db_withdrawals := settle_rows batch status tx_hash msg (db_withdrawals db)\<rparr>, ()))"

definition mark_committed :: "string \<Rightarrow> string \<Rightarrow> settlement_db \<Rightarrow> settlement_db \<times> unit res" where
  "mark_committed batch tx_hash = mark_by_batch batch status_committed tx_hash []"

definition mark_failed :: "string \<Rightarrow> string \<Rightarrow> settlement_db \<Rightarrow> settlement_db \<times> unit res" where
  "mark_failed batch msg = mark_by_batch batch status_failed [] msg"

definition reopen_rows :: "string \<Rightarrow> string \<Rightarrow> 'd row list \<Rightarrow> 'd row list \<times> nat" where
  "reopen_rows batch reason rows =
     update_rows (\<lambda>r. row_batch_id r = Some batch \<and> row_status r = status_included)
       (mark_row status_pending None None (nullif_empty reason)) rows"

definition reopen_included :: "string \<Rightarrow> string \<Rightarrow> settlement_db \<Rightarrow> settlement_db \<times> unit res" where
  "reopen_included batch reason = db_call (\<lambda>db.
     case (reopen_rows batch reason (db_deposits db), reopen_rows batch reason (db_withdrawals db)) of
       ((deps, n), (wds, k)) \<Rightarrow>
         if n + k = 0 then Inl ErrOffchainSettlementRecordNotFound
         else Inr (db\<lparr>db_deposits := deps, db_withdrawals := wds\<rparr>, ()))"

subsection \<open>Calls\<close>

definition db_ready :: "settlement_db \<Rightarrow> bool" where
  "db_ready db \<longleftrightarrow> db_pool db \<and> db_fault db = None"

lemma db_call_ready:
  "db_ready db \<Longrightarrow> db_call body db =
     (case body (db_next db) of Inl e \<Rightarrow> (db_next db, Inl e) | Inr (db', x) \<Rightarrow> (db', Inr x))"
  by (simp add: db_call_def db_ready_def)

lemma db_call_inv:
  assumes "db_call body db = (db', r)" and "P db"
    and "\<And>d. P d \<Longrightarrow> P (db_next d)"
    and "\<And>d d' x. body d = Inr (d', x) \<Longrightarrow> P d \<Longrightarrow> P d'"
  shows "P db'"
  using assms by (fastforce simp: db_call_def split: if_splits option.splits sum.splits)

lemma db_next_fields [simp]:
  "db_cursors (db_next db) = db_cursors db" "db_deposits (db_next db) = db_deposits db"
  "db_withdrawals (db_next db) = db_withdrawals db" "db_collation (db_next db) = db_collation db"
  "db_pool (db_next db) = db_pool db"
  by (simp_all add: db_next_def)

text \<open>Everything but the script of failures.\<close>

definition db_data :: "settlement_db \<Rightarrow> settlement_db" where
  "db_data db = db\<lparr>db_faults := []\<rparr>"

lemma db_call_error_data:
  "db_call body db = (db', Inl e) \<Longrightarrow> db_data db' = db_data db"
  by (auto simp: db_call_def db_data_def db_next_def split: if_splits option.splits sum.splits)

subsection \<open>Rows\<close>

definition row_keys :: "('d \<Rightarrow> string) \<Rightarrow> 'd row list \<Rightarrow> string list" where
  "row_keys key rows = map (key \<circ> row_move) rows"

definition include_row :: "string \<Rightarrow> 'd row \<Rightarrow> 'd row" where
  "include_row batch r = r\<lparr>row_status := status_included, row_batch_id := Some batch\<rparr>"

lemma include_row_fields [simp]:
  "row_move (include_row b r) = row_move r" "row_created (include_row b r) = row_created r"
  "row_status (include_row b r) = status_included" "row_batch_id (include_row b r) = Some b"
  "include_row b (include_row b r) = include_row b r"
  by (simp_all add: include_row_def)

lemma row_keys_map [simp]:
  "(\<And>r. row_move (f r) = row_move r) \<Longrightarrow> row_keys key (map f rows) = row_keys key rows"
  by (simp add: row_keys_def)

lemma include_step_eq:
  "include_step key batch rows i =
     (if i \<in> set (row_keys key rows)
      then Inr (map (\<lambda>r. if key (row_move r) = i then include_row batch r else r) rows)
      else Inl ErrOffchainSettlementRecordNotFound)"
proof -
  have "length (filter (\<lambda>r. key (row_move r) = i) rows) = 0 \<longleftrightarrow> i \<notin> set (row_keys key rows)"
    by (auto simp: filter_empty_conv row_keys_def)
  then show ?thesis by (simp add: include_step_def update_rows_def include_row_def)
qed

text \<open>The loop over the identifiers, as one pass over the table.\<close>

lemma include_all_eq:
  "fold_res (include_step key batch) rows ids =
     (if set ids \<subseteq> set (row_keys key rows)
      then Inr (map (\<lambda>r. if key (row_move r) \<in> set ids then include_row batch r else r) rows)
      else Inl ErrOffchainSettlementRecordNotFound)"
proof (induction ids arbitrary: rows)
  case Nil
  then show ?case by simp
next
  case (Cons i js)
  let ?rows = "map (\<lambda>r. if key (row_move r) = i then include_row batch r else r) rows"
  have keys: "row_keys key ?rows = row_keys key rows" by (rule row_keys_map) simp
  have "map (\<lambda>r. if key (row_move r) \<in> set js then include_row batch r else r) ?rows
    = map (\<lambda>r. if key (row_move r) \<in> set (i # js) then include_row batch r else r) rows"
    by simp
  with Cons.IH [of ?rows] keys show ?case by (simp add: include_step_eq)
qed

lemma mark_included_eq:
  assumes "db_ready db"
  shows "mark_included batch dids wids db =
    (if set dids \<subseteq> set (row_keys pd_id (db_deposits db)) \<and> set wids \<subseteq> set (row_keys pw_id (db_withdrawals db))
     then ((db_next db)\<lparr>
        db_deposits := map (\<lambda>r. if pd_id (row_move r) \<in> set dids then include_row batch r else r) (db_deposits db),
        db_withdrawals := map (\<lambda>r. if pw_id (row_move r) \<in> set wids then include_row batch r else r) (db_withdrawals db)\<rparr>,
        Inr ())
     else (db_next db, Inl ErrOffchainSettlementRecordNotFound))"
  by (simp add: mark_included_def db_call_ready [OF assms] include_all_eq)

subsection \<open>Well-formed tables\<close>

definition wf_rows :: "('d \<Rightarrow> string) \<Rightarrow> string list \<Rightarrow> 'd row list \<Rightarrow> bool" where
  "wf_rows key statuses rows \<longleftrightarrow> distinct (row_keys key rows) \<and> (\<forall>r \<in> set rows. row_status r \<in> set statuses)"

definition unique_nullifiers :: "withdrawal_move row list \<Rightarrow> bool" where
  "unique_nullifiers rows \<longleftrightarrow> distinct (map (pw_nullifier \<circ> row_move) rows)"

definition wf_db :: "settlement_db \<Rightarrow> bool" where
  "wf_db db \<longleftrightarrow> wf_rows pd_id deposit_statuses (db_deposits db)
     \<and> wf_rows pw_id withdrawal_statuses (db_withdrawals db) \<and> unique_nullifiers (db_withdrawals db)"

lemma wf_db_next [simp]: "wf_db (db_next db) = wf_db db"
  by (simp add: wf_db_def)

lemma status_distinct [simp]:
  "status_pending \<noteq> status_included" "status_pending \<noteq> status_committed" "status_pending \<noteq> status_failed"
  "status_included \<noteq> status_pending" "status_included \<noteq> status_committed" "status_included \<noteq> status_failed"
  "status_committed \<noteq> status_pending" "status_failed \<noteq> status_pending"
  "status_failed \<noteq> status_included" "status_committed \<noteq> status_included" "status_pending \<noteq> []"
  by (simp_all add: status_pending_def status_included_def status_committed_def status_failed_def)

lemma row_keys_upsert:
  "row_keys key (upsert_row key now t st rows) =
     (if key (tr_move t) \<in> set (row_keys key rows) then row_keys key rows
      else row_keys key rows @ [key (tr_move t)])"
  by (auto simp: upsert_row_def row_keys_def new_row_def)

lemma wf_rows_upsert:
  "wf_rows key S rows \<Longrightarrow> st \<in> set S \<Longrightarrow> wf_rows key S (upsert_row key now t st rows)"
  by (simp add: wf_rows_def row_keys_upsert) (auto simp: upsert_row_def new_row_def)

lemma wf_rows_map:
  assumes "wf_rows key S rows" and "\<And>r. row_move (f r) = row_move r"
    and "\<And>r. row_status (f r) = row_status r \<or> row_status (f r) \<in> set S"
  shows "wf_rows key S (map f rows)"
proof -
  have "row_status (f r) \<in> set S" if "r \<in> set rows" for r
    using assms(1,3) that by (metis wf_rows_def)
  with assms show ?thesis by (simp add: wf_rows_def)
qed

lemma unique_nullifiers_map:
  "(\<And>r. row_move (f r) = row_move r) \<Longrightarrow> unique_nullifiers (map f rows) = unique_nullifiers rows"
  by (simp add: unique_nullifiers_def comp_def)

lemma unique_nullifiers_upsert:
  assumes keys: "distinct (row_keys pw_id rows)" and nfs: "unique_nullifiers rows"
    and free: "\<not> (\<exists>r \<in> set rows. pw_nullifier (row_move r) = pw_nullifier (tr_move t)
      \<and> pw_id (row_move r) \<noteq> pw_id (tr_move t))"
  shows "unique_nullifiers (upsert_row pw_id now t st rows)"
proof (cases "pw_id (tr_move t) \<in> set (row_keys pw_id rows)")
  case True
  let ?f = "\<lambda>r. if pw_id (row_move r) = pw_id (tr_move t) then pw_nullifier (tr_move t)
      else pw_nullifier (row_move r)"
  from True have eq: "map (pw_nullifier \<circ> row_move) (upsert_row pw_id now t st rows) = map ?f rows"
    by (simp add: upsert_row_def row_keys_def new_row_def)
  have "inj_on ?f (set rows)"
  proof (rule inj_onI)
    fix r s assume rs: "r \<in> set rows" "s \<in> set rows" and eq: "?f r = ?f s"
    with free have "pw_id (row_move r) = pw_id (row_move s) \<or> pw_nullifier (row_move r) = pw_nullifier (row_move s)"
      by (metis (lifting))
    with keys nfs rs show "r = s"
      by (auto simp: row_keys_def unique_nullifiers_def distinct_map inj_on_def)
  qed
  with keys show ?thesis by (simp add: unique_nullifiers_def eq distinct_map row_keys_def)
next
  case False
  have "pw_nullifier (tr_move t) \<notin> (pw_nullifier \<circ> row_move) ` set rows"
  proof
    assume "pw_nullifier (tr_move t) \<in> (pw_nullifier \<circ> row_move) ` set rows"
    then obtain r where "r \<in> set rows" "pw_nullifier (row_move r) = pw_nullifier (tr_move t)" by auto
    with free have "r \<in> set rows" "pw_id (row_move r) = pw_id (tr_move t)" by auto
    with False show False by (metis comp_apply image_eqI list.set_map row_keys_def)
  qed
  with nfs False show ?thesis
    by (simp add: unique_nullifiers_def upsert_row_def row_keys_def new_row_def)
qed

lemma save_pending_deposit_ok:
  assumes "save_pending_deposit now t db = (db', Inr u)"
  shows "db' = (db_next db)\<lparr>db_deposits := upsert_row pd_id now t
      (if tr_status t = [] then status_pending else tr_status t) (db_deposits db)\<rparr>"
    and "(if tr_status t = [] then status_pending else tr_status t) \<in> set deposit_statuses"
  using assms
  by (auto simp: save_pending_deposit_def db_call_def Let_def split: if_split_asm option.splits)

lemma save_pending_withdrawal_ok:
  assumes "save_pending_withdrawal now t db = (db', Inr u)"
  shows "db' = (db_next db)\<lparr>db_withdrawals := upsert_row pw_id now t
      (if tr_status t = [] then status_pending else tr_status t) (db_withdrawals db)\<rparr>"
    and "(if tr_status t = [] then status_pending else tr_status t) \<in> set withdrawal_statuses"
    and "\<not> (\<exists>r \<in> set (db_withdrawals db). pw_nullifier (row_move r) = pw_nullifier (tr_move t)
      \<and> pw_id (row_move r) \<noteq> pw_id (tr_move t))"
  using assms
  by (auto simp: save_pending_withdrawal_def db_call_def Let_def split: if_split_asm option.splits)

lemma mark_by_batch_ready:
  "db_ready db \<Longrightarrow> mark_by_batch batch status tx msg db =
     ((db_next db)\<lparr>db_deposits := settle_rows batch status tx msg (db_deposits db),
                   db_withdrawals := settle_rows batch status tx msg (db_withdrawals db)\<rparr>, Inr ())"
  by (simp add: mark_by_batch_def db_call_ready)

text \<open>Every method keeps the tables well-formed, on success and on failure.\<close>

lemma wf_db_data: "db_data db' = db_data db \<Longrightarrow> wf_db db' = wf_db db"
proof -
  assume "db_data db' = db_data db"
  then have "db_deposits db' = db_deposits db" "db_withdrawals db' = db_withdrawals db"
    by (metis db_data_def settlement_db.select_convs(5,6) settlement_db.surjective settlement_db.update_convs(2))+
  then show ?thesis by (simp add: wf_db_def)
qed

lemma db_call_wf:
  assumes "m = db_call body" and "m db = (db', r)" and "wf_db db"
    and "\<And>x. m db = (db', Inr x) \<Longrightarrow> wf_db db'"
  shows "wf_db db'"
  using assms wf_db_data [OF db_call_error_data] by (cases r) auto

lemma save_deposit_wf:
  assumes "save_pending_deposit now t db = (db', r)" and "wf_db db"
  shows "wf_db db'"
proof (rule db_call_wf [OF save_pending_deposit_def assms])
  fix x assume ok: "save_pending_deposit now t db = (db', Inr x)"
  show "wf_db db'"
    using assms(2) save_pending_deposit_ok(2) [OF ok]
    unfolding save_pending_deposit_ok(1) [OF ok] wf_db_def by (simp add: wf_rows_upsert)
qed

lemma save_withdrawal_wf:
  assumes "save_pending_withdrawal now t db = (db', r)" and "wf_db db"
  shows "wf_db db'"
proof (rule db_call_wf [OF save_pending_withdrawal_def assms])
  fix x assume ok: "save_pending_withdrawal now t db = (db', Inr x)"
  from assms(2) have "distinct (row_keys pw_id (db_withdrawals db))"
    by (simp add: wf_db_def wf_rows_def)
  then show "wf_db db'"
    using assms(2) save_pending_withdrawal_ok(2,3) [OF ok]
    unfolding save_pending_withdrawal_ok(1) [OF ok] wf_db_def
    by (simp add: wf_rows_upsert unique_nullifiers_upsert)
qed

lemma settle_rows_map:
  "settle_rows batch status tx msg rows = map (\<lambda>r. if row_batch_id r = Some batch
     then r\<lparr>row_status := status, row_tx_hash := nullif_empty tx, row_error := nullif_empty msg\<rparr> else r) rows"
  by (simp add: settle_rows_def update_rows_def)

lemma reopen_rows_map:
  "fst (reopen_rows batch reason rows) = map (\<lambda>r. if row_batch_id r = Some batch \<and> row_status r = status_included
     then mark_row status_pending None None (nullif_empty reason) r else r) rows"
  by (simp add: reopen_rows_def update_rows_def)

lemma mark_row_fields [simp]:
  "row_move (mark_row s b t e r) = row_move r" "row_status (mark_row s b t e r) = s"
  "row_created (mark_row s b t e r) = row_created r" "row_batch_id (mark_row s b t e r) = b"
  by (simp_all add: mark_row_def)

lemma statuses_in [simp]:
  "status_pending \<in> set deposit_statuses" "status_included \<in> set deposit_statuses"
  "status_committed \<in> set deposit_statuses" "status_failed \<in> set deposit_statuses"
  by (simp_all add: deposit_statuses_def)

lemma deposit_status_withdrawal [simp]: "s \<in> set deposit_statuses \<Longrightarrow> s \<in> set withdrawal_statuses"
  by (simp add: withdrawal_statuses_def)

lemma mark_included_ok:
  assumes "mark_included batch ds ws db = (db', Inr u)"
  shows "db' = (db_next db)\<lparr>
      db_deposits := map (\<lambda>r. if pd_id (row_move r) \<in> set ds then include_row batch r else r) (db_deposits db),
      db_withdrawals := map (\<lambda>r. if pw_id (row_move r) \<in> set ws then include_row batch r else r) (db_withdrawals db)\<rparr>"
    and "set ds \<subseteq> set (row_keys pd_id (db_deposits db))" "set ws \<subseteq> set (row_keys pw_id (db_withdrawals db))"
  using assms
  by (auto simp: mark_included_def db_call_def include_all_eq split: if_split_asm option.splits)

lemma mark_by_batch_ok:
  assumes "mark_by_batch batch status tx msg db = (db', Inr u)"
  shows "db' = (db_next db)\<lparr>db_deposits := settle_rows batch status tx msg (db_deposits db),
                   db_withdrawals := settle_rows batch status tx msg (db_withdrawals db)\<rparr>"
  using assms by (auto simp: mark_by_batch_def db_call_def split: if_split_asm option.splits)

lemma reopen_included_ok:
  assumes "reopen_included batch reason db = (db', Inr u)"
  shows "db' = (db_next db)\<lparr>db_deposits := fst (reopen_rows batch reason (db_deposits db)),
                   db_withdrawals := fst (reopen_rows batch reason (db_withdrawals db))\<rparr>"
  using assms
  by (auto simp: reopen_included_def db_call_def split: if_split_asm option.splits prod.splits)

lemma mark_included_wf:
  assumes "mark_included batch ds ws db = (db', r)" and "wf_db db"
  shows "wf_db db'"
proof (rule db_call_wf [OF mark_included_def assms])
  fix x assume "mark_included batch ds ws db = (db', Inr x)"
  from assms(2) show "wf_db db'"
    unfolding mark_included_ok(1) [OF \<open>_ = (db', Inr x)\<close>] wf_db_def
    by (auto intro!: wf_rows_map simp: unique_nullifiers_map)
qed

lemma mark_by_batch_wf:
  assumes "mark_by_batch batch status tx msg db = (db', r)" and "wf_db db" and "status \<in> set deposit_statuses"
  shows "wf_db db'"
proof (rule db_call_wf [OF mark_by_batch_def assms(1,2)])
  fix x assume "mark_by_batch batch status tx msg db = (db', Inr x)"
  from assms(2,3) show "wf_db db'"
    unfolding mark_by_batch_ok [OF \<open>_ = (db', Inr x)\<close>] wf_db_def settle_rows_map
    by (auto intro!: wf_rows_map simp: unique_nullifiers_map)
qed

lemma reopen_included_wf:
  assumes "reopen_included batch reason db = (db', r)" and "wf_db db"
  shows "wf_db db'"
proof (rule db_call_wf [OF reopen_included_def assms])
  fix x assume "reopen_included batch reason db = (db', Inr x)"
  from assms(2) show "wf_db db'"
    unfolding reopen_included_ok [OF \<open>_ = (db', Inr x)\<close>] wf_db_def reopen_rows_map
    by (auto intro!: wf_rows_map simp: unique_nullifiers_map)
qed

lemmas store_wf = save_deposit_wf save_withdrawal_wf mark_included_wf mark_by_batch_wf reopen_included_wf

subsection \<open>Inclusion and reopening\<close>

text \<open>What a client sees of a table: the pending moves, in the order they are listed.\<close>

definition pending_moves :: "(string \<Rightarrow> nat list) \<Rightarrow> ('d \<Rightarrow> string) \<Rightarrow> 'd row list \<Rightarrow> 'd list" where
  "pending_moves coll key rows = map row_move (pending_rows coll key rows)"

definition pending_view :: "settlement_db \<Rightarrow> deposit_move list \<times> withdrawal_move list" where
  "pending_view db = (pending_moves (db_collation db) pd_id (db_deposits db),
     pending_moves (db_collation db) pw_id (db_withdrawals db))"

text \<open>The batch name is not in use by an included row.\<close>

definition batch_free :: "string \<Rightarrow> settlement_db \<Rightarrow> bool" where
  "batch_free batch db \<longleftrightarrow>
     (\<forall>r \<in> set (db_deposits db). \<not> (row_batch_id r = Some batch \<and> row_status r = status_included))
     \<and> (\<forall>r \<in> set (db_withdrawals db). \<not> (row_batch_id r = Some batch \<and> row_status r = status_included))"

definition pending_ids :: "('d \<Rightarrow> string) \<Rightarrow> 'd row list \<Rightarrow> string set" where
  "pending_ids key rows = {key (row_move r) | r. r \<in> set rows \<and> row_status r = status_pending}"

lemma pending_moves_map:
  assumes "\<And>r. row_move (f r) = row_move r" and "\<And>r. row_created (f r) = row_created r"
    and "\<And>r. r \<in> set rows \<Longrightarrow> (row_status (f r) = status_pending) = (row_status r = status_pending)"
  shows "pending_moves coll key (map f rows) = pending_moves coll key rows"
proof -
  have "filter (\<lambda>r. row_status r = status_pending) (map f rows)
    = map f (filter (\<lambda>r. row_status r = status_pending) rows)"
    using assms(3) by (induction rows) auto
  then show ?thesis
    by (simp add: pending_moves_def pending_rows_def sort_key_map assms(1,2) comp_def)
qed

text \<open>Reopening what was just included gives the pending list back.\<close>

lemma reopen_include_rows:
  assumes "distinct (row_keys key rows)" and "set ids \<subseteq> pending_ids key rows"
    and "\<forall>r \<in> set rows. \<not> (row_batch_id r = Some batch \<and> row_status r = status_included)"
  shows "pending_moves coll key (fst (reopen_rows batch reason
      (map (\<lambda>r. if key (row_move r) \<in> set ids then include_row batch r else r) rows))) = pending_moves coll key rows"
proof -
  let ?inc = "\<lambda>r. if key (row_move r) \<in> set ids then include_row batch r else r"
  let ?re = "\<lambda>r. if row_batch_id r = Some batch \<and> row_status r = status_included
      then mark_row status_pending None None (nullif_empty reason) r else r"
  have "row_status (?re (?inc r)) = status_pending \<longleftrightarrow> row_status r = status_pending" if "r \<in> set rows" for r
  proof (cases "key (row_move r) \<in> set ids")
    case True
    with assms(2) obtain r' where "r' \<in> set rows" "key (row_move r') = key (row_move r)"
      "row_status r' = status_pending" by (auto simp: pending_ids_def)
    with that assms(1) have "row_status r = status_pending"
      by (auto simp: row_keys_def distinct_map inj_on_def)
    with True show ?thesis by simp
  next
    case False
    with assms(3) that show ?thesis by auto
  qed
  then show ?thesis
    unfolding reopen_rows_map map_map comp_def by (intro pending_moves_map) simp_all
qed

lemma reopen_included_eq:
  assumes "db_ready db"
  shows "reopen_included batch reason db =
    (if snd (reopen_rows batch reason (db_deposits db)) + snd (reopen_rows batch reason (db_withdrawals db)) = 0
     then (db_next db, Inl ErrOffchainSettlementRecordNotFound)
     else ((db_next db)\<lparr>db_deposits := fst (reopen_rows batch reason (db_deposits db)),
             db_withdrawals := fst (reopen_rows batch reason (db_withdrawals db))\<rparr>, Inr ()))"
  by (cases "reopen_rows batch reason (db_deposits db)"; cases "reopen_rows batch reason (db_withdrawals db)")
     (simp add: reopen_included_def db_call_ready [OF assms])

lemma include_then_reopen:
  assumes wf: "wf_db db" and free: "batch_free batch db"
    and ids: "set ds \<subseteq> pending_ids pd_id (db_deposits db)" "set ws \<subseteq> pending_ids pw_id (db_withdrawals db)"
    and ne: "ds \<noteq> [] \<or> ws \<noteq> []"
    and inc: "mark_included batch ds ws db = (db1, Inr u)" and ready: "db_ready db1"
  shows "\<exists>db2. reopen_included batch reason db1 = (db2, Inr ()) \<and> pending_view db2 = pending_view db"
proof -
  note db1 = mark_included_ok [OF inc]
  have pos: "snd (reopen_rows batch reason (map (\<lambda>r. if key (row_move r) \<in> set is then include_row batch r else r) rows)) \<noteq> 0"
    if "set is \<subseteq> set (row_keys key rows)" "is \<noteq> []" for key :: "'x \<Rightarrow> string" and "is" rows
  proof -
    from that obtain r where "r \<in> set rows" "key (row_move r) \<in> set is"
      by (cases "is") (auto simp: row_keys_def)
    then show ?thesis by (auto simp: reopen_rows_def update_rows_def filter_empty_conv intro!: bexI [of _ r])
  qed
  have n: "snd (reopen_rows batch reason (db_deposits db1)) + snd (reopen_rows batch reason (db_withdrawals db1)) \<noteq> 0"
    using ne pos [OF db1(2)] pos [OF db1(3)] by (auto simp: db1(1))
  let ?db2 = "(db_next db1)\<lparr>db_deposits := fst (reopen_rows batch reason (db_deposits db1)),
     db_withdrawals := fst (reopen_rows batch reason (db_withdrawals db1))\<rparr>"
  have "reopen_included batch reason db1 = (?db2, Inr ())"
    using n by (simp add: reopen_included_eq [OF ready])
  moreover have "pending_view ?db2 = pending_view db"
    using wf free ids reopen_include_rows [of pd_id "db_deposits db" ds batch]
      reopen_include_rows [of pw_id "db_withdrawals db" ws batch]
    by (simp add: pending_view_def db1(1) wf_db_def wf_rows_def batch_free_def)
  ultimately show ?thesis by blast
qed

text \<open>Failing it first makes it impossible to reopen: the rows are no longer included.\<close>

lemma failed_not_reopened:
  assumes "mark_failed batch msg db = (db1, Inr u)" and "db_ready db1"
  shows "reopen_included batch reason db1 = (db_next db1, Inl ErrOffchainSettlementRecordNotFound)"
proof -
  have "snd (reopen_rows batch reason (settle_rows batch status_failed tx msg' rows)) = 0" for tx msg' rows
    by (auto simp: reopen_rows_def update_rows_def settle_rows_map filter_empty_conv)
  then have "snd (reopen_rows batch reason (db_deposits db1)) = 0"
    "snd (reopen_rows batch reason (db_withdrawals db1)) = 0"
    unfolding mark_by_batch_ok [OF assms(1) [unfolded mark_failed_def]] by simp_all
  then show ?thesis by (simp add: reopen_included_eq [OF assms(2)])
qed

text \<open>What inclusion removes from the pending lists, and what settling a batch leaves there.\<close>

lemma include_pending_moves:
  "pending_moves coll key (map (\<lambda>r. if key (row_move r) \<in> set ids then include_row batch r else r) rows)
   = filter (\<lambda>m. key m \<notin> set ids) (pending_moves coll key rows)"
proof -
  let ?f = "\<lambda>r. (row_created r, coll (key (row_move r)))"
  have "filter (\<lambda>r. row_status r = status_pending)
      (map (\<lambda>r. if key (row_move r) \<in> set ids then include_row batch r else r) rows)
    = filter (\<lambda>r. key (row_move r) \<notin> set ids) (filter (\<lambda>r. row_status r = status_pending) rows)"
    by (induction rows) auto
  then show ?thesis
    by (simp add: pending_moves_def pending_rows_def filter_sort [symmetric] filter_map comp_def)
qed

lemma settle_pending_moves:
  assumes "\<forall>r \<in> set rows. row_status r = status_pending \<longrightarrow> row_batch_id r \<noteq> Some batch"
    and "status \<noteq> status_pending"
  shows "pending_moves coll key (settle_rows batch status tx msg rows) = pending_moves coll key rows"
  unfolding settle_rows_map using assms by (intro pending_moves_map) auto

text \<open>A pending row carries no batch name: true of every row the service writes, kept by every method.\<close>

definition pending_unbatched :: "settlement_db \<Rightarrow> bool" where
  "pending_unbatched db \<longleftrightarrow>
     (\<forall>r \<in> set (db_deposits db). row_status r = status_pending \<longrightarrow> row_batch_id r = None)
     \<and> (\<forall>r \<in> set (db_withdrawals db). row_status r = status_pending \<longrightarrow> row_batch_id r = None)"

lemma settle_keeps_pending:
  assumes "mark_by_batch batch status tx msg db = (db', Inr u)" and "pending_unbatched db" and "status \<noteq> status_pending"
  shows "pending_view db' = pending_view db"
  using assms(2,3) unfolding mark_by_batch_ok [OF assms(1)]
  by (simp add: pending_view_def settle_pending_moves pending_unbatched_def)

lemma pending_unbatched_keep:
  "mark_included b ds ws db = (db', Inr u) \<Longrightarrow> pending_unbatched db \<Longrightarrow> pending_unbatched db'"
  "mark_by_batch b st tx msg db = (db', Inr u) \<Longrightarrow> pending_unbatched db \<Longrightarrow> st \<noteq> status_pending \<Longrightarrow> pending_unbatched db'"
  "reopen_included b msg db = (db', Inr u) \<Longrightarrow> pending_unbatched db \<Longrightarrow> pending_unbatched db'"
  by (auto dest!: mark_included_ok(1) mark_by_batch_ok reopen_included_ok
      simp: pending_unbatched_def settle_rows_map reopen_rows_map split: if_splits)

lemma upsert_unbatched:
  assumes "\<forall>r \<in> set rows. row_status r = status_pending \<longrightarrow> row_batch_id r = None" and "tr_batch_id t = []"
  shows "\<forall>r \<in> set (upsert_row key now t st rows). row_status r = status_pending \<longrightarrow> row_batch_id r = None"
  using assms by (auto simp: upsert_row_def new_row_def nullif_empty_def)

subsection \<open>Moves by status\<close>

definition status_moves :: "string \<Rightarrow> 'd row list \<Rightarrow> 'd multiset" where
  "status_moves st rows = mset (map row_move (filter (\<lambda>r. row_status r = st) rows))"

lemma status_moves_simps [simp]:
  "status_moves st [] = {#}"
  "status_moves st (r # rows) = (if row_status r = st then {#row_move r#} else {#}) + status_moves st rows"
  "status_moves st (rows @ rows') = status_moves st rows + status_moves st rows'"
  by (simp_all add: status_moves_def)

lemma pending_moves_mset: "mset (pending_moves coll key rows) = status_moves status_pending rows"
  by (simp add: pending_moves_def pending_rows_def status_moves_def)

lemma status_moves_upsert_new:
  "key (tr_move t) \<notin> set (row_keys key rows) \<Longrightarrow>
     status_moves st (upsert_row key now t st' rows)
       = status_moves st rows + (if st' = st then {#tr_move t#} else {#})"
  by (simp add: upsert_row_def row_keys_def new_row_def)

lemma status_moves_include:
  assumes "\<forall>r \<in> set rows. key (row_move r) \<in> set ids \<longrightarrow> row_status r = status_pending"
  shows "status_moves status_pending (map (\<lambda>r. if key (row_move r) \<in> set ids then include_row b r else r) rows)
      = filter_mset (\<lambda>m. key m \<notin> set ids) (status_moves status_pending rows)"
    and "status_moves status_included (map (\<lambda>r. if key (row_move r) \<in> set ids then include_row b r else r) rows)
      = status_moves status_included rows + filter_mset (\<lambda>m. key m \<in> set ids) (status_moves status_pending rows)"
  using assms by (induction rows) auto

lemma status_moves_settle:
  assumes "\<forall>r \<in> set rows. row_status r = status_pending \<longrightarrow> row_batch_id r = None"
    and "\<forall>r \<in> set rows. row_status r = status_included \<longrightarrow> row_batch_id r = Some b"
    and "status \<noteq> status_pending" "status \<noteq> status_included"
  shows "status_moves status_pending (settle_rows b status tx msg rows) = status_moves status_pending rows"
    and "status_moves status_included (settle_rows b status tx msg rows) = {#}"
  using assms unfolding settle_rows_map by (induction rows) auto

lemma status_moves_reopen:
  assumes "\<forall>r \<in> set rows. row_status r = status_included \<longrightarrow> row_batch_id r = Some b"
  shows "status_moves status_pending (fst (reopen_rows b msg rows))
      = status_moves status_pending rows + status_moves status_included rows"
    and "status_moves status_included (fst (reopen_rows b msg rows)) = {#}"
  using assms unfolding reopen_rows_map by (induction rows) auto

lemma reopen_affected:
  "\<forall>r \<in> set rows. row_status r = status_included \<longrightarrow> row_batch_id r = Some b \<Longrightarrow>
     snd (reopen_rows b msg rows) = size (status_moves status_included rows)"
  by (induction rows) (auto simp: reopen_rows_def update_rows_def)

end
