(* ===== verification/Settlement_Service.thy ===== *)
theory Settlement_Service
  imports Batch_Facade Settlement_Repository
begin

text \<open>
  \<^verbatim>\<open>internal/service/offchain_settlement_service.go\<close>: the orchestration of the in-memory
  mirror and the durable log. The state of the service is the manager, the repository (absent when
  the pointer is nil) and the counter of its settlement builder. A method is a function from the
  state to the state and a result; what it changed before an error stays changed. Each method is
  modelled as one step, as when requests are served one at a time.
\<close>

record service =
  sv_manager :: manager
  sv_repo :: "settlement_db option"
  sv_cursor_name :: string
  sv_seq :: "64 word"

type_synonym 'a action = "service \<Rightarrow> service \<times> 'a res"

definition new_service :: "manager option \<Rightarrow> settlement_db option \<Rightarrow> service" where
  "new_service m repo = \<lparr>sv_manager = (case m of None \<Rightarrow> new_manager | Some m' \<Rightarrow> m'), sv_repo = repo,
     sv_cursor_name = default_cursor_name, sv_seq = 0\<rparr>"

text \<open>\<^verbatim>\<open>if err != nil { return err }\<close> between two calls.\<close>

definition sv_bind :: "'a action \<Rightarrow> ('a \<Rightarrow> 'b action) \<Rightarrow> 'b action" where
  "sv_bind m f s = (case m s of (s', Inl e) \<Rightarrow> (s', Inl e) | (s', Inr x) \<Rightarrow> f x s')"

definition with_repo :: "(settlement_db \<Rightarrow> settlement_db \<times> 'a res) \<Rightarrow> 'a action" where
  "with_repo m s = (case sv_repo s of None \<Rightarrow> (s, Inl ErrOffchainSettlementUnavailable)
     | Some db \<Rightarrow> (case m db of (db', r) \<Rightarrow> (s\<lparr>sv_repo := Some db'\<rparr>, r)))"

subsection \<open>The cursor\<close>

definition get_or_init_cursor_with_root :: "string \<Rightarrow> state_cursor action" where
  "get_or_init_cursor_with_root root s =
     (case with_repo (get_cursor (sv_cursor_name s)) s of
        (s1, Inr cursor) \<Rightarrow> (s1, Inr cursor)
      | (s1, Inl e) \<Rightarrow>
          if e \<noteq> ErrOffchainSettlementRecordNotFound then (s1, Inl e)
          else let cursor = \<lparr>cu_name = sv_cursor_name s1, cu_committed_root = root,
                             cu_pending_root = root, cu_last_batch_id = []\<rparr> in
            (case with_repo (upsert_cursor cursor) s1 of
               (s2, Inl e2) \<Rightarrow> (s2, Inl e2) | (s2, Inr _) \<Rightarrow> (s2, Inr cursor)))"

definition get_or_init_cursor :: "state_cursor action" where
  "get_or_init_cursor s = get_or_init_cursor_with_root (manager_root (sv_manager s)) s"

definition update_pending_root :: "string \<Rightarrow> unit action" where
  "update_pending_root root =
     sv_bind get_or_init_cursor (\<lambda>cursor. with_repo (upsert_cursor (cursor\<lparr>cu_pending_root := root\<rparr>)))"

definition service_cursor :: "state_cursor action" where
  "service_cursor s = (case sv_repo s of None \<Rightarrow> (s, Inl ErrOffchainSettlementUnavailable)
     | Some _ \<Rightarrow> get_or_init_cursor s)"

subsection \<open>Withdraw requests, deposits, withdrawals\<close>

definition service_build_withdraw_request ::
    "service \<Rightarrow> withdraw_request_body \<Rightarrow> string \<Rightarrow> withdraw_request res" where
  "service_build_withdraw_request s body withdraw_id =
     manager_build_withdraw_request (sv_manager s)
       \<lparr>wi_owner = wb_owner body, wi_denom = wb_denom body, wi_amount = wb_amount body,
        wi_destination = wb_destination body\<rparr> withdraw_id"

definition service_apply_indexed_deposit :: "nat \<Rightarrow> deposit_record \<Rightarrow> pending_deposit action" where
  "service_apply_indexed_deposit now d s =
     (if sv_repo s = None then (s, Inl ErrOffchainSettlementUnavailable)
      else let before = manager_snapshot (sv_manager s);
               before_account = snapshot_account before (dep_owner d) (dep_denom d) in
      sv_bind (get_or_init_cursor_with_root (sn_root before)) (\<lambda>_ s1.
        case manager_apply_deposit (sv_manager s1) d of Inl e \<Rightarrow> (s1, Inl e)
        | Inr (m, root_after) \<Rightarrow>
          let after = manager_snapshot m;
              after_account = snapshot_account after (dep_owner d) (dep_denom d);
              t = \<lparr>tr_move = \<lparr>pd_id = dep_id d, pd_owner = dep_owner d, pd_denom = dep_denom d,
                      pd_amount = dep_amount d, pd_root_before = sn_root before, pd_root_after = root_after,
                      pd_balance_before = acc_balance before_account,
                      pd_balance_after = acc_balance after_account\<rparr>,
                   tr_status = status_pending, tr_batch_id = [], tr_tx_hash = [], tr_error = []\<rparr> in
          sv_bind (with_repo (save_pending_deposit now t)) (\<lambda>_.
            sv_bind (update_pending_root (sn_root after)) (\<lambda>_ s4. (s4, Inr t)))
          (s1\<lparr>sv_manager := m\<rparr>)) s)"

definition service_apply_withdraw_request ::
    "nat \<Rightarrow> withdraw_request \<Rightarrow> string \<Rightarrow> pending_withdrawal action" where
  "service_apply_withdraw_request now req user_secret0 s =
     (if sv_repo s = None then (s, Inl ErrOffchainSettlementUnavailable)
      else let user_secret = (if trim_space user_secret0 = [] then mvp_mock_secret else user_secret0) in
      case nullifier_for user_secret (wr_nonce req) of Inl e \<Rightarrow> (s, Inl e)
      | Inr nullifier \<Rightarrow> (case withdraw_address_hash (wr_destination req) of Inl e \<Rightarrow> (s, Inl e)
      | Inr destination_hash \<Rightarrow>
        let before = manager_snapshot (sv_manager s);
            before_account = snapshot_account before (wr_owner req) (wr_denom req) in
        sv_bind (get_or_init_cursor_with_root (sn_root before)) (\<lambda>_ s1.
          case manager_apply_withdraw_request (sv_manager s1) req nullifier of Inl e \<Rightarrow> (s1, Inl e)
          | Inr (m, root_after) \<Rightarrow>
            let after = manager_snapshot m;
                after_account = snapshot_account after (wr_owner req) (wr_denom req);
                t = \<lparr>tr_move = \<lparr>pw_id = wr_id req, pw_owner = wr_owner req, pw_denom = wr_denom req,
                        pw_amount = wr_amount req, pw_destination = wr_destination req,
                        pw_nonce = wr_nonce req, pw_signature = wr_signature req,
                        pw_nullifier = nullifier, pw_destination_hash = destination_hash,
                        pw_root_before = sn_root before, pw_root_after = root_after,
                        pw_balance_before = acc_balance before_account,
                        pw_balance_after = acc_balance after_account\<rparr>,
                     tr_status = status_pending, tr_batch_id = [], tr_tx_hash = [], tr_error = []\<rparr> in
            sv_bind (with_repo (save_pending_withdrawal now t)) (\<lambda>_.
              sv_bind (update_pending_root (sn_root after)) (\<lambda>_ s4. (s4, Inr t)))
            (s1\<lparr>sv_manager := m\<rparr>)) s))"

subsection \<open>Rehydration\<close>

text \<open>The two loops skip an entry the manager refuses.\<close>

definition rehydrate_deposit :: "manager \<Rightarrow> pending_deposit \<Rightarrow> manager" where
  "rehydrate_deposit m t =
     (case manager_apply_deposit m \<lparr>dep_id = pd_id (tr_move t), dep_owner = pd_owner (tr_move t),
         dep_denom = pd_denom (tr_move t), dep_amount = pd_amount (tr_move t), dep_processed = False,
         dep_created_height = 0, dep_tx_hash = []\<rparr> of
        Inl _ \<Rightarrow> m | Inr (m', _) \<Rightarrow> m')"

definition request_of_move :: "withdrawal_move \<Rightarrow> withdraw_request" where
  "request_of_move w = \<lparr>wr_id = pw_id w, wr_owner = pw_owner w, wr_denom = pw_denom w,
     wr_amount = pw_amount w, wr_destination = pw_destination w, wr_nonce = pw_nonce w,
     wr_signature = pw_signature w\<rparr>"

definition rehydrate_withdrawal :: "manager \<Rightarrow> pending_withdrawal \<Rightarrow> manager" where
  "rehydrate_withdrawal m t =
     (case manager_apply_withdraw_request m (request_of_move (tr_move t)) (pw_nullifier (tr_move t)) of
        Inl _ \<Rightarrow> m | Inr (m', _) \<Rightarrow> m')"

definition rehydrate_from_store :: "unit action" where
  "rehydrate_from_store =
     sv_bind (with_repo list_pending_deposits) (\<lambda>deposits.
       sv_bind (with_repo list_pending_withdrawals) (\<lambda>withdrawals s.
         let m1 = foldl rehydrate_deposit (sv_manager s) deposits;
             m2 = foldl rehydrate_withdrawal m1 withdrawals
         in (s\<lparr>sv_manager := m2\<rparr>, Inr ())))"

subsection \<open>Ordering the pending transitions\<close>

record pending_transition =
  pt_kind :: string
  pt_id :: string
  pt_owner :: string
  pt_denom :: string
  pt_root_before :: string
  pt_root_after :: string
  pt_balance_before :: string
  pt_balance_after :: string

definition deposit_transition :: "deposit_move \<Rightarrow> pending_transition" where
  "deposit_transition d = \<lparr>pt_kind = ''deposit'', pt_id = pd_id d, pt_owner = pd_owner d,
     pt_denom = pd_denom d, pt_root_before = pd_root_before d, pt_root_after = pd_root_after d,
     pt_balance_before = pd_balance_before d, pt_balance_after = pd_balance_after d\<rparr>"

definition withdrawal_transition :: "withdrawal_move \<Rightarrow> pending_transition" where
  "withdrawal_transition w = \<lparr>pt_kind = ''withdrawal'', pt_id = pw_id w, pt_owner = pw_owner w,
     pt_denom = pw_denom w, pt_root_before = pw_root_before w, pt_root_after = pw_root_after w,
     pt_balance_before = pw_balance_before w, pt_balance_after = pw_balance_after w\<rparr>"

definition add_pending_transition ::
    "(string \<rightharpoonup> pending_transition) \<Rightarrow> pending_transition \<Rightarrow> (string \<rightharpoonup> pending_transition) res" where
  "add_pending_transition by_root t =
     (if trim_space (pt_root_before t) = [] then Inl ErrInvalidPendingSettlement
      else if trim_space (pt_root_after t) = [] then Inl ErrInvalidPendingSettlement
      else if pt_root_before t \<in> dom by_root then Inl ErrInvalidPendingSettlement
      else Inr (by_root(pt_root_before t \<mapsto> t)))"

text \<open>\<^verbatim>\<open>for len(ordered) < len(byRootBefore)\<close>: the number of rounds left is the argument.\<close>

fun follow_roots ::
    "(string \<rightharpoonup> pending_transition) \<Rightarrow> nat \<Rightarrow> string \<Rightarrow> pending_transition list res" where
  "follow_roots by_root 0 current = Inr []"
| "follow_roots by_root (Suc n) current =
     (case by_root current of None \<Rightarrow> Inl ErrInvalidPendingSettlement
      | Some t \<Rightarrow> (case follow_roots by_root n (pt_root_after t) of
          Inl e \<Rightarrow> Inl e | Inr ts \<Rightarrow> Inr (t # ts)))"

definition all_transitions :: "pending_deposit list \<Rightarrow> pending_withdrawal list \<Rightarrow> pending_transition list" where
  "all_transitions deposits withdrawals =
     map (deposit_transition \<circ> tr_move) deposits @ map (withdrawal_transition \<circ> tr_move) withdrawals"

text \<open>No two entries of the table share a key, so its size is the number of transitions added.\<close>

definition order_pending_transitions ::
    "string \<Rightarrow> pending_deposit list \<Rightarrow> pending_withdrawal list \<Rightarrow> pending_transition list res" where
  "order_pending_transitions committed_root deposits withdrawals =
     (case fold_res add_pending_transition Map.empty (all_transitions deposits withdrawals) of
        Inl e \<Rightarrow> Inl e
      | Inr by_root \<Rightarrow>
          follow_roots by_root (length (all_transitions deposits withdrawals)) committed_root)"

fun bound_single_withdrawal_prefix :: "pending_transition list \<Rightarrow> pending_transition list" where
  "bound_single_withdrawal_prefix [] = []"
| "bound_single_withdrawal_prefix (t # ts) =
     (if pt_kind t = ''withdrawal'' then [t] else t # bound_single_withdrawal_prefix ts)"

subsection \<open>Witness accounts\<close>

definition index_account_secret ::
    "(string \<rightharpoonup> string) \<Rightarrow> account_secret \<Rightarrow> (string \<rightharpoonup> string) res" where
  "index_account_secret out s =
     (let owner = trim_space (as_owner s); secret = trim_space (as_user_secret s) in
      if owner = [] then Inl ErrInvalidPendingSettlement
      else if secret = [] then Inl ErrInvalidPendingSettlement
      else if owner \<in> dom out then Inl ErrInvalidPendingSettlement
      else Inr (out(owner \<mapsto> secret)))"

definition index_account_secrets :: "account_secret list \<Rightarrow> (string \<rightharpoonup> string) res" where
  "index_account_secrets secrets = fold_res index_account_secret Map.empty secrets"

definition resolve_account_secret :: "(string \<rightharpoonup> string) \<Rightarrow> string \<Rightarrow> string" where
  "resolve_account_secret secrets owner =
     (case secrets owner of Some s \<Rightarrow> s | None \<Rightarrow> mvp_mock_secret)"

record owner_balance =
  ob_owner :: string
  ob_denom :: string
  ob_old :: string
  ob_new :: string

definition owner_balance_step ::
    "string list \<times> (string \<rightharpoonup> owner_balance) \<Rightarrow> pending_transition
     \<Rightarrow> (string list \<times> (string \<rightharpoonup> owner_balance)) res" where
  "owner_balance_step acc t = (case acc of (order, by_owner) \<Rightarrow>
     let owner = trim_space (pt_owner t); denom = trim_space (pt_denom t) in
     if owner = [] then Inl ErrInvalidPendingSettlement
     else if denom = [] then Inl ErrInvalidPendingSettlement
     else case by_owner owner of
       None \<Rightarrow> Inr (order @ [owner], by_owner(owner \<mapsto> \<lparr>ob_owner = owner, ob_denom = denom,
                  ob_old = pt_balance_before t, ob_new = pt_balance_after t\<rparr>))
     | Some current \<Rightarrow>
         if ob_denom current \<noteq> denom then Inl ErrInvalidPendingSettlement
         else Inr (order, by_owner(owner \<mapsto> current\<lparr>ob_new := pt_balance_after t\<rparr>)))"

definition build_witness_accounts ::
    "pending_transition list \<Rightarrow> account_secret list \<Rightarrow> account_witness_secret list res" where
  "build_witness_accounts ordered account_secrets =
     (case index_account_secrets account_secrets of Inl e \<Rightarrow> Inl e
      | Inr secrets \<Rightarrow> (case fold_res owner_balance_step ([], Map.empty) ordered of Inl e \<Rightarrow> Inl e
      | Inr (order, by_owner) \<Rightarrow>
          Inr (map (\<lambda>owner. \<lparr>aw_owner = owner, aw_user_secret = resolve_account_secret secrets owner,
                 aw_old_balance = ob_old (the (by_owner owner)),
                 aw_new_balance = ob_new (the (by_owner owner))\<rparr>) order)))"

subsection \<open>Building the pending batch\<close>

definition list_pending_settlement :: "(pending_deposit list \<times> pending_withdrawal list) action" where
  "list_pending_settlement =
     sv_bind (with_repo list_pending_deposits) (\<lambda>deposits.
       sv_bind (with_repo list_pending_withdrawals) (\<lambda>withdrawals s. (s, Inr (deposits, withdrawals))))"

definition selected_ids :: "string \<Rightarrow> pending_transition list \<Rightarrow> string set" where
  "selected_ids kind bounded = pt_id ` set (filter (\<lambda>t. pt_kind t = kind) bounded)"

definition record_of_move :: "deposit_move \<Rightarrow> deposit_record" where
  "record_of_move d = \<lparr>dep_id = pd_id d, dep_owner = pd_owner d, dep_denom = pd_denom d,
     dep_amount = pd_amount d, dep_processed = False, dep_created_height = 0, dep_tx_hash = []\<rparr>"

definition input_of_move :: "withdrawal_move \<Rightarrow> withdrawal_input" where
  "input_of_move w = \<lparr>wn_request = request_of_move w, wn_nullifier = pw_nullifier w,
     wn_destination_hash = pw_destination_hash w\<rparr>"

definition pending_settlement_input ::
    "string \<Rightarrow> pending_transition list \<Rightarrow> pending_deposit list \<Rightarrow> pending_withdrawal list \<Rightarrow> settlement_inputs" where
  "pending_settlement_input old_root bounded deposits withdrawals =
     \<lparr>si_old_root = old_root, si_new_root = pt_root_after (last bounded),
      si_deposits = map (record_of_move \<circ> tr_move)
        (filter (\<lambda>t. pd_id (tr_move t) \<in> selected_ids ''deposit'' bounded) deposits),
      si_withdrawals = map (input_of_move \<circ> tr_move)
        (filter (\<lambda>t. pw_id (tr_move t) \<in> selected_ids ''withdrawal'' bounded) withdrawals)\<rparr>"

definition service_mark_included :: "string \<Rightarrow> string list \<Rightarrow> string list \<Rightarrow> unit action" where
  "service_mark_included batch dids wids = with_repo (mark_included batch dids wids)"

definition build_pending_batch :: "account_secret list \<Rightarrow> build_output action" where
  "build_pending_batch account_secrets s0 =
     (if sv_repo s0 = None then (s0, Inl ErrOffchainSettlementUnavailable)
      else sv_bind get_or_init_cursor (\<lambda>cursor.
        sv_bind list_pending_settlement (\<lambda>(deposits, withdrawals) s.
          if deposits = [] \<and> withdrawals = [] then (s, Inl ErrNoPendingSettlementOperations)
          else case order_pending_transitions (cu_committed_root cursor) deposits withdrawals of
            Inl e \<Rightarrow> (s, Inl e)
          | Inr ordered \<Rightarrow>
            let bounded = bound_single_withdrawal_prefix ordered;
                inp = pending_settlement_input (cu_committed_root cursor) bounded deposits withdrawals in
            (case settlement_build (sv_seq s) inp of Inl e \<Rightarrow> (s, Inl e)
             | Inr (seq, upd) \<Rightarrow>
               let s1 = s\<lparr>sv_seq := seq\<rparr> in
               (case build_witness_accounts bounded account_secrets of Inl e \<Rightarrow> (s1, Inl e)
                | Inr accounts \<Rightarrow>
                  (case build_witness \<lparr>wt_settlement = inp, wt_accounts = accounts, wt_state_path = []\<rparr> of
                     Inl e \<Rightarrow> (s1, Inl e)
                   | Inr wit \<Rightarrow>
                     sv_bind (with_repo (mark_included (su_batch_id upd) (map dep_id (si_deposits inp))
                                (map (wr_id \<circ> wn_request) (si_withdrawals inp)))) (\<lambda>_ s2.
                       (s2, Inr \<lparr>bo_update = upd, bo_commitments = build_commitments upd,
                                 bo_witness = wit\<rparr>)) s1))))) s0)"

subsection \<open>Commit, failure, cancellation\<close>

definition commit_batch :: "string \<Rightarrow> string \<Rightarrow> string \<Rightarrow> unit action" where
  "commit_batch batch tx_hash new_committed_root s0 =
     (if sv_repo s0 = None then (s0, Inl ErrOffchainSettlementUnavailable)
      else sv_bind (with_repo (mark_committed batch tx_hash)) (\<lambda>_.
        sv_bind get_or_init_cursor (\<lambda>cursor.
          with_repo (upsert_cursor (cursor\<lparr>cu_committed_root := new_committed_root,
            cu_pending_root := new_committed_root, cu_last_batch_id := batch\<rparr>)))) s0)"

definition fail_batch :: "string \<Rightarrow> string \<Rightarrow> unit action" where
  "fail_batch batch reason = with_repo (mark_failed batch reason)"

definition cancel_included_batch :: "string \<Rightarrow> string \<Rightarrow> unit action" where
  "cancel_included_batch batch reason = with_repo (reopen_included batch reason)"

definition service_manager_root :: "service \<Rightarrow> string" where
  "service_manager_root s = manager_root (sv_manager s)"

definition service_manager_account :: "service \<Rightarrow> string \<Rightarrow> string \<Rightarrow> account" where
  "service_manager_account s owner denom = manager_account (sv_manager s) owner denom"

subsection \<open>The ordered chain\<close>

fun root_chain :: "string \<Rightarrow> pending_transition list \<Rightarrow> bool" where
  "root_chain r [] = True"
| "root_chain r (t # ts) = (pt_root_before t = r \<and> root_chain (pt_root_after t) ts)"

definition rooted :: "pending_transition \<Rightarrow> bool" where
  "rooted t \<longleftrightarrow> trim_space (pt_root_before t) \<noteq> [] \<and> trim_space (pt_root_after t) \<noteq> []"

definition by_root_before :: "pending_transition list \<Rightarrow> (string \<rightharpoonup> pending_transition)" where
  "by_root_before ts = map_of (map (\<lambda>t. (pt_root_before t, t)) ts)"

lemma add_pending_transition_eq:
  "add_pending_transition m t = (if rooted t \<and> pt_root_before t \<notin> dom m
     then Inr (m(pt_root_before t \<mapsto> t)) else Inl ErrInvalidPendingSettlement)"
  by (auto simp: add_pending_transition_def rooted_def)

lemma by_root_before_Cons:
  "pt_root_before t \<notin> pt_root_before ` set ts \<Longrightarrow>
     m(pt_root_before t \<mapsto> t) ++ by_root_before ts = m ++ by_root_before (t # ts)"
proof
  fix r assume "pt_root_before t \<notin> pt_root_before ` set ts"
  then have "by_root_before ts (pt_root_before t) = None"
    by (auto simp: by_root_before_def map_of_eq_None_iff image_image)
  then show "(m(pt_root_before t \<mapsto> t) ++ by_root_before ts) r = (m ++ by_root_before (t # ts)) r"
    by (cases "r = pt_root_before t") (simp_all add: map_add_def by_root_before_def split: option.split)
qed

lemma add_pending_transitions_eq:
  "fold_res add_pending_transition m ts =
     (if list_all rooted ts \<and> distinct (map pt_root_before ts) \<and> dom m \<inter> pt_root_before ` set ts = {}
      then Inr (m ++ by_root_before ts) else Inl ErrInvalidPendingSettlement)"
proof (induction ts arbitrary: m)
  case Nil
  then show ?case by (simp add: by_root_before_def)
next
  case (Cons t ts)
  show ?case
  proof (cases "rooted t \<and> pt_root_before t \<notin> dom m")
    case False
    then have "add_pending_transition m t = Inl ErrInvalidPendingSettlement"
      by (simp add: add_pending_transition_eq)
    with False show ?thesis by auto
  next
    case True
    then have "fold_res add_pending_transition m (t # ts)
      = fold_res add_pending_transition (m(pt_root_before t \<mapsto> t)) ts"
      by (simp add: add_pending_transition_eq)
    moreover have "dom (m(pt_root_before t \<mapsto> t)) \<inter> pt_root_before ` set ts = {} \<longleftrightarrow>
        dom m \<inter> pt_root_before ` set ts = {} \<and> pt_root_before t \<notin> pt_root_before ` set ts"
      by auto
    ultimately show ?thesis
      using True by_root_before_Cons [of t ts m] unfolding Cons.IH by auto
  qed
qed

lemma follow_roots_Inr:
  assumes keyed: "\<And>r t. m r = Some t \<Longrightarrow> pt_root_before t = r"
  shows "follow_roots m n r = Inr ts \<longleftrightarrow>
     length ts = n \<and> root_chain r ts \<and> (\<forall>t \<in> set ts. m (pt_root_before t) = Some t)"
proof (induction n arbitrary: r ts)
  case 0
  then show ?case by auto
next
  case (Suc n)
  show ?case
  proof (cases "m r")
    case None
    then show ?thesis by (cases ts) auto
  next
    case (Some t)
    have "follow_roots m (Suc n) r = Inr ts \<longleftrightarrow> (\<exists>us. ts = t # us \<and> follow_roots m n (pt_root_after t) = Inr us)"
      using Some by (auto split: sum.splits)
    also have "\<dots> \<longleftrightarrow> (\<exists>us. ts = t # us \<and> length us = n \<and> root_chain (pt_root_after t) us
        \<and> (\<forall>u \<in> set us. m (pt_root_before u) = Some u))"
      by (simp add: Suc.IH)
    also have "\<dots> \<longleftrightarrow> length ts = Suc n \<and> root_chain r ts \<and> (\<forall>u \<in> set ts. m (pt_root_before u) = Some u)"
    proof (cases ts)
      case (Cons u us)
      show ?thesis
      proof (cases "u = t")
        case True
        from keyed [OF Some] have "pt_root_before t = r" .
        with True Cons Some show ?thesis by simp
      next
        case False
        with Some have "\<not> (pt_root_before u = r \<and> m (pt_root_before u) = Some u)" by auto
        with False Cons show ?thesis by auto
      qed
    qed simp
    finally show ?thesis .
  qed
qed

lemma follow_roots_Inl: "follow_roots m n r = Inl e \<Longrightarrow> e = ErrInvalidPendingSettlement"
  by (induction m n r rule: follow_roots.induct) (auto split: option.splits sum.splits)

lemma by_root_before_keyed: "by_root_before ts r = Some t \<Longrightarrow> pt_root_before t = r"
  by (auto simp: by_root_before_def dest: map_of_SomeD)

lemma by_root_before_Some:
  "distinct (map pt_root_before ts) \<Longrightarrow> by_root_before ts (pt_root_before t) = Some t \<longleftrightarrow> t \<in> set ts"
  by (subst by_root_before_def, subst map_of_eq_Some_iff) (auto simp: comp_def image_iff)

text \<open>
  The method finds a chain from the committed root through as many pending transitions as there are,
  all of them pending. It is the only such chain, and a permutation of the pending transitions
  unless a root repeats along it.
\<close>

lemma order_pending_Inr:
  "order_pending_transitions r ds ws = Inr ts \<longleftrightarrow>
     list_all rooted (all_transitions ds ws) \<and> distinct (map pt_root_before (all_transitions ds ws))
     \<and> length ts = length (all_transitions ds ws) \<and> root_chain r ts \<and> set ts \<subseteq> set (all_transitions ds ws)"
proof -
  let ?all = "all_transitions ds ws"
  show ?thesis
  proof (cases "list_all rooted ?all \<and> distinct (map pt_root_before ?all)")
    case True
    then have "order_pending_transitions r ds ws = follow_roots (by_root_before ?all) (length ?all) r"
      by (simp add: order_pending_transitions_def add_pending_transitions_eq)
    with True show ?thesis
      by (auto simp: follow_roots_Inr [OF by_root_before_keyed] by_root_before_Some)
  next
    case False
    then show ?thesis
      by (auto simp: order_pending_transitions_def add_pending_transitions_eq)
  qed
qed

lemma order_pending_Inl:
  "order_pending_transitions r ds ws = Inl e \<Longrightarrow> e = ErrInvalidPendingSettlement"
  by (auto simp: order_pending_transitions_def add_pending_transitions_eq split: if_splits
      dest: follow_roots_Inl)

lemma root_chain_unique:
  assumes "root_chain r ts" and "root_chain r us" and "length ts = length us"
    and "set ts \<subseteq> A" "set us \<subseteq> A" and "inj_on pt_root_before A"
  shows "ts = us"
  using assms
proof (induction ts arbitrary: r us)
  case Nil
  then show ?case by simp
next
  case (Cons t ts)
  then obtain u us' where us: "us = u # us'" by (cases us) auto
  with Cons.prems have "t = u" by (auto simp: inj_on_def)
  with Cons us show ?case by auto
qed

lemma order_pending_complete:
  assumes "root_chain r ts" and "mset ts = mset (all_transitions ds ws)"
    and "list_all rooted ts" and "distinct (map pt_root_before ts)"
  shows "order_pending_transitions r ds ws = Inr ts"
proof -
  have "mset (map pt_root_before ts) = mset (map pt_root_before (all_transitions ds ws))"
    using assms(2) by simp
  then have "distinct (map pt_root_before (all_transitions ds ws))"
    using assms(4) by (metis mset_eq_imp_distinct_iff)
  moreover have "set ts = set (all_transitions ds ws)" using assms(2) by (metis mset_eq_setD)
  moreover have "length ts = length (all_transitions ds ws)" using assms(2) by (metis size_mset)
  ultimately show ?thesis using assms by (simp add: order_pending_Inr list_all_iff)
qed

lemma order_pending_permutation:
  assumes "order_pending_transitions r ds ws = Inr ts" and "distinct (map pt_root_before ts)"
  shows "mset ts = mset (all_transitions ds ws)"
proof -
  note o = assms(1) [unfolded order_pending_Inr]
  from assms(2) have d: "distinct ts" by (simp add: distinct_map)
  from o have d': "distinct (all_transitions ds ws)" by (simp add: distinct_map)
  from o d d' have "card (set ts) = card (set (all_transitions ds ws))" by (simp add: distinct_card)
  with o have "set ts = set (all_transitions ds ws)" by (simp add: card_subset_eq)
  with d d' show ?thesis by (simp add: set_eq_iff_mset_eq_distinct)
qed

subsection \<open>The bounded prefix\<close>

abbreviation is_withdrawal :: "pending_transition \<Rightarrow> bool" where
  "is_withdrawal t \<equiv> pt_kind t = ''withdrawal''"

lemma bound_prefix: "\<exists>rest. ts = bound_single_withdrawal_prefix ts @ rest"
proof (induction ts)
  case Nil
  then show ?case by simp
next
  case (Cons t ts)
  then show ?case by auto
qed

lemma bound_not_Nil: "ts \<noteq> [] \<Longrightarrow> bound_single_withdrawal_prefix ts \<noteq> []"
  by (cases ts) auto

lemma bound_shape:
  "(\<forall>t \<in> set ts. \<not> is_withdrawal t) \<and> bound_single_withdrawal_prefix ts = ts
   \<or> (\<exists>us w vs. ts = us @ w # vs \<and> (\<forall>t \<in> set us. \<not> is_withdrawal t) \<and> is_withdrawal w
       \<and> bound_single_withdrawal_prefix ts = us @ [w])"
proof (induction ts)
  case Nil
  then show ?case by simp
next
  case (Cons t ts)
  show ?case
  proof (cases "is_withdrawal t")
    case True
    then show ?thesis by (intro disjI2 exI [of _ "[]"]) simp
  next
    case False
    from Cons show ?thesis
    proof
      assume "\<exists>us w vs. ts = us @ w # vs \<and> (\<forall>t \<in> set us. \<not> is_withdrawal t) \<and> is_withdrawal w
        \<and> bound_single_withdrawal_prefix ts = us @ [w]"
      then obtain us w vs where "ts = us @ w # vs" "\<forall>t \<in> set us. \<not> is_withdrawal t" "is_withdrawal w"
        "bound_single_withdrawal_prefix ts = us @ [w]" by blast
      with False show ?thesis by (intro disjI2 exI [of _ "t # us"] exI [of _ w] exI [of _ vs]) simp
    qed (use False in simp)
  qed
qed

lemma bound_one_withdrawal: "length (filter is_withdrawal (bound_single_withdrawal_prefix ts)) \<le> 1"
  by (induction ts) auto

lemma root_chain_append:
  "root_chain r (ts @ us) \<longleftrightarrow> root_chain r ts \<and> root_chain (if ts = [] then r else pt_root_after (last ts)) us"
  by (induction ts arbitrary: r) auto

end
