(* ===== verification/Settlement_Log.thy ===== *)
theory Settlement_Log
  imports Settlement_Service
begin

text \<open>
  What the durable log means. A logged move is the record of one operation of the mirror: its
  arguments, the roots around it and the balances around it. \<open>log_run s ms s'\<close> says that the moves
  \<open>ms\<close>, in this order, record a run of the mirror from \<open>s\<close> to \<open>s'\<close>. The theory relates the log to
  what the batch builder computes from it: the chain of roots, and the balances of the witness.
\<close>

datatype logged = LogDeposit deposit_move | LogWithdraw withdrawal_move

fun logged_transition :: "logged \<Rightarrow> pending_transition" where
  "logged_transition (LogDeposit m) = deposit_transition m"
| "logged_transition (LogWithdraw m) = withdrawal_transition m"

fun logged_op :: "logged \<Rightarrow> mirror_op" where
  "logged_op (LogDeposit m) = OpDeposit (record_of_move m)"
| "logged_op (LogWithdraw m) = OpWithdraw (request_of_move m) (pw_nullifier m)"

text \<open>The move is the record of applying its operation at \<open>s\<close> with result \<open>s'\<close>.\<close>

fun log_extra :: "logged \<Rightarrow> bool" where
  "log_extra (LogDeposit m) = True"
| "log_extra (LogWithdraw m) = (withdraw_address_hash (pw_destination m) = Inr (pw_destination_hash m)
     \<and> hex_value (pw_nullifier m) \<and> trim_space (pw_nullifier m) = pw_nullifier m)"

definition log_step :: "local_state \<Rightarrow> logged \<Rightarrow> local_state \<Rightarrow> bool" where
  "log_step s m s' \<longleftrightarrow> op_apply s (logged_op m) = Inr s' \<and> log_extra m
     \<and> (let t = logged_transition m in
        pt_root_before t = ls_root s \<and> pt_root_after t = ls_root s'
        \<and> pt_balance_before t = acc_balance (local_account s (pt_owner t) (pt_denom t))
        \<and> pt_balance_after t = acc_balance (local_account s' (pt_owner t) (pt_denom t)))"

inductive log_run :: "local_state \<Rightarrow> logged list \<Rightarrow> local_state \<Rightarrow> bool" where
  log_run_Nil: "log_run s [] s"
| log_run_Cons: "log_step s m s1 \<Longrightarrow> log_run s1 ms s2 \<Longrightarrow> log_run s (m # ms) s2"

inductive_cases log_run_ConsE: "log_run s (m # ms) s2"
inductive_simps log_run_Nil_iff [simp]: "log_run s [] s2"
inductive_simps log_run_Cons_iff: "log_run s (m # ms) s2"

lemma log_run_append:
  "log_run s (ms @ ns) s2 \<longleftrightarrow> (\<exists>s1. log_run s ms s1 \<and> log_run s1 ns s2)"
  by (induction ms arbitrary: s) (auto simp: log_run_Cons_iff)

lemma log_run_snoc: "log_run s ms s1 \<Longrightarrow> log_step s1 m s2 \<Longrightarrow> log_run s (ms @ [m]) s2"
  by (auto simp: log_run_append log_run_Cons_iff)

lemma log_run_ops: "log_run s ms s2 \<Longrightarrow> fold_res op_apply s (map logged_op ms) = Inr s2"
  by (induction rule: log_run.induct) (auto simp: log_step_def)

subsection \<open>Roots\<close>

definition log_transitions :: "logged list \<Rightarrow> pending_transition list" where
  "log_transitions ms = map logged_transition ms"

lemma log_run_chain:
  "log_run s ms s2 \<Longrightarrow> root_chain (ls_root s) (log_transitions ms)
     \<and> ls_root s2 = (if ms = [] then ls_root s else pt_root_after (last (log_transitions ms)))"
  by (induction rule: log_run.induct) (auto simp: log_transitions_def log_step_def Let_def)

lemma log_run_wf:
  "log_run s ms s2 \<Longrightarrow> wf_local s \<Longrightarrow> wf_local s2 \<and> (ms \<noteq> [] \<longrightarrow> root_current s2)"
  using op_run_ok log_run_ops by (metis map_is_Nil_conv)

lemma root_current_hex: "root_current s \<Longrightarrow> hex_value (ls_root s) \<and> trim_space (ls_root s) = ls_root s"
  by (simp add: root_current_def compute_root_def)

text \<open>The roots along a log: no root comes back, which only a collision of the digest could cause.\<close>

definition roots_distinct :: "local_state \<Rightarrow> logged list \<Rightarrow> bool" where
  "roots_distinct s ms \<longleftrightarrow> distinct (ls_root s # map pt_root_after (log_transitions ms))"

lemma chain_roots_before:
  "root_chain r ts \<Longrightarrow> map pt_root_before ts = butlast (r # map pt_root_after ts)"
  by (induction ts arbitrary: r) auto

lemma roots_distinct_before:
  assumes "log_run s ms s2" and "roots_distinct s ms"
  shows "distinct (map pt_root_before (log_transitions ms))"
  using assms(2) log_run_chain [OF assms(1)]
  by (metis chain_roots_before distinct_butlast roots_distinct_def)

lemma log_run_rooted:
  "log_run s ms s2 \<Longrightarrow> wf_local s \<Longrightarrow> trim_space (ls_root s) \<noteq> [] \<Longrightarrow> list_all rooted (log_transitions ms)"
proof (induction rule: log_run.induct)
  case (log_run_Nil s)
  then show ?case by (simp add: log_transitions_def)
next
  case (log_run_Cons s m s1 ms s2)
  have "log_run s [m] s1" using log_run_Cons(1) by (auto simp: log_run_Cons_iff)
  from log_run_wf [OF this log_run_Cons(4)] have s1: "wf_local s1" "root_current s1" by simp_all
  from root_current_hex [OF s1(2)] have "trim_space (ls_root s1) \<noteq> []" by (auto simp: hex_value_def)
  with log_run_Cons s1(1) show ?case
    by (auto simp: log_transitions_def rooted_def log_step_def Let_def)
qed

subsection \<open>Balances\<close>

definition log_deposits :: "logged list \<Rightarrow> deposit_move list" where
  "log_deposits ms = [m. LogDeposit m \<leftarrow> ms]"

definition log_withdrawals :: "logged list \<Rightarrow> withdrawal_move list" where
  "log_withdrawals ms = [m. LogWithdraw m \<leftarrow> ms]"

lemma log_parts_simps [simp]:
  "log_deposits [] = []" "log_withdrawals [] = []"
  "log_deposits (LogDeposit d # ms) = d # log_deposits ms"
  "log_deposits (LogWithdraw w # ms) = log_deposits ms"
  "log_withdrawals (LogDeposit d # ms) = log_withdrawals ms"
  "log_withdrawals (LogWithdraw w # ms) = w # log_withdrawals ms"
  "log_deposits (ms @ ns) = log_deposits ms @ log_deposits ns"
  "log_withdrawals (ms @ ns) = log_withdrawals ms @ log_withdrawals ns"
  by (simp_all add: log_deposits_def log_withdrawals_def)

lemma log_parts_mset:
  "mset (log_transitions ms) = mset (map deposit_transition (log_deposits ms))
     + mset (map withdrawal_transition (log_withdrawals ms))"
proof (induction ms)
  case (Cons m ms)
  then show ?case by (cases m) (simp_all add: log_transitions_def)
qed (simp add: log_transitions_def)

text \<open>
  A batch of one denomination \<open>den\<close>, whose owners carry no outer whitespace: the only accounts it
  touches are \<open>(owner, den)\<close>.
\<close>

fun clean_move :: "string \<Rightarrow> logged \<Rightarrow> bool" where
  "clean_move den (LogDeposit m) = (trim_space (pd_id m) \<noteq> [] \<and> pd_denom m = den \<and> trim_space (pd_owner m) = pd_owner m)"
| "clean_move den (LogWithdraw m) = (pw_denom m = den \<and> trim_space (pw_owner m) = pw_owner m)"

lemma clean_transition:
  "clean_move den m \<Longrightarrow> pt_denom (logged_transition m) = den
     \<and> trim_space (pt_owner (logged_transition m)) = pt_owner (logged_transition m)"
  by (cases m) (simp_all add: deposit_transition_def withdrawal_transition_def)

lemma log_step_key:
  assumes "log_step s m s'" and "wf_local s" and "clean_move den m" and "trim_space den = den"
  shows "op_key (logged_op m) = (pt_owner (logged_transition m), den)"
    and "pt_owner (logged_transition m) \<noteq> []" and "den \<noteq> []"
proof -
  have "spec_op (mirror_of s) (logged_op m) = Inr (mirror_of s')"
    using op_apply_ok [OF assms(2)] assms(1) by (auto simp: log_step_def)
  with assms(3,4) show "op_key (logged_op m) = (pt_owner (logged_transition m), den)"
    "pt_owner (logged_transition m) \<noteq> []" "den \<noteq> []"
    by (cases m; auto simp: record_of_move_def request_of_move_def deposit_transition_def
      withdrawal_transition_def spec_deposit_Inr spec_withdrawal_Inr withdraw_shape_def)+
qed

text \<open>An operation leaves the other accounts alone.\<close>

lemma spec_op_other:
  "spec_op M x = Inr M' \<Longrightarrow> k \<noteq> op_key x \<Longrightarrow> bal_of (mi_ledger M') k = bal_of (mi_ledger M) k"
  by (cases x) (auto simp: spec_deposit_Inr spec_withdrawal_Inr)

lemma log_step_other:
  assumes "log_step s m s'" and "wf_local s" and "k \<noteq> op_key (logged_op m)"
  shows "bal_of (local_ledger s') k = bal_of (local_ledger s) k"
proof -
  have "spec_op (mirror_of s) (logged_op m) = Inr (mirror_of s')"
    using op_apply_ok [OF assms(2)] assms(1) by (auto simp: log_step_def)
  from spec_op_other [OF this assms(3)] show ?thesis by (simp add: mirror_of_def)
qed

text \<open>
  What the loop over the transitions has gathered when the mirror has reached \<open>s\<close>: for every owner
  seen, the balance at the start and the balance now; the others have not moved.
\<close>

definition owner_entry :: "string \<Rightarrow> local_state \<Rightarrow> local_state \<Rightarrow> string \<Rightarrow> owner_balance" where
  "owner_entry den s0 s ow = \<lparr>ob_owner = ow, ob_denom = den, ob_old = acc_balance (local_account s0 ow den),
     ob_new = acc_balance (local_account s ow den)\<rparr>"

definition tracked ::
    "string \<Rightarrow> local_state \<Rightarrow> local_state \<Rightarrow> string list \<times> (string \<rightharpoonup> owner_balance) \<Rightarrow> bool" where
  "tracked den s0 s acc \<longleftrightarrow> set (fst acc) = dom (snd acc)
     \<and> (\<forall>ow \<in> dom (snd acc). trim_space ow = ow \<and> ow \<noteq> [] \<and> snd acc ow = Some (owner_entry den s0 s ow))
     \<and> (\<forall>ow. ow \<notin> dom (snd acc) \<longrightarrow> bal_of (local_ledger s) (ow, den) = bal_of (local_ledger s0) (ow, den))"

lemmas tracked_iff = tracked_def [where acc = "(order, m)" for order m, simplified fst_conv snd_conv]

lemma tracked_update:
  assumes tr: "tracked den s0 s (order, m)" and ow: "trim_space ow = ow" "ow \<noteq> []"
    and same: "\<And>ow'. ow' \<noteq> ow \<Longrightarrow> ow' \<in> dom m \<Longrightarrow> acc_balance (local_account s' ow' den) = acc_balance (local_account s ow' den)"
    and other: "\<And>ow'. ow' \<noteq> ow \<Longrightarrow> bal_of (local_ledger s') (ow', den) = bal_of (local_ledger s) (ow', den)"
    and order: "set order' = insert ow (set order)"
  shows "tracked den s0 s' (order', m(ow \<mapsto> owner_entry den s0 s' ow))"
  unfolding tracked_iff
proof (intro conjI ballI allI impI)
  from tr order show "set order' = dom (m(ow \<mapsto> owner_entry den s0 s' ow))"
    by (simp add: tracked_iff)
next
  fix ow' assume "ow' \<in> dom (m(ow \<mapsto> owner_entry den s0 s' ow))"
  then have "ow' = ow \<or> ow' \<noteq> ow \<and> ow' \<in> dom m" by auto
  then have "trim_space ow' = ow' \<and> ow' \<noteq> []
      \<and> (m(ow \<mapsto> owner_entry den s0 s' ow)) ow' = Some (owner_entry den s0 s' ow')"
  proof (elim disjE conjE)
    assume "ow' = ow"
    with ow show "trim_space ow' = ow' \<and> ow' \<noteq> []
      \<and> (m(ow \<mapsto> owner_entry den s0 s' ow)) ow' = Some (owner_entry den s0 s' ow')" by simp
  next
    assume ow': "ow' \<noteq> ow" "ow' \<in> dom m"
    with tr have "trim_space ow' = ow'" "ow' \<noteq> []" "m ow' = Some (owner_entry den s0 s ow')"
      by (simp_all add: tracked_iff)
    moreover have "owner_entry den s0 s ow' = owner_entry den s0 s' ow'"
      using same [OF ow'] by (simp add: owner_entry_def)
    ultimately show "trim_space ow' = ow' \<and> ow' \<noteq> []
      \<and> (m(ow \<mapsto> owner_entry den s0 s' ow)) ow' = Some (owner_entry den s0 s' ow')" using ow'(1) by simp
  qed
  then show "trim_space ow' = ow'" "ow' \<noteq> []"
    "(m(ow \<mapsto> owner_entry den s0 s' ow)) ow' = Some (owner_entry den s0 s' ow')" by simp_all
next
  fix ow' assume "ow' \<notin> dom (m(ow \<mapsto> owner_entry den s0 s' ow))"
  then have "ow' \<noteq> ow" "ow' \<notin> dom m" by auto
  with tr other [of ow'] show "bal_of (local_ledger s') (ow', den) = bal_of (local_ledger s0) (ow', den)"
    by (simp add: tracked_iff)
qed

lemma tracked_step:
  assumes step: "log_step s m s'" and wf: "wf_local s0" "wf_local s" "wf_local s'"
    and clean: "clean_move den m" "trim_space den = den" and tr: "tracked den s0 s acc"
  shows "\<exists>acc'. owner_balance_step acc (logged_transition m) = Inr acc' \<and> tracked den s0 s' acc'
    \<and> set (fst acc') = insert (pt_owner (logged_transition m)) (set (fst acc))"
proof -
  let ?t = "logged_transition m"
  define ow where "ow = pt_owner ?t"
  obtain order by_owner where acc: "acc = (order, by_owner)" by (cases acc)
  note key = log_step_key [OF step wf(2) clean]
  have t: "pt_denom ?t = den" "trim_space ow = ow" using clean_transition [OF clean(1)] by (simp_all add: ow_def)
  have ne: "ow \<noteq> []" "den \<noteq> []" using key(2,3) by (simp_all add: ow_def)
  from step have bb: "pt_balance_before ?t = acc_balance (local_account s ow den)"
    and ba: "pt_balance_after ?t = acc_balance (local_account s' ow den)"
    using t by (simp_all add: log_step_def Let_def ow_def)
  have other: "bal_of (local_ledger s') (ow', den) = bal_of (local_ledger s) (ow', den)" if "ow' \<noteq> ow" for ow'
    using log_step_other [OF step wf(2)] key(1) that by (simp add: ow_def)
  have str: "acc_balance (local_account u ow' den) = nat_to_dec (bal_of (local_ledger u) (ow', den))"
    if "wf_local u" "trim_space ow' = ow'" "ow' \<noteq> []" for u ow'
    using local_account_balance [OF that clean(2) ne(2)] .
  have same: "acc_balance (local_account s' ow' den) = acc_balance (local_account s ow' den)"
    if "ow' \<noteq> ow" "ow' \<in> dom by_owner" for ow'
  proof -
    have "trim_space ow' = ow'" "ow' \<noteq> []" using tr that(2) by (auto simp: acc tracked_iff)
    with str [OF wf(2)] str [OF wf(3)] other [OF that(1)] show ?thesis by simp
  qed
  note upd = tracked_update [OF tr [unfolded acc] t(2) ne(1) same other]
  show ?thesis
  proof (cases "by_owner ow")
    case None
    with tr have "bal_of (local_ledger s) (ow, den) = bal_of (local_ledger s0) (ow, den)"
      by (auto simp: tracked_iff acc domIff)
    then have "acc_balance (local_account s ow den) = acc_balance (local_account s0 ow den)"
      using str [OF wf(2) t(2) ne(1)] str [OF wf(1) t(2) ne(1)] by simp
    then have "owner_balance_step acc ?t = Inr (order @ [ow], by_owner(ow \<mapsto> owner_entry den s0 s' ow))"
      using None t ne clean(2) bb ba
      by (simp add: owner_balance_step_def acc Let_def ow_def [symmetric] owner_entry_def)
    with upd [of "order @ [ow]"] show ?thesis by (simp add: ow_def acc)
  next
    case (Some b)
    then have "ow \<in> dom by_owner" by auto
    with tr have b: "by_owner ow = Some (owner_entry den s0 s ow)" and mem: "ow \<in> set order"
      by (simp_all add: tracked_iff acc)
    have "owner_balance_step acc ?t = Inr (order, by_owner(ow \<mapsto> owner_entry den s0 s' ow))"
      using b t ne clean(2) ba
      by (simp add: owner_balance_step_def acc Let_def ow_def [symmetric] owner_entry_def)
    with upd [of order] mem show ?thesis by (simp add: ow_def acc insert_absorb)
  qed
qed

lemma tracked_run:
  assumes "log_run s ms s2" and "wf_local s0" and "wf_local s" and "trim_space den = den"
    and "list_all (clean_move den) ms" and "tracked den s0 s acc"
  shows "\<exists>acc'. fold_res owner_balance_step acc (log_transitions ms) = Inr acc' \<and> tracked den s0 s2 acc'
    \<and> set (fst acc') = set (fst acc) \<union> pt_owner ` set (log_transitions ms)"
  using assms
proof (induction arbitrary: acc rule: log_run.induct)
  case (log_run_Nil s)
  then show ?case by (simp add: log_transitions_def)
next
  case (log_run_Cons s m s1 ms s2)
  have "log_run s [m] s1" using log_run_Cons(1) by (auto simp: log_run_Cons_iff)
  from log_run_wf [OF this log_run_Cons(5)] have wf1: "wf_local s1" by simp
  from log_run_Cons.prems have clean: "clean_move den m" "list_all (clean_move den) ms" by simp_all
  from tracked_step [OF log_run_Cons(1) log_run_Cons(4,5) wf1 clean(1) log_run_Cons(6) log_run_Cons(8)]
  obtain acc1 where a1: "owner_balance_step acc (logged_transition m) = Inr acc1" "tracked den s0 s1 acc1"
    "set (fst acc1) = insert (pt_owner (logged_transition m)) (set (fst acc))" by blast
  from log_run_Cons.IH [OF log_run_Cons(4) wf1 log_run_Cons(6) clean(2) a1(2)]
  obtain acc2 where a2: "fold_res owner_balance_step acc1 (log_transitions ms) = Inr acc2"
    "tracked den s0 s2 acc2"
    "set (fst acc2) = set (fst acc1) \<union> pt_owner ` set (log_transitions ms)" by blast
  with a1 show ?case by (simp add: log_transitions_def)
qed

subsection \<open>Logged moves make a valid settlement\<close>

lemma log_step_good:
  assumes "log_step s m s'" and "wf_local s" and "clean_move den m" and "trim_space den = den"
  shows "case m of LogDeposit d \<Rightarrow> good_deposit den (record_of_move d)
    | LogWithdraw w \<Rightarrow> good_withdrawal den (input_of_move w)"
proof -
  have spec: "spec_op (mirror_of s) (logged_op m) = Inr (mirror_of s')" and ex: "log_extra m"
    using op_apply_ok [OF assms(2)] assms(1) by (auto simp: log_step_def)
  note den = log_step_key(3) [OF assms]
  show ?thesis
  proof (cases m)
    case (LogDeposit d)
    with spec assms(3,4) den show ?thesis
      by (simp add: good_deposit_def record_of_move_def spec_deposit_Inr)
  next
    case (LogWithdraw w)
    with spec ex assms(3,4) den show ?thesis
      by (simp add: good_withdrawal_def input_of_move_def request_of_move_def spec_withdrawal_Inr withdraw_shape_def)
  qed
qed

lemma log_run_good:
  "log_run s ms s2 \<Longrightarrow> wf_local s \<Longrightarrow> list_all (clean_move den) ms \<Longrightarrow> trim_space den = den \<Longrightarrow>
     (\<forall>d \<in> set (log_deposits ms). good_deposit den (record_of_move d))
     \<and> (\<forall>w \<in> set (log_withdrawals ms). good_withdrawal den (input_of_move w))"
proof (induction rule: log_run.induct)
  case (log_run_Nil s)
  then show ?case by simp
next
  case (log_run_Cons s m s1 ms s2)
  have "log_run s [m] s1" using log_run_Cons(1) by (auto simp: log_run_Cons_iff)
  from log_run_wf [OF this log_run_Cons(4)] have "wf_local s1" by simp
  with log_run_Cons log_step_good [OF log_run_Cons(1,4) _ log_run_Cons(6)] show ?case
    by (cases m) auto
qed

lemma log_owners:
  "pt_owner ` set (log_transitions ms) = pd_owner ` set (log_deposits ms) \<union> pw_owner ` set (log_withdrawals ms)"
proof (induction ms)
  case (Cons m ms)
  then show ?case
    by (cases m) (auto simp: log_transitions_def deposit_transition_def withdrawal_transition_def)
qed (simp add: log_transitions_def)

subsection \<open>Totals do not depend on the order\<close>

lemma deposited_perm: "mset xs = mset ys \<Longrightarrow> deposited k xs = deposited k ys"
  unfolding deposited_def by (metis (no_types, lifting) mset_map sum_mset_sum_list)

lemma withdrawn_perm: "mset xs = mset ys \<Longrightarrow> withdrawn k xs = withdrawn k ys"
  unfolding withdrawn_def by (metis (no_types, lifting) mset_map sum_mset_sum_list)

lemma log_ops_mset:
  "mset (map logged_op ms) = mset (batch_ops (map record_of_move (log_deposits ms)) (map input_of_move (log_withdrawals ms)))"
proof (induction ms)
  case (Cons m ms)
  then show ?case by (cases m) (simp_all add: batch_ops_def input_of_move_def)
qed (simp add: batch_ops_def)

lemma log_balance:
  assumes run: "log_run s ms s2" and wf: "wf_local s"
    and perm: "mset dms = mset (log_deposits ms)" "mset wms = mset (log_withdrawals ms)"
  shows "bal_of (local_ledger s2) k + withdrawn k (batch_ops (map record_of_move dms) (map input_of_move wms))
    = bal_of (local_ledger s) k + deposited k (batch_ops (map record_of_move dms) (map input_of_move wms))"
proof -
  have "mset (map logged_op ms) = mset (batch_ops (map record_of_move dms) (map input_of_move wms))"
    unfolding log_ops_mset using perm by (simp add: batch_ops_def image_mset.compositionality [symmetric])
  from run_balance_equation [OF wf log_run_ops [OF run], of k] deposited_perm [OF this] withdrawn_perm [OF this]
  show ?thesis by simp
qed

subsection \<open>The prefix that is built\<close>

fun flight_prefix :: "logged list \<Rightarrow> logged list" where
  "flight_prefix [] = []"
| "flight_prefix (LogDeposit d # ms) = LogDeposit d # flight_prefix ms"
| "flight_prefix (LogWithdraw w # ms) = [LogWithdraw w]"

lemma flight_prefix_bound: "log_transitions (flight_prefix ms) = bound_single_withdrawal_prefix (log_transitions ms)"
  by (induction ms rule: flight_prefix.induct)
     (simp_all add: log_transitions_def deposit_transition_def withdrawal_transition_def)

definition flight_rest :: "logged list \<Rightarrow> logged list" where
  "flight_rest ms = drop (length (flight_prefix ms)) ms"

lemma flight_split: "flight_prefix ms @ flight_rest ms = ms"
  by (induction ms rule: flight_prefix.induct) (simp_all add: flight_rest_def)

lemma flight_prefix_not_Nil: "ms \<noteq> [] \<Longrightarrow> flight_prefix ms \<noteq> []"
  by (cases ms rule: flight_prefix.cases) auto

lemma flight_one_withdrawal: "length (log_withdrawals (flight_prefix ms)) \<le> 1"
  by (induction ms rule: flight_prefix.induct) simp_all

lemma selected_ids_log:
  "selected_ids ''deposit'' (log_transitions ms) = pd_id ` set (log_deposits ms)"
  "selected_ids ''withdrawal'' (log_transitions ms) = pw_id ` set (log_withdrawals ms)"
proof (induction ms)
  case (Cons m ms)
  case 1
  show ?case using Cons by (cases m)
    (simp_all add: selected_ids_def log_transitions_def deposit_transition_def withdrawal_transition_def)
  case 2
  show ?case using Cons by (cases m)
    (simp_all add: selected_ids_def log_transitions_def deposit_transition_def withdrawal_transition_def)
qed (simp_all add: selected_ids_def log_transitions_def)

lemma filter_prefix_mset:
  assumes "distinct (map f (xs @ ys))" and "mset zs = mset (xs @ ys)"
  shows "mset (filter (\<lambda>z. f z \<in> f ` set xs) zs) = mset xs"
proof -
  have "filter (\<lambda>z. f z \<in> f ` set xs) xs = xs" by (rule filter_True) simp
  moreover have "filter (\<lambda>z. f z \<in> f ` set xs) ys = []" using assms(1) by (auto simp: filter_empty_conv)
  ultimately have e: "filter (\<lambda>z. f z \<in> f ` set xs) (xs @ ys) = xs" by simp
  have "mset (filter (\<lambda>z. f z \<in> f ` set xs) zs) = mset (filter (\<lambda>z. f z \<in> f ` set xs) (xs @ ys))"
    using assms(2) by (metis mset_filter)
  then show ?thesis unfolding e .
qed

end
