(* ===== verification/Settlement_Loop.thy ===== *)
theory Settlement_Loop
  imports Settlement_Log
begin

text \<open>
  The settlement loop of the service: deposits and withdrawals are applied to the mirror and logged,
  a prefix of the log is built into a batch, and the batch is committed or cancelled.
  \<open>loop_inv s s0 fl rest\<close> relates the service \<open>s\<close> to its history: \<open>s0\<close> is the mirror as it was at the
  committed root, \<open>fl\<close> the batch in flight with its moves, \<open>rest\<close> the moves still pending. The
  theorems say that every method of the service keeps the invariant, what it does to the history,
  and that a batch can always be built from a clean history. They are about an undisturbed
  database (no scripted failure).
\<close>

definition db_quiet :: "settlement_db \<Rightarrow> bool" where
  "db_quiet db \<longleftrightarrow> db_pool db \<and> db_faults db = []"

lemma db_quiet_next: "db_quiet db \<Longrightarrow> db_next db = db"
  by (cases db) (simp add: db_quiet_def db_next_def)

lemma db_quiet_ready: "db_quiet db \<Longrightarrow> db_ready db"
  by (simp add: db_quiet_def db_ready_def db_fault_def)

lemma db_call_quiet:
  "db_quiet db \<Longrightarrow> db_call body db = (case body db of Inl e \<Rightarrow> (db, Inl e) | Inr (db', x) \<Rightarrow> (db', Inr x))"
  by (simp add: db_call_ready db_quiet_ready db_quiet_next split: sum.split)

lemma db_quiet_updates [simp]:
  "db_quiet (db\<lparr>db_cursors := c\<rparr>) = db_quiet db" "db_quiet (db\<lparr>db_deposits := d\<rparr>) = db_quiet db"
  "db_quiet (db\<lparr>db_withdrawals := w\<rparr>) = db_quiet db"
  by (simp_all add: db_quiet_def)

subsection \<open>The invariant\<close>

type_synonym flight = "(string \<times> logged list) option"

definition flight_moves :: "flight \<Rightarrow> logged list" where
  "flight_moves fl = (case fl of None \<Rightarrow> [] | Some (_, pre) \<Rightarrow> pre)"

definition flight_batch :: "flight \<Rightarrow> string option" where
  "flight_batch fl = map_option fst fl"

lemma flight_simps [simp]:
  "flight_moves None = []" "flight_moves (Some (b, pre)) = pre"
  "flight_batch None = None" "flight_batch (Some (b, pre)) = Some b"
  by (simp_all add: flight_moves_def flight_batch_def)

text \<open>A table: the pending rows are \<open>rest\<close>, the included rows are the batch in flight.\<close>

definition table_inv :: "string option \<Rightarrow> 'd multiset \<Rightarrow> 'd multiset \<Rightarrow> 'd row list \<Rightarrow> bool" where
  "table_inv batch included rest rows \<longleftrightarrow>
     status_moves status_pending rows = rest \<and> status_moves status_included rows = included
     \<and> (\<forall>r \<in> set rows. row_status r = status_pending \<longrightarrow> row_batch_id r = None)
     \<and> (\<forall>r \<in> set rows. row_status r = status_included \<longrightarrow> batch \<noteq> None \<and> row_batch_id r = batch)"

text \<open>Every row ever written is known to the mirror, so a new one never meets an old one.\<close>

definition known_rows :: "local_state \<Rightarrow> settlement_db \<Rightarrow> bool" where
  "known_rows ls db \<longleftrightarrow> set (row_keys pd_id (db_deposits db)) \<subseteq> ls_deposits ls
     \<and> (\<forall>r \<in> set (db_withdrawals db). pw_nullifier (row_move r) \<in> ls_nullifiers ls)"

definition cursor_inv :: "string \<Rightarrow> settlement_db \<Rightarrow> string \<Rightarrow> bool \<Rightarrow> bool" where
  "cursor_inv name db committed fresh \<longleftrightarrow> name \<noteq> []
     \<and> (case db_cursors db name of None \<Rightarrow> fresh
        | Some c \<Rightarrow> cu_name c = name \<and> cu_committed_root c = committed)"

definition store_inv ::
    "local_state \<Rightarrow> settlement_db \<Rightarrow> flight \<Rightarrow> logged list \<Rightarrow> bool" where
  "store_inv ls db fl rest \<longleftrightarrow> db_quiet db \<and> wf_db db \<and> known_rows ls db
     \<and> table_inv (flight_batch fl) (mset (log_deposits (flight_moves fl))) (mset (log_deposits rest)) (db_deposits db)
     \<and> table_inv (flight_batch fl) (mset (log_withdrawals (flight_moves fl))) (mset (log_withdrawals rest)) (db_withdrawals db)"

definition loop_inv :: "service \<Rightarrow> local_state \<Rightarrow> flight \<Rightarrow> logged list \<Rightarrow> bool" where
  "loop_inv s s0 fl rest \<longleftrightarrow>
     wf_local s0 \<and> hex_value (ls_root s0) \<and> log_run s0 (flight_moves fl @ rest) (mg_ls (sv_manager s))
     \<and> (\<forall>b. fl \<noteq> Some (b, []))
     \<and> (\<exists>db. sv_repo s = Some db \<and> store_inv (mg_ls (sv_manager s)) db fl rest
          \<and> cursor_inv (sv_cursor_name s) db (ls_root s0) (fl = None \<and> rest = []))"

lemma hex_value_not_Nil: "hex_value r \<Longrightarrow> trim_space r \<noteq> [] \<and> r \<noteq> []"
  by (auto simp: hex_value_def)

lemma loop_inv_run: "loop_inv s s0 fl rest \<Longrightarrow> log_run s0 (flight_moves fl @ rest) (mg_ls (sv_manager s))"
  by (simp add: loop_inv_def)

lemma loop_inv_manager:
  assumes "loop_inv s s0 fl rest"
  shows "wf_local (mg_ls (sv_manager s))" and "wf_manager (sv_manager s)"
    and "hex_value (ls_root (mg_ls (sv_manager s)))"
proof -
  from assms have run: "log_run s0 (flight_moves fl @ rest) (mg_ls (sv_manager s))"
    and wf: "wf_local s0" and hex: "hex_value (ls_root s0)" by (simp_all add: loop_inv_def)
  from log_run_wf [OF run wf] show wf': "wf_local (mg_ls (sv_manager s))" by simp
  show "hex_value (ls_root (mg_ls (sv_manager s)))"
  proof (cases "flight_moves fl @ rest = []")
    case True
    with run hex show ?thesis by (auto elim: log_run.cases)
  next
    case False
    with log_run_wf [OF run wf] root_current_hex show ?thesis by blast
  qed
  with wf' hex_value_not_Nil show "wf_manager (sv_manager s)" by (auto simp: wf_manager_def)
qed

text \<open>The service as it starts, on empty tables.\<close>

definition empty_db :: "(string \<Rightarrow> nat list) \<Rightarrow> settlement_db" where
  "empty_db coll = \<lparr>db_pool = True, db_faults = [], db_collation = coll, db_cursors = Map.empty,
     db_deposits = [], db_withdrawals = []\<rparr>"

lemma loop_inv_start: "loop_inv (new_service None (Some (empty_db coll))) new_local_state None []"
  using root_current_hex [OF root_current_new]
  by (auto simp: loop_inv_def new_service_def new_manager_def store_inv_def empty_db_def db_quiet_def
      wf_db_def wf_rows_def unique_nullifiers_def known_rows_def table_inv_def cursor_inv_def
      row_keys_def default_cursor_name_def)

lemma loop_inv_genesis:
  assumes "hex_value g"
  shows "loop_inv (new_service (Some (new_manager_with_genesis_root g)) (Some (empty_db coll)))
    (new_local_state_with_genesis_root g) None []"
  using assms hex_value_not_Nil [OF assms]
  by (auto simp: loop_inv_def new_service_def new_manager_with_genesis_root_def store_inv_def empty_db_def db_quiet_def
      wf_db_def wf_rows_def unique_nullifiers_def known_rows_def table_inv_def cursor_inv_def
      row_keys_def default_cursor_name_def) (simp add: new_local_state_with_genesis_root_def)

subsection \<open>The cursor\<close>

lemma get_cursor_quiet:
  "db_quiet db \<Longrightarrow> n \<noteq> [] \<Longrightarrow> get_cursor n db =
     (case db_cursors db n of None \<Rightarrow> (db, Inl ErrOffchainSettlementRecordNotFound) | Some c \<Rightarrow> (db, Inr c))"
  by (simp add: get_cursor_def db_call_quiet split: option.split)

lemma upsert_cursor_quiet:
  "db_quiet db \<Longrightarrow> cu_name c \<noteq> [] \<Longrightarrow>
     upsert_cursor c db = (db\<lparr>db_cursors := (db_cursors db)(cu_name c \<mapsto> c)\<rparr>, Inr ())"
  by (simp add: upsert_cursor_def db_call_quiet)

lemma get_or_init_cursor_quiet:
  assumes "sv_repo s = Some db" and "db_quiet db" and "sv_cursor_name s \<noteq> []"
  shows "get_or_init_cursor_with_root root s =
    (case db_cursors db (sv_cursor_name s) of Some c \<Rightarrow> (s, Inr c)
     | None \<Rightarrow> let c = \<lparr>cu_name = sv_cursor_name s, cu_committed_root = root, cu_pending_root = root,
                      cu_last_batch_id = []\<rparr>
         in (s\<lparr>sv_repo := Some (db\<lparr>db_cursors := (db_cursors db)(sv_cursor_name s \<mapsto> c)\<rparr>)\<rparr>, Inr c))"
proof -
  have "s\<lparr>sv_repo := Some db\<rparr> = s" using assms(1) by (cases s) simp
  with assms show ?thesis
    by (auto simp: get_or_init_cursor_with_root_def with_repo_def get_cursor_quiet upsert_cursor_quiet
        Let_def split: option.split)
qed

text \<open>Looking the cursor up keeps the invariant, and its committed root is that of \<open>s0\<close>.\<close>

lemma get_or_init_cursor_inv:
  assumes inv: "loop_inv s s0 fl rest" and root: "root = ls_root (mg_ls (sv_manager s))"
  obtains s' c db where "get_or_init_cursor_with_root root s = (s', Inr c)"
    and "loop_inv s' s0 fl rest" and "sv_manager s' = sv_manager s" and "sv_seq s' = sv_seq s"
    and "sv_repo s' = Some db" and "db_cursors db (sv_cursor_name s') = Some c"
    and "cu_name c = sv_cursor_name s'" and "cu_committed_root c = ls_root s0"
    and "sv_cursor_name s' = sv_cursor_name s"
proof -
  from inv obtain db where db: "sv_repo s = Some db" "store_inv (mg_ls (sv_manager s)) db fl rest"
    "cursor_inv (sv_cursor_name s) db (ls_root s0) (fl = None \<and> rest = [])" by (auto simp: loop_inv_def)
  then have q: "db_quiet db" "sv_cursor_name s \<noteq> []" by (simp_all add: store_inv_def cursor_inv_def)
  show ?thesis
  proof (cases "db_cursors db (sv_cursor_name s)")
    case (Some c)
    with get_or_init_cursor_quiet [OF db(1) q, of root] db inv show ?thesis
      by (intro that [of s c db]) (simp_all add: cursor_inv_def)
  next
    case None
    with db(3) have "fl = None" "rest = []" by (simp_all add: cursor_inv_def)
    with inv have r: "ls_root (mg_ls (sv_manager s)) = ls_root s0"
      by (auto simp: loop_inv_def elim: log_run.cases)
    let ?c = "\<lparr>cu_name = sv_cursor_name s, cu_committed_root = root, cu_pending_root = root, cu_last_batch_id = []\<rparr>"
    let ?db = "db\<lparr>db_cursors := (db_cursors db)(sv_cursor_name s \<mapsto> ?c)\<rparr>"
    have "loop_inv (s\<lparr>sv_repo := Some ?db\<rparr>) s0 fl rest"
      using inv db q r root
      by (auto simp: loop_inv_def store_inv_def known_rows_def wf_db_def cursor_inv_def)
    with get_or_init_cursor_quiet [OF db(1) q, of root] None r root show ?thesis
      by (intro that [of "s\<lparr>sv_repo := Some ?db\<rparr>" ?c ?db]) (simp_all add: Let_def)
  qed
qed

subsection \<open>Deposits\<close>

lemma table_inv_append:
  assumes "table_inv b inc rest rows" and "key (tr_move t) \<notin> set (row_keys key rows)" and "tr_batch_id t = []"
  shows "table_inv b inc (rest + {#tr_move t#}) (upsert_row key now t status_pending rows)"
  unfolding table_inv_def status_moves_upsert_new [OF assms(2)]
proof (intro conjI)
  show "status_moves status_pending rows + (if status_pending = status_pending then {#tr_move t#} else {#})
      = rest + {#tr_move t#}"
    and "status_moves status_included rows + (if status_pending = status_included then {#tr_move t#} else {#}) = inc"
    using assms(1) by (simp_all add: table_inv_def)
  show "\<forall>r \<in> set (upsert_row key now t status_pending rows). row_status r = status_pending \<longrightarrow> row_batch_id r = None"
    using assms by (intro upsert_unbatched) (simp_all add: table_inv_def)
  show "\<forall>r \<in> set (upsert_row key now t status_pending rows). row_status r = status_included \<longrightarrow> b \<noteq> None \<and> row_batch_id r = b"
    using assms(1) by (auto simp: table_inv_def upsert_row_def new_row_def)
qed

lemma row_keys_upsert_subset:
  "set (row_keys key rows) \<subseteq> A \<Longrightarrow> key (tr_move t) \<in> A \<Longrightarrow> set (row_keys key (upsert_row key now t st rows)) \<subseteq> A"
  by (simp add: row_keys_upsert)

lemma apply_deposit_fields:
  assumes "dep_id x = dep_id d" "dep_owner x = dep_owner d" "dep_denom x = dep_denom d" "dep_amount x = dep_amount d"
  shows "apply_deposit s x = apply_deposit s d"
  unfolding apply_deposit_def validate_deposit_def assms by (rule refl)

lemma apply_deposit_sets:
  assumes "wf_local s" and "apply_deposit s d = Inr (s', root)"
  shows "dep_id d \<notin> ls_deposits s" and "ls_deposits s' = insert (dep_id d) (ls_deposits s)"
    and "ls_nullifiers s' = ls_nullifiers s" and "root = ls_root s'"
  using apply_deposit_ok(1,4) [OF assms] by (auto simp: spec_deposit_Inr mirror_of_def)

text \<open>The end of both apply methods: the pending root of an existing cursor is overwritten.\<close>

lemma update_pending_root_quiet:
  assumes "sv_repo s = Some db" and "db_quiet db" and "sv_cursor_name s \<noteq> []"
    and "db_cursors db (sv_cursor_name s) = Some c" and "cu_name c = sv_cursor_name s"
  shows "update_pending_root root s = (s\<lparr>sv_repo := Some (db\<lparr>db_cursors :=
    (db_cursors db)(sv_cursor_name s \<mapsto> c\<lparr>cu_pending_root := root\<rparr>)\<rparr>)\<rparr>, Inr ())"
  using assms
  by (simp add: update_pending_root_def sv_bind_def get_or_init_cursor_def get_or_init_cursor_quiet
      with_repo_def upsert_cursor_quiet)

definition deposit_move_of :: "local_state \<Rightarrow> deposit_record \<Rightarrow> local_state \<Rightarrow> deposit_move" where
  "deposit_move_of s d s' = \<lparr>pd_id = dep_id d, pd_owner = dep_owner d, pd_denom = dep_denom d,
     pd_amount = dep_amount d, pd_root_before = ls_root s, pd_root_after = ls_root s',
     pd_balance_before = acc_balance (local_account s (dep_owner d) (dep_denom d)),
     pd_balance_after = acc_balance (local_account s' (dep_owner d) (dep_denom d))\<rparr>"

lemma log_step_deposit:
  assumes "wf_local s" and "apply_deposit s d = Inr (s', root)"
  shows "log_step s (LogDeposit (deposit_move_of s d s')) s'"
proof -
  have "apply_deposit s (record_of_move (deposit_move_of s d s')) = Inr (s', root)"
    using assms(2) apply_deposit_fields [of "record_of_move (deposit_move_of s d s')" d s]
    by (simp add: record_of_move_def deposit_move_of_def)
  then show ?thesis by (simp add: log_step_def deposit_move_of_def deposit_transition_def Let_def)
qed

lemma loop_deposit_refused:
  assumes inv: "loop_inv s s0 fl rest" and bad: "apply_deposit (mg_ls (sv_manager s)) d = Inl e"
  shows "\<exists>s'. service_apply_indexed_deposit now d s = (s', Inl e) \<and> loop_inv s' s0 fl rest
    \<and> sv_manager s' = sv_manager s"
proof -
  obtain s1 c db where s1: "get_or_init_cursor_with_root (ls_root (mg_ls (sv_manager s))) s = (s1, Inr c)"
    "loop_inv s1 s0 fl rest" "sv_manager s1 = sv_manager s"
    using get_or_init_cursor_inv [OF inv refl] by metis
  moreover have "sv_repo s \<noteq> None" using inv by (auto simp: loop_inv_def)
  ultimately show ?thesis
    using bad by (auto simp: service_apply_indexed_deposit_def sv_bind_def manager_root_def manager_apply_deposit_def)
qed

lemma loop_deposit:
  assumes inv: "loop_inv s s0 fl rest" and ok: "apply_deposit (mg_ls (sv_manager s)) d = Inr (ls', root)"
  defines "mv \<equiv> deposit_move_of (mg_ls (sv_manager s)) d ls'"
  shows "\<exists>s' t. service_apply_indexed_deposit now d s = (s', Inr t) \<and> tr_move t = mv
    \<and> mg_ls (sv_manager s') = ls' \<and> loop_inv s' s0 fl (rest @ [LogDeposit mv])"
proof -
  let ?ls = "mg_ls (sv_manager s)"
  obtain s1 c db where s1: "get_or_init_cursor_with_root (ls_root ?ls) s = (s1, Inr c)"
    "loop_inv s1 s0 fl rest" "sv_manager s1 = sv_manager s" "sv_repo s1 = Some db"
    and c: "db_cursors db (sv_cursor_name s1) = Some c" "cu_name c = sv_cursor_name s1"
      "cu_committed_root c = ls_root s0"
    using get_or_init_cursor_inv [OF inv refl] by metis
  have repo: "sv_repo s \<noteq> None" using inv by (auto simp: loop_inv_def)
  note wf = loop_inv_manager(1) [OF inv]
  note sets = apply_deposit_sets [OF wf ok]
  from s1 have store: "store_inv ?ls db fl rest" and cur: "sv_cursor_name s1 \<noteq> []"
    by (auto simp: loop_inv_def cursor_inv_def)
  then have q: "db_quiet db" by (simp add: store_inv_def)
  let ?m = "(sv_manager s)\<lparr>mg_ls := ls', mg_gen := mg_gen (sv_manager s) + 1\<rparr>"
  let ?t = "\<lparr>tr_move = mv, tr_status = status_pending, tr_batch_id = [], tr_tx_hash = [], tr_error = []\<rparr>"
  let ?db2 = "db\<lparr>db_deposits := upsert_row pd_id now ?t status_pending (db_deposits db)\<rparr>"
  let ?c2 = "c\<lparr>cu_pending_root := ls_root ls'\<rparr>"
  let ?db3 = "?db2\<lparr>db_cursors := (db_cursors ?db2)(sv_cursor_name s1 \<mapsto> ?c2)\<rparr>"
  let ?s4 = "s1\<lparr>sv_manager := ?m, sv_repo := Some ?db3\<rparr>"
  have save: "save_pending_deposit now ?t db = (?db2, Inr ())"
    using q by (simp add: save_pending_deposit_def db_call_quiet Let_def)
  have upd: "update_pending_root (ls_root ls') (s1\<lparr>sv_manager := ?m, sv_repo := Some ?db2\<rparr>) = (?s4, Inr ())"
    using update_pending_root_quiet [of "s1\<lparr>sv_manager := ?m, sv_repo := Some ?db2\<rparr>" ?db2 c] q cur c by simp
  have run4: "service_apply_indexed_deposit now d s = (?s4, Inr ?t)"
    using s1 repo ok save upd sets(4)
    by (simp add: service_apply_indexed_deposit_def sv_bind_def manager_root_def manager_apply_deposit_def
        with_repo_def mv_def deposit_move_of_def manager_account_def Let_def)
  have fresh: "pd_id (tr_move ?t) \<notin> set (row_keys pd_id (db_deposits db))"
    using store sets(1) by (auto simp: store_inv_def known_rows_def mv_def deposit_move_of_def)
  have "store_inv ls' ?db3 fl (rest @ [LogDeposit mv])"
    using store save_deposit_wf [OF save] sets q
      table_inv_append [where t = ?t and key = pd_id and now = now, OF _ fresh]
    by (auto simp: store_inv_def known_rows_def row_keys_upsert wf_db_def mv_def deposit_move_of_def)
  moreover have "log_run s0 (flight_moves fl @ rest @ [LogDeposit mv]) ls'"
    using log_run_snoc [OF loop_inv_run [OF inv] log_step_deposit [OF wf ok]] by (simp add: mv_def)
  ultimately have "loop_inv ?s4 s0 fl (rest @ [LogDeposit mv])"
    using s1(2) c cur by (auto simp: loop_inv_def cursor_inv_def)
  with run4 show ?thesis by (intro exI [of _ ?s4] exI [of _ ?t]) simp
qed

subsection \<open>Withdrawals\<close>

definition withdrawal_move_of ::
    "local_state \<Rightarrow> withdraw_request \<Rightarrow> string \<Rightarrow> string \<Rightarrow> local_state \<Rightarrow> withdrawal_move" where
  "withdrawal_move_of s r nf h s' = \<lparr>pw_id = wr_id r, pw_owner = wr_owner r, pw_denom = wr_denom r,
     pw_amount = wr_amount r, pw_destination = wr_destination r, pw_nonce = wr_nonce r,
     pw_signature = wr_signature r, pw_nullifier = nf, pw_destination_hash = h,
     pw_root_before = ls_root s, pw_root_after = ls_root s',
     pw_balance_before = acc_balance (local_account s (wr_owner r) (wr_denom r)),
     pw_balance_after = acc_balance (local_account s' (wr_owner r) (wr_denom r))\<rparr>"

lemma request_of_withdrawal_move [simp]: "request_of_move (withdrawal_move_of s r nf h s') = r"
  by (cases r) (simp add: request_of_move_def withdrawal_move_of_def)

lemma nullifier_for_digest:
  "nullifier_for sec n = Inr nf \<Longrightarrow> hex_value nf \<and> trim_space nf = nf"
  by (auto simp: nullifier_for_def Let_def split: if_splits sum.splits)

lemma log_step_withdrawal:
  assumes "wf_local s" and "apply_withdrawal s r nf = Inr (s', root)"
    and "nullifier_for sec (wr_nonce r) = Inr nf" and "withdraw_address_hash (wr_destination r) = Inr h"
  shows "log_step s (LogWithdraw (withdrawal_move_of s r nf h s')) s'"
  using assms(2,4) nullifier_for_digest [OF assms(3)]
  by (simp add: log_step_def Let_def) (simp add: withdrawal_move_of_def withdrawal_transition_def)

lemma apply_withdrawal_sets:
  assumes "wf_local s" and "apply_withdrawal s r nf = Inr (s', root)" and "trim_space nf = nf"
  shows "nf \<notin> ls_nullifiers s" and "ls_nullifiers s' = insert nf (ls_nullifiers s)"
    and "ls_deposits s' = ls_deposits s" and "root = ls_root s'"
  using apply_withdrawal_ok(1,4) [OF assms(1,2)] assms(3) by (auto simp: spec_withdrawal_Inr mirror_of_def)

text \<open>The secret the service derives the nullifier with.\<close>

definition effective_secret :: "string \<Rightarrow> string" where
  "effective_secret s = (if trim_space s = [] then mvp_mock_secret else s)"

definition unused_withdraw_id :: "service \<Rightarrow> string \<Rightarrow> bool" where
  "unused_withdraw_id s i \<longleftrightarrow> (case sv_repo s of None \<Rightarrow> True
     | Some db \<Rightarrow> i \<notin> set (row_keys pw_id (db_withdrawals db)))"

lemma get_or_init_keeps_rows:
  assumes "sv_repo s = Some db" and "db_quiet db" and "sv_cursor_name s \<noteq> []"
    and "get_or_init_cursor_with_root root s = (s', r)" and "sv_repo s' = Some db'"
  shows "db_withdrawals db' = db_withdrawals db" and "db_deposits db' = db_deposits db"
  using assms get_or_init_cursor_quiet [OF assms(1-3), of root]
  by (auto simp: Let_def split: option.splits)

lemma loop_withdraw_refused:
  assumes inv: "loop_inv s s0 fl rest"
    and "nullifier_for (effective_secret sec) (wr_nonce r) = Inr nf"
    and "withdraw_address_hash (wr_destination r) = Inr h"
    and bad: "apply_withdrawal (mg_ls (sv_manager s)) r nf = Inl e"
  shows "\<exists>s'. service_apply_withdraw_request now r sec s = (s', Inl e) \<and> loop_inv s' s0 fl rest
    \<and> sv_manager s' = sv_manager s"
proof -
  obtain s1 c db where s1: "get_or_init_cursor_with_root (ls_root (mg_ls (sv_manager s))) s = (s1, Inr c)"
    "loop_inv s1 s0 fl rest" "sv_manager s1 = sv_manager s"
    using get_or_init_cursor_inv [OF inv refl] by metis
  moreover have "sv_repo s \<noteq> None" using inv by (auto simp: loop_inv_def)
  ultimately show ?thesis
    using bad assms(2,3)
    by (auto simp: service_apply_withdraw_request_def sv_bind_def manager_root_def Let_def
        manager_apply_withdraw_request_def effective_secret_def [symmetric])
qed

lemma loop_withdraw:
  assumes inv: "loop_inv s s0 fl rest"
    and nf: "nullifier_for (effective_secret sec) (wr_nonce r) = Inr nf"
    and h: "withdraw_address_hash (wr_destination r) = Inr h"
    and ok: "apply_withdrawal (mg_ls (sv_manager s)) r nf = Inr (ls', root)"
    and id: "unused_withdraw_id s (wr_id r)"
  defines "mv \<equiv> withdrawal_move_of (mg_ls (sv_manager s)) r nf h ls'"
  shows "\<exists>s' t. service_apply_withdraw_request now r sec s = (s', Inr t) \<and> tr_move t = mv
    \<and> mg_ls (sv_manager s') = ls' \<and> loop_inv s' s0 fl (rest @ [LogWithdraw mv])"
proof -
  let ?ls = "mg_ls (sv_manager s)"
  obtain s1 c db where s1: "get_or_init_cursor_with_root (ls_root ?ls) s = (s1, Inr c)"
    "loop_inv s1 s0 fl rest" "sv_manager s1 = sv_manager s" "sv_repo s1 = Some db"
    and c: "db_cursors db (sv_cursor_name s1) = Some c" "cu_name c = sv_cursor_name s1"
      "cu_committed_root c = ls_root s0"
    using get_or_init_cursor_inv [OF inv refl] by metis
  from inv obtain db0 where db0: "sv_repo s = Some db0" "db_quiet db0" "sv_cursor_name s \<noteq> []"
    by (auto simp: loop_inv_def store_inv_def cursor_inv_def)
  have fresh_id: "wr_id r \<notin> set (row_keys pw_id (db_withdrawals db))"
    using id db0(1) get_or_init_keeps_rows(1) [OF db0 s1(1,4)] by (simp add: unused_withdraw_id_def)
  note wf = loop_inv_manager(1) [OF inv]
  have tnf: "trim_space nf = nf" using nullifier_for_digest [OF nf] by simp
  note sets = apply_withdrawal_sets [OF wf ok tnf]
  from s1 have store: "store_inv ?ls db fl rest" and cur: "sv_cursor_name s1 \<noteq> []"
    by (auto simp: loop_inv_def cursor_inv_def)
  then have q: "db_quiet db" by (simp add: store_inv_def)
  let ?m = "(sv_manager s)\<lparr>mg_ls := ls', mg_gen := mg_gen (sv_manager s) + 1\<rparr>"
  let ?t = "\<lparr>tr_move = mv, tr_status = status_pending, tr_batch_id = [], tr_tx_hash = [], tr_error = []\<rparr>"
  let ?db2 = "db\<lparr>db_withdrawals := upsert_row pw_id now ?t status_pending (db_withdrawals db)\<rparr>"
  let ?c2 = "c\<lparr>cu_pending_root := ls_root ls'\<rparr>"
  let ?db3 = "?db2\<lparr>db_cursors := (db_cursors ?db2)(sv_cursor_name s1 \<mapsto> ?c2)\<rparr>"
  let ?s4 = "s1\<lparr>sv_manager := ?m, sv_repo := Some ?db3\<rparr>"
  have mv: "pw_id mv = wr_id r" "pw_nullifier mv = nf" by (simp_all add: mv_def withdrawal_move_of_def)
  have "pw_nullifier (row_move x) \<noteq> nf" if "x \<in> set (db_withdrawals db)" for x
    using store sets(1) that by (auto simp: store_inv_def known_rows_def)
  then have save: "save_pending_withdrawal now ?t db = (?db2, Inr ())"
    using q mv by (auto simp: save_pending_withdrawal_def db_call_quiet Let_def)
  have upd: "update_pending_root (ls_root ls') (s1\<lparr>sv_manager := ?m, sv_repo := Some ?db2\<rparr>) = (?s4, Inr ())"
    using update_pending_root_quiet [of "s1\<lparr>sv_manager := ?m, sv_repo := Some ?db2\<rparr>" ?db2 c] q cur c by simp
  have run4: "service_apply_withdraw_request now r sec s = (?s4, Inr ?t)"
    using s1 db0(1) ok save upd sets(4) nf h
    by (simp add: service_apply_withdraw_request_def sv_bind_def manager_root_def manager_apply_withdraw_request_def
        with_repo_def mv_def withdrawal_move_of_def manager_account_def Let_def effective_secret_def [symmetric])
  have fresh: "pw_id (tr_move ?t) \<notin> set (row_keys pw_id (db_withdrawals db))"
    using fresh_id mv by simp
  have "store_inv ls' ?db3 fl (rest @ [LogWithdraw mv])"
    using store save_withdrawal_wf [OF save] sets q mv
      table_inv_append [where t = ?t and key = pw_id and now = now, OF _ fresh]
    by (auto simp: store_inv_def known_rows_def wf_db_def upsert_row_def new_row_def)
  moreover have "log_run s0 (flight_moves fl @ rest @ [LogWithdraw mv]) ls'"
    using log_run_snoc [OF loop_inv_run [OF inv] log_step_withdrawal [OF wf ok nf h]] by (simp add: mv_def)
  ultimately have "loop_inv ?s4 s0 fl (rest @ [LogWithdraw mv])"
    using s1(2) c cur by (auto simp: loop_inv_def cursor_inv_def)
  with run4 show ?thesis by (intro exI [of _ ?s4] exI [of _ ?t]) simp
qed

subsection \<open>Building a batch\<close>

definition pending_lists :: "settlement_db \<Rightarrow> pending_deposit list \<times> pending_withdrawal list" where
  "pending_lists db = (map read_row (pending_rows (db_collation db) pd_id (db_deposits db)),
     map read_row (pending_rows (db_collation db) pw_id (db_withdrawals db)))"

lemma list_pending_quiet:
  assumes "sv_repo s = Some db" and "db_quiet db"
  shows "list_pending_settlement s = (s, Inr (pending_lists db))"
proof -
  have "s\<lparr>sv_repo := Some db\<rparr> = s" using assms(1) by (cases s) simp
  with assms show ?thesis
    by (simp add: list_pending_settlement_def sv_bind_def with_repo_def list_pending_deposits_def
        list_pending_withdrawals_def db_call_quiet pending_lists_def)
qed

lemma read_row_move [simp]: "tr_move (read_row r) = row_move r"
  by (simp add: read_row_def)

lemma pending_lists_moves:
  "map tr_move (fst (pending_lists db)) = pending_moves (db_collation db) pd_id (db_deposits db)"
  "map tr_move (snd (pending_lists db)) = pending_moves (db_collation db) pw_id (db_withdrawals db)"
  by (simp_all add: pending_lists_def pending_moves_def comp_def)

lemma pending_lists_mset:
  assumes "store_inv ls db fl ms"
  shows "mset (map tr_move (fst (pending_lists db))) = mset (log_deposits ms)"
    and "mset (map tr_move (snd (pending_lists db))) = mset (log_withdrawals ms)"
  unfolding pending_lists_moves pending_moves_mset using assms by (simp_all add: store_inv_def table_inv_def)

lemma pending_ids_distinct:
  assumes "distinct (row_keys key rows)" and "status_moves status_pending rows = mset ms"
  shows "distinct (map key ms)"
proof -
  have "distinct (map key (map row_move (filter (\<lambda>r. row_status r = status_pending) rows)))"
    using assms(1) distinct_map_filter by (fastforce simp: row_keys_def comp_def)
  moreover have "mset (map key (map row_move (filter (\<lambda>r. row_status r = status_pending) rows))) = mset (map key ms)"
    using arg_cong [OF assms(2), of "image_mset key"] by (simp add: status_moves_def image_mset.compositionality)
  ultimately show ?thesis by (metis mset_eq_imp_distinct_iff)
qed

lemma order_pending_log:
  assumes "store_inv ls db fl ms" and "log_run s0 ms s2" and "wf_local s0" and "hex_value (ls_root s0)"
    and "roots_distinct s0 ms"
  shows "order_pending_transitions (ls_root s0) (fst (pending_lists db)) (snd (pending_lists db))
    = Inr (log_transitions ms)"
proof (rule order_pending_complete)
  show "root_chain (ls_root s0) (log_transitions ms)" using log_run_chain [OF assms(2)] by simp
  show "list_all rooted (log_transitions ms)"
    using log_run_rooted [OF assms(2,3)] hex_value_not_Nil [OF assms(4)] by simp
  show "distinct (map pt_root_before (log_transitions ms))" by (rule roots_distinct_before [OF assms(2,5)])
  have "mset (all_transitions ds ws) = image_mset deposit_transition (mset (map tr_move ds))
      + image_mset withdrawal_transition (mset (map tr_move ws))" for ds ws
    by (simp add: all_transitions_def image_mset.compositionality)
  then show "mset (log_transitions ms) = mset (all_transitions (fst (pending_lists db)) (snd (pending_lists db)))"
    unfolding log_parts_mset using pending_lists_mset [OF assms(1)] by simp
qed

text \<open>What the batch must satisfy: one denomination, trimmed owners, and secrets that open the nullifiers.\<close>

definition buildable :: "string \<Rightarrow> (string \<rightharpoonup> string) \<Rightarrow> logged list \<Rightarrow> bool" where
  "buildable den secrets pre \<longleftrightarrow> trim_space den = den \<and> list_all (clean_move den) pre
     \<and> (\<forall>w \<in> set (log_withdrawals pre). derived secrets (input_of_move w))"

lemma prefix_inputs_valid:
  assumes run: "log_run s0 pre s1" and wf: "wf_local s0" and hex: "hex_value (ls_root s0)" "pre \<noteq> []"
    and ok: "buildable den secrets pre" and rd: "ls_root s0 \<noteq> ls_root s1"
    and perm: "mset dms = mset (log_deposits pre)" "mset wms = mset (log_withdrawals pre)"
  shows "inputs_valid \<lparr>si_old_root = ls_root s0, si_new_root = ls_root s1,
    si_deposits = map record_of_move dms, si_withdrawals = map input_of_move wms\<rparr>"
proof -
  from ok have clean: "list_all (clean_move den) pre" "trim_space den = den" by (simp_all add: buildable_def)
  from perm have sets: "set dms = set (log_deposits pre)" "set wms = set (log_withdrawals pre)"
    by (metis mset_eq_setD)+
  note good = log_run_good [OF run wf clean] 
  have gd: "\<forall>d \<in> set dms. good_deposit den (record_of_move d)"
    and gw: "\<forall>w \<in> set wms. good_withdrawal den (input_of_move w)" using good sets by simp_all
  have ne: "\<not> (dms = [] \<and> wms = [])"
  proof
    assume "dms = [] \<and> wms = []"
    with sets have "log_deposits pre = []" "log_withdrawals pre = []" by simp_all
    with hex(2) show False by (cases pre; cases "hd pre") auto
  qed
  have den: "batch_denom \<lparr>si_old_root = r, si_new_root = r', si_deposits = map record_of_move dms,
      si_withdrawals = map input_of_move wms\<rparr> = den" for r r'
    using ne gd gw clean(2) by (cases dms; cases wms) (auto simp: batch_denom_def good_deposit_def good_withdrawal_def)
  from log_run_wf [OF run wf] hex root_current_hex have "hex_value (ls_root s1)" by blast
  with hex rd ne den gd gw show ?thesis by (simp add: inputs_valid_def)
qed

lemma prefix_batch_facts:
  assumes run: "log_run s0 pre s1" and wf: "wf_local s0" and ok: "buildable den secrets pre"
    and sec: "secrets_ok secrets"
    and perm: "mset dms = mset (log_deposits pre)" "mset wms = mset (log_withdrawals pre)"
  shows "batch_facts secrets s0 (map record_of_move dms) (map input_of_move wms) s1"
proof -
  from perm have sets: "set dms = set (log_deposits pre)" "set wms = set (log_withdrawals pre)"
    by (metis mset_eq_setD)+
  have clean: "clean_move den (LogDeposit d)" if "d \<in> set (log_deposits pre)" for d
    using ok that by (auto simp: buildable_def list_all_iff log_deposits_def split: logged.splits)
  have cleanw: "clean_move den (LogWithdraw w)" if "w \<in> set (log_withdrawals pre)" for w
    using ok that by (auto simp: buildable_def list_all_iff log_withdrawals_def split: logged.splits)
  have "owners_trimmed (map record_of_move dms) (map wn_request (map input_of_move wms))"
    using clean cleanw sets
    by (auto simp: owners_trimmed_def batch_parties_def record_of_move_def input_of_move_def request_of_move_def)
  with log_run_wf [OF run wf] wf sec ok sets log_balance [OF run wf perm] show ?thesis
    by (simp add: batch_facts_def buildable_def)
qed

text \<open>The witness accounts gathered from the transitions are those of the batch's parties.\<close>

lemma index_account_secrets_ok: "index_account_secrets xs = Inr m \<Longrightarrow> secrets_ok m"
  unfolding index_account_secrets_def
proof (erule fold_res_invariant [where P = secrets_ok])
  show "secrets_ok Map.empty" by (simp add: secrets_ok_def)
  show "secrets_ok m'" if "secrets_ok m" "index_account_secret m x = Inr m'" for m x m'
    using that by (auto simp: secrets_ok_def index_account_secret_def Let_def domIff split: if_splits)
qed

lemma prefix_witness_accounts:
  assumes run: "log_run s0 pre s1" and wf: "wf_local s0" and ok: "buildable den secrets pre"
    and sec: "index_account_secrets accs = Inr secrets"
  obtains owners where "set owners = pt_owner ` set (log_transitions pre)"
    and "build_witness_accounts (log_transitions pre) accs = Inr (map (\<lambda>p. \<lparr>aw_owner = fst p,
        aw_user_secret = resolve_secret secrets (fst p),
        aw_old_balance = acc_balance (local_account s0 (fst p) (snd p)),
        aw_new_balance = acc_balance (local_account s1 (fst p) (snd p))\<rparr>) (map (\<lambda>ow. (ow, den)) owners))"
    and "\<forall>ow \<in> set owners. trim_space ow = ow \<and> ow \<noteq> []"
proof -
  from ok have clean: "list_all (clean_move den) pre" "trim_space den = den" by (simp_all add: buildable_def)
  have "tracked den s0 s0 ([], Map.empty)" by (simp add: tracked_def)
  from tracked_run [OF run wf wf clean(2,1) this] obtain acc where
    acc: "fold_res owner_balance_step ([], Map.empty) (log_transitions pre) = Inr acc" "tracked den s0 s1 acc"
    "set (fst acc) = pt_owner ` set (log_transitions pre)" by auto
  obtain order by_owner where o: "acc = (order, by_owner)" by (cases acc)
  have entry: "by_owner ow = Some (owner_entry den s0 s1 ow)" "trim_space ow = ow" "ow \<noteq> []" if "ow \<in> set order" for ow
    using acc(2) that by (auto simp: o tracked_def)
  have "build_witness_accounts (log_transitions pre) accs = Inr (map (\<lambda>p. \<lparr>aw_owner = fst p,
        aw_user_secret = resolve_secret secrets (fst p),
        aw_old_balance = acc_balance (local_account s0 (fst p) (snd p)),
        aw_new_balance = acc_balance (local_account s1 (fst p) (snd p))\<rparr>) (map (\<lambda>ow. (ow, den)) order))"
    using sec acc(1) entry
    by (simp add: build_witness_accounts_def o owner_entry_def resolve_account_secret_def resolve_secret_def)
  with acc(3) entry show ?thesis by (intro that [of order]) (auto simp: o)
qed

text \<open>The rows the batch takes.\<close>

lemma prefix_selection:
  assumes "distinct (map key (log ms))" and "mset (map tr_move xs) = mset (log ms)"
    and "log ms = log (flight_prefix ms) @ log (flight_rest ms)"
    and "sel = key ` set (log (flight_prefix ms))"
  shows "mset (map tr_move (filter (\<lambda>t. key (tr_move t) \<in> sel) xs)) = mset (log (flight_prefix ms))"
proof -
  have "map tr_move (filter (\<lambda>t. key (tr_move t) \<in> sel) xs) = filter (\<lambda>m. key m \<in> sel) (map tr_move xs)"
    by (simp add: filter_map comp_def)
  with filter_prefix_mset [of key "log (flight_prefix ms)" "log (flight_rest ms)" "map tr_move xs"] assms
  show ?thesis by simp
qed

lemma table_inv_include:
  assumes inv: "table_inv None {#} (mset (pre @ rest)) rows" and keys: "distinct (row_keys key rows)"
    and ids: "set ids = key ` set pre"
  shows "table_inv (Some b) (mset pre) (mset rest) (map (\<lambda>r. if key (row_move r) \<in> set ids then include_row b r else r) rows)"
proof -
  have d: "distinct (map key (pre @ rest))"
    using inv by (intro pending_ids_distinct [OF keys]) (simp add: table_inv_def)
  have only: "\<forall>r \<in> set rows. key (row_move r) \<in> set ids \<longrightarrow> row_status r = status_pending"
  proof (intro ballI impI)
    fix r assume r: "r \<in> set rows" "key (row_move r) \<in> set ids"
    with ids obtain m where m: "m \<in> set pre" "key m = key (row_move r)" by auto
    then have "m \<in># status_moves status_pending rows" using inv by (simp add: table_inv_def)
    then obtain r' where "r' \<in> set rows" "row_status r' = status_pending" "row_move r' = m"
      by (auto simp: status_moves_def)
    with r m keys show "row_status r = status_pending"
      by (auto simp: row_keys_def distinct_map inj_on_def)
  qed
  have "filter_mset (\<lambda>m. key m \<in> set ids) (mset (pre @ rest)) = mset pre"
    using filter_prefix_mset [OF d refl] by (simp only: ids mset_filter)
  moreover have "filter_mset (\<lambda>m. key m \<notin> set ids) (mset (pre @ rest)) = mset rest"
  proof -
    have "filter (\<lambda>m. key m \<notin> set ids) pre = []" using ids by (auto simp: filter_empty_conv)
    moreover have "filter (\<lambda>m. key m \<notin> set ids) rest = rest"
      using d ids by (intro filter_True) auto
    ultimately show ?thesis by (metis append_Nil filter_append mset_filter)
  qed
  ultimately show ?thesis
    using inv status_moves_include [OF only, of b] by (auto simp: table_inv_def)
qed

lemma mark_included_quiet:
  assumes "db_quiet db" and "set ds \<subseteq> set (row_keys pd_id (db_deposits db))" "set ws \<subseteq> set (row_keys pw_id (db_withdrawals db))"
  shows "mark_included b ds ws db = (db\<lparr>
      db_deposits := map (\<lambda>r. if pd_id (row_move r) \<in> set ds then include_row b r else r) (db_deposits db),
      db_withdrawals := map (\<lambda>r. if pw_id (row_move r) \<in> set ws then include_row b r else r) (db_withdrawals db)\<rparr>, Inr ())"
  using assms by (simp add: mark_included_eq db_quiet_ready db_quiet_next)

lemma include_flight:
  assumes store: "store_inv ls db None ms"
    and ids: "set ds = pd_id ` set (log_deposits (flight_prefix ms))" "set ws = pw_id ` set (log_withdrawals (flight_prefix ms))"
  shows "\<exists>db'. mark_included b ds ws db = (db', Inr ()) \<and> db_cursors db' = db_cursors db
    \<and> store_inv ls db' (Some (b, flight_prefix ms)) (flight_rest ms)"
proof -
  have split: "log_deposits (flight_prefix ms) @ log_deposits (flight_rest ms) = log_deposits ms"
    "log_withdrawals (flight_prefix ms) @ log_withdrawals (flight_rest ms) = log_withdrawals ms"
    by (metis flight_split log_parts_simps(7,8))+
  from store have q: "db_quiet db" and wf: "wf_db db"
    and td: "table_inv None {#} (mset (log_deposits ms)) (db_deposits db)"
    and tw: "table_inv None {#} (mset (log_withdrawals ms)) (db_withdrawals db)" by (simp_all add: store_inv_def)
  have sub: "key ` set pre \<subseteq> set (row_keys key rows)" if "table_inv None {#} (mset (pre @ rest)) rows" for key pre rest rows
  proof
    fix k assume "k \<in> key ` set pre"
    then obtain m where m: "k = key m" "m \<in> set pre" by auto
    with that have "m \<in># status_moves status_pending rows" by (simp add: table_inv_def)
    with m(1) show "k \<in> set (row_keys key rows)" by (auto simp: status_moves_def row_keys_def)
  qed
  have sub': "set ds \<subseteq> set (row_keys pd_id (db_deposits db))" "set ws \<subseteq> set (row_keys pw_id (db_withdrawals db))"
    unfolding ids using sub td tw split by metis+
  note inc = mark_included_quiet [OF q sub', of b]
  have keys: "distinct (row_keys pd_id (db_deposits db))" "distinct (row_keys pw_id (db_withdrawals db))"
    using wf by (simp_all add: wf_db_def wf_rows_def)
  let ?db = "fst (mark_included b ds ws db)"
  have "store_inv ls ?db (Some (b, flight_prefix ms)) (flight_rest ms)"
    using store mark_included_wf [OF inc wf]
      table_inv_include [OF td [folded split] keys(1) ids(1), of b]
      table_inv_include [OF tw [folded split] keys(2) ids(2), of b]
    by (auto simp: inc store_inv_def known_rows_def)
  with inc show ?thesis by auto
qed

lemma pending_input_log:
  assumes store: "store_inv ls db None ms"
  obtains dms wms where
    "mset dms = mset (log_deposits (flight_prefix ms))" "mset wms = mset (log_withdrawals (flight_prefix ms))"
    and "\<And>r. pending_settlement_input r (log_transitions (flight_prefix ms)) (fst (pending_lists db)) (snd (pending_lists db))
      = \<lparr>si_old_root = r, si_new_root = pt_root_after (last (log_transitions (flight_prefix ms))),
         si_deposits = map record_of_move dms, si_withdrawals = map input_of_move wms\<rparr>"
proof -
  let ?pre = "flight_prefix ms"
  let ?dms = "map tr_move (filter (\<lambda>t. pd_id (tr_move t) \<in> pd_id ` set (log_deposits ?pre)) (fst (pending_lists db)))"
  let ?wms = "map tr_move (filter (\<lambda>t. pw_id (tr_move t) \<in> pw_id ` set (log_withdrawals ?pre)) (snd (pending_lists db)))"
  have split: "log_deposits ms = log_deposits ?pre @ log_deposits (flight_rest ms)"
    "log_withdrawals ms = log_withdrawals ?pre @ log_withdrawals (flight_rest ms)"
    by (metis flight_split log_parts_simps(7,8))+
  from store have "distinct (row_keys pd_id (db_deposits db))" "distinct (row_keys pw_id (db_withdrawals db))"
    and "status_moves status_pending (db_deposits db) = mset (log_deposits ms)"
    "status_moves status_pending (db_withdrawals db) = mset (log_withdrawals ms)"
    by (simp_all add: store_inv_def wf_db_def wf_rows_def table_inv_def)
  then have d: "distinct (map pd_id (log_deposits ms))" "distinct (map pw_id (log_withdrawals ms))"
    by (auto intro: pending_ids_distinct)
  note lists = pending_lists_mset [OF store]
  have "mset ?dms = mset (log_deposits ?pre)" "mset ?wms = mset (log_withdrawals ?pre)"
    by (rule prefix_selection [OF d(1) lists(1) split(1) refl], rule prefix_selection [OF d(2) lists(2) split(2) refl])
  then show ?thesis
    by (rule that) (simp add: pending_settlement_input_def selected_ids_log)
qed

lemma build_pending_batch_run:
  assumes "sv_repo s \<noteq> None" and "get_or_init_cursor s = (s1, Inr c)" and "cu_committed_root c = r"
    and "list_pending_settlement s1 = (s1, Inr (ds, ws))" and "\<not> (ds = [] \<and> ws = [])"
    and "order_pending_transitions r ds ws = Inr ordered"
    and "pending_settlement_input r (bound_single_withdrawal_prefix ordered) ds ws = inp"
    and "settlement_build (sv_seq s1) inp = Inr (seq, upd)"
    and "build_witness_accounts (bound_single_withdrawal_prefix ordered) accs = Inr accounts"
    and "build_witness \<lparr>wt_settlement = inp, wt_accounts = accounts, wt_state_path = []\<rparr> = Inr wit"
    and "sv_repo s1 = Some db"
    and "mark_included (su_batch_id upd) (map dep_id (si_deposits inp))
           (map (wr_id \<circ> wn_request) (si_withdrawals inp)) db = (db', Inr ())"
  shows "build_pending_batch accs s = (s1\<lparr>sv_seq := seq, sv_repo := Some db'\<rparr>,
    Inr \<lparr>bo_update = upd, bo_commitments = build_commitments upd, bo_witness = wit\<rparr>)"
  using assms by (auto simp: build_pending_batch_def sv_bind_def with_repo_def Let_def)

lemma loop_build_full:
  assumes inv: "loop_inv s s0 None ms" and ne: "ms \<noteq> []" and rd: "roots_distinct s0 ms"
    and ok: "buildable den secrets (flight_prefix ms)" and sec: "index_account_secrets accs = Inr secrets"
  shows "\<exists>s' out s1 dms wms ps. build_pending_batch accs s = (s', Inr out)
    \<and> bo_witness out = \<lparr>wit_accounts = map (party_witness secrets s0 (map input_of_move wms) s1) ps, wit_state_path = []\<rparr>
    \<and> fst ` set ps = pt_owner ` set (log_transitions (flight_prefix ms))
    \<and> log_run s0 (flight_prefix ms) s1
    \<and> mset dms = mset (log_deposits (flight_prefix ms)) \<and> mset wms = mset (log_withdrawals (flight_prefix ms))
    \<and> bo_update out = batch_update (sv_seq s + 1) (ls_root s0) (ls_root s1) (map record_of_move dms) (map input_of_move wms)
    \<and> bo_commitments out = build_commitments (bo_update out)
    \<and> sv_manager s' = sv_manager s \<and> sv_seq s' = sv_seq s + 1
    \<and> loop_inv s' s0 (Some (su_batch_id (bo_update out), flight_prefix ms)) (flight_rest ms)"
proof -
  let ?pre = "flight_prefix ms"
  obtain sv c db where cur: "get_or_init_cursor s = (sv, Inr c)"
    and inv1: "loop_inv sv s0 None ms" "sv_manager sv = sv_manager s" "sv_seq sv = sv_seq s"
    and db: "sv_repo sv = Some db" and c: "cu_committed_root c = ls_root s0"
    using get_or_init_cursor_inv [OF inv refl] unfolding get_or_init_cursor_def manager_root_def by metis
  from inv have repo: "sv_repo s \<noteq> None" and wf: "wf_local s0" and hex: "hex_value (ls_root s0)"
    and run: "log_run s0 ms (mg_ls (sv_manager s))" by (auto simp: loop_inv_def)
  from inv1 db have store: "store_inv (mg_ls (sv_manager s)) db None ms" by (auto simp: loop_inv_def)
  then have q: "db_quiet db" by (simp add: store_inv_def)
  obtain s1 where s1: "log_run s0 ?pre s1" "log_run s1 (flight_rest ms) (mg_ls (sv_manager s))"
    using run log_run_append [of s0 ?pre "flight_rest ms"] by (auto simp: flight_split)
  have pne: "?pre \<noteq> []" by (rule flight_prefix_not_Nil [OF ne])
  have root1: "ls_root s1 = pt_root_after (last (log_transitions ?pre))"
    using log_run_chain [OF s1(1)] pne by simp
  have "ls_root s1 \<in> pt_root_after ` set (log_transitions ms)"
  proof -
    have "log_transitions ?pre \<noteq> []" using pne by (simp add: log_transitions_def)
    then have "last (log_transitions ?pre) \<in> set (log_transitions ?pre)" by (rule last_in_set)
    moreover have "set (log_transitions ?pre) \<subseteq> set (log_transitions ms)"
      by (metis flight_split log_transitions_def map_append set_append sup_ge1)
    ultimately show ?thesis unfolding root1 by blast
  qed
  with rd have rne: "ls_root s0 \<noteq> ls_root s1" by (auto simp: roots_distinct_def)
  obtain dms wms where perm: "mset dms = mset (log_deposits ?pre)" "mset wms = mset (log_withdrawals ?pre)"
    and inp: "pending_settlement_input r (log_transitions ?pre) (fst (pending_lists db)) (snd (pending_lists db))
      = \<lparr>si_old_root = r, si_new_root = ls_root s1, si_deposits = map record_of_move dms,
         si_withdrawals = map input_of_move wms\<rparr>" for r
    using pending_input_log [OF store] unfolding root1 by metis
  let ?deps = "map record_of_move dms" and ?ws = "map input_of_move wms"
  let ?inp = "\<lparr>si_old_root = ls_root s0, si_new_root = ls_root s1, si_deposits = ?deps, si_withdrawals = ?ws\<rparr>"
  let ?upd = "batch_update (sv_seq s + 1) (ls_root s0) (ls_root s1) ?deps ?ws"
  have valid: "inputs_valid ?inp" by (rule prefix_inputs_valid [OF s1(1) wf hex pne ok rne perm])
  have facts: "batch_facts secrets s0 ?deps ?ws s1"
    by (rule prefix_batch_facts [OF s1(1) wf ok index_account_secrets_ok [OF sec] perm])
  obtain owners where owners: "set owners = pt_owner ` set (log_transitions ?pre)"
    and accs: "build_witness_accounts (log_transitions ?pre) accs = Inr (map (\<lambda>p. \<lparr>aw_owner = fst p,
        aw_user_secret = resolve_secret secrets (fst p),
        aw_old_balance = acc_balance (local_account s0 (fst p) (snd p)),
        aw_new_balance = acc_balance (local_account s1 (fst p) (snd p))\<rparr>) (map (\<lambda>ow. (ow, den)) owners))"
    and trim: "\<forall>ow \<in> set owners. trim_space ow = ow \<and> ow \<noteq> []"
    by (rule prefix_witness_accounts [OF s1(1) wf ok sec])
  let ?ps = "map (\<lambda>ow. (ow, den)) owners"
  have sets: "set dms = set (log_deposits ?pre)" "set wms = set (log_withdrawals ?pre)"
    using perm by (metis mset_eq_setD)+
  from ok have den: "trim_space den = den" by (simp add: buildable_def)
  have good: "(\<forall>d \<in> set dms. good_deposit den (record_of_move d)) \<and> (\<forall>w \<in> set wms. good_withdrawal den (input_of_move w))"
    using log_run_good [OF s1(1) wf _ den] ok sets by (simp add: buildable_def)
  have ps: "?ps \<noteq> []" "set ?ps \<subseteq> trim_pair ` set (batch_parties ?deps (map wn_request ?ws))"
      "\<forall>p \<in> set ?ps. fst p \<noteq> [] \<and> snd p \<noteq> []"
  proof -
    show ne: "?ps \<noteq> []" using owners pne by (auto simp: log_transitions_def)
    have mem: "(ow, den) \<in> trim_pair ` set (batch_parties ?deps (map wn_request ?ws))" if "ow \<in> set owners" for ow
    proof -
      from that owners have "ow \<in> pd_owner ` set dms \<union> pw_owner ` set wms" by (simp add: log_owners sets)
      then have "(ow, den) \<in> set (batch_parties ?deps (map wn_request ?ws))"
        using good by (auto simp: batch_parties_def record_of_move_def input_of_move_def request_of_move_def
            good_deposit_def good_withdrawal_def)
      moreover have "trim_pair (ow, den) = (ow, den)" using trim that den by (simp add: trim_pair_def)
      ultimately show ?thesis by (metis imageI)
    qed
    then show "set ?ps \<subseteq> trim_pair ` set (batch_parties ?deps (map wn_request ?ws))" by auto
    have "den \<noteq> []" using valid good by (auto simp: inputs_valid_def good_deposit_def good_withdrawal_def)
    with trim show "\<forall>p \<in> set ?ps. fst p \<noteq> [] \<and> snd p \<noteq> []" by auto
  qed
  note wit = witness_of_parties [OF facts valid ps refl]
  have ids: "set (map dep_id ?deps) = pd_id ` set (log_deposits ?pre)"
    "set (map (wr_id \<circ> wn_request) ?ws) = pw_id ` set (log_withdrawals ?pre)"
    using sets by (force simp: record_of_move_def input_of_move_def request_of_move_def)+
  obtain db' where inc: "mark_included (su_batch_id ?upd) (map dep_id ?deps) (map (wr_id \<circ> wn_request) ?ws) db = (db', Inr ())"
    "db_cursors db' = db_cursors db"
    "store_inv (mg_ls (sv_manager s)) db' (Some (su_batch_id ?upd, ?pre)) (flight_rest ms)"
    using include_flight [OF store ids] by blast
  let ?out = "\<lparr>bo_update = ?upd, bo_commitments = build_commitments ?upd,
    bo_witness = \<lparr>wit_accounts = map (party_witness secrets s0 ?ws s1) ?ps, wit_state_path = []\<rparr>\<rparr>"
  let ?s' = "sv\<lparr>sv_seq := sv_seq s + 1, sv_repo := Some db'\<rparr>"
  have nonempty: "\<not> (fst (pending_lists db) = [] \<and> snd (pending_lists db) = [])"
  proof
    assume "fst (pending_lists db) = [] \<and> snd (pending_lists db) = []"
    with pending_lists_mset [OF store] have "log_deposits ms = []" "log_withdrawals ms = []" by simp_all
    with ne show False by (cases ms; cases "hd ms") auto
  qed
  have "build_pending_batch accs s = (?s', Inr ?out)"
  proof (rule build_pending_batch_run [OF repo cur c _ nonempty order_pending_log [OF store run wf hex rd]])
    show "list_pending_settlement sv = (sv, Inr (fst (pending_lists db), snd (pending_lists db)))"
      using list_pending_quiet [OF db q] by simp
    show "pending_settlement_input (ls_root s0) (bound_single_withdrawal_prefix (log_transitions ms))
        (fst (pending_lists db)) (snd (pending_lists db)) = ?inp"
      unfolding flight_prefix_bound [symmetric] by (rule inp)
    show "settlement_build (sv_seq sv) ?inp = Inr (sv_seq s + 1, ?upd)"
      using valid inv1(3) by (simp add: settlement_build_eq batch_update_def)
  qed (use accs wit db inc(1) in \<open>simp_all add: flight_prefix_bound [symmetric]\<close>)
  moreover have "loop_inv ?s' s0 (Some (su_batch_id ?upd, ?pre)) (flight_rest ms)"
    using inv1 db inc pne c run wf hex
    by (auto simp: loop_inv_def cursor_inv_def flight_split split: option.splits)
  ultimately show ?thesis
    using s1(1) perm inv1(2)
    by (intro exI [of _ ?s'] exI [of _ ?out] exI [of _ s1] exI [of _ dms] exI [of _ wms] exI [of _ ?ps])
      (simp add: owners image_image)
qed

lemma loop_build:
  assumes "loop_inv s s0 None ms" and "ms \<noteq> []" and "roots_distinct s0 ms"
    and "buildable den secrets (flight_prefix ms)" and "index_account_secrets accs = Inr secrets"
  shows "\<exists>s' out s1 dms wms. build_pending_batch accs s = (s', Inr out)
    \<and> log_run s0 (flight_prefix ms) s1
    \<and> mset dms = mset (log_deposits (flight_prefix ms)) \<and> mset wms = mset (log_withdrawals (flight_prefix ms))
    \<and> bo_update out = batch_update (sv_seq s + 1) (ls_root s0) (ls_root s1) (map record_of_move dms) (map input_of_move wms)
    \<and> bo_commitments out = build_commitments (bo_update out)
    \<and> sv_manager s' = sv_manager s \<and> sv_seq s' = sv_seq s + 1
    \<and> loop_inv s' s0 (Some (su_batch_id (bo_update out), flight_prefix ms)) (flight_rest ms)"
  using loop_build_full [OF assms] by blast

end
