(* ===== verification/Settlement_Recovery.thy ===== *)
theory Settlement_Recovery
  imports Settlement_Loop
begin

text \<open>
  What happens to a batch after it was built: it is committed, cancelled or failed; and what happens
  to the mirror when the process restarts. Committing and cancelling close the loop of
  \<open>Settlement_Loop\<close>: the invariant holds again, with the base moved to the committed state or with
  the moves pending again. A failed batch leaves the loop: its moves are neither pending nor
  reopenable, and the moves behind them can no longer be reached from the committed root.
\<close>

subsection \<open>Commit\<close>

lemma table_inv_commit:
  assumes "table_inv (Some b) inc rest rows"
  shows "table_inv None {#} rest (settle_rows b status_committed tx msg rows)"
proof -
  have r: "\<forall>r \<in> set rows. row_status r = status_pending \<longrightarrow> row_batch_id r = None"
    "\<forall>r \<in> set rows. row_status r = status_included \<longrightarrow> row_batch_id r = Some b"
    using assms by (simp_all add: table_inv_def)
  note m = status_moves_settle [OF r, of status_committed tx msg]
  have "\<forall>r \<in> set (settle_rows b status_committed tx msg rows). row_status r \<noteq> status_included"
    "\<forall>r \<in> set (settle_rows b status_committed tx msg rows). row_status r = status_pending \<longrightarrow> row_batch_id r = None"
    using r by (auto simp: settle_rows_map)
  with m assms show ?thesis by (simp add: table_inv_def)
qed

lemma mark_by_batch_quiet:
  "db_quiet db \<Longrightarrow> mark_by_batch b st tx msg db = (db\<lparr>db_deposits := settle_rows b st tx msg (db_deposits db),
     db_withdrawals := settle_rows b st tx msg (db_withdrawals db)\<rparr>, Inr ())"
  by (simp add: mark_by_batch_ready db_quiet_ready db_quiet_next)

lemma row_moves_map: "(\<And>r. row_move (f r) = row_move r) \<Longrightarrow> row_move ` set (map f rows) = row_move ` set rows"
  by (simp add: image_image)

lemma settle_rows_keys:
  "row_keys key (settle_rows b st tx msg rows) = row_keys key rows"
  "row_move ` set (settle_rows b st tx msg rows) = row_move ` set rows"
  unfolding settle_rows_map by (rule row_keys_map, simp) (rule row_moves_map, simp)

lemma known_rows_moves:
  "known_rows ls db \<longleftrightarrow> pd_id ` row_move ` set (db_deposits db) \<subseteq> ls_deposits ls
     \<and> pw_nullifier ` row_move ` set (db_withdrawals db) \<subseteq> ls_nullifiers ls"
  by (auto simp: known_rows_def row_keys_def)

lemma loop_commit:
  assumes inv: "loop_inv s s0 (Some (b, pre)) rest" and run: "log_run s0 pre s1"
  shows "\<exists>s'. commit_batch b tx (ls_root s1) s = (s', Inr ()) \<and> loop_inv s' s1 None rest
    \<and> sv_manager s' = sv_manager s"
proof -
  from inv obtain db where db: "sv_repo s = Some db"
    and store: "store_inv (mg_ls (sv_manager s)) db (Some (b, pre)) rest"
    and cur: "cursor_inv (sv_cursor_name s) db (ls_root s0) False" and pne: "pre \<noteq> []"
    by (auto simp: loop_inv_def)
  then have q: "db_quiet db" and n: "sv_cursor_name s \<noteq> []" by (simp_all add: store_inv_def cursor_inv_def)
  from cur obtain c where c: "db_cursors db (sv_cursor_name s) = Some c" "cu_name c = sv_cursor_name s"
    by (auto simp: cursor_inv_def split: option.splits)
  let ?db1 = "db\<lparr>db_deposits := settle_rows b status_committed tx [] (db_deposits db),
     db_withdrawals := settle_rows b status_committed tx [] (db_withdrawals db)\<rparr>"
  let ?c = "c\<lparr>cu_committed_root := ls_root s1, cu_pending_root := ls_root s1, cu_last_batch_id := b\<rparr>"
  let ?db2 = "?db1\<lparr>db_cursors := (db_cursors db)(sv_cursor_name s \<mapsto> ?c)\<rparr>"
  have mark: "mark_committed b tx db = (?db1, Inr ())"
    by (simp add: mark_committed_def mark_by_batch_quiet [OF q])
  have get: "get_or_init_cursor (s\<lparr>sv_repo := Some ?db1\<rparr>) = (s\<lparr>sv_repo := Some ?db1\<rparr>, Inr c)"
    using get_or_init_cursor_quiet [of "s\<lparr>sv_repo := Some ?db1\<rparr>" ?db1] q n c
    by (simp add: get_or_init_cursor_def)
  have ups: "upsert_cursor ?c ?db1 = (?db2, Inr ())" using upsert_cursor_quiet [of ?db1 ?c] q n c by simp
  have commit: "commit_batch b tx (ls_root s1) s = (s\<lparr>sv_repo := Some ?db2\<rparr>, Inr ())"
    using db mark get ups by (simp add: commit_batch_def sv_bind_def with_repo_def)
  have wf1: "wf_local s1" "root_current s1" using inv log_run_wf [OF run] pne by (auto simp: loop_inv_def)
  have tail: "log_run s1 rest (mg_ls (sv_manager s))"
    using log_run_append [of s0 pre rest] loop_inv_run [OF inv] run log_run_ops by (fastforce dest: log_run_ops)
  have "wf_db ?db1" using mark_by_batch_wf [OF mark_by_batch_quiet [OF q]] store by (simp add: store_inv_def)
  then have "store_inv (mg_ls (sv_manager s)) ?db2 None rest"
    using store table_inv_commit [of b "mset (log_deposits pre)" "mset (log_deposits rest)" "db_deposits db" tx "[]"]
      table_inv_commit [of b "mset (log_withdrawals pre)" "mset (log_withdrawals rest)" "db_withdrawals db" tx "[]"]
    by (simp add: store_inv_def known_rows_moves settle_rows_keys wf_db_def)
  then have "loop_inv (s\<lparr>sv_repo := Some ?db2\<rparr>) s1 None rest"
    using wf1 root_current_hex [OF wf1(2)] tail n c by (auto simp: loop_inv_def cursor_inv_def)
  with commit show ?thesis by (intro exI [of _ "s\<lparr>sv_repo := Some ?db2\<rparr>"]) simp
qed

subsection \<open>Cancellation\<close>

lemma table_inv_reopen:
  assumes "table_inv (Some b) inc rest rows"
  shows "table_inv None {#} (inc + rest) (fst (reopen_rows b msg rows))"
proof -
  have r: "\<forall>r \<in> set rows. row_status r = status_included \<longrightarrow> row_batch_id r = Some b"
    using assms by (simp add: table_inv_def)
  note m = status_moves_reopen [OF r, of msg]
  have "\<forall>r \<in> set (fst (reopen_rows b msg rows)). row_status r \<noteq> status_included"
    "\<forall>r \<in> set (fst (reopen_rows b msg rows)). row_status r = status_pending \<longrightarrow> row_batch_id r = None"
    using assms by (auto simp: table_inv_def reopen_rows_map)
  with m assms show ?thesis by (simp add: table_inv_def)
qed

lemma reopen_rows_moves: "row_move ` set (fst (reopen_rows b msg rows)) = row_move ` set rows"
  unfolding reopen_rows_map by (rule row_moves_map) simp

lemma loop_cancel:
  assumes inv: "loop_inv s s0 (Some (b, pre)) rest"
  shows "\<exists>s'. cancel_included_batch b reason s = (s', Inr ()) \<and> loop_inv s' s0 None (pre @ rest)
    \<and> sv_manager s' = sv_manager s"
proof -
  from inv obtain db where db: "sv_repo s = Some db"
    and store: "store_inv (mg_ls (sv_manager s)) db (Some (b, pre)) rest"
    and cur: "cursor_inv (sv_cursor_name s) db (ls_root s0) False" and pne: "pre \<noteq> []"
    by (auto simp: loop_inv_def)
  then have q: "db_quiet db" by (simp add: store_inv_def)
  let ?db1 = "db\<lparr>db_deposits := fst (reopen_rows b reason (db_deposits db)),
     db_withdrawals := fst (reopen_rows b reason (db_withdrawals db))\<rparr>"
  have "log_deposits pre \<noteq> [] \<or> log_withdrawals pre \<noteq> []"
    using pne by (cases pre; cases "hd pre") auto
  moreover have "snd (reopen_rows b reason (db_deposits db)) = length (log_deposits pre)"
    "snd (reopen_rows b reason (db_withdrawals db)) = length (log_withdrawals pre)"
    using store by (subst reopen_affected; simp add: store_inv_def table_inv_def)+
  ultimately have re: "reopen_included b reason db = (?db1, Inr ())"
    by (auto simp: reopen_included_eq [OF db_quiet_ready [OF q]] db_quiet_next [OF q])
  have "wf_db ?db1" using reopen_included_wf [OF re] store by (simp add: store_inv_def)
  then have "store_inv (mg_ls (sv_manager s)) ?db1 None (pre @ rest)"
    using store table_inv_reopen [of b _ _ "db_deposits db" reason] table_inv_reopen [of b _ _ "db_withdrawals db" reason]
    by (simp add: store_inv_def known_rows_moves reopen_rows_moves)
  then have "loop_inv (s\<lparr>sv_repo := Some ?db1\<rparr>) s0 None (pre @ rest)"
    using inv cur by (auto simp: loop_inv_def cursor_inv_def split: option.splits)
  moreover have "cancel_included_batch b reason s = (s\<lparr>sv_repo := Some ?db1\<rparr>, Inr ())"
    using db re by (simp add: cancel_included_batch_def with_repo_def)
  ultimately show ?thesis by (intro exI [of _ "s\<lparr>sv_repo := Some ?db1\<rparr>"]) simp
qed

subsection \<open>A second batch, and a failed one\<close>

text \<open>
  No pending move starts at the committed root: the builder refuses, and nothing changes.
\<close>

lemma build_blocked:
  assumes "sv_repo s = Some db" and "db_quiet db" and "sv_cursor_name s \<noteq> []"
    and "db_cursors db (sv_cursor_name s) = Some c"
    and "all_transitions (fst (pending_lists db)) (snd (pending_lists db)) = ts" and "ts \<noteq> []"
    and "cu_committed_root c \<notin> pt_root_before ` set ts"
  shows "build_pending_batch accs s = (s, Inl ErrInvalidPendingSettlement)"
proof -
  have cur: "get_or_init_cursor s = (s, Inr c)"
    using get_or_init_cursor_quiet [OF assms(1-3)] assms(4) by (simp add: get_or_init_cursor_def)
  have list: "list_pending_settlement s = (s, Inr (pending_lists db))"
    by (rule list_pending_quiet [OF assms(1,2)])
  have ne: "\<not> (fst (pending_lists db) = [] \<and> snd (pending_lists db) = [])"
    using assms(5,6) by (auto simp: all_transitions_def)
  have "order_pending_transitions (cu_committed_root c) (fst (pending_lists db)) (snd (pending_lists db)) \<noteq> Inr us" for us
  proof
    assume "order_pending_transitions (cu_committed_root c) (fst (pending_lists db)) (snd (pending_lists db)) = Inr us"
    then have us: "length us = length ts" "root_chain (cu_committed_root c) us" "set us \<subseteq> set ts"
      using assms(5) by (auto simp: order_pending_Inr)
    with assms(6) obtain u us' where "us = u # us'" by (cases us) auto
    with us have "cu_committed_root c \<in> pt_root_before ` set ts"
      by (intro image_eqI [of _ _ u]) simp_all
    with assms(7) show False by contradiction
  qed
  then have order: "order_pending_transitions (cu_committed_root c) (fst (pending_lists db)) (snd (pending_lists db))
    = Inl ErrInvalidPendingSettlement"
    using order_pending_Inl by (metis sum.exhaust)
  show ?thesis
    using assms(1) cur list ne order by (auto simp: build_pending_batch_def sv_bind_def split: prod.split)
qed

lemma all_transitions_moves:
  "all_transitions ds ws = map deposit_transition (map tr_move ds) @ map withdrawal_transition (map tr_move ws)"
  by (simp add: all_transitions_def)

lemma pending_transitions_log:
  assumes "store_inv ls db fl rest"
  shows "set (all_transitions (fst (pending_lists db)) (snd (pending_lists db))) = set (log_transitions rest)"
proof -
  have "mset (all_transitions ds ws) = image_mset deposit_transition (mset (map tr_move ds))
      + image_mset withdrawal_transition (mset (map tr_move ws))" for ds ws
    by (simp add: all_transitions_def image_mset.compositionality)
  then have "mset (log_transitions rest) = mset (all_transitions (fst (pending_lists db)) (snd (pending_lists db)))"
    unfolding log_parts_mset using pending_lists_mset [OF assms] by simp
  then show ?thesis by (metis mset_eq_setD)
qed

text \<open>The moves behind a batch do not start at the root the batch starts from.\<close>

definition no_return :: "local_state \<Rightarrow> logged list \<Rightarrow> bool" where
  "no_return s0 ms \<longleftrightarrow> ls_root s0 \<notin> pt_root_after ` set (log_transitions ms)"

lemma chain_before_after:
  "root_chain r ts \<Longrightarrow> pt_root_before ` set ts \<subseteq> insert r (pt_root_after ` set ts)"
proof (induction ts arbitrary: r)
  case (Cons t ts)
  then have "pt_root_before ` set ts \<subseteq> insert (pt_root_after t) (pt_root_after ` set ts)" by simp
  with Cons.prems show ?case by auto
qed simp

lemma insert_covered: "x \<in> A \<Longrightarrow> X \<subseteq> insert x B \<Longrightarrow> X \<subseteq> A \<union> B"
  by blast

lemma rest_unreachable:
  assumes run: "log_run s0 (pre @ rest) s2" and pre: "pre \<noteq> []" and nr: "no_return s0 (pre @ rest)"
  shows "ls_root s0 \<notin> pt_root_before ` set (log_transitions rest)"
proof -
  from run obtain s1 where s1: "log_run s0 pre s1" "log_run s1 rest s2" by (auto simp: log_run_append)
  have "log_transitions pre \<noteq> []" using pre by (simp add: log_transitions_def)
  then have "ls_root s1 \<in> pt_root_after ` set (log_transitions pre)"
    using log_run_chain [OF s1(1)] pre by simp
  moreover have "pt_root_before ` set (log_transitions rest) \<subseteq> insert (ls_root s1) (pt_root_after ` set (log_transitions rest))"
    using chain_before_after log_run_chain [OF s1(2)] by blast
  ultimately have "pt_root_before ` set (log_transitions rest)
      \<subseteq> pt_root_after ` set (log_transitions pre) \<union> pt_root_after ` set (log_transitions rest)"
    by (rule insert_covered)
  also have "\<dots> = pt_root_after ` set (log_transitions (pre @ rest))"
    by (simp add: log_transitions_def image_Un)
  finally have "pt_root_before ` set (log_transitions rest) \<subseteq> pt_root_after ` set (log_transitions (pre @ rest))" .
  with nr show ?thesis unfolding no_return_def by blast
qed

lemma loop_build_in_flight:
  assumes inv: "loop_inv s s0 (Some (b, pre)) rest" and rd: "no_return s0 (pre @ rest)" and ne: "rest \<noteq> []"
  shows "build_pending_batch accs s = (s, Inl ErrInvalidPendingSettlement)"
proof -
  from inv obtain db where db: "sv_repo s = Some db"
    and store: "store_inv (mg_ls (sv_manager s)) db (Some (b, pre)) rest"
    and cur: "cursor_inv (sv_cursor_name s) db (ls_root s0) False" and pne: "pre \<noteq> []"
    by (auto simp: loop_inv_def)
  then obtain c where c: "db_cursors db (sv_cursor_name s) = Some c" "cu_committed_root c = ls_root s0"
    and q: "db_quiet db" "sv_cursor_name s \<noteq> []"
    by (auto simp: cursor_inv_def store_inv_def split: option.splits)
  show ?thesis
  proof (rule build_blocked [OF db q c(1) refl])
    show "all_transitions (fst (pending_lists db)) (snd (pending_lists db)) \<noteq> []"
      using pending_transitions_log [OF store] ne by (auto simp: log_transitions_def)
    show "cu_committed_root c \<notin> pt_root_before ` set (all_transitions (fst (pending_lists db)) (snd (pending_lists db)))"
      unfolding pending_transitions_log [OF store] c(2)
      using rest_unreachable [OF _ pne rd] loop_inv_run [OF inv] by simp
  qed
qed

text \<open>
  After \<open>fail_batch\<close> the batch cannot be cancelled, and nothing pending can be built any more.
\<close>

lemma loop_fail_strands:
  assumes inv: "loop_inv s s0 (Some (b, pre)) rest" and rd: "no_return s0 (pre @ rest)"
  obtains s' where "fail_batch b reason s = (s', Inr ())" and "sv_manager s' = sv_manager s"
    and "cancel_included_batch b reason' s' = (s', Inl ErrOffchainSettlementRecordNotFound)"
    and "snd (build_pending_batch accs s') =
      Inl (if rest = [] then ErrNoPendingSettlementOperations else ErrInvalidPendingSettlement)"
proof -
  from inv obtain db where db: "sv_repo s = Some db"
    and store: "store_inv (mg_ls (sv_manager s)) db (Some (b, pre)) rest"
    and cur: "cursor_inv (sv_cursor_name s) db (ls_root s0) False" and pne: "pre \<noteq> []"
    by (auto simp: loop_inv_def)
  then obtain c where c: "db_cursors db (sv_cursor_name s) = Some c" "cu_committed_root c = ls_root s0"
    and q: "db_quiet db" "sv_cursor_name s \<noteq> []"
    by (auto simp: cursor_inv_def store_inv_def split: option.splits)
  let ?db1 = "db\<lparr>db_deposits := settle_rows b status_failed [] reason (db_deposits db),
     db_withdrawals := settle_rows b status_failed [] reason (db_withdrawals db)\<rparr>"
  let ?s1 = "s\<lparr>sv_repo := Some ?db1\<rparr>"
  have q1: "db_quiet ?db1" using q by simp
  have mark: "mark_failed b reason db = (?db1, Inr ())"
    by (simp add: mark_failed_def mark_by_batch_quiet [OF q(1)])
  have fail: "fail_batch b reason s = (?s1, Inr ())" using db mark by (simp add: fail_batch_def with_repo_def)
  have "reopen_included b reason' ?db1 = (?db1, Inl ErrOffchainSettlementRecordNotFound)"
    using failed_not_reopened [OF mark db_quiet_ready [OF q1], of reason'] by (simp add: db_quiet_next [OF q1])
  then have cancel: "cancel_included_batch b reason' ?s1 = (?s1, Inl ErrOffchainSettlementRecordNotFound)"
    by (simp add: cancel_included_batch_def with_repo_def)
  have unb: "pending_unbatched db" using store by (simp add: pending_unbatched_def store_inv_def table_inv_def)
  have moves: "pending_moves (db_collation db) key (settle_rows b status_failed [] reason rows) = pending_moves (db_collation db) key rows"
    if "\<forall>r \<in> set rows. row_status r = status_pending \<longrightarrow> row_batch_id r = None" for key :: "'x \<Rightarrow> string" and rows
    using that by (intro settle_pending_moves) auto
  have lists: "map tr_move (fst (pending_lists ?db1)) = map tr_move (fst (pending_lists db))"
    "map tr_move (snd (pending_lists ?db1)) = map tr_move (snd (pending_lists db))"
    using unb by (simp_all add: pending_lists_moves moves pending_unbatched_def)
  have all: "all_transitions (fst (pending_lists ?db1)) (snd (pending_lists ?db1))
    = all_transitions (fst (pending_lists db)) (snd (pending_lists db))"
    unfolding all_transitions_moves lists ..
  have "snd (build_pending_batch accs ?s1) =
      Inl (if rest = [] then ErrNoPendingSettlementOperations else ErrInvalidPendingSettlement)"
  proof (cases "rest = []")
    case False
    have "build_pending_batch accs ?s1 = (?s1, Inl ErrInvalidPendingSettlement)"
    proof (rule build_blocked [of _ ?db1])
      show "all_transitions (fst (pending_lists ?db1)) (snd (pending_lists ?db1)) \<noteq> []"
        unfolding all using pending_transitions_log [OF store] False by (auto simp: log_transitions_def)
      show "cu_committed_root c \<notin> pt_root_before ` set (all_transitions (fst (pending_lists ?db1)) (snd (pending_lists ?db1)))"
        unfolding all pending_transitions_log [OF store] c(2)
        using rest_unreachable [OF _ pne rd] loop_inv_run [OF inv] by simp
    qed (use q1 q c in simp_all)
    with False show ?thesis by simp
  next
    case True
    with pending_lists_mset [OF store] lists have e: "fst (pending_lists ?db1) = []" "snd (pending_lists ?db1) = []"
      by simp_all
    have cur1: "get_or_init_cursor ?s1 = (?s1, Inr c)"
      using get_or_init_cursor_quiet [of ?s1 ?db1] q q1 c by (simp add: get_or_init_cursor_def)
    have "pending_lists ?db1 = ([], [])" using e by (cases "pending_lists ?db1") simp
    then have "list_pending_settlement ?s1 = (?s1, Inr ([], []))"
      using list_pending_quiet [of ?s1 ?db1] q1 by simp
    with True cur1 show ?thesis by (simp add: build_pending_batch_def sv_bind_def)
  qed
  with fail cancel show ?thesis by (intro that [of ?s1]) simp_all
qed

subsection \<open>Deposits in any order\<close>

definition deposit_shape :: "deposit_record \<Rightarrow> bool" where
  "deposit_shape d \<longleftrightarrow> dep_id d \<noteq> [] \<and> dep_owner d \<noteq> [] \<and> dep_denom d \<noteq> []
     \<and> is_ok (parse_positive_amount (dep_amount d)) \<and> trim_space (dep_owner d) \<noteq> [] \<and> trim_space (dep_denom d) \<noteq> []"

definition credited :: "deposit_record list \<Rightarrow> ledger \<Rightarrow> ledger" where
  "credited ds L k = (if k \<in> (op_key \<circ> OpDeposit) ` set ds
     then Some (bal_of L k + deposited k (map OpDeposit ds), nonce_of L k) else L k)"

lemma credited_Cons:
  "credited ds (ledger_credit (op_key (OpDeposit d)) (op_amount (OpDeposit d)) L) = credited (d # ds) L"
proof
  fix k
  have "deposited k (map OpDeposit ds) = 0" if "k \<notin> (op_key \<circ> OpDeposit) ` set ds" for k
    using that by (induction ds) auto
  then show "credited ds (ledger_credit (op_key (OpDeposit d)) (op_amount (OpDeposit d)) L) k = credited (d # ds) L k"
    by (auto simp: credited_def ledger_credit_def image_iff simp del: op_key.simps op_amount.simps)
qed

lemma spec_deposits_run:
  "fold_res spec_op M (map OpDeposit ds) = Inr M' \<longleftrightarrow> list_all deposit_shape ds \<and> distinct (map dep_id ds)
     \<and> dep_id ` set ds \<inter> mi_deposits M = {}
     \<and> M' = M\<lparr>mi_ledger := credited ds (mi_ledger M), mi_deposits := mi_deposits M \<union> dep_id ` set ds\<rparr>"
proof (induction ds arbitrary: M)
  case Nil
  have "credited [] (mi_ledger M) = mi_ledger M" by (rule ext) (simp add: credited_def)
  then show ?case by auto
next
  case (Cons d ds)
  show ?case
  proof (cases "deposit_shape d \<and> dep_id d \<notin> mi_deposits M")
    case False
    then have "spec_op M (OpDeposit d) \<noteq> Inr M1" for M1 by (auto simp: spec_deposit_Inr deposit_shape_def)
    then have "fold_res spec_op M (map OpDeposit (d # ds)) \<noteq> Inr M'" by (auto split: sum.splits)
    with False show ?thesis by auto
  next
    case True
    then have "spec_op M (OpDeposit d) = Inr (M\<lparr>mi_ledger := ledger_credit (op_key (OpDeposit d)) (op_amount (OpDeposit d)) (mi_ledger M),
              mi_deposits := insert (dep_id d) (mi_deposits M)\<rparr>)"
      by (simp only: spec_op.simps spec_deposit_Inr deposit_shape_def) simp
    with True Cons.IH show ?thesis
      by (auto simp: credited_Cons simp del: op_key.simps op_amount.simps spec_op.simps)
  qed
qed

lemma spec_deposits_perm:
  assumes "fold_res spec_op M (map OpDeposit ds) = Inr M'" and "mset es = mset ds"
  shows "fold_res spec_op M (map OpDeposit es) = Inr M'"
proof -
  have "set es = set ds" "distinct (map dep_id es) = distinct (map dep_id ds)"
    using assms(2) by (metis mset_eq_setD, metis mset_eq_imp_distinct_iff mset_map)
  moreover have "deposited k (map OpDeposit es) = deposited k (map OpDeposit ds)" for k
    using assms(2) by (intro deposited_perm) simp
  then have "credited es (mi_ledger M) = credited ds (mi_ledger M)"
    using calculation(1) by (simp add: credited_def fun_eq_iff)
  ultimately show ?thesis using assms(1) by (simp add: spec_deposits_run list_all_iff)
qed

subsection \<open>Rehydration\<close>

lemma rehydrate_deposits_run:
  "fold_res op_apply (mg_ls m) (map (\<lambda>t. OpDeposit (record_of_move (tr_move t))) ts) = Inr ls' \<Longrightarrow>
     mg_ls (foldl rehydrate_deposit m ts) = ls'"
proof (induction ts arbitrary: m)
  case Nil
  then show ?case by simp
next
  case (Cons t ts)
  then obtain s1 root where a: "apply_deposit (mg_ls m) (record_of_move (tr_move t)) = Inr (s1, root)"
    "fold_res op_apply s1 (map (\<lambda>t. OpDeposit (record_of_move (tr_move t))) ts) = Inr ls'"
    by (auto split: sum.splits)
  from a(1) have "mg_ls (rehydrate_deposit m t) = s1"
    by (simp add: rehydrate_deposit_def record_of_move_def [symmetric] manager_apply_deposit_def)
  with Cons.IH [of "rehydrate_deposit m t"] a(2) show ?case by simp
qed

lemma rehydrate_withdrawals_run:
  "fold_res op_apply (mg_ls m) (map (\<lambda>t. OpWithdraw (request_of_move (tr_move t)) (pw_nullifier (tr_move t))) ts) = Inr ls' \<Longrightarrow>
     mg_ls (foldl rehydrate_withdrawal m ts) = ls'"
proof (induction ts arbitrary: m)
  case Nil
  then show ?case by simp
next
  case (Cons t ts)
  then obtain s1 root where a: "apply_withdrawal (mg_ls m) (request_of_move (tr_move t)) (pw_nullifier (tr_move t)) = Inr (s1, root)"
    "fold_res op_apply s1 (map (\<lambda>t. OpWithdraw (request_of_move (tr_move t)) (pw_nullifier (tr_move t))) ts) = Inr ls'"
    by (auto split: sum.splits)
  from a(1) have "mg_ls (rehydrate_withdrawal m t) = s1"
    by (simp add: rehydrate_withdrawal_def manager_apply_withdraw_request_def)
  with Cons.IH [of "rehydrate_withdrawal m t"] a(2) show ?case by simp
qed

lemma rehydrate_quiet:
  assumes "sv_repo s = Some db" and "db_quiet db"
  shows "rehydrate_from_store s = (s\<lparr>sv_manager := foldl rehydrate_withdrawal
     (foldl rehydrate_deposit (sv_manager s) (fst (pending_lists db))) (snd (pending_lists db))\<rparr>, Inr ())"
proof -
  have "s\<lparr>sv_repo := Some db\<rparr> = s" using assms(1) by (cases s) simp
  with assms show ?thesis
    by (simp add: rehydrate_from_store_def sv_bind_def with_repo_def list_pending_deposits_def
        list_pending_withdrawals_def db_call_quiet pending_lists_def Let_def)
qed

lemma filter_log_ops:
  "filter is_deposit_op (map logged_op ms) = map OpDeposit (map record_of_move (log_deposits ms))"
  "filter (\<lambda>x. \<not> is_deposit_op x) (map logged_op ms)
     = map (\<lambda>w. OpWithdraw (request_of_move w) (pw_nullifier w)) (log_withdrawals ms)"
proof (induction ms)
  case (Cons m ms)
  case 1
  show ?case using Cons by (cases m) simp_all
  case 2
  show ?case using Cons by (cases m) simp_all
qed simp_all

text \<open>What is replayed, whatever is skipped, adds the keys of the rows that are listed and no others.\<close>

lemma rehydrate_deposit_adds:
  "ls_deposits (mg_ls (foldl rehydrate_deposit m ts)) \<subseteq> ls_deposits (mg_ls m) \<union> pd_id ` set (map tr_move ts)
   \<and> ls_nullifiers (mg_ls (foldl rehydrate_deposit m ts)) = ls_nullifiers (mg_ls m)"
proof (induction ts arbitrary: m)
  case (Cons t ts)
  have "ls_deposits (mg_ls (rehydrate_deposit m t)) \<subseteq> insert (pd_id (tr_move t)) (ls_deposits (mg_ls m))
      \<and> ls_nullifiers (mg_ls (rehydrate_deposit m t)) = ls_nullifiers (mg_ls m)"
    by (auto simp: rehydrate_deposit_def manager_apply_deposit_def apply_deposit_def Let_def split: sum.splits option.splits)
  with Cons.IH [of "rehydrate_deposit m t"] show ?case by auto
qed simp

lemma rehydrate_withdrawal_adds:
  "ls_nullifiers (mg_ls (foldl rehydrate_withdrawal m ts))
     \<subseteq> ls_nullifiers (mg_ls m) \<union> trim_space ` pw_nullifier ` set (map tr_move ts)
   \<and> ls_deposits (mg_ls (foldl rehydrate_withdrawal m ts)) = ls_deposits (mg_ls m)"
proof (induction ts arbitrary: m)
  case (Cons t ts)
  have "ls_nullifiers (mg_ls (rehydrate_withdrawal m t)) \<subseteq> insert (trim_space (pw_nullifier (tr_move t))) (ls_nullifiers (mg_ls m))
      \<and> ls_deposits (mg_ls (rehydrate_withdrawal m t)) = ls_deposits (mg_ls m)"
    by (auto simp: rehydrate_withdrawal_def manager_apply_withdraw_request_def apply_withdrawal_def Let_def
        split: sum.splits option.splits if_splits)
  with Cons.IH [of "rehydrate_withdrawal m t"] show ?case by auto
qed simp

text \<open>
  A restart with nothing committed and no batch in flight: replaying the pending rows, deposits first
  and in whatever order the table lists them, gives a mirror with the same ledger, the same sets and
  the same root, provided the withdrawals are listed in the order they were applied. The process starts
  again from the manager \<open>m0\<close> it started from.
\<close>

lemma rehydrate_restores:
  assumes inv: "loop_inv s (mg_ls m0) None ms" and db: "sv_repo s = Some db"
    and order: "pending_moves (db_collation db) pw_id (db_withdrawals db) = log_withdrawals ms"
  shows "\<exists>s'. rehydrate_from_store (new_service (Some m0) (Some db)) = (s', Inr ())
    \<and> mirror_of (mg_ls (sv_manager s')) = mirror_of (mg_ls (sv_manager s))
    \<and> ls_root (mg_ls (sv_manager s')) = ls_root (mg_ls (sv_manager s))"
proof -
  let ?ls = "mg_ls (sv_manager s)" and ?s0 = "mg_ls m0"
  let ?ds = "fst (pending_lists db)" and ?ws = "snd (pending_lists db)"
  let ?dops = "map (\<lambda>t. OpDeposit (record_of_move (tr_move t))) ?ds"
  let ?wops = "map (\<lambda>t. OpWithdraw (request_of_move (tr_move t)) (pw_nullifier (tr_move t))) ?ws"
  from inv db have store: "store_inv ?ls db None ms" and run: "log_run ?s0 ms ?ls" and wf0: "wf_local ?s0"
    by (auto simp: loop_inv_def)
  then have q: "db_quiet db" by (simp add: store_inv_def)
  note ops = log_run_ops [OF run]
  have spec: "fold_res spec_op (mirror_of ?s0) (deposits_first (map logged_op ms)) = Inr (mirror_of ?ls)"
    using spec_run_deposits_first op_run_ok [OF wf0 ops] by blast
  have wops: "?wops = map (\<lambda>w. OpWithdraw (request_of_move w) (pw_nullifier w)) (log_withdrawals ms)"
    using order unfolding pending_lists_moves(2) [symmetric] by (metis (no_types, lifting) list.map_comp comp_apply map_eq_conv)
  have dperm: "mset (map record_of_move (map tr_move ?ds)) = mset (map record_of_move (log_deposits ms))"
    using pending_lists_mset(1) [OF store] by (simp only: mset_map)
  from spec obtain M1 where M1: "fold_res spec_op (mirror_of ?s0) (map OpDeposit (map record_of_move (log_deposits ms))) = Inr M1"
    "fold_res spec_op M1 ?wops = Inr (mirror_of ?ls)"
    unfolding deposits_first_def filter_log_ops fold_res_append wops by (auto split: sum.splits)
  have "fold_res spec_op (mirror_of ?s0) ?dops = Inr M1"
    using spec_deposits_perm [OF M1(1) dperm] by (simp add: comp_def)
  with M1(2) have "fold_res spec_op (mirror_of ?s0) (?dops @ ?wops) = Inr (mirror_of ?ls)"
    by (simp add: fold_res_append)
  from op_run_spec [OF wf0 this] obtain ls' where ls':
    "fold_res op_apply ?s0 (?dops @ ?wops) = Inr ls'" "mirror_of ls' = mirror_of ?ls" "wf_local ls'"
    "?dops @ ?wops \<noteq> [] \<longrightarrow> root_current ls'" by blast
  then obtain ls1 where "fold_res op_apply ?s0 ?dops = Inr ls1" "fold_res op_apply ls1 ?wops = Inr ls'"
    by (auto simp: fold_res_append split: sum.splits)
  then have m: "mg_ls (foldl rehydrate_withdrawal (foldl rehydrate_deposit m0 ?ds) ?ws) = ls'"
    using rehydrate_deposits_run [of m0 ?ds ls1] rehydrate_withdrawals_run [of "foldl rehydrate_deposit m0 ?ds" ?ws ls'] by simp
  have "ls_root ls' = ls_root ?ls"
  proof (cases "ms = []")
    case True
    with run ls'(1) pending_lists_mset [OF store] show ?thesis by simp
  next
    case False
    then have "?dops @ ?wops \<noteq> []"
      using pending_lists_mset [OF store] by (cases ms; cases "hd ms") auto
    moreover have "root_current ?ls" using log_run_wf [OF run wf0] False by simp
    ultimately show ?thesis using root_determined [OF ls'(3) loop_inv_manager(1) [OF inv]] ls'(2,4) by simp
  qed
  with m ls'(2) rehydrate_quiet [of "new_service (Some m0) (Some db)" db] q show ?thesis
    by (simp add: new_service_def)
qed

lemma logged_ids:
  "deposit_ids (map logged_op ms) = map pd_id (log_deposits ms)"
  "spent_nullifiers (map logged_op ms) = map (\<lambda>w. trim_space (pw_nullifier w)) (log_withdrawals ms)"
proof (induction ms)
  case (Cons m ms)
  case 1
  show ?case using Cons by (cases m) (simp_all add: record_of_move_def)
  case 2
  show ?case using Cons by (cases m) simp_all
qed simp_all

lemma fresh_parts:
  assumes "P \<inter> R = {}" and "(P \<union> R) \<inter> S = {}" and "L = S \<union> (P \<union> R)" and "M \<subseteq> S \<union> R"
  shows "P \<inter> M = {}" and "P \<noteq> {} \<Longrightarrow> M \<noteq> L"
  using assms by blast+

text \<open>The included rows are not replayed: a restart with a batch in flight knows nothing of its moves.\<close>

lemma rehydrate_forgets_flight:
  assumes inv: "loop_inv s (mg_ls m0) (Some (b, pre)) rest" and db: "sv_repo s = Some db"
  shows "\<exists>s'. rehydrate_from_store (new_service (Some m0) (Some db)) = (s', Inr ())
    \<and> pd_id ` set (log_deposits pre) \<inter> ls_deposits (mg_ls (sv_manager s')) = {}
    \<and> trim_space ` pw_nullifier ` set (log_withdrawals pre) \<inter> ls_nullifiers (mg_ls (sv_manager s')) = {}
    \<and> mirror_of (mg_ls (sv_manager s')) \<noteq> mirror_of (mg_ls (sv_manager s))"
proof -
  let ?ls = "mg_ls (sv_manager s)" and ?s0 = "mg_ls m0"
  let ?ds = "fst (pending_lists db)" and ?ws = "snd (pending_lists db)"
  let ?m = "foldl rehydrate_withdrawal (foldl rehydrate_deposit m0 ?ds) ?ws"
  from inv db have store: "store_inv ?ls db (Some (b, pre)) rest" and run: "log_run ?s0 (pre @ rest) ?ls"
    and wf0: "wf_local ?s0" and pne: "pre \<noteq> []" by (auto simp: loop_inv_def)
  then have q: "db_quiet db" by (simp add: store_inv_def)
  have "fold_res spec_op (mirror_of ?s0) (map logged_op (pre @ rest)) = Inr (mirror_of ?ls)"
    using op_run_ok [OF wf0 log_run_ops [OF run]] by simp
  note ids = spec_run_ids [OF this, unfolded logged_ids]
  have moves: "set (map tr_move ?ds) = set (log_deposits rest)" "set (map tr_move ?ws) = set (log_withdrawals rest)"
    using pending_lists_mset [OF store] by (metis mset_eq_setD)+
  have sub: "ls_deposits (mg_ls ?m) \<subseteq> ls_deposits ?s0 \<union> pd_id ` set (log_deposits rest)"
    "ls_nullifiers (mg_ls ?m) \<subseteq> ls_nullifiers ?s0 \<union> trim_space ` pw_nullifier ` set (log_withdrawals rest)"
    using rehydrate_deposit_adds [of m0 ?ds] rehydrate_withdrawal_adds [of "foldl rehydrate_deposit m0 ?ds" ?ws]
    unfolding moves by simp_all
  have all: "map pd_id (log_deposits (pre @ rest)) = map pd_id (log_deposits pre) @ map pd_id (log_deposits rest)"
    "map (\<lambda>w. trim_space (pw_nullifier w)) (log_withdrawals (pre @ rest))
      = map (\<lambda>w. trim_space (pw_nullifier w)) (log_withdrawals pre) @ map (\<lambda>w. trim_space (pw_nullifier w)) (log_withdrawals rest)"
    by simp_all
  note ids' = ids [unfolded all distinct_append set_append set_map mirror_of_def mirror.select_convs, folded image_image [of trim_space pw_nullifier]]
  let ?P = "pd_id ` set (log_deposits pre)" and ?R = "pd_id ` set (log_deposits rest)"
  let ?NP = "trim_space ` pw_nullifier ` set (log_withdrawals pre)" and ?NR = "trim_space ` pw_nullifier ` set (log_withdrawals rest)"
  have parts: "?P \<inter> ?R = {}" "(?P \<union> ?R) \<inter> ls_deposits ?s0 = {}" "ls_deposits ?ls = ls_deposits ?s0 \<union> (?P \<union> ?R)"
    "?NP \<inter> ?NR = {}" "(?NP \<union> ?NR) \<inter> ls_nullifiers ?s0 = {}" "ls_nullifiers ?ls = ls_nullifiers ?s0 \<union> (?NP \<union> ?NR)"
    using ids' by - (elim conjE, assumption)+
  note d = fresh_parts [OF parts(1-3) sub(1)] and w = fresh_parts [OF parts(4-6) sub(2)]
  have "?P \<noteq> {} \<or> ?NP \<noteq> {}" using pne by (cases pre; cases "hd pre") simp_all
  then have "mirror_of (mg_ls ?m) \<noteq> mirror_of ?ls" using d(2) w(2) by (auto simp only: mirror_of_def mirror.simps)
  with d(1) w(1) rehydrate_quiet [of "new_service (Some m0) (Some db)" db] q show ?thesis by (simp add: new_service_def)
qed

text \<open>Only pending rows are replayed: with none left, the restarted mirror is the empty one.\<close>

lemma rehydrate_forgets:
  assumes "loop_inv s s0 fl []" and "sv_repo s = Some db"
  shows "rehydrate_from_store (new_service None (Some db)) = (new_service None (Some db), Inr ())"
proof -
  from assms have store: "store_inv (mg_ls (sv_manager s)) db fl []" by (auto simp: loop_inv_def)
  then have q: "db_quiet db" by (simp add: store_inv_def)
  have "fst (pending_lists db) = []" "snd (pending_lists db) = []"
    using pending_lists_mset [OF store] by simp_all
  with rehydrate_quiet [of "new_service None (Some db)" db] q show ?thesis
    by (simp add: new_service_def)
qed

end
