(* ===== verification/Alice_Scenario.thy ===== *)
theory Alice_Scenario
  imports Settlement_Recovery
begin

text \<open>
  The canonical scenario of \<^verbatim>\<open>testvectors/alice_100_40\<close>: Alice deposits 100 uusdc and
  withdraws 40. The theory evaluates the model on it; the properties use it as their concrete input.
  Digests stay symbolic: only their shape is ever needed.
\<close>

definition alice_owner :: string where "alice_owner = ''cosmos1alice''"
definition alice_denom :: string where "alice_denom = ''uusdc''"

definition alice_deposit :: deposit_record where
  "alice_deposit = \<lparr>dep_id = ''dep-1'', dep_owner = alice_owner, dep_denom = alice_denom,
     dep_amount = ''100'', dep_processed = False, dep_created_height = 12345,
     dep_tx_hash = ''0x250e45522560609a604b00b437734ecd''\<rparr>"

definition alice_request :: withdraw_request where
  "alice_request = \<lparr>wr_id = ''wd-1'', wr_owner = alice_owner, wr_denom = alice_denom,
     wr_amount = ''40'', wr_destination = alice_owner, wr_nonce = ''1'', wr_signature = ''0xmocksig''\<rparr>"

definition alice_secret :: string where "alice_secret = ''alice_secret''"

definition alice_nullifier :: string where
  "alice_nullifier = sha256_hex (nullifier_preimage alice_secret 1)"

definition alice_ops :: "mirror_op list" where
  "alice_ops = [OpDeposit alice_deposit, OpWithdraw alice_request alice_nullifier]"

definition alice_after_deposit :: mirror where
  "alice_after_deposit = \<lparr>mi_ledger = [(alice_owner, alice_denom) \<mapsto> (100, 0)],
     mi_deposits = {''dep-1''}, mi_nullifiers = {}\<rparr>"

definition alice_final :: mirror where
  "alice_final = \<lparr>mi_ledger = [(alice_owner, alice_denom) \<mapsto> (60, 1)],
     mi_deposits = {''dep-1''}, mi_nullifiers = {alice_nullifier}\<rparr>"

subsection \<open>Evaluation\<close>

lemma alice_trims [simp]:
  "trim_space alice_owner = alice_owner" "trim_space alice_denom = alice_denom"
  "alice_owner \<noteq> []" "alice_denom \<noteq> []" "trim_space alice_secret = alice_secret" "alice_secret \<noteq> []"
  "trim_space ''dep-1'' = ''dep-1''" "trim_space ''wd-1'' = ''wd-1''"
  "trim_space alice_nullifier = alice_nullifier" "alice_nullifier \<noteq> []"
  by (simp_all add: trim_space_ends_eval plain_char_def alice_owner_def alice_denom_def alice_secret_def
      alice_nullifier_def)

lemma alice_amounts [simp]:
  "parse_non_negative_amount ''100'' = Inr 100" "parse_non_negative_amount ''40'' = Inr 40"
  "parse_non_negative_amount ''1'' = Inr 1"
  by (simp_all add: trim_space_ends_eval plain_char_def parse_non_negative_amount_def set_string10_def
      unsigned10_def digit_val_def)

lemma alice_positive [simp]:
  "parse_positive_amount ''100'' = Inr 100" "parse_positive_amount ''40'' = Inr 40"
  by (simp_all add: parse_positive_amount_def)

lemma alice_amount_of [simp]: "amount_of ''100'' = 100" "amount_of ''40'' = 40" "amount_of ''1'' = 1"
  by (simp_all add: amount_of_def)

lemma alice_nullifier_for: "nullifier_for alice_secret ''1'' = Inr alice_nullifier"
  by (simp add: nullifier_for_def alice_nullifier_def)

lemma alice_spec_deposit:
  "mi_ledger M = Map.empty \<Longrightarrow> mi_deposits M = {} \<Longrightarrow> mi_nullifiers M = {} \<Longrightarrow>
     spec_deposit M alice_deposit = Inr alice_after_deposit"
  by (cases M) (simp add: spec_deposit_def alice_deposit_def alice_after_deposit_def ledger_credit_def)

lemma alice_spec_withdrawal: "spec_withdrawal alice_after_deposit alice_request alice_nullifier = Inr alice_final"
  by (simp add: spec_withdrawal_def alice_request_def alice_after_deposit_def alice_final_def ledger_debit_def Let_def)

lemma mirror_of_genesis [simp]:
  "mi_ledger (mirror_of (new_local_state_with_genesis_root g)) = Map.empty"
  "mi_deposits (mirror_of (new_local_state_with_genesis_root g)) = {}"
  "mi_nullifiers (mirror_of (new_local_state_with_genesis_root g)) = {}"
  "mi_ledger (mirror_of new_local_state) = Map.empty" "mi_deposits (mirror_of new_local_state) = {}"
  "mi_nullifiers (mirror_of new_local_state) = {}"
  by (simp_all add: mirror_of_def new_local_state_with_genesis_root_def new_local_state_def)

lemma alice_run:
  obtains s where "fold_res op_apply new_local_state alice_ops = Inr s" and "mirror_of s = alice_final"
proof -
  have "fold_res spec_op (mirror_of new_local_state) alice_ops = Inr alice_final"
    by (simp add: alice_ops_def alice_spec_deposit alice_spec_withdrawal)
  from op_run_spec [OF wf_local_new this] that show ?thesis by blast
qed

text \<open>The mirror with a configured genesis root, and Alice's deposit on it.\<close>

definition genesis_root :: string where "genesis_root = ''0xaa''"

definition genesis :: local_state where "genesis = new_local_state_with_genesis_root genesis_root"

lemma genesis_wf [simp]: "wf_local genesis"
  by (simp add: genesis_def)

lemma genesis_facts [simp]:
  "ls_root genesis = genesis_root" "hex_value genesis_root" "genesis_root \<noteq> []"
  by (simp_all add: genesis_def new_local_state_with_genesis_root_def genesis_root_def hex_value_def
      trim_space_ends_eval plain_char_def is_hex_prefixed_def strip_hex_def hex_prefix_def)

lemma genesis_not_digest [simp]: "genesis_root \<noteq> sha256_hex m"
  using sha.differs [of genesis_root m] by (simp add: genesis_root_def)

lemma genesis_not_current: "root_current s \<Longrightarrow> ls_root s \<noteq> genesis_root"
  unfolding root_current_def compute_root_def using genesis_not_digest by metis

lemma genesis_deposit:
  obtains s where "apply_deposit genesis alice_deposit = Inr (s, ls_root s)" and "mirror_of s = alice_after_deposit"
    and "wf_local s" and "root_current s"
proof -
  have "spec_op (mirror_of genesis) (OpDeposit alice_deposit) = Inr alice_after_deposit"
    by (simp add: genesis_def alice_spec_deposit)
  from op_apply_spec [OF genesis_wf this] obtain s where
    s: "op_apply genesis (OpDeposit alice_deposit) = Inr s" "mirror_of s = alice_after_deposit" "wf_local s" "root_current s"
    by blast
  from s(1) obtain root where r: "apply_deposit genesis alice_deposit = Inr (s, root)"
    unfolding op_apply_Inr by blast
  with apply_deposit_ok(4) [OF genesis_wf r] s that show ?thesis by blast
qed

text \<open>The service that has logged the deposit: one move, pending.\<close>

definition alice_service :: service where
  "alice_service = new_service (Some (new_manager_with_genesis_root genesis_root)) (Some (empty_db (\<lambda>_. [])))"

lemma alice_service_facts [simp]: "mg_ls (sv_manager alice_service) = genesis"
  by (simp add: alice_service_def new_service_def new_manager_with_genesis_root_def genesis_def)

lemma alice_service_inv: "loop_inv alice_service genesis None []"
  using loop_inv_genesis [OF genesis_facts(2)] by (simp add: alice_service_def genesis_def)

lemma alice_move:
  assumes "apply_deposit genesis alice_deposit = Inr (s, r)"
  shows "clean_move alice_denom (LogDeposit (deposit_move_of genesis alice_deposit s))"
    and "log_transitions [LogDeposit (deposit_move_of genesis alice_deposit s)]
      = [\<lparr>pt_kind = ''deposit'', pt_id = ''dep-1'', pt_owner = alice_owner, pt_denom = alice_denom,
          pt_root_before = genesis_root, pt_root_after = ls_root s,
          pt_balance_before = acc_balance (local_account genesis alice_owner alice_denom),
          pt_balance_after = acc_balance (local_account s alice_owner alice_denom)\<rparr>]"
  by (simp_all add: deposit_move_of_def alice_deposit_def log_transitions_def deposit_transition_def)

lemma alice_logged:
  obtains sv mv where "loop_inv sv genesis None [LogDeposit mv]" and "roots_distinct genesis [LogDeposit mv]"
    and "clean_move alice_denom (LogDeposit mv)" and "no_return genesis [LogDeposit mv]"
    and "mirror_of (mg_ls (sv_manager sv)) = alice_after_deposit"
proof -
  obtain s where s: "apply_deposit genesis alice_deposit = Inr (s, ls_root s)" "root_current s"
    "mirror_of s = alice_after_deposit" by (rule genesis_deposit)
  let ?mv = "deposit_move_of genesis alice_deposit s"
  from loop_deposit [OF alice_service_inv, of alice_deposit s "ls_root s"] s obtain sv where
    sv: "loop_inv sv genesis None [LogDeposit ?mv]" "mg_ls (sv_manager sv) = s" by auto
  have "ls_root s \<noteq> genesis_root" using genesis_not_current s(2) by blast
  with sv s alice_move [OF s(1)] show ?thesis
    by (intro that [of sv ?mv]) (auto simp: roots_distinct_def no_return_def)
qed

text \<open>Every root a log reaches is a digest, so none of them is the configured genesis root.\<close>

lemma log_roots_digests:
  "log_run s ms s2 \<Longrightarrow> wf_local s \<Longrightarrow> t \<in> set (log_transitions ms) \<Longrightarrow> \<exists>m. pt_root_after t = sha256_hex m"
proof (induction rule: log_run.induct)
  case (log_run_Cons s m s1 ms s2)
  from log_run_Cons.hyps(1) have one: "log_run s [m] s1" by (simp add: log_run_Cons_iff)
  from log_run_wf [OF this log_run_Cons.prems(1)] have "wf_local s1" "root_current s1" by simp_all
  moreover from log_run_Cons.hyps(1) have "pt_root_after (logged_transition m) = ls_root s1"
    by (simp add: log_step_def Let_def)
  ultimately show ?case
    using log_run_Cons.IH log_run_Cons.prems
    by (auto simp: log_transitions_def root_current_def compute_root_def)
qed (simp add: log_transitions_def)

lemma genesis_no_return: "log_run genesis ms s2 \<Longrightarrow> no_return genesis ms"
  using log_roots_digests [OF _ genesis_wf] by (fastforce simp: no_return_def)

text \<open>The service with Alice's deposit in a batch in flight, and a second deposit logged after it.\<close>

lemma alice_in_flight:
  obtains sv b mv s1 where "loop_inv sv genesis (Some (b, [LogDeposit mv])) []"
    and "log_run genesis [LogDeposit mv] s1"
    and "mirror_of (mg_ls (sv_manager sv)) = alice_after_deposit"
proof -
  obtain sv mv where l: "loop_inv sv genesis None [LogDeposit mv]" "roots_distinct genesis [LogDeposit mv]"
    "clean_move alice_denom (LogDeposit mv)" "mirror_of (mg_ls (sv_manager sv)) = alice_after_deposit"
    by (rule alice_logged)
  have pre: "flight_prefix [LogDeposit mv] = [LogDeposit mv]" "flight_rest [LogDeposit mv] = []"
    by (simp_all add: flight_rest_def)
  from l(3) have "buildable alice_denom Map.empty [LogDeposit mv]" by (simp add: buildable_def)
  with loop_build [OF l(1) _ l(2), of alice_denom Map.empty "[]"] pre obtain sv' b s1 where
    "log_run genesis [LogDeposit mv] s1" "sv_manager sv' = sv_manager sv"
    "loop_inv sv' genesis (Some (b, [LogDeposit mv])) []"
    by (auto simp: index_account_secrets_def)
  with l(4) that show ?thesis by simp
qed

definition second_deposit :: deposit_record where
  "second_deposit = alice_deposit\<lparr>dep_id := ''dep-2''\<rparr>"

lemma alice_two_moves:
  obtains sv b mv mv' where "loop_inv sv genesis (Some (b, [LogDeposit mv])) [LogDeposit mv']"
    and "no_return genesis [LogDeposit mv, LogDeposit mv']"
proof -
  obtain sv b mv s1 where f: "loop_inv sv genesis (Some (b, [LogDeposit mv])) []"
    and m: "mirror_of (mg_ls (sv_manager sv)) = alice_after_deposit" by (rule alice_in_flight)
  have wf: "wf_local (mg_ls (sv_manager sv))" using loop_inv_manager [OF f] by simp
  have "\<exists>M. spec_op alice_after_deposit (OpDeposit second_deposit) = Inr M"
    by (simp add: spec_deposit_def second_deposit_def alice_deposit_def alice_after_deposit_def)
  then obtain M where "spec_op (mirror_of (mg_ls (sv_manager sv))) (OpDeposit second_deposit) = Inr M"
    unfolding m by blast
  from op_apply_spec [OF wf this] obtain ls root where
    "apply_deposit (mg_ls (sv_manager sv)) second_deposit = Inr (ls, root)"
    by (auto split: sum.splits)
  from loop_deposit [OF f this, where now = 0] obtain sv' mv' where
    f': "loop_inv sv' genesis (Some (b, [LogDeposit mv])) [LogDeposit mv']" by auto
  from loop_inv_run [OF f'] have "no_return genesis ([LogDeposit mv] @ [LogDeposit mv'])"
    unfolding flight_simps by (rule genesis_no_return)
  with f' that show ?thesis by simp
qed

text \<open>A batch of Alice's deposit, built on the manager's snapshot.\<close>

definition alice_input :: build_input where
  "alice_input = \<lparr>bi_old_root = [], bi_deposits = [alice_deposit], bi_requests = [], bi_secrets = []\<rparr>"

lemma alice_snapshot_build:
  obtains out where "snapshot_build (new_manager_with_genesis_root genesis_root) 0 None alice_input = (1, Inr out)"
proof -
  let ?m = "new_manager_with_genesis_root genesis_root"
  obtain s where s: "apply_deposit genesis alice_deposit = Inr (s, ls_root s)" "wf_local s" "root_current s"
    by (rule genesis_deposit)
  have m: "mg_ls ?m = genesis" "manager_root ?m = genesis_root"
    by (simp_all add: new_manager_with_genesis_root_def genesis_def manager_root_def new_local_state_with_genesis_root_def genesis_root_def)
  have op: "fold_res op_apply genesis [OpDeposit alice_deposit] = Inr s" using s(1) by simp
  have facts: "batch_facts Map.empty genesis [alice_deposit] (map input_of_move []) s"
    using s(2) run_balance_equation [OF genesis_wf op]
    by (simp add: batch_facts_def secrets_ok_def batch_ops_def owners_trimmed_def batch_parties_def alice_deposit_def)
  have parts: "collect_participants [alice_deposit] (map wn_request (map input_of_move [])) = Inr [(alice_owner, alice_denom)]"
    by (simp add: collect_participants_def add_participant_def alice_deposit_def)
  have "batch_denom \<lparr>si_old_root = genesis_root, si_new_root = ls_root s, si_deposits = [alice_deposit], si_withdrawals = []\<rparr> = alice_denom"
    by (simp add: batch_denom_def alice_deposit_def)
  then have valid: "inputs_valid \<lparr>si_old_root = genesis_root, si_new_root = ls_root s, si_deposits = [alice_deposit], si_withdrawals = []\<rparr>"
    using genesis_not_current [OF s(3)] root_current_hex [OF s(3)]
    by (auto simp: inputs_valid_def good_deposit_def alice_deposit_def)
  show ?thesis
    using that s(1) parts valid m
      facade_assemble_eq [OF facts parts, of "\<lambda>ow d. acc_balance (manager_account ?m ow d)" 0 genesis_root]
    by (auto simp: snapshot_build_def alice_input_def index_secrets_def validate_root_eq Let_def
        local_state_from_manager_snapshot facade_deposit_def manager_account_def)
qed

text \<open>Alice's withdrawal on the logged deposit.\<close>

lemma alice_destination:
  obtains h where "withdraw_address_hash (wr_destination alice_request) = Inr h"
  by (simp add: withdraw_address_hash_def alice_request_def Let_def)

lemma alice_effective: "nullifier_for (effective_secret alice_secret) (wr_nonce alice_request) = Inr alice_nullifier"
  using alice_nullifier_for by (simp add: effective_secret_def alice_request_def)

lemma alice_withdrawal:
  assumes "loop_inv sv genesis None [LogDeposit mv]" and "mirror_of (mg_ls (sv_manager sv)) = alice_after_deposit"
  obtains ls where "apply_withdrawal (mg_ls (sv_manager sv)) alice_request alice_nullifier = Inr (ls, ls_root ls)"
    and "mirror_of ls = alice_final"
proof -
  have wf: "wf_local (mg_ls (sv_manager sv))" using loop_inv_manager [OF assms(1)] by simp
  have "spec_op (mirror_of (mg_ls (sv_manager sv))) (OpWithdraw alice_request alice_nullifier) = Inr alice_final"
    by (simp add: assms(2) alice_spec_withdrawal)
  from op_apply_spec [OF wf this] obtain ls root where
    "apply_withdrawal (mg_ls (sv_manager sv)) alice_request alice_nullifier = Inr (ls, root)" "mirror_of ls = alice_final"
    by (auto split: sum.splits)
  with apply_withdrawal_ok(4) [OF wf this(1)] that show ?thesis by simp
qed

lemma no_nullifiers_unused:
  assumes "loop_inv sv s0 None rest" and "ls_nullifiers (mg_ls (sv_manager sv)) = {}"
  shows "unused_withdraw_id sv i"
proof -
  from assms(1) obtain db where db: "sv_repo sv = Some db" "known_rows (mg_ls (sv_manager sv)) db"
    by (auto simp: loop_inv_def store_inv_def)
  with assms(2) have "db_withdrawals db = []" by (auto simp: known_rows_def)
  with db show ?thesis by (simp add: unused_withdraw_id_def row_keys_def)
qed

lemma alice_no_nullifiers:
  "mirror_of s = alice_after_deposit \<Longrightarrow> ls_nullifiers s = {}"
  using arg_cong [of "mirror_of s" alice_after_deposit mi_nullifiers] by (simp add: mirror_of_def alice_after_deposit_def)

lemma alice_request_unused:
  assumes "loop_inv sv genesis None [LogDeposit mv]" and "mirror_of (mg_ls (sv_manager sv)) = alice_after_deposit"
  shows "unused_withdraw_id sv (wr_id alice_request)"
  by (rule no_nullifiers_unused [OF assms(1) alice_no_nullifiers [OF assms(2)]])

text \<open>A second account, Bob, with as much.\<close>

definition bob_owner :: string where "bob_owner = ''cosmos1bob''"

definition bob_deposit :: deposit_record where
  "bob_deposit = alice_deposit\<lparr>dep_id := ''dep-2'', dep_owner := bob_owner\<rparr>"

definition two_accounts :: mirror where
  "two_accounts = \<lparr>mi_ledger = [(alice_owner, alice_denom) \<mapsto> (100, 0), (bob_owner, alice_denom) \<mapsto> (100, 0)],
     mi_deposits = {''dep-2'', ''dep-1''}, mi_nullifiers = {}\<rparr>"

lemma bob_facts [simp]: "trim_space bob_owner = bob_owner" "bob_owner \<noteq> []" "bob_owner \<noteq> alice_owner" "alice_owner \<noteq> bob_owner"
  by (simp_all add: bob_owner_def alice_owner_def trim_space_ends_eval plain_char_def)

lemma bob_spec_deposit: "spec_deposit alice_after_deposit bob_deposit = Inr two_accounts"
  by (simp add: spec_deposit_def bob_deposit_def alice_deposit_def alice_after_deposit_def two_accounts_def
      ledger_credit_def bal_of_def nonce_of_def)

lemma two_accounts_logged:
  obtains sv mv mv' where "loop_inv sv genesis None [LogDeposit mv, LogDeposit mv']"
    and "mirror_of (mg_ls (sv_manager sv)) = two_accounts"
proof -
  obtain sv mv where l: "loop_inv sv genesis None [LogDeposit mv]" "mirror_of (mg_ls (sv_manager sv)) = alice_after_deposit"
    by (rule alice_logged)
  have wf: "wf_local (mg_ls (sv_manager sv))" using loop_inv_manager [OF l(1)] by simp
  have "spec_op (mirror_of (mg_ls (sv_manager sv))) (OpDeposit bob_deposit) = Inr two_accounts"
    by (simp add: l(2) bob_spec_deposit)
  from op_apply_spec [OF wf this] obtain ls root where
    ls: "apply_deposit (mg_ls (sv_manager sv)) bob_deposit = Inr (ls, root)" "mirror_of ls = two_accounts"
    by (auto split: sum.splits)
  from loop_deposit [OF l(1) ls(1), where now = 0] ls(2) that show ?thesis by auto
qed

text \<open>The same deposit on a service that started without a genesis root.\<close>

lemma alice_logged_plain:
  obtains sv mv db where "loop_inv sv new_local_state None [LogDeposit mv]" and "sv_repo sv = Some db"
    and "mirror_of (mg_ls (sv_manager sv)) = alice_after_deposit" and "db_withdrawals db = []"
proof -
  let ?sv = "new_service None (Some (empty_db (\<lambda>_. [])))"
  have start: "mg_ls (sv_manager ?sv) = new_local_state" by (simp add: new_service_def new_manager_def)
  have "spec_op (mirror_of new_local_state) (OpDeposit alice_deposit) = Inr alice_after_deposit"
    by (simp add: alice_spec_deposit)
  from op_apply_spec [OF wf_local_new this] obtain ls root where
    ls: "apply_deposit (mg_ls (sv_manager ?sv)) alice_deposit = Inr (ls, root)" "mirror_of ls = alice_after_deposit"
    unfolding start by (auto split: sum.splits)
  from loop_deposit [OF loop_inv_start ls(1), where now = 0] ls(2) obtain sv mv where
    sv: "loop_inv sv new_local_state None [LogDeposit mv]" "mirror_of (mg_ls (sv_manager sv)) = alice_after_deposit"
    by auto
  from sv(1) obtain db where db: "sv_repo sv = Some db" "known_rows (mg_ls (sv_manager sv)) db"
    by (auto simp: loop_inv_def store_inv_def)
  have "ls_nullifiers (mg_ls (sv_manager sv)) = {}"
    using arg_cong [OF sv(2), of mi_nullifiers] by (simp add: mirror_of_def alice_after_deposit_def)
  with db have "db_withdrawals db = []" by (auto simp: known_rows_def)
  with sv db that show ?thesis by blast
qed

end
