(* ===== verification/Memory_Store.thy ===== *)
theory Memory_Store
  imports Go_Types
begin

text \<open>
  \<^verbatim>\<open>internal/store/memory_store.go\<close>: the process-wide store behind every repository.
  It keeps the dashboard state, three insertion-ordered tables (a Go map and the slice of its keys)
  and the withdrawal counter. Every method holds the mutex for its whole body, so it is one function.
  The \<^verbatim>\<open>clone\<close> helpers copy slices, maps and structs so that callers share no memory
  with the store; a value is never shared, so here they are the identity. That this is what the callers
  see is proved on a heap in \<open>Shared_Store\<close>. A nil slice or map is the empty one.
\<close>

record app_state =
  as_mode :: string
  as_current_root :: string
  as_user_balances :: "string \<rightharpoonup> string"
  as_module_balance :: "string \<rightharpoonup> string"
  as_latest_deposit :: "deposit_record option"
  as_latest_request :: "withdraw_request option"
  as_latest_settlement :: "settlement_update option"
  as_latest_commitments :: "batch_commitments option"
  as_latest_proof :: "proof_bundle option"
  as_latest_records :: "withdraw_record list"
  as_proof_status :: string
  as_deposit_status :: string
  as_withdraw_status :: string
  as_batch_status :: string

record memory_store =
  ms_app :: app_state
  ms_deposits :: "string \<rightharpoonup> deposit_record"
  ms_deposit_order :: "string list"
  ms_requests :: "string \<rightharpoonup> withdraw_request"
  ms_request_order :: "string list"
  ms_next_seq :: "64 word"
  ms_records :: "string \<rightharpoonup> withdraw_record"
  ms_record_order :: "string list"

definition new_memory_store :: memory_store where
  "new_memory_store = \<lparr>
     ms_app = \<lparr>as_mode = ''local'', as_current_root = ''0xrootA'',
       as_user_balances = [''cosmos1alice/uusdc'' \<mapsto> ''1000''],
       as_module_balance = [''uusdc'' \<mapsto> ''0''],
       as_latest_deposit = None, as_latest_request = None, as_latest_settlement = None,
       as_latest_commitments = None, as_latest_proof = None, as_latest_records = [],
       as_proof_status = ''idle'', as_deposit_status = ''none'', as_withdraw_status = ''none'',
       as_batch_status = ''none''\<rparr>,
     ms_deposits = Map.empty, ms_deposit_order = [],
     ms_requests = Map.empty, ms_request_order = [], ms_next_seq = 1,
     ms_records = Map.empty, ms_record_order = []\<rparr>"

subsection \<open>Ordered tables\<close>

text \<open>A key is appended to the order when the map does not hold it yet.\<close>

definition table_order :: "(string \<rightharpoonup> 'r) \<Rightarrow> string list \<Rightarrow> string \<Rightarrow> string list" where
  "table_order m order k = (if k \<in> dom m then order else order @ [k])"

definition table_list :: "(string \<rightharpoonup> 'r) \<Rightarrow> string list \<Rightarrow> 'r list" where
  "table_list m order = List.map_filter m order"

definition table_ok :: "(string \<rightharpoonup> 'r) \<Rightarrow> string list \<Rightarrow> bool" where
  "table_ok m order \<longleftrightarrow> distinct order \<and> set order = dom m"

lemma table_ok_empty [simp]: "table_ok Map.empty []"
  by (simp add: table_ok_def)

lemma table_ok_put: "table_ok m order \<Longrightarrow> table_ok (m(k \<mapsto> v)) (table_order m order k)"
  by (auto simp: table_ok_def table_order_def)

lemma table_ok_replace: "table_ok m order \<Longrightarrow> k \<in> dom m \<Longrightarrow> table_ok (m(k \<mapsto> v)) order"
  by (auto simp: table_ok_def)

lemma table_list_ok: "table_ok m order \<Longrightarrow> table_list m order = map (\<lambda>k. the (m k)) order"
proof -
  assume ok: "table_ok m order"
  then have "\<forall>k \<in> set order. m k \<noteq> None" by (auto simp: table_ok_def)
  then show ?thesis unfolding table_list_def
    by (induction order) (auto simp: List.map_filter_simps)
qed

lemma table_list_set: "table_ok m order \<Longrightarrow> set (table_list m order) = ran m"
  by (auto simp: table_list_ok table_ok_def ran_def dom_def image_iff) force+

lemma table_list_put:
  assumes "table_ok m order"
  shows "table_list (m(k \<mapsto> v)) (table_order m order k)
    = (if k \<in> dom m then map (\<lambda>j. if j = k then v else the (m j)) order else table_list m order @ [v])"
proof -
  have "table_list (m(k \<mapsto> v)) (table_order m order k) = map (\<lambda>j. the ((m(k \<mapsto> v)) j)) (table_order m order k)"
    by (rule table_list_ok [OF table_ok_put [OF assms]])
  moreover have "k \<notin> dom m \<Longrightarrow> k \<notin> set order" using assms by (simp add: table_ok_def)
  ultimately show ?thesis
    using assms by (auto simp: table_order_def table_list_ok intro!: map_cong)
qed

subsection \<open>Balances\<close>

definition parse_int64_or_zero :: "string \<Rightarrow> 64 word" where
  "parse_int64_or_zero value = (case parse_int64 value of None \<Rightarrow> 0 | Some v \<Rightarrow> word_of_int v)"

definition balance_at :: "(string \<rightharpoonup> string) \<Rightarrow> string \<Rightarrow> 64 word" where
  "balance_at balances key = parse_int64_or_zero (case balances key of None \<Rightarrow> [] | Some v \<Rightarrow> v)"

definition credit_balance :: "(string \<rightharpoonup> string) \<Rightarrow> string \<Rightarrow> string \<Rightarrow> (string \<rightharpoonup> string)" where
  "credit_balance balances key amount =
     balances(key \<mapsto> format_int64 (balance_at balances key + parse_int64_or_zero amount))"

definition debit_balance :: "(string \<rightharpoonup> string) \<Rightarrow> string \<Rightarrow> string \<Rightarrow> (string \<rightharpoonup> string)" where
  "debit_balance balances key amount =
     balances(key \<mapsto> format_int64 (balance_at balances key - parse_int64_or_zero amount))"

lemma parse_format_zero [simp]: "parse_int64_or_zero (format_int64 x) = x"
  by (simp add: parse_int64_or_zero_def parse_int64_format)

lemma balance_at_credit [simp]:
  "balance_at (credit_balance m k a) j = balance_at m j + (if j = k then parse_int64_or_zero a else 0)"
  by (simp add: credit_balance_def balance_at_def)

lemma balance_at_debit [simp]:
  "balance_at (debit_balance m k a) j = balance_at m j - (if j = k then parse_int64_or_zero a else 0)"
  by (simp add: debit_balance_def balance_at_def)

subsection \<open>The methods\<close>

definition get_app_state :: "memory_store \<Rightarrow> app_state" where
  "get_app_state s = ms_app s"

definition ms_save_deposit :: "deposit_record \<Rightarrow> memory_store \<Rightarrow> memory_store" where
  "ms_save_deposit r s = s\<lparr>
     ms_deposit_order := table_order (ms_deposits s) (ms_deposit_order s) (dep_id r),
     ms_deposits := (ms_deposits s)(dep_id r \<mapsto> r),
     ms_app := (ms_app s)\<lparr>as_latest_deposit := Some r, as_deposit_status := ''indexed'',
       as_user_balances := debit_balance (as_user_balances (ms_app s))
         (dep_owner r @ ''/'' @ dep_denom r) (dep_amount r),
       as_module_balance := credit_balance (as_module_balance (ms_app s)) (dep_denom r) (dep_amount r)\<rparr>\<rparr>"

definition ms_get_deposit :: "string \<Rightarrow> memory_store \<Rightarrow> deposit_record option" where
  "ms_get_deposit i s = ms_deposits s i"

definition ms_list_deposits :: "memory_store \<Rightarrow> deposit_record list" where
  "ms_list_deposits s = table_list (ms_deposits s) (ms_deposit_order s)"

definition ms_next_withdraw_sequence :: "memory_store \<Rightarrow> memory_store \<times> 64 word" where
  "ms_next_withdraw_sequence s = (s\<lparr>ms_next_seq := ms_next_seq s + 1\<rparr>, ms_next_seq s)"

definition ms_save_withdraw_request :: "withdraw_request \<Rightarrow> memory_store \<Rightarrow> memory_store" where
  "ms_save_withdraw_request r s = s\<lparr>
     ms_request_order := table_order (ms_requests s) (ms_request_order s) (wr_id r),
     ms_requests := (ms_requests s)(wr_id r \<mapsto> r),
     ms_app := (ms_app s)\<lparr>as_latest_request := Some r, as_withdraw_status := ''requested''\<rparr>\<rparr>"

definition ms_get_withdraw_request :: "string \<Rightarrow> memory_store \<Rightarrow> withdraw_request option" where
  "ms_get_withdraw_request i s = ms_requests s i"

definition ms_list_withdraw_requests :: "memory_store \<Rightarrow> withdraw_request list" where
  "ms_list_withdraw_requests s = table_list (ms_requests s) (ms_request_order s)"

definition ms_save_batch_build :: "settlement_update \<Rightarrow> batch_commitments \<Rightarrow> memory_store \<Rightarrow> memory_store" where
  "ms_save_batch_build u c s = s\<lparr>ms_app := (ms_app s)\<lparr>as_latest_settlement := Some u,
     as_latest_commitments := Some c, as_batch_status := ''built'', as_proof_status := ''idle'',
     as_withdraw_status := ''batchBuilt''\<rparr>\<rparr>"

definition ms_save_proof_bundle :: "proof_bundle \<Rightarrow> memory_store \<Rightarrow> memory_store" where
  "ms_save_proof_bundle p s =
     s\<lparr>ms_app := (ms_app s)\<lparr>as_latest_proof := Some p, as_proof_status := ''ready''\<rparr>\<rparr>"

definition ms_save_withdraw_record :: "withdraw_record \<Rightarrow> memory_store \<Rightarrow> memory_store" where
  "ms_save_withdraw_record r s = s\<lparr>
     ms_record_order := table_order (ms_records s) (ms_record_order s) (wrec_id r),
     ms_records := (ms_records s)(wrec_id r \<mapsto> r)\<rparr>"

text \<open>The loop of \<^verbatim>\<open>SaveBatchSubmitted\<close> puts each record as \<^verbatim>\<open>SaveWithdrawRecord\<close> does.\<close>

definition ms_save_batch_submitted ::
    "settlement_update \<Rightarrow> batch_commitments \<Rightarrow> withdraw_record list \<Rightarrow> memory_store \<Rightarrow> memory_store" where
  "ms_save_batch_submitted u c records s =
     (let s1 = foldl (\<lambda>t r. ms_save_withdraw_record r t) s records in
      s1\<lparr>ms_app := (ms_app s1)\<lparr>as_current_root := su_new_root u, as_latest_settlement := Some u,
        as_latest_commitments := Some c, as_latest_records := records,
        as_deposit_status := ''processed'', as_proof_status := ''accepted'',
        as_withdraw_status := ''readyToClaim'', as_batch_status := ''accepted''\<rparr>\<rparr>)"

definition ms_get_withdraw_record :: "string \<Rightarrow> memory_store \<Rightarrow> withdraw_record option" where
  "ms_get_withdraw_record i s = ms_records s i"

text \<open>\<^verbatim>\<open>for i := range ... { if match { xs[i] = r; break } }\<close>\<close>

fun replace_first :: "('a \<Rightarrow> bool) \<Rightarrow> 'a \<Rightarrow> 'a list \<Rightarrow> 'a list" where
  "replace_first p x [] = []"
| "replace_first p x (y # ys) = (if p y then x # ys else y # replace_first p x ys)"

definition ms_claim_withdraw_record :: "string \<Rightarrow> memory_store \<Rightarrow> memory_store \<times> withdraw_record option" where
  "ms_claim_withdraw_record i s =
     (case ms_records s i of None \<Rightarrow> (s, None)
      | Some r0 \<Rightarrow>
        let r = r0\<lparr>wrec_claimed := True\<rparr> in
        (s\<lparr>ms_records := (ms_records s)(i \<mapsto> r),
           ms_app := (ms_app s)\<lparr>
             as_latest_records := replace_first (\<lambda>x. wrec_id x = i) r (as_latest_records (ms_app s)),
             as_user_balances := credit_balance (as_user_balances (ms_app s))
               (wrec_destination r @ ''/'' @ wrec_denom r) (wrec_amount r),
             as_module_balance := debit_balance (as_module_balance (ms_app s)) (wrec_denom r) (wrec_amount r),
             as_withdraw_status := ''claimed''\<rparr>\<rparr>, Some r))"

definition ms_list_withdraw_records :: "memory_store \<Rightarrow> withdraw_record list" where
  "ms_list_withdraw_records s = table_list (ms_records s) (ms_record_order s)"

definition ms_get_balance_snapshot :: "memory_store \<Rightarrow> balance_snapshot" where
  "ms_get_balance_snapshot s =
     \<lparr>bs_user = as_user_balances (ms_app s), bs_module = as_module_balance (ms_app s)\<rparr>"

subsection \<open>Invariant\<close>

text \<open>Each order lists the keys of its map, once, and a row is stored under its own id.\<close>

definition wf_store :: "memory_store \<Rightarrow> bool" where
  "wf_store s \<longleftrightarrow> table_ok (ms_deposits s) (ms_deposit_order s)
     \<and> table_ok (ms_requests s) (ms_request_order s) \<and> table_ok (ms_records s) (ms_record_order s)
     \<and> (\<forall>k r. ms_deposits s k = Some r \<longrightarrow> dep_id r = k)
     \<and> (\<forall>k r. ms_requests s k = Some r \<longrightarrow> wr_id r = k)
     \<and> (\<forall>k r. ms_records s k = Some r \<longrightarrow> wrec_id r = k)"

lemma wf_store_new [simp]: "wf_store new_memory_store"
  by (simp add: wf_store_def new_memory_store_def)

lemma wf_save_deposit: "wf_store s \<Longrightarrow> wf_store (ms_save_deposit r s)"
  by (auto simp: wf_store_def ms_save_deposit_def table_ok_put)

lemma wf_next_sequence: "wf_store s \<Longrightarrow> wf_store (fst (ms_next_withdraw_sequence s))"
  by (simp add: wf_store_def ms_next_withdraw_sequence_def)

lemma wf_save_withdraw_request: "wf_store s \<Longrightarrow> wf_store (ms_save_withdraw_request r s)"
  by (auto simp: wf_store_def ms_save_withdraw_request_def table_ok_put)

lemma wf_save_batch_build: "wf_store s \<Longrightarrow> wf_store (ms_save_batch_build u c s)"
  by (simp add: wf_store_def ms_save_batch_build_def)

lemma wf_save_proof_bundle: "wf_store s \<Longrightarrow> wf_store (ms_save_proof_bundle p s)"
  by (simp add: wf_store_def ms_save_proof_bundle_def)

lemma wf_save_withdraw_record: "wf_store s \<Longrightarrow> wf_store (ms_save_withdraw_record r s)"
  by (auto simp: wf_store_def ms_save_withdraw_record_def table_ok_put)

lemma wf_save_withdraw_records: "wf_store s \<Longrightarrow> wf_store (foldl (\<lambda>t r. ms_save_withdraw_record r t) s rs)"
  by (induction rs arbitrary: s) (simp_all add: wf_save_withdraw_record)

lemma wf_save_batch_submitted: "wf_store s \<Longrightarrow> wf_store (ms_save_batch_submitted u c rs s)"
  using wf_save_withdraw_records [of s rs] by (simp add: wf_store_def ms_save_batch_submitted_def Let_def)

lemma wf_claim: "wf_store s \<Longrightarrow> wf_store (fst (ms_claim_withdraw_record i s))"
  by (auto simp: wf_store_def ms_claim_withdraw_record_def Let_def domI intro!: table_ok_replace split: option.split)

lemmas wf_store_steps = wf_save_deposit wf_next_sequence wf_save_withdraw_request wf_save_batch_build
  wf_save_proof_bundle wf_save_withdraw_record wf_save_batch_submitted wf_claim

subsection \<open>What the methods do\<close>

lemma list_deposits_save:
  assumes "wf_store s"
  shows "ms_list_deposits (ms_save_deposit r s) =
     (if dep_id r \<in> dom (ms_deposits s)
      then map (\<lambda>x. if dep_id x = dep_id r then r else x) (ms_list_deposits s)
      else ms_list_deposits s @ [r])"
proof -
  from assms have ok: "table_ok (ms_deposits s) (ms_deposit_order s)"
    and ids: "\<forall>k x. ms_deposits s k = Some x \<longrightarrow> dep_id x = k" by (simp_all add: wf_store_def)
  have "map (\<lambda>j. if j = dep_id r then r else the (ms_deposits s j)) (ms_deposit_order s)
      = map (\<lambda>x. if dep_id x = dep_id r then r else x) (ms_list_deposits s)"
    unfolding ms_list_deposits_def table_list_ok [OF ok] map_map
  proof (rule map_cong [OF refl])
    fix j assume "j \<in> set (ms_deposit_order s)"
    with ok obtain x where "ms_deposits s j = Some x" by (auto simp: table_ok_def)
    with ids show "(if j = dep_id r then r else the (ms_deposits s j))
        = ((\<lambda>x. if dep_id x = dep_id r then r else x) \<circ> (\<lambda>k. the (ms_deposits s k))) j" by auto
  qed
  then show ?thesis
    using table_list_put [OF ok, of "dep_id r" r] by (simp add: ms_list_deposits_def ms_save_deposit_def)
qed

text \<open>A deposit moves its amount from the user to the module, as 64-bit integers, every time it is saved.\<close>

lemma save_deposit_balances:
  fixes r s
  defines "amount \<equiv> parse_int64_or_zero (dep_amount r)"
  shows "balance_at (as_user_balances (ms_app (ms_save_deposit r s))) k
      = balance_at (as_user_balances (ms_app s)) k - (if k = dep_owner r @ ''/'' @ dep_denom r then amount else 0)"
    and "balance_at (as_module_balance (ms_app (ms_save_deposit r s))) d
      = balance_at (as_module_balance (ms_app s)) d + (if d = dep_denom r then amount else 0)"
  by (simp_all add: ms_save_deposit_def amount_def)

lemma claim_balances:
  assumes "ms_claim_withdraw_record i s = (s', Some r)"
  shows "balance_at (as_user_balances (ms_app s')) k = balance_at (as_user_balances (ms_app s)) k
      + (if k = wrec_destination r @ ''/'' @ wrec_denom r then parse_int64_or_zero (wrec_amount r) else 0)"
    and "balance_at (as_module_balance (ms_app s')) d = balance_at (as_module_balance (ms_app s)) d
      - (if d = wrec_denom r then parse_int64_or_zero (wrec_amount r) else 0)"
    and "ms_records s' i = Some r \<and> wrec_claimed r"
  using assms by (auto simp: ms_claim_withdraw_record_def Let_def split: option.splits)

text \<open>After a batch: the root of its update, and every record under its id, the last one winning.\<close>

lemma save_records_lookup:
  "ms_records (foldl (\<lambda>t r. ms_save_withdraw_record r t) s rs) k =
     (case map_of (rev (map (\<lambda>r. (wrec_id r, r)) rs)) k of None \<Rightarrow> ms_records s k | Some r \<Rightarrow> Some r)"
proof (induction rs arbitrary: s)
  case (Cons r rs)
  then show ?case
    by (auto simp: ms_save_withdraw_record_def map_add_def split: option.splits)
qed simp

lemma save_records_app [simp]: "ms_app (foldl (\<lambda>t r. ms_save_withdraw_record r t) s rs) = ms_app s"
  by (induction rs arbitrary: s) (simp_all add: ms_save_withdraw_record_def)

lemma save_batch_submitted_records:
  "ms_records (ms_save_batch_submitted u c rs s) k =
     (case map_of (rev (map (\<lambda>r. (wrec_id r, r)) rs)) k of None \<Rightarrow> ms_records s k | Some r \<Rightarrow> Some r)"
  "as_current_root (ms_app (ms_save_batch_submitted u c rs s)) = su_new_root u"
  by (simp_all add: ms_save_batch_submitted_def Let_def save_records_lookup)

end
