(* ===== verification/App_Database.thy ===== *)
theory App_Database
  imports Memory_Store Go_Hash "HOL-Library.Product_Lexorder"
begin

text \<open>
  What the repositories of \<^verbatim>\<open>internal/repository\<close> other than the settlement one work on:
  the memory store and the Postgres tables of \<^verbatim>\<open>migrations/001_init.sql\<close> and
  \<^verbatim>\<open>002_withdraw_request_sequence.sql\<close>. A table is the list of its rows in insertion
  order. A call to the database may fail for reasons outside the program, so the database carries a
  script of the outcomes of the coming calls; an empty script is a database that works. A column that
  holds JSON holds the struct it was marshalled from, as the program never reads it back.
\<close>

record request_row =
  rq_request :: withdraw_request
  rq_status :: string
  rq_created :: nat

record record_row =
  rr_record :: withdraw_record
  rr_tx_hash :: "string option"
  rr_created :: nat

record build_row =
  br_update :: settlement_update
  br_commitments :: batch_commitments
  br_witness :: witness
  br_status :: string

record proof_row =
  pf_bundle :: proof_bundle
  pf_status :: string

record submit_row =
  sr_tx_hash :: string
  sr_accepted :: bool
  sr_proof_status :: string
  sr_error :: "string option"

record app_db =
  ad_pool :: bool
  ad_faults :: "string option list"
  ad_collation :: "string \<Rightarrow> nat list"
  ad_clock :: nat
  ad_withdraw_seq :: nat
  ad_requests :: "request_row list"
  ad_records :: "record_row list"
  ad_builds :: "string \<rightharpoonup> build_row"
  ad_proofs :: "string \<rightharpoonup> proof_row"
  ad_submits :: "string \<rightharpoonup> submit_row"

record backend =
  be_store :: memory_store
  be_db :: app_db

type_synonym 'a backend_op = "backend \<Rightarrow> backend \<times> 'a res"

text \<open>Running a method of the memory store.\<close>

definition on_store :: "(memory_store \<Rightarrow> memory_store) \<Rightarrow> backend \<Rightarrow> backend" where
  "on_store f b = b\<lparr>be_store := f (be_store b)\<rparr>"

lemma on_store_fields [simp]:
  "be_store (on_store f b) = f (be_store b)" "be_db (on_store f b) = be_db b"
  by (simp_all add: on_store_def)

definition be_bind :: "'a backend_op \<Rightarrow> ('a \<Rightarrow> 'b backend_op) \<Rightarrow> 'b backend_op" where
  "be_bind m f b = (case m b of (b', Inl e) \<Rightarrow> (b', Inl e) | (b', Inr x) \<Rightarrow> f x b')"

text \<open>
  One statement or transaction: \<^verbatim>\<open>dbPool == nil\<close> is refused with the method's own words, then
  the script decides; an error of the body leaves the tables as they were.
\<close>

definition ad_next :: "app_db \<Rightarrow> app_db" where
  "ad_next db = db\<lparr>ad_faults := tl (ad_faults db), ad_clock := ad_clock db + 1\<rparr>"

definition app_call :: "string \<Rightarrow> (app_db \<Rightarrow> (app_db \<times> 'a) res) \<Rightarrow> 'a backend_op" where
  "app_call no_pool body b =
     (let db = be_db b in
      if \<not> ad_pool db then (b, Inl (ErrText no_pool))
      else case ad_faults db of
        Some e # _ \<Rightarrow> (b\<lparr>be_db := ad_next db\<rparr>, Inl (ErrExternal e))
      | _ \<Rightarrow> (case body (ad_next db) of
          Inl e \<Rightarrow> (b\<lparr>be_db := ad_next db\<rparr>, Inl e)
        | Inr (db', x) \<Rightarrow> (b\<lparr>be_db := db'\<rparr>, Inr x)))"

definition db_works :: "backend \<Rightarrow> bool" where
  "db_works b \<longleftrightarrow> ad_pool (be_db b) \<and> ad_faults (be_db b) = []"

lemma app_call_works:
  "db_works b \<Longrightarrow> app_call msg body b = (case body (ad_next (be_db b)) of
     Inl e \<Rightarrow> (b\<lparr>be_db := ad_next (be_db b)\<rparr>, Inl e) | Inr (db', x) \<Rightarrow> (b\<lparr>be_db := db'\<rparr>, Inr x))"
  by (simp add: app_call_def db_works_def Let_def)

lemma app_call_store [simp]: "be_store (fst (app_call msg body b)) = be_store b"
  by (auto simp: app_call_def Let_def split: list.split option.split sum.split)

lemma ad_next_fields [simp]:
  "ad_pool (ad_next db) = ad_pool db" "ad_requests (ad_next db) = ad_requests db"
  "ad_records (ad_next db) = ad_records db" "ad_builds (ad_next db) = ad_builds db"
  "ad_proofs (ad_next db) = ad_proofs db" "ad_submits (ad_next db) = ad_submits db"
  "ad_withdraw_seq (ad_next db) = ad_withdraw_seq db" "ad_collation (ad_next db) = ad_collation db"
  "ad_clock (ad_next db) = ad_clock db + 1"
  by (simp_all add: ad_next_def)

lemma db_works_next [simp]: "db_works (b\<lparr>be_db := ad_next (be_db b)\<rparr>) = (ad_pool (be_db b) \<and> tl (ad_faults (be_db b)) = [])"
  by (simp add: db_works_def ad_next_def)

text \<open>
  An operation keeps a property of the backend when every outcome of its database call does. The
  failures and the clock are not part of it.
\<close>

lemma app_call_keeps:
  assumes "app_call msg body b = (b', r)" and "P (be_db b)"
    and "\<And>db. P db \<Longrightarrow> P (ad_next db)"
    and "\<And>db db' x. body db = Inr (db', x) \<Longrightarrow> P db \<Longrightarrow> P db'"
  shows "P (be_db b')"
  using assms(1,2) assms(3) [OF assms(2)] assms(4) [OF _ assms(3) [OF assms(2)]]
  by (fastforce simp: app_call_def Let_def split: if_splits list.splits option.splits sum.splits)

subsection \<open>Short digests\<close>

text \<open>
  The loop shared by \<^verbatim>\<open>localWithdrawSignature\<close>, \<^verbatim>\<open>localTxHash\<close> and
  \<^verbatim>\<open>localHash\<close>: every part is written to the hash followed by a bar.
\<close>

definition local_hash_input :: "string list \<Rightarrow> string" where
  "local_hash_input parts = concat (map (\<lambda>p. p @ ''|'') parts)"

definition local_short_hash :: "string list \<Rightarrow> string" where
  "local_short_hash parts = ''0x'' @ take 32 (hex_encode (sha256_sum (local_hash_input parts)))"

lemma length_local_short_hash [simp]: "length (local_short_hash parts) = 34"
  by (simp add: local_short_hash_def length_hex_encode length_sha256_sum)

end
