(* ===== verification/Withdraw_Repository.thy ===== *)
theory Withdraw_Repository
  imports App_Database
begin

text \<open>
  \<^verbatim>\<open>internal/repository/withdraw_repository.go\<close>: withdraw requests and withdraw records,
  each either in the memory store or in Postgres, the latter with a fallback to memory for records.
  The wrappers without an error result panic when Postgres fails.
\<close>

record withdraw_repo =
  wp_request_store :: string
  wp_record_store :: string

definition store_memory :: string where "store_memory = ''memory''"
definition store_postgres :: string where "store_postgres = ''postgres''"

definition new_withdraw_repository :: withdraw_repo where
  "new_withdraw_repository = \<lparr>wp_request_store = store_memory, wp_record_store = store_memory\<rparr>"

text \<open>The trailing argument is optional and may be empty.\<close>

definition new_withdraw_repository_with_db :: "string \<Rightarrow> string list \<Rightarrow> withdraw_repo" where
  "new_withdraw_repository_with_db request_store record_store_values =
     \<lparr>wp_request_store = (if request_store = [] then store_memory else request_store),
      wp_record_store = (case record_store_values of v # _ \<Rightarrow> if v \<noteq> [] then v else store_memory
        | [] \<Rightarrow> store_memory)\<rparr>"

definition requests_in_postgres :: "withdraw_repo \<Rightarrow> bool" where
  "requests_in_postgres wp \<longleftrightarrow> wp_request_store wp = store_postgres"

definition records_in_postgres :: "withdraw_repo \<Rightarrow> bool" where
  "records_in_postgres wp \<longleftrightarrow> wp_record_store wp = store_postgres"

definition no_request_pool :: string where
  "no_request_pool = ''postgres withdraw request store selected but db pool is nil''"

definition no_record_pool :: string where
  "no_record_pool = ''postgres withdraw record store selected but db pool is nil''"

text \<open>\<^verbatim>\<open>panic(fmt.Sprintf(...))\<close> on the error of an operation.\<close>

definition or_panic :: "string \<Rightarrow> 'a backend_op \<Rightarrow> 'a backend_op" where
  "or_panic what m b = (case m b of (b', Inl _) \<Rightarrow> (b', Inl (ErrPanic what)) | (b', Inr x) \<Rightarrow> (b', Inr x))"

subsection \<open>Requests\<close>

definition local_withdraw_signature :: "string list \<Rightarrow> string" where
  "local_withdraw_signature parts = local_short_hash parts"

definition signed_request :: "string \<Rightarrow> withdraw_request_body \<Rightarrow> string \<Rightarrow> withdraw_request" where
  "signed_request withdraw_id req nonce = \<lparr>wr_id = withdraw_id, wr_owner = wb_owner req, wr_denom = wb_denom req,
     wr_amount = wb_amount req, wr_destination = wb_destination req, wr_nonce = nonce,
     wr_signature = local_withdraw_signature
       [wb_owner req, wb_denom req, wb_amount req, wb_destination req, nonce]\<rparr>"

definition create_withdraw_request_memory :: "withdraw_request_body \<Rightarrow> withdraw_request backend_op" where
  "create_withdraw_request_memory req b =
     (case ms_next_withdraw_sequence (be_store b) of (store, seq) \<Rightarrow>
        let wr = signed_request (''wd-'' @ format_int64 seq) req (format_int64 seq)
        in (b\<lparr>be_store := ms_save_withdraw_request wr store\<rparr>, Inr wr))"

text \<open>
  \<^verbatim>\<open>nextval\<close> is never undone, and fails at the end of the sequence. The sequence starts at 1 and
  \<open>ad_withdraw_seq\<close> counts the values it has given.
\<close>

definition next_val :: "nat backend_op" where
  "next_val = app_call no_request_pool (\<lambda>db.
     if ad_withdraw_seq db + 1 < 2 ^ 63
     then Inr (db\<lparr>ad_withdraw_seq := ad_withdraw_seq db + 1\<rparr>, ad_withdraw_seq db + 1)
     else Inl (ErrExternal ''nextval: reached maximum value of sequence''))"

definition insert_withdraw_request_postgres :: "withdraw_request \<Rightarrow> unit backend_op" where
  "insert_withdraw_request_postgres wr = app_call no_request_pool (\<lambda>db.
     if wr_id wr \<in> (wr_id \<circ> rq_request) ` set (ad_requests db)
     then Inl (ErrExternal ''duplicate key withdraw_requests_pkey'')
     else Inr (db\<lparr>ad_requests := ad_requests db
        @ [\<lparr>rq_request = wr, rq_status = ''requested'', rq_created = ad_clock db\<rparr>]\<rparr>, ()))"

definition create_withdraw_request_postgres :: "withdraw_request_body \<Rightarrow> withdraw_request backend_op" where
  "create_withdraw_request_postgres req = be_bind next_val (\<lambda>seq.
     let wr = signed_request (''wd-'' @ nat_to_dec seq) req (nat_to_dec seq)
     in be_bind (insert_withdraw_request_postgres wr) (\<lambda>_ b. (b, Inr wr)))"

definition create_withdraw_request :: "withdraw_repo \<Rightarrow> withdraw_request_body \<Rightarrow> withdraw_request backend_op" where
  "create_withdraw_request wp req =
     (if requests_in_postgres wp
      then or_panic ''create withdraw request in postgres'' (create_withdraw_request_postgres req)
      else create_withdraw_request_memory req)"

definition next_withdraw_id :: "withdraw_repo \<Rightarrow> string backend_op" where
  "next_withdraw_id wp b =
     (if requests_in_postgres wp then be_bind next_val (\<lambda>seq b'. (b', Inr (''wd-'' @ nat_to_dec seq))) b
      else (case ms_next_withdraw_sequence (be_store b) of (store, seq) \<Rightarrow>
        (b\<lparr>be_store := store\<rparr>, Inr (''wd-'' @ format_int64 seq))))"

definition save_withdraw_request :: "withdraw_repo \<Rightarrow> withdraw_request \<Rightarrow> withdraw_request backend_op" where
  "save_withdraw_request wp req0 b =
     (let req = (if wr_signature req0 = [] then req0\<lparr>wr_signature := local_withdraw_signature
            [wr_owner req0, wr_denom req0, wr_amount req0, wr_destination req0, wr_nonce req0]\<rparr> else req0) in
      if requests_in_postgres wp then be_bind (insert_withdraw_request_postgres req) (\<lambda>_ b'. (b', Inr req)) b
      else (on_store (ms_save_withdraw_request req) b, Inr req))"

definition get_withdraw_request_memory :: "string \<Rightarrow> withdraw_request backend_op" where
  "get_withdraw_request_memory i b = (b, case ms_get_withdraw_request i (be_store b) of
     None \<Rightarrow> Inl ErrWithdrawRequestNotFound | Some r \<Rightarrow> Inr r)"

definition get_withdraw_request_postgres :: "string \<Rightarrow> withdraw_request backend_op" where
  "get_withdraw_request_postgres i = app_call no_request_pool (\<lambda>db.
     case find (\<lambda>r. wr_id (rq_request r) = i) (ad_requests db) of
       None \<Rightarrow> Inl ErrWithdrawRequestNotFound | Some r \<Rightarrow> Inr (db, rq_request r))"

definition get_withdraw_request :: "withdraw_repo \<Rightarrow> string \<Rightarrow> withdraw_request backend_op" where
  "get_withdraw_request wp i =
     (if requests_in_postgres wp then get_withdraw_request_postgres i else get_withdraw_request_memory i)"

definition list_withdraw_requests_postgres :: "withdraw_request list backend_op" where
  "list_withdraw_requests_postgres = app_call no_request_pool (\<lambda>db. Inr (db, map rq_request
     (sort_key (\<lambda>r. (rq_created r, ad_collation db (wr_id (rq_request r)))) (ad_requests db))))"

definition list_withdraw_requests :: "withdraw_repo \<Rightarrow> withdraw_request list backend_op" where
  "list_withdraw_requests wp b =
     (if requests_in_postgres wp
      then or_panic ''list withdraw requests from postgres'' list_withdraw_requests_postgres b
      else (b, Inr (ms_list_withdraw_requests (be_store b))))"

subsection \<open>Records\<close>

text \<open>
  \<^verbatim>\<open>INSERT ... ON CONFLICT (withdraw_id) DO UPDATE\<close>; a nullifier that another row carries
  violates its unique index. \<open>tx\<close> is the value the statement writes over an old transaction hash.
\<close>

definition upsert_record ::
    "withdraw_record \<Rightarrow> (string option \<Rightarrow> string option) \<Rightarrow> app_db \<Rightarrow> (app_db \<times> unit) res" where
  "upsert_record rec tx db =
     (if \<exists>r \<in> set (ad_records db). wrec_nullifier (rr_record r) = wrec_nullifier rec
           \<and> wrec_id (rr_record r) \<noteq> wrec_id rec
      then Inl (ErrExternal ''duplicate key idx_indexed_withdraw_records_nullifier'')
      else if wrec_id rec \<in> (wrec_id \<circ> rr_record) ` set (ad_records db)
      then Inr (db\<lparr>ad_records := map (\<lambda>r. if wrec_id (rr_record r) = wrec_id rec
             then r\<lparr>rr_record := rec, rr_tx_hash := tx (rr_tx_hash r)\<rparr> else r) (ad_records db)\<rparr>, ())
      else Inr (db\<lparr>ad_records := ad_records db
             @ [\<lparr>rr_record = rec, rr_tx_hash = tx None, rr_created = ad_clock db\<rparr>]\<rparr>, ()))"

definition save_withdraw_record_postgres :: "withdraw_record \<Rightarrow> string \<Rightarrow> unit backend_op" where
  "save_withdraw_record_postgres rec tx_hash = app_call no_record_pool
     (upsert_record rec (\<lambda>old. if tx_hash = [] then old else Some tx_hash))"

definition save_withdraw_record :: "withdraw_repo \<Rightarrow> withdraw_record \<Rightarrow> unit backend_op" where
  "save_withdraw_record wp rec b =
     (let b1 = on_store (ms_save_withdraw_record rec) b in
      if records_in_postgres wp
      then or_panic ''save withdraw record in postgres'' (save_withdraw_record_postgres rec []) b1
      else (b1, Inr ()))"

fun save_withdraw_records :: "withdraw_repo \<Rightarrow> withdraw_record list \<Rightarrow> unit backend_op" where
  "save_withdraw_records wp [] b = (b, Inr ())"
| "save_withdraw_records wp (r # rs) b =
     be_bind (save_withdraw_record wp r) (\<lambda>_. save_withdraw_records wp rs) b"

definition get_withdraw_record_postgres :: "string \<Rightarrow> withdraw_record backend_op" where
  "get_withdraw_record_postgres i = app_call no_record_pool (\<lambda>db.
     case find (\<lambda>r. wrec_id (rr_record r) = i) (ad_records db) of
       None \<Rightarrow> Inl ErrWithdrawRecordNotFound | Some r \<Rightarrow> Inr (db, rr_record r))"

definition get_withdraw_record_memory :: "string \<Rightarrow> withdraw_record backend_op" where
  "get_withdraw_record_memory i b = (b, case ms_get_withdraw_record i (be_store b) of
     None \<Rightarrow> Inl ErrWithdrawRecordNotFound | Some r \<Rightarrow> Inr r)"

definition get_withdraw_record :: "withdraw_repo \<Rightarrow> string \<Rightarrow> withdraw_record backend_op" where
  "get_withdraw_record wp i b =
     (if records_in_postgres wp then
        (case get_withdraw_record_postgres i b of
           (b', Inr r) \<Rightarrow> (b', Inr r)
         | (b', Inl e) \<Rightarrow> if e \<noteq> ErrWithdrawRecordNotFound then (b', Inl e)
                          else get_withdraw_record_memory i b')
      else get_withdraw_record_memory i b)"

text \<open>The read and the update are two statements, not one transaction.\<close>

definition mark_claimed_postgres :: "string \<Rightarrow> unit backend_op" where
  "mark_claimed_postgres i = app_call no_record_pool (\<lambda>db. Inr (db\<lparr>ad_records := map (\<lambda>r.
     if wrec_id (rr_record r) = i then r\<lparr>rr_record := (rr_record r)\<lparr>wrec_claimed := True\<rparr>\<rparr> else r)
     (ad_records db)\<rparr>, ()))"

text \<open>What follows the read.\<close>

definition claim_after_read :: "string \<Rightarrow> withdraw_record \<Rightarrow> withdraw_record backend_op" where
  "claim_after_read i rec b =
     (if wrec_claimed rec then (b, Inl ErrWithdrawAlreadyClaimed)
      else be_bind (mark_claimed_postgres i) (\<lambda>_ b'. (b', Inr (rec\<lparr>wrec_claimed := True\<rparr>))) b)"

definition claim_withdraw_record_postgres :: "string \<Rightarrow> withdraw_record backend_op" where
  "claim_withdraw_record_postgres i = be_bind (get_withdraw_record_postgres i) (claim_after_read i)"

definition claim_withdraw_record_memory :: "string \<Rightarrow> withdraw_record backend_op" where
  "claim_withdraw_record_memory i b =
     (case ms_get_withdraw_record i (be_store b) of
        None \<Rightarrow> (b, Inl ErrWithdrawRecordNotFound)
      | Some rec \<Rightarrow>
        if wrec_claimed rec then (b, Inl ErrWithdrawAlreadyClaimed)
        else (case ms_claim_withdraw_record i (be_store b) of
          (store, None) \<Rightarrow> (b\<lparr>be_store := store\<rparr>, Inl ErrWithdrawRecordNotFound)
        | (store, Some claimed) \<Rightarrow> (b\<lparr>be_store := store\<rparr>, Inr claimed)))"

definition claim_withdraw_record :: "withdraw_repo \<Rightarrow> string \<Rightarrow> withdraw_record backend_op" where
  "claim_withdraw_record wp i b =
     (if records_in_postgres wp then
        (case claim_withdraw_record_postgres i b of
           (b', Inr rec) \<Rightarrow>
             ((if ms_get_withdraw_record i (be_store b') \<noteq> None
               then on_store (\<lambda>s. fst (ms_claim_withdraw_record i s)) b' else b'), Inr rec)
         | (b', Inl e) \<Rightarrow> if e \<noteq> ErrWithdrawRecordNotFound then (b', Inl e)
                          else claim_withdraw_record_memory i b')
      else claim_withdraw_record_memory i b)"

definition list_withdraw_records_postgres :: "withdraw_record list backend_op" where
  "list_withdraw_records_postgres = app_call no_record_pool (\<lambda>db. Inr (db, map rr_record
     (sort_key (\<lambda>r. (rr_created r, ad_collation db (wrec_id (rr_record r)))) (ad_records db))))"

definition list_withdraw_records :: "withdraw_repo \<Rightarrow> withdraw_record list backend_op" where
  "list_withdraw_records wp b =
     (if records_in_postgres wp
      then or_panic ''list withdraw records from postgres'' list_withdraw_records_postgres b
      else (b, Inr (ms_list_withdraw_records (be_store b))))"

definition get_local_claim_balance_snapshot :: "backend \<Rightarrow> balance_snapshot" where
  "get_local_claim_balance_snapshot b = ms_get_balance_snapshot (be_store b)"

subsection \<open>Requests: identifiers never repeat\<close>

text \<open>The rows were written under numbers the sequence has given.\<close>

definition wf_requests :: "app_db \<Rightarrow> bool" where
  "wf_requests db \<longleftrightarrow> distinct (map (wr_id \<circ> rq_request) (ad_requests db))
     \<and> (\<forall>r \<in> set (ad_requests db). \<exists>k. 1 \<le> k \<and> k \<le> ad_withdraw_seq db \<and> wr_id (rq_request r) = ''wd-'' @ nat_to_dec k)"

lemma wf_requests_next [simp]: "wf_requests (ad_next db) = wf_requests db"
  by (simp add: wf_requests_def)

lemma next_val_works:
  "db_works b \<Longrightarrow> ad_withdraw_seq (be_db b) + 1 < 2 ^ 63 \<Longrightarrow>
     next_val b = (b\<lparr>be_db := (ad_next (be_db b))\<lparr>ad_withdraw_seq := ad_withdraw_seq (be_db b) + 1\<rparr>\<rparr>,
       Inr (ad_withdraw_seq (be_db b) + 1))"
  by (simp add: next_val_def app_call_works)

lemma db_works_fields:
  "db_works (b\<lparr>be_db := db\<rparr>) = (ad_pool db \<and> ad_faults db = [])"
  by (simp add: db_works_def)

lemma seq_id_fresh:
  assumes "wf_requests db" and "ad_withdraw_seq db < k"
  shows "''wd-'' @ nat_to_dec k \<notin> (wr_id \<circ> rq_request) ` set (ad_requests db)"
  using assms by (fastforce simp: wf_requests_def nat_to_dec_inj)

lemma wf_requests_append:
  assumes "wf_requests db" and "wr_id wr = ''wd-'' @ nat_to_dec (ad_withdraw_seq db + 1)"
    and "ad_withdraw_seq db' = ad_withdraw_seq db + 1"
    and "ad_requests db' = ad_requests db @ [\<lparr>rq_request = wr, rq_status = st, rq_created = now\<rparr>]"
  shows "wf_requests db'"
proof -
  have "distinct (map (wr_id \<circ> rq_request) (ad_requests db'))"
    using assms(1,2) seq_id_fresh [OF assms(1), of "ad_withdraw_seq db + 1"]
    by (simp add: assms(4) wf_requests_def)
  moreover have "\<exists>k. 1 \<le> k \<and> k \<le> ad_withdraw_seq db + 1 \<and> wr_id (rq_request r) = ''wd-'' @ nat_to_dec k"
    if "r \<in> set (ad_requests db')" for r
  proof (cases "r \<in> set (ad_requests db)")
    case True
    with assms(1) show ?thesis unfolding wf_requests_def by (meson le_SucI Suc_eq_plus1 trans_le_add1)
  next
    case False
    with that assms(2,4) show ?thesis by (intro exI [of _ "ad_withdraw_seq db + 1"]) simp
  qed
  ultimately show ?thesis unfolding wf_requests_def assms(3) by blast
qed

lemma insert_request_works:
  assumes "db_works b" and "wr_id wr \<notin> (wr_id \<circ> rq_request) ` set (ad_requests (be_db b))"
  shows "insert_withdraw_request_postgres wr b = (b\<lparr>be_db := (ad_next (be_db b))\<lparr>ad_requests := ad_requests (be_db b)
     @ [\<lparr>rq_request = wr, rq_status = ''requested'', rq_created = ad_clock (be_db b) + 1\<rparr>]\<rparr>\<rparr>, Inr ())"
  using assms by (simp add: insert_withdraw_request_postgres_def app_call_works)

text \<open>A request created in Postgres is stored, under a number no row had, and read back as it was returned.\<close>

lemma create_request_postgres:
  assumes works: "db_works b" and wf: "wf_requests (be_db b)" and room: "ad_withdraw_seq (be_db b) + 1 < 2 ^ 63"
  defines "k \<equiv> ad_withdraw_seq (be_db b) + 1"
  shows "\<exists>b'. create_withdraw_request_postgres req b = (b', Inr (signed_request (''wd-'' @ nat_to_dec k) req (nat_to_dec k)))
    \<and> db_works b' \<and> wf_requests (be_db b') \<and> ad_withdraw_seq (be_db b') = k
    \<and> map rq_request (ad_requests (be_db b')) = map rq_request (ad_requests (be_db b))
        @ [signed_request (''wd-'' @ nat_to_dec k) req (nat_to_dec k)]"
proof -
  let ?wr = "signed_request (''wd-'' @ nat_to_dec k) req (nat_to_dec k)"
  let ?b1 = "b\<lparr>be_db := (ad_next (be_db b))\<lparr>ad_withdraw_seq := k\<rparr>\<rparr>"
  have works1: "db_works ?b1" using works by (simp add: db_works_def ad_next_def)
  have fresh: "wr_id ?wr \<notin> (wr_id \<circ> rq_request) ` set (ad_requests (be_db ?b1))"
    using seq_id_fresh [OF wf, of k] by (simp add: signed_request_def k_def)
  have run: "create_withdraw_request_postgres req b =
      (?b1\<lparr>be_db := (ad_next (be_db ?b1))\<lparr>ad_requests := ad_requests (be_db ?b1)
        @ [\<lparr>rq_request = ?wr, rq_status = ''requested'', rq_created = ad_clock (be_db ?b1) + 1\<rparr>]\<rparr>\<rparr>, Inr ?wr)"
    using next_val_works [OF works room] insert_request_works [OF works1 fresh]
    by (simp add: create_withdraw_request_postgres_def be_bind_def Let_def k_def)
  have "wf_requests (be_db (fst (create_withdraw_request_postgres req b)))"
    unfolding run fst_conv
    by (rule wf_requests_append [OF wf, of ?wr _ "''requested''" "ad_clock (be_db ?b1) + 1"])
       (simp_all add: signed_request_def k_def)
  with works run show ?thesis by (simp add: db_works_def ad_next_def)
qed

subsection \<open>Records: a claim succeeds once\<close>

lemma find_map_same: "(\<And>x. p (f x) = p x) \<Longrightarrow> find p (map f xs) = map_option f (find p xs)"
  by (induction xs) simp_all

lemma get_record_works:
  "db_works b \<Longrightarrow> get_withdraw_record_postgres i b = (b\<lparr>be_db := ad_next (be_db b)\<rparr>,
     case find (\<lambda>r. wrec_id (rr_record r) = i) (ad_records (be_db b)) of
       None \<Rightarrow> Inl ErrWithdrawRecordNotFound | Some r \<Rightarrow> Inr (rr_record r))"
  by (simp add: get_withdraw_record_postgres_def app_call_works split: option.split)

lemma mark_claimed_works:
  "db_works b \<Longrightarrow> mark_claimed_postgres i b = (b\<lparr>be_db := (ad_next (be_db b))\<lparr>ad_records := map (\<lambda>r.
     if wrec_id (rr_record r) = i then r\<lparr>rr_record := (rr_record r)\<lparr>wrec_claimed := True\<rparr>\<rparr> else r)
     (ad_records (be_db b))\<rparr>\<rparr>, Inr ())"
  by (simp add: mark_claimed_postgres_def app_call_works)

lemma works_next: "db_works b \<Longrightarrow> db_works (b\<lparr>be_db := ad_next (be_db b)\<rparr>)"
  by (simp add: db_works_def ad_next_def)

lemma claim_postgres_works:
  assumes "db_works b"
  shows "\<exists>b'. be_store b' = be_store b \<and> db_works b'
    \<and> (case find (\<lambda>r. wrec_id (rr_record r) = i) (ad_records (be_db b)) of
        None \<Rightarrow> claim_withdraw_record_postgres i b = (b', Inl ErrWithdrawRecordNotFound)
          \<and> ad_records (be_db b') = ad_records (be_db b)
      | Some r \<Rightarrow> if wrec_claimed (rr_record r)
          then claim_withdraw_record_postgres i b = (b', Inl ErrWithdrawAlreadyClaimed)
            \<and> ad_records (be_db b') = ad_records (be_db b)
          else claim_withdraw_record_postgres i b = (b', Inr ((rr_record r)\<lparr>wrec_claimed := True\<rparr>))
            \<and> (\<exists>r'. find (\<lambda>r. wrec_id (rr_record r) = i) (ad_records (be_db b')) = Some r'
                  \<and> wrec_claimed (rr_record r')))"
proof (cases "find (\<lambda>r. wrec_id (rr_record r) = i) (ad_records (be_db b))")
  case None
  then show ?thesis
    using get_record_works [OF assms, of i] works_next [OF assms]
    by (intro exI [of _ "b\<lparr>be_db := ad_next (be_db b)\<rparr>"])
       (simp add: claim_withdraw_record_postgres_def be_bind_def)
next
  case (Some r)
  then have id: "wrec_id (rr_record r) = i" by (auto simp: find_Some_iff)
  let ?b1 = "b\<lparr>be_db := ad_next (be_db b)\<rparr>"
  note w1 = works_next [OF assms]
  show ?thesis
  proof (cases "wrec_claimed (rr_record r)")
    case True
    with Some get_record_works [OF assms, of i] w1 show ?thesis
      by (intro exI [of _ ?b1]) (simp add: claim_withdraw_record_postgres_def claim_after_read_def be_bind_def)
  next
    case False
    let ?f = "\<lambda>r. if wrec_id (rr_record r) = i then r\<lparr>rr_record := (rr_record r)\<lparr>wrec_claimed := True\<rparr>\<rparr> else r"
    let ?b2 = "?b1\<lparr>be_db := (ad_next (be_db ?b1))\<lparr>ad_records := map ?f (ad_records (be_db ?b1))\<rparr>\<rparr>"
    have "find (\<lambda>r. wrec_id (rr_record r) = i) (map ?f (ad_records (be_db b))) = Some (?f r)"
      using Some by (subst find_map_same) simp_all
    moreover have "db_works ?b2" using w1 by (simp add: db_works_def ad_next_def)
    ultimately show ?thesis
      using Some False id get_record_works [OF assms, of i] mark_claimed_works [OF w1, of i]
      by (intro exI [of _ ?b2]) (simp add: claim_withdraw_record_postgres_def claim_after_read_def be_bind_def)
  qed
qed

lemma claim_memory:
  "claim_withdraw_record_memory i b = (case ms_records (be_store b) i of
     None \<Rightarrow> (b, Inl ErrWithdrawRecordNotFound)
   | Some r \<Rightarrow> if wrec_claimed r then (b, Inl ErrWithdrawAlreadyClaimed)
       else (on_store (\<lambda>s. fst (ms_claim_withdraw_record i s)) b, Inr (r\<lparr>wrec_claimed := True\<rparr>)))"
  by (simp add: claim_withdraw_record_memory_def ms_get_withdraw_record_def ms_claim_withdraw_record_def
      on_store_def Let_def split: option.split)

lemma claim_store_record:
  "ms_records s i = Some r \<Longrightarrow> ms_records (fst (ms_claim_withdraw_record i s)) i = Some (r\<lparr>wrec_claimed := True\<rparr>)"
  by (simp add: ms_claim_withdraw_record_def Let_def)

text \<open>A claimed record is refused, wherever it is stored, and nothing but the clock of the database moves.\<close>

lemma claim_once:
  assumes works: "records_in_postgres wp \<Longrightarrow> db_works b"
    and claim: "claim_withdraw_record wp i b = (b', Inr rec)"
  shows "wrec_claimed rec \<and> (\<exists>b''. claim_withdraw_record wp i b' = (b'', Inl ErrWithdrawAlreadyClaimed)
    \<and> be_store b'' = be_store b')"
proof (cases "records_in_postgres wp")
  case False
  with claim show ?thesis
    by (auto simp: claim_withdraw_record_def claim_memory claim_store_record split: option.splits if_splits)
next
  case True
  note w = works [OF True]
  from claim_postgres_works [OF w, of i] obtain b1 where
    b1: "be_store b1 = be_store b" "db_works b1" and
    res: "case find (\<lambda>r. wrec_id (rr_record r) = i) (ad_records (be_db b)) of
        None \<Rightarrow> claim_withdraw_record_postgres i b = (b1, Inl ErrWithdrawRecordNotFound)
          \<and> ad_records (be_db b1) = ad_records (be_db b)
      | Some r \<Rightarrow> if wrec_claimed (rr_record r)
          then claim_withdraw_record_postgres i b = (b1, Inl ErrWithdrawAlreadyClaimed)
            \<and> ad_records (be_db b1) = ad_records (be_db b)
          else claim_withdraw_record_postgres i b = (b1, Inr ((rr_record r)\<lparr>wrec_claimed := True\<rparr>))
            \<and> (\<exists>r'. find (\<lambda>r. wrec_id (rr_record r) = i) (ad_records (be_db b1)) = Some r'
                  \<and> wrec_claimed (rr_record r'))" by blast
  show ?thesis
  proof (cases "find (\<lambda>r. wrec_id (rr_record r) = i) (ad_records (be_db b))")
    case None
    with res have pg: "claim_withdraw_record_postgres i b = (b1, Inl ErrWithdrawRecordNotFound)"
      and same: "ad_records (be_db b1) = ad_records (be_db b)" by simp_all
    from claim True pg have mem: "claim_withdraw_record_memory i b1 = (b', Inr rec)"
      by (simp add: claim_withdraw_record_def)
    then obtain r where r: "ms_records (be_store b1) i = Some r" "\<not> wrec_claimed r"
      "b' = on_store (\<lambda>s. fst (ms_claim_withdraw_record i s)) b1" "rec = r\<lparr>wrec_claimed := True\<rparr>"
      by (auto simp: claim_memory split: option.splits if_splits)
    have w': "db_works b'" using b1(2) r(3) by (simp add: db_works_def)
    have "find (\<lambda>r. wrec_id (rr_record r) = i) (ad_records (be_db b')) = None"
      using None same r(3) by simp
    with claim_postgres_works [OF w', of i] obtain b2 where
      "claim_withdraw_record_postgres i b' = (b2, Inl ErrWithdrawRecordNotFound)" "be_store b2 = be_store b'"
      by auto
    with True r claim_store_record [OF r(1)] show ?thesis
      by (simp add: claim_withdraw_record_def claim_memory)
  next
    case (Some r)
    with claim True res have nc: "\<not> wrec_claimed (rr_record r)"
      by (auto simp: claim_withdraw_record_def split: if_splits)
    with Some res obtain r' where
      pg: "claim_withdraw_record_postgres i b = (b1, Inr ((rr_record r)\<lparr>wrec_claimed := True\<rparr>))"
      and r': "find (\<lambda>r. wrec_id (rr_record r) = i) (ad_records (be_db b1)) = Some r'" "wrec_claimed (rr_record r')"
      by auto
    from claim True pg have rec: "rec = (rr_record r)\<lparr>wrec_claimed := True\<rparr>" and db: "be_db b' = be_db b1"
      by (auto simp: claim_withdraw_record_def split: if_splits)
    have w': "db_works b'" using b1(2) db by (simp add: db_works_def)
    from claim_postgres_works [OF w', of i] r' db obtain b2 where
      "claim_withdraw_record_postgres i b' = (b2, Inl ErrWithdrawAlreadyClaimed)" "be_store b2 = be_store b'"
      by auto
    with True rec show ?thesis by (simp add: claim_withdraw_record_def)
  qed
qed

text \<open>
  Two requests that interleave. Both read the record before either marks it: both are answered with
  success.
\<close>

lemma claim_race:
  assumes "db_works b" and "find (\<lambda>r. wrec_id (rr_record r) = i) (ad_records (be_db b)) = Some r"
    and "\<not> wrec_claimed (rr_record r)"
  shows "\<exists>b1 b2 b3 b4. get_withdraw_record_postgres i b = (b1, Inr (rr_record r))
    \<and> get_withdraw_record_postgres i b1 = (b2, Inr (rr_record r))
    \<and> claim_after_read i (rr_record r) b2 = (b3, Inr ((rr_record r)\<lparr>wrec_claimed := True\<rparr>))
    \<and> claim_after_read i (rr_record r) b3 = (b4, Inr ((rr_record r)\<lparr>wrec_claimed := True\<rparr>))"
proof -
  let ?b1 = "b\<lparr>be_db := ad_next (be_db b)\<rparr>"
  let ?b2 = "?b1\<lparr>be_db := ad_next (be_db ?b1)\<rparr>"
  note w1 = works_next [OF assms(1)]
  note w2 = works_next [OF w1]
  have c: "\<exists>b'. claim_after_read i (rr_record r) b = (b', Inr ((rr_record r)\<lparr>wrec_claimed := True\<rparr>)) \<and> db_works b'"
    if "db_works b" for b
    using mark_claimed_works [OF that, of i] that assms(3)
    by (simp add: claim_after_read_def be_bind_def db_works_def ad_next_def)
  from c [OF w2] obtain b3 where
    b3: "claim_after_read i (rr_record r) ?b2 = (b3, Inr ((rr_record r)\<lparr>wrec_claimed := True\<rparr>))" "db_works b3" by blast
  from c [OF b3(2)] obtain b4 where
    b4: "claim_after_read i (rr_record r) b3 = (b4, Inr ((rr_record r)\<lparr>wrec_claimed := True\<rparr>))" by blast
  show ?thesis
    using get_record_works [OF assms(1), of i] get_record_works [OF w1, of i] b3(1) b4 assms(2) by auto
qed

end
