(* ===== verification/Batch_Repository.thy ===== *)
theory Batch_Repository
  imports Withdraw_Repository
begin

text \<open>
  \<^verbatim>\<open>batch_repository.go\<close>, \<^verbatim>\<open>proof_repository.go\<close>,
  \<^verbatim>\<open>deposit_repository.go\<close> and \<^verbatim>\<open>state_repository.go\<close> of
  \<^verbatim>\<open>internal/repository\<close>. The chain's REST query client is a parameter of the deposit and
  the state repositories: a function that gives its answers.
\<close>

subsection \<open>Batches\<close>

record batch_repo =
  bp_build_store :: string
  bp_submit_store :: string

definition new_batch_repository :: batch_repo where
  "new_batch_repository = \<lparr>bp_build_store = store_memory, bp_submit_store = store_memory\<rparr>"

definition new_batch_repository_with_db :: "string \<Rightarrow> string list \<Rightarrow> batch_repo" where
  "new_batch_repository_with_db build_store submit_store_values =
     \<lparr>bp_build_store = (if build_store = [] then store_memory else build_store),
      bp_submit_store = (case submit_store_values of v # _ \<Rightarrow> if v \<noteq> [] then v else store_memory
        | [] \<Rightarrow> store_memory)\<rparr>"

definition save_batch_build_postgres :: "settlement_update \<Rightarrow> batch_commitments \<Rightarrow> witness \<Rightarrow> unit backend_op" where
  "save_batch_build_postgres u c w =
     app_call ''postgres batch build store selected but db pool is nil'' (\<lambda>db.
       Inr (db\<lparr>ad_builds := (ad_builds db)(su_batch_id u \<mapsto>
         \<lparr>br_update = u, br_commitments = c, br_witness = w, br_status = ''built''\<rparr>)\<rparr>, ()))"

definition save_batch_build ::
    "batch_repo \<Rightarrow> settlement_update \<Rightarrow> batch_commitments \<Rightarrow> witness \<Rightarrow> unit backend_op" where
  "save_batch_build bp u c w b =
     (let b1 = on_store (ms_save_batch_build u c) b in
      if bp_build_store bp = store_postgres
      then or_panic ''save batch build in postgres'' (save_batch_build_postgres u c w) b1
      else (b1, Inr ()))"

definition put_submit_row :: "string \<Rightarrow> string \<Rightarrow> bool \<Rightarrow> string \<Rightarrow> app_db \<Rightarrow> app_db" where
  "put_submit_row batch tx_hash accepted proof_status db = db\<lparr>ad_submits := (ad_submits db)(batch \<mapsto>
     \<lparr>sr_tx_hash = tx_hash, sr_accepted = accepted, sr_proof_status = proof_status, sr_error = None\<rparr>)\<rparr>"

text \<open>One transaction: the row of the batch, then a row per record; an error undoes all of it.\<close>

definition upsert_record_step :: "string \<Rightarrow> app_db \<Rightarrow> withdraw_record \<Rightarrow> app_db res" where
  "upsert_record_step tx_hash db rec = map_sum id fst (upsert_record rec (\<lambda>_. Some tx_hash) db)"

definition save_batch_submit_result_postgres ::
    "settlement_update \<Rightarrow> string \<Rightarrow> bool \<Rightarrow> string \<Rightarrow> withdraw_record list \<Rightarrow> unit backend_op" where
  "save_batch_submit_result_postgres u tx_hash accepted proof_status0 records b =
     (if \<not> ad_pool (be_db b) then (b, Inl (ErrText ''postgres submit batch store selected but db pool is nil''))
      else if su_batch_id u = [] then (b, Inl (ErrText ''batch id is required to persist submit batch result''))
      else let proof_status = (if proof_status0 = [] then ''accepted'' else proof_status0) in
        app_call [] (\<lambda>db.
          case fold_res (upsert_record_step tx_hash)
                 (put_submit_row (su_batch_id u) tx_hash accepted proof_status db) records of
            Inl e \<Rightarrow> Inl e | Inr db' \<Rightarrow> Inr (db', ())) b)"

definition save_batch_submit_result ::
    "batch_repo \<Rightarrow> settlement_update \<Rightarrow> batch_commitments \<Rightarrow> string \<Rightarrow> bool \<Rightarrow> string
     \<Rightarrow> withdraw_record list \<Rightarrow> unit backend_op" where
  "save_batch_submit_result bp u c tx_hash accepted proof_status records b =
     (let b1 = on_store (ms_save_batch_submitted u c records) b in
      if bp_submit_store bp = store_postgres
      then or_panic ''save submit batch result in postgres''
             (save_batch_submit_result_postgres u tx_hash accepted proof_status records) b1
      else (b1, Inr ()))"

definition save_batch_submitted ::
    "batch_repo \<Rightarrow> settlement_update \<Rightarrow> batch_commitments \<Rightarrow> withdraw_record list \<Rightarrow> unit backend_op" where
  "save_batch_submitted bp u c records = save_batch_submit_result bp u c [] True ''accepted'' records"

definition get_local_settlement_update :: settlement_update where
  "get_local_settlement_update = \<lparr>su_batch_id = ''batch-1'', su_old_root = ''0xrootA'', su_new_root = ''0xrootB'',
     su_deposits = [\<lparr>sd_id = ''dep-1'', sd_owner = ''cosmos1alice'', sd_denom = ''uusdc'', sd_amount = ''100''\<rparr>],
     su_withdrawals = [\<lparr>sw_id = ''wd-1'', sw_owner = ''cosmos1alice'', sw_denom = ''uusdc'', sw_amount = ''40'',
       sw_destination = ''cosmos1alice'', sw_destination_hash = ''0xmockdestinationhash'',
       sw_nullifier = ''0xmocknullifier''\<rparr>]\<rparr>"

definition get_local_batch_commitments :: batch_commitments where
  "get_local_batch_commitments = \<lparr>bc_deposits_root = ''0xdepositsRoot'', bc_withdrawals_root = ''0xwithdrawalsRoot'',
     bc_nullifiers_root = ''0xnullifiersRoot'', bc_withdraw_outputs_root = ''0xwithdrawOutputsRoot''\<rparr>"

definition get_local_witness :: witness where
  "get_local_witness = \<lparr>wit_accounts = [\<lparr>wa_owner = ''cosmos1alice'', wa_user_secret = ''mock-user-secret'',
     wa_nonce = ''1'', wa_old_balance = ''0'', wa_new_balance = ''60''\<rparr>], wit_state_path = []\<rparr>"

subsection \<open>Proofs\<close>

definition new_proof_bundle_store :: "string \<Rightarrow> string" where
  "new_proof_bundle_store proof_store = (if proof_store = [] then store_memory else proof_store)"

definition save_proof_bundle_postgres :: "string \<Rightarrow> proof_bundle \<Rightarrow> unit backend_op" where
  "save_proof_bundle_postgres batch p b =
     (if \<not> ad_pool (be_db b) then (b, Inl (ErrText ''postgres proof bundle store selected but db pool is nil''))
      else if batch = [] then (b, Inl (ErrText ''batch id is required to persist proof bundle''))
      else app_call [] (\<lambda>db. Inr (db\<lparr>ad_proofs := (ad_proofs db)(batch \<mapsto>
             \<lparr>pf_bundle = p, pf_status = ''ready''\<rparr>)\<rparr>, ())) b)"

definition save_proof_bundle :: "string \<Rightarrow> string \<Rightarrow> proof_bundle \<Rightarrow> unit backend_op" where
  "save_proof_bundle proof_store batch p b =
     (let b1 = on_store (ms_save_proof_bundle p) b in
      if proof_store = store_postgres
      then or_panic ''save proof bundle in postgres'' (save_proof_bundle_postgres batch p) b1
      else (b1, Inr ()))"

definition get_local_proof_bundle :: proof_bundle where
  "get_local_proof_bundle = \<lparr>pb_proof = ''0xmockproof'', pb_public_inputs = [''0xrootA'', ''0xrootB'',
     ''0xdepositsRoot'', ''0xwithdrawalsRoot'', ''0xnullifiersRoot'', ''0xwithdrawOutputsRoot''],
     pb_vk_id = ''v1''\<rparr>"

subsection \<open>Deposits\<close>

record deposit_repo =
  dr_client :: "(string \<Rightarrow> deposit_record option res) option"
  dr_mode :: string

definition new_deposit_repository :: deposit_repo where
  "new_deposit_repository = \<lparr>dr_client = None, dr_mode = ''local''\<rparr>"

definition new_deposit_repository_with_chain_query ::
    "(string \<Rightarrow> deposit_record option res) option \<Rightarrow> string \<Rightarrow> deposit_repo" where
  "new_deposit_repository_with_chain_query client mode =
     \<lparr>dr_client = client, dr_mode = (if mode = [] then ''local'' else mode)\<rparr>"

definition save_deposit :: "deposit_record \<Rightarrow> backend \<Rightarrow> backend" where
  "save_deposit r = on_store (ms_save_deposit r)"

definition get_deposit_local_only :: "string \<Rightarrow> backend \<Rightarrow> deposit_record res" where
  "get_deposit_local_only i b = (case ms_get_deposit i (be_store b) of
     None \<Rightarrow> Inl ErrDepositNotFound | Some r \<Rightarrow> Inr r)"

definition get_deposit_chain_first ::
    "(string \<Rightarrow> deposit_record option res) \<Rightarrow> string \<Rightarrow> backend \<Rightarrow> deposit_record res" where
  "get_deposit_chain_first client i b = (case client i of Inl e \<Rightarrow> Inl e
     | Inr (Some r) \<Rightarrow> Inr r
     | Inr None \<Rightarrow> (case ms_get_deposit i (be_store b) of
         Some r \<Rightarrow> Inr r | None \<Rightarrow> Inl ErrDepositNotFound))"

definition get_deposit :: "deposit_repo \<Rightarrow> string \<Rightarrow> backend \<Rightarrow> deposit_record res" where
  "get_deposit dr i b = (case dr_client dr of
     Some client \<Rightarrow> if dr_mode dr = ''rest'' then get_deposit_chain_first client i b
                    else get_deposit_local_only i b
   | None \<Rightarrow> get_deposit_local_only i b)"

definition list_deposits :: "backend \<Rightarrow> deposit_record list" where
  "list_deposits b = ms_list_deposits (be_store b)"

subsection \<open>The dashboard\<close>

record state_query =
  sq_root :: "string res"
  sq_module_balance :: "(string \<times> string) list res"

definition normalize_module_balance :: "(string \<times> string) list \<Rightarrow> (string \<rightharpoonup> string)" where
  "normalize_module_balance balance = (if balance \<noteq> [] then map_of balance else [''uusdc'' \<mapsto> ''0''])"

definition repo_get_state :: "state_query option \<Rightarrow> string \<Rightarrow> backend \<Rightarrow> app_state" where
  "repo_get_state client mode b =
     (let state = get_app_state (be_store b) in
      case client of None \<Rightarrow> state
      | Some q \<Rightarrow> if mode \<noteq> ''rest'' then state else
          let state1 = (case sq_root q of Inr root \<Rightarrow>
                (if root \<noteq> [] then state\<lparr>as_current_root := root\<rparr> else state) | Inl _ \<Rightarrow> state) in
          (case sq_module_balance q of
             Inr balance \<Rightarrow> state1\<lparr>as_module_balance := normalize_module_balance balance\<rparr>
           | Inl _ \<Rightarrow> state1))"

subsection \<open>What is kept\<close>

text \<open>The records written by a batch are all or nothing, and no nullifier is ever in two rows.\<close>

definition wf_record_rows :: "app_db \<Rightarrow> bool" where
  "wf_record_rows db \<longleftrightarrow> distinct (map (wrec_id \<circ> rr_record) (ad_records db))
     \<and> distinct (map (wrec_nullifier \<circ> rr_record) (ad_records db))"

lemma wf_record_rows_alt:
  "distinct (map (wrec_id \<circ> rr_record) rows) \<Longrightarrow> distinct (map (wrec_nullifier \<circ> rr_record) rows) \<longleftrightarrow>
     (\<forall>r \<in> set rows. \<forall>s \<in> set rows. wrec_nullifier (rr_record r) = wrec_nullifier (rr_record s)
        \<longrightarrow> wrec_id (rr_record r) = wrec_id (rr_record s))"
proof -
  assume ids: "distinct (map (wrec_id \<circ> rr_record) rows)"
  then have d: "distinct rows" and inj: "inj_on (wrec_id \<circ> rr_record) (set rows)" by (simp_all add: distinct_map)
  have same: "(wrec_id (rr_record r) = wrec_id (rr_record s)) = (r = s)" if "r \<in> set rows" "s \<in> set rows" for r s
    using inj_on_eq_iff [OF inj that] by simp
  show ?thesis using d by (simp add: distinct_map inj_on_def same)
qed

lemma map_upd_ids:
  "map (wrec_id \<circ> rr_record) (map (\<lambda>r. if wrec_id (rr_record r) = wrec_id rec
     then r\<lparr>rr_record := rec, rr_tx_hash := f r\<rparr> else r) rows) = map (wrec_id \<circ> rr_record) rows"
  by auto

definition record_conflict :: "withdraw_record \<Rightarrow> record_row list \<Rightarrow> bool" where
  "record_conflict rec rows \<longleftrightarrow> (\<exists>r \<in> set rows. wrec_nullifier (rr_record r) = wrec_nullifier rec
     \<and> wrec_id (rr_record r) \<noteq> wrec_id rec)"

lemma upsert_record_Inr:
  "upsert_record rec tx db = Inr (db', x) \<longleftrightarrow> \<not> record_conflict rec (ad_records db)
     \<and> db' = db\<lparr>ad_records := (if wrec_id rec \<in> (wrec_id \<circ> rr_record) ` set (ad_records db)
         then map (\<lambda>r. if wrec_id (rr_record r) = wrec_id rec
             then r\<lparr>rr_record := rec, rr_tx_hash := tx (rr_tx_hash r)\<rparr> else r) (ad_records db)
         else ad_records db @ [\<lparr>rr_record = rec, rr_tx_hash = tx None, rr_created = ad_clock db\<rparr>])\<rparr>"
  unfolding upsert_record_def record_conflict_def [symmetric] by auto

lemma replace_record_wf:
  fixes tx :: "record_row \<Rightarrow> string option"
  assumes ids: "distinct (map (wrec_id \<circ> rr_record) rows)" and nfs: "distinct (map (wrec_nullifier \<circ> rr_record) rows)"
    and free: "\<not> record_conflict rec rows"
  defines "upd \<equiv> \<lambda>r. if wrec_id (rr_record r) = wrec_id rec then r\<lparr>rr_record := rec, rr_tx_hash := tx r\<rparr> else r"
  shows "distinct (map (wrec_nullifier \<circ> rr_record) (map upd rows))"
proof -
  have ids': "distinct (map (wrec_id \<circ> rr_record) (map upd rows))"
    unfolding upd_def map_upd_ids by (rule ids)
  have same: "wrec_id (rr_record r) = wrec_id (rr_record s)"
    if "r \<in> set rows" "s \<in> set rows" "wrec_nullifier (rr_record r) = wrec_nullifier (rr_record s)" for r s
    using nfs that unfolding wf_record_rows_alt [OF ids] by blast
  have own: "wrec_id (rr_record r) = wrec_id rec" if "r \<in> set rows" "wrec_nullifier (rr_record r) = wrec_nullifier rec" for r
    using free that unfolding record_conflict_def by blast
  have upd: "wrec_id (rr_record (upd r)) = wrec_id (rr_record r)"
    "wrec_nullifier (rr_record (upd r)) = (if wrec_id (rr_record r) = wrec_id rec then wrec_nullifier rec
       else wrec_nullifier (rr_record r))" for r
    by (simp_all add: upd_def)
  have "wrec_id (rr_record (upd r)) = wrec_id (rr_record (upd s))"
    if "r \<in> set rows" "s \<in> set rows" "wrec_nullifier (rr_record (upd r)) = wrec_nullifier (rr_record (upd s))" for r s
  proof (cases "wrec_id (rr_record r) = wrec_id rec"; cases "wrec_id (rr_record s) = wrec_id rec")
    assume c: "wrec_id (rr_record r) = wrec_id rec" "wrec_id (rr_record s) \<noteq> wrec_id rec"
    with that(3) have "wrec_nullifier (rr_record s) = wrec_nullifier rec" by (simp add: upd)
    with own [OF that(2)] c(2) show ?thesis by blast
  next
    assume c: "wrec_id (rr_record r) \<noteq> wrec_id rec" "wrec_id (rr_record s) = wrec_id rec"
    with that(3) have "wrec_nullifier (rr_record r) = wrec_nullifier rec" by (simp add: upd)
    with own [OF that(1)] c(1) show ?thesis by blast
  next
    assume c: "wrec_id (rr_record r) \<noteq> wrec_id rec" "wrec_id (rr_record s) \<noteq> wrec_id rec"
    with that(3) have "wrec_nullifier (rr_record r) = wrec_nullifier (rr_record s)" by (simp only: upd if_False)
    with same [OF that(1,2)] show ?thesis by (simp only: upd)
  qed (simp only: upd)
  then have "\<forall>r \<in> set (map upd rows). \<forall>s \<in> set (map upd rows).
      wrec_nullifier (rr_record r) = wrec_nullifier (rr_record s) \<longrightarrow> wrec_id (rr_record r) = wrec_id (rr_record s)"
    unfolding set_map ball_simps by blast
  then show ?thesis by (rule wf_record_rows_alt [OF ids', THEN iffD2])
qed

lemma upsert_record_wf:
  assumes "upsert_record rec tx db = Inr (db', x)" and "wf_record_rows db"
  shows "wf_record_rows db'"
proof -
  from assms(2) have ids: "distinct (map (wrec_id \<circ> rr_record) (ad_records db))"
    and nfs: "distinct (map (wrec_nullifier \<circ> rr_record) (ad_records db))" by (simp_all add: wf_record_rows_def)
  from assms(1) have free: "\<not> record_conflict rec (ad_records db)" by (simp add: upsert_record_Inr)
  show ?thesis
  proof (cases "wrec_id rec \<in> (wrec_id \<circ> rr_record) ` set (ad_records db)")
    case True
    define upd :: "record_row \<Rightarrow> record_row" where "upd = (\<lambda>r. if wrec_id (rr_record r) = wrec_id rec
      then r\<lparr>rr_record := rec, rr_tx_hash := tx (rr_tx_hash r)\<rparr> else r)"
    from True assms(1) have rows: "ad_records db' = map upd (ad_records db)"
      by (simp add: upsert_record_Inr upd_def)
    have "distinct (map (wrec_id \<circ> rr_record) (ad_records db'))"
      unfolding rows upd_def map_upd_ids by (rule ids)
    moreover have "distinct (map (wrec_nullifier \<circ> rr_record) (ad_records db'))"
      unfolding rows upd_def by (rule replace_record_wf [OF ids nfs free])
    ultimately show ?thesis by (simp only: wf_record_rows_def)
  next
    case False
    have "wrec_nullifier rec \<notin> (wrec_nullifier \<circ> rr_record) ` set (ad_records db)"
    proof
      assume "wrec_nullifier rec \<in> (wrec_nullifier \<circ> rr_record) ` set (ad_records db)"
      then obtain r where "r \<in> set (ad_records db)" "wrec_nullifier (rr_record r) = wrec_nullifier rec" by auto
      with False free show False unfolding record_conflict_def by force
    qed
    with False assms(1) ids nfs show ?thesis by (simp add: wf_record_rows_def upsert_record_Inr)
  qed
qed

lemma fold_upsert_wf:
  assumes "fold_res (upsert_record_step tx) db records = Inr db'" and "wf_record_rows db"
  shows "wf_record_rows db'"
using assms
proof (rule fold_res_invariant)
  fix s x s'
  assume "wf_record_rows s" and "upsert_record_step tx s x = Inr s'"
  then show "wf_record_rows s'"
    by (cases "upsert_record x (\<lambda>_. Some tx) s") (auto simp: upsert_record_step_def dest: upsert_record_wf)
qed

lemma wf_record_rows_next [simp]: "wf_record_rows (ad_next db) = wf_record_rows db"
  by (simp add: wf_record_rows_def)

lemma save_submit_result_wf:
  assumes "save_batch_submit_result bp u c tx acc st records b = (b', r)" and "wf_record_rows (be_db b)"
  shows "wf_record_rows (be_db b')"
proof -
  have keeps: "wf_record_rows (be_db b2)"
    if "save_batch_submit_result_postgres u tx acc st records b1 = (b2, r')" "wf_record_rows (be_db b1)" for b1 b2 r'
    using that
    by (auto simp: save_batch_submit_result_postgres_def Let_def split: if_splits elim!: app_call_keeps
        split: sum.splits) (auto dest!: fold_upsert_wf simp: put_submit_row_def wf_record_rows_def)
  show ?thesis using assms
    by (auto simp: save_batch_submit_result_def or_panic_def Let_def split: if_splits prod.splits sum.splits
        dest: keeps)
qed

end
