(* ===== verification/Json_Bodies.thy ===== *)
theory Json_Bodies
  imports Go_Json App_Database
begin

text \<open>
  \<^verbatim>\<open>json.Marshal\<close> of the settlement types, by their field tags, and the digests the local
  prover and the local relayer make of it. A map is written with its keys in order. A slice of the
  model is never nil, so it is written as an array.
\<close>

definition json_bool :: "bool \<Rightarrow> string" where
  "json_bool x = (if x then ''true'' else ''false'')"

definition json_strings :: "string list \<Rightarrow> string" where
  "json_strings xs = json_array (map json_string xs)"

definition json_settlement_deposit :: "settlement_deposit \<Rightarrow> string" where
  "json_settlement_deposit d = json_object [(''depositId'', json_string (sd_id d)),
     (''owner'', json_string (sd_owner d)), (''denom'', json_string (sd_denom d)),
     (''amount'', json_string (sd_amount d))]"

definition json_settlement_withdrawal :: "settlement_withdrawal \<Rightarrow> string" where
  "json_settlement_withdrawal w = json_object [(''withdrawId'', json_string (sw_id w)),
     (''owner'', json_string (sw_owner w)), (''denom'', json_string (sw_denom w)),
     (''amount'', json_string (sw_amount w)), (''destination'', json_string (sw_destination w)),
     (''destinationHash'', json_string (sw_destination_hash w)),
     (''nullifier'', json_string (sw_nullifier w))]"

definition json_settlement_update :: "settlement_update \<Rightarrow> string" where
  "json_settlement_update u = json_object [(''batchId'', json_string (su_batch_id u)),
     (''oldStateRoot'', json_string (su_old_root u)), (''newStateRoot'', json_string (su_new_root u)),
     (''deposits'', json_array (map json_settlement_deposit (su_deposits u))),
     (''withdrawals'', json_array (map json_settlement_withdrawal (su_withdrawals u)))]"

definition json_batch_commitments :: "batch_commitments \<Rightarrow> string" where
  "json_batch_commitments c = json_object [(''depositsRoot'', json_string (bc_deposits_root c)),
     (''withdrawalsRoot'', json_string (bc_withdrawals_root c)),
     (''nullifiersRoot'', json_string (bc_nullifiers_root c)),
     (''withdrawOutputsRoot'', json_string (bc_withdraw_outputs_root c))]"

definition json_witness_account :: "witness_account \<Rightarrow> string" where
  "json_witness_account a = json_object [(''owner'', json_string (wa_owner a)),
     (''userSecret'', json_string (wa_user_secret a)), (''nonce'', json_string (wa_nonce a)),
     (''oldBalance'', json_string (wa_old_balance a)), (''newBalance'', json_string (wa_new_balance a))]"

text \<open>\<^verbatim>\<open>statePath\<close> is omitted when it is empty.\<close>

definition json_witness :: "witness \<Rightarrow> string" where
  "json_witness w = json_object ((''accounts'', json_array (map json_witness_account (wit_accounts w)))
     # (if wit_state_path w = [] then [] else [(''statePath'', json_strings (wit_state_path w))]))"

definition json_proof_bundle :: "proof_bundle \<Rightarrow> string" where
  "json_proof_bundle p = json_object [(''proof'', json_string (pb_proof p)),
     (''publicInputs'', json_strings (pb_public_inputs p)),
     (''verificationKeyId'', json_string (pb_vk_id p))]"

definition json_withdraw_record :: "withdraw_record \<Rightarrow> string" where
  "json_withdraw_record r = json_object [(''withdrawId'', json_string (wrec_id r)),
     (''owner'', json_string (wrec_owner r)), (''denom'', json_string (wrec_denom r)),
     (''amount'', json_string (wrec_amount r)), (''destination'', json_string (wrec_destination r)),
     (''nullifier'', json_string (wrec_nullifier r)), (''claimed'', json_bool (wrec_claimed r))]"

text \<open>\<^verbatim>\<open>localHash(label, raw)\<close>; marshalling these types cannot fail.\<close>

definition local_hash :: "string list \<Rightarrow> string" where
  "local_hash parts = sha256_hex (local_hash_input parts)"

definition hash_json :: "string \<Rightarrow> string \<Rightarrow> string" where
  "hash_json label raw = local_hash [label, raw]"

lemma hash_json_not_Nil [simp]: "hash_json label raw \<noteq> []"
  by (simp add: hash_json_def local_hash_def)

end
