(* ===== verification/Prover.thy ===== *)
theory Prover
  imports Json_Bodies Public_Inputs
begin

text \<open>
  \<^verbatim>\<open>internal/prover\<close>: the local prover, the client of the remote prover, and the checks on the
  metadata the remote prover advertises. Here an answer of the remote prover is a failed request, or a
  status with what the body decodes to; \<open>Remote_Prover\<close> makes it of the bytes of the response.
\<close>

subsection \<open>The local prover\<close>

definition expected_public_input_names :: "string list" where
  "expected_public_input_names = [''settlementUpdate.oldStateRoot'', ''settlementUpdate.newStateRoot'',
     ''batchCommitments.depositsRoot'', ''batchCommitments.withdrawalsRoot'',
     ''batchCommitments.nullifiersRoot'', ''batchCommitments.withdrawOutputsRoot'']"

definition settlement_inputs_list :: "settlement_update \<Rightarrow> batch_commitments \<Rightarrow> string list" where
  "settlement_inputs_list u c = [su_old_root u, su_new_root u, bc_deposits_root c, bc_withdrawals_root c,
     bc_nullifiers_root c, bc_withdraw_outputs_root c]"

definition local_generate_proof :: "settlement_update \<Rightarrow> batch_commitments \<Rightarrow> witness \<Rightarrow> proof_bundle res" where
  "local_generate_proof u c w =
     (if su_old_root u = [] then Inl (ErrText ''oldStateRoot is required'')
      else if su_new_root u = [] then Inl (ErrText ''newStateRoot is required'')
      else if bc_deposits_root c = [] \<or> bc_withdrawals_root c = [] \<or> bc_nullifiers_root c = []
          \<or> bc_withdraw_outputs_root c = [] then Inl (ErrText ''batchCommitments are incomplete'')
      else if wit_accounts w = [] then Inl (ErrText ''witness.accounts is required'')
      else Inr \<lparr>pb_proof = hash_json ''local-proof'' (json_object
             [(''batchCommitments'', json_batch_commitments c),
              (''publicInputs'', json_strings (settlement_inputs_list u c)),
              (''settlementUpdate'', json_settlement_update u), (''witness'', json_witness w)]),
           pb_public_inputs = settlement_inputs_list u c, pb_vk_id = ''local-v1''\<rparr>)"

subsection \<open>Verifier metadata\<close>

definition artifact_error :: "string \<Rightarrow> go_error option" where
  "artifact_error what = Some (ErrText (''remote verifier artifact '' @ what))"

text \<open>The loop over \<^verbatim>\<open>ExpectedPublicInputNames\<close>; the lengths have been compared.\<close>

fun names_differ :: "string list \<Rightarrow> string list \<Rightarrow> bool" where
  "names_differ (x # xs) (y # ys) = (x \<noteq> y \<or> names_differ xs ys)"
| "names_differ _ _ = False"

definition validate_verifier_artifact :: "verifier_artifact \<Rightarrow> go_error option" where
  "validate_verifier_artifact a =
     (if trim_space (va_vk_id a) = [] then artifact_error ''returned empty verificationKeyId''
      else if trim_space (va_hash_mode a) = [] then artifact_error ''returned empty hashMode''
      else if trim_space (va_curve a) = [] then artifact_error ''returned empty curve''
      else if trim_space (va_backend a) = [] then artifact_error ''returned empty backend''
      else if va_public_input_count a \<noteq> int (length expected_public_input_names)
        then artifact_error ''publicInputCount mismatch''
      else if length (va_public_input_names a) \<noteq> length expected_public_input_names
        then artifact_error ''publicInputNames length mismatch''
      else if names_differ (va_public_input_names a) expected_public_input_names
        then artifact_error ''publicInputNames mismatch''
      else if \<not> prefix ''0x'' (trim_space (va_verifying_key a))
        then artifact_error ''verifyingKey must have 0x prefix''
      else if length (trim_space (va_verifying_key a)) \<le> 2 then artifact_error ''verifyingKey is empty''
      else None)"

definition validate_proof_bundle_matches :: "proof_bundle \<Rightarrow> verifier_artifact \<Rightarrow> go_error option" where
  "validate_proof_bundle_matches p a =
     (case validate_verifier_artifact a of Some e \<Rightarrow> Some e
      | None \<Rightarrow>
        if trim_space (pb_vk_id p) = [] then Some (ErrText ''proofBundle.verificationKeyId is empty'')
        else if pb_vk_id p \<noteq> va_vk_id a
          then Some (ErrText ''proofBundle.verificationKeyId does not match verifier artifact'')
        else if int (length (pb_public_inputs p)) \<noteq> va_public_input_count a
          then Some (ErrText ''proofBundle.publicInputs length does not match verifier artifact'')
        else None)"

record expected_artifact =
  ea_vk_id :: string
  ea_hash_mode :: string

definition expected_is_zero :: "expected_artifact \<Rightarrow> bool" where
  "expected_is_zero e \<longleftrightarrow> trim_space (ea_vk_id e) = [] \<and> trim_space (ea_hash_mode e) = []"

definition validate_artifact_matches_expected ::
    "verifier_artifact \<Rightarrow> expected_artifact \<Rightarrow> go_error option" where
  "validate_artifact_matches_expected a e =
     (case validate_verifier_artifact a of Some err \<Rightarrow> Some err
      | None \<Rightarrow>
        if trim_space (ea_vk_id e) \<noteq> [] \<and> va_vk_id a \<noteq> trim_space (ea_vk_id e)
          then artifact_error ''verificationKeyId mismatch''
        else if trim_space (ea_hash_mode e) \<noteq> [] \<and> va_hash_mode a \<noteq> trim_space (ea_hash_mode e)
          then artifact_error ''hashMode mismatch''
        else None)"

subsection \<open>The remote prover\<close>

text \<open>
  An answer: no response at all, or a status, the \<^verbatim>\<open>error\<close> field its body decodes to (if it
  decodes as an error body), and the body decoded as the expected type.
\<close>

datatype 'b http_answer = HttpFailed string | HttpAnswer int "string option" "'b option"

definition status_ok :: "int \<Rightarrow> bool" where
  "status_ok st \<longleftrightarrow> 200 \<le> st \<and> st < 300"

definition remote_status_error :: "string \<Rightarrow> string option \<Rightarrow> go_error" where
  "remote_status_error what err = (case err of
     Some t \<Rightarrow> if t \<noteq> [] then ErrExternal t else ErrText what | None \<Rightarrow> ErrText what)"

definition remote_generate_proof :: "proof_bundle http_answer \<Rightarrow> proof_bundle res" where
  "remote_generate_proof answer = (case answer of
     HttpFailed e \<Rightarrow> Inl (ErrExternal e)
   | HttpAnswer st err body \<Rightarrow>
       if \<not> status_ok st then Inl (remote_status_error ''remote prover returned status'' err)
       else (case body of None \<Rightarrow> Inl (ErrText ''decode remote prove response'')
       | Some p \<Rightarrow>
         if pb_proof p = [] then Inl (ErrText ''remote prover returned empty proof'')
         else if length (pb_public_inputs p) \<noteq> 6
           then Inl (ErrText ''remote prover returned wrong number of public inputs'')
         else if pb_vk_id p = [] then Inl (ErrText ''remote prover returned empty verificationKeyId'')
         else Inr p))"

record verify_response =
  vr_valid :: bool
  vr_error :: string

definition remote_verify :: "verify_response http_answer \<Rightarrow> go_error option" where
  "remote_verify answer = (case answer of
     HttpFailed e \<Rightarrow> Some (ErrExternal e)
   | HttpAnswer st err body \<Rightarrow>
       if \<not> status_ok st then Some (remote_status_error ''remote verifier returned status'' err)
       else (case body of None \<Rightarrow> Some (ErrText ''decode remote verify response'')
       | Some v \<Rightarrow>
         if \<not> vr_valid v then
           (if vr_error v \<noteq> [] then Some (ErrExternal (vr_error v)) else Some (ErrText ''proof rejected by verifier''))
         else None))"

definition remote_get_verifier_artifact :: "string \<Rightarrow> verifier_artifact http_answer \<Rightarrow> verifier_artifact res" where
  "remote_get_verifier_artifact base_url answer =
     (if base_url = [] then Inl (ErrText ''remote prover base URL is required'')
      else case answer of
        HttpFailed e \<Rightarrow> Inl (ErrExternal e)
      | HttpAnswer st err body \<Rightarrow>
          if st \<noteq> 200 then Inl (remote_status_error ''remote verifier artifact endpoint returned status'' err)
          else (case body of None \<Rightarrow> Inl (ErrText ''decode remote verifier artifact response'')
          | Some a \<Rightarrow> (case validate_verifier_artifact a of Some e \<Rightarrow> Inl e | None \<Rightarrow> Inr a)))"

text \<open>\<^verbatim>\<open>strings.TrimRight(s, "/")\<close>\<close>

definition trim_right_slash :: "string \<Rightarrow> string" where
  "trim_right_slash s = rev (dropWhile (\<lambda>c. c = CHR ''/'') (rev s))"

definition new_remote_client :: "string \<Rightarrow> string" where
  "new_remote_client base0 = (let base = trim_right_slash (trim_space base0) in
     if base = [] then ''http://localhost:8090'' else base)"

subsection \<open>What the checks accept\<close>

lemma names_differ_iff: "length xs = length ys \<Longrightarrow> names_differ xs ys \<longleftrightarrow> xs \<noteq> ys"
  by (induction xs ys rule: names_differ.induct) auto

definition artifact_ok :: "verifier_artifact \<Rightarrow> bool" where
  "artifact_ok a \<longleftrightarrow> trim_space (va_vk_id a) \<noteq> [] \<and> trim_space (va_hash_mode a) \<noteq> []
     \<and> trim_space (va_curve a) \<noteq> [] \<and> trim_space (va_backend a) \<noteq> []
     \<and> va_public_input_count a = 6 \<and> va_public_input_names a = expected_public_input_names
     \<and> prefix ''0x'' (trim_space (va_verifying_key a)) \<and> 2 < length (trim_space (va_verifying_key a))"

lemma length_expected_names [simp]: "length expected_public_input_names = 6"
  by (simp add: expected_public_input_names_def)

lemma validate_verifier_artifact_None: "validate_verifier_artifact a = None \<longleftrightarrow> artifact_ok a"
  using names_differ_iff [of "va_public_input_names a" expected_public_input_names]
  by (auto simp: validate_verifier_artifact_def artifact_error_def artifact_ok_def not_le)

lemma validate_proof_bundle_None:
  "validate_proof_bundle_matches p a = None \<longleftrightarrow> artifact_ok a \<and> pb_vk_id p = va_vk_id a \<and> length (pb_public_inputs p) = 6"
  using validate_verifier_artifact_None [of a]
  by (auto simp: validate_proof_bundle_matches_def artifact_ok_def split: option.split if_splits)

lemma validate_expected_None:
  "validate_artifact_matches_expected a e = None \<longleftrightarrow> artifact_ok a
     \<and> (trim_space (ea_vk_id e) \<noteq> [] \<longrightarrow> va_vk_id a = trim_space (ea_vk_id e))
     \<and> (trim_space (ea_hash_mode e) \<noteq> [] \<longrightarrow> va_hash_mode a = trim_space (ea_hash_mode e))"
  using validate_verifier_artifact_None [of a]
  by (auto simp: validate_artifact_matches_expected_def artifact_error_def split: option.split)

lemma local_generate_proof_Inr:
  "local_generate_proof u c w = Inr p \<Longrightarrow> pb_public_inputs p = settlement_inputs_list u c
     \<and> pb_proof p \<noteq> [] \<and> pb_vk_id p = ''local-v1'' \<and> length (pb_public_inputs p) = 6"
  by (auto simp: local_generate_proof_def settlement_inputs_list_def split: if_splits)

text \<open>What the builder commits to can always be proved locally.\<close>

lemma local_prover_accepts:
  assumes "su_old_root u \<noteq> []" and "su_new_root u \<noteq> []" and "wit_accounts w \<noteq> []"
  shows "\<exists>p. local_generate_proof u (build_commitments u) w = Inr p"
  using assms
  by (simp add: local_generate_proof_def build_commitments_def deposits_root_def withdrawals_root_def
      nullifiers_root_def withdraw_outputs_root_def)

end
