(* ===== verification/Go_Json_Decode.thy ===== *)
theory Go_Json_Decode
  imports Go_Json
begin

text \<open>
  The reading half of \<^verbatim>\<open>encoding/json\<close>: the grammar its scanner accepts, as a parser of one
  value from the front of a text, and the way a value is stored into a Go variable.
  \<^verbatim>\<open>json.Unmarshal\<close> refuses anything but blanks after the value;
  \<^verbatim>\<open>(*json.Decoder).Decode\<close> reads one value and leaves the rest.

  Strings are unquoted as \<^verbatim>\<open>unquote\<close> does it: escapes, UTF-16 surrogate pairs, and U+FFFD for
  a lone surrogate or a byte that belongs to no valid UTF-8 sequence. Objects and arrays nest at most
  10000 deep.
\<close>

subsection \<open>UTF-8 encoding\<close>

definition utf8_encode :: "nat \<Rightarrow> string" where
  "utf8_encode n =
     (if n < 128 then [char_of n]
      else if n < 2048 then [char_of (192 + n div 64), char_of (128 + n mod 64)]
      else if n < 65536 then [char_of (224 + n div 4096), char_of (128 + n div 64 mod 64), char_of (128 + n mod 64)]
      else [char_of (240 + n div 262144), char_of (128 + n div 4096 mod 64),
            char_of (128 + n div 64 mod 64), char_of (128 + n mod 64)])"

definition rune_error :: string where
  "rune_error = [CHR 0xEF, CHR 0xBF, CHR 0xBD]"

subsection \<open>Blanks, digits and numbers\<close>

definition json_space :: "char \<Rightarrow> bool" where
  "json_space c \<longleftrightarrow> c = CHR 0x20 \<or> c = CHR 0x09 \<or> c = CHR 0x0D \<or> c = CHR 0x0A"

definition skip_ws :: "string \<Rightarrow> string" where
  "skip_ws s = dropWhile json_space s"

definition is_digit :: "char \<Rightarrow> bool" where
  "is_digit c \<longleftrightarrow> digit_val c \<noteq> None"

definition hex_val :: "char \<Rightarrow> nat option" where
  "hex_val c =
     (if 48 \<le> byte c \<and> byte c \<le> 57 then Some (byte c - 48)
      else if 97 \<le> byte c \<and> byte c \<le> 102 then Some (byte c - 87)
      else if 65 \<le> byte c \<and> byte c \<le> 70 then Some (byte c - 55)
      else None)"

fun hex_number :: "nat \<Rightarrow> nat \<Rightarrow> string \<Rightarrow> nat option" where
  "hex_number 0 acc s = Some acc"
| "hex_number (Suc n) acc s = (case s of [] \<Rightarrow> None
     | c # r \<Rightarrow> (case hex_val c of None \<Rightarrow> None | Some h \<Rightarrow> hex_number n (16 * acc + h) r))"

text \<open>\<^verbatim>\<open>getu4\<close>: the value of a leading \<^verbatim>\<open>\uXXXX\<close>.\<close>

definition get_u4 :: "string \<Rightarrow> nat option" where
  "get_u4 s = (case s of
     c1 # c2 # r \<Rightarrow> if c1 = CHR 0x5C \<and> c2 = CHR ''u'' then hex_number 4 0 r else None
   | _ \<Rightarrow> None)"

definition is_surrogate :: "nat \<Rightarrow> bool" where
  "is_surrogate n \<longleftrightarrow> 55296 \<le> n \<and> n < 57344"

text \<open>\<^verbatim>\<open>utf16.DecodeRune\<close>\<close>

definition surrogate_pair :: "nat \<Rightarrow> nat \<Rightarrow> nat option" where
  "surrogate_pair hi lo =
     (if 55296 \<le> hi \<and> hi < 56320 \<and> 56320 \<le> lo \<and> lo < 57344
      then Some ((hi - 55296) * 1024 + (lo - 56320) + 65536) else None)"

text \<open>
  The digits, the fraction and the exponent of a number; each part that has begun must have a digit.
  The result is the literal and the rest.
\<close>

definition scan_digits :: "string \<Rightarrow> (string \<times> string) option" where
  "scan_digits s = (if takeWhile is_digit s = [] then None else Some (takeWhile is_digit s, dropWhile is_digit s))"

definition scan_int_part :: "string \<Rightarrow> (string \<times> string) option" where
  "scan_int_part s = (case s of [] \<Rightarrow> None
     | c # r \<Rightarrow> if c = CHR ''0'' then Some ([c], r) else scan_digits s)"

definition scan_frac :: "string \<Rightarrow> (string \<times> string) option" where
  "scan_frac s = (case s of [] \<Rightarrow> Some ([], [])
     | c # r \<Rightarrow> if c = CHR ''.'' then map_option (\<lambda>(ds, r'). (c # ds, r')) (scan_digits r) else Some ([], s))"

definition scan_exp :: "string \<Rightarrow> (string \<times> string) option" where
  "scan_exp s = (case s of [] \<Rightarrow> Some ([], [])
     | c # r \<Rightarrow>
       if c = CHR ''e'' \<or> c = CHR ''E'' then
         (case r of [] \<Rightarrow> None
          | c2 # r2 \<Rightarrow>
            if c2 = CHR ''+'' \<or> c2 = CHR ''-'' then map_option (\<lambda>(ds, r'). (c # c2 # ds, r')) (scan_digits r2)
            else map_option (\<lambda>(ds, r'). (c # ds, r')) (scan_digits r))
       else Some ([], s))"

definition scan_unsigned :: "string \<Rightarrow> (string \<times> string) option" where
  "scan_unsigned s =
     (case scan_int_part s of None \<Rightarrow> None
      | Some (i, r1) \<Rightarrow> (case scan_frac r1 of None \<Rightarrow> None
        | Some (f, r2) \<Rightarrow> (case scan_exp r2 of None \<Rightarrow> None
          | Some (e, r3) \<Rightarrow> Some (i @ f @ e, r3))))"

definition scan_number :: "string \<Rightarrow> (string \<times> string) option" where
  "scan_number s = (case s of [] \<Rightarrow> None
     | c # r \<Rightarrow> if c = CHR ''-'' then map_option (\<lambda>(n, r'). (c # n, r')) (scan_unsigned r)
                else scan_unsigned s)"

subsection \<open>Strings\<close>

definition simple_escape :: "char \<Rightarrow> char option" where
  "simple_escape c =
     (if c = CHR 0x22 \<or> c = CHR 0x5C \<or> c = CHR ''/'' then Some c
      else if c = CHR ''b'' then Some (CHR 0x08)
      else if c = CHR ''f'' then Some (CHR 0x0C)
      else if c = CHR ''n'' then Some (CHR 0x0A)
      else if c = CHR ''r'' then Some (CHR 0x0D)
      else if c = CHR ''t'' then Some (CHR 0x09)
      else None)"

definition prepend :: "string \<Rightarrow> (string \<times> string) option \<Rightarrow> (string \<times> string) option" where
  "prepend p x = map_option (\<lambda>(t, r). (p @ t, r)) x"

lemma prepend_simps [simp, go_eval]:
  "prepend p None = None" "prepend p (Some (t, r)) = Some (p @ t, r)"
  by (simp_all add: prepend_def)

text \<open>What follows the opening quote, up to the closing one.\<close>

function parse_chars :: "string \<Rightarrow> (string \<times> string) option" where
  "parse_chars s = (case s of [] \<Rightarrow> None | c # r \<Rightarrow>
     if c = CHR 0x22 then Some ([], r)
     else if c = CHR 0x5C then
       (case get_u4 s of
          Some u \<Rightarrow>
            if is_surrogate u then
              (case (case get_u4 (drop 6 s) of None \<Rightarrow> None | Some l \<Rightarrow> surrogate_pair u l) of
                 Some x \<Rightarrow> prepend (utf8_encode x) (parse_chars (drop 12 s))
               | None \<Rightarrow> prepend rune_error (parse_chars (drop 6 s)))
            else prepend (utf8_encode u) (parse_chars (drop 6 s))
        | None \<Rightarrow> (case r of [] \<Rightarrow> None | e # r' \<Rightarrow>
            (case simple_escape e of None \<Rightarrow> None | Some b \<Rightarrow> prepend [b] (parse_chars r'))))
     else if byte c < 32 then None
     else if byte c < 128 then prepend [c] (parse_chars r)
     else if utf8_len s \<le> 1 then prepend rune_error (parse_chars r)
     else prepend (take (utf8_len s) s) (parse_chars (drop (utf8_len s) s)))"
  by pat_completeness auto
termination
  by (relation "measure length") (auto split: if_splits)

declare parse_chars.simps [simp del]

subsection \<open>Values\<close>

datatype json = JNull | JBool bool | JNum string | JStr string
  | JArr "json list" | JObj "(string \<times> json) list"

definition parse_literal :: "string \<Rightarrow> (json \<times> string) option" where
  "parse_literal s =
     (if prefix ''null'' s then Some (JNull, drop 4 s)
      else if prefix ''true'' s then Some (JBool True, drop 4 s)
      else if prefix ''false'' s then Some (JBool False, drop 5 s)
      else map_option (\<lambda>(n, r). (JNum n, r)) (scan_number s))"

lemma skip_ws_length: "length (skip_ws s) \<le> length s"
  by (simp add: skip_ws_def length_dropWhile_le)

lemma skip_ws_Cons_length: "skip_ws s = c # r \<Longrightarrow> length r < length s"
  using skip_ws_length [of s] by simp

text \<open>
  \<open>d\<close> is the number of objects and arrays that may still be opened. The comparison of
  lengths after a nested value only makes the recursion visibly terminating: a value always consumes
  something (\<open>parse_consumes\<close> below), so it never decides anything.
\<close>

function (sequential) parse_value :: "nat \<Rightarrow> string \<Rightarrow> (json \<times> string) option"
  and parse_items :: "nat \<Rightarrow> string \<Rightarrow> (json list \<times> string) option"
  and parse_members :: "nat \<Rightarrow> string \<Rightarrow> ((string \<times> json) list \<times> string) option"
where
  "parse_value d s = (case skip_ws s of [] \<Rightarrow> None | c # r \<Rightarrow>
     if c = CHR 0x22 then map_option (\<lambda>(t, r'). (JStr t, r')) (parse_chars r)
     else if c = CHR ''['' then
       (if d = 0 then None else
        (case skip_ws r of [] \<Rightarrow> None | c2 # r2 \<Rightarrow>
          if c2 = CHR '']'' then Some (JArr [], r2)
          else map_option (\<lambda>(vs, r'). (JArr vs, r')) (parse_items (d - 1) r)))
     else if c = CHR 0x7B then
       (if d = 0 then None else
        (case skip_ws r of [] \<Rightarrow> None | c2 # r2 \<Rightarrow>
          if c2 = CHR 0x7D then Some (JObj [], r2)
          else map_option (\<lambda>(kvs, r'). (JObj kvs, r')) (parse_members (d - 1) r)))
     else parse_literal (c # r))"
| "parse_items d s = (case parse_value d s of None \<Rightarrow> None | Some (v, r) \<Rightarrow>
     if length s \<le> length r then None else
     (case skip_ws r of [] \<Rightarrow> None | c # r' \<Rightarrow>
       if c = CHR '']'' then Some ([v], r')
       else if c = CHR '','' then map_option (\<lambda>(vs, r''). (v # vs, r'')) (parse_items d r')
       else None))"
| "parse_members d s = (case skip_ws s of [] \<Rightarrow> None | q # r0 \<Rightarrow>
     if q \<noteq> CHR 0x22 then None else
     (case parse_chars r0 of None \<Rightarrow> None | Some (k, r1) \<Rightarrow>
       (case skip_ws r1 of [] \<Rightarrow> None | c1 # r2 \<Rightarrow>
         if c1 \<noteq> CHR '':'' \<or> length s \<le> length r2 then None else
         (case parse_value d r2 of None \<Rightarrow> None | Some (v, r) \<Rightarrow>
           if length r2 \<le> length r then None else
           (case skip_ws r of [] \<Rightarrow> None | c # r' \<Rightarrow>
             if c = CHR 0x7D then Some ([(k, v)], r')
             else if c = CHR '','' then map_option (\<lambda>(kvs, r''). ((k, v) # kvs, r'')) (parse_members d r')
             else None)))))"
  by pat_completeness auto
termination
  by (relation "measure (\<lambda>x. case x of Inl (d, s) \<Rightarrow> 2 * length s
        | Inr (Inl (d, s)) \<Rightarrow> 2 * length s + 1 | Inr (Inr (d, s)) \<Rightarrow> 2 * length s + 1)")
     (auto dest!: skip_ws_Cons_length)

declare parse_value.simps [simp del] parse_items.simps [simp del] parse_members.simps [simp del]

definition max_nesting :: nat where
  "max_nesting = 10000"

text \<open>\<^verbatim>\<open>json.Unmarshal\<close> and \<^verbatim>\<open>(*json.Decoder).Decode\<close>, up to storing the value.\<close>

definition json_unmarshal :: "string \<Rightarrow> json option" where
  "json_unmarshal s = (case parse_value max_nesting s of None \<Rightarrow> None
     | Some (v, r) \<Rightarrow> if skip_ws r = [] then Some v else None)"

definition json_decode_next :: "string \<Rightarrow> json option" where
  "json_decode_next s = map_option fst (parse_value max_nesting s)"

subsection \<open>Storing a value into a Go variable\<close>

text \<open>
  A decoder takes the variable's present value and the JSON value, and gives the new value, or
  \<open>None\<close> for an \<^verbatim>\<open>UnmarshalTypeError\<close>. (Go goes on storing the other fields before it
  reports that error; no caller here looks at a variable whose decoding failed.) \<^verbatim>\<open>null\<close>
  leaves a string, a number, a boolean and a struct as they are and makes a slice, a map and a pointer
  nil.
\<close>

type_synonym 'a decoder = "'a \<Rightarrow> json \<Rightarrow> 'a option"

definition dec_string :: "string decoder" where
  "dec_string cur v = (case v of JNull \<Rightarrow> Some cur | JStr s \<Rightarrow> Some s | _ \<Rightarrow> None)"

definition dec_bool :: "bool decoder" where
  "dec_bool cur v = (case v of JNull \<Rightarrow> Some cur | JBool x \<Rightarrow> Some x | _ \<Rightarrow> None)"

text \<open>\<^verbatim>\<open>int\<close> and \<^verbatim>\<open>int64\<close>: \<^verbatim>\<open>strconv.ParseInt\<close> of the literal, so \<^verbatim>\<open>1.0\<close> and \<^verbatim>\<open>1e3\<close> are refused.\<close>

definition dec_int :: "int decoder" where
  "dec_int cur v = (case v of JNull \<Rightarrow> Some cur | JNum n \<Rightarrow> parse_int64 n | _ \<Rightarrow> None)"

text \<open>
  A slice: element \<open>i\<close> is decoded over the element the slice has there, over a zero value past
  its end. (A slice that one duplicate of a key cut short and the next grew again would show its old
  elements; only texts that repeat a key three times can see it.)
\<close>

fun dec_items :: "'a \<Rightarrow> 'a decoder \<Rightarrow> 'a list \<Rightarrow> json list \<Rightarrow> 'a list option" where
  "dec_items zero f cur [] = Some []"
| "dec_items zero f cur (v # vs) =
     (case f (case cur of [] \<Rightarrow> zero | c # _ \<Rightarrow> c) v of None \<Rightarrow> None
      | Some x \<Rightarrow> map_option ((#) x) (dec_items zero f (tl cur) vs))"

definition dec_list :: "'a \<Rightarrow> 'a decoder \<Rightarrow> 'a list decoder" where
  "dec_list zero f cur v = (case v of JNull \<Rightarrow> Some [] | JArr vs \<Rightarrow> dec_items zero f cur vs | _ \<Rightarrow> None)"

text \<open>A pointer to a struct: allocated where it is nil.\<close>

definition dec_pointer :: "'a \<Rightarrow> 'a decoder \<Rightarrow> 'a option decoder" where
  "dec_pointer zero f cur v = (case v of JNull \<Rightarrow> Some None
     | _ \<Rightarrow> map_option Some (f (case cur of None \<Rightarrow> zero | Some c \<Rightarrow> c) v))"

text \<open>
  The field a key names: the one with exactly that name, or else the first whose name is equal under
  case folding. Folding maps ASCII letters to upper case; the only other runes that fold to ASCII are
  U+017F (to S) and U+212A (to K), and all field names are ASCII, so other runes are left alone.
\<close>

definition upper_ascii :: "char \<Rightarrow> char" where
  "upper_ascii c = (if 97 \<le> byte c \<and> byte c \<le> 122 then char_of (byte c - 32) else c)"

function fold_name :: "string \<Rightarrow> string" where
  "fold_name s = (case s of [] \<Rightarrow> [] | c # r \<Rightarrow>
     if take 2 s = [CHR 0xC5, CHR 0xBF] then CHR ''S'' # fold_name (drop 2 s)
     else if take 3 s = [CHR 0xE2, CHR 0x84, CHR 0xAA] then CHR ''K'' # fold_name (drop 3 s)
     else upper_ascii c # fold_name r)"
  by pat_completeness auto
termination
  by (relation "measure length") auto

declare fold_name.simps [simp del]

definition find_field :: "(string \<times> 'b) list \<Rightarrow> string \<Rightarrow> 'b option" where
  "find_field flds k = (case map_of flds k of Some f \<Rightarrow> Some f
     | None \<Rightarrow> map_option snd (find (\<lambda>(n, _). fold_name n = fold_name k) flds))"

text \<open>The members of an object in their order, so the last of several wins; unknown keys are skipped.\<close>

fun dec_members :: "(string \<times> 'a decoder) list \<Rightarrow> 'a \<Rightarrow> (string \<times> json) list \<Rightarrow> 'a option" where
  "dec_members flds cur [] = Some cur"
| "dec_members flds cur ((k, v) # kvs) =
     (case find_field flds k of None \<Rightarrow> dec_members flds cur kvs
      | Some f \<Rightarrow> (case f cur v of None \<Rightarrow> None | Some cur' \<Rightarrow> dec_members flds cur' kvs))"

definition dec_struct :: "(string \<times> 'a decoder) list \<Rightarrow> 'a decoder" where
  "dec_struct flds cur v = (case v of JNull \<Rightarrow> Some cur | JObj kvs \<Rightarrow> dec_members flds cur kvs | _ \<Rightarrow> None)"

text \<open>A field of a record, by the functions that read and replace it.\<close>

definition dec_field :: "('r \<Rightarrow> 'f) \<Rightarrow> ('f \<Rightarrow> 'r \<Rightarrow> 'r) \<Rightarrow> 'f decoder \<Rightarrow> 'r decoder" where
  "dec_field get put f cur v = map_option (\<lambda>x. put x cur) (f (get cur) v)"

text \<open>\<^verbatim>\<open>json.Unmarshal(raw, &x)\<close> and \<^verbatim>\<open>json.NewDecoder(r).Decode(&x)\<close> on a zero \<open>x\<close>.\<close>

definition unmarshal_into :: "'a decoder \<Rightarrow> 'a \<Rightarrow> string \<Rightarrow> 'a option" where
  "unmarshal_into f zero s = (case json_unmarshal s of None \<Rightarrow> None | Some v \<Rightarrow> f zero v)"

definition decode_into :: "'a decoder \<Rightarrow> 'a \<Rightarrow> string \<Rightarrow> 'a option" where
  "decode_into f zero s = (case json_decode_next s of None \<Rightarrow> None | Some v \<Rightarrow> f zero v)"

text \<open>A key to a \<^verbatim>\<open>map[string]T\<close>: later members replace earlier ones.\<close>

definition dec_raw_map :: "json \<Rightarrow> (string \<rightharpoonup> json) option" where
  "dec_raw_map v = (case v of JNull \<Rightarrow> Some (\<lambda>_. None) | JObj kvs \<Rightarrow> Some (map_of (rev kvs)) | _ \<Rightarrow> None)"

end
