(* ===== verification/Json_Roundtrip.thy ===== *)
theory Json_Roundtrip
  imports Go_Json_Decode Json_Bodies
begin

text \<open>
  The parser against the encoders. A value always consumes part of the text; the encoder's string
  parses back to the string it was given, with every byte that is not part of valid UTF-8 replaced by
  U+FFFD; and so does a whole value, whatever follows it. A body the program writes is therefore read
  back as the same data.
\<close>

subsection \<open>A value consumes something\<close>

lemma prepend_Some_iff: "prepend p x = Some (t, r) \<longleftrightarrow> (\<exists>t'. x = Some (t', r) \<and> t = p @ t')"
  by (cases x) (auto simp: prepend_def)

lemma parse_chars_consumes: "parse_chars s = Some (t, r) \<Longrightarrow> length r < length s"
proof (induction s arbitrary: t rule: measure_induct_rule [of length])
  case (less s)
  have IH: "length r < length s' \<or> length s \<le> length s'" if "parse_chars s' = Some (t', r)" for s' t'
    using less.IH [OF _ that] by force
  from less.prems [unfolded parse_chars.simps [of s]] obtain c s' where s: "s = c # s'"
    by (cases s) simp_all
  show ?case
    using less.prems [unfolded parse_chars.simps [of s]] s
    by (auto simp: prepend_Some_iff split: if_splits option.splits list.splits dest!: IH)
qed

lemma scan_digits_consumes: "scan_digits s = Some (n, r) \<Longrightarrow> n \<noteq> [] \<and> s = n @ r"
  by (auto simp: scan_digits_def split: if_splits)

lemma scan_int_part_consumes: "scan_int_part s = Some (n, r) \<Longrightarrow> n \<noteq> [] \<and> s = n @ r"
  by (auto simp: scan_int_part_def split: list.splits if_splits dest: scan_digits_consumes)

lemma scan_frac_consumes: "scan_frac s = Some (n, r) \<Longrightarrow> s = n @ r"
  by (auto simp: scan_frac_def split: list.splits if_splits dest: scan_digits_consumes)

lemma scan_exp_consumes: "scan_exp s = Some (n, r) \<Longrightarrow> s = n @ r"
  by (auto simp: scan_exp_def split: list.splits if_splits dest: scan_digits_consumes)

lemma scan_unsigned_consumes: "scan_unsigned s = Some (n, r) \<Longrightarrow> n \<noteq> [] \<and> s = n @ r"
  by (auto simp: scan_unsigned_def split: option.splits
      dest!: scan_int_part_consumes scan_frac_consumes scan_exp_consumes)

lemma scan_number_consumes: "scan_number s = Some (n, r) \<Longrightarrow> n \<noteq> [] \<and> s = n @ r"
  by (auto simp: scan_number_def split: list.splits if_splits dest: scan_unsigned_consumes)

lemma parse_literal_consumes: "parse_literal s = Some (v, r) \<Longrightarrow> length r < length s"
  by (auto simp: parse_literal_def prefix_def split: if_splits dest!: scan_number_consumes)

lemma parse_items_members_consume:
  "(\<forall>d vs r. parse_items d s = Some (vs, r) \<longrightarrow> length r < length s)
   \<and> (\<forall>d kvs r. parse_members d s = Some (kvs, r) \<longrightarrow> length r < length s)"
proof (induction s rule: measure_induct_rule [of length])
  case (less s)
  have items: "length r < length s' \<or> length s \<le> length s'" if "parse_items d s' = Some (vs, r)" for d s' vs r
    using less.IH that by (meson not_le)
  have members: "length r < length s' \<or> length s \<le> length s'" if "parse_members d s' = Some (kvs, r)" for d s' kvs r
    using less.IH that by (meson not_le)
  have "length r < length s" if "parse_items d s = Some (vs, r)" for d vs r
    using that [unfolded parse_items.simps [of d s]]
    by (auto split: list.splits if_splits option.splits dest!: skip_ws_Cons_length items)
  moreover have "length r < length s" if "parse_members d s = Some (kvs, r)" for d kvs r
    using that [unfolded parse_members.simps [of d s]]
    by (auto split: list.splits if_splits option.splits dest!: skip_ws_Cons_length members)
  ultimately show ?case by blast
qed

lemmas parse_items_consumes = parse_items_members_consume [THEN conjunct1, rule_format]
lemmas parse_members_consumes = parse_items_members_consume [THEN conjunct2, rule_format]

lemma parse_value_consumes: "parse_value d s = Some (v, r) \<Longrightarrow> length r < length s"
  by (subst (asm) parse_value.simps)
     (auto split: list.splits if_splits option.splits dest!: skip_ws_Cons_length
        parse_chars_consumes parse_literal_consumes parse_items_consumes parse_members_consumes)

text \<open>So the length comparisons of the parser never decide anything.\<close>

lemma parse_items_plain:
  "parse_items d s = (case parse_value d s of None \<Rightarrow> None | Some (v, r) \<Rightarrow>
     (case skip_ws r of [] \<Rightarrow> None | c # r' \<Rightarrow>
       if c = CHR '']'' then Some ([v], r')
       else if c = CHR '','' then map_option (\<lambda>(vs, r''). (v # vs, r'')) (parse_items d r')
       else None))"
  by (subst parse_items.simps) (auto split: option.split dest!: parse_value_consumes)

lemma parse_members_plain:
  "parse_members d s = (case skip_ws s of [] \<Rightarrow> None | q # r0 \<Rightarrow>
     if q \<noteq> CHR 0x22 then None else
     (case parse_chars r0 of None \<Rightarrow> None | Some (k, r1) \<Rightarrow>
       (case skip_ws r1 of [] \<Rightarrow> None | c1 # r2 \<Rightarrow>
         if c1 \<noteq> CHR '':'' then None else
         (case parse_value d r2 of None \<Rightarrow> None | Some (v, r) \<Rightarrow>
           (case skip_ws r of [] \<Rightarrow> None | c # r' \<Rightarrow>
             if c = CHR 0x7D then Some ([(k, v)], r')
             else if c = CHR '','' then map_option (\<lambda>(kvs, r''). ((k, v) # kvs, r'')) (parse_members d r')
             else None)))))"
  by (subst parse_members.simps)
     (auto split: option.split list.split dest!: parse_value_consumes parse_chars_consumes skip_ws_Cons_length)

subsection \<open>Strings\<close>

text \<open>What survives the round trip: a byte that starts no valid sequence becomes U+FFFD.\<close>

function utf8_clean :: "string \<Rightarrow> string" where
  "utf8_clean s = (case s of [] \<Rightarrow> [] | c # r \<Rightarrow>
     if byte c < 128 then c # utf8_clean r
     else if utf8_len s \<le> 1 then rune_error @ utf8_clean r
     else take (utf8_len s) s @ utf8_clean (drop (utf8_len s) s))"
  by pat_completeness auto
termination
  by (relation "measure length") auto

declare utf8_clean.simps [simp del]

definition utf8_valid :: "string \<Rightarrow> bool" where
  "utf8_valid s \<longleftrightarrow> utf8_clean s = s"

lemma utf8_clean_Nil [simp]: "utf8_clean [] = []"
  by (simp add: utf8_clean.simps)

lemma utf8_clean_ascii [simp]: "byte c < 128 \<Longrightarrow> utf8_clean (c # r) = c # utf8_clean r"
  by (simp add: utf8_clean.simps [of "c # r"])

lemma utf8_valid_ascii: "list_all (\<lambda>c. byte c < 128) s \<Longrightarrow> utf8_valid s"
  by (induction s) (simp_all add: utf8_valid_def)

text \<open>The cases of the parser that the encoder's output meets.\<close>

lemma parse_chars_quote [simp]: "parse_chars (CHR 0x22 # r) = Some ([], r)"
  by (simp add: parse_chars.simps [of "CHR 0x22 # r"])

lemma parse_chars_char:
  "32 \<le> byte c \<Longrightarrow> byte c < 128 \<Longrightarrow> c \<noteq> CHR 0x22 \<Longrightarrow> c \<noteq> CHR 0x5C
     \<Longrightarrow> parse_chars (c # r) = prepend [c] (parse_chars r)"
  by (simp add: parse_chars.simps [of "c # r"])

lemma parse_chars_escape:
  "e \<noteq> CHR ''u'' \<Longrightarrow> parse_chars (CHR 0x5C # e # r) =
     (case simple_escape e of None \<Rightarrow> None | Some b \<Rightarrow> prepend [b] (parse_chars r))"
  by (simp add: parse_chars.simps [of "CHR 0x5C # e # r"] get_u4_def)

lemma parse_chars_unicode:
  "get_u4 (CHR 0x5C # CHR ''u'' # a # b # c # d # r) = Some u \<Longrightarrow> \<not> is_surrogate u
     \<Longrightarrow> parse_chars (CHR 0x5C # CHR ''u'' # a # b # c # d # r) = prepend (utf8_encode u) (parse_chars r)"
  by (simp add: parse_chars.simps [of "CHR 0x5C # CHR ''u'' # a # b # c # d # r"])

lemma byte_char_of [simp]: "n < 256 \<Longrightarrow> byte (char_of n) = n"
  by (simp add: byte_def)

lemma byte_less [simp]: "byte c < 256"
  by (simp add: byte_def)

lemma char_of_byte [simp]: "char_of (byte c) = c"
  by (simp add: byte_def)

lemma hex_val_lower: "n < 16 \<Longrightarrow> hex_val (lower_hex n) = Some n"
  by (simp add: hex_val_def lower_hex_def)

lemma hex_number_4: "hex_number 4 acc s = hex_number (Suc (Suc (Suc (Suc 0)))) acc s"
proof -
  have "(4::nat) = Suc (Suc (Suc (Suc 0)))" by simp
  then show ?thesis by (simp only:)
qed

lemma hex_val_0: "hex_val CHR ''0'' = Some 0"
  by (simp add: hex_val_def byte_def)

lemma get_u4_control:
  assumes "byte c < 128"
  shows "get_u4 (CHR 0x5C # CHR ''u'' # CHR ''0'' # CHR ''0'' # lower_hex (byte c div 16)
     # lower_hex (byte c mod 16) # r) = Some (byte c)"
proof -
  have "byte c div 16 < 16" "byte c mod 16 < 16" using assms by simp_all
  then show ?thesis by (simp add: get_u4_def hex_number_4 hex_val_0 hex_val_lower)
qed

lemma json_ascii_cases:
  obtains (escape) e where "json_ascii c = [CHR 0x5C, e]" "e \<noteq> CHR ''u''" "simple_escape e = Some c"
    | (unicode) "json_ascii c = CHR 0x5C # ''u00'' @ [lower_hex (byte c div 16), lower_hex (byte c mod 16)]"
    | (plain) "json_ascii c = [c]" "c \<noteq> CHR 0x22" "c \<noteq> CHR 0x5C" "32 \<le> byte c"
proof (cases "c \<in> {CHR 0x22, CHR 0x5C, CHR 0x08, CHR 0x0C, CHR 0x0A, CHR 0x0D, CHR 0x09}")
  case True
  then have "\<exists>e. json_ascii c = [CHR 0x5C, e] \<and> e \<noteq> CHR ''u'' \<and> simple_escape e = Some c"
    by (elim insertE emptyE) (simp_all add: json_ascii_def simple_escape_def)
  then show ?thesis using escape by blast
next
  case False
  then show ?thesis
    using unicode plain
    by (cases "byte c < 32 \<or> c = CHR ''<'' \<or> c = CHR ''>'' \<or> c = CHR ''&''")
       (simp_all add: json_ascii_def)
qed

lemma parse_chars_ascii:
  assumes "byte c < 128"
  shows "parse_chars (json_ascii c @ r) = prepend [c] (parse_chars r)"
proof (cases c rule: json_ascii_cases)
  case unicode
  have "\<not> is_surrogate (byte c)" "utf8_encode (byte c) = [c]"
    using assms by (simp_all add: is_surrogate_def utf8_encode_def)
  with unicode get_u4_control [OF assms] show ?thesis by (simp add: parse_chars_unicode)
qed (use assms in \<open>simp_all add: parse_chars_escape parse_chars_char\<close>)

text \<open>A sequence is recognised by its own bytes, whatever follows them.\<close>

lemma utf8_len_1: "byte a < 128 \<Longrightarrow> utf8_len (a # t) = 1"
  by (simp add: utf8_len_def)

lemma utf8_len_2:
  "\<not> byte a < 128 \<Longrightarrow> byte a \<le> 223 \<Longrightarrow> utf8_len (a # b # c # t) = utf8_len [a, b]
     \<and> utf8_len [a, b] \<in> {0, 2}"
  by (cases t) (simp_all add: utf8_len_def)

lemma utf8_len_3:
  "224 \<le> byte a \<Longrightarrow> byte a \<le> 239 \<Longrightarrow> utf8_len (a # b # c # t) = utf8_len [a, b, c]
     \<and> utf8_len [a, b, c] \<in> {0, 3}"
  by (simp add: utf8_len_def)

lemma utf8_len_4:
  "239 < byte a \<Longrightarrow> utf8_len (a # b # c # d # t) = utf8_len [a, b, c, d]
     \<and> utf8_len [a, b, c, d] \<in> {0, 4}"
  by (simp add: utf8_len_def)

lemma utf8_len_short:
  "\<not> byte a < 128 \<Longrightarrow> utf8_len [a] = 0"
  "223 < byte a \<Longrightarrow> utf8_len [a, b] = 0"
  "239 < byte a \<Longrightarrow> utf8_len [a, b, c] = 0"
  by (simp_all add: utf8_len_def)

lemma utf8_len_cases:
  assumes "1 < utf8_len s"
  obtains (two) a b r where "s = a # b # r" "utf8_len s = 2" "\<And>t. utf8_len (a # b # t) = 2"
    | (three) a b c r where "s = a # b # c # r" "utf8_len s = 3" "\<And>t. utf8_len (a # b # c # t) = 3"
    | (four) a b c d r where "s = a # b # c # d # r" "utf8_len s = 4" "\<And>t. utf8_len (a # b # c # d # t) = 4"
proof -
  obtain a r0 where s0: "s = a # r0" using assms by (cases s) (simp_all add: utf8_len_def)
  have a: "\<not> byte a < 128" using assms s0 utf8_len_1 [of a r0] by auto
  obtain b r where s: "s = a # b # r" using assms s0 a utf8_len_short(1) [of a] by (cases r0) auto
  consider "byte a \<le> 223" | "224 \<le> byte a" "byte a \<le> 239" | "239 < byte a" by linarith
  then show ?thesis
  proof cases
    case 1
    have eq: "utf8_len (a # b # t) = utf8_len [a, b]" for t using utf8_len_2 [OF a 1] by (cases t) auto
    have "utf8_len [a, b] = 2" using utf8_len_2 [OF a 1, of b] eq assms s by auto
    with eq s two show ?thesis by metis
  next
    case 2
    then have "223 < byte a" by simp
    from utf8_len_short(2) [OF this, of b] assms s obtain c r1 where r: "r = c # r1" by (cases r) auto
    note eq = utf8_len_3 [OF 2, of b c]
    from eq [of r1] assms s r have "utf8_len [a, b, c] = 3" by auto
    with eq s r three show ?thesis by metis
  next
    case 3
    then have "223 < byte a" by simp
    from utf8_len_short(2) [OF this, of b] assms s obtain c r1 where r: "r = c # r1" by (cases r) auto
    from utf8_len_short(3) [OF 3, of b c] assms s r obtain d r2 where r1: "r1 = d # r2" by (cases r1) auto
    note eq = utf8_len_4 [OF 3, of b c d]
    from eq [of r2] assms s r r1 have "utf8_len [a, b, c, d] = 4" by auto
    with eq s r r1 four show ?thesis by metis
  qed
qed

lemma utf8_len_take: "1 < utf8_len s \<Longrightarrow> utf8_len (take (utf8_len s) s @ t) = utf8_len s"
  by (erule utf8_len_cases) (simp_all add: numeral_eq_Suc)

lemma utf8_len_bound: "1 < utf8_len s \<Longrightarrow> utf8_len s \<le> length s"
  by (erule utf8_len_cases) simp_all

lemma parse_chars_multi:
  assumes "1 < utf8_len s" and "\<not> byte (hd s) < 128"
  shows "parse_chars (take (utf8_len s) s @ t) = prepend (take (utf8_len s) s) (parse_chars t)"
proof -
  let ?n = "utf8_len s"
  obtain c r where s: "s = c # r" using assms by (cases s) (simp_all add: utf8_len_def)
  have c: "c \<noteq> CHR 0x22" "c \<noteq> CHR 0x5C" "\<not> byte c < 32" "\<not> byte c < 128"
    using assms(2) s by (auto simp: byte_def)
  have shape: "take ?n s @ t = c # (take (?n - 1) r @ t)" using assms(1) s by (cases ?n) simp_all
  have len: "utf8_len (c # (take (?n - 1) r @ t)) = ?n" using utf8_len_take [OF assms(1), of t] shape by simp
  have l: "length (take ?n s) = ?n" using utf8_len_bound [OF assms(1)] by simp
  have "drop ?n (c # (take (?n - 1) r @ t)) = t" "take ?n (c # (take (?n - 1) r @ t)) = take ?n s"
    using l unfolding shape [symmetric] by simp_all
  with c len assms(1) show ?thesis unfolding shape
    by (subst parse_chars.simps) simp
qed

lemma get_u4_fffd: "get_u4 (CHR 0x5C # CHR ''u'' # CHR ''f'' # CHR ''f'' # CHR ''f'' # CHR ''d'' # r) = Some 65533"
  by (simp add: get_u4_def hex_number_4) (simp add: hex_val_def byte_def)

lemma get_u4_2028: "get_u4 (CHR 0x5C # CHR ''u'' # CHR ''2'' # CHR ''0'' # CHR ''2'' # CHR ''8'' # r) = Some 8232"
  by (simp add: get_u4_def hex_number_4) (simp add: hex_val_def byte_def)

lemma get_u4_2029: "get_u4 (CHR 0x5C # CHR ''u'' # CHR ''2'' # CHR ''0'' # CHR ''2'' # CHR ''9'' # r) = Some 8233"
  by (simp add: get_u4_def hex_number_4) (simp add: hex_val_def byte_def)

lemma utf8_encode_escapes:
  "utf8_encode 65533 = rune_error" "utf8_encode 8232 = [CHR 0xE2, CHR 0x80, CHR 0xA8]"
  "utf8_encode 8233 = [CHR 0xE2, CHR 0x80, CHR 0xA9]"
  by (simp_all add: utf8_encode_def rune_error_def char_of_def bit_simps bit_0 bit_Suc)

lemma utf8_len_separator:
  assumes "take 3 s = [CHR 0xE2, CHR 0x80, x]" and "cont_byte x"
  shows "utf8_len s = 3"
proof -
  have s: "s = [CHR 0xE2, CHR 0x80, x] @ drop 3 s" using append_take_drop_id [of 3 s] assms(1) by simp
  have "utf8_len [CHR 0xE2, CHR 0x80, x] = 3"
    using assms(2) by (simp add: utf8_len_def) (simp add: byte_def cont_byte_def)
  moreover have "224 \<le> byte CHR 0xE2" "byte CHR 0xE2 \<le> 239" by (simp_all add: byte_def)
  ultimately show ?thesis using utf8_len_3 [of "CHR 0xE2" "CHR 0x80" x "drop 3 s"] s by simp
qed

lemma take3_split: "take 3 s = e \<Longrightarrow> s = e @ drop 3 s"
  using append_take_drop_id [of 3 s] by simp

theorem parse_json_chars: "parse_chars (json_chars s @ CHR 0x22 # rest) = Some (utf8_clean s, rest)"
proof (induction s rule: json_chars.induct)
  case (1 s)
  show ?case
  proof (cases s)
    case Nil
    then show ?thesis by (simp add: json_chars.simps [of "[]"])
  next
    case (Cons c cs)
    show ?thesis
    proof (cases "byte c < 128")
      case True
      with Cons "1.IH"(1) [OF Cons True] show ?thesis
        by (simp add: json_chars.simps [of "c # cs"] parse_chars_ascii)
    next
      case nasc: False
      show ?thesis
      proof (cases "utf8_len s \<le> 1")
        case True
        then have "json_chars s = CHR 0x5C # ''ufffd'' @ json_chars cs" "utf8_clean s = rune_error @ utf8_clean cs"
          using Cons nasc by (simp_all add: json_chars.simps [of "c # cs"] utf8_clean.simps [of "c # cs"])
        with "1.IH"(2) [OF Cons nasc True] show ?thesis
          by (simp add: parse_chars_unicode get_u4_fffd is_surrogate_def utf8_encode_escapes)
      next
        case len: False
        then have clean: "utf8_clean s = take (utf8_len s) s @ utf8_clean (drop (utf8_len s) s)"
          using Cons nasc by (simp add: utf8_clean.simps [of "c # cs"])
        show ?thesis
        proof (cases "take 3 s = [CHR 0xE2, CHR 0x80, CHR 0xA8] \<or> take 3 s = [CHR 0xE2, CHR 0x80, CHR 0xA9]")
          case True
          then have l3: "utf8_len s = 3"
            using utf8_len_separator [of s "CHR 0xA8"] utf8_len_separator [of s "CHR 0xA9"]
            by (auto simp: cont_byte_def byte_def)
          have IH: "parse_chars (json_chars (drop 3 s) @ CHR 0x22 # rest) = Some (utf8_clean (drop 3 s), rest)"
            using "1.IH"(3) [OF Cons nasc len] "1.IH"(4) [OF Cons nasc len] True by auto
          have js: "json_chars s = CHR 0x5C # (if take 3 s = [CHR 0xE2, CHR 0x80, CHR 0xA8] then ''u2028'' else ''u2029'')
              @ json_chars (drop 3 s)"
            using Cons nasc len True by (auto simp: json_chars.simps [of "c # cs"])
          from True show ?thesis
          proof
            assume t: "take 3 s = [CHR 0xE2, CHR 0x80, CHR 0xA8]"
            then show ?thesis using js IH clean l3
              by (simp add: parse_chars_unicode get_u4_2028 is_surrogate_def utf8_encode_escapes)
          next
            assume t: "take 3 s = [CHR 0xE2, CHR 0x80, CHR 0xA9]"
            then show ?thesis using js IH clean l3
              by (simp add: parse_chars_unicode get_u4_2029 is_surrogate_def utf8_encode_escapes)
          qed
        next
          case False
          then have t: "take 3 s \<noteq> [CHR 0xE2, CHR 0x80, CHR 0xA8]" "take 3 s \<noteq> [CHR 0xE2, CHR 0x80, CHR 0xA9]" by auto
          have js: "json_chars s = take (utf8_len s) s @ json_chars (drop (utf8_len s) s)"
            using Cons nasc len t by (auto simp: json_chars.simps [of "c # cs"])
          have hd: "\<not> byte (hd s) < 128" using Cons nasc by simp
          have "parse_chars (take (utf8_len s) s @ json_chars (drop (utf8_len s) s) @ CHR 0x22 # rest)
              = prepend (take (utf8_len s) s) (parse_chars (json_chars (drop (utf8_len s) s) @ CHR 0x22 # rest))"
            using len hd by (intro parse_chars_multi) simp_all
          with "1.IH"(5) [OF Cons nasc len t] js clean show ?thesis by simp
        qed
      qed
    qed
  qed
qed

corollary parse_json_string:
  "json_string s @ rest = CHR 0x22 # json_chars s @ CHR 0x22 # rest"
  "parse_chars (json_chars s @ CHR 0x22 # rest) = Some (utf8_clean s, rest)"
  by (simp_all add: json_string_def parse_json_chars)

subsection \<open>Numbers\<close>

text \<open>What may follow a number without being read as part of it.\<close>

definition ends_value :: "string \<Rightarrow> bool" where
  "ends_value s \<longleftrightarrow> (case s of [] \<Rightarrow> True
     | c # _ \<Rightarrow> \<not> is_digit c \<and> c \<noteq> CHR ''.'' \<and> c \<noteq> CHR ''e'' \<and> c \<noteq> CHR ''E'')"

lemma ends_value_simps [simp]:
  "ends_value []" "ends_value (CHR '','' # r)" "ends_value (CHR '']'' # r)" "ends_value (CHR 0x7D # r)"
  "ends_value (CHR 0x0A # r)"
  by (simp_all add: ends_value_def is_digit_def digit_val_def)

lemma is_digit_digit_char [simp]: "d < 10 \<Longrightarrow> is_digit (digit_char d)"
  by (simp add: is_digit_def)

lemma all_digits_nat_to_dec: "\<forall>c \<in> set (nat_to_dec n). is_digit c"
  by (auto dest: nat_to_dec_digits)

lemma scan_digits_append:
  assumes "n \<noteq> []" and "\<forall>c \<in> set n. is_digit c" and "ends_value rest"
  shows "scan_digits (n @ rest) = Some (n, rest)"
proof -
  have "takeWhile is_digit rest = []" "dropWhile is_digit rest = rest"
    using assms(3) by (cases rest; simp add: ends_value_def)+
  with assms(1,2) show ?thesis by (simp add: scan_digits_def takeWhile_append dropWhile_append)
qed

lemma nat_to_dec_zero: "nat_to_dec n = CHR ''0'' # r \<Longrightarrow> n = 0 \<and> r = []"
proof (induction n arbitrary: r rule: nat_to_dec.induct)
  case (1 n)
  show ?case
  proof (cases "n < 10")
    case True
    then have "digit_char n = CHR ''0''" "r = []" using "1.prems" by (simp_all add: nat_to_dec.simps [of n])
    moreover have "digit_val (CHR ''0'') = Some 0" by (simp add: digit_val_def)
    ultimately show ?thesis using digit_val_char [OF True] by auto
  next
    case False
    then obtain r' where "nat_to_dec (n div 10) = CHR ''0'' # r'"
      using "1.prems" by (cases "nat_to_dec (n div 10)") (simp_all add: nat_to_dec.simps [of n])
    with "1.IH" False show ?thesis by fastforce
  qed
qed

lemma scan_tail_ends:
  "ends_value rest \<Longrightarrow> scan_frac rest = Some ([], rest)"
  "ends_value rest \<Longrightarrow> scan_exp rest = Some ([], rest)"
  by (auto simp: ends_value_def scan_frac_def scan_exp_def split: list.splits)

lemma scan_unsigned_nat:
  assumes "ends_value rest"
  shows "scan_unsigned (nat_to_dec n @ rest) = Some (nat_to_dec n, rest)"
proof -
  obtain c r where eq: "nat_to_dec n = c # r" by (cases "nat_to_dec n") simp_all
  have "scan_int_part (nat_to_dec n @ rest) = Some (nat_to_dec n, rest)"
  proof (cases "c = CHR ''0''")
    case True
    with eq nat_to_dec_zero [of n r] show ?thesis by (simp add: scan_int_part_def)
  next
    case False
    with eq scan_digits_append [OF nat_to_dec_not_Nil all_digits_nat_to_dec assms, of n]
    show ?thesis by (simp add: scan_int_part_def)
  qed
  with assms show ?thesis by (simp add: scan_unsigned_def scan_tail_ends)
qed

lemma nat_to_dec_hd_digit: "nat_to_dec n = c # r \<Longrightarrow> is_digit c"
  using all_digits_nat_to_dec [of n] by simp

lemma is_digit_not_sign: "is_digit c \<Longrightarrow> c \<noteq> CHR ''-''"
  by (auto simp: is_digit_def digit_val_def)

lemma scan_number_int:
  assumes "ends_value rest"
  shows "scan_number (int_to_dec v @ rest) = Some (int_to_dec v, rest)"
proof (cases "v < 0")
  case True
  then show ?thesis by (simp add: int_to_dec_def scan_number_def scan_unsigned_nat [OF assms])
next
  case False
  obtain c r where eq: "nat_to_dec (nat v) = c # r" by (cases "nat_to_dec (nat v)") simp_all
  then have "c \<noteq> CHR ''-''" using nat_to_dec_hd_digit is_digit_not_sign by blast
  with False eq scan_unsigned_nat [OF assms, of "nat v"] show ?thesis
    by (simp add: int_to_dec_def scan_number_def)
qed

subsection \<open>Whole values\<close>

text \<open>The text of a value as the encoders write it, and what is read back from it.\<close>

fun json_text :: "json \<Rightarrow> string" where
  "json_text JNull = ''null''"
| "json_text (JBool x) = json_bool x"
| "json_text (JNum n) = n"
| "json_text (JStr s) = json_string s"
| "json_text (JArr vs) = json_array (map json_text vs)"
| "json_text (JObj kvs) = json_object (map (\<lambda>(k, v). (k, json_text v)) kvs)"

fun json_clean :: "json \<Rightarrow> json" where
  "json_clean (JStr s) = JStr (utf8_clean s)"
| "json_clean (JArr vs) = JArr (map json_clean vs)"
| "json_clean (JObj kvs) = JObj (map (\<lambda>(k, v). (utf8_clean k, json_clean v)) kvs)"
| "json_clean v = v"

text \<open>Nesting within \<open>d\<close>, and integers as numbers.\<close>

fun json_fits :: "nat \<Rightarrow> json \<Rightarrow> bool" where
  "json_fits d (JNum n) = (case set_string10 n of None \<Rightarrow> False | Some v \<Rightarrow> n = int_to_dec v)"
| "json_fits d (JArr vs) = (0 < d \<and> (\<forall>v \<in> set vs. json_fits (d - 1) v))"
| "json_fits d (JObj kvs) = (0 < d \<and> (\<forall>kv \<in> set kvs. json_fits (d - 1) (snd kv)))"
| "json_fits d v = True"

lemma skip_ws_id: "\<not> json_space c \<Longrightarrow> skip_ws (c # r) = c # r"
  by (simp add: skip_ws_def)

lemma skip_ws_punct [simp]:
  "skip_ws (CHR 0x22 # r) = CHR 0x22 # r" "skip_ws (CHR ''['' # r) = CHR ''['' # r"
  "skip_ws (CHR '']'' # r) = CHR '']'' # r" "skip_ws (CHR 0x7B # r) = CHR 0x7B # r"
  "skip_ws (CHR 0x7D # r) = CHR 0x7D # r" "skip_ws (CHR '','' # r) = CHR '','' # r"
  "skip_ws (CHR '':'' # r) = CHR '':'' # r" "skip_ws [] = []"
  by (simp_all add: skip_ws_def json_space_def)

text \<open>No value begins with a blank or a closing bracket.\<close>

definition value_start :: "char \<Rightarrow> bool" where
  "value_start c \<longleftrightarrow> c = CHR 0x22 \<or> c = CHR ''['' \<or> c = CHR 0x7B \<or> c = CHR ''n'' \<or> c = CHR ''t''
     \<or> c = CHR ''f'' \<or> c = CHR ''-'' \<or> is_digit c"

lemma value_start_facts:
  "value_start c \<Longrightarrow> \<not> json_space c \<and> c \<noteq> CHR '']'' \<and> c \<noteq> CHR 0x7D"
  by (auto simp: value_start_def json_space_def is_digit_def digit_val_def)

lemma int_to_dec_start: "\<exists>c r. int_to_dec v = c # r \<and> (c = CHR ''-'' \<or> is_digit c)"
  by (cases "nat_to_dec (nat v)") (auto simp: int_to_dec_def dest: nat_to_dec_hd_digit)

lemma json_text_start: "json_fits d v \<Longrightarrow> \<exists>c r. json_text v = c # r \<and> value_start c"
proof (cases v)
  case (JNum n)
  assume "json_fits d v"
  with JNum obtain i where "n = int_to_dec i" by (auto split: option.splits)
  with JNum int_to_dec_start [of i] show ?thesis by (auto simp: value_start_def)
qed (auto simp: json_bool_def json_string_def json_array_def json_object_def value_start_def)

lemma parse_value_string:
  "parse_value d (json_string s @ rest) = Some (JStr (utf8_clean s), rest)"
  by (subst parse_value.simps) (simp add: json_string_def parse_json_chars)

lemma parse_literal_number:
  assumes "ends_value rest"
  shows "parse_literal (int_to_dec v @ rest) = Some (JNum (int_to_dec v), rest)"
proof -
  obtain c r where c: "int_to_dec v = c # r" "c = CHR ''-'' \<or> is_digit c" using int_to_dec_start by blast
  then have "c \<noteq> CHR ''n''" "c \<noteq> CHR ''t''" "c \<noteq> CHR ''f''" by (auto simp: is_digit_def digit_val_def)
  with c(1) scan_number_int [OF assms, of v] show ?thesis by (simp add: parse_literal_def)
qed

lemma parse_value_number:
  assumes "ends_value rest"
  shows "parse_value d (int_to_dec v @ rest) = Some (JNum (int_to_dec v), rest)"
proof -
  obtain c r where c: "int_to_dec v = c # r" "c = CHR ''-'' \<or> is_digit c" using int_to_dec_start by blast
  then have "\<not> json_space c" "c \<noteq> CHR 0x22" "c \<noteq> CHR ''[''" "c \<noteq> CHR 0x7B"
    by (auto simp: json_space_def is_digit_def digit_val_def)
  with c(1) parse_literal_number [OF assms, of v] show ?thesis
    by (subst parse_value.simps) (simp add: skip_ws_id)
qed

lemma parse_value_literal:
  "parse_value d (''null'' @ rest) = Some (JNull, rest)"
  "parse_value d (json_bool x @ rest) = Some (JBool x, rest)"
  by (subst parse_value.simps, simp add: skip_ws_id json_space_def parse_literal_def json_bool_def)+

lemma parse_items_text:
  assumes "vs \<noteq> []"
    and "\<And>v rest. v \<in> set vs \<Longrightarrow> ends_value rest \<Longrightarrow> parse_value d (json_text v @ rest) = Some (json_clean v, rest)"
  shows "parse_items d (json_items (map json_text vs) @ CHR '']'' # rest) = Some (map json_clean vs, rest)"
  using assms
proof (induction vs rule: list_nonempty_induct)
  case (single v)
  then show ?case by (simp add: parse_items_plain [of d "json_text v @ _"])
next
  case (cons v vs)
  obtain w ws where vs: "vs = w # ws" using cons.hyps by (cases vs) simp_all
  have IH: "parse_items d (json_items (map json_text vs) @ CHR '']'' # rest) = Some (map json_clean vs, rest)"
    using cons.IH cons.prems by auto
  have "json_items (map json_text (v # vs)) @ CHR '']'' # rest
      = json_text v @ CHR '','' # json_items (map json_text vs) @ CHR '']'' # rest"
    by (simp add: vs)
  with IH cons.prems [of v] show ?case by (simp add: parse_items_plain [of d "json_text v @ _"])
qed

lemma parse_member_text:
  assumes "\<And>rest. ends_value rest \<Longrightarrow> parse_value d (json_text v @ rest) = Some (json_clean v, rest)"
    and "c = CHR '','' \<or> c = CHR 0x7D"
  shows "parse_members d (json_string k @ CHR '':'' # json_text v @ c # rest) =
     (if c = CHR 0x7D then Some ([(utf8_clean k, json_clean v)], rest)
      else map_option (\<lambda>(kvs, r''). ((utf8_clean k, json_clean v) # kvs, r'')) (parse_members d rest))"
proof -
  have "ends_value (c # rest)" "skip_ws (c # rest) = c # rest" using assms(2) by auto
  then show ?thesis using assms
    by (subst parse_members_plain) (auto simp: json_string_def parse_json_chars)
qed

lemma parse_members_text:
  assumes "kvs \<noteq> []"
    and "\<And>k v rest. (k, v) \<in> set kvs \<Longrightarrow> ends_value rest \<Longrightarrow> parse_value d (json_text v @ rest) = Some (json_clean v, rest)"
  shows "parse_members d (json_fields (map (\<lambda>(k, v). (k, json_text v)) kvs) @ CHR 0x7D # rest)
    = Some (map (\<lambda>(k, v). (utf8_clean k, json_clean v)) kvs, rest)"
  using assms
proof (induction kvs rule: list_nonempty_induct)
  case (single kv)
  obtain k v where kv: "kv = (k, v)" by (cases kv)
  show ?case using single kv parse_member_text [of d v "CHR 0x7D" k rest] by simp
next
  case (cons kv kvs)
  obtain k v where kv: "kv = (k, v)" by (cases kv)
  obtain w ws where vs: "kvs = w # ws" using cons.hyps by (cases kvs) simp_all
  obtain k2 v2 where w: "w = (k2, v2)" by (cases w)
  have IH: "parse_members d (json_fields (map (\<lambda>(k, v). (k, json_text v)) kvs) @ CHR 0x7D # rest)
      = Some (map (\<lambda>(k, v). (utf8_clean k, json_clean v)) kvs, rest)"
    using cons.IH cons.prems by auto
  have "json_fields (map (\<lambda>(k, v). (k, json_text v)) (kv # kvs)) @ CHR 0x7D # rest
      = json_string k @ CHR '':'' # json_text v @ CHR '','' # json_fields (map (\<lambda>(k, v). (k, json_text v)) kvs) @ CHR 0x7D # rest"
    by (simp add: kv vs w)
  with IH cons.prems [of k v] kv show ?case
    using parse_member_text [of d v "CHR '',''" k] by simp
qed

lemma json_items_start: "vs \<noteq> [] \<Longrightarrow> json_text (hd vs) = c # r \<Longrightarrow> \<exists>r'. json_items (map json_text vs) = c # r'"
  by (cases vs; cases "tl vs") auto

theorem parse_json_text:
  "json_fits d v \<Longrightarrow> ends_value rest \<Longrightarrow> parse_value d (json_text v @ rest) = Some (json_clean v, rest)"
proof (induction v arbitrary: d rest)
  case (JNum n)
  then show ?case by (auto simp: parse_value_number split: option.splits)
next
  case (JArr vs)
  have sub: "parse_value (d - 1) (json_text v @ rest) = Some (json_clean v, rest)"
    if "v \<in> set vs" "ends_value rest" for v rest
    using JArr.IH [OF that(1) _ that(2), of "d - 1"] JArr.prems that(1) by simp
  show ?case
  proof (cases "vs = []")
    case True
    with JArr.prems show ?thesis by (subst parse_value.simps) (simp add: json_array_def)
  next
    case False
    have "json_fits (d - 1) (hd vs)" using JArr.prems False by simp
    then obtain c r where c: "json_text (hd vs) = c # r" "value_start c" using json_text_start by blast
    from json_items_start [OF False c(1)] obtain r' where "json_items (map json_text vs) = c # r'" by blast
    with parse_items_text [where d = "d - 1" and rest = rest, OF False sub] value_start_facts [OF c(2)] JArr.prems show ?thesis
      by (subst parse_value.simps) (simp add: json_array_def skip_ws_id)
  qed
next
  case (JObj kvs)
  have sub: "parse_value (d - 1) (json_text v @ rest) = Some (json_clean v, rest)"
    if "(k, v) \<in> set kvs" "ends_value rest" for k v rest
    using JObj.IH [OF that(1) _ _ that(2), of v "d - 1"] JObj.prems that(1) by force
  show ?case
  proof (cases "kvs = []")
    case True
    with JObj.prems show ?thesis by (subst parse_value.simps) (simp add: json_object_def)
  next
    case False
    then obtain r' where "json_fields (map (\<lambda>(k, v). (k, json_text v)) kvs) = CHR 0x22 # r'"
      by (cases kvs; cases "tl kvs") (auto simp: json_string_def split: prod.splits)
    with parse_members_text [where d = "d - 1" and rest = rest, OF False sub] JObj.prems show ?thesis
      by (subst parse_value.simps) (simp add: json_object_def)
  qed
qed (simp_all add: parse_value_literal [simplified] parse_value_literal parse_value_string)

corollary unmarshal_json_text: "json_fits max_nesting v \<Longrightarrow> json_unmarshal (json_text v) = Some (json_clean v)"
  using parse_json_text [of max_nesting v "[]"] by (simp add: json_unmarshal_def)

corollary decode_json_text:
  "json_fits max_nesting v \<Longrightarrow> ends_value rest \<Longrightarrow> json_decode_next (json_text v @ rest) = Some (json_clean v)"
  using parse_json_text [of max_nesting v rest] by (simp add: json_decode_next_def)

end
