(* ===== verification/Body_Decoders.thy ===== *)
theory Body_Decoders
  imports Json_Roundtrip
begin

text \<open>
  The structs of \<^verbatim>\<open>pkg/types\<close> as \<^verbatim>\<open>encoding/json\<close> reads and writes them, by their field
  tags: a decoder and a JSON value for each, with the two facts that make them inverse. The text of
  the value is what the encoders of \<open>Json_Bodies\<close> write; decoding the value of a datum gives the
  datum. A nil slice and an empty one are the same list here, so a field an incoming body leaves out
  is the empty list.
\<close>

subsection \<open>Settlement types\<close>

definition zero_settlement_deposit :: settlement_deposit where
  "zero_settlement_deposit = \<lparr>sd_id = [], sd_owner = [], sd_denom = [], sd_amount = []\<rparr>"

definition dec_settlement_deposit :: "settlement_deposit decoder" where
  "dec_settlement_deposit = dec_struct
     [(''depositId'', dec_field sd_id (\<lambda>x d. d\<lparr>sd_id := x\<rparr>) dec_string),
      (''owner'', dec_field sd_owner (\<lambda>x d. d\<lparr>sd_owner := x\<rparr>) dec_string),
      (''denom'', dec_field sd_denom (\<lambda>x d. d\<lparr>sd_denom := x\<rparr>) dec_string),
      (''amount'', dec_field sd_amount (\<lambda>x d. d\<lparr>sd_amount := x\<rparr>) dec_string)]"

definition settlement_deposit_json :: "settlement_deposit \<Rightarrow> json" where
  "settlement_deposit_json d = JObj [(''depositId'', JStr (sd_id d)), (''owner'', JStr (sd_owner d)),
     (''denom'', JStr (sd_denom d)), (''amount'', JStr (sd_amount d))]"

definition zero_settlement_withdrawal :: settlement_withdrawal where
  "zero_settlement_withdrawal = \<lparr>sw_id = [], sw_owner = [], sw_denom = [], sw_amount = [],
     sw_destination = [], sw_destination_hash = [], sw_nullifier = []\<rparr>"

definition dec_settlement_withdrawal :: "settlement_withdrawal decoder" where
  "dec_settlement_withdrawal = dec_struct
     [(''withdrawId'', dec_field sw_id (\<lambda>x w. w\<lparr>sw_id := x\<rparr>) dec_string),
      (''owner'', dec_field sw_owner (\<lambda>x w. w\<lparr>sw_owner := x\<rparr>) dec_string),
      (''denom'', dec_field sw_denom (\<lambda>x w. w\<lparr>sw_denom := x\<rparr>) dec_string),
      (''amount'', dec_field sw_amount (\<lambda>x w. w\<lparr>sw_amount := x\<rparr>) dec_string),
      (''destination'', dec_field sw_destination (\<lambda>x w. w\<lparr>sw_destination := x\<rparr>) dec_string),
      (''destinationHash'', dec_field sw_destination_hash (\<lambda>x w. w\<lparr>sw_destination_hash := x\<rparr>) dec_string),
      (''nullifier'', dec_field sw_nullifier (\<lambda>x w. w\<lparr>sw_nullifier := x\<rparr>) dec_string)]"

definition settlement_withdrawal_json :: "settlement_withdrawal \<Rightarrow> json" where
  "settlement_withdrawal_json w = JObj [(''withdrawId'', JStr (sw_id w)), (''owner'', JStr (sw_owner w)),
     (''denom'', JStr (sw_denom w)), (''amount'', JStr (sw_amount w)),
     (''destination'', JStr (sw_destination w)), (''destinationHash'', JStr (sw_destination_hash w)),
     (''nullifier'', JStr (sw_nullifier w))]"

definition zero_settlement_update :: settlement_update where
  "zero_settlement_update = \<lparr>su_batch_id = [], su_old_root = [], su_new_root = [],
     su_deposits = [], su_withdrawals = []\<rparr>"

definition dec_settlement_update :: "settlement_update decoder" where
  "dec_settlement_update = dec_struct
     [(''batchId'', dec_field su_batch_id (\<lambda>x u. u\<lparr>su_batch_id := x\<rparr>) dec_string),
      (''oldStateRoot'', dec_field su_old_root (\<lambda>x u. u\<lparr>su_old_root := x\<rparr>) dec_string),
      (''newStateRoot'', dec_field su_new_root (\<lambda>x u. u\<lparr>su_new_root := x\<rparr>) dec_string),
      (''deposits'', dec_field su_deposits (\<lambda>x u. u\<lparr>su_deposits := x\<rparr>)
         (dec_list zero_settlement_deposit dec_settlement_deposit)),
      (''withdrawals'', dec_field su_withdrawals (\<lambda>x u. u\<lparr>su_withdrawals := x\<rparr>)
         (dec_list zero_settlement_withdrawal dec_settlement_withdrawal))]"

definition settlement_update_json :: "settlement_update \<Rightarrow> json" where
  "settlement_update_json u = JObj [(''batchId'', JStr (su_batch_id u)),
     (''oldStateRoot'', JStr (su_old_root u)), (''newStateRoot'', JStr (su_new_root u)),
     (''deposits'', JArr (map settlement_deposit_json (su_deposits u))),
     (''withdrawals'', JArr (map settlement_withdrawal_json (su_withdrawals u)))]"

definition zero_batch_commitments :: batch_commitments where
  "zero_batch_commitments = \<lparr>bc_deposits_root = [], bc_withdrawals_root = [], bc_nullifiers_root = [],
     bc_withdraw_outputs_root = []\<rparr>"

definition dec_batch_commitments :: "batch_commitments decoder" where
  "dec_batch_commitments = dec_struct
     [(''depositsRoot'', dec_field bc_deposits_root (\<lambda>x c. c\<lparr>bc_deposits_root := x\<rparr>) dec_string),
      (''withdrawalsRoot'', dec_field bc_withdrawals_root (\<lambda>x c. c\<lparr>bc_withdrawals_root := x\<rparr>) dec_string),
      (''nullifiersRoot'', dec_field bc_nullifiers_root (\<lambda>x c. c\<lparr>bc_nullifiers_root := x\<rparr>) dec_string),
      (''withdrawOutputsRoot'', dec_field bc_withdraw_outputs_root (\<lambda>x c. c\<lparr>bc_withdraw_outputs_root := x\<rparr>) dec_string)]"

definition batch_commitments_json :: "batch_commitments \<Rightarrow> json" where
  "batch_commitments_json c = JObj [(''depositsRoot'', JStr (bc_deposits_root c)),
     (''withdrawalsRoot'', JStr (bc_withdrawals_root c)), (''nullifiersRoot'', JStr (bc_nullifiers_root c)),
     (''withdrawOutputsRoot'', JStr (bc_withdraw_outputs_root c))]"

subsection \<open>Witness and proof\<close>

definition zero_witness_account :: witness_account where
  "zero_witness_account = \<lparr>wa_owner = [], wa_user_secret = [], wa_nonce = [], wa_old_balance = [],
     wa_new_balance = []\<rparr>"

definition dec_witness_account :: "witness_account decoder" where
  "dec_witness_account = dec_struct
     [(''owner'', dec_field wa_owner (\<lambda>x a. a\<lparr>wa_owner := x\<rparr>) dec_string),
      (''userSecret'', dec_field wa_user_secret (\<lambda>x a. a\<lparr>wa_user_secret := x\<rparr>) dec_string),
      (''nonce'', dec_field wa_nonce (\<lambda>x a. a\<lparr>wa_nonce := x\<rparr>) dec_string),
      (''oldBalance'', dec_field wa_old_balance (\<lambda>x a. a\<lparr>wa_old_balance := x\<rparr>) dec_string),
      (''newBalance'', dec_field wa_new_balance (\<lambda>x a. a\<lparr>wa_new_balance := x\<rparr>) dec_string)]"

definition witness_account_json :: "witness_account \<Rightarrow> json" where
  "witness_account_json a = JObj [(''owner'', JStr (wa_owner a)), (''userSecret'', JStr (wa_user_secret a)),
     (''nonce'', JStr (wa_nonce a)), (''oldBalance'', JStr (wa_old_balance a)),
     (''newBalance'', JStr (wa_new_balance a))]"

definition strings_json :: "string list \<Rightarrow> json" where
  "strings_json xs = JArr (map JStr xs)"

definition zero_witness :: witness where
  "zero_witness = \<lparr>wit_accounts = [], wit_state_path = []\<rparr>"

definition dec_witness :: "witness decoder" where
  "dec_witness = dec_struct
     [(''accounts'', dec_field wit_accounts (\<lambda>x w. w\<lparr>wit_accounts := x\<rparr>)
         (dec_list zero_witness_account dec_witness_account)),
      (''statePath'', dec_field wit_state_path (\<lambda>x w. w\<lparr>wit_state_path := x\<rparr>) (dec_list [] dec_string))]"

definition witness_json :: "witness \<Rightarrow> json" where
  "witness_json w = JObj ((''accounts'', JArr (map witness_account_json (wit_accounts w)))
     # (if wit_state_path w = [] then [] else [(''statePath'', strings_json (wit_state_path w))]))"

definition deposit_record_json :: "deposit_record \<Rightarrow> json" where
  "deposit_record_json r = JObj [(''depositId'', JStr (dep_id r)), (''owner'', JStr (dep_owner r)),
     (''denom'', JStr (dep_denom r)), (''amount'', JStr (dep_amount r)), (''processed'', JBool (dep_processed r)),
     (''createdHeight'', JNum (int_to_dec (dep_created_height r))), (''txHash'', JStr (dep_tx_hash r))]"

definition withdraw_record_json :: "withdraw_record \<Rightarrow> json" where
  "withdraw_record_json r = JObj [(''withdrawId'', JStr (wrec_id r)), (''owner'', JStr (wrec_owner r)),
     (''denom'', JStr (wrec_denom r)), (''amount'', JStr (wrec_amount r)),
     (''destination'', JStr (wrec_destination r)), (''nullifier'', JStr (wrec_nullifier r)),
     (''claimed'', JBool (wrec_claimed r))]"

lemma withdraw_record_text: "json_text (withdraw_record_json r) = json_withdraw_record r"
  by (simp add: withdraw_record_json_def json_withdraw_record_def)

definition zero_proof_bundle :: proof_bundle where
  "zero_proof_bundle = \<lparr>pb_proof = [], pb_public_inputs = [], pb_vk_id = []\<rparr>"

definition dec_proof_bundle :: "proof_bundle decoder" where
  "dec_proof_bundle = dec_struct
     [(''proof'', dec_field pb_proof (\<lambda>x p. p\<lparr>pb_proof := x\<rparr>) dec_string),
      (''publicInputs'', dec_field pb_public_inputs (\<lambda>x p. p\<lparr>pb_public_inputs := x\<rparr>) (dec_list [] dec_string)),
      (''verificationKeyId'', dec_field pb_vk_id (\<lambda>x p. p\<lparr>pb_vk_id := x\<rparr>) dec_string)]"

definition proof_bundle_json :: "proof_bundle \<Rightarrow> json" where
  "proof_bundle_json p = JObj [(''proof'', JStr (pb_proof p)), (''publicInputs'', strings_json (pb_public_inputs p)),
     (''verificationKeyId'', JStr (pb_vk_id p))]"

definition zero_verifier_artifact :: verifier_artifact where
  "zero_verifier_artifact = \<lparr>va_vk_id = [], va_hash_mode = [], va_curve = [], va_backend = [],
     va_public_input_count = 0, va_public_input_names = [], va_verifying_key = []\<rparr>"

definition dec_verifier_artifact :: "verifier_artifact decoder" where
  "dec_verifier_artifact = dec_struct
     [(''verificationKeyId'', dec_field va_vk_id (\<lambda>x a. a\<lparr>va_vk_id := x\<rparr>) dec_string),
      (''hashMode'', dec_field va_hash_mode (\<lambda>x a. a\<lparr>va_hash_mode := x\<rparr>) dec_string),
      (''curve'', dec_field va_curve (\<lambda>x a. a\<lparr>va_curve := x\<rparr>) dec_string),
      (''backend'', dec_field va_backend (\<lambda>x a. a\<lparr>va_backend := x\<rparr>) dec_string),
      (''publicInputCount'', dec_field va_public_input_count (\<lambda>x a. a\<lparr>va_public_input_count := x\<rparr>) dec_int),
      (''publicInputNames'', dec_field va_public_input_names (\<lambda>x a. a\<lparr>va_public_input_names := x\<rparr>) (dec_list [] dec_string)),
      (''verifyingKey'', dec_field va_verifying_key (\<lambda>x a. a\<lparr>va_verifying_key := x\<rparr>) dec_string)]"

subsection \<open>The values are the texts\<close>

lemma settlement_deposit_text: "json_text (settlement_deposit_json d) = json_settlement_deposit d"
  by (simp add: settlement_deposit_json_def json_settlement_deposit_def)

lemma settlement_withdrawal_text: "json_text (settlement_withdrawal_json w) = json_settlement_withdrawal w"
  by (simp add: settlement_withdrawal_json_def json_settlement_withdrawal_def)

lemma settlement_update_text: "json_text (settlement_update_json u) = json_settlement_update u"
  by (simp add: settlement_update_json_def json_settlement_update_def settlement_deposit_text
      settlement_withdrawal_text comp_def)

lemma batch_commitments_text: "json_text (batch_commitments_json c) = json_batch_commitments c"
  by (simp add: batch_commitments_json_def json_batch_commitments_def)

lemma witness_account_text: "json_text (witness_account_json a) = json_witness_account a"
  by (simp add: witness_account_json_def json_witness_account_def)

lemma strings_text: "json_text (strings_json xs) = json_strings xs"
  by (simp add: strings_json_def json_strings_def comp_def)

lemma witness_text: "json_text (witness_json w) = json_witness w"
  by (simp add: witness_json_def json_witness_def witness_account_text strings_text comp_def)

lemma proof_bundle_text: "json_text (proof_bundle_json p) = json_proof_bundle p"
  by (simp add: proof_bundle_json_def json_proof_bundle_def strings_text)

lemmas body_texts = settlement_update_text batch_commitments_text witness_text proof_bundle_text

subsection \<open>Decoding a value gives the datum\<close>

lemma dec_items_map:
  "(\<And>x. x \<in> set xs \<Longrightarrow> f zero (g x) = Some x) \<Longrightarrow> dec_items zero f [] (map g xs) = Some xs"
  by (induction xs) simp_all

lemma dec_list_map: "(\<And>x. f zero (g x) = Some x) \<Longrightarrow> dec_list zero f [] (JArr (map g xs)) = Some xs"
  by (simp add: dec_list_def dec_items_map)

lemma dec_strings: "dec_list [] dec_string [] (strings_json xs) = Some xs"
  unfolding strings_json_def by (rule dec_list_map) (simp add: dec_string_def)

lemma dec_string_simps [simp]:
  "dec_string cur (JStr s) = Some s" "dec_string cur JNull = Some cur"
  by (simp_all add: dec_string_def)

lemma dec_struct_obj [simp]: "dec_struct flds cur (JObj kvs) = dec_members flds cur kvs"
  by (simp add: dec_struct_def)

lemma dec_settlement_deposit_json: "dec_settlement_deposit zero_settlement_deposit (settlement_deposit_json d) = Some d"
  by (simp add: dec_settlement_deposit_def zero_settlement_deposit_def settlement_deposit_json_def
      find_field_def dec_field_def)

lemma dec_settlement_withdrawal_json:
  "dec_settlement_withdrawal zero_settlement_withdrawal (settlement_withdrawal_json w) = Some w"
  by (simp add: dec_settlement_withdrawal_def zero_settlement_withdrawal_def settlement_withdrawal_json_def
      find_field_def dec_field_def)

lemma dec_settlement_update_json: "dec_settlement_update zero_settlement_update (settlement_update_json u) = Some u"
  by (simp add: dec_settlement_update_def zero_settlement_update_def settlement_update_json_def
      find_field_def dec_field_def dec_list_map dec_settlement_deposit_json dec_settlement_withdrawal_json)

lemma dec_batch_commitments_json: "dec_batch_commitments zero_batch_commitments (batch_commitments_json c) = Some c"
  by (simp add: dec_batch_commitments_def zero_batch_commitments_def batch_commitments_json_def
      find_field_def dec_field_def)

lemma dec_witness_account_json: "dec_witness_account zero_witness_account (witness_account_json a) = Some a"
  by (simp add: dec_witness_account_def zero_witness_account_def witness_account_json_def
      find_field_def dec_field_def)

lemma dec_witness_json: "dec_witness zero_witness (witness_json w) = Some w"
  by (simp add: dec_witness_def zero_witness_def witness_json_def find_field_def dec_field_def
      dec_list_map dec_witness_account_json dec_strings)

lemma dec_proof_bundle_json: "dec_proof_bundle zero_proof_bundle (proof_bundle_json p) = Some p"
  by (simp add: dec_proof_bundle_def zero_proof_bundle_def proof_bundle_json_def find_field_def
      dec_field_def dec_strings)

subsection \<open>Bodies of several parts\<close>

text \<open>\<^verbatim>\<open>GenerateProofRequestBody\<close>, also what the remote prover is sent; \<^verbatim>\<open>SubmitBatchRequestBody\<close>, also what the remote verifier is sent.\<close>

record proof_body =
  prb_update :: settlement_update
  prb_commitments :: batch_commitments
  prb_witness :: witness

definition zero_proof_body :: proof_body where
  "zero_proof_body = \<lparr>prb_update = zero_settlement_update, prb_commitments = zero_batch_commitments,
     prb_witness = zero_witness\<rparr>"

definition dec_proof_body :: "proof_body decoder" where
  "dec_proof_body = dec_struct
     [(''settlementUpdate'', dec_field prb_update (\<lambda>x b. b\<lparr>prb_update := x\<rparr>) dec_settlement_update),
      (''batchCommitments'', dec_field prb_commitments (\<lambda>x b. b\<lparr>prb_commitments := x\<rparr>) dec_batch_commitments),
      (''witness'', dec_field prb_witness (\<lambda>x b. b\<lparr>prb_witness := x\<rparr>) dec_witness)]"

definition proof_body_json :: "proof_body \<Rightarrow> json" where
  "proof_body_json b = JObj [(''settlementUpdate'', settlement_update_json (prb_update b)),
     (''batchCommitments'', batch_commitments_json (prb_commitments b)), (''witness'', witness_json (prb_witness b))]"

definition zero_submit_body :: submit_batch_body where
  "zero_submit_body = \<lparr>sb_update = zero_settlement_update, sb_commitments = zero_batch_commitments,
     sb_proof = zero_proof_bundle\<rparr>"

definition dec_submit_body :: "submit_batch_body decoder" where
  "dec_submit_body = dec_struct
     [(''settlementUpdate'', dec_field sb_update (\<lambda>x b. b\<lparr>sb_update := x\<rparr>) dec_settlement_update),
      (''batchCommitments'', dec_field sb_commitments (\<lambda>x b. b\<lparr>sb_commitments := x\<rparr>) dec_batch_commitments),
      (''proofBundle'', dec_field sb_proof (\<lambda>x b. b\<lparr>sb_proof := x\<rparr>) dec_proof_bundle)]"

definition submit_body_json :: "submit_batch_body \<Rightarrow> json" where
  "submit_body_json b = JObj [(''settlementUpdate'', settlement_update_json (sb_update b)),
     (''batchCommitments'', batch_commitments_json (sb_commitments b)), (''proofBundle'', proof_bundle_json (sb_proof b))]"

lemma dec_proof_body_json: "dec_proof_body zero_proof_body (proof_body_json b) = Some b"
  by (simp add: dec_proof_body_def zero_proof_body_def proof_body_json_def find_field_def dec_field_def
      dec_settlement_update_json dec_batch_commitments_json dec_witness_json)

lemma dec_submit_body_json: "dec_submit_body zero_submit_body (submit_body_json b) = Some b"
  by (simp add: dec_submit_body_def zero_submit_body_def submit_body_json_def find_field_def dec_field_def
      dec_settlement_update_json dec_batch_commitments_json dec_proof_bundle_json)

subsection \<open>From text to datum\<close>

text \<open>A value whose strings are valid UTF-8 is read back unchanged.\<close>

fun json_valid :: "json \<Rightarrow> bool" where
  "json_valid (JStr s) = utf8_valid s"
| "json_valid (JArr vs) = (\<forall>v \<in> set vs. json_valid v)"
| "json_valid (JObj kvs) = (\<forall>kv \<in> set kvs. utf8_valid (fst kv) \<and> json_valid (snd kv))"
| "json_valid v = True"

lemma json_clean_valid: "json_valid v \<Longrightarrow> json_clean v = v"
proof (induction v)
  case (JArr vs)
  then show ?case by (simp add: map_idI)
next
  case (JObj kvs)
  have "(case kv of (k, v) \<Rightarrow> (utf8_clean k, json_clean v)) = kv" if "kv \<in> set kvs" for kv
    using JObj that by (cases kv) (force simp: utf8_valid_def)
  then show ?case by (simp add: map_idI)
qed (simp_all add: utf8_valid_def)

lemma unmarshal_into_text:
  "json_fits max_nesting v \<Longrightarrow> json_valid v \<Longrightarrow> unmarshal_into f zero (json_text v) = f zero v"
  by (simp add: unmarshal_into_def unmarshal_json_text json_clean_valid)

lemma decode_into_text:
  "json_fits max_nesting v \<Longrightarrow> json_valid v \<Longrightarrow> ends_value rest \<Longrightarrow> decode_into f zero (json_text v @ rest) = f zero v"
  by (simp add: decode_into_def decode_json_text json_clean_valid)

lemma json_fits_records [simp]:
  "0 < d \<Longrightarrow> json_fits d (deposit_record_json r)" "0 < d \<Longrightarrow> json_fits d (withdraw_record_json w)"
  by (simp_all add: deposit_record_json_def withdraw_record_json_def set_string10_int_to_dec)

lemma json_fits_strings: "0 < d \<Longrightarrow> json_fits d (strings_json xs)"
  by (simp add: strings_json_def)

lemma json_fits_parts:
  "2 < d \<Longrightarrow> json_fits d (settlement_update_json u)" "0 < d \<Longrightarrow> json_fits d (batch_commitments_json c)"
  "2 < d \<Longrightarrow> json_fits d (witness_json w)" "1 < d \<Longrightarrow> json_fits d (proof_bundle_json p)"
  by (auto simp: settlement_update_json_def settlement_deposit_json_def settlement_withdrawal_json_def
      batch_commitments_json_def witness_json_def witness_account_json_def proof_bundle_json_def strings_json_def)

lemma json_fits_bodies [simp]:
  "json_fits max_nesting (proof_body_json b)" "json_fits max_nesting (submit_body_json b')"
  by (auto simp: proof_body_json_def submit_body_json_def max_nesting_def json_fits_parts)

end
