(* ===== verification/Relayer.thy ===== *)
theory Relayer
  imports Body_Decoders Public_Inputs
begin

text \<open>
  \<^verbatim>\<open>internal/relayer\<close>: the local relayer, and the Cosmos relayer that shells out to the chain
  binary. The process runner, the context, the clock and the temporary file are the environment of
  the relayer: operations on a state of their own, kept in a record \<open>cli\<close> over the type
  \<open>'w\<close> of that state. What a run prints is cut and decoded as the code does it.
\<close>

subsection \<open>Results\<close>

record submit_result =
  sres_tx_hash :: string
  sres_accepted :: bool
  sres_proof_status :: string
  sres_withdraw_records :: "withdraw_record list"

definition no_submit_result :: submit_result where
  "no_submit_result = \<lparr>sres_tx_hash = [], sres_accepted = False, sres_proof_status = [], sres_withdraw_records = []\<rparr>"

record claim_result =
  cres_tx_hash :: string
  cres_withdraw_record :: withdraw_record

text \<open>The record a settled withdrawal leaves to be claimed.\<close>

definition unclaimed_record :: "settlement_withdrawal \<Rightarrow> withdraw_record" where
  "unclaimed_record w = \<lparr>wrec_id = sw_id w, wrec_owner = sw_owner w, wrec_denom = sw_denom w,
     wrec_amount = sw_amount w, wrec_destination = sw_destination w, wrec_nullifier = sw_nullifier w,
     wrec_claimed = False\<rparr>"

definition accepted_result :: "string \<Rightarrow> settlement_update \<Rightarrow> submit_result" where
  "accepted_result tx u = \<lparr>sres_tx_hash = tx, sres_accepted = True, sres_proof_status = ''accepted'',
     sres_withdraw_records = map unclaimed_record (su_withdrawals u)\<rparr>"

subsection \<open>The local relayer\<close>

text \<open>The loop over the six expected values; the length has been checked.\<close>

fun inputs_match :: "string list \<Rightarrow> string list \<Rightarrow> bool" where
  "inputs_match (x # xs) (y # ys) = (if x \<noteq> y then False else inputs_match xs ys)"
| "inputs_match _ _ = True"

definition validate_public_inputs :: "submit_batch_body \<Rightarrow> go_error option" where
  "validate_public_inputs req =
     (let u = sb_update req; c = sb_commitments req; p = sb_proof req in
      if su_batch_id u = [] then Some (ErrText ''settlementUpdate is required'')
      else if pb_proof p = [] then Some (ErrText ''proofBundle is required'')
      else if length (pb_public_inputs p) \<noteq> 6
        then Some (ErrText ''proof public inputs must contain 6 values'')
      else if \<not> inputs_match (pb_public_inputs p) [su_old_root u, su_new_root u, bc_deposits_root c,
            bc_withdrawals_root c, bc_nullifiers_root c, bc_withdraw_outputs_root c]
        then Some (ErrText ''proof public inputs do not match settlement'')
      else None)"

definition local_submit_batch :: "submit_batch_body \<Rightarrow> submit_result res" where
  "local_submit_batch req = (case validate_public_inputs req of
     Some e \<Rightarrow> Inl e
   | None \<Rightarrow> Inr (accepted_result (hash_json ''local-submit-batch'' (json_object
        [(''batchCommitments'', json_batch_commitments (sb_commitments req)),
         (''proofBundle'', json_proof_bundle (sb_proof req)),
         (''settlementUpdate'', json_settlement_update (sb_update req))])) (sb_update req)))"

definition local_claim_withdraw :: "withdraw_record \<Rightarrow> claim_result res" where
  "local_claim_withdraw r =
     (if wrec_id r = [] then Inl (ErrText ''withdrawRecord is required'')
      else if wrec_claimed r then Inl (ErrText ''withdraw already claimed'')
      else Inr \<lparr>cres_tx_hash = hash_json ''local-claim-withdraw'' (json_withdraw_record (r\<lparr>wrec_claimed := True\<rparr>)),
                cres_withdraw_record = r\<lparr>wrec_claimed := True\<rparr>\<rparr>)"

subsection \<open>The environment of the Cosmos relayer\<close>

record tx_output =
  tx_hash :: string
  tx_code :: int
  tx_raw_log :: string

definition no_tx :: tx_output where
  "no_tx = \<lparr>tx_hash = [], tx_code = 0, tx_raw_log = []\<rparr>"

text \<open>
  \<open>cli_run\<close> is \<^verbatim>\<open>runner.Run\<close>: what was printed, and the error if the process failed.
  \<open>cli_wait\<close> is the \<^verbatim>\<open>select\<close> between the timer and \<^verbatim>\<open>ctx.Done()\<close>, false when the
  context won; \<open>cli_ctx_err\<close> is \<^verbatim>\<open>ctx.Err()\<close>. \<open>cli_temp\<close> creates, writes and closes the
  temporary file and gives its name; \<open>cli_remove\<close> is \<^verbatim>\<open>os.Remove\<close>.
\<close>

record 'w cli =
  cli_run :: "string \<Rightarrow> string list \<Rightarrow> 'w \<Rightarrow> 'w \<times> string \<times> string option"
  cli_wait :: "int \<Rightarrow> 'w \<Rightarrow> 'w \<times> bool"
  cli_ctx_err :: "'w \<Rightarrow> string option"
  cli_temp :: "string \<Rightarrow> 'w \<Rightarrow> 'w \<times> (string + string)"
  cli_remove :: "string \<Rightarrow> 'w \<Rightarrow> 'w"

record cosmos_config =
  cc_binary :: string
  cc_chain_id :: string
  cc_node :: string
  cc_from :: string
  cc_keyring_backend :: string
  cc_home :: string
  cc_gas :: string
  cc_gas_adjustment :: string
  cc_gas_prices :: string
  cc_fees :: string
  cc_broadcast_mode :: string
  cc_wait_for_commit :: bool
  cc_confirm_attempts :: int
  cc_confirm_interval :: int
  cc_seq_retry_max :: int
  cc_seq_retry_delay :: int

definition dec_tx_output :: "tx_output decoder" where
  "dec_tx_output = dec_struct
     [(''txhash'', dec_field tx_hash (\<lambda>x t. t\<lparr>tx_hash := x\<rparr>) dec_string),
      (''code'', dec_field tx_code (\<lambda>x t. t\<lparr>tx_code := x\<rparr>) dec_int),
      (''raw_log'', dec_field tx_raw_log (\<lambda>x t. t\<lparr>tx_raw_log := x\<rparr>) dec_string)]"

definition or_default :: "string \<Rightarrow> string \<Rightarrow> string" where
  "or_default s d = (if trim_space s = [] then d else s)"

definition second :: int where "second = 1000000000"

definition with_defaults :: "cosmos_config \<Rightarrow> cosmos_config" where
  "with_defaults c = c\<lparr>cc_binary := or_default (cc_binary c) ''obd'',
     cc_keyring_backend := or_default (cc_keyring_backend c) ''test'',
     cc_gas := or_default (cc_gas c) ''auto'',
     cc_gas_adjustment := or_default (cc_gas_adjustment c) ''1.5'',
     cc_broadcast_mode := or_default (cc_broadcast_mode c) ''sync'',
     cc_confirm_attempts := (if cc_confirm_attempts c \<le> 0 then 30 else cc_confirm_attempts c),
     cc_confirm_interval := (if cc_confirm_interval c \<le> 0 then second else cc_confirm_interval c),
     cc_seq_retry_max := (if cc_seq_retry_max c \<le> 0 then 5 else cc_seq_retry_max c),
     cc_seq_retry_delay := (if cc_seq_retry_delay c \<le> 0 then second else cc_seq_retry_delay c)\<rparr>"

subsection \<open>Arguments\<close>

definition flag_if :: "string \<Rightarrow> string \<Rightarrow> string list" where
  "flag_if flag value = (if trim_space value \<noteq> [] then [flag, value] else [])"

definition common_tx_args :: "cosmos_config \<Rightarrow> string \<Rightarrow> string list" where
  "common_tx_args c signer =
     [''--from'', signer, ''--chain-id'', cc_chain_id c, ''--keyring-backend'', cc_keyring_backend c,
      ''--gas'', cc_gas c, ''--gas-adjustment'', cc_gas_adjustment c,
      ''--broadcast-mode'', cc_broadcast_mode c, ''--output'', ''json'', ''-y'']
     @ flag_if ''--node'' (cc_node c) @ flag_if ''--home'' (cc_home c)
     @ (if trim_space (cc_fees c) \<noteq> [] then [''--fees'', cc_fees c]
        else flag_if ''--gas-prices'' (cc_gas_prices c))"

definition query_tx_args :: "cosmos_config \<Rightarrow> string \<Rightarrow> string list" where
  "query_tx_args c h = [''query'', ''tx'', h, ''--output'', ''json'']
     @ flag_if ''--node'' (cc_node c) @ flag_if ''--home'' (cc_home c)"

definition build_submit_batch_proof_flags ::
    "submit_batch_body \<Rightarrow> (string \<times> string \<times> string) res" where
  "build_submit_batch_proof_flags req =
     (if su_batch_id (sb_update req) = [] then Inl (ErrText ''settlementUpdate.batchId is required'')
      else if pb_proof (sb_proof req) = [] then Inl (ErrText ''proofBundle.proof is required'')
      else if length (pb_public_inputs (sb_proof req)) \<noteq> 6
        then Inl (ErrText ''proofBundle.publicInputs must contain 6 values'')
      else Inr (json_settlement_update (sb_update req), json_batch_commitments (sb_commitments req),
        json_object [(''proof'', json_string (pb_proof (sb_proof req))),
          (''publicInputs'', json_strings (pb_public_inputs (sb_proof req)))]))"

definition submit_batch_args :: "cosmos_config \<Rightarrow> string \<Rightarrow> string \<Rightarrow> string \<Rightarrow> string list" where
  "submit_batch_args c su bc file =
     [''tx'', ''zkdex'', ''submit-batch-proof'', ''--settlement-update'', su,
      ''--batch-commitments'', bc, ''--proof-bundle'', file] @ common_tx_args c (cc_from c)"

subsection \<open>Reading what the binary printed\<close>

text \<open>The text from the first opening to the last closing brace.\<close>

definition json_span :: "string \<Rightarrow> string option" where
  "json_span raw = (case dropWhile (\<lambda>c. c \<noteq> CHR ''{'') raw of
     [] \<Rightarrow> None
   | c # s \<Rightarrow> (case dropWhile (\<lambda>x. x \<noteq> CHR ''}'') (rev (c # s)) of
       [] \<Rightarrow> None
     | t \<Rightarrow> Some (rev t)))"

definition parse_tx_output :: "string \<Rightarrow> tx_output res" where
  "parse_tx_output out =
     (let raw = trim_space out in
      if raw = [] then Inl (ErrText ''empty CLI output'')
      else case json_span raw of
        None \<Rightarrow> Inl (ErrText ''no JSON object in CLI output'')
      | Some body \<Rightarrow> (case unmarshal_into dec_tx_output no_tx body of
          None \<Rightarrow> Inl (ErrText ''decode CLI output'')
        | Some tx \<Rightarrow> if tx_hash tx = [] then Inl (ErrText ''CLI output missing txhash'') else Inr tx))"

text \<open>Whatever the binary prints around an object, as long as it has no braces, is skipped.\<close>

lemma json_object_ends: "\<exists>mid. json_object kvs = CHR 0x7B # mid @ [CHR 0x7D]"
  by (simp add: json_object_def)

lemma json_span_object:
  assumes "CHR 0x7B \<notin> set pre" and "CHR 0x7D \<notin> set post"
  shows "json_span (pre @ json_object kvs @ post) = Some (json_object kvs)"
proof -
  obtain mid where o: "json_object kvs = CHR 0x7B # mid @ [CHR 0x7D]" using json_object_ends by blast
  have "dropWhile (\<lambda>c. c \<noteq> CHR 0x7B) (pre @ json_object kvs @ post) = json_object kvs @ post"
    using assms(1) o by (subst dropWhile_append2) auto
  moreover have "dropWhile (\<lambda>x. x \<noteq> CHR 0x7D) (rev (json_object kvs @ post)) = rev (json_object kvs)"
    unfolding rev_append using assms(2) o by (subst dropWhile_append2) auto
  ultimately show ?thesis unfolding json_span_def using o by simp
qed

lemma trim_space_bounded: "s \<noteq> [] \<Longrightarrow> plain_char (hd s) \<Longrightarrow> plain_char (last s) \<Longrightarrow> trim_space s = s"
  by (cases s) (auto intro!: trim_space_ends)

lemma trim_space_object:
  assumes "pre = [] \<or> plain_char (hd pre)"
  shows "trim_space (pre @ json_object kvs) = pre @ json_object kvs"
proof (rule trim_space_bounded)
  show "plain_char (hd (pre @ json_object kvs))"
    using assms by (cases pre) (auto simp: json_object_def plain_char_def)
qed (simp_all add: json_object_def plain_char_def)

definition is_sequence_mismatch :: "string \<Rightarrow> bool" where
  "is_sequence_mismatch s = go_contains s ''account sequence mismatch''"

definition sleep_ctx :: "'w cli \<Rightarrow> int \<Rightarrow> 'w \<Rightarrow> 'w \<times> bool" where
  "sleep_ctx cl d w = (if d \<le> 0 then (w, cli_ctx_err cl w = None) else cli_wait cl d w)"

text \<open>\<^verbatim>\<open>return txOutput{}, ctx.Err()\<close>\<close>

definition give_up :: "'w cli \<Rightarrow> 'w \<Rightarrow> tx_output res" where
  "give_up cl w = (case cli_ctx_err cl w of Some e \<Rightarrow> Inl (ErrExternal e) | None \<Rightarrow> Inr no_tx)"

subsection \<open>Broadcasting, and waiting for a block\<close>

text \<open>
  The retry loop, by the number of attempts left; \<^verbatim>\<open>i < attempts-1\<close> says that one more is
  left after this one.
\<close>

fun broadcast_loop :: "'w cli \<Rightarrow> cosmos_config \<Rightarrow> string list \<Rightarrow> nat \<Rightarrow> 'w \<Rightarrow> 'w \<times> tx_output res" where
  "broadcast_loop cl c args 0 w = (w, Inl (ErrText ''broadcast exhausted retries''))"
| "broadcast_loop cl c args (Suc n) w =
     (case cli_run cl (cc_binary c) args w of (w1, out, run_err) \<Rightarrow>
      case (run_err, parse_tx_output out) of
        (Some e, Inl _) \<Rightarrow>
          if is_sequence_mismatch out \<and> 0 < n then
            (case sleep_ctx cl (cc_seq_retry_delay c) w1 of
               (w2, False) \<Rightarrow> (w2, give_up cl w2)
             | (w2, True) \<Rightarrow> broadcast_loop cl c args n w2)
          else (w1, Inl (ErrExternal e))
      | (None, Inl pe) \<Rightarrow> (w1, Inl pe)
      | (_, Inr tx) \<Rightarrow>
          if tx_code tx \<noteq> 0 \<and> is_sequence_mismatch (tx_raw_log tx) \<and> 0 < n then
            (case sleep_ctx cl (cc_seq_retry_delay c) w1 of
               (w2, False) \<Rightarrow> (w2, give_up cl w2)
             | (w2, True) \<Rightarrow> broadcast_loop cl c args n w2)
          else (w1, Inr tx))"

definition attempts :: "int \<Rightarrow> nat" where
  "attempts k = (if k < 1 then 1 else nat k)"

definition broadcast :: "'w cli \<Rightarrow> cosmos_config \<Rightarrow> string list \<Rightarrow> 'w \<Rightarrow> 'w \<times> tx_output res" where
  "broadcast cl c args = broadcast_loop cl c args (attempts (cc_seq_retry_max c))"

fun wait_loop :: "'w cli \<Rightarrow> cosmos_config \<Rightarrow> string \<Rightarrow> nat \<Rightarrow> 'w \<Rightarrow> 'w \<times> tx_output res" where
  "wait_loop cl c h 0 w = (w, Inl (ErrText ''tx not committed''))"
| "wait_loop cl c h (Suc n) w =
     (case cli_run cl (cc_binary c) (query_tx_args c h) w of (w1, out, run_err) \<Rightarrow>
      case (run_err, parse_tx_output out) of
        (None, Inr tx) \<Rightarrow> (w1, Inr tx)
      | _ \<Rightarrow>
          if 0 < n then
            (case sleep_ctx cl (cc_confirm_interval c) w1 of
               (w2, False) \<Rightarrow> (w2, give_up cl w2)
             | (w2, True) \<Rightarrow> wait_loop cl c h n w2)
          else (w1, Inl (ErrText ''tx not committed'')))"

definition wait_for_tx_commit :: "'w cli \<Rightarrow> cosmos_config \<Rightarrow> string \<Rightarrow> 'w \<Rightarrow> 'w \<times> tx_output res" where
  "wait_for_tx_commit cl c h = wait_loop cl c h (attempts (cc_confirm_attempts c))"

subsection \<open>The operations of the Cosmos relayer\<close>

definition submit_with_file ::
    "'w cli \<Rightarrow> cosmos_config \<Rightarrow> submit_batch_body \<Rightarrow> string list \<Rightarrow> 'w \<Rightarrow> 'w \<times> submit_result \<times> go_error option" where
  "submit_with_file cl c req args w =
     (case broadcast cl c args w of
        (w1, Inl e) \<Rightarrow> (w1, no_submit_result, Some e)
      | (w1, Inr tx) \<Rightarrow>
          if tx_code tx \<noteq> 0 then
            (w1, no_submit_result\<lparr>sres_tx_hash := tx_hash tx, sres_proof_status := ''rejected''\<rparr>,
             Some (ErrText ''submit-batch-proof rejected by chain''))
          else if cc_wait_for_commit c then
            (case wait_for_tx_commit cl c (tx_hash tx) w1 of
               (w2, Inl e) \<Rightarrow> (w2, no_submit_result\<lparr>sres_tx_hash := tx_hash tx\<rparr>, Some e)
             | (w2, Inr com) \<Rightarrow>
                 if tx_code com \<noteq> 0 then
                   (w2, no_submit_result\<lparr>sres_tx_hash := tx_hash com, sres_proof_status := ''rejected''\<rparr>,
                    Some (ErrText ''submit-batch-proof rejected in block''))
                 else (w2, accepted_result (tx_hash com) (sb_update req), None))
          else (w1, accepted_result (tx_hash tx) (sb_update req), None))"

text \<open>The deferred removal of the file runs on every return.\<close>

definition cosmos_submit_batch ::
    "'w cli \<Rightarrow> cosmos_config \<Rightarrow> submit_batch_body \<Rightarrow> 'w \<Rightarrow> 'w \<times> submit_result \<times> go_error option" where
  "cosmos_submit_batch cl c req w = (case build_submit_batch_proof_flags req of
     Inl e \<Rightarrow> (w, no_submit_result, Some e)
   | Inr (su, bc, pb) \<Rightarrow> (case cli_temp cl pb w of
       (w1, Inl e) \<Rightarrow> (w1, no_submit_result, Some (ErrExternal e))
     | (w1, Inr file) \<Rightarrow>
         (case submit_with_file cl c req (submit_batch_args c su bc file) w1 of
            (w2, res) \<Rightarrow> (cli_remove cl file w2, res))))"

definition cosmos_claim_withdraw ::
    "'w cli \<Rightarrow> cosmos_config \<Rightarrow> withdraw_record \<Rightarrow> 'w \<Rightarrow> 'w \<times> claim_result res" where
  "cosmos_claim_withdraw cl c r w =
     (if wrec_id r = [] then (w, Inl (ErrText ''withdrawRecord is required''))
      else if wrec_claimed r then (w, Inl (ErrText ''withdraw already claimed''))
      else let signer = trim_space (wrec_destination r) in
        if signer = [] then (w, Inl (ErrText ''withdrawRecord.destination is required to sign claim''))
        else case cli_run cl (cc_binary c) ([''tx'', ''zkdex'', ''claim-withdraw'', wrec_id r] @ common_tx_args c signer) w of
          (w1, out, run_err) \<Rightarrow>
            (case (run_err, parse_tx_output out) of
               (Some e, Inl _) \<Rightarrow> (w1, Inl (ErrExternal e))
             | (None, Inl pe) \<Rightarrow> (w1, Inl pe)
             | (_, Inr tx) \<Rightarrow>
                 if tx_code tx \<noteq> 0 then (w1, Inl (ErrText ''claim-withdraw rejected by chain''))
                 else (w1, Inr \<lparr>cres_tx_hash = tx_hash tx, cres_withdraw_record = r\<lparr>wrec_claimed := True\<rparr>\<rparr>)))"

subsection \<open>The interface of the relayers\<close>

text \<open>
  \<^verbatim>\<open>relayer.Client\<close>: what the services call, over the environment. Whatever the relayer, a
  submit that returns no error was accepted, and its records are the unclaimed withdrawals of the
  update it was given; a claim returns the record it was given, claimed.
\<close>

record 'w relayer =
  rl_submit :: "submit_batch_body \<Rightarrow> 'w \<Rightarrow> 'w \<times> submit_result \<times> go_error option"
  rl_claim :: "withdraw_record \<Rightarrow> 'w \<Rightarrow> 'w \<times> claim_result res"

definition local_relayer :: "'w relayer" where
  "local_relayer = \<lparr>
     rl_submit = (\<lambda>req w. case local_submit_batch req of
        Inl e \<Rightarrow> (w, no_submit_result, Some e) | Inr r \<Rightarrow> (w, r, None)),
     rl_claim = (\<lambda>r w. (w, local_claim_withdraw r))\<rparr>"

definition cosmos_relayer :: "'w cli \<Rightarrow> cosmos_config \<Rightarrow> 'w relayer" where
  "cosmos_relayer cl cfg = (let c = with_defaults cfg in
     \<lparr>rl_submit = cosmos_submit_batch cl c, rl_claim = cosmos_claim_withdraw cl c\<rparr>)"

locale relayer_client =
  fixes submit :: "submit_batch_body \<Rightarrow> 'w \<Rightarrow> 'w \<times> submit_result \<times> go_error option"
    and claim :: "withdraw_record \<Rightarrow> 'w \<Rightarrow> 'w \<times> claim_result res"
  assumes submit_accepted: "submit req w = (w', r, None) \<Longrightarrow> \<exists>tx. r = accepted_result tx (sb_update req)"
    and claim_claimed: "claim rec w = (w', Inr k) \<Longrightarrow> cres_withdraw_record k = rec\<lparr>wrec_claimed := True\<rparr> \<and> \<not> wrec_claimed rec"

context relayer_client begin

lemma submit_records:
  assumes "submit req w = (w', r, None)"
  shows "sres_accepted r" and "sres_withdraw_records r = map unclaimed_record (su_withdrawals (sb_update req))"
  using submit_accepted [OF assms] by (auto simp: accepted_result_def)

lemma not_accepted_error: "submit req w = (w', r, e) \<Longrightarrow> \<not> sres_accepted r \<Longrightarrow> e \<noteq> None"
  using submit_records(1) by (cases e) auto

end

lemma local_submit_Inr: "local_submit_batch req = Inr r \<Longrightarrow> \<exists>tx. r = accepted_result tx (sb_update req)"
  by (auto simp: local_submit_batch_def split: option.splits)

lemma submit_with_file_accepted:
  "submit_with_file cl c req args w = (w', r, None) \<Longrightarrow> \<exists>tx. r = accepted_result tx (sb_update req)"
  by (auto simp: submit_with_file_def split: prod.splits sum.splits if_splits)

lemma cosmos_submit_accepted:
  "cosmos_submit_batch cl c req w = (w', r, None) \<Longrightarrow> \<exists>tx. r = accepted_result tx (sb_update req)"
  by (auto simp: cosmos_submit_batch_def split: prod.splits sum.splits dest: submit_with_file_accepted)

lemma local_claim_Inr:
  "local_claim_withdraw x = Inr r \<Longrightarrow> cres_withdraw_record r = x\<lparr>wrec_claimed := True\<rparr> \<and> \<not> wrec_claimed x"
  by (auto simp: local_claim_withdraw_def split: if_splits)

lemma cosmos_claim_Inr:
  "cosmos_claim_withdraw cl c x w = (w', Inr r) \<Longrightarrow> cres_withdraw_record r = x\<lparr>wrec_claimed := True\<rparr> \<and> \<not> wrec_claimed x"
  by (auto simp: cosmos_claim_withdraw_def Let_def split: prod.splits option.splits sum.splits if_splits)

interpretation local_rl: relayer_client "rl_submit local_relayer" "rl_claim local_relayer"
  by unfold_locales (auto simp: local_relayer_def split: sum.splits dest: local_submit_Inr local_claim_Inr)

interpretation cosmos_rl: relayer_client "rl_submit (cosmos_relayer cl cfg)" "rl_claim (cosmos_relayer cl cfg)" for cl cfg
  by unfold_locales (auto simp: cosmos_relayer_def Let_def dest: cosmos_submit_accepted cosmos_claim_Inr)

subsection \<open>What a submit does with the binary\<close>

text \<open>
  A trace of the environment: every run of the binary appends its arguments and what came back, and
  nothing else changes it.
\<close>

type_synonym cli_run_record = "string \<times> string list \<times> string \<times> string option"

definition traced :: "'w cli \<Rightarrow> ('w \<Rightarrow> cli_run_record list) \<Rightarrow> bool" where
  "traced cl trace \<longleftrightarrow>
     (\<forall>b args w. trace (fst (cli_run cl b args w)) = trace w @ [(b, args, snd (cli_run cl b args w))])
     \<and> (\<forall>d w. trace (fst (cli_wait cl d w)) = trace w)
     \<and> (\<forall>body w. trace (fst (cli_temp cl body w)) = trace w)
     \<and> (\<forall>f w. trace (cli_remove cl f w) = trace w)"

text \<open>\<^verbatim>\<open>ctx.Done()\<close> wins the \<^verbatim>\<open>select\<close> only when \<^verbatim>\<open>ctx.Err()\<close> is set.\<close>

definition ctx_law :: "'w cli \<Rightarrow> bool" where
  "ctx_law cl \<longleftrightarrow> (\<forall>d w. \<not> snd (cli_wait cl d w) \<longrightarrow> cli_ctx_err cl (fst (cli_wait cl d w)) \<noteq> None)"

lemma traced_run: "traced cl trace \<Longrightarrow> cli_run cl b args w = (w', out, err) \<Longrightarrow> trace w' = trace w @ [(b, args, out, err)]"
  unfolding traced_def by (metis fst_conv snd_conv)

lemma traced_sleep: "traced cl trace \<Longrightarrow> sleep_ctx cl d w = (w', k) \<Longrightarrow> trace w' = trace w"
  unfolding traced_def sleep_ctx_def by (metis fst_conv)

lemma ctx_law_sleep: "ctx_law cl \<Longrightarrow> sleep_ctx cl d w = (w', k) \<Longrightarrow> k \<or> (\<exists>e. cli_ctx_err cl w' = Some e)"
  unfolding ctx_law_def sleep_ctx_def by (cases k) (auto split: if_splits, metis fst_conv option.exhaust snd_conv)

text \<open>The last run of a list printed this transaction.\<close>

definition ends_with_tx :: "string \<Rightarrow> string list \<Rightarrow> cli_run_record list \<Rightarrow> tx_output \<Rightarrow> bool" where
  "ends_with_tx b args runs tx \<longleftrightarrow> (\<exists>before out err. runs = before @ [(b, args, out, err)]
     \<and> parse_tx_output out = Inr tx)"

lemma ends_with_tx_Cons: "ends_with_tx b args runs tx \<Longrightarrow> ends_with_tx b args (x # runs) tx"
  unfolding ends_with_tx_def by (metis append_Cons)

lemma ends_with_tx_one: "parse_tx_output out = Inr tx \<Longrightarrow> ends_with_tx b args [(b, args, out, err)] tx"
  unfolding ends_with_tx_def by (metis append_Nil)

lemma broadcast_loop_step:
  assumes run: "cli_run cl (cc_binary c) args w = (w1, out, err)"
    and sl: "sleep_ctx cl (cc_seq_retry_delay c) w1 = (w2, k)"
  shows "(\<exists>r. broadcast_loop cl c args (Suc n) w = (w1, r) \<and> (\<forall>tx. r = Inr tx \<longrightarrow> parse_tx_output out = Inr tx))
    \<or> broadcast_loop cl c args (Suc n) w = (w2, give_up cl w2) \<and> \<not> k
    \<or> broadcast_loop cl c args (Suc n) w = broadcast_loop cl c args n w2"
  using run sl by (cases err; cases "parse_tx_output out"; cases k) simp_all

lemma broadcast_loop_trace:
  assumes tr: "traced cl trace" and l: "ctx_law cl"
  shows "broadcast_loop cl c args n w = (w', r) \<Longrightarrow> \<exists>runs. trace w' = trace w @ runs \<and> length runs \<le> n
    \<and> (\<forall>tx. r = Inr tx \<longrightarrow> ends_with_tx (cc_binary c) args runs tx)"
proof (induction n arbitrary: w)
  case (Suc n)
  obtain w1 out err where run: "cli_run cl (cc_binary c) args w = (w1, out, err)" by (metis prod_cases3)
  obtain w2 k where sl: "sleep_ctx cl (cc_seq_retry_delay c) w1 = (w2, k)" by (metis prod.exhaust)
  let ?run = "(cc_binary c, args, out, err)"
  have t2: "trace w1 = trace w @ [?run]" "trace w2 = trace w @ [?run]"
    using tr run sl by (simp_all add: traced_run traced_sleep)
  from Suc.prems consider "w' = w1" "\<forall>tx. r = Inr tx \<longrightarrow> parse_tx_output out = Inr tx"
    | "w' = w2" "\<not> k" "r = give_up cl w2" | "broadcast_loop cl c args n w2 = (w', r)"
    using broadcast_loop_step [OF run sl, of n] by auto
  then show ?case
  proof cases
    case 1 then show ?thesis using t2 by (intro exI [of _ "[?run]"]) (auto intro: ends_with_tx_one)
  next
    case 2 then show ?thesis using t2 ctx_law_sleep [OF l sl] by (intro exI [of _ "[?run]"]) (auto simp: give_up_def)
  next
    case 3
    from Suc.IH [OF 3] obtain runs where "trace w' = trace w2 @ runs" "length runs \<le> n"
      "\<forall>tx. r = Inr tx \<longrightarrow> ends_with_tx (cc_binary c) args runs tx" by blast
    with t2 show ?thesis by (intro exI [of _ "?run # runs"]) (auto intro: ends_with_tx_Cons)
  qed
qed auto

lemma wait_loop_step:
  assumes run: "cli_run cl (cc_binary c) (query_tx_args c h) w = (w1, out, err)"
    and sl: "sleep_ctx cl (cc_confirm_interval c) w1 = (w2, k)"
  shows "(\<exists>r. wait_loop cl c h (Suc n) w = (w1, r) \<and> (\<forall>tx. r = Inr tx \<longrightarrow> parse_tx_output out = Inr tx))
    \<or> wait_loop cl c h (Suc n) w = (w2, give_up cl w2) \<and> \<not> k
    \<or> wait_loop cl c h (Suc n) w = wait_loop cl c h n w2"
  using run sl by (cases err; cases "parse_tx_output out"; cases k) simp_all

lemma wait_loop_trace:
  assumes tr: "traced cl trace" and l: "ctx_law cl"
  shows "wait_loop cl c h n w = (w', r) \<Longrightarrow> \<exists>runs. trace w' = trace w @ runs \<and> length runs \<le> n
    \<and> (\<forall>tx. r = Inr tx \<longrightarrow> ends_with_tx (cc_binary c) (query_tx_args c h) runs tx)"
proof (induction n arbitrary: w)
  case (Suc n)
  obtain w1 out err where run: "cli_run cl (cc_binary c) (query_tx_args c h) w = (w1, out, err)" by (metis prod_cases3)
  obtain w2 k where sl: "sleep_ctx cl (cc_confirm_interval c) w1 = (w2, k)" by (metis prod.exhaust)
  let ?run = "(cc_binary c, query_tx_args c h, out, err)"
  have t2: "trace w1 = trace w @ [?run]" "trace w2 = trace w @ [?run]"
    using tr run sl by (simp_all add: traced_run traced_sleep)
  from Suc.prems consider "w' = w1" "\<forall>tx. r = Inr tx \<longrightarrow> parse_tx_output out = Inr tx"
    | "w' = w2" "\<not> k" "r = give_up cl w2" | "wait_loop cl c h n w2 = (w', r)"
    using wait_loop_step [OF run sl, of n] by auto
  then show ?case
  proof cases
    case 1 then show ?thesis using t2 by (intro exI [of _ "[?run]"]) (auto intro: ends_with_tx_one)
  next
    case 2 then show ?thesis using t2 ctx_law_sleep [OF l sl] by (intro exI [of _ "[?run]"]) (auto simp: give_up_def)
  next
    case 3
    from Suc.IH [OF 3] obtain runs where "trace w' = trace w2 @ runs" "length runs \<le> n"
      "\<forall>tx. r = Inr tx \<longrightarrow> ends_with_tx (cc_binary c) (query_tx_args c h) runs tx" by blast
    with t2 show ?thesis by (intro exI [of _ "?run # runs"]) (auto intro: ends_with_tx_Cons)
  qed
qed auto

definition submit_runs :: "cosmos_config \<Rightarrow> nat" where
  "submit_runs c = attempts (cc_seq_retry_max c) + (if cc_wait_for_commit c then attempts (cc_confirm_attempts c) else 0)"

text \<open>What the runs of an accepted submit show: the announced and the committed transaction.\<close>

definition confirmed :: "cosmos_config \<Rightarrow> string list \<Rightarrow> cli_run_record list \<Rightarrow> tx_output \<Rightarrow> bool" where
  "confirmed c args runs tx \<longleftrightarrow> (\<exists>sends queries sent. runs = sends @ queries
     \<and> ends_with_tx (cc_binary c) args sends sent \<and> tx_code sent = 0
     \<and> ends_with_tx (cc_binary c) (query_tx_args c (tx_hash sent)) queries tx \<and> tx_code tx = 0)"

lemma submit_with_file_trace:
  assumes tr: "traced cl trace" and l: "ctx_law cl" and s: "submit_with_file cl c req args w = (w', r, e)"
  shows "\<exists>runs. trace w' = trace w @ runs \<and> length runs \<le> submit_runs c
    \<and> (e = None \<and> cc_wait_for_commit c \<longrightarrow>
        (\<exists>tx. confirmed c args runs tx \<and> r = accepted_result (tx_hash tx) (sb_update req)))"
proof -
  obtain w1 b where b: "broadcast cl c args w = (w1, b)" by (metis prod.exhaust)
  obtain sends where 1: "trace w1 = trace w @ sends" "length sends \<le> attempts (cc_seq_retry_max c)"
      "\<And>tx. b = Inr tx \<Longrightarrow> ends_with_tx (cc_binary c) args sends tx"
    using broadcast_loop_trace [OF tr l b [unfolded broadcast_def]] by blast
  show ?thesis
  proof (cases "(\<exists>tx. b = Inr tx \<and> tx_code tx = 0) \<and> cc_wait_for_commit c")
    case True
    then obtain sent where sent: "b = Inr sent" "tx_code sent = 0" and wc: "cc_wait_for_commit c" by blast
    obtain w2 q where q: "wait_for_tx_commit cl c (tx_hash sent) w1 = (w2, q)" by (metis prod.exhaust)
    obtain queries where 2: "trace w2 = trace w1 @ queries" "length queries \<le> attempts (cc_confirm_attempts c)"
        "\<And>tx. q = Inr tx \<Longrightarrow> ends_with_tx (cc_binary c) (query_tx_args c (tx_hash sent)) queries tx"
      using wait_loop_trace [OF tr l q [unfolded wait_for_tx_commit_def]] by blast
    have "w' = w2" and "e = None \<Longrightarrow> \<exists>tx. q = Inr tx \<and> tx_code tx = 0 \<and> r = accepted_result (tx_hash tx) (sb_update req)"
      using s wc by (auto simp: submit_with_file_def b sent q split: sum.splits if_splits)
    then show ?thesis using 1 2 sent wc
      by (intro exI [of _ "sends @ queries"]) (fastforce simp: submit_runs_def confirmed_def)
  next
    case False
    then have "w' = w1 \<and> (e = None \<longrightarrow> \<not> cc_wait_for_commit c)"
      using s by (auto simp: submit_with_file_def b split: sum.splits if_splits)
    with 1 show ?thesis by (intro exI [of _ sends]) (auto simp: submit_runs_def)
  qed
qed

lemma cosmos_submit_trace:
  assumes tr: "traced cl trace" and l: "ctx_law cl" and s: "cosmos_submit_batch cl c req w = (w', r, e)"
  shows "\<exists>runs. trace w' = trace w @ runs \<and> length runs \<le> submit_runs c
    \<and> (e = None \<and> cc_wait_for_commit c \<longrightarrow> (\<exists>su bc pb path tx. build_submit_batch_proof_flags req = Inr (su, bc, pb)
        \<and> confirmed c (submit_batch_args c su bc path) runs tx \<and> r = accepted_result (tx_hash tx) (sb_update req)))"
proof (cases "build_submit_batch_proof_flags req")
  case (Inr f)
  obtain su bc pb where f: "f = (su, bc, pb)" by (metis prod_cases3)
  obtain w1 t where t: "cli_temp cl pb w = (w1, t)" by (metis prod.exhaust)
  have w1: "trace w1 = trace w" using tr t unfolding traced_def by (metis fst_conv)
  show ?thesis
  proof (cases t)
    case (Inl x) then show ?thesis using s Inr f t w1 by (auto simp: cosmos_submit_batch_def)
  next
    case (Inr path)
    obtain w2 r2 e2 where sub: "submit_with_file cl c req (submit_batch_args c su bc path) w1 = (w2, r2, e2)" by (metis prod_cases3)
    have fl: "build_submit_batch_proof_flags req = Inr (su, bc, pb)" using \<open>build_submit_batch_proof_flags req = Inr f\<close> f by simp
    with s t Inr sub have "w' = cli_remove cl path w2" "r = r2" "e = e2" by (auto simp: cosmos_submit_batch_def)
    moreover have "trace (cli_remove cl path w2) = trace w2" using tr unfolding traced_def by blast
    ultimately show ?thesis using submit_with_file_trace [OF tr l sub] w1 fl by fastforce
  qed
qed (use s in \<open>auto simp: cosmos_submit_batch_def\<close>)

lemma submit_runs_defaults:
  "submit_runs (with_defaults cfg) = nat (cc_seq_retry_max (with_defaults cfg))
     + (if cc_wait_for_commit cfg then nat (cc_confirm_attempts (with_defaults cfg)) else 0)"
  by (auto simp: submit_runs_def attempts_def with_defaults_def)

lemma wait_for_commit_defaults [simp]: "cc_wait_for_commit (with_defaults cfg) = cc_wait_for_commit cfg"
  by (simp add: with_defaults_def)

text \<open>An environment in which every run prints the same committed transaction.\<close>

definition prompt_json :: json where
  "prompt_json = JObj [(''txhash'', JStr ''T''), (''code'', JNum ''0'')]"

definition prompt_text :: string where
  "prompt_text = ''gas estimate: 7 '' @ json_text prompt_json"

definition prompt_cli :: "cli_run_record list cli" where
  "prompt_cli = \<lparr>cli_run = (\<lambda>b args n. (n @ [(b, args, prompt_text, None)], prompt_text, None)), cli_wait = (\<lambda>d n. (n, True)),
     cli_ctx_err = (\<lambda>n. None), cli_temp = (\<lambda>body n. (n, Inr ''f'')), cli_remove = (\<lambda>f n. n)\<rparr>"

lemma prompt_cli_laws: "traced prompt_cli id" "ctx_law prompt_cli"
  by (simp_all add: traced_def ctx_law_def prompt_cli_def)

lemma prompt_decodes: "unmarshal_into dec_tx_output no_tx (json_text prompt_json) = Some \<lparr>tx_hash = ''T'', tx_code = 0, tx_raw_log = []\<rparr>"
proof -
  have n: "int_to_dec 0 = ''0''" by (simp add: int_to_dec_def nat_to_dec.simps digit_char_eval)
  have "json_fits max_nesting prompt_json"
    using set_string10_int_to_dec [of 0] by (simp add: prompt_json_def max_nesting_def n)
  moreover have "json_valid prompt_json" by (simp add: prompt_json_def utf8_valid_ascii byte_def)
  moreover have "dec_tx_output no_tx prompt_json = Some \<lparr>tx_hash = ''T'', tx_code = 0, tx_raw_log = []\<rparr>"
    using parse_int64_format [of 0]
    by (simp add: dec_tx_output_def no_tx_def prompt_json_def find_field_def dec_field_def dec_int_def format_int64_def n)
  ultimately show ?thesis by (simp add: unmarshal_into_text)
qed

lemma prompt_output [simp]: "parse_tx_output prompt_text = Inr \<lparr>tx_hash = ''T'', tx_code = 0, tx_raw_log = []\<rparr>"
proof -
  obtain kvs where o: "json_text prompt_json = json_object kvs" by (simp add: prompt_json_def)
  have "trim_space prompt_text = prompt_text"
    unfolding prompt_text_def o by (rule trim_space_object) (simp add: plain_char_def)
  moreover have "json_span prompt_text = Some (json_text prompt_json)"
    using json_span_object [of "''gas estimate: 7 ''" "[]" kvs] by (simp add: prompt_text_def o)
  moreover have "prompt_text \<noteq> []" by (simp add: prompt_text_def)
  ultimately show ?thesis by (simp add: parse_tx_output_def Let_def prompt_decodes)
qed

definition prompt_config :: cosmos_config where
  "prompt_config = \<lparr>cc_binary = ''obd'', cc_chain_id = ''c'', cc_node = [], cc_from = ''r'', cc_keyring_backend = ''test'',
     cc_home = [], cc_gas = ''auto'', cc_gas_adjustment = ''1.5'', cc_gas_prices = [], cc_fees = [],
     cc_broadcast_mode = ''sync'', cc_wait_for_commit = True, cc_confirm_attempts = 0, cc_confirm_interval = 0,
     cc_seq_retry_max = 0, cc_seq_retry_delay = 0\<rparr>"

definition prompt_request :: submit_batch_body where
  "prompt_request = \<lparr>sb_update = \<lparr>su_batch_id = ''b'', su_old_root = ''r'', su_new_root = ''s'', su_deposits = [], su_withdrawals = []\<rparr>,
     sb_commitments = build_commitments \<lparr>su_batch_id = ''b'', su_old_root = ''r'', su_new_root = ''s'', su_deposits = [], su_withdrawals = []\<rparr>,
     sb_proof = \<lparr>pb_proof = ''p'', pb_public_inputs = [[], [], [], [], [], []], pb_vk_id = []\<rparr>\<rparr>"

lemma prompt_run [simp]: "cli_run prompt_cli b args n = (n @ [(b, args, prompt_text, None)], prompt_text, None)"
  by (simp add: prompt_cli_def)

lemma prompt_submit: "\<exists>w'. rl_submit (cosmos_relayer prompt_cli prompt_config) prompt_request []
    = (w', accepted_result ''T'' (sb_update prompt_request), None)"
proof -
  let ?c = "with_defaults prompt_config"
  let ?tx = "\<lparr>tx_hash = ''T'', tx_code = 0, tx_raw_log = []\<rparr>"
  have d: "cc_wait_for_commit ?c" by (simp add: prompt_config_def)
  have n: "attempts (cc_seq_retry_max ?c) = Suc 4" "attempts (cc_confirm_attempts ?c) = Suc 29"
    by (simp_all add: attempts_def with_defaults_def prompt_config_def)
  have b: "broadcast prompt_cli ?c args m = (m @ [(cc_binary ?c, args, prompt_text, None)], Inr ?tx)" for args m
    unfolding broadcast_def n by (subst broadcast_loop.simps(2)) simp
  have w: "wait_for_tx_commit prompt_cli ?c h m = (m @ [(cc_binary ?c, query_tx_args ?c h, prompt_text, None)], Inr ?tx)" for h m
    unfolding wait_for_tx_commit_def n by (subst wait_loop.simps(2)) simp
  have t: "cli_temp prompt_cli body n = (n, Inr ''f'')" "cli_remove prompt_cli f n = n" for body f n
    by (simp_all add: prompt_cli_def)
  show ?thesis
    by (simp add: cosmos_relayer_def Let_def cosmos_submit_batch_def build_submit_batch_proof_flags_def
        prompt_request_def t submit_with_file_def b w d)
qed

subsection \<open>Properties of the Cosmos relayer\<close>

text \<open>
  C28. However the chain binary answers, one submit runs it at most as often as the configured
  retries of the broadcast, plus the configured polls when it waits for the block. With the defaults
  of \<^verbatim>\<open>withDefaults\<close> that is 5 and 30, so the loops of \<^verbatim>\<open>broadcast\<close> and
  \<^verbatim>\<open>waitForTxCommit\<close> end.
\<close>

theorem cosmos_submit_runs_bounded:
  assumes "traced cl trace" and "ctx_law cl" and "rl_submit (cosmos_relayer cl cfg) req w = (w', r, e)"
  shows "\<exists>runs. trace w' = trace w @ runs \<and> length runs \<le> nat (cc_seq_retry_max (with_defaults cfg))
     + (if cc_wait_for_commit cfg then nat (cc_confirm_attempts (with_defaults cfg)) else 0)"
  using cosmos_submit_trace [OF assms(1,2), of "with_defaults cfg" req w w' r e] assms(3)
  by (auto simp: submit_runs_defaults cosmos_relayer_def Let_def)

theorem cosmos_submit_runs_bounded_witness:
  "\<exists>w' runs. w' = [] @ runs \<and> length runs \<le> 5 + 30
     \<and> fst (rl_submit (cosmos_relayer prompt_cli prompt_config) prompt_request []) = w'"
proof -
  obtain w' where w': "rl_submit (cosmos_relayer prompt_cli prompt_config) prompt_request []
      = (w', accepted_result ''T'' (sb_update prompt_request), None)" using prompt_submit by blast
  show ?thesis
    using cosmos_submit_runs_bounded [OF prompt_cli_laws w'] w' by (simp add: prompt_config_def with_defaults_def)
qed

text \<open>
  C29. When the relayer waits for the block, a submit without an error rests on two outputs of the
  binary, both from runs this submit made: the last run of the submit command itself, for the update,
  commitments and proof of the request, and after it the last of the queries for the transaction that
  command announced. Both have code 0, and the result carries the hash of the second one and the
  unclaimed withdrawals of the update.
\<close>

theorem cosmos_submit_confirmed:
  assumes "traced cl trace" and "ctx_law cl" and "cc_wait_for_commit cfg" and "c = with_defaults cfg"
    and "rl_submit (cosmos_relayer cl cfg) req w = (w', r, None)"
  shows "\<exists>su bc pb path sends queries sent tx. build_submit_batch_proof_flags req = Inr (su, bc, pb)
     \<and> trace w' = trace w @ sends @ queries
     \<and> ends_with_tx (cc_binary c) (submit_batch_args c su bc path) sends sent \<and> tx_code sent = 0
     \<and> ends_with_tx (cc_binary c) (query_tx_args c (tx_hash sent)) queries tx \<and> tx_code tx = 0
     \<and> r = accepted_result (tx_hash tx) (sb_update req)"
proof -
  have s: "cosmos_submit_batch cl c req w = (w', r, None)" using assms(4,5) by (simp add: cosmos_relayer_def Let_def)
  have "cc_wait_for_commit c" using assms(3,4) by simp
  with cosmos_submit_trace [OF assms(1,2) s] obtain runs su bc pb path tx where
      "trace w' = trace w @ runs" "build_submit_batch_proof_flags req = Inr (su, bc, pb)"
      "confirmed c (submit_batch_args c su bc path) runs tx" "r = accepted_result (tx_hash tx) (sb_update req)"
    by blast
  then show ?thesis unfolding confirmed_def by (metis append.assoc)
qed

theorem cosmos_submit_confirmed_witness:
  "\<exists>w' su bc pb path sends queries sent tx. build_submit_batch_proof_flags prompt_request = Inr (su, bc, pb)
     \<and> id w' = id [] @ sends @ queries
     \<and> ends_with_tx (cc_binary (with_defaults prompt_config)) (submit_batch_args (with_defaults prompt_config) su bc path) sends sent
     \<and> tx_code sent = 0
     \<and> ends_with_tx (cc_binary (with_defaults prompt_config)) (query_tx_args (with_defaults prompt_config) (tx_hash sent)) queries tx
     \<and> tx_code tx = 0 \<and> accepted_result ''T'' (sb_update prompt_request) = accepted_result (tx_hash tx) (sb_update prompt_request)"
proof -
  obtain w' where w': "rl_submit (cosmos_relayer prompt_cli prompt_config) prompt_request []
      = (w', accepted_result ''T'' (sb_update prompt_request), None)" using prompt_submit by blast
  have "cc_wait_for_commit prompt_config" by (simp add: prompt_config_def)
  from cosmos_submit_confirmed [OF prompt_cli_laws this refl w'] show ?thesis by blast
qed

end
