(* ===== verification/App_System.thy ===== *)
theory App_System
  imports Settlement_Service Batch_Repository Prover Relayer
begin

text \<open>
  What \<^verbatim>\<open>cmd/api/main.go\<close> wires together. The wiring is fixed at start: the
  repositories' modes, the builder, the prover, the verifier, the relayer, the chain client. The state
  is the backend (memory store and database), the offchain settlement service with the manager it
  shares with the snapshot builder, the rollback baseline of the batch service, the counter of the
  manual builder, and the environment of the outside systems. A request runs to its end before the
  next one, under a context that is not cancelled.
\<close>

record deposit_request =
  dq_owner :: string
  dq_denom :: string
  dq_amount :: string

record chain_event =
  ev_type :: string
  ev_attrs :: "string \<rightharpoonup> string"

record tx_result =
  txr_hash :: string
  txr_height :: int
  txr_events :: "chain_event list"

record 'w prover_client =
  pc_generate :: "settlement_update \<Rightarrow> batch_commitments \<Rightarrow> witness \<Rightarrow> 'w \<Rightarrow> 'w \<times> proof_bundle res"
  pc_artifact :: "('w \<Rightarrow> 'w \<times> verifier_artifact res) option"

record 'w wiring =
  wg_has_offchain :: bool
  wg_enabled :: bool
  wg_build_source :: string
  wg_batch_repo :: batch_repo
  wg_deposit_repo :: deposit_repo
  wg_withdraw_repo :: withdraw_repo
  wg_proof_store :: string
  wg_builder :: "manager \<Rightarrow> 64 word \<Rightarrow> go_error option \<Rightarrow> build_input \<Rightarrow> 64 word \<times> build_output res"
  wg_rollback :: bool
  wg_verifier :: "(submit_batch_body \<Rightarrow> 'w \<Rightarrow> 'w \<times> go_error option) option"
  wg_expected_vk :: string
  wg_prover :: "'w prover_client"
  wg_relayer :: "'w relayer"
  wg_chain :: "deposit_request \<Rightarrow> 'w \<Rightarrow> 'w \<times> tx_result res"

record 'w app =
  ap_backend :: backend
  ap_service :: service
  ap_baseline :: "snapshot option"
  ap_build_seq :: "64 word"
  ap_env :: 'w

type_synonym ('w, 'a) app_op = "'w app \<Rightarrow> 'w app \<times> 'a res"

definition ap_bind :: "('w, 'a) app_op \<Rightarrow> ('a \<Rightarrow> ('w, 'b) app_op) \<Rightarrow> ('w, 'b) app_op" where
  "ap_bind m f a = (case m a of (a', Inl e) \<Rightarrow> (a', Inl e) | (a', Inr x) \<Rightarrow> f x a')"

definition on_backend :: "'a backend_op \<Rightarrow> ('w, 'a) app_op" where
  "on_backend m a = (case m (ap_backend a) of (b, r) \<Rightarrow> (a\<lparr>ap_backend := b\<rparr>, r))"

definition on_service :: "'a action \<Rightarrow> ('w, 'a) app_op" where
  "on_service m a = (case m (ap_service a) of (s, r) \<Rightarrow> (a\<lparr>ap_service := s\<rparr>, r))"

definition on_env :: "('w \<Rightarrow> 'w \<times> 'a res) \<Rightarrow> ('w, 'a) app_op" where
  "on_env m a = (case m (ap_env a) of (w, r) \<Rightarrow> (a\<lparr>ap_env := w\<rparr>, r))"

definition source_manual :: string where "source_manual = ''manual''"
definition source_pending :: string where "source_pending = ''pending''"

definition local_prover :: "'w prover_client" where
  "local_prover = \<lparr>pc_generate = (\<lambda>u c wit w. (w, local_generate_proof u c wit)), pc_artifact = None\<rparr>"

lemma ap_bind_Inr: "m a = (a', Inr x) \<Longrightarrow> ap_bind m f a = f x a'"
  by (simp add: ap_bind_def)

lemma ap_bind_Inl: "m a = (a', Inl e) \<Longrightarrow> ap_bind m f a = (a', Inl e)"
  by (simp add: ap_bind_def)

lemma ap_bind_split:
  "ap_bind m f a = (a', r) \<Longrightarrow> (\<exists>e. m a = (a', Inl e) \<and> r = Inl e) \<or> (\<exists>a1 x. m a = (a1, Inr x) \<and> f x a1 = (a', r))"
  by (auto simp: ap_bind_def split: prod.splits sum.splits)

text \<open>Each lift touches its own part only.\<close>

lemma on_backend_frame:
  "on_backend m a = (a', r) \<Longrightarrow> ap_service a' = ap_service a \<and> ap_baseline a' = ap_baseline a
     \<and> ap_build_seq a' = ap_build_seq a \<and> ap_env a' = ap_env a \<and> m (ap_backend a) = (ap_backend a', r)"
  by (auto simp: on_backend_def split: prod.splits)

lemma on_service_frame:
  "on_service m a = (a', r) \<Longrightarrow> ap_backend a' = ap_backend a \<and> ap_baseline a' = ap_baseline a
     \<and> ap_build_seq a' = ap_build_seq a \<and> ap_env a' = ap_env a \<and> m (ap_service a) = (ap_service a', r)"
  by (auto simp: on_service_def split: prod.splits)

lemma on_env_frame:
  "on_env m a = (a', r) \<Longrightarrow> ap_backend a' = ap_backend a \<and> ap_service a' = ap_service a
     \<and> ap_baseline a' = ap_baseline a \<and> ap_build_seq a' = ap_build_seq a \<and> m (ap_env a) = (ap_env a', r)"
  by (auto simp: on_env_def split: prod.splits)

end
