(* ===== verification/Batch_Service.thy ===== *)
theory Batch_Service
  imports App_System
begin

text \<open>
  \<^verbatim>\<open>internal/service/batch_service.go\<close> and \<^verbatim>\<open>proof_service.go\<close>: building a
  batch by hand or from the pending log, proving it, and submitting it with the verification gate and
  the rollback of the in-memory mirror.
\<close>

subsection \<open>The rollback baseline\<close>

definition set_state_rollback :: "'w wiring \<Rightarrow> 'w app \<Rightarrow> 'w app" where
  "set_state_rollback wg a = (if wg_rollback wg
     then a\<lparr>ap_baseline := Some (manager_snapshot (sv_manager (ap_service a)))\<rparr> else a)"

definition commit_state_baseline :: "'w wiring \<Rightarrow> 'w app \<Rightarrow> 'w app" where
  "commit_state_baseline wg a = (if \<not> wg_rollback wg then a
     else a\<lparr>ap_baseline := Some (manager_snapshot (sv_manager (ap_service a)))\<rparr>)"

definition rollback_state_to_baseline :: "'w wiring \<Rightarrow> 'w app \<Rightarrow> 'w app" where
  "rollback_state_to_baseline wg a = (if \<not> wg_rollback wg then a else case ap_baseline a of None \<Rightarrow> a
     | Some snap \<Rightarrow> a\<lparr>ap_service := (ap_service a)\<lparr>sv_manager := manager_rollback snap (sv_manager (ap_service a))\<rparr>\<rparr>)"

subsection \<open>The verification gate\<close>

definition set_expected_verification_key_id :: "string \<Rightarrow> string" where
  "set_expected_verification_key_id i = trim_space i"

fun inputs_bind :: "string list \<Rightarrow> string list \<Rightarrow> bool" where
  "inputs_bind (x # xs) (y # ys) = (if x \<noteq> y then False else inputs_bind xs ys)"
| "inputs_bind _ _ = True"

definition guard_proof_contract :: "string \<Rightarrow> submit_batch_body \<Rightarrow> go_error option" where
  "guard_proof_contract expected req =
     (if expected \<noteq> [] \<and> trim_space (pb_vk_id (sb_proof req)) \<noteq> expected then Some ErrProofVerificationFailed
      else case build_public_inputs (sb_update req) (sb_commitments req) of
        Inl _ \<Rightarrow> Some ErrProofVerificationFailed
      | Inr inputs \<Rightarrow>
          if length (pb_public_inputs (sb_proof req)) \<noteq> length inputs then Some ErrProofVerificationFailed
          else if \<not> inputs_bind (pb_public_inputs (sb_proof req)) inputs then Some ErrProofVerificationFailed
          else None)"

subsection \<open>Building\<close>

text \<open>
  The second test reads the text of the error. Only errors that are not sentinels can carry that text.
\<close>

definition says_deposit_missing :: "go_error \<Rightarrow> bool" where
  "says_deposit_missing e = (case e of ErrText t \<Rightarrow> go_contains t ''deposit record not found''
     | ErrExternal t \<Rightarrow> go_contains t ''deposit record not found'' | _ \<Rightarrow> False)"

definition normalize_manual_batch_build_error :: "go_error \<Rightarrow> go_error" where
  "normalize_manual_batch_build_error e =
     (if e = ErrInsufficientOffchainBalance then ErrManualBatchInsufficientOffchainBalance
      else if e = ErrDepositNotFound \<or> says_deposit_missing e then ErrManualBatchDepositNotFound
      else e)"

fun load_deposits :: "'w wiring \<Rightarrow> string list \<Rightarrow> 'w app \<Rightarrow> deposit_record list res" where
  "load_deposits wg [] a = Inr []"
| "load_deposits wg (i # is) a = (case get_deposit (wg_deposit_repo wg) i (ap_backend a) of
     Inl e \<Rightarrow> Inl (normalize_manual_batch_build_error e)
   | Inr d \<Rightarrow> (case load_deposits wg is a of Inl e \<Rightarrow> Inl e | Inr ds \<Rightarrow> Inr (d # ds)))"

fun load_requests :: "'w wiring \<Rightarrow> string list \<Rightarrow> ('w, withdraw_request list) app_op" where
  "load_requests wg [] a = (a, Inr [])"
| "load_requests wg (i # is) a =
     (case on_backend (get_withdraw_request (wg_withdraw_repo wg) i) a of
        (a1, Inl e) \<Rightarrow> (a1, Inl (normalize_manual_batch_build_error e))
      | (a1, Inr r) \<Rightarrow> ap_bind (load_requests wg is) (\<lambda>rs a2. (a2, Inr (r # rs))) a1)"

definition built_state :: partial_state where
  "built_state = empty_partial_state\<lparr>ps_batch_status := ''built'', ps_proof_status := ''idle'',
     ps_withdraw_status := ''batchBuilt''\<rparr>"

text \<open>Saving the built batch and answering.\<close>

definition save_build :: "'w wiring \<Rightarrow> build_output \<Rightarrow> ('w, build_batch_response) app_op" where
  "save_build wg out = ap_bind
     (on_backend (save_batch_build (wg_batch_repo wg) (bo_update out) (bo_commitments out) (bo_witness out)))
     (\<lambda>_ a. (a, Inr \<lparr>bbr_update = bo_update out, bbr_commitments = bo_commitments out,
        bbr_witness = bo_witness out, bbr_state = built_state\<rparr>))"

definition build_manual_batch :: "'w wiring \<Rightarrow> build_batch_body \<Rightarrow> ('w, build_batch_response) app_op" where
  "build_manual_batch wg req a =
     (if bb_deposit_ids req = [] \<and> bb_withdraw_ids req = []
      then (a, Inl (ErrText ''depositIds and withdrawIds are required''))
      else case load_deposits wg (bb_deposit_ids req) a of Inl e \<Rightarrow> (a, Inl e)
      | Inr deposits \<Rightarrow> ap_bind (load_requests wg (bb_withdraw_ids req)) (\<lambda>requests a1.
          case wg_builder wg (sv_manager (ap_service a1)) (ap_build_seq a1) None
                 \<lparr>bi_old_root = ''0xrootA'', bi_deposits = deposits, bi_requests = requests, bi_secrets = []\<rparr> of
            (seq, Inl e) \<Rightarrow> (a1\<lparr>ap_build_seq := seq\<rparr>, Inl (normalize_manual_batch_build_error e))
          | (seq, Inr out) \<Rightarrow> save_build wg out (a1\<lparr>ap_build_seq := seq\<rparr>)) a)"

definition service_build_pending :: "'w wiring \<Rightarrow> ('w, build_batch_response) app_op" where
  "service_build_pending wg a =
     (if \<not> wg_has_offchain wg then (a, Inl ErrOffchainSettlementServiceRequired)
      else ap_bind (on_service (build_pending_batch [])) (save_build wg) a)"

definition build_batch :: "'w wiring \<Rightarrow> build_batch_body \<Rightarrow> ('w, build_batch_response) app_op" where
  "build_batch wg req = (if wg_build_source wg = source_pending then service_build_pending wg
     else build_manual_batch wg req)"

subsection \<open>Proving\<close>

text \<open>The artifact is fetched when the client also provides one.\<close>

definition check_artifact :: "'w wiring \<Rightarrow> proof_bundle \<Rightarrow> ('w, unit) app_op" where
  "check_artifact wg p a = (case pc_artifact (wg_prover wg) of None \<Rightarrow> (a, Inr ())
     | Some get \<Rightarrow> ap_bind (on_env get) (\<lambda>artifact a1.
         (a1, case validate_proof_bundle_matches p artifact of Some e \<Rightarrow> Inl e | None \<Rightarrow> Inr ())) a)"

definition generate_proof ::
    "'w wiring \<Rightarrow> settlement_update \<Rightarrow> batch_commitments \<Rightarrow> witness \<Rightarrow> ('w, proof_bundle) app_op" where
  "generate_proof wg u c wit = ap_bind (on_env (pc_generate (wg_prover wg) u c wit)) (\<lambda>p.
     ap_bind (check_artifact wg p) (\<lambda>_.
       ap_bind (on_backend (save_proof_bundle (wg_proof_store wg) (su_batch_id u) p)) (\<lambda>_ a. (a, Inr p))))"

subsection \<open>Submitting\<close>

definition check_proof :: "'w wiring \<Rightarrow> submit_batch_body \<Rightarrow> ('w, unit) app_op" where
  "check_proof wg req a = (case wg_verifier wg of None \<Rightarrow> (a, Inr ())
     | Some verify \<Rightarrow>
       (case guard_proof_contract (wg_expected_vk wg) req of
          Some e \<Rightarrow> (rollback_state_to_baseline wg a, Inl e)
        | None \<Rightarrow> (case verify req (ap_env a) of
            (w, Some _) \<Rightarrow> (rollback_state_to_baseline wg (a\<lparr>ap_env := w\<rparr>), Inl ErrProofVerificationFailed)
          | (w, None) \<Rightarrow> (a\<lparr>ap_env := w\<rparr>, Inr ()))))"

definition relay_batch :: "'w wiring \<Rightarrow> submit_batch_body \<Rightarrow> ('w, submit_result) app_op" where
  "relay_batch wg req a = (case rl_submit (wg_relayer wg) req (ap_env a) of
     (w, _, Some e) \<Rightarrow> (rollback_state_to_baseline wg (a\<lparr>ap_env := w\<rparr>), Inl e)
   | (w, res, None) \<Rightarrow>
       ((if sres_accepted res then commit_state_baseline wg (a\<lparr>ap_env := w\<rparr>)
         else rollback_state_to_baseline wg (a\<lparr>ap_env := w\<rparr>)), Inr res))"

text \<open>The pending log follows the chain.\<close>

definition settle_log :: "'w wiring \<Rightarrow> submit_batch_body \<Rightarrow> submit_result \<Rightarrow> ('w, unit) app_op" where
  "settle_log wg req res =
     (if wg_build_source wg = source_pending \<and> wg_has_offchain wg then
        (if sres_accepted res
         then on_service (commit_batch (su_batch_id (sb_update req)) (sres_tx_hash res) (su_new_root (sb_update req)))
         else on_service (fail_batch (su_batch_id (sb_update req)) (sres_proof_status res)))
      else (\<lambda>a. (a, Inr ())))"

definition submit_response :: "submit_batch_body \<Rightarrow> submit_result \<Rightarrow> submit_batch_response" where
  "submit_response req res = \<lparr>sbr_tx_hash = sres_tx_hash res, sbr_accepted = sres_accepted res,
     sbr_proof_status = sres_proof_status res, sbr_update = sb_update req,
     sbr_commitments = sb_commitments req, sbr_withdraw_records = sres_withdraw_records res,
     sbr_state = \<lparr>ps_current_root = su_new_root (sb_update req), ps_proof_status = sres_proof_status res,
       ps_deposit_status = ''processed'', ps_withdraw_status = ''readyToClaim'',
       ps_batch_status = ''accepted''\<rparr>\<rparr>"

definition submit_batch :: "'w wiring \<Rightarrow> submit_batch_body \<Rightarrow> ('w, submit_batch_response) app_op" where
  "submit_batch wg req =
     ap_bind (check_proof wg req) (\<lambda>_.
     ap_bind (relay_batch wg req) (\<lambda>res.
     ap_bind (on_backend (save_batch_submit_result (wg_batch_repo wg) (sb_update req) (sb_commitments req)
        (sres_tx_hash res) (sres_accepted res) (sres_proof_status res) (sres_withdraw_records res))) (\<lambda>_.
     ap_bind (settle_log wg req res) (\<lambda>_ a. (a, Inr (submit_response req res))))))"

end
