(* ===== verification/Sequencer.thy ===== *)
theory Sequencer
  imports Batch_Service
begin

text \<open>
  \<^verbatim>\<open>internal/sequencer/settlement_sequencer.go\<close>: one pass builds, proves and submits, and
  reopens the batch when a later stage fails; a drain repeats passes until one is idle or fails. A panic
  ends the process, so it passes every stage unhandled.
\<close>

definition default_interval :: int where "default_interval = 8 * second"

text \<open>\<^verbatim>\<open>New\<close>, of which the interval is what the model keeps.\<close>

definition new_sequencer_interval :: "int \<Rightarrow> int" where
  "new_sequencer_interval interval = (if interval \<le> 0 then default_interval else interval)"

definition is_panic :: "go_error \<Rightarrow> bool" where
  "is_panic e = (case e of ErrPanic _ \<Rightarrow> True | _ \<Rightarrow> False)"

text \<open>
  \<^verbatim>\<open>recovery\<close> is the offchain settlement service, absent when \<open>rec\<close> is false; a failure of
  it is only logged.
\<close>

definition reopen :: "bool \<Rightarrow> string \<Rightarrow> string \<Rightarrow> 'w app \<Rightarrow> 'w app" where
  "reopen rec batch reason a =
     (if \<not> rec then a else fst (on_service (cancel_included_batch batch reason) a))"

definition reopen_unless_panic :: "bool \<Rightarrow> string \<Rightarrow> string \<Rightarrow> go_error \<Rightarrow> 'w app \<Rightarrow> 'w app" where
  "reopen_unless_panic rec batch reason e a = (if is_panic e then a else reopen rec batch reason a)"

definition settle_once :: "'w wiring \<Rightarrow> bool \<Rightarrow> ('w, bool) app_op" where
  "settle_once wg rec a =
     (case build_batch wg \<lparr>bb_deposit_ids = [], bb_withdraw_ids = []\<rparr> a of
        (a1, Inl e) \<Rightarrow> (a1, if e = ErrNoPendingSettlementOperations then Inr False else Inl e)
      | (a1, Inr built) \<Rightarrow>
        let batch = su_batch_id (bbr_update built) in
        (case generate_proof wg (bbr_update built) (bbr_commitments built) (bbr_witness built) a1 of
           (a2, Inl e) \<Rightarrow> (reopen_unless_panic rec batch ''prove failed'' e a2, Inl e)
         | (a2, Inr p) \<Rightarrow>
           (case submit_batch wg \<lparr>sb_update = bbr_update built, sb_commitments = bbr_commitments built,
                                  sb_proof = p\<rparr> a2 of
              (a3, Inl e) \<Rightarrow> (reopen_unless_panic rec batch ''submit failed'' e a3, Inl e)
            | (a3, Inr res) \<Rightarrow>
                if \<not> sbr_accepted res then (reopen rec batch ''submit not accepted'' a3, Inl ErrBatchNotAccepted)
                else (a3, Inr True))))"

text \<open>
  \<^verbatim>\<open>drain\<close>: how many passes settled a batch, with at most \<open>fuel\<close> passes; \<open>None\<close> when the
  fuel ran out. \<open>live\<close> says whether the context is still live before each pass.
\<close>

fun drain :: "'w wiring \<Rightarrow> bool \<Rightarrow> (nat \<Rightarrow> bool) \<Rightarrow> nat \<Rightarrow> nat \<Rightarrow> 'w app \<Rightarrow> ('w app \<times> nat) option" where
  "drain wg rec live 0 n a = None"
| "drain wg rec live (Suc fuel) n a =
     (if \<not> live n then Some (a, n)
      else case settle_once wg rec a of
        (a1, Inl e) \<Rightarrow> Some (a1, n)
      | (a1, Inr False) \<Rightarrow> Some (a1, n)
      | (a1, Inr True) \<Rightarrow> drain wg rec live fuel (n + 1) a1)"

text \<open>
  \<^verbatim>\<open>Run\<close>: a drain on each tick of the timer, with at most \<open>fuel\<close> passes in a drain. The
  list has one element per tick that comes before the context is cancelled and the process ends: what
  each pass of its drain sees of the context.
\<close>

fun sequencer_run :: "'w wiring \<Rightarrow> bool \<Rightarrow> nat \<Rightarrow> (nat \<Rightarrow> bool) list \<Rightarrow> 'w app \<Rightarrow> 'w app option" where
  "sequencer_run wg rec fuel [] a = Some a"
| "sequencer_run wg rec fuel (live # ticks) a = (case drain wg rec live fuel 0 a of
     None \<Rightarrow> None | Some (a1, n) \<Rightarrow> sequencer_run wg rec fuel ticks a1)"

end
