(* ===== verification/Sequencer_Laws.thy ===== *)
theory Sequencer_Laws
  imports Sequencer Settlement_Recovery
begin

text \<open>
  What a pass and a drain of the sequencer do to the settlement loop: the log falls into batches, each
  ending at its first withdrawal; a pass over a clean history settles the first one, an idle pass
  changes nothing, and a drain settles all of them.
\<close>

subsection \<open>The batches a log falls into\<close>

fun segments :: "logged list \<Rightarrow> logged list list" where
  "segments [] = []"
| "segments (LogWithdraw w # ms) = [LogWithdraw w] # segments ms"
| "segments (LogDeposit d # ms) = (case segments ms of [] \<Rightarrow> [[LogDeposit d]]
     | seg # segs \<Rightarrow> (LogDeposit d # seg) # segs)"

lemma segments_Nil_iff [simp]: "segments ms = [] \<longleftrightarrow> ms = []"
  by (induction ms rule: segments.induct) (auto split: list.split)

lemma segments_unfold: "ms \<noteq> [] \<Longrightarrow> segments ms = flight_prefix ms # segments (flight_rest ms)"
proof (induction ms rule: segments.induct)
  case (3 d ms)
  have rest: "flight_rest (LogDeposit d # ms) = flight_rest ms" by (simp add: flight_rest_def)
  show ?case
  proof (cases "ms = []")
    case True
    then show ?thesis by (simp add: flight_rest_def)
  next
    case False
    with "3.IH" rest show ?thesis by simp
  qed
qed (simp_all add: flight_rest_def)

lemma concat_segments: "concat (segments ms) = ms"
  by (induction ms rule: segments.induct) (auto split: list.split)

definition drainable :: "logged list \<Rightarrow> bool" where
  "drainable ms \<longleftrightarrow> (\<forall>seg \<in> set (segments ms). \<exists>den. buildable den Map.empty seg)"

lemma drainable_step: "drainable ms \<Longrightarrow> ms \<noteq> [] \<Longrightarrow> (\<exists>den. buildable den Map.empty (flight_prefix ms)) \<and> drainable (flight_rest ms)"
  by (simp add: drainable_def segments_unfold)

lemma roots_distinct_rest:
  assumes "roots_distinct s0 ms" and "log_run s0 (flight_prefix ms) s1" and "ms \<noteq> []"
  shows "roots_distinct s1 (flight_rest ms)"
proof -
  let ?pre = "flight_prefix ms"
  have pne: "?pre \<noteq> []" by (rule flight_prefix_not_Nil [OF assms(3)])
  have split: "log_transitions ms = log_transitions ?pre @ log_transitions (flight_rest ms)"
    by (metis flight_split log_transitions_def map_append)
  have tne: "log_transitions ?pre \<noteq> []" using pne by (simp add: log_transitions_def)
  have "ls_root s1 = pt_root_after (last (log_transitions ?pre))"
    using log_run_chain [OF assms(2)] pne by simp
  then have "ls_root s1 \<in> pt_root_after ` set (log_transitions ?pre)" using last_in_set [OF tne] by blast
  with assms(1) show ?thesis unfolding roots_distinct_def split by (auto simp: disjoint_iff)
qed

subsection \<open>An idle pass\<close>

lemma loop_idle:
  assumes inv: "loop_inv s s0 None []"
  shows "\<exists>s' db c. build_pending_batch accs s = (s', Inl ErrNoPendingSettlementOperations) \<and> loop_inv s' s0 None []
    \<and> sv_manager s' = sv_manager s \<and> sv_repo s' = Some db \<and> db_cursors db (sv_cursor_name s') = Some c
    \<and> cu_committed_root c = ls_root s0"
proof -
  obtain sv c db where cur: "get_or_init_cursor s = (sv, Inr c)"
    and sv: "loop_inv sv s0 None []" "sv_manager sv = sv_manager s" "sv_repo sv = Some db"
      "db_cursors db (sv_cursor_name sv) = Some c" "cu_committed_root c = ls_root s0"
    using get_or_init_cursor_inv [OF inv refl] unfolding get_or_init_cursor_def manager_root_def by metis
  from sv(1,3) have store: "store_inv (mg_ls (sv_manager sv)) db None []" by (auto simp: loop_inv_def)
  then have q: "db_quiet db" by (simp add: store_inv_def)
  have none: "fst (pending_lists db) = []" "snd (pending_lists db) = []" using pending_lists_mset [OF store] by simp_all
  obtain lists where l: "pending_lists db = lists" by blast
  from inv have "sv_repo s \<noteq> None" by (auto simp: loop_inv_def)
  with cur list_pending_quiet [OF sv(3) q] none
  have "build_pending_batch accs s = (sv, Inl ErrNoPendingSettlementOperations)"
    by (cases "pending_lists db") (simp add: build_pending_batch_def sv_bind_def)
  with sv show ?thesis by blast
qed

lemma build_pending_witness:
  "build_pending_batch accs s = (s', Inr out) \<Longrightarrow> wit_accounts (bo_witness out) \<noteq> []"
  by (auto simp: build_pending_batch_def sv_bind_def Let_def build_witness_eq split: if_splits prod.splits sum.splits)

subsection \<open>The stages\<close>

definition in_process :: "'w wiring \<Rightarrow> bool" where
  "in_process wg \<longleftrightarrow> wg_build_source wg = source_pending \<and> wg_has_offchain wg
     \<and> bp_build_store (wg_batch_repo wg) \<noteq> store_postgres \<and> bp_submit_store (wg_batch_repo wg) \<noteq> store_postgres
     \<and> wg_proof_store wg \<noteq> store_postgres"

definition local_loop :: "'w wiring \<Rightarrow> bool" where
  "local_loop wg \<longleftrightarrow> in_process wg \<and> wg_verifier wg = None \<and> wg_prover wg = local_prover \<and> wg_relayer wg = local_relayer"

definition app_with :: "'w app \<Rightarrow> service \<Rightarrow> 'w app \<Rightarrow> bool" where
  "app_with a s a' \<longleftrightarrow> ap_service a' = s \<and> ap_baseline a' = ap_baseline a \<and> ap_env a' = ap_env a"

lemma build_stage_ok:
  assumes "in_process wg" and "build_pending_batch [] (ap_service a) = (s', Inr out)"
  shows "\<exists>a'. build_batch wg req a = (a', Inr \<lparr>bbr_update = bo_update out, bbr_commitments = bo_commitments out,
      bbr_witness = bo_witness out, bbr_state = built_state\<rparr>) \<and> app_with a s' a'"
  using assms by (simp add: build_batch_def service_build_pending_def in_process_def ap_bind_def on_service_def
      save_build_def on_backend_def save_batch_build_def Let_def app_with_def)

lemma build_stage_error:
  assumes "in_process wg" and "build_pending_batch [] (ap_service a) = (s', Inl e)"
  shows "build_batch wg req a = (a\<lparr>ap_service := s'\<rparr>, Inl e)"
  using assms by (simp add: build_batch_def service_build_pending_def in_process_def ap_bind_def on_service_def)

lemma local_prove_stage:
  assumes "in_process wg" and "wg_prover wg = local_prover" and "local_generate_proof u c wit = Inr p"
  shows "\<exists>a'. generate_proof wg u c wit a = (a', Inr p) \<and> app_with a (ap_service a) a'"
  using assms by (simp add: generate_proof_def in_process_def ap_bind_def on_env_def local_prover_def check_artifact_def
      on_backend_def save_proof_bundle_def Let_def app_with_def)

lemma inputs_match_refl [simp]: "inputs_match xs xs"
  by (induction xs) simp_all

text \<open>What the local prover proves, the local relayer accepts.\<close>

lemma local_chain:
  assumes "local_generate_proof u c wit = Inr p" and "su_batch_id u \<noteq> []"
  shows "\<exists>tx. local_submit_batch \<lparr>sb_update = u, sb_commitments = c, sb_proof = p\<rparr> = Inr (accepted_result tx u)"
  using local_generate_proof_Inr [OF assms(1)] assms(2)
  by (auto simp: local_submit_batch_def validate_public_inputs_def Let_def settlement_inputs_list_def)

lemma local_submit_stage:
  assumes "local_loop wg" and "local_submit_batch req = Inr (accepted_result tx (sb_update req))"
    and "commit_batch (su_batch_id (sb_update req)) tx (su_new_root (sb_update req)) (ap_service a) = (s', Inr ())"
  shows "\<exists>a'. submit_batch wg req a = (a', Inr (submit_response req (accepted_result tx (sb_update req))))
    \<and> ap_service a' = s' \<and> ap_env a' = ap_env a"
  using assms by (simp add: local_loop_def in_process_def submit_batch_def check_proof_def ap_bind_def relay_batch_def
      local_relayer_def on_backend_def save_batch_submit_result_def Let_def settle_log_def on_service_def
      accepted_result_def commit_state_baseline_def)

lemma local_generate_total:
  assumes "su_old_root u \<noteq> []" "su_new_root u \<noteq> []" "wit_accounts w \<noteq> []" and "c = build_commitments u"
  obtains p where "local_generate_proof u c w = Inr p"
  using local_prover_accepts [OF assms(1-3)] assms(4) by blast

text \<open>
  The stages of a pass over a clean history: the first batch is built, proved and accepted, and what
  each of them returns.
\<close>

definition batch_of_output :: "build_output \<Rightarrow> build_batch_response" where
  "batch_of_output out = \<lparr>bbr_update = bo_update out, bbr_commitments = bo_commitments out,
     bbr_witness = bo_witness out, bbr_state = built_state\<rparr>"

definition pass_stages :: "'w wiring \<Rightarrow> 'w app \<Rightarrow> build_output \<Rightarrow> proof_bundle \<Rightarrow> string \<Rightarrow> 'w app \<Rightarrow> 'w app \<Rightarrow> 'w app \<Rightarrow> bool" where
  "pass_stages wg a out p tx a1 a2 a3 \<longleftrightarrow>
     build_batch wg \<lparr>bb_deposit_ids = [], bb_withdraw_ids = []\<rparr> a = (a1, Inr (batch_of_output out))
     \<and> local_generate_proof (bo_update out) (bo_commitments out) (bo_witness out) = Inr p
     \<and> generate_proof wg (bo_update out) (bo_commitments out) (bo_witness out) a1 = (a2, Inr p)
     \<and> (let req = \<lparr>sb_update = bo_update out, sb_commitments = bo_commitments out, sb_proof = p\<rparr> in
          submit_batch wg req a2 = (a3, Inr (submit_response req (accepted_result tx (bo_update out)))))"

text \<open>What the built batch holds: the operations of the prefix, and the accounts of their owners.\<close>

definition output_of_log :: "local_state \<Rightarrow> logged list \<Rightarrow> local_state \<Rightarrow> build_output \<Rightarrow> bool" where
  "output_of_log s0 pre s1 out \<longleftrightarrow> (\<exists>seq dms wms ps.
     mset dms = mset (log_deposits pre) \<and> mset wms = mset (log_withdrawals pre)
     \<and> bo_update out = batch_update seq (ls_root s0) (ls_root s1) (map record_of_move dms) (map input_of_move wms)
     \<and> bo_commitments out = build_commitments (bo_update out)
     \<and> bo_witness out = \<lparr>wit_accounts = map (party_witness Map.empty s0 (map input_of_move wms) s1) ps, wit_state_path = []\<rparr>
     \<and> fst ` set ps = pt_owner ` set (log_transitions pre))"

lemma settle_stages:
  fixes a :: "'w app"
  assumes wg: "local_loop wg" and inv: "loop_inv (ap_service a) s0 None ms" and ne: "ms \<noteq> []"
    and rd: "roots_distinct s0 ms" and ok: "buildable den Map.empty (flight_prefix ms)"
  shows "\<exists>out p tx a1 a2 a3 s1. pass_stages wg a out p tx a1 a2 a3 \<and> output_of_log s0 (flight_prefix ms) s1 out
    \<and> wit_accounts (bo_witness out) \<noteq> [] \<and> log_run s0 (flight_prefix ms) s1
    \<and> loop_inv (ap_service a3) s1 None (flight_rest ms)
    \<and> sv_manager (ap_service a3) = sv_manager (ap_service a)"
proof -
  have sec: "index_account_secrets [] = Inr Map.empty" by (simp add: index_account_secrets_def)
  from wg have ip: "in_process wg" by (simp add: local_loop_def)
  obtain s' out s1 dms wms ps where
    wit: "bo_witness out = \<lparr>wit_accounts = map (party_witness Map.empty s0 (map input_of_move wms) s1) ps, wit_state_path = []\<rparr>"
      "fst ` set ps = pt_owner ` set (log_transitions (flight_prefix ms))"
    and perm: "mset dms = mset (log_deposits (flight_prefix ms))" "mset wms = mset (log_withdrawals (flight_prefix ms))"
    and b: "build_pending_batch [] (ap_service a) = (s', Inr out)" and run: "log_run s0 (flight_prefix ms) s1"
    and upd: "bo_update out = batch_update (sv_seq (ap_service a) + 1) (ls_root s0) (ls_root s1)
        (map record_of_move dms) (map input_of_move wms)"
    and com: "bo_commitments out = build_commitments (bo_update out)" and mg: "sv_manager s' = sv_manager (ap_service a)"
    and inv': "loop_inv s' s0 (Some (su_batch_id (bo_update out), flight_prefix ms)) (flight_rest ms)"
  proof -
    from loop_build_full [OF inv ne rd ok sec] show thesis by (elim exE conjE) (rule that)
  qed
  let ?u = "bo_update out"
  from inv have s0: "wf_local s0" "hex_value (ls_root s0)" by (simp_all add: loop_inv_def)
  have "root_current s1" using log_run_wf [OF run s0(1)] flight_prefix_not_Nil [OF ne] by blast
  then have r1: "ls_root s1 \<noteq> []" using root_current_hex hex_value_not_Nil by blast
  from s0 have r0: "ls_root s0 \<noteq> []" using hex_value_not_Nil by blast
  have u: "su_old_root ?u \<noteq> []" "su_new_root ?u = ls_root s1" "su_batch_id ?u \<noteq> []"
    unfolding upd batch_update_def using r0 by simp_all
  obtain p where p: "local_generate_proof ?u (bo_commitments out) (bo_witness out) = Inr p"
    by (rule local_generate_total [OF u(1) _ build_pending_witness [OF b] com]) (use u r1 in simp)
  from build_stage_ok [OF ip b] obtain a1 where
    a1: "build_batch wg \<lparr>bb_deposit_ids = [], bb_withdraw_ids = []\<rparr> a = (a1, Inr \<lparr>bbr_update = ?u,
        bbr_commitments = bo_commitments out, bbr_witness = bo_witness out, bbr_state = built_state\<rparr>)" "app_with a s' a1"
    by blast
  from wg have lp: "wg_prover wg = local_prover" by (simp add: local_loop_def)
  from local_prove_stage [OF ip lp p] obtain a2 where
    a2: "generate_proof wg ?u (bo_commitments out) (bo_witness out) a1 = (a2, Inr p)" "app_with a1 (ap_service a1) a2" by blast
  from a1 a2 have sv2: "ap_service a2 = s'" by (simp add: app_with_def)
  let ?req = "\<lparr>sb_update = ?u, sb_commitments = bo_commitments out, sb_proof = p\<rparr>"
  from local_chain [OF p u(3)] obtain tx where tx: "local_submit_batch ?req = Inr (accepted_result tx ?u)" by blast
  from loop_commit [OF inv' run] obtain s'' where
    c: "commit_batch (su_batch_id ?u) tx (ls_root s1) s' = (s'', Inr ())" "loop_inv s'' s1 None (flight_rest ms)"
       "sv_manager s'' = sv_manager s'" by blast
  from local_submit_stage [OF wg, of ?req tx a2 s''] tx c(1) u(2) sv2 obtain a3 where
    a3: "submit_batch wg ?req a2 = (a3, Inr (submit_response ?req (accepted_result tx ?u)))" "ap_service a3 = s''"
    by auto
  have "pass_stages wg a out p tx a1 a2 a3"
    using a1(1) p a2(1) a3(1) by (simp add: pass_stages_def batch_of_output_def Let_def)
  moreover have "output_of_log s0 (flight_prefix ms) s1 out"
    unfolding output_of_log_def by (intro exI conjI) (fact perm(1) perm(2) upd com wit)+
  moreover have "sv_manager (ap_service a3) = sv_manager (ap_service a)" using a3(2) c(3) mg by simp
  moreover have "loop_inv (ap_service a3) s1 None (flight_rest ms)" using c(2) a3(2) by simp
  moreover note build_pending_witness [OF b] run
  ultimately show ?thesis by (intro exI conjI)
qed

lemma stages_settle: "pass_stages wg a out p tx a1 a2 a3 \<Longrightarrow> settle_once wg rec a = (a3, Inr True)"
  by (simp add: pass_stages_def settle_once_def Let_def batch_of_output_def submit_response_def accepted_result_def)

text \<open>A pass over a clean history settles its first batch.\<close>

lemma settle_pass:
  fixes a :: "'w app"
  assumes "local_loop wg" and "loop_inv (ap_service a) s0 None ms" and "ms \<noteq> []"
    and "roots_distinct s0 ms" and "buildable den Map.empty (flight_prefix ms)"
  shows "\<exists>a' s1. settle_once wg rec a = (a', Inr True) \<and> log_run s0 (flight_prefix ms) s1
    \<and> loop_inv (ap_service a') s1 None (flight_rest ms)
    \<and> sv_manager (ap_service a') = sv_manager (ap_service a)"
  using settle_stages [OF assms] stages_settle [of wg a] by blast

lemma idle_pass:
  assumes "in_process wg" and "loop_inv (ap_service a) s0 None []"
  shows "\<exists>a' db c. settle_once wg rec a = (a', Inr False) \<and> loop_inv (ap_service a') s0 None []
    \<and> sv_manager (ap_service a') = sv_manager (ap_service a) \<and> sv_repo (ap_service a') = Some db
    \<and> db_cursors db (sv_cursor_name (ap_service a')) = Some c \<and> cu_committed_root c = ls_root s0"
proof -
  from loop_idle [OF assms(2)] obtain s' db c where
    s': "build_pending_batch [] (ap_service a) = (s', Inl ErrNoPendingSettlementOperations)" "loop_inv s' s0 None []"
    "sv_manager s' = sv_manager (ap_service a)" "sv_repo s' = Some db" "db_cursors db (sv_cursor_name s') = Some c"
    "cu_committed_root c = ls_root s0" by blast
  with build_stage_error [OF assms(1) s'(1)] show ?thesis by (simp add: settle_once_def)
qed

lemma drain_settles:
  assumes wg: "local_loop wg"
  shows "loop_inv (ap_service a) s0 None ms \<Longrightarrow> roots_distinct s0 ms \<Longrightarrow> drainable ms \<Longrightarrow>
    length (segments ms) < fuel \<Longrightarrow>
    \<exists>a' db c. drain wg rec (\<lambda>_. True) fuel n a = Some (a', n + length (segments ms))
      \<and> loop_inv (ap_service a') (mg_ls (sv_manager (ap_service a))) None []
      \<and> sv_manager (ap_service a') = sv_manager (ap_service a) \<and> sv_repo (ap_service a') = Some db
      \<and> db_cursors db (sv_cursor_name (ap_service a')) = Some c
      \<and> cu_committed_root c = manager_root (sv_manager (ap_service a))"
proof (induction "length (segments ms)" arbitrary: ms s0 a fuel n)
  case 0
  then have ms: "ms = []" by simp
  from wg have ip: "in_process wg" by (simp add: local_loop_def)
  from 0 obtain f where f: "fuel = Suc f" by (cases fuel) auto
  from "0.prems"(1) ms have s0: "mg_ls (sv_manager (ap_service a)) = s0" using loop_inv_run by (fastforce elim: log_run.cases)
  from idle_pass [OF ip, of a s0 rec] "0.prems"(1) ms f s0 show ?case by (fastforce simp: manager_root_def)
next
  case (Suc k)
  then have ne: "ms \<noteq> []" by auto
  from Suc.prems(4) obtain f where f: "fuel = Suc f" by (cases fuel) auto
  from drainable_step [OF Suc.prems(3) ne] obtain den where
    den: "buildable den Map.empty (flight_prefix ms)" and dr: "drainable (flight_rest ms)" by blast
  from settle_pass [OF wg Suc.prems(1) ne Suc.prems(2) den, of rec] obtain a1 s1 where
    a1: "settle_once wg rec a = (a1, Inr True)" "log_run s0 (flight_prefix ms) s1"
      "loop_inv (ap_service a1) s1 None (flight_rest ms)" "sv_manager (ap_service a1) = sv_manager (ap_service a)" by blast
  have seg: "length (segments ms) = Suc (length (segments (flight_rest ms)))" using segments_unfold [OF ne] by simp
  with Suc.hyps(2) have k: "k = length (segments (flight_rest ms))" by simp
  have fu: "length (segments (flight_rest ms)) < f" using Suc.prems(4) f seg by simp
  from Suc.hyps(1) [OF k a1(3) roots_distinct_rest [OF Suc.prems(2) a1(2) ne] dr fu, of "n + 1"] a1 seg f
  show ?case by auto
qed

subsection \<open>A pass that fails\<close>

lemma on_env_service: "on_env m a = (a', r) \<Longrightarrow> ap_service a' = ap_service a"
  using on_env_frame by blast

lemma on_backend_service: "on_backend m a = (a', r) \<Longrightarrow> ap_service a' = ap_service a"
  using on_backend_frame by blast

lemma check_artifact_service: "check_artifact wg p a = (a', r) \<Longrightarrow> ap_service a' = ap_service a"
  by (auto simp: check_artifact_def split: option.splits dest!: ap_bind_split dest: on_env_service)

lemma generate_proof_service: "generate_proof wg u c wit a = (a', r) \<Longrightarrow> ap_service a' = ap_service a"
  unfolding generate_proof_def
  by (auto dest!: ap_bind_split on_env_service on_backend_service check_artifact_service)

lemma no_rollback [simp]: "\<not> wg_rollback wg \<Longrightarrow> rollback_state_to_baseline wg a = a"
  "\<not> wg_rollback wg \<Longrightarrow> commit_state_baseline wg a = a"
  by (simp_all add: rollback_state_to_baseline_def commit_state_baseline_def)

lemma save_result_memory:
  "bp_submit_store bp \<noteq> store_postgres \<Longrightarrow>
     \<exists>b'. save_batch_submit_result bp u c tx acc st recs b = (b', Inr ())"
  by (simp add: save_batch_submit_result_def Let_def)

lemma submit_error_service:
  assumes ip: "in_process wg" and nr: "\<not> wg_rollback wg"
    and law: "relayer_client (rl_submit (wg_relayer wg)) (rl_claim (wg_relayer wg))"
    and commits: "\<And>tx. \<exists>s'. commit_batch (su_batch_id (sb_update req)) tx (su_new_root (sb_update req)) (ap_service a) = (s', Inr ())"
    and run: "submit_batch wg req a = (a', r)"
  shows "(\<exists>e. r = Inl e \<and> ap_service a' = ap_service a) \<or> (\<exists>res. r = Inr res \<and> sbr_accepted res)"
proof -
  obtain a1 r1 where c: "check_proof wg req a = (a1, r1)" by (metis prod.exhaust)
  have s1: "ap_service a1 = ap_service a"
    using c nr by (auto simp: check_proof_def split: option.splits prod.splits)
  show ?thesis
  proof (cases r1)
    case (Inl e)
    with run c s1 show ?thesis by (auto simp: submit_batch_def ap_bind_def)
  next
    case (Inr x)
    obtain w res err where rl: "rl_submit (wg_relayer wg) req (ap_env a1) = (w, res, err)" by (metis prod_cases3)
    show ?thesis
    proof (cases err)
      case (Some e)
      with run c Inr rl nr s1 show ?thesis by (auto simp: submit_batch_def ap_bind_def relay_batch_def)
    next
      case None
      with rl have acc: "sres_accepted res" using relayer_client.submit_records(1) [OF law] by blast
      from ip have mem: "bp_submit_store (wg_batch_repo wg) \<noteq> store_postgres"
        and pend: "wg_build_source wg = source_pending" "wg_has_offchain wg" by (simp_all add: in_process_def)
      obtain b where sv: "save_batch_submit_result (wg_batch_repo wg) (sb_update req) (sb_commitments req) (sres_tx_hash res)
          True (sres_proof_status res) (sres_withdraw_records res) (ap_backend a1) = (b, Inr ())"
        using save_result_memory [OF mem] by blast
      obtain s' where "commit_batch (su_batch_id (sb_update req)) (sres_tx_hash res) (su_new_root (sb_update req)) (ap_service a)
          = (s', Inr ())" using commits by blast
      with run c Inr rl None acc nr s1 sv pend show ?thesis
        by (auto simp: submit_batch_def ap_bind_def relay_batch_def on_backend_def settle_log_def on_service_def submit_response_def)
    qed
  qed
qed

lemma reopen_service:
  assumes "cancel_included_batch b reason (ap_service a) = (s', r)"
  shows "ap_service (reopen True b reason a) = s'"
  using assms by (simp add: reopen_def on_service_def)

lemma failed_pass:
  assumes ip: "in_process wg" and nr: "\<not> wg_rollback wg"
    and law: "relayer_client (rl_submit (wg_relayer wg)) (rl_claim (wg_relayer wg))"
    and inv: "loop_inv (ap_service a) s0 None ms" and ne: "ms \<noteq> []"
    and rd: "roots_distinct s0 ms" and ok: "buildable den Map.empty (flight_prefix ms)"
    and run: "settle_once wg True a = (a', Inl e)" and np: "\<not> is_panic e"
  shows "loop_inv (ap_service a') s0 None ms \<and> sv_manager (ap_service a') = sv_manager (ap_service a)"
proof -
  have sec: "index_account_secrets [] = Inr Map.empty" by (simp add: index_account_secrets_def)
  from loop_build [OF inv ne rd ok sec] obtain s' out s1 dms wms where
    b: "build_pending_batch [] (ap_service a) = (s', Inr out)" and lrun: "log_run s0 (flight_prefix ms) s1"
    and upd: "bo_update out = batch_update (sv_seq (ap_service a) + 1) (ls_root s0) (ls_root s1)
        (map record_of_move dms) (map input_of_move wms)"
    and mg: "sv_manager s' = sv_manager (ap_service a)"
    and inv': "loop_inv s' s0 (Some (su_batch_id (bo_update out), flight_prefix ms)) (flight_rest ms)" by blast
  let ?u = "bo_update out"
  have nroot: "su_new_root ?u = ls_root s1" by (simp add: upd batch_update_def)
  from build_stage_ok [OF ip b] obtain a1 where
    a1: "build_batch wg \<lparr>bb_deposit_ids = [], bb_withdraw_ids = []\<rparr> a = (a1, Inr \<lparr>bbr_update = ?u,
        bbr_commitments = bo_commitments out, bbr_witness = bo_witness out, bbr_state = built_state\<rparr>)" "ap_service a1 = s'"
    by (auto simp: app_with_def)
  obtain a2 pr where g: "generate_proof wg ?u (bo_commitments out) (bo_witness out) a1 = (a2, pr)" by (metis prod.exhaust)
  have s2: "ap_service a2 = s'" using generate_proof_service [OF g] a1 by simp
  have cancelled: "loop_inv (ap_service (reopen True (su_batch_id ?u) reason x)) s0 None ms
      \<and> sv_manager (ap_service (reopen True (su_batch_id ?u) reason x)) = sv_manager (ap_service a)"
    if "ap_service x = s'" for reason x
  proof -
    from loop_cancel [OF inv', of reason] obtain s'' where
      c: "cancel_included_batch (su_batch_id ?u) reason s' = (s'', Inr ())" "loop_inv s'' s0 None ms" "sv_manager s'' = sv_manager s'"
      by (auto simp: flight_split)
    with reopen_service [of "su_batch_id ?u" reason x s'' "Inr ()"] that mg show ?thesis by simp
  qed
  show ?thesis
  proof (cases pr)
    case (Inl pe)
    with run a1 g np have "a' = reopen True (su_batch_id ?u) ''prove failed'' a2"
      by (auto simp: settle_once_def Let_def reopen_unless_panic_def)
    with cancelled [OF s2] show ?thesis by simp
  next
    case (Inr p)
    let ?req = "\<lparr>sb_update = ?u, sb_commitments = bo_commitments out, sb_proof = p\<rparr>"
    obtain a3 sr where sb: "submit_batch wg ?req a2 = (a3, sr)" by (metis prod.exhaust)
    have commits: "\<exists>s''. commit_batch (su_batch_id (sb_update ?req)) tx (su_new_root (sb_update ?req)) (ap_service a2) = (s'', Inr ())" for tx
      using loop_commit [OF inv' lrun, of tx] s2 nroot by auto
    from submit_error_service [OF ip nr law commits sb] show ?thesis
    proof
      assume "\<exists>e. sr = Inl e \<and> ap_service a3 = ap_service a2"
      then obtain se where se: "sr = Inl se" "ap_service a3 = s'" using s2 by auto
      with run a1 g Inr sb np have "a' = reopen True (su_batch_id ?u) ''submit failed'' a3"
        by (auto simp: settle_once_def Let_def reopen_unless_panic_def)
      with cancelled [OF se(2)] show ?thesis by simp
    next
      assume "\<exists>res. sr = Inr res \<and> sbr_accepted res"
      with run a1 g Inr sb have False by (auto simp: settle_once_def Let_def)
      then show ?thesis ..
    qed
  qed
qed

end
