(* ===== verification/User_Services.thy ===== *)
theory User_Services
  imports App_System
begin

text \<open>
  \<^verbatim>\<open>withdraw_service.go\<close>, \<^verbatim>\<open>deposit_service.go\<close> and \<^verbatim>\<open>state_service.go\<close> of
  \<^verbatim>\<open>internal/service\<close>, with the deposit indexer and poller of \<^verbatim>\<open>internal/indexer\<close>
  and the local chain client of \<^verbatim>\<open>internal/chain\<close> they rest on. The time a row is created at
  is the argument \<open>now\<close>.
\<close>

subsection \<open>Withdrawals\<close>

definition withdraw_default_user_secret :: string where
  "withdraw_default_user_secret = ''mock-user-secret''"

definition create_withdraw_service :: "'w wiring \<Rightarrow> nat \<Rightarrow> withdraw_request_body \<Rightarrow> ('w, withdraw_request) app_op" where
  "create_withdraw_service wg now body a =
     (if wg_enabled wg then
        if \<not> wg_has_offchain wg then (a, Inl ErrOffchainSettlementUnavailable)
        else ap_bind (on_backend (next_withdraw_id (wg_withdraw_repo wg))) (\<lambda>i a1.
          case service_build_withdraw_request (ap_service a1) body i of Inl e \<Rightarrow> (a1, Inl e)
          | Inr req \<Rightarrow> ap_bind (on_service (service_apply_withdraw_request now req withdraw_default_user_secret))
              (\<lambda>_. on_backend (save_withdraw_request (wg_withdraw_repo wg) req)) a1) a
      else on_backend (create_withdraw_request (wg_withdraw_repo wg) body) a)"

record claim_response =
  clr_tx_hash :: string
  clr_record :: withdraw_record
  clr_balances :: balance_snapshot

definition claim_withdraw_service :: "'w wiring \<Rightarrow> string \<Rightarrow> ('w, claim_response) app_op" where
  "claim_withdraw_service wg i =
     ap_bind (on_backend (get_withdraw_record (wg_withdraw_repo wg) i)) (\<lambda>rec.
     ap_bind (on_env (rl_claim (wg_relayer wg) rec)) (\<lambda>res.
     ap_bind (on_backend (claim_withdraw_record (wg_withdraw_repo wg) (wrec_id (cres_withdraw_record res)))) (\<lambda>claimed a.
       (a, Inr \<lparr>clr_tx_hash = cres_tx_hash res, clr_record = claimed,
                clr_balances = get_local_claim_balance_snapshot (ap_backend a)\<rparr>))))"

definition list_withdraw_service :: "'w wiring \<Rightarrow> ('w, withdraw_request list) app_op" where
  "list_withdraw_service wg = on_backend (list_withdraw_requests (wg_withdraw_repo wg))"

definition get_withdraw_service :: "'w wiring \<Rightarrow> string \<Rightarrow> ('w, withdraw_request) app_op" where
  "get_withdraw_service wg i = on_backend (get_withdraw_request (wg_withdraw_repo wg) i)"

definition is_withdraw_insufficient_balance_error :: "go_error \<Rightarrow> bool" where
  "is_withdraw_insufficient_balance_error e \<longleftrightarrow> e = ErrInsufficientBalance"

subsection \<open>Indexing a deposit\<close>

definition type_deposit :: string where "type_deposit = ''ob.zkdex.v1.EventDeposit''"

text \<open>The first key that is present decides, also when its value is empty.\<close>

fun attr :: "(string \<rightharpoonup> string) \<Rightarrow> string list \<Rightarrow> string" where
  "attr attrs [] = []"
| "attr attrs (k # ks) = (case attrs k of Some v \<Rightarrow> v | None \<Rightarrow> attr attrs ks)"

definition deposit_record_from_event :: "tx_result \<Rightarrow> chain_event \<Rightarrow> deposit_record res" where
  "deposit_record_from_event tx ev =
     (let i = attr (ev_attrs ev) [''depositId'', ''deposit_id''];
          creator = attr (ev_attrs ev) [''creator'', ''owner''];
          denom = attr (ev_attrs ev) [''denom''];
          amount = attr (ev_attrs ev) [''amount''] in
      if i = [] then Inl (ErrText ''deposit event missing depositId'')
      else if creator = [] then Inl (ErrText ''deposit event missing creator'')
      else if denom = [] then Inl (ErrText ''deposit event missing denom'')
      else if amount = [] then Inl (ErrText ''deposit event missing amount'')
      else Inr \<lparr>dep_id = i, dep_owner = creator, dep_denom = denom, dep_amount = amount,
                dep_processed = False, dep_created_height = txr_height tx, dep_tx_hash = txr_hash tx\<rparr>)"

text \<open>
  The applier is configured exactly when the offchain settlement is enabled; \<^verbatim>\<open>main\<close> then
  passes the service, and a nil service is a nil receiver.
\<close>

definition apply_indexed :: "'w wiring \<Rightarrow> nat \<Rightarrow> deposit_record \<Rightarrow> ('w, unit) app_op" where
  "apply_indexed wg now r a =
     (if \<not> wg_enabled wg then (a, Inr ())
      else if \<not> wg_has_offchain wg then (a, Inl (ErrPanic ''nil pointer dereference''))
      else ap_bind (on_service (service_apply_indexed_deposit now r)) (\<lambda>_ a'. (a', Inr ())) a)"

definition index_deposit_from_tx :: "'w wiring \<Rightarrow> nat \<Rightarrow> tx_result \<Rightarrow> ('w, deposit_record) app_op" where
  "index_deposit_from_tx wg now tx a =
     (case find (\<lambda>ev. ev_type ev = type_deposit) (txr_events tx) of
        None \<Rightarrow> (a, Inl (ErrText ''deposit event not found''))
      | Some ev \<Rightarrow> (case deposit_record_from_event tx ev of Inl e \<Rightarrow> (a, Inl e)
        | Inr r \<Rightarrow> ap_bind (apply_indexed wg now r) (\<lambda>_ a'. (a', Inr r))
            (a\<lparr>ap_backend := save_deposit r (ap_backend a)\<rparr>)))"

subsection \<open>The poller\<close>

text \<open>
  \<^verbatim>\<open>PollOnce\<close> on what the source answered: the transactions and the next height. A failed
  transaction is logged and skipped; a panic unwinds. The height is an \<^verbatim>\<open>int64\<close>.
\<close>

fun poll_txs :: "'w wiring \<Rightarrow> nat \<Rightarrow> tx_result list \<Rightarrow> nat \<Rightarrow> ('w, nat) app_op" where
  "poll_txs wg now [] n a = (a, Inr n)"
| "poll_txs wg now (tx # txs) n a =
     (case index_deposit_from_tx wg now tx a of
        (a1, Inl (ErrPanic p)) \<Rightarrow> (a1, Inl (ErrPanic p))
      | (a1, Inl _) \<Rightarrow> poll_txs wg (now + 1) txs n a1
      | (a1, Inr _) \<Rightarrow> poll_txs wg (now + 1) txs (n + 1) a1)"

definition poll_once ::
    "'w wiring \<Rightarrow> nat \<Rightarrow> (tx_result list \<times> int) res \<Rightarrow> int \<Rightarrow> 'w app \<Rightarrow> ('w app \<times> int) \<times> nat res" where
  "poll_once wg now fetched cursor a = (case fetched of
     Inl e \<Rightarrow> ((a, cursor), Inl e)
   | Inr (txs, next_height) \<Rightarrow> (case poll_txs wg now txs 0 a of
       (a1, Inl e) \<Rightarrow> ((a1, cursor), Inl e)
     | (a1, Inr n) \<Rightarrow> ((a1, if next_height > cursor then next_height else cursor), Inr n)))"

definition default_poll_interval :: int where "default_poll_interval = 3 * second"

definition new_deposit_poller :: "int \<Rightarrow> int \<Rightarrow> int \<times> int" where
  "new_deposit_poller start_height interval =
     (start_height, if interval \<le> 0 then default_poll_interval else interval)"

subsection \<open>Deposits\<close>

text \<open>
  The local chain: a counter of deposits (a Go \<^verbatim>\<open>int\<close>) and the clock, which is an argument.
\<close>

definition local_tx_hash :: "string list \<Rightarrow> string" where
  "local_tx_hash parts = local_short_hash parts"

definition local_chain_deposit :: "int \<Rightarrow> deposit_request \<Rightarrow> 64 word \<Rightarrow> 64 word \<times> tx_result res" where
  "local_chain_deposit now req seq =
     (if dq_owner req = [] \<or> dq_denom req = [] \<or> dq_amount req = []
      then (seq, Inl (ErrText ''owner, denom and amount are required''))
      else case parse_int64 (dq_amount req) of
        None \<Rightarrow> (seq, Inl (ErrText ''amount must be a positive integer string''))
      | Some v \<Rightarrow> if v \<le> 0 then (seq, Inl (ErrText ''amount must be a positive integer string''))
        else let i = ''dep-'' @ format_int64 seq in
          (seq + 1, Inr \<lparr>txr_hash = local_tx_hash [''deposit'', dq_owner req, dq_denom req, dq_amount req, i],
             txr_height = now,
             txr_events = [\<lparr>ev_type = type_deposit, ev_attrs = [''depositId'' \<mapsto> i, ''creator'' \<mapsto> dq_owner req,
               ''denom'' \<mapsto> dq_denom req, ''amount'' \<mapsto> dq_amount req]\<rparr>]\<rparr>))"

definition create_deposit :: "'w wiring \<Rightarrow> nat \<Rightarrow> deposit_request \<Rightarrow> ('w, string \<times> deposit_record) app_op" where
  "create_deposit wg now req = ap_bind (on_env (wg_chain wg req)) (\<lambda>tx.
     ap_bind (index_deposit_from_tx wg now tx) (\<lambda>r a. (a, Inr (txr_hash tx, r))))"

definition list_deposits_service :: "'w app \<Rightarrow> deposit_record list" where
  "list_deposits_service a = list_deposits (ap_backend a)"

definition get_deposit_service :: "'w wiring \<Rightarrow> string \<Rightarrow> 'w app \<Rightarrow> deposit_record res" where
  "get_deposit_service wg i a = get_deposit (wg_deposit_repo wg) i (ap_backend a)"

subsection \<open>The dashboard\<close>

definition get_state_service :: "state_query option \<Rightarrow> string \<Rightarrow> 'w app \<Rightarrow> app_state" where
  "get_state_service client mode a = repo_get_state client mode (ap_backend a)"

end
