(* ===== verification/Submit_Laws.thy ===== *)
theory Submit_Laws
  imports Batch_Service User_Services
begin

text \<open>
  What a submit does on every branch: the gate in front of the relayer, the rollback of the mirror, and
  what a second submit of the same batch does to the withdrawals already claimed.
\<close>

subsection \<open>The gate\<close>

lemma inputs_bind_iff: "length xs = length ys \<Longrightarrow> inputs_bind xs ys \<longleftrightarrow> xs = ys"
  by (induction xs ys rule: inputs_bind.induct) auto

lemma guard_None:
  "guard_proof_contract vk req = None \<longleftrightarrow> (vk \<noteq> [] \<longrightarrow> trim_space (pb_vk_id (sb_proof req)) = vk)
     \<and> build_public_inputs (sb_update req) (sb_commitments req) = Inr (pb_public_inputs (sb_proof req))"
proof (cases "build_public_inputs (sb_update req) (sb_commitments req)")
  case (Inr inputs)
  then show ?thesis
    using inputs_bind_iff [of "pb_public_inputs (sb_proof req)" inputs]
    by (auto simp: guard_proof_contract_def)
qed (simp add: guard_proof_contract_def)

lemma guard_error: "guard_proof_contract vk req = Some e \<Longrightarrow> e = ErrProofVerificationFailed"
  by (auto simp: guard_proof_contract_def split: if_splits sum.splits)

lemma rollback_frame [simp]:
  "ap_backend (rollback_state_to_baseline wg a) = ap_backend a"
  "ap_env (rollback_state_to_baseline wg a) = ap_env a"
  "ap_baseline (rollback_state_to_baseline wg a) = ap_baseline a"
  "sv_repo (ap_service (rollback_state_to_baseline wg a)) = sv_repo (ap_service a)"
  by (simp_all add: rollback_state_to_baseline_def split: option.split)

lemma commit_frame [simp]:
  "ap_backend (commit_state_baseline wg a) = ap_backend a"
  "ap_env (commit_state_baseline wg a) = ap_env a"
  "ap_service (commit_state_baseline wg a) = ap_service a"
  by (simp_all add: commit_state_baseline_def)

text \<open>Without both checks, the submit ends before the relayer.\<close>

lemma gate_refuses:
  assumes v: "wg_verifier wg = Some verify"
    and "guard_proof_contract (wg_expected_vk wg) req \<noteq> None \<or> snd (verify req (ap_env a)) \<noteq> None"
  shows "\<exists>a'. submit_batch wg req a = (a', Inl ErrProofVerificationFailed) \<and> ap_backend a' = ap_backend a
    \<and> sv_repo (ap_service a') = sv_repo (ap_service a)
    \<and> (\<not> wg_rollback wg \<longrightarrow> ap_service a' = ap_service a)
    \<and> (ap_env a' = ap_env a \<or> ap_env a' = fst (verify req (ap_env a)))"
proof (cases "guard_proof_contract (wg_expected_vk wg) req")
  case (Some e)
  with v guard_error [OF Some] show ?thesis
    by (simp add: submit_batch_def ap_bind_def check_proof_def) (simp add: rollback_state_to_baseline_def)
next
  case None
  with assms(2) obtain w e where "verify req (ap_env a) = (w, Some e)" by (cases "verify req (ap_env a)") auto
  with None v show ?thesis
    by (simp add: submit_batch_def ap_bind_def check_proof_def) (simp add: rollback_state_to_baseline_def)
qed

subsection \<open>Rollback\<close>

lemma rollback_restores:
  assumes "wg_rollback wg" and "ap_baseline a = Some (manager_snapshot m0)" and "wf_manager m0"
  shows "mg_ls (sv_manager (ap_service (rollback_state_to_baseline wg a))) = mg_ls m0"
  using mgr.restore_snapshot [OF assms(3)] assms(1,2) by (simp add: rollback_state_to_baseline_def)

lemma check_proof_cases:
  "(\<exists>w. check_proof wg req a = (a\<lparr>ap_env := w\<rparr>, Inr ()))
   \<or> (\<exists>w. check_proof wg req a = (rollback_state_to_baseline wg (a\<lparr>ap_env := w\<rparr>), Inl ErrProofVerificationFailed))"
proof (cases "wg_verifier wg")
  case None
  then have "check_proof wg req a = (a\<lparr>ap_env := ap_env a\<rparr>, Inr ())" by (simp add: check_proof_def)
  then show ?thesis by blast
next
  case (Some verify)
  show ?thesis
  proof (cases "guard_proof_contract (wg_expected_vk wg) req")
    case (Some e)
    with \<open>wg_verifier wg = Some verify\<close> guard_error [OF Some]
    have "check_proof wg req a = (rollback_state_to_baseline wg (a\<lparr>ap_env := ap_env a\<rparr>), Inl ErrProofVerificationFailed)"
      by (simp add: check_proof_def)
    then show ?thesis by blast
  next
    case None
    obtain w e where "verify req (ap_env a) = (w, e)" by (cases "verify req (ap_env a)")
    with None Some have "check_proof wg req a = (case e of
        None \<Rightarrow> (a\<lparr>ap_env := w\<rparr>, Inr ())
      | Some _ \<Rightarrow> (rollback_state_to_baseline wg (a\<lparr>ap_env := w\<rparr>), Inl ErrProofVerificationFailed))"
      by (cases e) (simp_all add: check_proof_def)
    then show ?thesis by (cases e) auto
  qed
qed

text \<open>
  Outside the pending mode, with the rollback switched on. A failure at the gate or at the relayer restores
  the baseline before anything is stored. After that only the database can fail, with a panic, and the
  mirror is then as the answer of the relayer left it.
\<close>

lemma submit_rolls_back:
  assumes rb: "wg_rollback wg" and base: "ap_baseline a = Some (manager_snapshot m0)" and wf: "wf_manager m0"
    and src: "wg_build_source wg \<noteq> source_pending" and run: "submit_batch wg req a = (a', r)"
  shows "case ap_bind (check_proof wg req) (\<lambda>_. relay_batch wg req) a of
      (a1, Inl e) \<Rightarrow> a' = a1 \<and> r = Inl e \<and> mg_ls (sv_manager (ap_service a')) = mg_ls m0 \<and> ap_backend a' = ap_backend a
        \<and> sv_repo (ap_service a') = sv_repo (ap_service a) \<and> ap_baseline a' = ap_baseline a
    | (a1, Inr res) \<Rightarrow>
        (if sres_accepted res
         then ap_service a' = ap_service a \<and> ap_baseline a' = Some (manager_snapshot (sv_manager (ap_service a)))
         else mg_ls (sv_manager (ap_service a')) = mg_ls m0 \<and> sv_repo (ap_service a') = sv_repo (ap_service a)
           \<and> ap_baseline a' = ap_baseline a)
        \<and> (case save_batch_submit_result (wg_batch_repo wg) (sb_update req) (sb_commitments req) (sres_tx_hash res)
             (sres_accepted res) (sres_proof_status res) (sres_withdraw_records res) (ap_backend a) of
             (b, Inr _) \<Rightarrow> ap_backend a' = b \<and> r = Inr (submit_response req res)
           | (b, Inl e) \<Rightarrow> ap_backend a' = b \<and> r = Inl e \<and> e = ErrPanic ''save submit batch result in postgres'' \<and> bp_submit_store (wg_batch_repo wg) = store_postgres)"
proof -
  have undone: "mg_ls (sv_manager (ap_service (rollback_state_to_baseline wg (a\<lparr>ap_env := w\<rparr>)))) = mg_ls m0" for w
    by (rule rollback_restores [OF rb _ wf]) (simp add: base)
  consider w where "check_proof wg req a = (rollback_state_to_baseline wg (a\<lparr>ap_env := w\<rparr>), Inl ErrProofVerificationFailed)"
    | w where "check_proof wg req a = (a\<lparr>ap_env := w\<rparr>, Inr ())" using check_proof_cases [of wg req a] by blast
  then show ?thesis
  proof cases
    case 1
    with run have "a' = rollback_state_to_baseline wg (a\<lparr>ap_env := w\<rparr>)" "r = Inl ErrProofVerificationFailed"
      by (simp_all add: submit_batch_def ap_bind_def)
    with 1 undone show ?thesis by (simp add: ap_bind_def)
  next
    case 2
    obtain w2 res err where rl: "rl_submit (wg_relayer wg) req w = (w2, res, err)" by (metis prod_cases3)
    show ?thesis
    proof (cases err)
      case (Some e)
      with run 2 rl have "a' = rollback_state_to_baseline wg (a\<lparr>ap_env := w2\<rparr>)" "r = Inl e"
        by (simp_all add: submit_batch_def ap_bind_def relay_batch_def)
      with Some 2 rl undone show ?thesis by (simp add: ap_bind_def relay_batch_def)
    next
      case None
      obtain a2 where relay: "relay_batch wg req (a\<lparr>ap_env := w\<rparr>) = (a2, Inr res)"
        and a2: "a2 = (if sres_accepted res then commit_state_baseline wg (a\<lparr>ap_env := w2\<rparr>)
          else rollback_state_to_baseline wg (a\<lparr>ap_env := w2\<rparr>))"
        using rl None by (simp add: relay_batch_def)
      obtain b x where save: "save_batch_submit_result (wg_batch_repo wg) (sb_update req) (sb_commitments req)
          (sres_tx_hash res) (sres_accepted res) (sres_proof_status res) (sres_withdraw_records res) (ap_backend a) = (b, x)"
        by force
      have same: "ap_backend a2 = ap_backend a" by (simp add: a2)
      have "submit_batch wg req a = (a2\<lparr>ap_backend := b\<rparr>, map_sum id (\<lambda>_. submit_response req res) x)"
        by (cases x) (simp_all add: submit_batch_def ap_bind_def 2 relay on_backend_def same save settle_log_def src)
      with run have a': "a' = a2\<lparr>ap_backend := b\<rparr>" "r = map_sum id (\<lambda>_. submit_response req res) x" by simp_all
      have mirror: "if sres_accepted res
         then ap_service a' = ap_service a \<and> ap_baseline a' = Some (manager_snapshot (sv_manager (ap_service a)))
         else mg_ls (sv_manager (ap_service a')) = mg_ls m0 \<and> sv_repo (ap_service a') = sv_repo (ap_service a)
           \<and> ap_baseline a' = ap_baseline a"
        using undone rb by (simp add: a' a2 commit_state_baseline_def)
      have panic: "e = ErrPanic ''save submit batch result in postgres'' \<and> bp_submit_store (wg_batch_repo wg) = store_postgres"
        if "x = Inl e" for e
        using save that by (simp add: save_batch_submit_result_def or_panic_def Let_def split: if_splits prod.splits sum.splits)
      have all: "ap_bind (check_proof wg req) (\<lambda>_. relay_batch wg req) a = (a2, Inr res)" by (simp add: ap_bind_def 2 relay)
      have "case x of Inl e \<Rightarrow> ap_backend a' = b \<and> r = Inl e
            \<and> e = ErrPanic ''save submit batch result in postgres'' \<and> bp_submit_store (wg_batch_repo wg) = store_postgres
          | Inr _ \<Rightarrow> ap_backend a' = b \<and> r = Inr (submit_response req res)"
        using panic by (cases x) (simp_all add: a')
      with mirror show ?thesis by (simp only: all save prod.case sum.case)
    qed
  qed
qed

subsection \<open>Submitting a batch again\<close>

definition user_balance :: "'w app \<Rightarrow> string \<Rightarrow> 64 word" where
  "user_balance a k = balance_at (as_user_balances (ms_app (be_store (ap_backend a)))) k"

definition memory_mode :: "'w wiring \<Rightarrow> bool" where
  "memory_mode wg \<longleftrightarrow> wg_build_source wg \<noteq> source_pending \<and> bp_submit_store (wg_batch_repo wg) \<noteq> store_postgres
     \<and> \<not> records_in_postgres (wg_withdraw_repo wg) \<and> wg_verifier wg = None \<and> wg_relayer wg = local_relayer"

lemma memory_submit:
  assumes "memory_mode wg" and "local_submit_batch req = Inr res"
  shows "\<exists>a'. submit_batch wg req a = (a', Inr (submit_response req res)) \<and> ap_backend a' =
    on_store (ms_save_batch_submitted (sb_update req) (sb_commitments req) (sres_withdraw_records res)) (ap_backend a)"
proof -
  have "sres_accepted res" using local_submit_Inr [OF assms(2)] by (auto simp: accepted_result_def)
  with assms show ?thesis
    by (simp add: memory_mode_def submit_batch_def check_proof_def ap_bind_def relay_batch_def local_relayer_def
        on_backend_def save_batch_submit_result_def Let_def settle_log_def)
qed

lemma memory_claim:
  assumes "memory_mode wg" and "ms_records (be_store (ap_backend a)) i = Some r" and "wrec_id r = i" and "i \<noteq> []"
    and "\<not> wrec_claimed r"
  shows "\<exists>a' c. claim_withdraw_service wg i a = (a', Inr c) \<and> clr_record c = r\<lparr>wrec_claimed := True\<rparr>
    \<and> be_store (ap_backend a') = fst (ms_claim_withdraw_record i (be_store (ap_backend a)))"
  using assms by (simp add: claim_withdraw_service_def memory_mode_def ap_bind_def on_backend_def get_withdraw_record_def
      get_withdraw_record_memory_def ms_get_withdraw_record_def on_env_def local_relayer_def local_claim_withdraw_def
      claim_withdraw_record_def claim_memory)

lemma submitted_record:
  assumes "local_submit_batch req = Inr res" and "w \<in> set (su_withdrawals (sb_update req))"
    and "distinct (map sw_id (su_withdrawals (sb_update req)))"
  shows "ms_records (ms_save_batch_submitted (sb_update req) c (sres_withdraw_records res) s) (sw_id w) = Some (unclaimed_record w)"
proof -
  let ?ws = "su_withdrawals (sb_update req)"
  have recs: "sres_withdraw_records res = map unclaimed_record ?ws"
    using local_submit_Inr [OF assms(1)] by (auto simp: accepted_result_def)
  have "map (\<lambda>r. (wrec_id r, r)) (map unclaimed_record ?ws) = map (\<lambda>w. (sw_id w, unclaimed_record w)) ?ws"
    by (simp add: unclaimed_record_def)
  moreover have "map_of (rev (map (\<lambda>w. (sw_id w, unclaimed_record w)) ?ws)) (sw_id w) = Some (unclaimed_record w)"
  proof -
    have "map fst (rev (map (\<lambda>w. (sw_id w, unclaimed_record w)) ?ws)) = rev (map sw_id ?ws)"
      by (simp add: rev_map comp_def)
    with assms(3) have "distinct (map fst (rev (map (\<lambda>w. (sw_id w, unclaimed_record w)) ?ws)))" by simp
    with assms(2) show ?thesis by (subst map_of_eq_Some_iff) auto
  qed
  ultimately show ?thesis unfolding save_batch_submitted_records recs by (simp only: option.case)
qed

lemma resubmit_reopens:
  fixes a :: "'w app"
  assumes mode: "memory_mode wg" and res: "local_submit_batch req = Inr res"
    and w: "w \<in> set (su_withdrawals (sb_update req))" "sw_id w \<noteq> []"
    and ids: "distinct (map sw_id (su_withdrawals (sb_update req)))"
  shows "\<exists>a1 a2 a3 a4 c1 c2 b. submit_batch wg req a = (a1, Inr (submit_response req res))
    \<and> claim_withdraw_service wg (sw_id w) a1 = (a2, Inr c1)
    \<and> submit_batch wg req a2 = (a3, Inr (submit_response req res))
    \<and> claim_withdraw_service wg (sw_id w) a3 = (a4, Inr c2)
    \<and> b = parse_int64_or_zero (sw_amount w)
    \<and> user_balance a4 (sw_destination w @ ''/'' @ sw_denom w) = user_balance a (sw_destination w @ ''/'' @ sw_denom w) + b + b"
proof -
  let ?k = "sw_destination w @ ''/'' @ sw_denom w" and ?b = "parse_int64_or_zero (sw_amount w)"
  have once: "\<exists>a1 a2 c. submit_batch wg req x = (a1, Inr (submit_response req res))
      \<and> claim_withdraw_service wg (sw_id w) a1 = (a2, Inr c) \<and> user_balance a2 ?k = user_balance x ?k + ?b" for x :: "'w app"
  proof -
    from memory_submit [OF mode res] obtain a1 where a1: "submit_batch wg req x = (a1, Inr (submit_response req res))"
      "ap_backend a1 = on_store (ms_save_batch_submitted (sb_update req) (sb_commitments req) (sres_withdraw_records res)) (ap_backend x)"
      by blast
    have rec: "ms_records (be_store (ap_backend a1)) (sw_id w) = Some (unclaimed_record w)"
      using submitted_record [OF res w(1) ids] by (simp add: a1)
    from memory_claim [OF mode rec _ w(2)] obtain a2 c where a2: "claim_withdraw_service wg (sw_id w) a1 = (a2, Inr c)"
      "be_store (ap_backend a2) = fst (ms_claim_withdraw_record (sw_id w) (be_store (ap_backend a1)))"
      by (auto simp: unclaimed_record_def)
    have claimed: "ms_claim_withdraw_record (sw_id w) (be_store (ap_backend a1)) =
        (be_store (ap_backend a2), Some ((unclaimed_record w)\<lparr>wrec_claimed := True\<rparr>))"
      using rec a2(2) by (simp add: ms_claim_withdraw_record_def Let_def)
    have "user_balance a2 ?k = user_balance a1 ?k + ?b"
      using claim_balances(1) [OF claimed, of ?k] by (simp add: user_balance_def unclaimed_record_def)
    moreover have "user_balance a1 ?k = user_balance x ?k"
      by (simp add: user_balance_def a1 ms_save_batch_submitted_def Let_def)
    ultimately show ?thesis using a1 a2 by metis
  qed
  from once [of a] obtain a1 a2 c1 where 1: "submit_batch wg req a = (a1, Inr (submit_response req res))"
    "claim_withdraw_service wg (sw_id w) a1 = (a2, Inr c1)" "user_balance a2 ?k = user_balance a ?k + ?b" by blast
  from once [of a2] obtain a3 a4 c2 where 2: "submit_batch wg req a2 = (a3, Inr (submit_response req res))"
    "claim_withdraw_service wg (sw_id w) a3 = (a4, Inr c2)" "user_balance a4 ?k = user_balance a2 ?k + ?b" by blast
  from 1 2 show ?thesis by metis
qed

end
