(* ===== verification/Service_Laws.thy ===== *)
theory Service_Laws
  imports User_Services Settlement_Recovery
begin

text \<open>
  What the user-facing services do to the loop: creating a withdrawal either is refused without touching
  the mirror, or appends one move to the log and stores the request; indexing a transaction again is
  refused by the mirror.
\<close>

subsection \<open>The builder and the mirror agree\<close>

text \<open>What \<^verbatim>\<open>WithdrawRequestBuilder.Build\<close> decides, on the abstract ledger.\<close>

definition intent_ok :: "withdraw_intent \<Rightarrow> bool" where
  "intent_ok i \<longleftrightarrow> trim_space (wi_owner i) \<noteq> [] \<and> trim_space (wi_denom i) \<noteq> []
     \<and> trim_space (wi_destination i) \<noteq> [] \<and> is_ok (parse_positive_amount (trim_space (wi_amount i)))"

lemma build_request_spec:
  fixes i
  assumes "wf_local s"
  defines "k \<equiv> (trim_space (wi_owner i), trim_space (wi_denom i))" and "n \<equiv> amount_of (trim_space (wi_amount i))"
  shows "build_withdraw_request s seq i =
     (if \<not> intent_ok i then Inl ErrInvalidWithdrawIntent
      else if bal_of (local_ledger s) k < n then Inl ErrInsufficientBalance
      else Inr (seq + 1, \<lparr>wr_id = ''wd-'' @ format_uint (seq + 1), wr_owner = fst k, wr_denom = snd k,
          wr_amount = nat_to_dec n, wr_destination = trim_space (wi_destination i),
          wr_nonce = nat_to_dec (nonce_of (local_ledger s) k + 1), wr_signature = []\<rparr>))"
proof (cases "intent_ok i")
  case True
  then obtain m where m: "parse_positive_amount (trim_space (wi_amount i)) = Inr m" by (auto simp: intent_ok_def is_ok_iff)
  have wf: "wf_accounts (ls_accounts s)" using assms(1) by (simp add: wf_local_def)
  have key: "new_account_key (fst k) (snd k) = Inr k" using True by (simp add: k_def new_account_key_Inr intent_ok_def)
  have amounts: "acc_balance (local_account s (fst k) (snd k)) = nat_to_dec (bal_of (local_ledger s) k)"
    "acc_nonce (local_account s (fst k) (snd k)) = nat_to_dec (nonce_of (local_ledger s) k)"
    unfolding local_account_def by (rule get_or_zero_amounts [OF wf key])+
  from True m amounts show ?thesis
    by (simp add: build_withdraw_request_def intent_ok_def Let_def k_def n_def amount_of_parse)
next
  case False
  then show ?thesis
    by (auto simp: build_withdraw_request_def intent_ok_def Let_def split: sum.split)
qed

text \<open>A request the builder made is refused for a spent nullifier only; otherwise it debits the account.\<close>

definition mirror_debited :: "mirror \<Rightarrow> withdraw_request \<Rightarrow> string \<Rightarrow> mirror" where
  "mirror_debited M req nf = M\<lparr>mi_ledger := ledger_debit (wr_owner req, wr_denom req) (amount_of (wr_amount req)) (mi_ledger M),
     mi_nullifiers := insert nf (mi_nullifiers M)\<rparr>"

lemma built_request_applies:
  assumes wf: "wf_local s" and built: "build_withdraw_request s 0 i = Inr (q, req)"
    and j: "trim_space j \<noteq> []" and nf: "trim_space nf = nf" "nf \<noteq> []"
  shows "if nf \<in> ls_nullifiers s then apply_withdrawal s (req\<lparr>wr_id := j\<rparr>) nf = Inl ErrWithdrawAlreadyApplied
    else \<exists>s' root. apply_withdrawal s (req\<lparr>wr_id := j\<rparr>) nf = Inr (s', root)
      \<and> mirror_of s' = mirror_debited (mirror_of s) req nf"
proof -
  let ?k = "(trim_space (wi_owner i), trim_space (wi_denom i))"
  have b: "\<not> bal_of (local_ledger s) ?k < amount_of (trim_space (wi_amount i))" and ok: "intent_ok i"
    and req: "req = \<lparr>wr_id = ''wd-'' @ format_uint 1, wr_owner = fst ?k, wr_denom = snd ?k,
          wr_amount = nat_to_dec (amount_of (trim_space (wi_amount i))), wr_destination = trim_space (wi_destination i),
          wr_nonce = nat_to_dec (nonce_of (local_ledger s) ?k + 1), wr_signature = []\<rparr>"
    using built unfolding build_request_spec [OF wf] by (auto split: if_splits)
  have pos: "0 < amount_of (trim_space (wi_amount i))"
    using ok by (auto simp: intent_ok_def is_ok_iff amount_of_parse dest: parse_positive_pos)
  have "spec_withdrawal (mirror_of s) (req\<lparr>wr_id := j\<rparr>) nf =
     (if nf \<in> ls_nullifiers s then Inl ErrWithdrawAlreadyApplied else Inr (mirror_debited (mirror_of s) req nf))"
    using b ok nf j parse_positive_nat_to_dec [OF pos]
    by (simp add: spec_withdrawal_def req Let_def intent_ok_def mirror_of_def mirror_debited_def)
  with apply_withdrawal_refines [OF wf, of "req\<lparr>wr_id := j\<rparr>" nf] show ?thesis
    by (auto simp: abstracts_def split: sum.splits if_splits)
qed

subsection \<open>Creating a withdrawal\<close>

text \<open>The id the memory store will give next.\<close>

definition next_memory_id :: "'w app \<Rightarrow> string" where
  "next_memory_id a = ''wd-'' @ format_int64 (ms_next_seq (be_store (ap_backend a)))"

definition intent_of :: "withdraw_request_body \<Rightarrow> withdraw_intent" where
  "intent_of body = \<lparr>wi_owner = wb_owner body, wi_denom = wb_denom body, wi_amount = wb_amount body,
     wi_destination = wb_destination body\<rparr>"

definition signed :: "withdraw_request \<Rightarrow> withdraw_request" where
  "signed r = (if wr_signature r = [] then r\<lparr>wr_signature := local_withdraw_signature
     [wr_owner r, wr_denom r, wr_amount r, wr_destination r, wr_nonce r]\<rparr> else r)"

lemma trim_wd_id: "trim_space (''wd-'' @ format_int64 x) = ''wd-'' @ format_int64 x"
proof (rule trim_space_plain)
  have "list_all plain_char (nat_to_dec n)" for n using plain_nat_to_dec [of n] by (simp add: plain_def)
  then show "plain (''wd-'' @ format_int64 x)"
    by (simp add: plain_def format_int64_def int_to_dec_def) (simp add: plain_char_def)
qed

lemma service_build_Inr:
  assumes "service_build_withdraw_request s body i = Inr req"
  obtains q req0 where "build_withdraw_request (mg_ls (sv_manager s)) 0 (intent_of body) = Inr (q, req0)"
    and "req = req0\<lparr>wr_id := i\<rparr>"
  using assms by (auto simp: service_build_withdraw_request_def manager_build_withdraw_request_def intent_of_def
      split: sum.splits)

lemma built_request_secrets:
  assumes "wf_local (mg_ls (sv_manager s))" and "service_build_withdraw_request s body i = Inr req"
  obtains nf h where "nullifier_for withdraw_default_user_secret (wr_nonce req) = Inr nf"
    and "nullifier_for (effective_secret withdraw_default_user_secret) (wr_nonce req) = Inr nf"
    and "withdraw_address_hash (wr_destination req) = Inr h" and "trim_space nf = nf" and "nf \<noteq> []" and "wr_id req = i"
proof -
  obtain q req0 where b: "build_withdraw_request (mg_ls (sv_manager s)) 0 (intent_of body) = Inr (q, req0)"
    "req = req0\<lparr>wr_id := i\<rparr>" by (rule service_build_Inr [OF assms(2)])
  from b(1) have n: "\<exists>n. wr_nonce req0 = nat_to_dec n" "trim_space (wr_destination req0) \<noteq> []"
    unfolding build_request_spec [OF assms(1)] by (auto simp: intent_ok_def split: if_splits)
  have sec: "withdraw_default_user_secret = mvp_mock_secret"
    by (simp add: withdraw_default_user_secret_def mvp_mock_secret_def)
  show ?thesis
    using that n b(2) unfolding sec
    by (auto simp: nullifier_for_def Let_def effective_secret_def withdraw_address_hash_def)
qed

definition withdraw_ready :: "'w wiring \<Rightarrow> bool" where
  "withdraw_ready wg \<longleftrightarrow> wg_enabled wg \<and> wg_has_offchain wg \<and> \<not> requests_in_postgres (wg_withdraw_repo wg)"

lemma create_withdraw_steps:
  assumes "withdraw_ready wg"
  shows "\<exists>a1. ap_service a1 = ap_service a \<and> be_store (ap_backend a1) = fst (ms_next_withdraw_sequence (be_store (ap_backend a)))
    \<and> create_withdraw_service wg now body a = (case service_build_withdraw_request (ap_service a) body (next_memory_id a) of
        Inl e \<Rightarrow> (a1, Inl e)
      | Inr req \<Rightarrow> (case service_apply_withdraw_request now req withdraw_default_user_secret (ap_service a) of
          (s, Inl e) \<Rightarrow> (a1\<lparr>ap_service := s\<rparr>, Inl e)
        | (s, Inr t) \<Rightarrow> (a1\<lparr>ap_service := s, ap_backend := on_store (ms_save_withdraw_request (signed req)) (ap_backend a1)\<rparr>,
            Inr (signed req))))"
proof -
  let ?st = "be_store (ap_backend a)"
  let ?a1 = "a\<lparr>ap_backend := (ap_backend a)\<lparr>be_store := fst (ms_next_withdraw_sequence ?st)\<rparr>\<rparr>"
  have id: "on_backend (next_withdraw_id (wg_withdraw_repo wg)) a = (?a1, Inr (next_memory_id a))"
    using assms by (simp add: on_backend_def next_withdraw_id_def withdraw_ready_def next_memory_id_def ms_next_withdraw_sequence_def)
  have "create_withdraw_service wg now body a = (case service_build_withdraw_request (ap_service a) body (next_memory_id a) of
        Inl e \<Rightarrow> (?a1, Inl e)
      | Inr req \<Rightarrow> (case service_apply_withdraw_request now req withdraw_default_user_secret (ap_service a) of
          (s, Inl e) \<Rightarrow> (?a1\<lparr>ap_service := s\<rparr>, Inl e)
        | (s, Inr t) \<Rightarrow> (?a1\<lparr>ap_service := s, ap_backend := on_store (ms_save_withdraw_request (signed req)) (ap_backend ?a1)\<rparr>,
            Inr (signed req))))"
    using assms
    by (simp add: create_withdraw_service_def withdraw_ready_def
          ap_bind_Inr [of "on_backend (next_withdraw_id (wg_withdraw_repo wg))" a, OF id])
       (simp add: ap_bind_def on_service_def on_backend_def save_withdraw_request_def signed_def Let_def
          split: sum.split prod.split)
  then show ?thesis by (intro exI [of _ ?a1]) simp
qed

text \<open>A spent nullifier is refused, whatever the id.\<close>

lemma create_withdraw_spent:
  assumes wg: "withdraw_ready wg" and inv: "loop_inv (ap_service a) s0 fl rest"
    and built: "service_build_withdraw_request (ap_service a) body (next_memory_id a) = Inr req"
    and spent: "nullifier_for withdraw_default_user_secret (wr_nonce req) = Inr nf"
      "nf \<in> ls_nullifiers (mg_ls (sv_manager (ap_service a)))"
  shows "\<exists>a'. create_withdraw_service wg now body a = (a', Inl ErrWithdrawAlreadyApplied)
    \<and> loop_inv (ap_service a') s0 fl rest \<and> sv_manager (ap_service a') = sv_manager (ap_service a)"
proof -
  let ?ls = "mg_ls (sv_manager (ap_service a))" and ?i = "next_memory_id a"
  have wf: "wf_local ?ls" using loop_inv_manager [OF inv] by simp
  obtain nf' h where nf': "nullifier_for withdraw_default_user_secret (wr_nonce req) = Inr nf'"
    "nullifier_for (effective_secret withdraw_default_user_secret) (wr_nonce req) = Inr nf'"
    and h: "withdraw_address_hash (wr_destination req) = Inr h"
    and nt: "trim_space nf' = nf'" "nf' \<noteq> []" by (rule built_request_secrets [OF wf built])
  have eq: "nf' = nf" using nf'(1) spent(1) by simp
  obtain q req0 where b: "build_withdraw_request ?ls 0 (intent_of body) = Inr (q, req0)" "req = req0\<lparr>wr_id := ?i\<rparr>"
    by (rule service_build_Inr [OF built])
  have "trim_space ?i \<noteq> []" unfolding next_memory_id_def trim_wd_id by simp
  from built_request_applies [OF wf b(1) this nt, folded b(2)] spent(2) eq
  have "apply_withdrawal ?ls req nf' = Inl ErrWithdrawAlreadyApplied" by simp
  from loop_withdraw_refused [OF inv nf'(2) h this, of now] obtain s' where
    s': "service_apply_withdraw_request now req withdraw_default_user_secret (ap_service a) = (s', Inl ErrWithdrawAlreadyApplied)"
    "loop_inv s' s0 fl rest" "sv_manager s' = sv_manager (ap_service a)" by blast
  obtain a1 where "create_withdraw_service wg now body a = (a1\<lparr>ap_service := s'\<rparr>, Inl ErrWithdrawAlreadyApplied)"
    using create_withdraw_steps [OF wg, of a now body] built s'(1) by auto
  with s' show ?thesis by simp
qed

text \<open>Every outcome of the service, from a loop that satisfies the invariant.\<close>

lemma create_withdraw_outcomes:
  assumes wg: "withdraw_ready wg" and inv: "loop_inv (ap_service a) s0 fl rest"
    and fresh: "unused_withdraw_id (ap_service a) (next_memory_id a)"
  shows "case service_build_withdraw_request (ap_service a) body (next_memory_id a) of
      Inl e \<Rightarrow> (\<exists>a'. create_withdraw_service wg now body a = (a', Inl e) \<and> ap_service a' = ap_service a)
    | Inr req \<Rightarrow> (\<exists>a' nf. nullifier_for withdraw_default_user_secret (wr_nonce req) = Inr nf \<and>
        (if nf \<in> ls_nullifiers (mg_ls (sv_manager (ap_service a)))
         then create_withdraw_service wg now body a = (a', Inl ErrWithdrawAlreadyApplied)
           \<and> loop_inv (ap_service a') s0 fl rest \<and> sv_manager (ap_service a') = sv_manager (ap_service a)
         else \<exists>w. create_withdraw_service wg now body a = (a', Inr (signed req))
           \<and> loop_inv (ap_service a') s0 fl (rest @ [LogWithdraw w])
           \<and> request_of_move w = req \<and> pw_nullifier w = nf
           \<and> mirror_of (mg_ls (sv_manager (ap_service a'))) = mirror_debited (mirror_of (mg_ls (sv_manager (ap_service a)))) req nf
           \<and> ms_requests (be_store (ap_backend a')) (wr_id req) = Some (signed req)))"
proof -
  let ?i = "next_memory_id a" and ?ls = "mg_ls (sv_manager (ap_service a))"
  from create_withdraw_steps [OF wg, of a now body] obtain a1 where a1: "ap_service a1 = ap_service a"
    and run: "create_withdraw_service wg now body a = (case service_build_withdraw_request (ap_service a) body ?i of
        Inl e \<Rightarrow> (a1, Inl e)
      | Inr req \<Rightarrow> (case service_apply_withdraw_request now req withdraw_default_user_secret (ap_service a) of
          (s, Inl e) \<Rightarrow> (a1\<lparr>ap_service := s\<rparr>, Inl e)
        | (s, Inr t) \<Rightarrow> (a1\<lparr>ap_service := s, ap_backend := on_store (ms_save_withdraw_request (signed req)) (ap_backend a1)\<rparr>,
            Inr (signed req))))" by blast
  show ?thesis
  proof (cases "service_build_withdraw_request (ap_service a) body ?i")
    case (Inl e)
    with run a1 show ?thesis by simp
  next
    case (Inr req)
    have wf: "wf_local ?ls" using loop_inv_manager [OF inv] by simp
    obtain nf h where nf: "nullifier_for withdraw_default_user_secret (wr_nonce req) = Inr nf"
      "nullifier_for (effective_secret withdraw_default_user_secret) (wr_nonce req) = Inr nf"
      and h: "withdraw_address_hash (wr_destination req) = Inr h"
      and nt: "trim_space nf = nf" "nf \<noteq> []" and wid: "wr_id req = ?i" by (rule built_request_secrets [OF wf Inr])
    obtain q req0 where b: "build_withdraw_request ?ls 0 (intent_of body) = Inr (q, req0)" "req = req0\<lparr>wr_id := ?i\<rparr>"
      by (rule service_build_Inr [OF Inr])
    have "trim_space ?i \<noteq> []" unfolding next_memory_id_def trim_wd_id by simp
    note app = built_request_applies [OF wf b(1) this nt, folded b(2)]
    show ?thesis
    proof (cases "nf \<in> ls_nullifiers ?ls")
      case True
      from create_withdraw_spent [OF wg inv Inr nf(1) True, of now] Inr nf(1) True show ?thesis by auto
    next
      case False
      with app obtain ls' root where ls': "apply_withdrawal ?ls req nf = Inr (ls', root)"
        and m: "mirror_of ls' = mirror_debited (mirror_of ?ls) req0 nf" by auto
      have m': "mirror_of ls' = mirror_debited (mirror_of ?ls) req nf" using m by (simp add: b(2) mirror_debited_def)
      from loop_withdraw [OF inv nf(2) h ls', of now] fresh wid obtain s' tr where
        s': "service_apply_withdraw_request now req withdraw_default_user_secret (ap_service a) = (s', Inr tr)"
        "mg_ls (sv_manager s') = ls'" "loop_inv s' s0 fl (rest @ [LogWithdraw (withdrawal_move_of ?ls req nf h ls')])"
        by auto
      let ?w = "withdrawal_move_of ?ls req nf h ls'"
      let ?a' = "a1\<lparr>ap_service := s', ap_backend := on_store (ms_save_withdraw_request (signed req)) (ap_backend a1)\<rparr>"
      have "create_withdraw_service wg now body a = (?a', Inr (signed req))" using run Inr s'(1) by simp
      moreover have "pw_nullifier ?w = nf" by (simp add: withdrawal_move_of_def)
      moreover have "ms_requests (be_store (ap_backend ?a')) (wr_id req) = Some (signed req)"
        by (simp add: ms_save_withdraw_request_def signed_def)
      ultimately have "\<exists>w. create_withdraw_service wg now body a = (?a', Inr (signed req))
           \<and> loop_inv (ap_service ?a') s0 fl (rest @ [LogWithdraw w]) \<and> request_of_move w = req \<and> pw_nullifier w = nf
           \<and> mirror_of (mg_ls (sv_manager (ap_service ?a'))) = mirror_debited (mirror_of ?ls) req nf
           \<and> ms_requests (be_store (ap_backend ?a')) (wr_id req) = Some (signed req)"
        using s' m' by (intro exI [of _ ?w]) simp
      with Inr nf False show ?thesis by auto
    qed
  qed
qed

text \<open>The same with the builder's decision spelled out.\<close>

lemma service_build_spec:
  assumes wf: "wf_local (mg_ls (sv_manager s))"
  shows "service_build_withdraw_request s body j =
     (if \<not> intent_ok (intent_of body) then Inl ErrInvalidWithdrawIntent
      else if bal_of (local_ledger (mg_ls (sv_manager s))) (trim_space (wb_owner body), trim_space (wb_denom body))
          < amount_of (trim_space (wb_amount body)) then Inl ErrInsufficientBalance
      else Inr \<lparr>wr_id = j, wr_owner = trim_space (wb_owner body), wr_denom = trim_space (wb_denom body),
          wr_amount = nat_to_dec (amount_of (trim_space (wb_amount body))), wr_destination = trim_space (wb_destination body),
          wr_nonce = nat_to_dec (nonce_of (local_ledger (mg_ls (sv_manager s)))
            (trim_space (wb_owner body), trim_space (wb_denom body)) + 1), wr_signature = []\<rparr>)"
  using build_request_spec [OF wf, of 0 "intent_of body"]
  by (simp add: service_build_withdraw_request_def manager_build_withdraw_request_def)
     (simp add: intent_of_def)

lemma default_nullifier: "\<exists>nf. nullifier_for withdraw_default_user_secret (nat_to_dec n) = Inr nf"
  by (simp add: nullifier_for_def withdraw_default_user_secret_def Let_def trim_space_ends_eval plain_char_def)

lemma create_withdraw_cases:
  fixes body
  assumes wg: "withdraw_ready wg" and inv: "loop_inv (ap_service a) s0 fl rest"
    and fresh: "unused_withdraw_id (ap_service a) (next_memory_id a)"
  defines "ls \<equiv> mg_ls (sv_manager (ap_service a))"
  defines "k \<equiv> (trim_space (wb_owner body), trim_space (wb_denom body))" and "n \<equiv> amount_of (trim_space (wb_amount body))"
  defines "req \<equiv> \<lparr>wr_id = next_memory_id a, wr_owner = fst k, wr_denom = snd k, wr_amount = nat_to_dec n,
    wr_destination = trim_space (wb_destination body), wr_nonce = nat_to_dec (nonce_of (local_ledger ls) k + 1), wr_signature = []\<rparr>"
  shows "\<exists>a' nf. nullifier_for withdraw_default_user_secret (wr_nonce req) = Inr nf \<and>
    (if \<not> intent_ok (intent_of body)
       then create_withdraw_service wg now body a = (a', Inl ErrInvalidWithdrawIntent) \<and> ap_service a' = ap_service a
     else if bal_of (local_ledger ls) k < n
       then create_withdraw_service wg now body a = (a', Inl ErrInsufficientBalance) \<and> ap_service a' = ap_service a
     else if nf \<in> ls_nullifiers ls
       then create_withdraw_service wg now body a = (a', Inl ErrWithdrawAlreadyApplied)
         \<and> loop_inv (ap_service a') s0 fl rest \<and> sv_manager (ap_service a') = sv_manager (ap_service a)
     else \<exists>w. create_withdraw_service wg now body a = (a', Inr (signed req))
         \<and> loop_inv (ap_service a') s0 fl (rest @ [LogWithdraw w]) \<and> request_of_move w = req \<and> pw_nullifier w = nf
         \<and> mirror_of (mg_ls (sv_manager (ap_service a'))) = mirror_debited (mirror_of ls) req nf
         \<and> ms_requests (be_store (ap_backend a')) (wr_id req) = Some (signed req))"
proof -
  have wf: "wf_local ls" using loop_inv_manager [OF inv] by (simp add: ls_def)
  obtain nf where nf: "nullifier_for withdraw_default_user_secret (wr_nonce req) = Inr nf"
    using default_nullifier by (auto simp: req_def)
  note build = service_build_spec [OF wf [unfolded ls_def], of body "next_memory_id a", folded ls_def]
  note out = create_withdraw_outcomes [OF wg inv fresh, of now body, folded ls_def]
  show ?thesis
  proof (cases "\<not> intent_ok (intent_of body) \<or> bal_of (local_ledger ls) k < n")
    case True
    let ?e = "if \<not> intent_ok (intent_of body) then ErrInvalidWithdrawIntent else ErrInsufficientBalance"
    from True have b: "service_build_withdraw_request (ap_service a) body (next_memory_id a) = Inl ?e"
      by (simp add: build k_def n_def)
    from out [unfolded b sum.case] obtain a' where
      "create_withdraw_service wg now body a = (a', Inl ?e) \<and> ap_service a' = ap_service a" by blast
    with nf True show ?thesis by (intro exI [of _ a'] exI [of _ nf]) simp
  next
    case False
    then have b: "service_build_withdraw_request (ap_service a) body (next_memory_id a) = Inr req"
      by (simp add: build req_def k_def n_def)
    from out [unfolded b sum.case] obtain a' nf' where n': "nullifier_for withdraw_default_user_secret (wr_nonce req) = Inr nf'"
      and rest: "if nf' \<in> ls_nullifiers ls
         then create_withdraw_service wg now body a = (a', Inl ErrWithdrawAlreadyApplied)
           \<and> loop_inv (ap_service a') s0 fl rest \<and> sv_manager (ap_service a') = sv_manager (ap_service a)
         else \<exists>w. create_withdraw_service wg now body a = (a', Inr (signed req))
           \<and> loop_inv (ap_service a') s0 fl (rest @ [LogWithdraw w]) \<and> request_of_move w = req \<and> pw_nullifier w = nf'
           \<and> mirror_of (mg_ls (sv_manager (ap_service a'))) = mirror_debited (mirror_of ls) req nf'
           \<and> ms_requests (be_store (ap_backend a')) (wr_id req) = Some (signed req)" by blast
    from n' nf have "nf' = nf" by simp
    with False n' rest show ?thesis by (intro exI [of _ a'] exI [of _ nf]) (simp only: de_Morgan_disj if_False if_True not_not simp_thms)
  qed
qed

text \<open>
  Every request signs with the same secret and the nonces are counted per account, so a nonce that some
  account has used is refused for every other account that reaches it.
\<close>

lemma create_withdraw_accepted:
  assumes wg: "withdraw_ready wg" and inv: "loop_inv (ap_service a) s0 fl rest"
    and fresh: "unused_withdraw_id (ap_service a) (next_memory_id a)"
    and ok: "create_withdraw_service wg now body a = (a1, Inr r)"
  obtains nf w where "nullifier_for withdraw_default_user_secret (wr_nonce r) = Inr nf"
    and "nf \<in> ls_nullifiers (mg_ls (sv_manager (ap_service a1)))"
    and "loop_inv (ap_service a1) s0 fl (rest @ [LogWithdraw w])"
proof (cases "service_build_withdraw_request (ap_service a) body (next_memory_id a)")
  case (Inl e)
  with create_withdraw_outcomes [OF wg inv fresh, of now body] ok show ?thesis by auto
next
  case (Inr req)
  with create_withdraw_outcomes [OF wg inv fresh, of now body] ok obtain nf w where
    "nullifier_for withdraw_default_user_secret (wr_nonce req) = Inr nf" "r = signed req"
    "loop_inv (ap_service a1) s0 fl (rest @ [LogWithdraw w])"
    and m: "mirror_of (mg_ls (sv_manager (ap_service a1))) = mirror_debited (mirror_of (mg_ls (sv_manager (ap_service a)))) req nf"
    by (auto split: if_splits)
  moreover have "nf \<in> ls_nullifiers (mg_ls (sv_manager (ap_service a1)))"
    using arg_cong [OF m, of mi_nullifiers] by (simp add: mirror_debited_def mirror_of_def)
  moreover have "wr_nonce (signed req) = wr_nonce req" by (simp add: signed_def)
  ultimately show ?thesis using that by simp
qed

lemma same_nonce_refused:
  assumes wg: "withdraw_ready wg" and inv: "loop_inv (ap_service a) s0 fl rest"
    and fresh: "unused_withdraw_id (ap_service a) (next_memory_id a)"
    and ok: "create_withdraw_service wg now body a = (a1, Inr r)"
    and built: "service_build_withdraw_request (ap_service a1) body1 (next_memory_id a1) = Inr r1"
    and same: "wr_nonce r1 = wr_nonce r"
  shows "\<exists>a2. create_withdraw_service wg now1 body1 a1 = (a2, Inl ErrWithdrawAlreadyApplied)
    \<and> sv_manager (ap_service a2) = sv_manager (ap_service a1)"
proof -
  obtain nf w where n: "nullifier_for withdraw_default_user_secret (wr_nonce r) = Inr nf"
    "nf \<in> ls_nullifiers (mg_ls (sv_manager (ap_service a1)))" and inv1: "loop_inv (ap_service a1) s0 fl (rest @ [LogWithdraw w])"
    by (rule create_withdraw_accepted [OF wg inv fresh ok])
  from create_withdraw_spent [OF wg inv1 built _ n(2), of now1] n(1) same show ?thesis by auto
qed

subsection \<open>Indexing a transaction again\<close>

definition module_balance :: "'w app \<Rightarrow> string \<Rightarrow> 64 word" where
  "module_balance a d = balance_at (as_module_balance (ms_app (be_store (ap_backend a)))) d"

lemma index_steps:
  assumes "find (\<lambda>ev. ev_type ev = type_deposit) (txr_events tx) = Some ev" and "deposit_record_from_event tx ev = Inr r"
    and "wg_enabled wg" and "wg_has_offchain wg"
    and "service_apply_indexed_deposit now r (ap_service a) = (s', q)"
  shows "index_deposit_from_tx wg now tx a = (a\<lparr>ap_backend := save_deposit r (ap_backend a), ap_service := s'\<rparr>,
    case q of Inl e \<Rightarrow> Inl e | Inr _ \<Rightarrow> Inr r)"
  using assms by (simp add: index_deposit_from_tx_def ap_bind_def apply_indexed_def on_service_def split: sum.split)

lemma index_Inr:
  assumes "index_deposit_from_tx wg now tx a = (a1, Inr r)"
  obtains ev where "find (\<lambda>ev. ev_type ev = type_deposit) (txr_events tx) = Some ev" and "deposit_record_from_event tx ev = Inr r"
  using assms
  by (cases "find (\<lambda>ev. ev_type ev = type_deposit) (txr_events tx)")
     (auto simp: index_deposit_from_tx_def ap_bind_def split: sum.splits prod.splits)

lemma apply_deposit_again:
  "apply_deposit s d = Inr (s', root) \<Longrightarrow> apply_deposit s' d = Inl ErrDepositAlreadyApplied"
  by (auto simp: apply_deposit_def Let_def split: option.splits if_splits sum.splits)

lemma index_twice:
  assumes wg: "wg_enabled wg" "wg_has_offchain wg" and inv: "loop_inv (ap_service a) s0 fl rest"
    and run: "index_deposit_from_tx wg now tx a = (a1, Inr r)"
  shows "\<exists>a2 m. loop_inv (ap_service a1) s0 fl (rest @ [LogDeposit m]) \<and> record_of_move m = r\<lparr>dep_processed := False, dep_created_height := 0, dep_tx_hash := []\<rparr>
    \<and> index_deposit_from_tx wg now1 tx a1 = (a2, Inl ErrDepositAlreadyApplied)
    \<and> loop_inv (ap_service a2) s0 fl (rest @ [LogDeposit m]) \<and> sv_manager (ap_service a2) = sv_manager (ap_service a1)
    \<and> module_balance a1 (dep_denom r) = module_balance a (dep_denom r) + parse_int64_or_zero (dep_amount r)
    \<and> module_balance a2 (dep_denom r) = module_balance a1 (dep_denom r) + parse_int64_or_zero (dep_amount r)"
proof -
  let ?ls = "mg_ls (sv_manager (ap_service a))"
  obtain ev where ev: "find (\<lambda>ev. ev_type ev = type_deposit) (txr_events tx) = Some ev" "deposit_record_from_event tx ev = Inr r"
    by (rule index_Inr [OF run])
  show ?thesis
  proof (cases "apply_deposit ?ls r")
    case (Inl e)
    from loop_deposit_refused [OF inv this, of now] obtain s' where
      "service_apply_indexed_deposit now r (ap_service a) = (s', Inl e)" by blast
    from index_steps [OF ev wg this] run show ?thesis by simp
  next
    case (Inr x)
    obtain ls' root where ls': "apply_deposit ?ls r = Inr (ls', root)" using Inr by (cases x) simp
    let ?m = "deposit_move_of ?ls r ls'"
    from loop_deposit [OF inv ls', of now] obtain s' t where
      s': "service_apply_indexed_deposit now r (ap_service a) = (s', Inr t)" "mg_ls (sv_manager s') = ls'"
      "loop_inv s' s0 fl (rest @ [LogDeposit ?m])" by blast
    from index_steps [OF ev wg s'(1)] run have a1: "a1 = a\<lparr>ap_backend := save_deposit r (ap_backend a), ap_service := s'\<rparr>" by simp
    with apply_deposit_again [OF ls'] s'(2) have bad: "apply_deposit (mg_ls (sv_manager (ap_service a1))) r = Inl ErrDepositAlreadyApplied" by simp
    have inv1: "loop_inv (ap_service a1) s0 fl (rest @ [LogDeposit ?m])" using s' a1 by simp
    from loop_deposit_refused [OF inv1 bad, of now1] obtain s2 where
      s2: "service_apply_indexed_deposit now1 r (ap_service a1) = (s2, Inl ErrDepositAlreadyApplied)"
      "loop_inv s2 s0 fl (rest @ [LogDeposit ?m])" "sv_manager s2 = sv_manager (ap_service a1)" by blast
    let ?a2 = "a1\<lparr>ap_backend := save_deposit r (ap_backend a1), ap_service := s2\<rparr>"
    have "index_deposit_from_tx wg now1 tx a1 = (?a2, Inl ErrDepositAlreadyApplied)"
      using index_steps [OF ev wg s2(1)] by simp
    moreover have "module_balance a1 (dep_denom r) = module_balance a (dep_denom r) + parse_int64_or_zero (dep_amount r)"
      "module_balance ?a2 (dep_denom r) = module_balance a1 (dep_denom r) + parse_int64_or_zero (dep_amount r)"
      using save_deposit_balances(2) [of r _ "dep_denom r"] by (simp_all add: module_balance_def a1 save_deposit_def)
    moreover have "record_of_move ?m = r\<lparr>dep_processed := False, dep_created_height := 0, dep_tx_hash := []\<rparr>"
      by (simp add: record_of_move_def deposit_move_of_def)
    ultimately show ?thesis using inv1 s2 by (intro exI [of _ ?a2] exI [of _ ?m]) simp
  qed
qed

end
