(* ===== verification/Backend_Invariant.thy ===== *)
theory Backend_Invariant
  imports Sequencer Service_Laws
begin

text \<open>
  The tables the services share stay well-formed whatever requests arrive: the orders of the memory store
  list the keys of its maps once, every row is stored under its own id, no withdraw id and no nullifier
  is ever in two rows of the database, and every stored request carries a number the sequence has given.
\<close>

definition backend_wf :: "backend \<Rightarrow> bool" where
  "backend_wf b \<longleftrightarrow> wf_store (be_store b) \<and> wf_requests (be_db b) \<and> wf_record_rows (be_db b)"

definition keeps :: "'a backend_op \<Rightarrow> bool" where
  "keeps m \<longleftrightarrow> (\<forall>b. backend_wf b \<longrightarrow> backend_wf (fst (m b)))"

definition app_keeps :: "('w, 'a) app_op \<Rightarrow> bool" where
  "app_keeps m \<longleftrightarrow> (\<forall>a. backend_wf (ap_backend a) \<longrightarrow> backend_wf (ap_backend (fst (m a))))"

named_theorems keeping

lemma keepsD: "keeps m \<Longrightarrow> m b = (b', r) \<Longrightarrow> backend_wf b \<Longrightarrow> backend_wf b'"
  unfolding keeps_def by (metis fst_conv)

lemma keepsI: "(\<And>b b' r. m b = (b', r) \<Longrightarrow> backend_wf b \<Longrightarrow> backend_wf b') \<Longrightarrow> keeps m"
  unfolding keeps_def by (metis prod.collapse)

lemma app_keepsD: "app_keeps m \<Longrightarrow> m a = (a', r) \<Longrightarrow> backend_wf (ap_backend a) \<Longrightarrow> backend_wf (ap_backend a')"
  unfolding app_keeps_def by (metis fst_conv)

lemma app_keepsI: "(\<And>a a' r. m a = (a', r) \<Longrightarrow> backend_wf (ap_backend a) \<Longrightarrow> backend_wf (ap_backend a')) \<Longrightarrow> app_keeps m"
  unfolding app_keeps_def by (metis prod.collapse)

lemma keeps_bind [keeping]: "keeps m \<Longrightarrow> (\<And>x. keeps (f x)) \<Longrightarrow> keeps (be_bind m f)"
  unfolding keeps_def be_bind_def by (fastforce split: prod.splits sum.splits)

lemma keeps_pure [keeping]: "keeps (\<lambda>b. (b, r b))"
  by (simp add: keeps_def)

lemma keeps_or_panic [keeping]: "keeps m \<Longrightarrow> keeps (or_panic what m)"
  unfolding keeps_def or_panic_def by (fastforce split: prod.splits sum.splits)

lemma keeps_store [keeping]:
  "(\<And>s. wf_store s \<Longrightarrow> wf_store (f s)) \<Longrightarrow> keeps (\<lambda>b. (on_store f b, r b))"
  by (simp add: keeps_def backend_wf_def)

lemma keeps_call:
  assumes "\<And>db db' x. body db = Inr (db', x) \<Longrightarrow> wf_requests db \<Longrightarrow> wf_requests db'"
    and "\<And>db db' x. body db = Inr (db', x) \<Longrightarrow> wf_record_rows db \<Longrightarrow> wf_record_rows db'"
  shows "keeps (app_call msg body)"
proof (rule keepsI)
  fix b b' r assume c: "app_call msg body b = (b', r)" and wf: "backend_wf b"
  have "wf_requests (be_db b')"
    by (rule app_call_keeps [OF c]) (use wf assms(1) in \<open>auto simp: backend_wf_def\<close>)
  moreover have "wf_record_rows (be_db b')"
    by (rule app_call_keeps [OF c]) (use wf assms(2) in \<open>auto simp: backend_wf_def\<close>)
  moreover have "be_store b' = be_store b" using app_call_store [of msg body b] c by simp
  ultimately show "backend_wf b'" using wf by (simp add: backend_wf_def)
qed

text \<open>A read leaves the tables as they are.\<close>

lemma keeps_read: "(\<And>db db' x. body db = Inr (db', x) \<Longrightarrow> db' = db) \<Longrightarrow> keeps (app_call msg body)"
  by (rule keeps_call) blast+

lemma app_keeps_bind [keeping]: "app_keeps m \<Longrightarrow> (\<And>x. app_keeps (f x)) \<Longrightarrow> app_keeps (ap_bind m f)"
  unfolding app_keeps_def ap_bind_def by (fastforce split: prod.splits sum.splits)

lemma app_keeps_pure [keeping]: "app_keeps (\<lambda>a. (a, r a))"
  by (simp add: app_keeps_def)

lemma app_keeps_backend [keeping]: "keeps m \<Longrightarrow> app_keeps (on_backend m)"
  unfolding app_keeps_def on_backend_def keeps_def by (fastforce split: prod.splits)

lemma app_keeps_service [keeping]: "app_keeps (on_service m)"
  unfolding app_keeps_def on_service_def by (auto split: prod.splits)

lemma app_keeps_env [keeping]: "app_keeps (on_env m)"
  unfolding app_keeps_def on_env_def by (auto split: prod.splits)

subsection \<open>The repositories\<close>

lemma wf_requests_frame [simp]:
  "wf_requests (db\<lparr>ad_records := rows\<rparr>) = wf_requests db" "wf_requests (db\<lparr>ad_submits := m\<rparr>) = wf_requests db"
  "wf_requests (db\<lparr>ad_builds := n\<rparr>) = wf_requests db" "wf_requests (db\<lparr>ad_proofs := p\<rparr>) = wf_requests db"
  by (simp_all add: wf_requests_def)

lemma upsert_record_requests: "upsert_record rec tx db = Inr (db', x) \<Longrightarrow> wf_requests db' = wf_requests db"
  unfolding upsert_record_Inr by (elim conjE) (simp only: wf_requests_frame)

lemma upsert_step_requests: "upsert_record_step tx db rec = Inr db' \<Longrightarrow> wf_requests db' = wf_requests db"
  by (cases "upsert_record rec (\<lambda>_. Some tx) db") (auto simp: upsert_record_step_def upsert_record_requests)

lemma fold_upsert_requests: "fold_res (upsert_record_step tx) db rs = Inr db' \<Longrightarrow> wf_requests db' = wf_requests db"
proof (induction rs arbitrary: db)
  case (Cons r rs)
  then obtain db1 where 1: "upsert_record_step tx db r = Inr db1" "fold_res (upsert_record_step tx) db1 rs = Inr db'"
    by (cases "upsert_record_step tx db r") simp_all
  with Cons.IH [OF 1(2)] upsert_step_requests [OF 1(1)] show ?case by simp
qed simp

lemma keeps_upsert [keeping]: "keeps (app_call msg (upsert_record rec tx))"
  by (rule keeps_call) (simp_all add: upsert_record_requests upsert_record_wf)

lemma keeps_save_result [keeping]: "keeps (save_batch_submit_result bp u c tx acc st recs)"
proof (rule keepsI)
  fix b b' r assume s: "save_batch_submit_result bp u c tx acc st recs b = (b', r)" and wf: "backend_wf b"
  have pg: "wf_requests (be_db b2) \<and> be_store b2 = be_store b1"
    if "save_batch_submit_result_postgres u tx acc st recs b1 = (b2, q)" "wf_requests (be_db b1)" for b1 b2 q
  proof (cases "ad_pool (be_db b1) \<and> su_batch_id u \<noteq> []")
    case True
    let ?body = "\<lambda>db. case fold_res (upsert_record_step tx)
        (put_submit_row (su_batch_id u) tx acc (if st = [] then ''accepted'' else st) db) recs of
        Inl e \<Rightarrow> Inl e | Inr db' \<Rightarrow> Inr (db', ())"
    from True that(1) have c: "app_call [] ?body b1 = (b2, q)"
      by (simp add: save_batch_submit_result_postgres_def Let_def)
    have "wf_requests (be_db b2)"
      by (rule app_call_keeps [OF c])
         (use that(2) in \<open>auto simp: put_submit_row_def split: sum.splits dest!: fold_upsert_requests\<close>)
    moreover have "be_store b2 = be_store b1" using app_call_store [of "[]" ?body b1] c by simp
    ultimately show ?thesis by simp
  next
    case False
    then show ?thesis using that by (auto simp: save_batch_submit_result_postgres_def split: if_splits)
  qed
  let ?b1 = "on_store (ms_save_batch_submitted u c recs) b"
  have st: "wf_store (be_store ?b1)" and rq: "wf_requests (be_db ?b1)" and rec: "wf_record_rows (be_db b)"
    using wf wf_save_batch_submitted by (simp_all add: backend_wf_def)
  have "wf_requests (be_db b') \<and> be_store b' = be_store ?b1"
    using s pg [OF _ rq] rq
    by (cases "save_batch_submit_result_postgres u tx acc st recs ?b1")
       (auto simp: save_batch_submit_result_def or_panic_def Let_def split: if_splits sum.splits)
  with st save_submit_result_wf [OF s rec] show "backend_wf b'" by (simp add: backend_wf_def)
qed

lemma keeps_save_build [keeping]: "keeps (save_batch_build bp u c wit)"
proof -
  have "keeps (save_batch_build_postgres u c wit)"
    unfolding save_batch_build_postgres_def by (rule keeps_call) (auto simp: wf_record_rows_def)
  from keepsD [OF keeps_or_panic [OF this]] show ?thesis
    by (intro keepsI) (auto simp: save_batch_build_def Let_def backend_wf_def wf_save_batch_build split: if_splits)
qed

lemma keeps_save_proof [keeping]: "keeps (save_proof_bundle st b p)"
proof -
  have "keeps (save_proof_bundle_postgres b p)"
  proof (rule keepsI)
    fix x x' r assume run: "save_proof_bundle_postgres b p x = (x', r)" and wf: "backend_wf x"
    have "keeps (app_call [] (\<lambda>db. Inr (db\<lparr>ad_proofs := (ad_proofs db)(b \<mapsto> \<lparr>pf_bundle = p, pf_status = ''ready''\<rparr>)\<rparr>, ())))"
      by (rule keeps_call) (auto simp: wf_record_rows_def)
    with run wf show "backend_wf x'"
      by (auto simp: save_proof_bundle_postgres_def split: if_splits dest: keepsD)
  qed
  from keepsD [OF keeps_or_panic [OF this]] show ?thesis
    by (intro keepsI) (auto simp: save_proof_bundle_def Let_def backend_wf_def wf_save_proof_bundle split: if_splits)
qed

lemma keeps_get_request [keeping]: "keeps (get_withdraw_request wp i)"
proof -
  have pg: "keeps (get_withdraw_request_postgres i)"
    unfolding get_withdraw_request_postgres_def by (rule keeps_read) (auto split: option.splits)
  have mem: "keeps (get_withdraw_request_memory i)"
    unfolding get_withdraw_request_memory_def by (rule keeps_pure)
  show ?thesis unfolding get_withdraw_request_def using pg mem by simp
qed

lemma keeps_list_requests [keeping]: "keeps (list_withdraw_requests wp)"
proof -
  have "keeps list_withdraw_requests_postgres"
    unfolding list_withdraw_requests_postgres_def by (rule keeps_read) auto
  from keepsD [OF keeps_or_panic [OF this]] show ?thesis
    by (intro keepsI) (auto simp: list_withdraw_requests_def split: if_splits)
qed

lemma keeps_get_record [keeping]: "keeps (get_withdraw_record wp i)"
proof -
  have pg: "keeps (get_withdraw_record_postgres i)"
    unfolding get_withdraw_record_postgres_def by (rule keeps_read) (auto split: option.splits)
  show ?thesis
  proof (rule keepsI)
    fix b b' r assume "get_withdraw_record wp i b = (b', r)" and wf: "backend_wf b"
    then show "backend_wf b'"
      using keepsD [OF pg]
      by (cases "get_withdraw_record_postgres i b")
         (auto simp: get_withdraw_record_def get_withdraw_record_memory_def split: if_splits sum.splits)
  qed
qed

lemma keeps_mark_claimed: "keeps (mark_claimed_postgres i)"
  unfolding mark_claimed_postgres_def
proof (rule keeps_call)
  fix db db' x
  assume m: "(Inr (db\<lparr>ad_records := map (\<lambda>r. if wrec_id (rr_record r) = i
      then r\<lparr>rr_record := (rr_record r)\<lparr>wrec_claimed := True\<rparr>\<rparr> else r) (ad_records db)\<rparr>, ()) :: (app_db \<times> unit) res) = Inr (db', x)"
  then show "wf_requests db \<Longrightarrow> wf_requests db'" by auto
  have "map (wrec_id \<circ> rr_record) (ad_records db') = map (wrec_id \<circ> rr_record) (ad_records db)"
    "map (wrec_nullifier \<circ> rr_record) (ad_records db') = map (wrec_nullifier \<circ> rr_record) (ad_records db)"
    using m by auto
  then show "wf_record_rows db \<Longrightarrow> wf_record_rows db'" by (simp only: wf_record_rows_def)
qed

lemma keeps_claim_record [keeping]: "keeps (claim_withdraw_record wp i)"
proof -
  have pg: "keeps (claim_withdraw_record_postgres i)"
    unfolding claim_withdraw_record_postgres_def
  proof (rule keeps_bind)
    show "keeps (get_withdraw_record_postgres i)"
      unfolding get_withdraw_record_postgres_def by (rule keeps_read) (auto split: option.splits)
    have marked: "keeps (be_bind (mark_claimed_postgres i) (\<lambda>_ b'. (b', Inr (rec\<lparr>wrec_claimed := True\<rparr>))))" for rec
      by (rule keeps_bind [OF keeps_mark_claimed keeps_pure])
    show "keeps (claim_after_read i rec)" for rec
      using keepsD [OF marked] by (intro keepsI) (auto simp: claim_after_read_def split: if_splits)
  qed
  have mem: "backend_wf b'" if "claim_withdraw_record_memory i b = (b', r)" "backend_wf b" for b b' r
    using that wf_claim by (auto simp: claim_memory backend_wf_def split: option.splits if_splits)
  show ?thesis
  proof (rule keepsI)
    fix b b' r assume run: "claim_withdraw_record wp i b = (b', r)" and wf: "backend_wf b"
    obtain b1 r1 where c: "claim_withdraw_record_postgres i b = (b1, r1)" by (metis prod.exhaust)
    have wf1: "backend_wf b1" by (rule keepsD [OF pg c wf])
    then have "backend_wf (on_store (\<lambda>s. fst (ms_claim_withdraw_record i s)) b1)"
      using wf_claim by (simp add: backend_wf_def)
    with run c wf wf1 mem show "backend_wf b'"
      by (cases r1) (auto simp: claim_withdraw_record_def split: if_splits)
  qed
qed

lemma keeps_save_deposit: "backend_wf b \<Longrightarrow> backend_wf (save_deposit r b)"
  by (simp add: backend_wf_def save_deposit_def wf_save_deposit)

text \<open>An insert keeps the rows when the id carries a number that was given.\<close>

lemma wf_requests_insert:
  assumes "wf_requests db" and "wr_id wr \<notin> (wr_id \<circ> rq_request) ` set (ad_requests db)"
    and "\<exists>k. 1 \<le> k \<and> k \<le> ad_withdraw_seq db \<and> wr_id wr = ''wd-'' @ nat_to_dec k"
  shows "wf_requests (db\<lparr>ad_requests := ad_requests db @ [\<lparr>rq_request = wr, rq_status = st, rq_created = now\<rparr>]\<rparr>)"
proof -
  have "distinct (map (wr_id \<circ> rq_request) (ad_requests db @ [\<lparr>rq_request = wr, rq_status = st, rq_created = now\<rparr>]))"
    using assms(1,2) by (simp add: wf_requests_def)
  then show ?thesis using assms(1,3) unfolding wf_requests_def by simp
qed

definition numbered :: "withdraw_request \<Rightarrow> app_db \<Rightarrow> bool" where
  "numbered wr db \<longleftrightarrow> (\<exists>k. 1 \<le> k \<and> k \<le> ad_withdraw_seq db \<and> wr_id wr = ''wd-'' @ nat_to_dec k)"

lemma insert_body_keeps:
  assumes "(if wr_id wr \<in> (wr_id \<circ> rq_request) ` set (ad_requests db)
        then Inl (ErrExternal ''duplicate key withdraw_requests_pkey'')
        else Inr (db\<lparr>ad_requests := ad_requests db
          @ [\<lparr>rq_request = wr, rq_status = ''requested'', rq_created = ad_clock db\<rparr>]\<rparr>, ())) = Inr (db', x)"
    and "wf_requests db \<and> wf_record_rows db \<and> numbered wr db"
  shows "wf_requests db' \<and> wf_record_rows db' \<and> numbered wr db'"
proof -
  have n: "wr_id wr \<notin> (wr_id \<circ> rq_request) ` set (ad_requests db)"
  proof
    assume "wr_id wr \<in> (wr_id \<circ> rq_request) ` set (ad_requests db)"
    from assms(1) [unfolded if_P [OF this]] show False by (rule sum.distinct(1) [THEN notE])
  qed
  have db': "db' = db\<lparr>ad_requests := ad_requests db @ [\<lparr>rq_request = wr, rq_status = ''requested'', rq_created = ad_clock db\<rparr>]\<rparr>"
    using assms(1) [unfolded if_not_P [OF n]] by (simp only: sum.inject prod.inject)
  from assms(2) have r: "wf_requests db" and w: "wf_record_rows db" and k: "numbered wr db" by simp_all
  have "wf_requests db'" unfolding db' by (rule wf_requests_insert [OF r n k [unfolded numbered_def]])
  moreover have "wf_record_rows db'" using w unfolding db' wf_record_rows_def by simp
  moreover have "numbered wr db'" using k unfolding db' numbered_def by simp
  ultimately show ?thesis by simp
qed

lemma insert_request_keeps:
  assumes "insert_withdraw_request_postgres wr b = (b', r)" and "backend_wf b" and "numbered wr (be_db b)"
  shows "backend_wf b'"
proof -
  let ?P = "\<lambda>db. wf_requests db \<and> wf_record_rows db \<and> numbered wr db"
  have now: "?P (be_db b)" using assms(2,3) by (simp add: backend_wf_def)
  have "?P (ad_next db)" if "?P db" for db using that by (simp add: numbered_def)
  from app_call_keeps [where P = ?P, OF assms(1) [unfolded insert_withdraw_request_postgres_def] now this insert_body_keeps]
  have "?P (be_db b')" .
  moreover have "be_store b' = be_store b"
    using arg_cong [OF assms(1), of "\<lambda>p. be_store (fst p)"]
    by (simp only: insert_withdraw_request_postgres_def app_call_store fst_conv)
  ultimately show ?thesis using assms(2) by (simp add: backend_wf_def)
qed

text \<open>A number the sequence gives counts as given from then on.\<close>

lemma next_val_cases:
  assumes "next_val b = (b', r)" and "backend_wf b"
  shows "backend_wf b' \<and> (\<forall>k. r = Inr k \<longrightarrow> 1 \<le> k \<and> k = ad_withdraw_seq (be_db b'))"
proof -
  let ?grow = "\<lambda>db. db\<lparr>ad_withdraw_seq := ad_withdraw_seq db + 1\<rparr>"
  have grow: "wf_requests (?grow db) \<and> wf_record_rows (?grow db)" if "wf_requests db" "wf_record_rows db" for db
    using that by (auto simp: wf_requests_def wf_record_rows_def intro: le_SucI)
  consider (bad) e db where "b' = b\<lparr>be_db := db\<rparr>" "r = Inl e" "wf_requests db" "wf_record_rows db"
    | (good) db where "b' = b\<lparr>be_db := ?grow db\<rparr>" "r = Inr (ad_withdraw_seq db + 1)" "wf_requests db" "wf_record_rows db"
  proof -
    have n: "wf_requests (ad_next (be_db b))" "wf_record_rows (ad_next (be_db b))" "wf_requests (be_db b)" "wf_record_rows (be_db b)"
      using assms(2) by (simp_all add: backend_wf_def)
    show thesis
      using assms(1) bad [OF _ _ n(1,2)] bad [of "be_db b", OF _ _ n(3,4)] good [OF _ _ n(1,2)]
      by (auto simp: next_val_def app_call_def Let_def split: if_splits list.splits option.splits sum.splits)
  qed
  then show ?thesis
  proof cases
    case bad then show ?thesis using assms(2) by (simp add: backend_wf_def)
  next
    case good then show ?thesis using assms(2) grow [OF good(3,4)] by (simp add: backend_wf_def)
  qed
qed

lemma numbered_same_seq: "ad_withdraw_seq db' = ad_withdraw_seq db \<Longrightarrow> numbered wr db' = numbered wr db"
  by (simp add: numbered_def)

lemma next_id_cases:
  assumes "next_withdraw_id wp b = (b', r)" and "backend_wf b"
  shows "backend_wf b' \<and> (\<forall>i wr. r = Inr i \<longrightarrow> requests_in_postgres wp \<longrightarrow> wr_id wr = i \<longrightarrow> numbered wr (be_db b'))"
proof (cases "requests_in_postgres wp")
  case True
  then obtain q where v: "next_val b = (b', q)" and r: "\<And>i. r = Inr i \<Longrightarrow> \<exists>k. q = Inr k \<and> i = ''wd-'' @ nat_to_dec k"
    using assms(1) by (auto simp: next_withdraw_id_def be_bind_def split: prod.splits sum.splits)
  from next_val_cases [OF v assms(2)]
  have wf: "backend_wf b'" and q: "\<And>k. q = Inr k \<Longrightarrow> 1 \<le> k \<and> k \<le> ad_withdraw_seq (be_db b')" by simp_all
  have "numbered wr (be_db b')" if "r = Inr i" "wr_id wr = i" for i wr
    using r [OF that(1)] q that(2) unfolding numbered_def by blast
  with wf show ?thesis by blast
next
  case False
  with assms wf_next_sequence [of "be_store b"] show ?thesis
    by (cases "ms_next_withdraw_sequence (be_store b)") (auto simp: next_withdraw_id_def backend_wf_def)
qed

lemma save_request_keeps:
  assumes "save_withdraw_request wp req b = (b', r)" and "backend_wf b"
    and "requests_in_postgres wp \<Longrightarrow> numbered req (be_db b)"
  shows "backend_wf b'"
proof -
  let ?req = "if wr_signature req = [] then req\<lparr>wr_signature := local_withdraw_signature
    [wr_owner req, wr_denom req, wr_amount req, wr_destination req, wr_nonce req]\<rparr> else req"
  have i: "wr_id ?req = wr_id req" by simp
  show ?thesis
  proof (cases "requests_in_postgres wp")
    case True
    then have "numbered ?req (be_db b)" using assms(3) unfolding numbered_def i by blast
    moreover from True assms(1) obtain q where "insert_withdraw_request_postgres ?req b = (b', q)"
      by (cases "insert_withdraw_request_postgres ?req b")
         (auto simp only: save_withdraw_request_def Let_def be_bind_def if_True split_conv sum.case prod.inject split: sum.splits)
    ultimately show ?thesis using insert_request_keeps assms(2) by blast
  next
    case False
    then have "b' = on_store (ms_save_withdraw_request ?req) b"
      using assms(1) by (simp only: save_withdraw_request_def Let_def if_False prod.inject)
    then show ?thesis using assms(2) by (simp only:) (simp add: backend_wf_def wf_save_withdraw_request)
  qed
qed

lemma create_postgres_keeps:
  assumes "create_withdraw_request_postgres req b = (b', r)" and "backend_wf b"
  shows "backend_wf b'"
proof -
  obtain b1 q where v: "next_val b = (b1, q)" by (metis prod.exhaust)
  note 1 = next_val_cases [OF v assms(2)]
  show ?thesis
  proof (cases q)
    case (Inl e)
    with assms(1) v 1 show ?thesis by (simp add: create_withdraw_request_postgres_def be_bind_def)
  next
    case (Inr k)
    let ?wr = "signed_request (''wd-'' @ nat_to_dec k) req (nat_to_dec k)"
    from Inr 1 have "1 \<le> k" "k \<le> ad_withdraw_seq (be_db b1)" by simp_all
    moreover have "wr_id ?wr = ''wd-'' @ nat_to_dec k" by (simp add: signed_request_def)
    ultimately have n: "numbered ?wr (be_db b1)" unfolding numbered_def by blast
    obtain b2 q2 where w: "insert_withdraw_request_postgres ?wr b1 = (b2, q2)" by (metis prod.exhaust)
    have "backend_wf b2" by (rule insert_request_keeps [OF w _ n]) (use 1 in blast)
    moreover have "b' = b2"
      using assms(1) unfolding create_withdraw_request_postgres_def be_bind_def Let_def v Inr split_conv sum.case w
      by (cases q2) simp_all
    ultimately show ?thesis by simp
  qed
qed

lemma keeps_create_request [keeping]: "keeps (create_withdraw_request wp req)"
proof -
  have pg: "keeps (create_withdraw_request_postgres req)" by (rule keepsI) (rule create_postgres_keeps)
  have "keeps (create_withdraw_request_memory req)"
  proof (rule keepsI)
    fix b b' r assume "create_withdraw_request_memory req b = (b', r)" and wf: "backend_wf b"
    with wf_next_sequence [of "be_store b"] show "backend_wf b'"
      by (cases "ms_next_withdraw_sequence (be_store b)")
         (auto simp: create_withdraw_request_memory_def Let_def backend_wf_def wf_save_withdraw_request)
  qed
  then show ?thesis using keeps_or_panic [OF pg] by (simp add: create_withdraw_request_def)
qed

subsection \<open>The services\<close>

lemma app_keeps_refused [keeping]: "app_keeps (\<lambda>a. (f a, r a))" if "\<And>a. ap_backend (f a) = ap_backend a" for f r
  using that by (simp add: app_keeps_def)

lemma app_keeps_if [keeping]: "app_keeps m \<Longrightarrow> app_keeps m' \<Longrightarrow> app_keeps (\<lambda>a. if c a then m a else m' a)"
  by (simp add: app_keeps_def)

lemma app_keeps_frame:
  assumes "app_keeps m" and "\<And>a. ap_backend (f a) = ap_backend a"
  shows "app_keeps (\<lambda>a. m (f a))"
  using assms by (simp add: app_keeps_def)

lemma app_keeps_create_withdraw [keeping]: "app_keeps (create_withdraw_service wg now body)"
proof (rule app_keepsI)
  fix a a' r assume run: "create_withdraw_service wg now body a = (a', r)" and wf: "backend_wf (ap_backend a)"
  show "backend_wf (ap_backend a')"
  proof (cases "wg_enabled wg")
    case False
    with run have "on_backend (create_withdraw_request (wg_withdraw_repo wg) body) a = (a', r)"
      by (simp add: create_withdraw_service_def)
    then show ?thesis by (rule app_keepsD [OF app_keeps_backend [OF keeps_create_request] _ wf])
  next
    case True
    show ?thesis
    proof (cases "wg_has_offchain wg")
      case False
      with True run wf show ?thesis by (simp add: create_withdraw_service_def)
    next
      case has: True
      obtain b1 q where n: "next_withdraw_id (wg_withdraw_repo wg) (ap_backend a) = (b1, q)" by (metis prod.exhaust)
      have wf1: "backend_wf b1" using next_id_cases [OF n wf] by blast
      show ?thesis
      proof (cases q)
        case (Inl e)
        with True has run n wf1 show ?thesis by (auto simp: create_withdraw_service_def ap_bind_def on_backend_def)
      next
        case (Inr i)
        let ?a1 = "a\<lparr>ap_backend := b1\<rparr>"
        have rest: "create_withdraw_service wg now body a = (case service_build_withdraw_request (ap_service a) body i of
            Inl e \<Rightarrow> (?a1, Inl e)
          | Inr req \<Rightarrow> ap_bind (on_service (service_apply_withdraw_request now req withdraw_default_user_secret))
              (\<lambda>_. on_backend (save_withdraw_request (wg_withdraw_repo wg) req)) ?a1)"
          using True has n Inr by (simp add: create_withdraw_service_def ap_bind_def [of "on_backend _"] on_backend_def)
        show ?thesis
        proof (cases "service_build_withdraw_request (ap_service a) body i")
          case (Inl e)
          with rest run wf1 show ?thesis by auto
        next
          case build: (Inr req)
          then have "wr_id req = i" by (auto elim: service_build_Inr)
          then have num: "requests_in_postgres (wg_withdraw_repo wg) \<Longrightarrow> numbered req (be_db b1)"
            using next_id_cases [OF n wf] Inr by blast
          obtain s u where ap: "service_apply_withdraw_request now req withdraw_default_user_secret (ap_service a) = (s, u)"
            by (metis prod.exhaust)
          obtain b2 v where sv: "save_withdraw_request (wg_withdraw_repo wg) req b1 = (b2, v)" by (metis prod.exhaust)
          have "backend_wf b2" by (rule save_request_keeps [OF sv wf1 num])
          with rest build run ap sv wf1 show ?thesis
            by (cases u) (auto simp: ap_bind_def on_service_def on_backend_def)
        qed
      qed
    qed
  qed
qed

lemma app_keeps_list_withdraws [keeping]: "app_keeps (list_withdraw_service wg)"
  unfolding list_withdraw_service_def by (intro keeping)

lemma app_keeps_get_withdraw [keeping]: "app_keeps (get_withdraw_service wg i)"
  unfolding get_withdraw_service_def by (intro keeping)

lemma app_keeps_claim [keeping]: "app_keeps (claim_withdraw_service wg i)"
  unfolding claim_withdraw_service_def by (intro keeping)

lemma app_keeps_apply_indexed [keeping]:
  fixes wg :: "'w wiring"
  shows "app_keeps (apply_indexed wg now r)"
proof -
  have "app_keeps (ap_bind (on_service (service_apply_indexed_deposit now r)) (\<lambda>_ a'. (a', Inr ())) :: ('w, unit) app_op)"
    by (intro keeping)
  then show ?thesis unfolding app_keeps_def apply_indexed_def by simp
qed

lemma app_keeps_index [keeping]: "app_keeps (index_deposit_from_tx wg now tx)"
proof (rule app_keepsI)
  fix a a' r assume run: "index_deposit_from_tx wg now tx a = (a', r)" and wf: "backend_wf (ap_backend a)"
  have apply_keeps: "app_keeps (ap_bind (apply_indexed wg now d) (\<lambda>_ a'. (a', Inr d)))" for d by (intro keeping)
  have "backend_wf (ap_backend (a\<lparr>ap_backend := save_deposit d (ap_backend a)\<rparr>))" for d
    using wf by (simp add: keeps_save_deposit)
  with run wf show "backend_wf (ap_backend a')"
    using app_keepsD [OF apply_keeps]
    by (fastforce simp: index_deposit_from_tx_def split: option.splits sum.splits)
qed

lemma app_keeps_create_deposit [keeping]: "app_keeps (create_deposit wg now req)"
  unfolding create_deposit_def by (intro keeping)

lemma app_keeps_poll [keeping]: "app_keeps (poll_txs wg now txs n)"
proof (induction txs arbitrary: now n)
  case Nil
  then show ?case by (simp add: app_keeps_def)
next
  case (Cons tx txs)
  show ?case
  proof (rule app_keepsI)
    fix a a' r assume run: "poll_txs wg now (tx # txs) n a = (a', r)" and wf: "backend_wf (ap_backend a)"
    obtain a1 q where i: "index_deposit_from_tx wg now tx a = (a1, q)" by (metis prod.exhaust)
    have wf1: "backend_wf (ap_backend a1)" by (rule app_keepsD [OF app_keeps_index i wf])
    have rest: "poll_txs wg (now + 1) txs m a1 = (a', r) \<Longrightarrow> backend_wf (ap_backend a')" for m
      by (rule app_keepsD [OF Cons.IH _ wf1])
    from run i wf1 rest show "backend_wf (ap_backend a')"
      by (auto split: sum.splits go_error.splits)
  qed
qed

lemma app_keeps_requests: "app_keeps (load_requests wg is)"
proof (induction "is")
  case Nil
  then show ?case by (simp add: app_keeps_def)
next
  case (Cons i "is")
  have bind: "app_keeps (ap_bind (load_requests wg is) (\<lambda>rs a2. (a2, Inr (r # rs))))" for r
    by (intro keeping Cons.IH)
  show ?case
  proof (rule app_keepsI)
    fix a a' q assume run: "load_requests wg (i # is) a = (a', q)" and wf: "backend_wf (ap_backend a)"
    obtain a1 r where g: "on_backend (get_withdraw_request (wg_withdraw_repo wg) i) a = (a1, r)" by (metis prod.exhaust)
    have "backend_wf (ap_backend a1)" by (rule app_keepsD [OF app_keeps_backend [OF keeps_get_request] g wf])
    with run g app_keepsD [OF bind] show "backend_wf (ap_backend a')" by (cases r) auto
  qed
qed

lemma app_keeps_save_build [keeping]: "app_keeps (save_build wg out)"
  unfolding save_build_def by (intro keeping)

lemma app_keeps_manual [keeping]: "app_keeps (build_manual_batch wg req)"
proof (rule app_keepsI)
  fix a a' r assume run: "build_manual_batch wg req a = (a', r)" and wf: "backend_wf (ap_backend a)"
  let ?build = "\<lambda>deposits requests a1.
     case wg_builder wg (sv_manager (ap_service a1)) (ap_build_seq a1) None
            \<lparr>bi_old_root = ''0xrootA'', bi_deposits = deposits, bi_requests = requests, bi_secrets = []\<rparr> of
       (seq, Inl e) \<Rightarrow> (a1\<lparr>ap_build_seq := seq\<rparr>, Inl (normalize_manual_batch_build_error e))
     | (seq, Inr out) \<Rightarrow> save_build wg out (a1\<lparr>ap_build_seq := seq\<rparr>)"
  have build: "app_keeps (?build deposits requests)" for deposits requests
  proof (rule app_keepsI)
    fix a a' r assume b: "?build deposits requests a = (a', r)" and wf: "backend_wf (ap_backend a)"
    obtain seq q where q: "wg_builder wg (sv_manager (ap_service a)) (ap_build_seq a) None
        \<lparr>bi_old_root = ''0xrootA'', bi_deposits = deposits, bi_requests = requests, bi_secrets = []\<rparr> = (seq, q)"
      by (metis prod.exhaust)
    show "backend_wf (ap_backend a')"
    proof (cases q)
      case (Inl e)
      with b q wf show ?thesis by auto
    next
      case (Inr out)
      with b q have "save_build wg out (a\<lparr>ap_build_seq := seq\<rparr>) = (a', r)" by simp
      then show ?thesis by (rule app_keepsD [OF app_keeps_save_build]) (simp add: wf)
    qed
  qed
  have step: "app_keeps (ap_bind (load_requests wg (bb_withdraw_ids req)) (?build ds))" for ds
    by (rule app_keeps_bind [OF app_keeps_requests build])
  show "backend_wf (ap_backend a')"
  proof (cases "bb_deposit_ids req = [] \<and> bb_withdraw_ids req = []")
    case True
    with run wf show ?thesis by (simp add: build_manual_batch_def)
  next
    case False
    then show ?thesis
      using run wf app_keepsD [OF step]
      by (cases "load_deposits wg (bb_deposit_ids req) a") (auto simp: build_manual_batch_def)
  qed
qed

lemma app_keeps_pending [keeping]: "app_keeps (service_build_pending wg)"
proof -
  have "app_keeps (ap_bind (on_service (build_pending_batch [])) (save_build wg))" by (intro keeping)
  then show ?thesis by (simp add: app_keeps_def service_build_pending_def)
qed

lemma app_keeps_build [keeping]: "app_keeps (build_batch wg req)"
  by (simp add: build_batch_def app_keeps_pending app_keeps_manual)

lemma app_keeps_artifact [keeping]: "app_keeps (check_artifact wg p)"
  unfolding app_keeps_def check_artifact_def ap_bind_def on_env_def by (auto split: option.split prod.split sum.split)

lemma app_keeps_prove [keeping]: "app_keeps (generate_proof wg u c wit)"
  unfolding generate_proof_def by (intro keeping)

lemma rollback_backend [simp]: "ap_backend (rollback_state_to_baseline wg a) = ap_backend a"
  by (simp add: rollback_state_to_baseline_def split: option.split)

lemma commit_backend [simp]: "ap_backend (commit_state_baseline wg a) = ap_backend a"
  by (simp add: commit_state_baseline_def)

lemma app_keeps_check_proof [keeping]: "app_keeps (check_proof wg req)"
  unfolding app_keeps_def check_proof_def by (auto split: option.split prod.split)

lemma app_keeps_relay [keeping]: "app_keeps (relay_batch wg req)"
  unfolding app_keeps_def relay_batch_def by (auto split: option.split prod.split)

lemma app_keeps_settle_log [keeping]: "app_keeps (settle_log wg req res)"
  by (simp add: settle_log_def app_keeps_service app_keeps_pure)

lemma app_keeps_submit [keeping]: "app_keeps (submit_batch wg req)"
  unfolding submit_batch_def by (intro keeping)

lemma reopen_backend: "ap_backend (reopen rec batch reason a) = ap_backend a"
  by (simp add: reopen_def on_service_def split: prod.split)

lemma reopen_panic_backend: "ap_backend (reopen_unless_panic rec batch reason e a) = ap_backend a"
  by (simp add: reopen_unless_panic_def reopen_backend)

lemma app_keeps_settle [keeping]: "app_keeps (settle_once wg rec)"
proof (rule app_keepsI)
  fix a a' r assume run: "settle_once wg rec a = (a', r)" and wf: "backend_wf (ap_backend a)"
  obtain a1 b where b: "build_batch wg \<lparr>bb_deposit_ids = [], bb_withdraw_ids = []\<rparr> a = (a1, b)" by (metis prod.exhaust)
  have wf1: "backend_wf (ap_backend a1)" by (rule app_keepsD [OF app_keeps_build b wf])
  show "backend_wf (ap_backend a')"
  proof (cases b)
    case (Inl e)
    with run b wf1 show ?thesis by (simp add: settle_once_def)
  next
    case (Inr built)
    obtain a2 p where p: "generate_proof wg (bbr_update built) (bbr_commitments built) (bbr_witness built) a1 = (a2, p)"
      by (metis prod.exhaust)
    have wf2: "backend_wf (ap_backend a2)" by (rule app_keepsD [OF app_keeps_prove p wf1])
    show ?thesis
    proof (cases p)
      case (Inl e)
      with run b Inr p have "a' = reopen_unless_panic rec (su_batch_id (bbr_update built)) ''prove failed'' e a2"
        by (simp add: settle_once_def Let_def)
      with wf2 show ?thesis by (simp add: reopen_panic_backend)
    next
      case proof_ok: (Inr pf)
      obtain a3 q where q: "submit_batch wg \<lparr>sb_update = bbr_update built, sb_commitments = bbr_commitments built,
          sb_proof = pf\<rparr> a2 = (a3, q)" by (metis prod.exhaust)
      have wf3: "backend_wf (ap_backend a3)" by (rule app_keepsD [OF app_keeps_submit q wf2])
      have "ap_backend a' = ap_backend a3"
        using run b Inr p proof_ok q
        by (cases q) (auto simp: settle_once_def Let_def reopen_backend reopen_panic_backend split: if_splits)
      with wf3 show ?thesis by simp
    qed
  qed
qed

subsection \<open>The server\<close>

text \<open>
  One request, one poll or one pass of the sequencer at a time, in any order and with any arguments; the
  outside systems answer as they like, and a request that fails, or panics, leaves what it has written.
\<close>

inductive serve :: "'w wiring \<Rightarrow> 'w app \<Rightarrow> 'w app \<Rightarrow> bool" for wg where
  serve_deposit: "create_deposit wg now req a = (a', r) \<Longrightarrow> serve wg a a'"
| serve_poll: "poll_once wg now fetched cursor a = ((a', c), r) \<Longrightarrow> serve wg a a'"
| serve_withdraw: "create_withdraw_service wg now body a = (a', r) \<Longrightarrow> serve wg a a'"
| serve_get: "get_withdraw_service wg i a = (a', r) \<Longrightarrow> serve wg a a'"
| serve_list: "list_withdraw_service wg a = (a', r) \<Longrightarrow> serve wg a a'"
| serve_claim: "claim_withdraw_service wg i a = (a', r) \<Longrightarrow> serve wg a a'"
| serve_build: "build_batch wg breq a = (a', r) \<Longrightarrow> serve wg a a'"
| serve_prove: "generate_proof wg u com wit a = (a', r) \<Longrightarrow> serve wg a a'"
| serve_submit: "submit_batch wg sreq a = (a', r) \<Longrightarrow> serve wg a a'"
| serve_settle: "settle_once wg rec a = (a', r) \<Longrightarrow> serve wg a a'"
| serve_cancel: "on_service (cancel_included_batch batch reason) a = (a', r) \<Longrightarrow> serve wg a a'"
| serve_outside: "serve wg a (a\<lparr>ap_env := w\<rparr>)"

inductive_cases serveE: "serve wg a a'"

inductive reached :: "'w wiring \<Rightarrow> 'w app \<Rightarrow> 'w app \<Rightarrow> bool" for wg a0 where
  reached_start: "reached wg a0 a0"
| reached_step: "reached wg a0 a \<Longrightarrow> serve wg a a' \<Longrightarrow> reached wg a0 a'"

lemma poll_once_app: "poll_once wg now fetched cursor a = ((a', c), r) \<Longrightarrow>
    a' = a \<or> (\<exists>txs q. poll_txs wg now txs 0 a = (a', q))"
  by (auto simp: poll_once_def split: sum.splits prod.splits)

lemma serve_keeps:
  assumes "serve wg a a'" and wf: "backend_wf (ap_backend a)"
  shows "backend_wf (ap_backend a')"
  using assms(1)
proof cases
  case (serve_deposit now req r)
  show ?thesis by (rule app_keepsD [OF app_keeps_create_deposit serve_deposit wf])
next
  case (serve_poll now fetched cursor c r)
  from poll_once_app [OF serve_poll] wf show ?thesis using app_keepsD [OF app_keeps_poll] by blast
next
  case (serve_withdraw now body r)
  show ?thesis by (rule app_keepsD [OF app_keeps_create_withdraw serve_withdraw wf])
next
  case (serve_get i r)
  show ?thesis by (rule app_keepsD [OF app_keeps_get_withdraw serve_get wf])
next
  case (serve_list r)
  show ?thesis by (rule app_keepsD [OF app_keeps_list_withdraws serve_list wf])
next
  case (serve_claim i r)
  show ?thesis by (rule app_keepsD [OF app_keeps_claim serve_claim wf])
next
  case (serve_build breq r)
  show ?thesis by (rule app_keepsD [OF app_keeps_build serve_build wf])
next
  case (serve_prove u com wit r)
  show ?thesis by (rule app_keepsD [OF app_keeps_prove serve_prove wf])
next
  case (serve_submit sreq r)
  show ?thesis by (rule app_keepsD [OF app_keeps_submit serve_submit wf])
next
  case (serve_settle rec r)
  show ?thesis by (rule app_keepsD [OF app_keeps_settle serve_settle wf])
next
  case (serve_cancel batch reason r)
  from on_service_frame [OF serve_cancel] wf show ?thesis by simp
next
  case (serve_outside w)
  with wf show ?thesis by simp
qed

lemma reached_keeps: "reached wg a0 a \<Longrightarrow> backend_wf (ap_backend a0) \<Longrightarrow> backend_wf (ap_backend a)"
  by (induction rule: reached.induct) (auto intro: serve_keeps)

definition fresh_tables :: "backend \<Rightarrow> bool" where
  "fresh_tables b \<longleftrightarrow> be_store b = new_memory_store \<and> ad_requests (be_db b) = [] \<and> ad_records (be_db b) = []"

lemma fresh_tables_wf: "fresh_tables b \<Longrightarrow> backend_wf b"
  by (simp add: fresh_tables_def backend_wf_def wf_requests_def wf_record_rows_def)

end
