(* ===== verification/App_Scenario.thy ===== *)
theory App_Scenario
  imports Alice_Scenario Sequencer_Laws Submit_Laws Backend_Invariant
begin

text \<open>
  The wired system on the scenario of Alice: the local prover, relayer and chain, tables in memory. The
  environment is the counter of the local chain. The properties of the services use it as their
  concrete input.
\<close>

definition alice_wiring :: "64 word wiring" where
  "alice_wiring = \<lparr>wg_has_offchain = True, wg_enabled = True, wg_build_source = source_pending,
     wg_batch_repo = new_batch_repository, wg_deposit_repo = new_deposit_repository,
     wg_withdraw_repo = new_withdraw_repository, wg_proof_store = store_memory, wg_builder = snapshot_build,
     wg_rollback = False, wg_verifier = None, wg_expected_vk = [], wg_prover = local_prover,
     wg_relayer = local_relayer, wg_chain = local_chain_deposit 12345\<rparr>"

definition fresh_backend :: backend where
  "fresh_backend = \<lparr>be_store = new_memory_store,
     be_db = \<lparr>ad_pool = False, ad_faults = [], ad_collation = (\<lambda>_. []), ad_clock = 0, ad_withdraw_seq = 0,
       ad_requests = [], ad_records = [], ad_builds = Map.empty, ad_proofs = Map.empty, ad_submits = Map.empty\<rparr>\<rparr>"

definition app_on :: "service \<Rightarrow> 64 word app" where
  "app_on sv = \<lparr>ap_backend = fresh_backend, ap_service = sv, ap_baseline = None, ap_build_seq = 0, ap_env = 1\<rparr>"

lemma app_on_facts [simp]: "ap_service (app_on sv) = sv" "ap_backend (app_on sv) = fresh_backend"
  by (simp_all add: app_on_def)

lemma fresh_backend_tables [simp]: "fresh_tables fresh_backend"
  by (simp add: fresh_tables_def fresh_backend_def)

lemma alice_in_process [simp]: "in_process alice_wiring" "wg_build_source alice_wiring = source_pending"
  by (simp_all add: in_process_def alice_wiring_def new_batch_repository_def store_memory_def store_postgres_def)

lemma alice_local_loop [simp]: "local_loop alice_wiring"
  by (simp add: local_loop_def) (simp add: alice_wiring_def)

lemma alice_withdraw_ready [simp]: "withdraw_ready alice_wiring"
  by (simp add: withdraw_ready_def alice_wiring_def requests_in_postgres_def new_withdraw_repository_def
      store_memory_def store_postgres_def)

lemma alice_drainable:
  assumes "clean_move alice_denom (LogDeposit mv)"
  shows "drainable [LogDeposit mv]" and "buildable alice_denom Map.empty (flight_prefix [LogDeposit mv])"
  using assms by (auto simp: drainable_def buildable_def)

text \<open>The same system with a prover that does not answer.\<close>

definition down_wiring :: "64 word wiring" where
  "down_wiring = alice_wiring\<lparr>wg_prover := \<lparr>pc_generate = (\<lambda>u c wit w. (w, Inl (ErrText ''prover down''))), pc_artifact = None\<rparr>\<rparr>"

lemma down_facts [simp]: "in_process down_wiring" "\<not> wg_rollback down_wiring" "wg_relayer down_wiring = local_relayer"
  by (simp_all add: down_wiring_def in_process_def alice_wiring_def new_batch_repository_def store_memory_def store_postgres_def)

lemma down_pass:
  assumes "loop_inv sv s0 None ms" and "ms \<noteq> []" and "roots_distinct s0 ms" and "buildable den Map.empty (flight_prefix ms)"
  obtains a' where "settle_once down_wiring True (app_on sv) = (a', Inl (ErrText ''prover down''))"
proof -
  have sec: "index_account_secrets [] = Inr Map.empty" by (simp add: index_account_secrets_def)
  from loop_build [OF assms sec] obtain s' out where b: "build_pending_batch [] (ap_service (app_on sv)) = (s', Inr out)"
    by auto
  from build_stage_ok [OF down_facts(1) b] obtain a1 where
    a1: "build_batch down_wiring \<lparr>bb_deposit_ids = [], bb_withdraw_ids = []\<rparr> (app_on sv) = (a1, Inr \<lparr>bbr_update = bo_update out,
        bbr_commitments = bo_commitments out, bbr_witness = bo_witness out, bbr_state = built_state\<rparr>)" by blast
  have "generate_proof down_wiring u c w a1 = (a1, Inl (ErrText ''prover down''))" for u c w
    by (simp add: generate_proof_def down_wiring_def ap_bind_def on_env_def)
  with a1 that show ?thesis by (simp add: settle_once_def Let_def reopen_unless_panic_def is_panic_def)
qed

text \<open>A system that builds by hand on a snapshot, with a rollback baseline and a verifier.\<close>

definition gated_wiring :: "64 word wiring" where
  "gated_wiring = alice_wiring\<lparr>wg_build_source := source_manual, wg_rollback := True,
     wg_verifier := Some (\<lambda>req w. (w, None)), wg_expected_vk := ''vk-1''\<rparr>"

text \<open>A batch with one withdrawal, by hand.\<close>

definition hand_update :: settlement_update where
  "hand_update = \<lparr>su_batch_id = ''batch-1'', su_old_root = ''0xaa'', su_new_root = ''0xbb'', su_deposits = [],
     su_withdrawals = [\<lparr>sw_id = ''wd-1'', sw_owner = alice_owner, sw_denom = alice_denom, sw_amount = ''40'',
       sw_destination = alice_owner, sw_destination_hash = ''0xcc'', sw_nullifier = ''0xdd''\<rparr>]\<rparr>"

definition hand_request :: "proof_bundle \<Rightarrow> submit_batch_body" where
  "hand_request p = \<lparr>sb_update = hand_update, sb_commitments = build_commitments hand_update, sb_proof = p\<rparr>"

definition other_proof :: proof_bundle where
  "other_proof = \<lparr>pb_proof = ''p'', pb_public_inputs = [], pb_vk_id = ''vk-2''\<rparr>"

lemma other_guard: "guard_proof_contract (wg_expected_vk gated_wiring) (hand_request other_proof) \<noteq> None"
  by (simp add: guard_None gated_wiring_def hand_request_def other_proof_def trim_space_ends_eval plain_char_def)

lemma hand_submit:
  obtains p res where "local_submit_batch (hand_request p) = Inr res"
proof -
  let ?w = "\<lparr>wit_accounts = [\<lparr>wa_owner = alice_owner, wa_user_secret = [], wa_nonce = ''1'',
    wa_old_balance = ''100'', wa_new_balance = ''60''\<rparr>], wit_state_path = []\<rparr>"
  have roots: "su_old_root hand_update \<noteq> []" "su_new_root hand_update \<noteq> []" by (simp_all add: hand_update_def)
  have accs: "wit_accounts ?w \<noteq> []" by simp
  obtain p where p: "local_generate_proof hand_update (build_commitments hand_update) ?w = Inr p"
    by (rule local_generate_total [OF roots accs refl])
  have "su_batch_id hand_update \<noteq> []" by (simp add: hand_update_def)
  from local_chain [OF p this] that show ?thesis by (auto simp: hand_request_def)
qed

definition memory_wiring :: "64 word wiring" where
  "memory_wiring = alice_wiring\<lparr>wg_build_source := source_manual\<rparr>"

lemma memory_wiring_mode [simp]: "memory_mode memory_wiring"
  by (simp add: memory_mode_def memory_wiring_def alice_wiring_def new_batch_repository_def new_withdraw_repository_def
      store_memory_def store_postgres_def source_manual_def source_pending_def records_in_postgres_def)

text \<open>The transaction of Alice's deposit, as the chain reports it.\<close>

definition alice_tx :: tx_result where
  "alice_tx = \<lparr>txr_hash = dep_tx_hash alice_deposit, txr_height = 12345,
     txr_events = [\<lparr>ev_type = ''message'', ev_attrs = Map.empty\<rparr>,
       \<lparr>ev_type = type_deposit, ev_attrs = [''depositId'' \<mapsto> ''dep-1'', ''creator'' \<mapsto> alice_owner,
          ''denom'' \<mapsto> alice_denom, ''amount'' \<mapsto> ''100'']\<rparr>]\<rparr>"

lemma alice_event:
  obtains ev where "find (\<lambda>ev. ev_type ev = type_deposit) (txr_events alice_tx) = Some ev"
    and "deposit_record_from_event alice_tx ev = Inr alice_deposit"
  by (simp add: alice_tx_def type_deposit_def deposit_record_from_event_def Let_def)
     (simp add: alice_deposit_def)

lemma alice_indexed:
  obtains a1 where "index_deposit_from_tx alice_wiring now alice_tx (app_on alice_service) = (a1, Inr alice_deposit)"
    and "ap_backend a1 = save_deposit alice_deposit fresh_backend"
proof -
  obtain ev where ev: "find (\<lambda>ev. ev_type ev = type_deposit) (txr_events alice_tx) = Some ev"
    "deposit_record_from_event alice_tx ev = Inr alice_deposit" by (rule alice_event)
  obtain s where "apply_deposit genesis alice_deposit = Inr (s, ls_root s)" by (rule genesis_deposit)
  with loop_deposit [OF alice_service_inv, of alice_deposit s "ls_root s" now] obtain sv t where
    sv: "service_apply_indexed_deposit now alice_deposit (ap_service (app_on alice_service)) = (sv, Inr t)" by auto
  have wg: "wg_enabled alice_wiring" "wg_has_offchain alice_wiring" by (simp_all add: alice_wiring_def)
  from index_steps [OF ev wg sv] that show ?thesis by simp
qed

lemma forty [simp]: "parse_int64_or_zero ''40'' = 40" "parse_int64_or_zero ''100'' = 100"
  by (simp_all add: parse_int64_or_zero_def parse_int64_def set_string10_def unsigned10_def digit_val_def)

text \<open>A body that asks for 40 of an account's 100.\<close>

definition forty_of :: "string \<Rightarrow> withdraw_request_body" where
  "forty_of who = \<lparr>wb_owner = who, wb_denom = alice_denom, wb_amount = ''40'', wb_destination = who\<rparr>"

lemma forty_fields [simp]:
  "wb_owner (forty_of who) = who" "wb_denom (forty_of who) = alice_denom" "wb_amount (forty_of who) = ''40''"
  "wb_destination (forty_of who) = who"
  by (simp_all add: forty_of_def)

lemma forty_trim [simp]: "trim_space ''40'' = ''40''"
  by (simp add: trim_space_ends_eval plain_char_def)

lemma forty_intent [simp]: "trim_space who = who \<Longrightarrow> who \<noteq> [] \<Longrightarrow> intent_ok (intent_of (forty_of who))"
  by (simp add: intent_ok_def intent_of_def)

lemma forty_build:
  assumes "wf_local (mg_ls (sv_manager sv))" and "local_ledger (mg_ls (sv_manager sv)) (who, alice_denom) = Some (100, n)"
    and "trim_space who = who" and "who \<noteq> []"
  obtains r where "service_build_withdraw_request sv (forty_of who) j = Inr r" and "wr_nonce r = nat_to_dec (n + 1)"
  using assms(2-4) service_build_spec [OF assms(1), of "forty_of who" j] by (simp add: bal_of_def nonce_of_def)

text \<open>Alice asks first; Bob's account is untouched.\<close>

lemma alice_forty_of_two:
  assumes l: "loop_inv sv genesis None ms" and m: "mirror_of (mg_ls (sv_manager sv)) = two_accounts"
  shows "\<exists>a1 r w. create_withdraw_service alice_wiring 0 (forty_of alice_owner) (app_on sv) = (a1, Inr r)
    \<and> wr_nonce r = nat_to_dec 1 \<and> loop_inv (ap_service a1) genesis None (ms @ [LogWithdraw w])
    \<and> local_ledger (mg_ls (sv_manager (ap_service a1))) (bob_owner, alice_denom) = Some (100, 0)
    \<and> unused_withdraw_id (ap_service (app_on sv)) (next_memory_id (app_on sv))"
proof -
  have inv: "loop_inv (ap_service (app_on sv)) genesis None ms" using l by simp
  have led: "local_ledger (mg_ls (sv_manager sv)) = mi_ledger two_accounts" and none: "ls_nullifiers (mg_ls (sv_manager sv)) = {}"
    using arg_cong [OF m, of mi_ledger] arg_cong [OF m, of mi_nullifiers] by (simp_all add: mirror_of_def two_accounts_def)
  have fresh: "unused_withdraw_id (ap_service (app_on sv)) (next_memory_id (app_on sv))"
    using no_nullifiers_unused [OF l none] by simp
  have wf: "wf_local (mg_ls (sv_manager (ap_service (app_on sv))))" using loop_inv_manager [OF inv] by simp
  have "local_ledger (mg_ls (sv_manager (ap_service (app_on sv)))) (alice_owner, alice_denom) = Some (100, 0)"
    by (simp add: led two_accounts_def)
  then obtain req where req: "service_build_withdraw_request (ap_service (app_on sv)) (forty_of alice_owner)
      (next_memory_id (app_on sv)) = Inr req" "wr_nonce req = nat_to_dec (0 + 1)" and own: "wr_owner req = alice_owner"
    using service_build_spec [OF wf, of "forty_of alice_owner"] by (simp add: bal_of_def nonce_of_def)
  from create_withdraw_outcomes [OF alice_withdraw_ready inv fresh, of 0 "forty_of alice_owner", unfolded req(1) sum.case] none
  obtain a1 nf w where a1: "create_withdraw_service alice_wiring 0 (forty_of alice_owner) (app_on sv) = (a1, Inr (signed req))"
    "loop_inv (ap_service a1) genesis None (ms @ [LogWithdraw w])"
    and d: "mirror_of (mg_ls (sv_manager (ap_service a1))) = mirror_debited (mirror_of (mg_ls (sv_manager sv))) req nf" by auto
  have "local_ledger (mg_ls (sv_manager (ap_service a1))) (bob_owner, alice_denom) = Some (100, 0)"
    using arg_cong [OF d, of mi_ledger] by (simp add: mirror_of_def mirror_debited_def ledger_debit_def own led two_accounts_def)
  moreover have "wr_nonce (signed req) = nat_to_dec 1" using req(2) by (simp add: signed_def)
  ultimately show ?thesis using a1 fresh by blast
qed

end
