(* ===== verification/App_Properties.thy ===== *)
theory App_Properties
  imports App_Scenario
begin

text \<open>
  The properties of the wired system: the sequencer, the submit path, claims, the tables behind the
  services, and the creation of withdrawals. The other properties are in the root theory, in \<open>Relayer\<close> and in
  \<open>Boundary_Properties\<close>.
\<close>

text \<open>
  C30: A drain of the sequencer ends and settles everything. Started on a loop whose log \<open>ms\<close> is
  clean (each batch of one denomination, no root coming back), with the local prover and relayer, it
  settles one batch per segment of the log, the segments ending at the withdrawals, then finds nothing
  pending and stops. After it nothing is pending, and the cursor's committed root in the database is the
  root of the mirror, which the drain has not changed.
\<close>

theorem drain_settles_everything:
  assumes "local_loop wg" and "loop_inv (ap_service a) s0 None ms" and "roots_distinct s0 ms" and "drainable ms"
    and "length (segments ms) < fuel"
  shows "\<exists>a' db c. drain wg rec (\<lambda>_. True) fuel 0 a = Some (a', length (segments ms))
    \<and> loop_inv (ap_service a') (mg_ls (sv_manager (ap_service a))) None []
    \<and> sv_manager (ap_service a') = sv_manager (ap_service a) \<and> sv_repo (ap_service a') = Some db
    \<and> db_cursors db (sv_cursor_name (ap_service a')) = Some c
    \<and> cu_committed_root c = manager_root (sv_manager (ap_service a))"
  using drain_settles [OF assms(1) assms(2-5), of rec 0] by simp

theorem drain_settles_everything_witness:
  "\<exists>sv a' db c. drain alice_wiring True (\<lambda>_. True) 2 0 (app_on sv) = Some (a', 1)
     \<and> mirror_of (mg_ls (sv_manager (ap_service a'))) = alice_after_deposit
     \<and> sv_repo (ap_service a') = Some db \<and> db_cursors db (sv_cursor_name (ap_service a')) = Some c
     \<and> cu_committed_root c = manager_root (sv_manager sv)"
proof -
  obtain sv mv where l: "loop_inv sv genesis None [LogDeposit mv]" "roots_distinct genesis [LogDeposit mv]"
    "clean_move alice_denom (LogDeposit mv)" "mirror_of (mg_ls (sv_manager sv)) = alice_after_deposit" by (rule alice_logged)
  from l(1) have inv: "loop_inv (ap_service (app_on sv)) genesis None [LogDeposit mv]" by simp
  have "length (segments [LogDeposit mv]) < 2" by simp
  from drain_settles_everything [OF alice_local_loop inv l(2) alice_drainable(1) [OF l(3)] this, of True] l(4)
  show ?thesis by (intro exI [of _ sv]) auto
qed

text \<open>
  C31: A pass of the sequencer that fails after building, in proving or in submitting, gives the log
  back: the operations of the batch are pending again before those behind it, and the mirror is as it
  was. It is so for every relayer that never returns a result it did not accept, the rollback switched
  off, and the tables in memory; a panic is not an error and is left out. Without the batch going back,
  the next pass would find the chain broken, as \<open>no_second_batch_in_flight\<close> shows.
\<close>

theorem failed_pass_restores_log:
  assumes "in_process wg" and "\<not> wg_rollback wg"
    and "relayer_client (rl_submit (wg_relayer wg)) (rl_claim (wg_relayer wg))"
    and "loop_inv (ap_service a) s0 None ms" and "ms \<noteq> []" and "roots_distinct s0 ms"
    and "buildable den Map.empty (flight_prefix ms)"
    and "settle_once wg True a = (a', Inl e)" and "\<not> is_panic e"
  shows "loop_inv (ap_service a') s0 None ms \<and> sv_manager (ap_service a') = sv_manager (ap_service a)"
  by (rule failed_pass [OF assms])

theorem failed_pass_restores_log_witness:
  "\<exists>sv mv a'. settle_once down_wiring True (app_on sv) = (a', Inl (ErrText ''prover down''))
     \<and> loop_inv (ap_service a') genesis None [LogDeposit mv]
     \<and> mirror_of (mg_ls (sv_manager (ap_service a'))) = alice_after_deposit"
proof -
  obtain sv mv where l: "loop_inv sv genesis None [LogDeposit mv]" "roots_distinct genesis [LogDeposit mv]"
    "clean_move alice_denom (LogDeposit mv)" "mirror_of (mg_ls (sv_manager sv)) = alice_after_deposit" by (rule alice_logged)
  have ne: "[LogDeposit mv] \<noteq> []" by simp
  note ok = alice_drainable(2) [OF l(3)]
  obtain a' where run: "settle_once down_wiring True (app_on sv) = (a', Inl (ErrText ''prover down''))"
    by (rule down_pass [OF l(1) ne l(2) ok])
  have law: "relayer_client (rl_submit (wg_relayer down_wiring)) (rl_claim (wg_relayer down_wiring))"
    using local_rl.relayer_client_axioms by simp
  from l(1) have inv: "loop_inv (ap_service (app_on sv)) genesis None [LogDeposit mv]" by simp
  have "\<not> is_panic (ErrText ''prover down'')" by (simp add: is_panic_def)
  from failed_pass_restores_log [OF down_facts(1,2) law inv ne l(2) ok run this] run l(4) show ?thesis
    by (intro exI [of _ sv] exI [of _ mv] exI [of _ a']) simp
qed

text \<open>
  C32: When a verifier is set, no batch reaches the relayer whose proof was made under another
  verification key, whose public inputs are not exactly those of the submitted update and commitments,
  or which the verifier refuses. Such a submit answers that the proof failed, stores nothing, writes
  nothing to the pending log, and without the rollback leaves the mirror too. The environment is only
  touched by the verifier.
\<close>

theorem submit_gate:
  assumes "wg_verifier wg = Some verify"
    and "(wg_expected_vk wg \<noteq> [] \<and> trim_space (pb_vk_id (sb_proof req)) \<noteq> wg_expected_vk wg)
      \<or> build_public_inputs (sb_update req) (sb_commitments req) \<noteq> Inr (pb_public_inputs (sb_proof req))
      \<or> snd (verify req (ap_env a)) \<noteq> None"
  shows "\<exists>a'. submit_batch wg req a = (a', Inl ErrProofVerificationFailed) \<and> ap_backend a' = ap_backend a
    \<and> sv_repo (ap_service a') = sv_repo (ap_service a)
    \<and> (\<not> wg_rollback wg \<longrightarrow> ap_service a' = ap_service a)
    \<and> (ap_env a' = ap_env a \<or> ap_env a' = fst (verify req (ap_env a)))"
proof -
  from assms(2) have "guard_proof_contract (wg_expected_vk wg) req \<noteq> None \<or> snd (verify req (ap_env a)) \<noteq> None"
    by (auto simp: guard_None)
  from gate_refuses [OF assms(1) this] show ?thesis by blast
qed

theorem submit_gate_witness:
  "\<exists>a'. submit_batch gated_wiring (hand_request other_proof) (app_on alice_service) = (a', Inl ErrProofVerificationFailed)
     \<and> ap_backend a' = fresh_backend"
proof -
  have v: "wg_verifier gated_wiring = Some (\<lambda>req w. (w, None))" by (simp add: gated_wiring_def)
  have "wg_expected_vk gated_wiring \<noteq> [] \<and> trim_space (pb_vk_id (sb_proof (hand_request other_proof))) \<noteq> wg_expected_vk gated_wiring"
    by (simp add: gated_wiring_def hand_request_def other_proof_def trim_space_ends_eval plain_char_def)
  then show ?thesis using submit_gate [OF v, of "hand_request other_proof" "app_on alice_service"] by auto
qed

text \<open>
  C33: What a submit does to the mirror outside the pending mode, with the rollback switched on and either
  store. If the gate or the relayer fails, the submit returns that error, the mirror is the last baseline
  again, whatever was mirrored since, and nothing is stored. If the relayer answers, an accepted batch leaves the
  mirror and makes it the new baseline, and one that is not accepted restores the baseline; saving the result comes
  after that. Saving fails with the Postgres store only, as a panic, and does not undo what the answer did to the mirror:
  an accepted batch whose result cannot be saved is not rolled back.
\<close>

theorem submit_rollback:
  assumes "wg_rollback wg" and "ap_baseline a = Some (manager_snapshot m0)" and "wf_manager m0"
    and "wg_build_source wg \<noteq> source_pending" and "submit_batch wg req a = (a', r)"
  shows "case ap_bind (check_proof wg req) (\<lambda>_. relay_batch wg req) a of
      (a1, Inl e) \<Rightarrow> a' = a1 \<and> r = Inl e \<and> mg_ls (sv_manager (ap_service a')) = mg_ls m0 \<and> ap_backend a' = ap_backend a
        \<and> sv_repo (ap_service a') = sv_repo (ap_service a) \<and> ap_baseline a' = ap_baseline a
    | (a1, Inr res) \<Rightarrow>
        (if sres_accepted res
         then ap_service a' = ap_service a \<and> ap_baseline a' = Some (manager_snapshot (sv_manager (ap_service a)))
         else mg_ls (sv_manager (ap_service a')) = mg_ls m0 \<and> sv_repo (ap_service a') = sv_repo (ap_service a)
           \<and> ap_baseline a' = ap_baseline a)
        \<and> (case save_batch_submit_result (wg_batch_repo wg) (sb_update req) (sb_commitments req) (sres_tx_hash res)
             (sres_accepted res) (sres_proof_status res) (sres_withdraw_records res) (ap_backend a) of
             (b, Inr _) \<Rightarrow> ap_backend a' = b \<and> r = Inr (submit_response req res)
           | (b, Inl e) \<Rightarrow> ap_backend a' = b \<and> r = Inl e \<and> e = ErrPanic ''save submit batch result in postgres'' \<and> bp_submit_store (wg_batch_repo wg) = store_postgres)"
  by (rule submit_rolls_back [OF assms])

theorem submit_rollback_witness:
  "\<exists>(sv :: service) a a' e. mirror_of (mg_ls (sv_manager (ap_service a))) = alice_after_deposit \<and> sv = ap_service a
     \<and> submit_batch gated_wiring (hand_request other_proof) a = (a', Inl e)
     \<and> mg_ls (sv_manager (ap_service a')) = genesis"
proof -
  obtain sv :: service where sv: "mirror_of (mg_ls (sv_manager sv)) = alice_after_deposit" by (rule alice_logged)
  let ?m0 = "sv_manager alice_service"
  let ?a = "(app_on sv)\<lparr>ap_baseline := Some (manager_snapshot ?m0)\<rparr>"
  have wf: "wf_manager ?m0" using loop_inv_manager [OF alice_service_inv] by simp
  have g: "wg_rollback gated_wiring" "wg_build_source gated_wiring \<noteq> source_pending"
    by (simp_all add: gated_wiring_def alice_wiring_def source_manual_def source_pending_def)
  have base: "ap_baseline ?a = Some (manager_snapshot ?m0)" by simp
  obtain a' where check: "check_proof gated_wiring (hand_request other_proof) ?a = (a', Inl ErrProofVerificationFailed)"
  proof -
    have "guard_proof_contract (wg_expected_vk gated_wiring) (hand_request other_proof) = Some ErrProofVerificationFailed"
      using other_guard guard_error by (metis not_Some_eq)
    then show thesis by (intro that) (simp add: check_proof_def gated_wiring_def)
  qed
  then have run: "submit_batch gated_wiring (hand_request other_proof) ?a = (a', Inl ErrProofVerificationFailed)"
    by (simp add: submit_batch_def ap_bind_def)
  from submit_rollback [OF g(1) base wf g(2) run] sv run check show ?thesis
    by (intro exI [of _ sv] exI [of _ ?a] exI [of _ a'] exI [of _ ErrProofVerificationFailed]) (simp add: ap_bind_def)
qed

text \<open>
  C34: Submitting an accepted batch again opens its claimed withdrawals: in memory mode, submit, claim,
  submit the same batch and claim again all succeed, for any batch the local relayer accepts and any of
  its withdrawals, and the balance at the destination has grown by twice the amount. The withdraw
  records of a submit overwrite the stored ones with \<^verbatim>\<open>claimed = false\<close>.
\<close>

theorem resubmit_reopens_claim:
  fixes a :: "'w app"
  assumes "memory_mode wg" and "local_submit_batch req = Inr res"
    and "w \<in> set (su_withdrawals (sb_update req))" and "sw_id w \<noteq> []"
    and "distinct (map sw_id (su_withdrawals (sb_update req)))"
  shows "\<exists>a1 a2 a3 a4 c1 c2 b. submit_batch wg req a = (a1, Inr (submit_response req res))
    \<and> claim_withdraw_service wg (sw_id w) a1 = (a2, Inr c1)
    \<and> submit_batch wg req a2 = (a3, Inr (submit_response req res))
    \<and> claim_withdraw_service wg (sw_id w) a3 = (a4, Inr c2)
    \<and> b = parse_int64_or_zero (sw_amount w)
    \<and> user_balance a4 (sw_destination w @ ''/'' @ sw_denom w) = user_balance a (sw_destination w @ ''/'' @ sw_denom w) + b + b"
  by (rule resubmit_reopens [OF assms])

theorem resubmit_reopens_claim_witness:
  "\<exists>p res a1 a2 a3 a4 c1 c2. submit_batch memory_wiring (hand_request p) (app_on alice_service) = (a1, Inr res)
     \<and> claim_withdraw_service memory_wiring ''wd-1'' a1 = (a2, Inr c1)
     \<and> submit_batch memory_wiring (hand_request p) a2 = (a3, Inr res)
     \<and> claim_withdraw_service memory_wiring ''wd-1'' a3 = (a4, Inr c2)
     \<and> user_balance a4 ''cosmos1alice/uusdc'' = user_balance (app_on alice_service) ''cosmos1alice/uusdc'' + 40 + 40"
proof -
  obtain p res where r: "local_submit_batch (hand_request p) = Inr res" by (rule hand_submit)
  let ?w = "hd (su_withdrawals hand_update)"
  have w: "?w \<in> set (su_withdrawals (sb_update (hand_request p)))" "sw_id ?w = ''wd-1''"
    "distinct (map sw_id (su_withdrawals (sb_update (hand_request p))))" "sw_amount ?w = ''40''"
    "sw_destination ?w @ ''/'' @ sw_denom ?w = ''cosmos1alice/uusdc''"
    by (simp_all add: hand_request_def hand_update_def alice_owner_def alice_denom_def)
  have i: "sw_id ?w \<noteq> []" by (simp add: w(2))
  from resubmit_reopens_claim [OF memory_wiring_mode r w(1) i w(3), of "app_on alice_service"]
  show ?thesis unfolding w(2,4,5) forty by blast
qed

text \<open>
  C35: A withdrawal is claimed once. After a claim that succeeded, the same claim answers that it was
  already claimed and moves no balance, in either mode of the record store, while the database works
  between the two. (The read and the update of the Postgres path are two statements, so this is about
  claims one after the other.)
\<close>

theorem claim_succeeds_once:
  assumes "records_in_postgres wp \<Longrightarrow> db_works b" and "claim_withdraw_record wp i b = (b', Inr rec)"
  shows "wrec_claimed rec \<and> (\<exists>b''. claim_withdraw_record wp i b' = (b'', Inl ErrWithdrawAlreadyClaimed)
    \<and> be_store b'' = be_store b')"
  by (rule claim_once [OF assms])

theorem claim_succeeds_once_witness:
  "\<exists>b b' b'' rec. claim_withdraw_record new_withdraw_repository ''wd-1'' b = (b', Inr rec)
     \<and> claim_withdraw_record new_withdraw_repository ''wd-1'' b' = (b'', Inl ErrWithdrawAlreadyClaimed)"
proof -
  let ?r = "unclaimed_record (hd (su_withdrawals hand_update))"
  let ?b = "on_store (ms_save_withdraw_record ?r) fresh_backend"
  have mem: "\<not> records_in_postgres new_withdraw_repository"
    by (simp add: records_in_postgres_def new_withdraw_repository_def store_memory_def store_postgres_def)
  have rec: "ms_records (be_store ?b) ''wd-1'' = Some ?r" "\<not> wrec_claimed ?r"
    by (simp_all add: ms_save_withdraw_record_def unclaimed_record_def hand_update_def)
  then have "\<exists>b' c. claim_withdraw_record new_withdraw_repository ''wd-1'' ?b = (b', Inr c)"
    using mem by (simp add: claim_withdraw_record_def claim_memory)
  then obtain b' c where run: "claim_withdraw_record new_withdraw_repository ''wd-1'' ?b = (b', Inr c)" by blast
  from claim_succeeds_once [OF _ run] mem run show ?thesis by blast
qed

text \<open>
  C36: Whatever the server is asked, in any order and with any arguments, and whatever the outside
  systems and the database answer, the tables stay well-formed. In the database no withdraw id names two
  requests or two records and no nullifier is in two records, and each request carries a number its
  sequence has given. In the memory store the listing order of each table holds every key of its map
  exactly once, and each row is stored under its own id.
\<close>

theorem tables_stay_well_formed:
  assumes "fresh_tables (ap_backend a0)" and "reached wg a0 a"
  defines "db \<equiv> be_db (ap_backend a)" and "st \<equiv> be_store (ap_backend a)"
  shows "distinct (map (wr_id \<circ> rq_request) (ad_requests db))
    \<and> (\<forall>r \<in> set (ad_requests db). \<exists>k. 1 \<le> k \<and> k \<le> ad_withdraw_seq db \<and> wr_id (rq_request r) = ''wd-'' @ nat_to_dec k)
    \<and> distinct (map (wrec_id \<circ> rr_record) (ad_records db)) \<and> distinct (map (wrec_nullifier \<circ> rr_record) (ad_records db))
    \<and> distinct (ms_deposit_order st) \<and> set (ms_deposit_order st) = dom (ms_deposits st)
    \<and> distinct (ms_request_order st) \<and> set (ms_request_order st) = dom (ms_requests st)
    \<and> distinct (ms_record_order st) \<and> set (ms_record_order st) = dom (ms_records st)
    \<and> (\<forall>k r. ms_deposits st k = Some r \<longrightarrow> dep_id r = k) \<and> (\<forall>k r. ms_requests st k = Some r \<longrightarrow> wr_id r = k)
    \<and> (\<forall>k r. ms_records st k = Some r \<longrightarrow> wrec_id r = k)"
proof -
  from reached_keeps [OF assms(2) fresh_tables_wf [OF assms(1)]] have "backend_wf (ap_backend a)" .
  then have "wf_store st" "wf_requests db" "wf_record_rows db" by (simp_all add: backend_wf_def db_def st_def)
  then show ?thesis unfolding wf_store_def wf_requests_def wf_record_rows_def table_ok_def by (intro conjI) blast+
qed

theorem tables_stay_well_formed_witness:
  "\<exists>a. reached alice_wiring (app_on alice_service) a \<and> ms_deposits (be_store (ap_backend a)) ''dep-1'' \<noteq> None
     \<and> set (ms_deposit_order (be_store (ap_backend a))) = dom (ms_deposits (be_store (ap_backend a)))"
proof -
  obtain a1 where a1: "index_deposit_from_tx alice_wiring 0 alice_tx (app_on alice_service) = (a1, Inr alice_deposit)"
    "ap_backend a1 = save_deposit alice_deposit fresh_backend" by (rule alice_indexed)
  then have "poll_once alice_wiring 0 (Inr ([alice_tx], 12346)) 12345 (app_on alice_service) = ((a1, 12346), Inr 1)"
    by (simp add: poll_once_def)
  then have r: "reached alice_wiring (app_on alice_service) a1" by (intro reached_step [OF reached_start] serve_poll)
  have f: "fresh_tables (ap_backend (app_on alice_service))" by simp
  have "ms_deposits (be_store (ap_backend a1)) ''dep-1'' \<noteq> None"
    by (simp add: a1(2) save_deposit_def ms_save_deposit_def alice_deposit_def)
  with tables_stay_well_formed [OF f r] r show ?thesis by (intro exI [of _ a1]) simp
qed

text \<open>
  Indexing a deposit again is refused by the mirror but not by the store. The second time the
  service answers \<^verbatim>\<open>ErrDepositAlreadyApplied\<close>, the mirror and the log stay as they are, yet
  \<^verbatim>\<open>SaveDeposit\<close> ran first and the displayed module balance has grown by the amount again.
\<close>

theorem reindexed_deposit_counted_twice:
  assumes "wg_enabled wg" and "wg_has_offchain wg" and "loop_inv (ap_service a) s0 fl rest"
    and "index_deposit_from_tx wg now tx a = (a1, Inr r)"
  shows "\<exists>a2 m. loop_inv (ap_service a1) s0 fl (rest @ [LogDeposit m])
    \<and> index_deposit_from_tx wg now1 tx a1 = (a2, Inl ErrDepositAlreadyApplied)
    \<and> loop_inv (ap_service a2) s0 fl (rest @ [LogDeposit m]) \<and> sv_manager (ap_service a2) = sv_manager (ap_service a1)
    \<and> module_balance a1 (dep_denom r) = module_balance a (dep_denom r) + parse_int64_or_zero (dep_amount r)
    \<and> module_balance a2 (dep_denom r) = module_balance a1 (dep_denom r) + parse_int64_or_zero (dep_amount r)"
  using index_twice [OF assms, of now1] by blast

theorem reindexed_deposit_counted_twice_witness:
  "\<exists>a1 a2. index_deposit_from_tx alice_wiring 0 alice_tx (app_on alice_service) = (a1, Inr alice_deposit)
     \<and> index_deposit_from_tx alice_wiring 1 alice_tx a1 = (a2, Inl ErrDepositAlreadyApplied)
     \<and> module_balance a2 ''uusdc'' = module_balance a1 ''uusdc'' + 100"
proof -
  obtain a1 where a1: "index_deposit_from_tx alice_wiring 0 alice_tx (app_on alice_service) = (a1, Inr alice_deposit)"
    by (rule alice_indexed)
  have wg: "wg_enabled alice_wiring" "wg_has_offchain alice_wiring" by (simp_all add: alice_wiring_def)
  have inv: "loop_inv (ap_service (app_on alice_service)) genesis None []" using alice_service_inv by simp
  have d: "dep_denom alice_deposit = ''uusdc''" "parse_int64_or_zero (dep_amount alice_deposit) = 100"
    by (simp_all add: alice_deposit_def alice_denom_def)
  from reindexed_deposit_counted_twice [OF wg inv a1, of 1] a1 show ?thesis unfolding d by blast
qed



text \<open>
  C39: A nonce that one account has used is spent for all of them. The service signs every withdrawal
  with the same default secret, the nullifier is a digest of that secret and the nonce, and nonces are
  counted per account; so after an accepted withdrawal, the next request of any account whose own next
  nonce is the same is refused as already applied, although the account has the balance and the request
  builder found it valid.
\<close>

theorem same_nonce_blocks_others:
  assumes "withdraw_ready wg" and "loop_inv (ap_service a) s0 fl rest"
    and "unused_withdraw_id (ap_service a) (next_memory_id a)"
    and "create_withdraw_service wg now body a = (a1, Inr r)"
    and "service_build_withdraw_request (ap_service a1) body1 (next_memory_id a1) = Inr r1"
    and "wr_nonce r1 = wr_nonce r"
  shows "\<exists>a2. create_withdraw_service wg now1 body1 a1 = (a2, Inl ErrWithdrawAlreadyApplied)
    \<and> sv_manager (ap_service a2) = sv_manager (ap_service a1)"
  by (rule same_nonce_refused [OF assms])

theorem same_nonce_blocks_others_witness:
  "\<exists>(sv :: service) a1 a2 r. mirror_of (mg_ls (sv_manager sv)) = two_accounts
     \<and> create_withdraw_service alice_wiring 0 (forty_of alice_owner) (app_on sv) = (a1, Inr r)
     \<and> local_ledger (mg_ls (sv_manager (ap_service a1))) (bob_owner, alice_denom) = Some (100, 0)
     \<and> create_withdraw_service alice_wiring 1 (forty_of bob_owner) a1 = (a2, Inl ErrWithdrawAlreadyApplied)"
proof -
  obtain sv mv mv' where l: "loop_inv sv genesis None [LogDeposit mv, LogDeposit mv']"
    "mirror_of (mg_ls (sv_manager sv)) = two_accounts" by (rule two_accounts_logged)
  have inv: "loop_inv (ap_service (app_on sv)) genesis None [LogDeposit mv, LogDeposit mv']" using l(1) by simp
  from alice_forty_of_two [OF l] obtain a1 r w where
    run: "create_withdraw_service alice_wiring 0 (forty_of alice_owner) (app_on sv) = (a1, Inr r)"
    and r: "wr_nonce r = nat_to_dec 1" and inv1: "loop_inv (ap_service a1) genesis None ([LogDeposit mv, LogDeposit mv'] @ [LogWithdraw w])"
    and bob: "local_ledger (mg_ls (sv_manager (ap_service a1))) (bob_owner, alice_denom) = Some (100, 0)"
    and fresh: "unused_withdraw_id (ap_service (app_on sv)) (next_memory_id (app_on sv))" by blast
  have wf: "wf_local (mg_ls (sv_manager (ap_service a1)))" using loop_inv_manager [OF inv1] by simp
  obtain r1 where r1: "service_build_withdraw_request (ap_service a1) (forty_of bob_owner) (next_memory_id a1) = Inr r1"
    "wr_nonce r1 = nat_to_dec (0 + 1)" by (rule forty_build [OF wf bob bob_facts(1,2)])
  have "wr_nonce r1 = wr_nonce r" using r1(2) r by simp
  from same_nonce_blocks_others [OF alice_withdraw_ready inv fresh run r1(1) this, of 1] l(2) run bob show ?thesis by blast
qed

end
