(* ===== verification/Json_Responses.thy ===== *)
theory Json_Responses
  imports User_Services Batch_Service Body_Decoders
begin

text \<open>
  The bodies the HTTP interface answers with, as JSON values by the field tags of \<^verbatim>\<open>pkg/types\<close>.
  A Go map is written with its keys in the order of their bytes.
\<close>

subsection \<open>State\<close>

definition optional_field :: "string \<Rightarrow> string \<Rightarrow> (string \<times> json) list" where
  "optional_field name value = (if value = [] then [] else [(name, JStr value)])"

text \<open>Every field of \<^verbatim>\<open>PartialState\<close> has \<^verbatim>\<open>omitempty\<close>.\<close>

definition partial_state_json :: "partial_state \<Rightarrow> json" where
  "partial_state_json s = JObj (optional_field ''currentStateRoot'' (ps_current_root s)
     @ optional_field ''proofStatus'' (ps_proof_status s) @ optional_field ''depositStatus'' (ps_deposit_status s)
     @ optional_field ''withdrawStatus'' (ps_withdraw_status s) @ optional_field ''batchStatus'' (ps_batch_status s))"

definition map_json :: "(string \<rightharpoonup> string) \<Rightarrow> json" where
  "map_json m = JObj (map (\<lambda>k. (k, JStr (the (m k)))) (sorted_list_of_set (dom m)))"

fun pointer_json :: "('a \<Rightarrow> json) \<Rightarrow> 'a option \<Rightarrow> json" where
  "pointer_json f None = JNull"
| "pointer_json f (Some x) = f x"

definition withdraw_request_json :: "withdraw_request \<Rightarrow> json" where
  "withdraw_request_json r = JObj [(''withdrawId'', JStr (wr_id r)), (''owner'', JStr (wr_owner r)),
     (''denom'', JStr (wr_denom r)), (''amount'', JStr (wr_amount r)), (''destination'', JStr (wr_destination r)),
     (''nonce'', JStr (wr_nonce r)), (''signature'', JStr (wr_signature r))]"

text \<open>
  A slice that is nil when it has no element, as every slice is that went through
  \<^verbatim>\<open>append([]T(nil), xs...)\<close>. The slices of the dashboard state are such: the clone helpers of
  \<^verbatim>\<open>memory_store.go\<close> make them.
\<close>

definition slice_json :: "('a \<Rightarrow> json) \<Rightarrow> 'a list \<Rightarrow> json" where
  "slice_json f xs = (if xs = [] then JNull else JArr (map f xs))"

definition cloned_settlement_json :: "settlement_update \<Rightarrow> json" where
  "cloned_settlement_json u = JObj [(''batchId'', JStr (su_batch_id u)),
     (''oldStateRoot'', JStr (su_old_root u)), (''newStateRoot'', JStr (su_new_root u)),
     (''deposits'', slice_json settlement_deposit_json (su_deposits u)),
     (''withdrawals'', slice_json settlement_withdrawal_json (su_withdrawals u))]"

definition cloned_proof_json :: "proof_bundle \<Rightarrow> json" where
  "cloned_proof_json p = JObj [(''proof'', JStr (pb_proof p)), (''publicInputs'', slice_json JStr (pb_public_inputs p)),
     (''verificationKeyId'', JStr (pb_vk_id p))]"

definition app_state_json :: "app_state \<Rightarrow> json" where
  "app_state_json s = JObj
     [(''mode'', JStr (as_mode s)), (''currentStateRoot'', JStr (as_current_root s)),
      (''userBalances'', map_json (as_user_balances s)),
      (''moduleAccountBalance'', map_json (as_module_balance s)),
      (''latestDeposit'', pointer_json deposit_record_json (as_latest_deposit s)),
      (''latestWithdrawRequest'', pointer_json withdraw_request_json (as_latest_request s)),
      (''latestSettlement'', pointer_json cloned_settlement_json (as_latest_settlement s)),
      (''latestBatchCommitments'', pointer_json batch_commitments_json (as_latest_commitments s)),
      (''latestProof'', pointer_json cloned_proof_json (as_latest_proof s)),
      (''latestWithdrawRecords'', slice_json withdraw_record_json (as_latest_records s)),
      (''proofStatus'', JStr (as_proof_status s)), (''depositStatus'', JStr (as_deposit_status s)),
      (''withdrawStatus'', JStr (as_withdraw_status s)), (''batchStatus'', JStr (as_batch_status s))]"

definition balance_snapshot_json :: "balance_snapshot \<Rightarrow> json" where
  "balance_snapshot_json b = JObj [(''userBalances'', map_json (bs_user b)),
     (''moduleAccountBalance'', map_json (bs_module b))]"

subsection \<open>Responses\<close>

definition deposit_state :: partial_state where
  "deposit_state = \<lparr>ps_current_root = ''0xrootA'', ps_proof_status = ''idle'', ps_deposit_status = ''indexed'',
     ps_withdraw_status = ''none'', ps_batch_status = ''none''\<rparr>"

definition deposit_response_json :: "string \<times> deposit_record \<Rightarrow> json" where
  "deposit_response_json x = JObj [(''txHash'', JStr (fst x)), (''depositRecord'', deposit_record_json (snd x)),
     (''state'', partial_state_json deposit_state)]"

definition withdraw_state :: "string \<Rightarrow> partial_state" where
  "withdraw_state status = empty_partial_state\<lparr>ps_withdraw_status := status\<rparr>"

definition withdraw_response_json :: "withdraw_request \<Rightarrow> json" where
  "withdraw_response_json r = JObj [(''withdrawRequest'', withdraw_request_json r),
     (''state'', partial_state_json (withdraw_state ''requested''))]"

definition claim_response_json :: "claim_response \<Rightarrow> json" where
  "claim_response_json c = JObj [(''txHash'', JStr (clr_tx_hash c)), (''withdrawRecord'', withdraw_record_json (clr_record c)),
     (''balances'', balance_snapshot_json (clr_balances c)), (''state'', partial_state_json (withdraw_state ''claimed''))]"

definition build_response_json :: "build_batch_response \<Rightarrow> json" where
  "build_response_json b = JObj [(''settlementUpdate'', settlement_update_json (bbr_update b)),
     (''batchCommitments'', batch_commitments_json (bbr_commitments b)), (''witness'', witness_json (bbr_witness b)),
     (''state'', partial_state_json (bbr_state b))]"

definition proof_response_json :: "proof_bundle \<Rightarrow> json" where
  "proof_response_json p = JObj [(''proofBundle'', proof_bundle_json p),
     (''state'', partial_state_json (empty_partial_state\<lparr>ps_proof_status := ''ready''\<rparr>))]"

definition submit_response_json :: "submit_batch_response \<Rightarrow> json" where
  "submit_response_json r = JObj [(''txHash'', JStr (sbr_tx_hash r)), (''accepted'', JBool (sbr_accepted r)),
     (''proofStatus'', JStr (sbr_proof_status r)), (''settlementUpdate'', settlement_update_json (sbr_update r)),
     (''batchCommitments'', batch_commitments_json (sbr_commitments r)),
     (''withdrawRecords'', JArr (map withdraw_record_json (sbr_withdraw_records r))),
     (''state'', partial_state_json (sbr_state r))]"

definition deposits_json :: "deposit_record list \<Rightarrow> json" where
  "deposits_json ds = JObj [(''deposits'', JArr (map deposit_record_json ds))]"

definition get_deposit_json :: "deposit_record \<Rightarrow> json" where
  "get_deposit_json d = JObj [(''depositRecord'', deposit_record_json d)]"

definition withdraw_requests_json :: "withdraw_request list \<Rightarrow> json" where
  "withdraw_requests_json rs = JObj [(''withdrawRequests'', JArr (map withdraw_request_json rs))]"

definition get_withdraw_json :: "withdraw_request \<Rightarrow> json" where
  "get_withdraw_json r = JObj [(''withdrawRequest'', withdraw_request_json r)]"

definition cancel_response_json :: "string \<Rightarrow> string \<Rightarrow> json" where
  "cancel_response_json batch reason = JObj [(''batchId'', JStr batch), (''status'', JStr ''reopened''), (''reason'', JStr reason)]"

definition chain_record_json :: "withdraw_record \<Rightarrow> json" where
  "chain_record_json r = JObj [(''withdrawRecord'', withdraw_record_json r)]"

definition chain_nullifier_json :: "string \<times> bool \<Rightarrow> json" where
  "chain_nullifier_json x = JObj [(''nullifier'', JStr (fst x)), (''used'', JBool (snd x))]"

definition get_health :: string where
  "get_health = ''ok''"

definition health_json :: json where
  "health_json = JObj [(''status'', JStr get_health), (''service'', JStr ''offchain-backend'')]"

subsection \<open>What a client makes of a built batch\<close>

text \<open>
  A build response holds everything the proof request asks for under the same names, so a client that
  posts it back (with its extra \<^verbatim>\<open>state\<close>) asks for the proof of exactly that batch.
\<close>

lemma upper_ascii_id: "\<not> (97 \<le> byte c \<and> byte c \<le> 122) \<Longrightarrow> upper_ascii c = c"
  by (auto simp: upper_ascii_def)

lemma build_response_as_proof_body:
  "dec_proof_body zero_proof_body (build_response_json b) = Some
     \<lparr>prb_update = bbr_update b, prb_commitments = bbr_commitments b, prb_witness = bbr_witness b\<rparr>"
proof -
  have f: "fold_name ''state'' = ''STATE''" "fold_name ''settlementUpdate'' = ''SETTLEMENTUPDATE''"
    "fold_name ''batchCommitments'' = ''BATCHCOMMITMENTS''" "fold_name ''witness'' = ''WITNESS''"
    by (simp_all add: fold_name.simps upper_ascii_def byte_def char_of_def bit_0 bit_Suc)
  show ?thesis
    by (simp add: dec_proof_body_def zero_proof_body_def build_response_json_def find_field_def dec_field_def f
        dec_settlement_update_json dec_batch_commitments_json dec_witness_json)
qed

end
