(* ===== verification/Remote_Prover.thy ===== *)
theory Remote_Prover
  imports App_System Body_Decoders
begin

text \<open>
  \<^verbatim>\<open>internal/prover/remote_client.go\<close> down to the bytes it exchanges: the request it makes,
  with the JSON it posts, and what it makes of the response's status and body. The HTTP client is a
  parameter: it turns a request and the state of the outside world into a new state and a response, or
  into the failure to get one (which is also how a request that cannot be formed ends). The bodies are
  read to their end.
\<close>

datatype http_response = NoResponse string | Response int string

record http_request =
  hq_method :: string
  hq_url :: string
  hq_body :: string

type_synonym 'w transport = "http_request \<Rightarrow> 'w \<Rightarrow> 'w \<times> http_response"

definition post_json :: "string \<Rightarrow> string \<Rightarrow> http_request" where
  "post_json url body = \<lparr>hq_method = ''POST'', hq_url = url, hq_body = body\<rparr>"

definition get_request :: "string \<Rightarrow> http_request" where
  "get_request url = \<lparr>hq_method = ''GET'', hq_url = url, hq_body = []\<rparr>"

subsection \<open>What the bodies decode to\<close>

definition dec_error_response :: "string decoder" where
  "dec_error_response = dec_struct [(''error'', dec_string)]"

definition dec_prove_response :: "proof_bundle decoder" where
  "dec_prove_response = dec_struct [(''proofBundle'', dec_proof_bundle)]"

definition zero_verify_response :: verify_response where
  "zero_verify_response = \<lparr>vr_valid = False, vr_error = []\<rparr>"

definition dec_verify_response :: "verify_response decoder" where
  "dec_verify_response = dec_struct
     [(''valid'', dec_field vr_valid (\<lambda>x r. r\<lparr>vr_valid := x\<rparr>) dec_bool),
      (''error'', dec_field vr_error (\<lambda>x r. r\<lparr>vr_error := x\<rparr>) dec_string)]"

definition answer_of :: "'b decoder \<Rightarrow> 'b \<Rightarrow> http_response \<Rightarrow> 'b http_answer" where
  "answer_of dec zero resp = (case resp of
     NoResponse e \<Rightarrow> HttpFailed e
   | Response st body \<Rightarrow>
       HttpAnswer st (decode_into dec_error_response [] body) (decode_into dec zero body))"

subsection \<open>The client\<close>

definition remote_prove :: "string \<Rightarrow> 'w transport \<Rightarrow> settlement_update \<Rightarrow> batch_commitments \<Rightarrow> witness
    \<Rightarrow> 'w \<Rightarrow> 'w \<times> proof_bundle res" where
  "remote_prove base http u c wit w =
     (case http (post_json (base @ ''/prove'') (json_text (proof_body_json
             \<lparr>prb_update = u, prb_commitments = c, prb_witness = wit\<rparr>))) w of
        (w', resp) \<Rightarrow> (w', remote_generate_proof (answer_of dec_prove_response zero_proof_bundle resp)))"

definition remote_verify_proof :: "string \<Rightarrow> 'w transport \<Rightarrow> submit_batch_body \<Rightarrow> 'w \<Rightarrow> 'w \<times> go_error option" where
  "remote_verify_proof base http b w =
     (case http (post_json (base @ ''/verify'') (json_text (submit_body_json b))) w of
        (w', resp) \<Rightarrow> (w', remote_verify (answer_of dec_verify_response zero_verify_response resp)))"

definition remote_artifact :: "string \<Rightarrow> 'w transport \<Rightarrow> 'w \<Rightarrow> 'w \<times> verifier_artifact res" where
  "remote_artifact base http w =
     (if base = [] then (w, remote_get_verifier_artifact base (HttpFailed []))
      else case http (get_request (trim_right_slash base @ ''/verifier-artifact'')) w of
        (w', resp) \<Rightarrow>
          (w', remote_get_verifier_artifact base (answer_of dec_verifier_artifact zero_verifier_artifact resp)))"

definition remote_prover :: "string \<Rightarrow> 'w transport \<Rightarrow> 'w prover_client" where
  "remote_prover base http =
     \<lparr>pc_generate = remote_prove base http, pc_artifact = Some (remote_artifact base http)\<rparr>"

subsection \<open>What is sent and what is accepted\<close>

text \<open>The body posted to the prover (the verifier) decodes to exactly what was given.\<close>

lemma sent_proof_body:
  "json_valid (proof_body_json b) \<Longrightarrow> decode_into dec_proof_body zero_proof_body (json_text (proof_body_json b)) = Some b"
  by (simp add: decode_into_text [where rest = "[]", simplified] dec_proof_body_json)

lemma sent_submit_body:
  "json_valid (submit_body_json b) \<Longrightarrow> decode_into dec_submit_body zero_submit_body (json_text (submit_body_json b)) = Some b"
  by (simp add: decode_into_text [where rest = "[]", simplified] dec_submit_body_json)

definition prove_response_json :: "proof_bundle \<Rightarrow> json" where
  "prove_response_json p = JObj [(''proofBundle'', proof_bundle_json p)]"

lemma prove_response_fits: "json_fits max_nesting (prove_response_json p)"
  by (simp add: prove_response_json_def max_nesting_def json_fits_parts)

lemma utf8_valid_name: "list_all (\<lambda>c. byte c < 128) k \<Longrightarrow> json_valid v \<Longrightarrow> json_valid (JObj [(k, v)])"
  by (simp add: utf8_valid_ascii)

lemma received_proof:
  assumes "json_valid (proof_bundle_json p)" and "ends_value tail"
  shows "decode_into dec_prove_response zero_proof_bundle (json_text (prove_response_json p) @ tail) = Some p"
proof -
  have "json_valid (prove_response_json p)"
    unfolding prove_response_json_def using assms(1) by (intro utf8_valid_name) (simp_all add: byte_def)
  moreover have "dec_prove_response zero_proof_bundle (prove_response_json p) = Some p"
    by (simp add: prove_response_json_def dec_prove_response_def find_field_def dec_proof_bundle_json)
  ultimately show ?thesis by (simp add: decode_into_text [OF prove_response_fits _ assms(2)])
qed

definition bundle_complete :: "proof_bundle \<Rightarrow> bool" where
  "bundle_complete p \<longleftrightarrow> pb_proof p \<noteq> [] \<and> length (pb_public_inputs p) = 6 \<and> pb_vk_id p \<noteq> []"

lemma remote_prove_Inr:
  "remote_prove base http u c wit w = (w', Inr p) \<Longrightarrow> bundle_complete p \<and>
     (\<exists>st body. http (post_json (base @ ''/prove'') (json_text (proof_body_json
        \<lparr>prb_update = u, prb_commitments = c, prb_witness = wit\<rparr>))) w = (w', Response st body)
       \<and> status_ok st \<and> decode_into dec_prove_response zero_proof_bundle body = Some p)"
  by (auto simp: remote_prove_def remote_generate_proof_def answer_of_def bundle_complete_def
      split: prod.splits http_response.splits option.splits if_splits)

text \<open>The verifier accepts only on a 2xx answer that says \<^verbatim>\<open>"valid": true\<close>.\<close>

lemma remote_verify_accepts:
  "remote_verify_proof base http b w = (w', None) \<Longrightarrow>
     \<exists>st body v. http (post_json (base @ ''/verify'') (json_text (submit_body_json b))) w = (w', Response st body)
       \<and> status_ok st \<and> decode_into dec_verify_response zero_verify_response body = Some v \<and> vr_valid v"
  by (auto simp: remote_verify_proof_def remote_verify_def answer_of_def
      split: prod.splits http_response.splits option.splits if_splits)

lemma remote_artifact_Inr:
  "remote_artifact base http w = (w', Inr a) \<Longrightarrow> artifact_ok a"
  by (auto simp: remote_artifact_def remote_get_verifier_artifact_def validate_verifier_artifact_None
      split: prod.splits http_answer.splits option.splits if_splits)

end
