(* ===== verification/Go_Text.thy ===== *)
theory Go_Text
  imports Go_Json_Decode
begin

text \<open>
  More of Go's standard library on strings, as the chain clients use it: \<^verbatim>\<open>strconv.Unquote\<close>
  of a double-quoted literal, \<^verbatim>\<open>strings.Trim(s, "\"")\<close>, \<^verbatim>\<open>strings.Split\<close>,
  \<^verbatim>\<open>base64.StdEncoding.DecodeString\<close>, \<^verbatim>\<open>url.PathEscape\<close> and
  \<^verbatim>\<open>url.QueryEscape\<close>, and the two helpers both chain packages define on them.
\<close>

subsection \<open>strconv.Unquote\<close>

definition valid_rune :: "nat \<Rightarrow> bool" where
  "valid_rune n \<longleftrightarrow> n < 1114112 \<and> \<not> is_surrogate n"

definition plain_escape :: "char \<Rightarrow> char option" where
  "plain_escape c =
     (if c = CHR ''a'' then Some (CHR 0x07)
      else if c = CHR ''b'' then Some (CHR 0x08)
      else if c = CHR ''f'' then Some (CHR 0x0C)
      else if c = CHR ''n'' then Some (CHR 0x0A)
      else if c = CHR ''r'' then Some (CHR 0x0D)
      else if c = CHR ''t'' then Some (CHR 0x09)
      else if c = CHR ''v'' then Some (CHR 0x0B)
      else if c = CHR 0x5C \<or> c = CHR 0x22 then Some c
      else None)"

definition octal_val :: "char \<Rightarrow> nat option" where
  "octal_val c = (if 48 \<le> byte c \<and> byte c \<le> 55 then Some (byte c - 48) else None)"

text \<open>
  The value of the escape whose letter and rest are given: the bytes it stands for, and how many
  bytes of the rest it uses. Hexadecimal bytes have two digits, code points four or eight, octal bytes
  three digits and at most 255. An escaped single quote is an error between double quotes.
\<close>

definition escape_value :: "char \<Rightarrow> string \<Rightarrow> (string \<times> nat) option" where
  "escape_value e r =
     (case plain_escape e of Some b \<Rightarrow> Some ([b], 0)
      | None \<Rightarrow>
        if e = CHR ''x'' then map_option (\<lambda>n. ([char_of n], 2)) (hex_number 2 0 r)
        else if e = CHR ''u'' then
          (case hex_number 4 0 r of None \<Rightarrow> None | Some n \<Rightarrow> if valid_rune n then Some (utf8_encode n, 4) else None)
        else if e = CHR ''U'' then
          (case hex_number 8 0 r of None \<Rightarrow> None | Some n \<Rightarrow> if valid_rune n then Some (utf8_encode n, 8) else None)
        else (case (octal_val e, r) of
            (Some x, c1 # c2 # _) \<Rightarrow>
              (case (octal_val c1, octal_val c2) of
                 (Some y, Some z) \<Rightarrow> if 64 * x + 8 * y + z < 256 then Some ([char_of (64 * x + 8 * y + z)], 2) else None
               | _ \<Rightarrow> None)
          | _ \<Rightarrow> None))"

text \<open>
  What follows the opening quote; the closing quote must be the last byte. A newline is an error, and
  a byte of no valid UTF-8 sequence becomes U+FFFD.
\<close>

function unquote_body :: "string \<Rightarrow> string option" where
  "unquote_body s = (case s of [] \<Rightarrow> None | c # r \<Rightarrow>
     if c = CHR 0x22 then (if r = [] then Some [] else None)
     else if c = CHR 0x0A then None
     else if c = CHR 0x5C then
       (case r of [] \<Rightarrow> None | e # r' \<Rightarrow>
         (case escape_value e r' of None \<Rightarrow> None
          | Some (t, n) \<Rightarrow> map_option ((@) t) (unquote_body (drop n r'))))
     else if byte c < 128 then map_option ((#) c) (unquote_body r)
     else if utf8_len s \<le> 1 then map_option ((@) rune_error) (unquote_body r)
     else map_option ((@) (take (utf8_len s) s)) (unquote_body (drop (utf8_len s) s)))"
  by pat_completeness auto
termination
  by (relation "measure length") auto

declare unquote_body.simps [simp del]

subsection \<open>Attribute values\<close>

definition quote_char :: char where "quote_char = CHR 0x22"

definition trim_quotes :: "string \<Rightarrow> string" where
  "trim_quotes s = rev (dropWhile (\<lambda>c. c = quote_char) (rev (dropWhile (\<lambda>c. c = quote_char) s)))"

text \<open>
  \<^verbatim>\<open>unquoteAttrValue\<close> of the deposit client and \<^verbatim>\<open>unquote\<close> of the event source.
\<close>

definition unquote_attr_value :: "string \<Rightarrow> string" where
  "unquote_attr_value value =
     (let v = trim_space value in
      if 2 \<le> length v \<and> prefix [quote_char] v \<and> suffix [quote_char] v
      then (case unquote_body (tl v) of Some t \<Rightarrow> t | None \<Rightarrow> trim_quotes v)
      else v)"

fun first_non_empty :: "string list \<Rightarrow> string" where
  "first_non_empty [] = []"
| "first_non_empty (v # vs) = (if trim_space v \<noteq> [] then v else first_non_empty vs)"

lemma first_non_empty_Nil_iff: "trim_space (first_non_empty vs) = [] \<longleftrightarrow> (\<forall>v \<in> set vs. trim_space v = [])"
  by (induction vs) auto

lemma first_non_empty_some: "v \<in> set vs \<Longrightarrow> trim_space v \<noteq> [] \<Longrightarrow> trim_space (first_non_empty vs) \<noteq> []"
  by (auto simp: first_non_empty_Nil_iff)

subsection \<open>strings.Split on one byte\<close>

fun split_on :: "char \<Rightarrow> string \<Rightarrow> string list" where
  "split_on sep [] = [[]]"
| "split_on sep (c # s) = (if c = sep then [] # split_on sep s
     else (case split_on sep s of [] \<Rightarrow> [[c]] | p # ps \<Rightarrow> (c # p) # ps))"

lemma split_on_not_Nil [simp]: "split_on sep s \<noteq> []"
  by (cases s) (auto split: list.split)

lemma split_on_one: "sep \<notin> set s \<Longrightarrow> split_on sep s = [s]"
  by (induction s) auto

lemma split_on_append: "sep \<notin> set s \<Longrightarrow> split_on sep (s @ sep # t) = s # split_on sep t"
  by (induction s) auto

subsection \<open>base64\<close>

definition base64_val :: "char \<Rightarrow> nat option" where
  "base64_val c =
     (if 65 \<le> byte c \<and> byte c \<le> 90 then Some (byte c - 65)
      else if 97 \<le> byte c \<and> byte c \<le> 122 then Some (byte c - 71)
      else if 48 \<le> byte c \<and> byte c \<le> 57 then Some (byte c + 4)
      else if c = CHR ''+'' then Some 62
      else if c = CHR ''/'' then Some 63
      else None)"

text \<open>
  Groups of four after the line breaks have been dropped; padding only closes the last group. The
  unused low bits of the last digit are ignored, as the standard (non-strict) encoding does.
\<close>

definition base64_group :: "bool \<Rightarrow> char \<Rightarrow> char \<Rightarrow> char \<Rightarrow> char \<Rightarrow> string option" where
  "base64_group final a b c d =
     (case (base64_val a, base64_val b) of
        (Some x, Some y) \<Rightarrow>
          if c = CHR ''='' then
            (if d = CHR ''='' \<and> final then Some [char_of (4 * x + y div 16)] else None)
          else (case base64_val c of None \<Rightarrow> None
            | Some z \<Rightarrow>
              if d = CHR ''='' then
                (if final then Some [char_of (4 * x + y div 16), char_of (16 * (y mod 16) + z div 4)] else None)
              else map_option (\<lambda>w. [char_of (4 * x + y div 16), char_of (16 * (y mod 16) + z div 4),
                    char_of (64 * (z mod 4) + w)]) (base64_val d))
      | _ \<Rightarrow> None)"

fun base64_groups :: "string \<Rightarrow> string option" where
  "base64_groups [] = Some []"
| "base64_groups [a] = None"
| "base64_groups [a, b] = None"
| "base64_groups [a, b, c] = None"
| "base64_groups (a # b # c # d # r) =
     (case base64_group (r = []) a b c d of None \<Rightarrow> None | Some t \<Rightarrow> map_option ((@) t) (base64_groups r))"

definition base64_decode_string :: "string \<Rightarrow> string option" where
  "base64_decode_string s = base64_groups (filter (\<lambda>c. c \<noteq> CHR 0x0A \<and> c \<noteq> CHR 0x0D) s)"

subsection \<open>Escaping in URLs\<close>

definition unreserved :: "char \<Rightarrow> bool" where
  "unreserved c \<longleftrightarrow> (48 \<le> byte c \<and> byte c \<le> 57) \<or> (65 \<le> byte c \<and> byte c \<le> 90)
     \<or> (97 \<le> byte c \<and> byte c \<le> 122) \<or> c \<in> set ''-_.~''"

definition upper_hex :: "nat \<Rightarrow> char" where
  "upper_hex d = (if d < 10 then char_of (48 + d) else char_of (55 + d))"

definition percent :: "char \<Rightarrow> string" where
  "percent c = [CHR ''%'', upper_hex (byte c div 16), upper_hex (byte c mod 16)]"

definition path_escape :: "string \<Rightarrow> string" where
  "path_escape s = concat (map (\<lambda>c. if unreserved c \<or> c \<in> set ''$&+:=@'' then [c] else percent c) s)"

definition query_escape :: "string \<Rightarrow> string" where
  "query_escape s = concat (map (\<lambda>c. if unreserved c then [c] else if c = CHR '' '' then ''+'' else percent c) s)"

text \<open>An escaped segment cannot leave its place in the path.\<close>

lemma upper_hex_not: "d < 16 \<Longrightarrow> upper_hex d \<noteq> CHR ''/'' \<and> upper_hex d \<noteq> CHR ''?''"
proof -
  assume d: "d < 16"
  then have "byte (upper_hex d) = (if d < 10 then 48 + d else 55 + d)" by (simp add: upper_hex_def byte_def)
  moreover have "byte CHR ''/'' = 47" "byte CHR ''?'' = 63" by (simp_all add: byte_def)
  ultimately show ?thesis using d by (auto split: if_splits)
qed

lemma path_escape_no_slash: "CHR ''/'' \<notin> set (path_escape s) \<and> CHR ''?'' \<notin> set (path_escape s)"
proof (induction s)
  case (Cons c s)
  have "byte c < 256" by (simp add: byte_def)
  then have b: "byte c div 16 < 16" "byte c mod 16 < 16" by simp_all
  have "CHR ''/'' \<notin> set (percent c)" "CHR ''?'' \<notin> set (percent c)"
    using upper_hex_not [OF b(1)] upper_hex_not [OF b(2)] by (auto simp: percent_def)
  moreover have "\<not> unreserved CHR ''/''" "\<not> unreserved CHR ''?''" by (simp_all add: unreserved_def byte_def)
  ultimately show ?case using Cons by (auto simp: path_escape_def)
qed (simp add: path_escape_def)

end
