(* ===== verification/Go_Float.thy ===== *)
theory Go_Float
  imports Go_Json_Decode "HOL-Library.Log_Nat"
begin

text \<open>
  JSON numbers as \<^verbatim>\<open>encoding/json\<close> stores them in an \<^verbatim>\<open>any\<close>: as the
  \<^verbatim>\<open>float64\<close> nearest to the literal, ties to the even significand, an error when that is
  not finite. Only \<^verbatim>\<open>int64(f)\<close> of such a number is ever used, so what is modelled is the
  integer part of the rounded value. Where it does not fit an \<^verbatim>\<open>int64\<close> the conversion is
  implementation-specific: the functions take it as a parameter.
\<close>

subsection \<open>The literal\<close>

text \<open>
  \<open>(negative, m, e)\<close> stands for the decimal number \<open>m * 10 ^ e\<close>, negated.
\<close>

definition literal_exponent :: "string \<Rightarrow> int" where
  "literal_exponent s = (case s of [] \<Rightarrow> 0 | _ # e \<Rightarrow> (case set_string10 e of None \<Rightarrow> 0 | Some v \<Rightarrow> v))"

definition literal_parts :: "string \<Rightarrow> bool \<times> nat \<times> int" where
  "literal_parts n =
     (let neg = (case n of [] \<Rightarrow> False | c # _ \<Rightarrow> c = CHR ''-'');
          u = (if neg then tl n else n);
          i = takeWhile is_digit u;
          r = dropWhile is_digit u;
          f = (case r of [] \<Rightarrow> [] | c # t \<Rightarrow> if c = CHR ''.'' then takeWhile is_digit t else []);
          x = (case r of [] \<Rightarrow> [] | c # t \<Rightarrow> if c = CHR ''.'' then dropWhile is_digit t else r)
      in (neg, (case digits_value 0 (i @ f) of None \<Rightarrow> 0 | Some m \<Rightarrow> m), literal_exponent x - int (length f)))"

subsection \<open>Rounding to 53 bits\<close>

definition round_half_even :: "nat \<Rightarrow> nat \<Rightarrow> nat" where
  "round_half_even p q = (let d = p div q; r = p mod q in
     if 2 * r < q then d else if q < 2 * r then d + 1 else if even d then d else d + 1)"

text \<open>The fraction \<open>p / q / 2 ^ k\<close>.\<close>

definition scale_pow2 :: "nat \<Rightarrow> nat \<Rightarrow> int \<Rightarrow> nat \<times> nat" where
  "scale_pow2 p q k = (if 0 \<le> k then (p, q * 2 ^ nat k) else (p * 2 ^ nat (- k), q))"

text \<open>
  The exponent of the last bit: the one that puts \<open>p / q / 2 ^ k\<close> between \<open>2 ^ 52\<close> and
  \<open>2 ^ 53\<close>, but not below that of the subnormal numbers.
\<close>

definition last_bit :: "nat \<Rightarrow> nat \<Rightarrow> int" where
  "last_bit p q =
     (let k = int (floorlog 2 p) - int (floorlog 2 q) - 53 in
      max (- 1074) (case scale_pow2 p q k of (a, b) \<Rightarrow> if b * 2 ^ 53 \<le> a then k + 1 else k))"

text \<open>The integer part of the nearest \<^verbatim>\<open>float64\<close>, \<open>None\<close> when it would be infinite.\<close>

definition float_part :: "nat \<Rightarrow> nat \<Rightarrow> nat option" where
  "float_part p q = (if p = 0 then Some 0 else
     (let k = last_bit p q; m = (case scale_pow2 p q k of (a, b) \<Rightarrow> round_half_even a b) in
      if 0 \<le> k then (if 2 ^ 1024 \<le> m * 2 ^ nat k then None else Some (m * 2 ^ nat k))
      else Some (m div 2 ^ nat (- k))))"

definition float_trunc :: "string \<Rightarrow> int option" where
  "float_trunc n = (case literal_parts n of (neg, m, e) \<Rightarrow>
     map_option (\<lambda>v. if neg then - int v else int v)
       (if 0 \<le> e then float_part (m * 10 ^ nat e) 1 else float_part m (10 ^ nat (- e))))"

text \<open>\<^verbatim>\<open>int64(f)\<close>\<close>

definition int64_of_float :: "(int \<Rightarrow> int) \<Rightarrow> int \<Rightarrow> int" where
  "int64_of_float big v = (if - (2 ^ 63) \<le> v \<and> v < 2 ^ 63 then v else big v)"

subsection \<open>Integers are exact up to \<open>2 ^ 53\<close>\<close>

lemma round_half_even_exact: "0 < q \<Longrightarrow> round_half_even (a * q) q = a"
  by (simp add: round_half_even_def Let_def)

lemma floorlog_bounds: "0 < p \<Longrightarrow> 2 ^ (floorlog 2 p - 1) \<le> p \<and> p < 2 ^ floorlog 2 p \<and> 0 < floorlog 2 p"
  using floorlog_bounds [of p 2] by (simp add: floorlog_def)

lemma float_part_int:
  assumes "p < 2 ^ 53"
  shows "float_part p 1 = Some p"
proof (cases "p = 0")
  case False
  let ?l = "floorlog 2 p"
  let ?k = "int ?l - int (floorlog 2 1) - 53"
  have l1: "floorlog 2 1 = 1" by (simp add: floorlog_def)
  have b: "2 ^ (?l - 1) \<le> p" "p < 2 ^ ?l" "0 < ?l" using floorlog_bounds [of p] False by simp_all
  have "(2::nat) ^ (?l - 1) < 2 ^ 53" using b(1) assms by (rule le_less_trans)
  then have l: "?l - 1 < 53" by (rule power_less_imp_less_exp [rotated]) simp
  then have k: "?k < 0" "nat (- ?k) = 54 - ?l" using b(3) l1 by simp_all
  have "(1::nat) * 2 ^ 53 \<le> p * 2 ^ (54 - ?l)"
  proof -
    have "(2::nat) ^ 53 = 2 ^ (?l - 1) * 2 ^ (54 - ?l)" using l b(3) by (simp flip: power_add)
    with mult_le_mono1 [OF b(1), of "2 ^ (54 - ?l)"] show ?thesis by linarith
  qed
  then have lb: "last_bit p 1 = ?k + 1"
    using k l1 b(3) by (simp add: last_bit_def scale_pow2_def Let_def)
  let ?n = "nat (- (?k + 1))"
  have "float_part p 1 = Some p" if "?k + 1 = 0"
    using False lb that assms by (simp add: float_part_def scale_pow2_def Let_def round_half_even_def)
  moreover have "float_part p 1 = Some p" if "?k + 1 \<noteq> 0"
  proof -
    have "\<not> 0 \<le> ?k + 1" using that k by simp
    then show ?thesis using False lb round_half_even_exact [of 1 "p * 2 ^ ?n"]
      by (simp add: float_part_def scale_pow2_def Let_def)
  qed
  ultimately show ?thesis by blast
qed (simp add: float_part_def)

lemma takeWhile_digits [simp]: "takeWhile is_digit (nat_to_dec n) = nat_to_dec n" "dropWhile is_digit (nat_to_dec n) = []"
  by (auto simp: takeWhile_eq_all_conv is_digit_def dest!: nat_to_dec_digits)

lemma literal_parts_nat: "literal_parts (nat_to_dec n) = (False, n, 0)"
proof -
  obtain c r where eq: "nat_to_dec n = c # r" by (cases "nat_to_dec n") simp_all
  then have "c \<noteq> CHR ''-''" using nat_to_dec_digits [of c n] digit_char_not_sign by fastforce
  with eq have "\<not> (case nat_to_dec n of [] \<Rightarrow> False | c # _ \<Rightarrow> c = CHR ''-'')" by simp
  then show ?thesis
    by (simp add: literal_parts_def literal_exponent_def digits_value_nat_to_dec del: takeWhile_eq_all_conv)
qed

theorem float_trunc_int: "n < 2 ^ 53 \<Longrightarrow> float_trunc (nat_to_dec n) = Some (int n)"
  using float_part_int [of n] by (simp add: float_trunc_def literal_parts_nat)

end
