(* ===== verification/Chain_Query.thy ===== *)
theory Chain_Query
  imports Remote_Prover Go_Text Go_Float
begin

text \<open>
  \<^verbatim>\<open>internal/chain/rest_query_client.go\<close> and \<^verbatim>\<open>internal/service/chain_query_service.go\<close>:
  the read-only REST client of the chain module. The REST server is a parameter, a function from the
  URL of a GET to what it answers; \<open>big\<close> is the platform's conversion of a number outside the
  range of \<^verbatim>\<open>int64\<close>.
\<close>

type_synonym rest_server = "string \<Rightarrow> http_response"

subsection \<open>One query\<close>

text \<open>\<^verbatim>\<open>ChainQueryError\<close>, or any other error.\<close>

datatype query_error = ChainQueryError int string | QueryFailed go_error

record chain_error_body =
  ceb_code :: int
  ceb_message :: string

definition zero_chain_error :: chain_error_body where
  "zero_chain_error = \<lparr>ceb_code = 0, ceb_message = []\<rparr>"

definition dec_chain_error :: "chain_error_body decoder" where
  "dec_chain_error = dec_struct
     [(''code'', dec_field ceb_code (\<lambda>x e. e\<lparr>ceb_code := x\<rparr>) dec_int),
      (''message'', dec_field ceb_message (\<lambda>x e. e\<lparr>ceb_message := x\<rparr>) dec_string)]"

definition new_rest_query_client :: "string \<Rightarrow> string" where
  "new_rest_query_client base_url = trim_right_slash base_url"

text \<open>
  The body is first read as an error of the chain, whatever the status; only then does the status
  count. \<open>read\<close> stores the body's value into the caller's variable.
\<close>

definition rest_body :: "int \<Rightarrow> string \<Rightarrow> (json \<Rightarrow> 'a option) \<Rightarrow> query_error + 'a" where
  "rest_body status body read =
     (if \<not> status_ok status then Inl (QueryFailed (ErrText ''chain REST query failed''))
      else case (case json_unmarshal body of None \<Rightarrow> None | Some v \<Rightarrow> read v) of
        None \<Rightarrow> Inl (QueryFailed (ErrText ''decode chain REST response''))
      | Some x \<Rightarrow> Inr x)"

definition rest_get :: "rest_server \<Rightarrow> string \<Rightarrow> (json \<Rightarrow> 'a option) \<Rightarrow> string \<Rightarrow> query_error + 'a" where
  "rest_get server base read path =
     (if base = [] then Inl (QueryFailed (ErrText ''chain REST base URL is required''))
      else case server (base @ path) of
        NoResponse e \<Rightarrow> Inl (QueryFailed (ErrExternal e))
      | Response status body \<Rightarrow>
          (case unmarshal_into dec_chain_error zero_chain_error body of
             Some ce \<Rightarrow> if ceb_code ce \<noteq> 0 then Inl (ChainQueryError (ceb_code ce) (ceb_message ce))
               else rest_body status body read
           | None \<Rightarrow> rest_body status body read))"

definition is_not_found :: "query_error \<Rightarrow> bool" where
  "is_not_found e = (case e of ChainQueryError code _ \<Rightarrow> code = 5 | QueryFailed _ \<Rightarrow> False)"

subsection \<open>Loosely typed fields\<close>

text \<open>A number inside an \<^verbatim>\<open>any\<close> must be a finite float.\<close>

fun any_ok :: "json \<Rightarrow> bool" where
  "any_ok (JNum n) = (float_trunc n \<noteq> None)"
| "any_ok (JArr vs) = (\<forall>v \<in> set vs. any_ok v)"
| "any_ok (JObj kvs) = (\<forall>kv \<in> set kvs. any_ok (snd kv))"
| "any_ok v = True"

definition dec_any_map :: "json \<Rightarrow> (string \<rightharpoonup> json) option" where
  "dec_any_map v = (if any_ok v then dec_raw_map v else None)"

definition any_int64 :: "(int \<Rightarrow> int) \<Rightarrow> string \<Rightarrow> int" where
  "any_int64 big n = (case float_trunc n of None \<Rightarrow> 0 | Some v \<Rightarrow> int64_of_float big v)"

text \<open>A key that is missing, null, an array or an object passes to the next one.\<close>

fun get_string :: "(int \<Rightarrow> int) \<Rightarrow> (string \<rightharpoonup> json) \<Rightarrow> string list \<Rightarrow> string" where
  "get_string big m [] = []"
| "get_string big m (k # ks) = (case m k of
     Some (JStr s) \<Rightarrow> s
   | Some (JNum n) \<Rightarrow> int_to_dec (any_int64 big n)
   | Some (JBool x) \<Rightarrow> json_bool x
   | _ \<Rightarrow> get_string big m ks)"

fun get_bool :: "(string \<rightharpoonup> json) \<Rightarrow> string list \<Rightarrow> bool" where
  "get_bool m [] = False"
| "get_bool m (k # ks) = (case m k of
     Some (JBool x) \<Rightarrow> x
   | Some (JStr s) \<Rightarrow> s = ''true''
   | _ \<Rightarrow> get_bool m ks)"

fun get_int64 :: "(int \<Rightarrow> int) \<Rightarrow> (string \<rightharpoonup> json) \<Rightarrow> string list \<Rightarrow> int" where
  "get_int64 big m [] = 0"
| "get_int64 big m (k # ks) = (case m k of
     Some (JNum n) \<Rightarrow> any_int64 big n
   | Some (JStr s) \<Rightarrow> (case parse_int64 s of Some v \<Rightarrow> v | None \<Rightarrow> get_int64 big m ks)
   | _ \<Rightarrow> get_int64 big m ks)"

definition decode_deposit_record :: "(int \<Rightarrow> int) \<Rightarrow> json \<Rightarrow> deposit_record option" where
  "decode_deposit_record big raw = (case dec_any_map raw of None \<Rightarrow> None
     | Some m \<Rightarrow> Some \<lparr>dep_id = get_string big m [''depositId'', ''deposit_id''],
         dep_owner = get_string big m [''owner'', ''creator''],
         dep_denom = get_string big m [''denom''],
         dep_amount = get_string big m [''amount''],
         dep_processed = get_bool m [''processed''],
         dep_created_height = get_int64 big m [''createdHeight'', ''created_height'', ''height''],
         dep_tx_hash = get_string big m [''txHash'', ''tx_hash'']\<rparr>)"

definition decode_withdraw_record :: "(int \<Rightarrow> int) \<Rightarrow> json \<Rightarrow> withdraw_record option" where
  "decode_withdraw_record big raw = (case dec_any_map raw of None \<Rightarrow> None
     | Some m \<Rightarrow> Some \<lparr>wrec_id = get_string big m [''withdrawId'', ''withdraw_id''],
         wrec_owner = get_string big m [''owner'', ''creator''],
         wrec_denom = get_string big m [''denom''],
         wrec_amount = get_string big m [''amount''],
         wrec_destination = get_string big m [''destination''],
         wrec_nullifier = get_string big m [''nullifier''],
         wrec_claimed = get_bool m [''claimed'']\<rparr>)"

text \<open>The first of the keys that is there, also when its value is null.\<close>

fun first_raw :: "(string \<rightharpoonup> json) \<Rightarrow> string list \<Rightarrow> json option" where
  "first_raw raw [] = None"
| "first_raw raw (k # ks) = (case raw k of Some v \<Rightarrow> Some v | None \<Rightarrow> first_raw raw ks)"

text \<open>
  Where none is there the whole body is taken: marshalling the map again gives an object with the same
  members, so it reads as the body itself.
\<close>

definition record_value :: "string list \<Rightarrow> json \<Rightarrow> json option" where
  "record_value keys body = (case dec_raw_map body of None \<Rightarrow> None
     | Some raw \<Rightarrow> Some (case first_raw raw keys of Some v \<Rightarrow> v | None \<Rightarrow> body))"

subsection \<open>The queries\<close>

definition module_path :: "string \<Rightarrow> string" where
  "module_path s = ''/ob/zkdex/v1/'' @ s"

definition dec_one_string :: "string \<Rightarrow> json \<Rightarrow> string option" where
  "dec_one_string name = dec_struct [(name, dec_string)] []"

definition dec_one_bool :: "string \<Rightarrow> json \<Rightarrow> bool option" where
  "dec_one_bool name = dec_struct [(name, dec_bool)] False"

definition get_current_state_root :: "rest_server \<Rightarrow> string \<Rightarrow> query_error + string" where
  "get_current_state_root server base =
     rest_get server base (dec_one_string ''state_root'') (module_path ''current_state_root'')"

definition get_module_account_address :: "rest_server \<Rightarrow> string \<Rightarrow> query_error + string" where
  "get_module_account_address server base =
     rest_get server base (dec_one_string ''address'') (module_path ''module_account_address'')"

text \<open>Coins without a leading amount or without a denomination are skipped; a later coin replaces an earlier one.\<close>

definition add_coin :: "(string \<times> string) list \<Rightarrow> string \<Rightarrow> (string \<times> string) list" where
  "add_coin m coin0 =
     (let coin = trim_space coin0; amount = takeWhile is_digit coin; denom = dropWhile is_digit coin in
      if coin = [] \<or> amount = [] \<or> denom = [] then m else AList.update denom amount m)"

definition parse_cosmos_coin_string :: "string \<Rightarrow> (string \<times> string) list" where
  "parse_cosmos_coin_string value0 =
     (let value = trim_space value0 in
      if value = [] then [] else foldl add_coin [] (split_on (CHR '','') value))"

definition get_module_account_balance :: "rest_server \<Rightarrow> string \<Rightarrow> query_error + (string \<times> string) list" where
  "get_module_account_balance server base =
     (case rest_get server base (dec_one_string ''balance'') (module_path ''module_account_balance'') of
        Inl e \<Rightarrow> Inl e | Inr s \<Rightarrow> Inr (parse_cosmos_coin_string s))"

definition get_deposit_processed :: "rest_server \<Rightarrow> string \<Rightarrow> string \<Rightarrow> query_error + bool" where
  "get_deposit_processed server base i =
     rest_get server base (dec_one_bool ''processed'') (module_path (''deposit_processed/'' @ path_escape i))"

definition get_nullifier_used :: "rest_server \<Rightarrow> string \<Rightarrow> string \<Rightarrow> query_error + bool" where
  "get_nullifier_used server base n =
     rest_get server base (dec_one_bool ''used'') (module_path (''nullifier_used/'' @ path_escape n))"

text \<open>\<open>None\<close> is the false of \<^verbatim>\<open>(record, found, err)\<close>.\<close>

definition get_record :: "rest_server \<Rightarrow> string \<Rightarrow> string list \<Rightarrow> (json \<Rightarrow> 'r option) \<Rightarrow> string \<Rightarrow> query_error + 'r option" where
  "get_record server base keys decode path =
     (case rest_get server base (record_value keys) path of
        Inl e \<Rightarrow> if is_not_found e then Inr None else Inl e
      | Inr v \<Rightarrow> (case decode v of None \<Rightarrow> Inl (QueryFailed (ErrText ''decode chain record'')) | Some r \<Rightarrow> Inr (Some r)))"

definition get_deposit_record :: "rest_server \<Rightarrow> string \<Rightarrow> (int \<Rightarrow> int) \<Rightarrow> string \<Rightarrow> query_error + deposit_record option" where
  "get_deposit_record server base big i =
     get_record server base [''deposit_record'', ''depositRecord'', ''record''] (decode_deposit_record big)
       (module_path (''deposit_record/'' @ path_escape i))"

definition chain_withdraw_record :: "rest_server \<Rightarrow> string \<Rightarrow> (int \<Rightarrow> int) \<Rightarrow> string \<Rightarrow> query_error + withdraw_record option" where
  "chain_withdraw_record server base big i =
     get_record server base [''withdraw_record'', ''withdrawRecord'', ''record''] (decode_withdraw_record big)
       (module_path (''withdraw_record/'' @ path_escape i))"

subsection \<open>The service\<close>

definition go_error_of :: "query_error \<Rightarrow> go_error" where
  "go_error_of e = (case e of ChainQueryError code message \<Rightarrow> ErrExternal message | QueryFailed g \<Rightarrow> g)"

text \<open>\<^verbatim>\<open>ErrChainWithdrawRecordNotFound\<close> is the error with this text.\<close>

definition chain_record_not_found :: go_error where
  "chain_record_not_found = ErrText ''withdraw record not found''"

definition service_chain_withdraw_record :: "rest_server \<Rightarrow> string \<Rightarrow> (int \<Rightarrow> int) \<Rightarrow> string \<Rightarrow> withdraw_record res" where
  "service_chain_withdraw_record server base big i = (case chain_withdraw_record server base big i of
     Inl e \<Rightarrow> Inl (go_error_of e) | Inr None \<Rightarrow> Inl chain_record_not_found | Inr (Some r) \<Rightarrow> Inr r)"

definition service_chain_nullifier_used :: "rest_server \<Rightarrow> string \<Rightarrow> string \<Rightarrow> (string \<times> bool) res" where
  "service_chain_nullifier_used server base n = (case get_nullifier_used server base n of
     Inl e \<Rightarrow> Inl (go_error_of e) | Inr used \<Rightarrow> Inr (n, used))"

subsection \<open>As the repositories use it\<close>

definition rest_state_query :: "rest_server \<Rightarrow> string \<Rightarrow> state_query" where
  "rest_state_query server base = \<lparr>
     sq_root = (case get_current_state_root server base of Inl e \<Rightarrow> Inl (go_error_of e) | Inr r \<Rightarrow> Inr r),
     sq_module_balance = (case get_module_account_balance server base of Inl e \<Rightarrow> Inl (go_error_of e) | Inr m \<Rightarrow> Inr m)\<rparr>"

definition rest_deposit_query :: "rest_server \<Rightarrow> string \<Rightarrow> (int \<Rightarrow> int) \<Rightarrow> string \<Rightarrow> deposit_record option res" where
  "rest_deposit_query server base big i = (case get_deposit_record server base big i of
     Inl e \<Rightarrow> Inl (go_error_of e) | Inr r \<Rightarrow> Inr r)"

subsection \<open>Coins\<close>

text \<open>A coin as the bank module prints it.\<close>

definition coin_ok :: "string \<times> string \<Rightarrow> bool" where
  "coin_ok c \<longleftrightarrow> plain (fst c) \<and> CHR '','' \<notin> set (fst c) \<and> \<not> is_digit (hd (fst c))
     \<and> snd c \<noteq> [] \<and> (\<forall>x \<in> set (snd c). is_digit x)"

definition print_coin :: "string \<times> string \<Rightarrow> string" where
  "print_coin c = snd c @ fst c"

fun print_coins :: "(string \<times> string) list \<Rightarrow> string" where
  "print_coins [] = []"
| "print_coins [c] = print_coin c"
| "print_coins (c # cs) = print_coin c @ CHR '','' # print_coins cs"

lemma digit_plain: "is_digit c \<Longrightarrow> plain_char c"
  by (auto simp: is_digit_def digit_val_def plain_char_def split: if_splits)

lemma plain_coin: "coin_ok c \<Longrightarrow> plain (print_coin c)"
  by (auto simp: coin_ok_def print_coin_def plain_def list_all_iff digit_plain)

lemma coin_no_comma: "coin_ok c \<Longrightarrow> CHR '','' \<notin> set (print_coin c)"
  by (auto simp: coin_ok_def print_coin_def is_digit_def digit_val_def)

lemma add_coin_print: "coin_ok c \<Longrightarrow> add_coin m (print_coin c) = AList.update (fst c) (snd c) m"
proof -
  assume c: "coin_ok c"
  obtain x d where d: "fst c = x # d" "\<not> is_digit x" using c by (cases "fst c") (auto simp: coin_ok_def plain_def)
  have t: "trim_space (print_coin c) = print_coin c" by (rule trim_space_plain [OF plain_coin [OF c]])
  have "takeWhile is_digit (print_coin c) = snd c" "dropWhile is_digit (print_coin c) = fst c"
    using c d by (simp_all add: print_coin_def coin_ok_def takeWhile_append dropWhile_append)
  moreover have "snd c \<noteq> []" "fst c \<noteq> []" "print_coin c \<noteq> []" using c d by (simp_all add: coin_ok_def print_coin_def)
  moreover have "\<not> (\<forall>y \<in> set (print_coin c). is_digit y)" using d by (simp add: print_coin_def)
  ultimately show ?thesis by (auto simp add: add_coin_def t Let_def)
qed

lemma split_coins: "cs \<noteq> [] \<Longrightarrow> \<forall>c \<in> set cs. coin_ok c \<Longrightarrow> split_on (CHR '','') (print_coins cs) = map print_coin cs"
proof (induction cs rule: print_coins.induct)
  case (3 c d cs)
  then show ?case using split_on_append [OF coin_no_comma [of c]] by simp
qed (simp_all add: split_on_one coin_no_comma)

lemma print_coins_ends:
  "cs \<noteq> [] \<Longrightarrow> \<forall>c \<in> set cs. coin_ok c \<Longrightarrow> print_coins cs \<noteq> [] \<and> plain_char (hd (print_coins cs)) \<and> plain_char (last (print_coins cs))"
proof (induction cs rule: print_coins.induct)
  case (2 c)
  then have "plain (print_coin c)" by (simp add: plain_coin)
  then show ?case by (cases "print_coin c") (auto simp: plain_def list_all_iff)
next
  case (3 c d cs)
  then have "plain (print_coin c)" by (simp add: plain_coin)
  then show ?case using 3 by (cases "print_coin c") (auto simp: plain_def list_all_iff)
qed simp

lemma fold_add_coins:
  "\<forall>c \<in> set cs. coin_ok c \<Longrightarrow> map_of (foldl add_coin m (map print_coin cs)) = map_of m ++ map_of (rev cs)"
proof (induction cs arbitrary: m)
  case (Cons c cs)
  then show ?case by (cases c) (simp add: add_coin_print map_add_def fun_eq_iff split: option.split)
qed simp

lemma map_of_rev_distinct: "distinct (map fst m) \<Longrightarrow> map_of (rev m) = map_of m"
proof (induction m)
  case (Cons x m)
  then have "map_of m (fst x) = None" by (simp add: map_of_eq_None_iff)
  with Cons show ?case by (auto simp: map_add_def fun_eq_iff split: option.split)
qed simp

lemma parse_print_coins:
  assumes "\<forall>c \<in> set cs. coin_ok c" and "distinct (map fst cs)"
  shows "map_of (parse_cosmos_coin_string (print_coins cs)) = map_of cs"
proof (cases "cs = []")
  case False
  from print_coins_ends [OF False assms(1)] have t: "trim_space (print_coins cs) = print_coins cs" "print_coins cs \<noteq> []"
    by (auto intro: trim_space_bounded)
  then have "map_of (parse_cosmos_coin_string (print_coins cs)) = map_of (rev cs)"
    using split_coins [OF False assms(1)] fold_add_coins [OF assms(1), of "[]"]
    by (simp add: parse_cosmos_coin_string_def Let_def)
  then show ?thesis by (simp add: map_of_rev_distinct [OF assms(2)])
qed (simp add: parse_cosmos_coin_string_def)

subsection \<open>Records\<close>

lemma any_int64_int: "0 \<le> h \<Longrightarrow> h < 2 ^ 53 \<Longrightarrow> float_trunc (int_to_dec h) = Some h"
  using float_trunc_int [of "nat h"] by (simp add: int_to_dec_def)

lemma decode_deposit_record_json:
  "0 \<le> dep_created_height r \<Longrightarrow> dep_created_height r < 2 ^ 53 \<Longrightarrow>
     decode_deposit_record big (deposit_record_json r) = Some r"
  by (simp add: decode_deposit_record_def deposit_record_json_def dec_any_map_def dec_raw_map_def
      any_int64_def any_int64_int int64_of_float_def)

lemma decode_withdraw_record_json: "decode_withdraw_record big (withdraw_record_json r) = Some r"
  by (simp add: decode_withdraw_record_def withdraw_record_json_def dec_any_map_def dec_raw_map_def)

text \<open>The answer of the gateway to a query for a record: an object with the record under one name.\<close>

definition answers_record :: "rest_server \<Rightarrow> string \<Rightarrow> string \<Rightarrow> json \<Rightarrow> bool" where
  "answers_record server url name v \<longleftrightarrow> (\<exists>status. status_ok status
     \<and> server url = Response status (json_text (JObj [(name, v)])))"

lemma dec_chain_error_other:
  "fold_name name \<noteq> ''CODE'' \<Longrightarrow> fold_name name \<noteq> ''MESSAGE'' \<Longrightarrow>
     dec_chain_error zero_chain_error (JObj [(name, v)]) = Some zero_chain_error"
proof -
  assume n: "fold_name name \<noteq> ''CODE''" "fold_name name \<noteq> ''MESSAGE''"
  have f: "fold_name ''code'' = ''CODE''" "fold_name ''message'' = ''MESSAGE''"
    by (simp_all add: fold_name.simps upper_ascii_def byte_def char_of_def bit_0 bit_Suc)
  then have "name \<noteq> ''code''" "name \<noteq> ''message''" using n by auto
  with n f show ?thesis by (simp add: dec_chain_error_def find_field_def)
qed

lemma rest_get_record:
  assumes "base \<noteq> []" and "answers_record server (base @ path) name v"
    and "fold_name name \<noteq> ''CODE''" and "fold_name name \<noteq> ''MESSAGE''"
    and "json_fits (max_nesting - 1) v" and "json_valid (JObj [(name, v)])"
  shows "rest_get server base read path = (case read (JObj [(name, v)]) of
     None \<Rightarrow> Inl (QueryFailed (ErrText ''decode chain REST response'')) | Some x \<Rightarrow> Inr x)"
proof -
  let ?v = "JObj [(name, v)]"
  have fits: "json_fits max_nesting ?v" using assms(5) by (simp add: max_nesting_def)
  obtain status where st: "status_ok status" "server (base @ path) = Response status (json_text ?v)"
    using assms(2) by (auto simp: answers_record_def)
  have "json_unmarshal (json_text ?v) = Some ?v"
    using unmarshal_json_text [OF fits] json_clean_valid [OF assms(6)] by simp
  moreover have "unmarshal_into dec_chain_error zero_chain_error (json_text ?v) = Some zero_chain_error"
    using unmarshal_into_text [OF fits assms(6), of dec_chain_error zero_chain_error]
      dec_chain_error_other [OF assms(3,4)] by simp
  ultimately show ?thesis using assms(1) st
    by (simp add: rest_get_def rest_body_def zero_chain_error_def del: json_text.simps)
qed

lemma record_value_here:
  "first_raw (map_of (rev [(name, v)])) keys = Some v \<Longrightarrow> record_value keys (JObj [(name, v)]) = Some v"
  by (simp add: record_value_def dec_raw_map_def)

definition deposit_names :: "string list" where
  "deposit_names = [''deposit_record'', ''depositRecord'', ''record'']"

lemma deposit_names_fold: "name \<in> set deposit_names \<Longrightarrow> fold_name name \<noteq> ''CODE'' \<and> fold_name name \<noteq> ''MESSAGE''"
proof -
  have "fold_name (c # r) \<noteq> CHR ''C'' # t \<and> fold_name (c # r) \<noteq> CHR ''M'' # t"
    if "c = CHR ''d'' \<or> c = CHR ''r''" for c r t
    using that by (auto simp: fold_name.simps [of "_ # _"] upper_ascii_def byte_def char_of_def bit_0 bit_Suc)
  then show "name \<in> set deposit_names \<Longrightarrow> ?thesis" by (auto simp: deposit_names_def)
qed

lemma deposit_names_ascii: "name \<in> set deposit_names \<Longrightarrow> utf8_valid name"
  by (auto simp: deposit_names_def byte_def intro!: utf8_valid_ascii)

lemma deposit_names_found: "name \<in> set deposit_names \<Longrightarrow> first_raw (map_of (rev [(name, v)])) deposit_names = Some v"
  by (auto simp: deposit_names_def)

text \<open>The path of the query for a deposit.\<close>

definition deposit_url :: "string \<Rightarrow> string \<Rightarrow> string" where
  "deposit_url base i = base @ module_path (''deposit_record/'' @ path_escape i)"

theorem rest_deposit_read_back:
  assumes "base \<noteq> []" and "answers_record server (deposit_url base i) name (deposit_record_json r)"
    and "name \<in> set deposit_names" and "0 \<le> dep_created_height r" and "dep_created_height r < 2 ^ 53"
    and "json_valid (deposit_record_json r)"
  shows "get_deposit_record server base big i = Inr (Some r)"
proof -
  have fits: "json_fits (max_nesting - 1) (deposit_record_json r)" by (simp add: max_nesting_def)
  have valid: "json_valid (JObj [(name, deposit_record_json r)])"
    using assms(6) deposit_names_ascii [OF assms(3)] by simp
  have "rest_get server base (record_value deposit_names) (module_path (''deposit_record/'' @ path_escape i))
      = Inr (deposit_record_json r)"
    using rest_get_record [where read = "record_value deposit_names", OF assms(1) assms(2) [unfolded deposit_url_def] _ _ fits valid]
      deposit_names_fold [OF assms(3)] record_value_here [OF deposit_names_found [OF assms(3)]] by simp
  then show ?thesis
    by (simp add: get_deposit_record_def get_record_def deposit_names_def [symmetric]
      decode_deposit_record_json [OF assms(4,5)])
qed

text \<open>The chain said that it has no such record: an error body with code 5 (gRPC NotFound).\<close>

definition answers_not_found :: "rest_server \<Rightarrow> string \<Rightarrow> bool" where
  "answers_not_found server url \<longleftrightarrow> (\<exists>status body ce. server url = Response status body
     \<and> unmarshal_into dec_chain_error zero_chain_error body = Some ce \<and> ceb_code ce = 5)"

lemma rest_body_no_chain_error: "rest_body status body read \<noteq> Inl (ChainQueryError code message)"
  by (auto simp: rest_body_def split: option.splits)

lemma rest_get_not_found:
  "rest_get server base read path = Inl e \<Longrightarrow> is_not_found e \<Longrightarrow> answers_not_found server (base @ path)"
  using rest_body_no_chain_error
  by (fastforce simp: rest_get_def is_not_found_def answers_not_found_def
      split: if_splits http_response.splits option.splits query_error.splits)

lemma get_deposit_record_None:
  "get_deposit_record server base big i = Inr None \<Longrightarrow> answers_not_found server (deposit_url base i)"
  by (auto simp: get_deposit_record_def get_record_def deposit_url_def dest: rest_get_not_found
      split: sum.splits if_splits option.splits)

lemma rest_deposit_query_Inr: "rest_deposit_query server base big i = Inr x \<longleftrightarrow> get_deposit_record server base big i = Inr x"
  by (auto simp: rest_deposit_query_def split: sum.splits)

end
