(* ===== verification/Http_Interface.thy ===== *)
theory Http_Interface
  imports Json_Responses Chain_Query Backend_Invariant
begin

text \<open>
  \<^verbatim>\<open>internal/api/router.go\<close>, \<^verbatim>\<open>internal/handler\<close>, \<^verbatim>\<open>internal/request\<close> and
  \<^verbatim>\<open>internal/response\<close>: from a request to the reply and the new state of the application. The
  server's multiplexer has already split the path into unescaped segments; a request runs to its end
  before the next one. A panic of a handler is caught by the server, which drops the connection.
\<close>

record web_request =
  wq_method :: string
  wq_segments :: "string list"
  wq_body :: string

text \<open>
  A status alone (from the multiplexer or the CORS wrapper), the \<^verbatim>\<open>error\<close> body with a fixed
  message or with an error's text, a JSON body, or no reply at all.
\<close>

datatype reply = ReplyStatus int | ReplyMessage int string | ReplyError int go_error | ReplyJson int json | ReplyAborted

text \<open>What the read-only handlers use beside the application: the REST client and the query mode.\<close>

record http_deps =
  hd_server :: rest_server
  hd_base :: string
  hd_big :: "int \<Rightarrow> int"
  hd_query_mode :: string

definition http_bad_request :: int where "http_bad_request = 400"
definition http_not_found :: int where "http_not_found = 404"

subsection \<open>Routes\<close>

datatype endpoint = EHealth | EState | ECreateDeposit | EListDeposits | EGetDeposit string
  | ECreateWithdraw | EListWithdraws | EGetWithdraw string | EClaimWithdraw
  | EBuildBatch | ESubmitBatch | EGenerateProof
  | EChainWithdrawRecord string | EChainNullifier string | ECancelBatch string

definition fixed_routes :: "(string list \<times> string \<times> endpoint) list" where
  "fixed_routes =
     [([''api'', ''health''], ''GET'', EHealth), ([''api'', ''state''], ''GET'', EState),
      ([''api'', ''deposit''], ''POST'', ECreateDeposit), ([''api'', ''deposits''], ''GET'', EListDeposits),
      ([''api'', ''withdraw-request''], ''POST'', ECreateWithdraw),
      ([''api'', ''withdraw-requests''], ''GET'', EListWithdraws),
      ([''api'', ''withdraw'', ''claim''], ''POST'', EClaimWithdraw),
      ([''api'', ''batch'', ''build''], ''POST'', EBuildBatch),
      ([''api'', ''batch'', ''submit''], ''POST'', ESubmitBatch),
      ([''api'', ''proof'', ''generate''], ''POST'', EGenerateProof)]"

text \<open>
  A wildcard matches one segment that is not empty. Every path has one method. The handler for
  cancelling exists only with the offchain settlement service.
\<close>

definition wildcard_route :: "bool \<Rightarrow> string list \<Rightarrow> (string \<times> endpoint) option" where
  "wildcard_route has_offchain segs = (case segs of
     [a, b, c] \<Rightarrow>
       if c = [] then None
       else if [a, b] = [''api'', ''deposits''] then Some (''GET'', EGetDeposit c)
       else if [a, b] = [''api'', ''withdraw-requests''] then Some (''GET'', EGetWithdraw c)
       else None
   | [a, b, c, d] \<Rightarrow>
       if d = [] then None
       else if [a, b, c] = [''api'', ''chain'', ''withdraw-records''] then Some (''GET'', EChainWithdrawRecord d)
       else if [a, b, c] = [''api'', ''chain'', ''nullifiers''] then Some (''GET'', EChainNullifier d)
       else None
   | [a, b, c, d, e, f] \<Rightarrow>
       if e \<noteq> [] \<and> has_offchain \<and> [a, b, c, d] = [''api'', ''internal'', ''offchain-settlement'', ''batches''] \<and> f = ''cancel''
       then Some (''POST'', ECancelBatch e) else None
   | _ \<Rightarrow> None)"

definition find_route :: "bool \<Rightarrow> string list \<Rightarrow> (string \<times> endpoint) option" where
  "find_route has_offchain segs = (case map_of fixed_routes segs of Some r \<Rightarrow> Some r
     | None \<Rightarrow> wildcard_route has_offchain segs)"

subsection \<open>Bodies\<close>

record deposit_body =
  db_owner :: string
  db_denom :: string
  db_amount :: string

definition dec_deposit_body :: "deposit_body decoder" where
  "dec_deposit_body = dec_struct
     [(''owner'', dec_field db_owner (\<lambda>x b. b\<lparr>db_owner := x\<rparr>) dec_string),
      (''denom'', dec_field db_denom (\<lambda>x b. b\<lparr>db_denom := x\<rparr>) dec_string),
      (''amount'', dec_field db_amount (\<lambda>x b. b\<lparr>db_amount := x\<rparr>) dec_string)]"

definition dec_withdraw_body :: "withdraw_request_body decoder" where
  "dec_withdraw_body = dec_struct
     [(''owner'', dec_field wb_owner (\<lambda>x b. b\<lparr>wb_owner := x\<rparr>) dec_string),
      (''denom'', dec_field wb_denom (\<lambda>x b. b\<lparr>wb_denom := x\<rparr>) dec_string),
      (''amount'', dec_field wb_amount (\<lambda>x b. b\<lparr>wb_amount := x\<rparr>) dec_string),
      (''destination'', dec_field wb_destination (\<lambda>x b. b\<lparr>wb_destination := x\<rparr>) dec_string)]"

definition dec_build_body :: "build_batch_body decoder" where
  "dec_build_body = dec_struct
     [(''depositIds'', dec_field bb_deposit_ids (\<lambda>x b. b\<lparr>bb_deposit_ids := x\<rparr>) (dec_list [] dec_string)),
      (''withdrawIds'', dec_field bb_withdraw_ids (\<lambda>x b. b\<lparr>bb_withdraw_ids := x\<rparr>) (dec_list [] dec_string))]"

definition dec_claim_body :: "string decoder" where
  "dec_claim_body = dec_struct [(''withdrawId'', dec_string)]"

definition dec_cancel_body :: "string decoder" where
  "dec_cancel_body = dec_struct [(''reason'', dec_string)]"

text \<open>\<^verbatim>\<open>request.JSON\<close>: a body that does not decode is answered here, and the handler returns.\<close>

definition with_body :: "'b decoder \<Rightarrow> 'b \<Rightarrow> string \<Rightarrow> ('b \<Rightarrow> 'w app \<times> reply) \<Rightarrow> 'w app \<Rightarrow> 'w app \<times> reply" where
  "with_body dec zero body handle a = (case decode_into dec zero body of
     None \<Rightarrow> (a, ReplyMessage http_bad_request ''invalid JSON body'')
   | Some b \<Rightarrow> handle b)"

definition respond :: "(go_error \<Rightarrow> reply) \<Rightarrow> ('a \<Rightarrow> json) \<Rightarrow> 'w app \<times> 'a res \<Rightarrow> 'w app \<times> reply" where
  "respond on_error render x = (case x of
     (a, Inl e) \<Rightarrow> (a, if is_panic e then ReplyAborted else on_error e)
   | (a, Inr v) \<Rightarrow> (a, ReplyJson 200 (render v)))"

definition bad_request :: "go_error \<Rightarrow> reply" where
  "bad_request e = ReplyError http_bad_request e"

subsection \<open>Handlers\<close>

definition handle_create_deposit :: "'w wiring \<Rightarrow> nat \<Rightarrow> string \<Rightarrow> 'w app \<Rightarrow> 'w app \<times> reply" where
  "handle_create_deposit wg now body a =
     with_body dec_deposit_body \<lparr>db_owner = [], db_denom = [], db_amount = []\<rparr> body (\<lambda>b.
       if db_owner b = [] \<or> db_denom b = [] \<or> db_amount b = []
       then (a, ReplyMessage http_bad_request ''owner, denom and amount are required'')
       else respond bad_request deposit_response_json
         (create_deposit wg now \<lparr>dq_owner = db_owner b, dq_denom = db_denom b, dq_amount = db_amount b\<rparr> a)) a"

definition handle_get_deposit :: "'w wiring \<Rightarrow> string \<Rightarrow> 'w app \<Rightarrow> 'w app \<times> reply" where
  "handle_get_deposit wg i a = respond (\<lambda>e. if e = ErrDepositNotFound
       then ReplyMessage http_not_found ''deposit not found'' else ReplyError 500 e)
     get_deposit_json (a, get_deposit_service wg i a)"

definition withdraw_error :: "go_error \<Rightarrow> reply" where
  "withdraw_error e = (if is_withdraw_insufficient_balance_error e
     then ReplyMessage http_bad_request ''insufficient off-chain balance'' else bad_request e)"

definition handle_create_withdraw :: "'w wiring \<Rightarrow> nat \<Rightarrow> string \<Rightarrow> 'w app \<Rightarrow> 'w app \<times> reply" where
  "handle_create_withdraw wg now body a =
     with_body dec_withdraw_body \<lparr>wb_owner = [], wb_denom = [], wb_amount = [], wb_destination = []\<rparr> body (\<lambda>b.
       if wb_owner b = [] \<or> wb_denom b = [] \<or> wb_amount b = [] \<or> wb_destination b = []
       then (a, ReplyMessage http_bad_request ''owner, denom, amount and destination are required'')
       else respond withdraw_error withdraw_response_json (create_withdraw_service wg now b a)) a"

definition handle_get_withdraw :: "'w wiring \<Rightarrow> string \<Rightarrow> 'w app \<Rightarrow> 'w app \<times> reply" where
  "handle_get_withdraw wg i a = respond (\<lambda>e. if e = ErrWithdrawRequestNotFound
       then ReplyMessage http_not_found ''withdraw request not found'' else ReplyError 500 e)
     get_withdraw_json (get_withdraw_service wg i a)"

definition claim_error :: "go_error \<Rightarrow> reply" where
  "claim_error e = (if e = ErrWithdrawRecordNotFound then ReplyMessage http_not_found ''withdraw record not found''
     else if e = ErrWithdrawAlreadyClaimed then ReplyMessage http_bad_request ''withdraw already claimed''
     else bad_request e)"

definition handle_claim :: "'w wiring \<Rightarrow> string \<Rightarrow> 'w app \<Rightarrow> 'w app \<times> reply" where
  "handle_claim wg body a = with_body dec_claim_body [] body (\<lambda>i.
     if i = [] then (a, ReplyMessage http_bad_request ''withdrawId is required'')
     else respond claim_error claim_response_json (claim_withdraw_service wg i a)) a"

definition build_error :: "go_error \<Rightarrow> reply" where
  "build_error e =
     (if e = ErrDepositNotFound then ReplyMessage http_not_found ''deposit not found''
      else if e = ErrWithdrawRequestNotFound then ReplyMessage http_not_found ''withdraw request not found''
      else if e = ErrNoPendingSettlementOperations then ReplyMessage http_bad_request ''no pending settlement operations''
      else if e = ErrOffchainSettlementUnavailable then ReplyMessage http_bad_request ''offchain settlement service unavailable''
      else if e = ErrOffchainSettlementServiceRequired then ReplyMessage http_bad_request ''offchain settlement service is required''
      else if e = ErrManualBatchDepositNotFound then ReplyMessage http_not_found ''deposit not found''
      else if e = ErrManualBatchInsufficientOffchainBalance then ReplyMessage http_bad_request ''insufficient off-chain balance''
      else bad_request e)"

definition handle_build_batch :: "'w wiring \<Rightarrow> string \<Rightarrow> 'w app \<Rightarrow> 'w app \<times> reply" where
  "handle_build_batch wg body a = with_body dec_build_body \<lparr>bb_deposit_ids = [], bb_withdraw_ids = []\<rparr> body
     (\<lambda>b. respond build_error build_response_json (build_batch wg b a)) a"

definition handle_submit_batch :: "'w wiring \<Rightarrow> string \<Rightarrow> 'w app \<Rightarrow> 'w app \<times> reply" where
  "handle_submit_batch wg body a = with_body dec_submit_body zero_submit_body body (\<lambda>b.
     if su_batch_id (sb_update b) = [] then (a, ReplyMessage http_bad_request ''settlementUpdate.batchId is required'')
     else if pb_proof (sb_proof b) = [] then (a, ReplyMessage http_bad_request ''proofBundle.proof is required'')
     else respond bad_request submit_response_json (submit_batch wg b a)) a"

definition handle_generate_proof :: "'w wiring \<Rightarrow> string \<Rightarrow> 'w app \<Rightarrow> 'w app \<times> reply" where
  "handle_generate_proof wg body a = with_body dec_proof_body zero_proof_body body (\<lambda>b.
     if su_batch_id (prb_update b) = [] then (a, ReplyMessage http_bad_request ''settlementUpdate is required'')
     else if bc_deposits_root (prb_commitments b) = [] then (a, ReplyMessage http_bad_request ''batchCommitments is required'')
     else if wit_accounts (prb_witness b) = [] then (a, ReplyMessage http_bad_request ''witness.accounts is required'')
     else respond bad_request proof_response_json
       (generate_proof wg (prb_update b) (prb_commitments b) (prb_witness b) a)) a"

definition handle_chain_record :: "http_deps \<Rightarrow> string \<Rightarrow> 'w app \<Rightarrow> 'w app \<times> reply" where
  "handle_chain_record deps i a = respond (\<lambda>e. if e = chain_record_not_found
       then ReplyMessage http_not_found ''withdraw record not found'' else ReplyError 502 e)
     chain_record_json (a, service_chain_withdraw_record (hd_server deps) (hd_base deps) (hd_big deps) i)"

definition handle_chain_nullifier :: "http_deps \<Rightarrow> string \<Rightarrow> 'w app \<Rightarrow> 'w app \<times> reply" where
  "handle_chain_nullifier deps n a = respond (ReplyError 502) chain_nullifier_json
     (a, service_chain_nullifier_used (hd_server deps) (hd_base deps) n)"

definition cancel_error :: "go_error \<Rightarrow> reply" where
  "cancel_error e =
     (if e = ErrOffchainSettlementUnavailable then ReplyMessage http_bad_request ''offchain settlement service unavailable''
      else if e = ErrOffchainSettlementRecordNotFound then ReplyMessage http_not_found ''included settlement batch not found''
      else bad_request e)"

definition handle_cancel :: "'w wiring \<Rightarrow> string \<Rightarrow> string \<Rightarrow> 'w app \<Rightarrow> 'w app \<times> reply" where
  "handle_cancel wg batch body a =
     (if \<not> wg_has_offchain wg then (a, ReplyMessage http_bad_request ''offchain settlement service unavailable'')
      else with_body dec_cancel_body [] body (\<lambda>reason0.
        let reason = (if reason0 = [] then ''manual cancel before submit'' else reason0) in
        respond cancel_error (\<lambda>_. cancel_response_json batch reason)
          (on_service (cancel_included_batch batch reason) a)) a)"

definition handle_state :: "http_deps \<Rightarrow> 'w app \<Rightarrow> 'w app \<times> reply" where
  "handle_state deps a = (a, ReplyJson 200 (app_state_json
     (get_state_service (Some (rest_state_query (hd_server deps) (hd_base deps))) (hd_query_mode deps) a)))"

subsection \<open>Dispatch\<close>

fun handle :: "'w wiring \<Rightarrow> http_deps \<Rightarrow> nat \<Rightarrow> string \<Rightarrow> endpoint \<Rightarrow> 'w app \<Rightarrow> 'w app \<times> reply" where
  "handle wg deps now body EHealth a = (a, ReplyJson 200 health_json)"
| "handle wg deps now body EState a = handle_state deps a"
| "handle wg deps now body ECreateDeposit a = handle_create_deposit wg now body a"
| "handle wg deps now body EListDeposits a = (a, ReplyJson 200 (deposits_json (list_deposits_service a)))"
| "handle wg deps now body (EGetDeposit i) a = handle_get_deposit wg i a"
| "handle wg deps now body ECreateWithdraw a = handle_create_withdraw wg now body a"
| "handle wg deps now body EListWithdraws a = respond bad_request withdraw_requests_json (list_withdraw_service wg a)"
| "handle wg deps now body (EGetWithdraw i) a = handle_get_withdraw wg i a"
| "handle wg deps now body EClaimWithdraw a = handle_claim wg body a"
| "handle wg deps now body EBuildBatch a = handle_build_batch wg body a"
| "handle wg deps now body ESubmitBatch a = handle_submit_batch wg body a"
| "handle wg deps now body EGenerateProof a = handle_generate_proof wg body a"
| "handle wg deps now body (EChainWithdrawRecord i) a = handle_chain_record deps i a"
| "handle wg deps now body (EChainNullifier n) a = handle_chain_nullifier deps n a"
| "handle wg deps now body (ECancelBatch batch) a = handle_cancel wg batch body a"

text \<open>
  \<^verbatim>\<open>withCORS\<close> answers every OPTIONS itself. A pattern for GET also serves HEAD; a path that
  is known under another method is 405, an unknown one 404.
\<close>

definition http_serve :: "'w wiring \<Rightarrow> http_deps \<Rightarrow> nat \<Rightarrow> web_request \<Rightarrow> 'w app \<Rightarrow> 'w app \<times> reply" where
  "http_serve wg deps now rq a =
     (if wq_method rq = ''OPTIONS'' then (a, ReplyStatus 204)
      else case find_route (wg_has_offchain wg) (wq_segments rq) of
        None \<Rightarrow> (a, ReplyStatus http_not_found)
      | Some (m, e) \<Rightarrow>
          if wq_method rq = m \<or> m = ''GET'' \<and> wq_method rq = ''HEAD'' then handle wg deps now (wq_body rq) e a
          else (a, ReplyStatus 405))"

subsection \<open>What a request can do\<close>

lemma respond_app [simp]: "fst (respond on_error render x) = fst x"
  by (simp add: respond_def split: prod.split sum.split)

lemma with_body_cases:
  "with_body dec zero body h a = (a, ReplyMessage http_bad_request ''invalid JSON body'') \<and> decode_into dec zero body = None
   \<or> (\<exists>b. decode_into dec zero body = Some b \<and> with_body dec zero body h a = h b)"
  by (cases "decode_into dec zero body") (simp_all add: with_body_def)

lemma with_body_keeps:
  "(\<And>b. fst (h b) = a \<or> serve wg a (fst (h b))) \<Longrightarrow>
     fst (with_body dec zero body h a) = a \<or> serve wg a (fst (with_body dec zero body h a))"
  using with_body_cases [of dec zero body h a] by (metis fst_conv)

text \<open>Each handler that calls an operation is one step of it.\<close>

lemma served:
  "serve wg a (fst (create_deposit wg now dreq a))" "serve wg a (fst (get_withdraw_service wg i a))"
  "serve wg a (fst (list_withdraw_service wg a))" "serve wg a (fst (create_withdraw_service wg now wbody a))"
  "serve wg a (fst (claim_withdraw_service wg i a))" "serve wg a (fst (build_batch wg breq a))"
  "serve wg a (fst (generate_proof wg u com wit a))" "serve wg a (fst (submit_batch wg sreq a))"
  "serve wg a (fst (on_service (cancel_included_batch batch reason) a))"
  by (rule serve_deposit serve_get serve_list serve_withdraw serve_claim serve_build serve_prove serve_submit
      serve_cancel, rule prod.collapse [symmetric])+

lemma handle_serves: "fst (handle wg deps now body e a) = a \<or> serve wg a (fst (handle wg deps now body e a))"
proof (cases e)
  case ECreateDeposit
  show ?thesis unfolding ECreateDeposit handle.simps handle_create_deposit_def
    by (rule with_body_keeps) (simp add: served)
next
  case ECreateWithdraw
  show ?thesis unfolding ECreateWithdraw handle.simps handle_create_withdraw_def
    by (rule with_body_keeps) (simp add: served)
next
  case EClaimWithdraw
  show ?thesis unfolding EClaimWithdraw handle.simps handle_claim_def
    by (rule with_body_keeps) (simp add: served)
next
  case EBuildBatch
  show ?thesis unfolding EBuildBatch handle.simps handle_build_batch_def
    by (rule with_body_keeps) (simp add: served)
next
  case ESubmitBatch
  show ?thesis unfolding ESubmitBatch handle.simps handle_submit_batch_def
    by (rule with_body_keeps) (simp add: served)
next
  case EGenerateProof
  show ?thesis unfolding EGenerateProof handle.simps handle_generate_proof_def
    by (rule with_body_keeps) (simp add: served)
next
  case (ECancelBatch batch)
  show ?thesis
  proof (cases "wg_has_offchain wg")
    case True
    then show ?thesis unfolding ECancelBatch handle.simps handle_cancel_def
      by (simp only: not_True_eq_False if_False, intro with_body_keeps) (simp add: served Let_def)
  qed (simp add: ECancelBatch handle_cancel_def)
qed (simp_all add: handle_state_def handle_get_deposit_def handle_get_withdraw_def handle_chain_record_def
      handle_chain_nullifier_def served)

lemma http_serve_serves: "fst (http_serve wg deps now rq a) = a \<or> serve wg a (fst (http_serve wg deps now rq a))"
  by (auto simp: http_serve_def split: option.split) (metis handle_serves)+

subsection \<open>Reading\<close>

text \<open>Nothing but the clock and the answers of the database, which every statement uses up.\<close>

definition only_read :: "'w app \<Rightarrow> 'w app \<Rightarrow> bool" where
  "only_read a a' \<longleftrightarrow> a' = a\<lparr>ap_backend := ap_backend a'\<rparr> \<and> be_store (ap_backend a') = be_store (ap_backend a)
     \<and> (be_db (ap_backend a') = be_db (ap_backend a) \<or> be_db (ap_backend a') = ad_next (be_db (ap_backend a)))"

lemma only_read_refl [simp]: "only_read a a"
  by (simp add: only_read_def)

definition reads :: "'a backend_op \<Rightarrow> bool" where
  "reads m \<longleftrightarrow> (\<forall>b. be_store (fst (m b)) = be_store b
     \<and> (be_db (fst (m b)) = be_db b \<or> be_db (fst (m b)) = ad_next (be_db b)))"

lemma reads_call:
  assumes "\<And>db. \<forall>db' x. body db = Inr (db', x) \<longrightarrow> db' = db"
  shows "reads (app_call what body)"
  unfolding reads_def
proof
  fix b :: backend
  show "be_store (fst (app_call what body b)) = be_store b
    \<and> (be_db (fst (app_call what body b)) = be_db b \<or> be_db (fst (app_call what body b)) = ad_next (be_db b))"
    using assms [of "ad_next (be_db b)"]
    by (auto simp: app_call_def Let_def split: list.split option.split sum.split)
qed

lemma reads_or_panic: "reads m \<Longrightarrow> reads (or_panic what m)"
  unfolding reads_def or_panic_def by (auto split: prod.splits sum.splits) (metis fst_conv)+

lemma reads_get_request: "reads (get_withdraw_request wp i)"
proof (cases "requests_in_postgres wp")
  case True
  have "reads (get_withdraw_request_postgres i)" unfolding get_withdraw_request_postgres_def
    by (rule reads_call) (auto split: option.split)
  with True show ?thesis by (simp add: get_withdraw_request_def [abs_def])
qed (simp add: get_withdraw_request_def [abs_def] get_withdraw_request_memory_def [abs_def] reads_def)

lemma reads_list_requests: "reads (list_withdraw_requests wp)"
proof (cases "requests_in_postgres wp")
  case True
  have "reads list_withdraw_requests_postgres" unfolding list_withdraw_requests_postgres_def
    by (rule reads_call) auto
  with True show ?thesis by (simp add: list_withdraw_requests_def [abs_def] reads_or_panic)
qed (simp add: list_withdraw_requests_def [abs_def] reads_def)

lemma on_backend_only_read: "reads m \<Longrightarrow> only_read a (fst (on_backend m a))"
  unfolding reads_def only_read_def on_backend_def by (auto split: prod.split) (metis fst_conv)+

definition get_endpoint :: "endpoint \<Rightarrow> bool" where
  "get_endpoint e \<longleftrightarrow> e \<in> {EHealth, EState, EListDeposits, EListWithdraws}
     \<or> (\<exists>i. e = EGetDeposit i \<or> e = EGetWithdraw i \<or> e = EChainWithdrawRecord i \<or> e = EChainNullifier i)"

lemma find_route_method: "find_route h segs = Some (m, e) \<Longrightarrow> m = ''GET'' \<and> get_endpoint e \<or> m = ''POST'' \<and> \<not> get_endpoint e"
proof -
  assume r: "find_route h segs = Some (m, e)"
  show ?thesis
  proof (cases "map_of fixed_routes segs")
    case None
    with r have "wildcard_route h segs = Some (m, e)" by (simp add: find_route_def)
    then show ?thesis by (auto simp: wildcard_route_def get_endpoint_def split: list.splits if_splits)
  next
    case (Some x)
    with r have "(segs, m, e) \<in> set fixed_routes" by (auto simp: find_route_def dest: map_of_SomeD)
    then show ?thesis by (auto simp: fixed_routes_def get_endpoint_def)
  qed
qed

lemma handle_only_reads: "get_endpoint e \<Longrightarrow> only_read a (fst (handle wg deps now body e a))"
  by (auto simp: get_endpoint_def handle_state_def handle_get_deposit_def handle_get_withdraw_def handle_chain_record_def
      handle_chain_nullifier_def get_withdraw_service_def list_withdraw_service_def
      on_backend_only_read reads_get_request reads_list_requests)

lemma find_route_get: "find_route h segs = Some (m, e) \<Longrightarrow> m \<noteq> ''POST'' \<Longrightarrow> get_endpoint e"
  using find_route_method [of h segs m e] by blast

lemma http_get_only_reads:
  assumes "wq_method rq \<noteq> ''POST''"
  shows "only_read a (fst (http_serve wg deps now rq a))"
proof (cases "find_route (wg_has_offchain wg) (wq_segments rq)")
  case (Some x)
  obtain m e where x: "x = (m, e)" by (cases x)
  show ?thesis
  proof (cases "wq_method rq = m \<or> m = ''GET'' \<and> wq_method rq = ''HEAD''")
    case True
    then have "m \<noteq> ''POST''" using assms by auto
    then have "get_endpoint e" using find_route_get Some x by blast
    then show ?thesis using Some x True by (simp add: http_serve_def handle_only_reads)
  qed (auto simp: http_serve_def Some x)
qed (simp add: http_serve_def)

subsection \<open>Bodies that do not decode\<close>

fun body_decodes :: "endpoint \<Rightarrow> string \<Rightarrow> bool" where
  "body_decodes ECreateDeposit body =
     (decode_into dec_deposit_body \<lparr>db_owner = [], db_denom = [], db_amount = []\<rparr> body \<noteq> None)"
| "body_decodes ECreateWithdraw body =
     (decode_into dec_withdraw_body \<lparr>wb_owner = [], wb_denom = [], wb_amount = [], wb_destination = []\<rparr> body \<noteq> None)"
| "body_decodes EClaimWithdraw body = (decode_into dec_claim_body [] body \<noteq> None)"
| "body_decodes EBuildBatch body =
     (decode_into dec_build_body \<lparr>bb_deposit_ids = [], bb_withdraw_ids = []\<rparr> body \<noteq> None)"
| "body_decodes ESubmitBatch body = (decode_into dec_submit_body zero_submit_body body \<noteq> None)"
| "body_decodes EGenerateProof body = (decode_into dec_proof_body zero_proof_body body \<noteq> None)"
| "body_decodes (ECancelBatch batch) body = (decode_into dec_cancel_body [] body \<noteq> None)"
| "body_decodes _ body = True"

definition invalid_body :: reply where
  "invalid_body = ReplyMessage http_bad_request ''invalid JSON body''"

lemma cancel_route: "find_route h segs = Some (m, ECancelBatch batch) \<Longrightarrow> h"
  by (auto simp: find_route_def wildcard_route_def fixed_routes_def split: option.splits list.splits if_splits)

lemma handle_invalid_body:
  "\<not> body_decodes e body \<Longrightarrow> (\<And>b. e = ECancelBatch b \<Longrightarrow> wg_has_offchain wg) \<Longrightarrow>
     handle wg deps now body e a = (a, invalid_body)"
  by (cases e) (simp_all add: with_body_def invalid_body_def handle_create_deposit_def handle_create_withdraw_def
      handle_claim_def handle_build_batch_def handle_submit_batch_def handle_generate_proof_def handle_cancel_def)

lemma http_invalid_body:
  assumes "find_route (wg_has_offchain wg) (wq_segments rq) = Some (wq_method rq, e)" and "wq_method rq \<noteq> ''OPTIONS''"
    and "\<not> body_decodes e (wq_body rq)"
  shows "http_serve wg deps now rq a = (a, invalid_body)"
proof -
  have "handle wg deps now (wq_body rq) e a = (a, invalid_body)"
    by (rule handle_invalid_body [OF assms(3)]) (use assms(1) cancel_route in blast)
  with assms(1,2) show ?thesis by (simp add: http_serve_def)
qed

subsection \<open>A client that posts back what it was answered\<close>

definition post :: "string list \<Rightarrow> string \<Rightarrow> web_request" where
  "post segs body = \<lparr>wq_method = ''POST'', wq_segments = segs, wq_body = body\<rparr>"

text \<open>The encoder ends a body with a newline.\<close>

definition written :: "json \<Rightarrow> string" where
  "written v = json_text v @ [CHR 0x0A]"

definition batch_path :: "string \<Rightarrow> string list" where
  "batch_path what = [''api'', ''batch'', what]"

definition proof_path :: "string list" where
  "proof_path = [''api'', ''proof'', ''generate'']"

lemma serve_routes:
  "http_serve wg deps now (post (batch_path ''build'') body) a = handle_build_batch wg body a"
  "http_serve wg deps now (post (batch_path ''submit'') body) a = handle_submit_batch wg body a"
  "http_serve wg deps now (post proof_path body) a = handle_generate_proof wg body a"
  by (simp_all add: http_serve_def post_def find_route_def fixed_routes_def batch_path_def proof_path_def)

lemma json_fits_partial_state: "0 < d \<Longrightarrow> json_fits d (partial_state_json s)"
  by (auto simp: partial_state_json_def optional_field_def)

lemma build_response_fits: "json_fits max_nesting (build_response_json b)"
  by (simp add: build_response_json_def max_nesting_def json_fits_parts json_fits_partial_state)

lemma decode_written:
  "json_fits max_nesting v \<Longrightarrow> json_valid v \<Longrightarrow> decode_into f zero (written v) = f zero v"
  unfolding written_def by (rule decode_into_text) simp_all

definition batch_complete :: "build_batch_response \<Rightarrow> bool" where
  "batch_complete b \<longleftrightarrow> su_batch_id (bbr_update b) \<noteq> [] \<and> bc_deposits_root (bbr_commitments b) \<noteq> []
     \<and> wit_accounts (bbr_witness b) \<noteq> [] \<and> json_valid (build_response_json b)"

lemma json_valid_parts:
  "json_valid (build_response_json b) \<Longrightarrow> json_valid (settlement_update_json (bbr_update b))
     \<and> json_valid (batch_commitments_json (bbr_commitments b))"
  by (simp add: build_response_json_def)

lemma utf8_valid_names:
  "utf8_valid ''settlementUpdate''" "utf8_valid ''batchCommitments''" "utf8_valid ''proofBundle''"
  by (simp_all add: utf8_valid_ascii byte_def)

definition submit_of :: "build_batch_response \<Rightarrow> proof_bundle \<Rightarrow> submit_batch_body" where
  "submit_of b p = \<lparr>sb_update = bbr_update b, sb_commitments = bbr_commitments b, sb_proof = p\<rparr>"

lemma client_steps:
  assumes build: "build_batch wg breq a = (a1, Inr built)"
    and body: "decode_into dec_build_body \<lparr>bb_deposit_ids = [], bb_withdraw_ids = []\<rparr> text0 = Some breq"
    and complete: "batch_complete built"
    and prove: "generate_proof wg (bbr_update built) (bbr_commitments built) (bbr_witness built) a1 = (a2, Inr p)"
    and p: "pb_proof p \<noteq> []" "json_valid (proof_bundle_json p)"
    and submit: "submit_batch wg (submit_of built p) a2 = (a3, Inr res)"
  shows "http_serve wg deps now (post (batch_path ''build'') text0) a = (a1, ReplyJson 200 (build_response_json built))"
    and "http_serve wg deps now (post proof_path (written (build_response_json built))) a1 = (a2, ReplyJson 200 (proof_response_json p))"
    and "http_serve wg deps now (post (batch_path ''submit'') (written (submit_body_json (submit_of built p)))) a2
      = (a3, ReplyJson 200 (submit_response_json res))"
proof -
  show "http_serve wg deps now (post (batch_path ''build'') text0) a = (a1, ReplyJson 200 (build_response_json built))"
    by (simp add: serve_routes handle_build_batch_def with_body_def body build respond_def)
  have "decode_into dec_proof_body zero_proof_body (written (build_response_json built))
      = Some \<lparr>prb_update = bbr_update built, prb_commitments = bbr_commitments built, prb_witness = bbr_witness built\<rparr>"
    using complete by (simp add: decode_written build_response_fits batch_complete_def build_response_as_proof_body)
  then show "http_serve wg deps now (post proof_path (written (build_response_json built))) a1 = (a2, ReplyJson 200 (proof_response_json p))"
    using complete by (simp add: serve_routes handle_generate_proof_def with_body_def batch_complete_def prove respond_def)
  have "json_valid (submit_body_json (submit_of built p))"
    using complete p(2) json_valid_parts [of built]
    by (simp add: submit_body_json_def submit_of_def batch_complete_def utf8_valid_names)
  then have "decode_into dec_submit_body zero_submit_body (written (submit_body_json (submit_of built p))) = Some (submit_of built p)"
    by (simp add: decode_written dec_submit_body_json)
  then show "http_serve wg deps now (post (batch_path ''submit'') (written (submit_body_json (submit_of built p)))) a2
      = (a3, ReplyJson 200 (submit_response_json res))"
    using complete p(1) submit
    by (simp add: serve_routes handle_submit_batch_def with_body_def batch_complete_def respond_def submit_of_def)
qed

end
