(* ===== verification/Cosmos_Deposit.thy ===== *)
theory Cosmos_Deposit
  imports User_Services Go_Text
begin

text \<open>
  \<^verbatim>\<open>internal/chain/cosmos_client.go\<close>: the deposit client that shells out to the chain binary,
  with the decoding of what the binary prints. The process runner, the context and the timer are the
  environment \<open>cli\<close> of the relayer's theory, over the same state.
\<close>

subsection \<open>Configuration and arguments\<close>

record deposit_config =
  dc_binary :: string
  dc_chain_id :: string
  dc_node :: string
  dc_keyring_backend :: string
  dc_home :: string
  dc_gas :: string
  dc_gas_adjustment :: string
  dc_gas_prices :: string
  dc_fees :: string
  dc_broadcast_mode :: string
  dc_tx_query_retries :: int
  dc_tx_query_interval :: int

definition deposit_defaults :: "deposit_config \<Rightarrow> deposit_config" where
  "deposit_defaults c = c\<lparr>dc_binary := or_default (dc_binary c) ''obd'',
     dc_keyring_backend := or_default (dc_keyring_backend c) ''test'',
     dc_gas := or_default (dc_gas c) ''auto'',
     dc_gas_adjustment := or_default (dc_gas_adjustment c) ''1.5'',
     dc_broadcast_mode := or_default (dc_broadcast_mode c) ''sync'',
     dc_tx_query_retries := (if dc_tx_query_retries c \<le> 0 then 20 else dc_tx_query_retries c),
     dc_tx_query_interval := (if dc_tx_query_interval c \<le> 0 then second else dc_tx_query_interval c)\<rparr>"

definition deposit_tx_args :: "deposit_config \<Rightarrow> string \<Rightarrow> string list" where
  "deposit_tx_args c signer =
     [''--from'', signer, ''--chain-id'', dc_chain_id c, ''--keyring-backend'', dc_keyring_backend c,
      ''--gas'', dc_gas c, ''--gas-adjustment'', dc_gas_adjustment c,
      ''--broadcast-mode'', dc_broadcast_mode c, ''--output'', ''json'', ''-y'']
     @ flag_if ''--node'' (dc_node c) @ flag_if ''--home'' (dc_home c)
     @ (if trim_space (dc_fees c) \<noteq> [] then [''--fees'', dc_fees c]
        else flag_if ''--gas-prices'' (dc_gas_prices c))"

definition deposit_query_args :: "deposit_config \<Rightarrow> string \<Rightarrow> string list" where
  "deposit_query_args c h = [''query'', ''tx'', h, ''--output'', ''json'']
     @ flag_if ''--node'' (dc_node c) @ flag_if ''--home'' (dc_home c)"

subsection \<open>What the binary prints\<close>

record tx_event =
  te_type :: string
  te_attributes :: "(string \<times> string) list"

record chain_tx =
  ct_hash :: string
  ct_code :: int
  ct_raw_log :: string
  ct_height :: int
  ct_events :: "tx_event list"
  ct_logs :: "tx_event list list"

definition zero_tx_event :: tx_event where
  "zero_tx_event = \<lparr>te_type = [], te_attributes = []\<rparr>"

definition zero_chain_tx :: chain_tx where
  "zero_chain_tx = \<lparr>ct_hash = [], ct_code = 0, ct_raw_log = [], ct_height = 0, ct_events = [], ct_logs = []\<rparr>"

definition dec_attribute :: "(string \<times> string) decoder" where
  "dec_attribute = dec_struct
     [(''key'', dec_field fst (\<lambda>x a. (x, snd a)) dec_string),
      (''value'', dec_field snd (\<lambda>x a. (fst a, x)) dec_string)]"

definition dec_tx_event :: "tx_event decoder" where
  "dec_tx_event = dec_struct
     [(''type'', dec_field te_type (\<lambda>x e. e\<lparr>te_type := x\<rparr>) dec_string),
      (''attributes'', dec_field te_attributes (\<lambda>x e. e\<lparr>te_attributes := x\<rparr>) (dec_list ([], []) dec_attribute))]"

definition dec_abci_log :: "tx_event list decoder" where
  "dec_abci_log = dec_struct [(''events'', dec_list zero_tx_event dec_tx_event)]"

text \<open>The height has the tag \<^verbatim>\<open>json:"-"\<close>, so this decoder does not see it.\<close>

definition dec_chain_tx :: "chain_tx decoder" where
  "dec_chain_tx = dec_struct
     [(''txhash'', dec_field ct_hash (\<lambda>x t. t\<lparr>ct_hash := x\<rparr>) dec_string),
      (''code'', dec_field ct_code (\<lambda>x t. t\<lparr>ct_code := x\<rparr>) dec_int),
      (''raw_log'', dec_field ct_raw_log (\<lambda>x t. t\<lparr>ct_raw_log := x\<rparr>) dec_string),
      (''events'', dec_field ct_events (\<lambda>x t. t\<lparr>ct_events := x\<rparr>) (dec_list zero_tx_event dec_tx_event)),
      (''logs'', dec_field ct_logs (\<lambda>x t. t\<lparr>ct_logs := x\<rparr>) (dec_list [] dec_abci_log))]"

definition dec_height_envelope :: "string decoder" where
  "dec_height_envelope = dec_struct [(''height'', dec_string)]"

text \<open>
  The height is kept at zero when it is missing, is not a string, or is not an \<^verbatim>\<open>int64\<close>.
\<close>

definition envelope_height :: "string \<Rightarrow> int" where
  "envelope_height body = (case unmarshal_into dec_height_envelope [] body of None \<Rightarrow> 0
     | Some h \<Rightarrow> (case parse_int64 (trim_space h) of None \<Rightarrow> 0 | Some v \<Rightarrow> v))"

definition parse_tx_result :: "string \<Rightarrow> chain_tx res" where
  "parse_tx_result out =
     (let raw = trim_space out in
      if raw = [] then Inl (ErrText ''empty CLI output'')
      else case json_span raw of
        None \<Rightarrow> Inl (ErrText ''no JSON object in CLI output'')
      | Some body \<Rightarrow> (case unmarshal_into dec_chain_tx zero_chain_tx body of
          None \<Rightarrow> Inl (ErrText ''decode CLI output'')
        | Some tx \<Rightarrow> if ct_hash tx = [] then Inl (ErrText ''CLI output missing txhash'')
            else Inr (tx\<lparr>ct_height := envelope_height body\<rparr>)))"

subsection \<open>The deposit event\<close>

text \<open>
  \<^verbatim>\<open>attrs[normalizeAttrKey(a.Key)] = unquoteAttrValue(a.Value)\<close> for each attribute, so the last
  one under a key counts; a missing key reads as the empty string.
\<close>

definition attribute_map :: "(string \<times> string) list \<Rightarrow> string \<Rightarrow> string" where
  "attribute_map attrs k = (case map_of (rev (map (\<lambda>(x, v). (trim_space x, unquote_attr_value v)) attrs)) k of
     None \<Rightarrow> [] | Some v \<Rightarrow> v)"

definition deposit_event :: "string \<Rightarrow> string \<Rightarrow> string \<Rightarrow> string \<Rightarrow> chain_event" where
  "deposit_event i creator denom amount = \<lparr>ev_type = type_deposit,
     ev_attrs = [''depositId'' \<mapsto> i, ''creator'' \<mapsto> creator, ''denom'' \<mapsto> denom, ''amount'' \<mapsto> amount]\<rparr>"

fun find_deposit_event :: "string \<Rightarrow> string \<Rightarrow> string \<Rightarrow> tx_event list \<Rightarrow> chain_event option" where
  "find_deposit_event owner denom amount [] = None"
| "find_deposit_event owner denom amount (e # es) =
     (let attrs = attribute_map (te_attributes e);
          i = first_non_empty [attrs ''depositId'', attrs ''deposit_id''] in
      if \<not> go_contains (te_type e) ''EventDeposit'' \<or> i = [] then find_deposit_event owner denom amount es
      else Some (deposit_event i (first_non_empty [attrs ''creator'', attrs ''owner'', owner])
             (first_non_empty [attrs ''denom'', denom]) (first_non_empty [attrs ''amount'', amount])))"

definition extract_deposit_event :: "chain_tx \<Rightarrow> string \<Rightarrow> string \<Rightarrow> string \<Rightarrow> chain_event option" where
  "extract_deposit_event tx owner denom amount =
     find_deposit_event owner denom amount (ct_events tx @ concat (ct_logs tx))"

subsection \<open>Deposit\<close>

definition query_tx :: "'w cli \<Rightarrow> deposit_config \<Rightarrow> string \<Rightarrow> 'w \<Rightarrow> 'w \<times> chain_tx res" where
  "query_tx cl c h w = (case cli_run cl (dc_binary c) (deposit_query_args c h) w of
     (w', _, Some e) \<Rightarrow> (w', Inl (ErrExternal e))
   | (w', out, None) \<Rightarrow> (w', parse_tx_result out))"

definition empty_tx_result :: tx_result where
  "empty_tx_result = \<lparr>txr_hash = [], txr_height = 0, txr_events = []\<rparr>"

text \<open>
  How the polling ends: \<^verbatim>\<open>Deposit\<close> returns from within the loop, or the event was never seen,
  or it was found in a transaction of some height.
\<close>

datatype poll_outcome = PollReturn "tx_result res" | PollMissing | PollFound chain_event int

text \<open>\<^verbatim>\<open>return TxResult{}, ctx.Err()\<close>\<close>

definition deposit_cancelled :: "'w cli \<Rightarrow> 'w \<Rightarrow> tx_result res" where
  "deposit_cancelled cl w = (case cli_ctx_err cl w of Some e \<Rightarrow> Inl (ErrExternal e) | None \<Rightarrow> Inr empty_tx_result)"

definition rejected_by_chain :: "tx_result res" where
  "rejected_by_chain = Inl (ErrText ''deposit rejected by chain'')"

text \<open>By the number of attempts left; only the first does not wait before it asks.\<close>

fun poll_deposit :: "'w cli \<Rightarrow> deposit_config \<Rightarrow> string \<Rightarrow> (chain_tx \<Rightarrow> chain_event option) \<Rightarrow> bool \<Rightarrow> nat
    \<Rightarrow> 'w \<Rightarrow> 'w \<times> poll_outcome" where
  "poll_deposit cl c h extract first 0 w = (w, PollMissing)"
| "poll_deposit cl c h extract first (Suc n) w =
     (case (if first then (w, True) else cli_wait cl (dc_tx_query_interval c) w) of
        (w1, False) \<Rightarrow> (w1, PollReturn (deposit_cancelled cl w1))
      | (w1, True) \<Rightarrow> (case query_tx cl c h w1 of
          (w2, Inl _) \<Rightarrow> poll_deposit cl c h extract False n w2
        | (w2, Inr q) \<Rightarrow>
            if ct_code q \<noteq> 0 then (w2, PollReturn rejected_by_chain)
            else (case extract q of
                Some ev \<Rightarrow> (w2, PollFound ev (ct_height q))
              | None \<Rightarrow> poll_deposit cl c h extract False n w2)))"

definition deposit_result :: "chain_tx \<Rightarrow> int \<Rightarrow> chain_event \<Rightarrow> tx_result" where
  "deposit_result tx height ev = \<lparr>txr_hash = ct_hash tx, txr_height = height, txr_events = [ev]\<rparr>"

text \<open>What \<^verbatim>\<open>Deposit\<close> does once the broadcast transaction has been read.\<close>

definition deposit_finish :: "'w cli \<Rightarrow> deposit_config \<Rightarrow> string \<Rightarrow> string \<Rightarrow> string \<Rightarrow> chain_tx \<Rightarrow> 'w \<Rightarrow> 'w \<times> tx_result res" where
  "deposit_finish cl c owner denom amount tx w =
     (if ct_code tx \<noteq> 0 then (w, rejected_by_chain)
      else case extract_deposit_event tx owner denom amount of
        Some ev \<Rightarrow> (w, Inr (deposit_result tx (ct_height tx) ev))
      | None \<Rightarrow> (case poll_deposit cl c (ct_hash tx) (\<lambda>q. extract_deposit_event q owner denom amount) True
                    (nat (dc_tx_query_retries c)) w of
            (w', PollReturn r) \<Rightarrow> (w', r)
          | (w', PollMissing) \<Rightarrow> (w', Inl (ErrText ''deposit tx committed but EventDeposit not found after polling''))
          | (w', PollFound ev h) \<Rightarrow>
              (w', Inr (deposit_result tx (if h \<noteq> 0 then h else ct_height tx) ev))))"

definition cosmos_deposit_on :: "'w cli \<Rightarrow> deposit_config \<Rightarrow> deposit_request \<Rightarrow> 'w \<Rightarrow> 'w \<times> tx_result res" where
  "cosmos_deposit_on cl c req w =
     (let owner = trim_space (dq_owner req); denom = trim_space (dq_denom req); amount = trim_space (dq_amount req) in
      if owner = [] \<or> denom = [] \<or> amount = [] then (w, Inl (ErrText ''owner, denom and amount are required''))
      else if (case parse_int64 amount of None \<Rightarrow> True | Some v \<Rightarrow> v \<le> 0)
        then (w, Inl (ErrText ''amount must be a positive integer string''))
      else case cli_run cl (dc_binary c) ([''tx'', ''zkdex'', ''deposit'', denom, amount] @ deposit_tx_args c owner) w of
        (w1, out, run_err) \<Rightarrow>
          (case (run_err, parse_tx_result out) of
             (Some e, Inl _) \<Rightarrow> (w1, Inl (ErrExternal e))
           | (None, Inl pe) \<Rightarrow> (w1, Inl pe)
           | (_, Inr tx) \<Rightarrow> deposit_finish cl c owner denom amount tx w1))"

text \<open>\<^verbatim>\<open>NewCosmosClient(cfg, runner).Deposit\<close>\<close>

definition cosmos_deposit :: "'w cli \<Rightarrow> deposit_config \<Rightarrow> deposit_request \<Rightarrow> 'w \<Rightarrow> 'w \<times> tx_result res" where
  "cosmos_deposit cl cfg = cosmos_deposit_on cl (deposit_defaults cfg)"

subsection \<open>What a deposit returns\<close>

text \<open>A record every field of which the indexer and the services need is there.\<close>

definition deposit_complete :: "deposit_record \<Rightarrow> bool" where
  "deposit_complete r \<longleftrightarrow> trim_space (dep_id r) \<noteq> [] \<and> trim_space (dep_owner r) \<noteq> [] \<and> trim_space (dep_denom r) \<noteq> []
     \<and> trim_space (dep_amount r) \<noteq> [] \<and> \<not> dep_processed r"

definition event_complete :: "chain_event \<Rightarrow> bool" where
  "event_complete ev \<longleftrightarrow> (\<exists>i creator denom amount. ev = deposit_event i creator denom amount
     \<and> trim_space i \<noteq> [] \<and> trim_space creator \<noteq> [] \<and> trim_space denom \<noteq> [] \<and> trim_space amount \<noteq> [])"

lemma find_deposit_event_complete:
  assumes "trim_space owner \<noteq> []" and "trim_space denom \<noteq> []" and "trim_space amount \<noteq> []"
  shows "find_deposit_event owner denom amount es = Some ev \<Longrightarrow> event_complete ev"
proof (induction es)
  case (Cons e es)
  let ?at = "attribute_map (te_attributes e)"
  show ?case
  proof (cases "\<not> go_contains (te_type e) ''EventDeposit'' \<or> first_non_empty [?at ''depositId'', ?at ''deposit_id''] = []")
    case False
    have "trim_space (first_non_empty [?at ''depositId'', ?at ''deposit_id'']) \<noteq> []"
      using False by (auto split: if_splits)
    moreover have "trim_space (first_non_empty [?at ''creator'', ?at ''owner'', owner]) \<noteq> []"
      "trim_space (first_non_empty [?at ''denom'', denom]) \<noteq> []" "trim_space (first_non_empty [?at ''amount'', amount]) \<noteq> []"
      using assms by simp_all
    ultimately show ?thesis using Cons.prems False unfolding event_complete_def
      by (auto simp: Let_def simp del: first_non_empty.simps)
  qed (use Cons in \<open>auto simp: Let_def\<close>)
qed simp

lemma trim_nonempty: "trim_space s \<noteq> [] \<Longrightarrow> s \<noteq> []"
  by auto

lemma event_complete_record:
  assumes "event_complete ev"
  shows "ev_type ev = type_deposit" and "\<exists>r. deposit_record_from_event tx ev = Inr r \<and> deposit_complete r
    \<and> dep_tx_hash r = txr_hash tx \<and> dep_created_height r = txr_height tx"
  using assms
  by (auto simp: event_complete_def deposit_event_def deposit_record_from_event_def deposit_complete_def Let_def
      dest: trim_nonempty)

definition extracted_from :: "string \<Rightarrow> string \<Rightarrow> string \<Rightarrow> chain_event \<Rightarrow> bool" where
  "extracted_from owner denom amount ev \<longleftrightarrow> (\<exists>tx. extract_deposit_event tx owner denom amount = Some ev)"

lemma poll_deposit_found:
  "poll_deposit cl c h extract first n w = (w', PollFound ev k) \<Longrightarrow> \<exists>tx. extract tx = Some ev \<and> ct_code tx = 0"
  by (induction n arbitrary: first w) (auto split: prod.splits sum.splits bool.splits if_splits option.splits)

lemma poll_deposit_return:
  assumes "ctx_law cl"
  shows "poll_deposit cl c h extract first n w = (w', PollReturn r) \<Longrightarrow> \<exists>e. r = Inl e"
proof (induction n arbitrary: first w)
  case (Suc n)
  show ?case
  proof (cases "if first then (w, True) else cli_wait cl (dc_tx_query_interval c) w")
    case (Pair w1 k)
    show ?thesis
    proof (cases k)
      case False
      then have "cli_ctx_err cl w1 \<noteq> None"
        using assms Pair unfolding ctx_law_def by (metis fst_conv snd_conv)
      with Suc.prems Pair False show ?thesis by (auto simp: deposit_cancelled_def)
    next
      case True
      with Suc.prems Pair show ?thesis
        by (auto simp: rejected_by_chain_def dest: Suc.IH split: prod.splits sum.splits if_splits option.splits)
    qed
  qed
qed simp

lemma parse_tx_result_hash: "parse_tx_result out = Inr tx \<Longrightarrow> ct_hash tx \<noteq> []"
  by (auto simp: parse_tx_result_def Let_def split: option.splits if_splits)

lemma deposit_finish_Inr:
  assumes "ctx_law cl" and "deposit_finish cl c owner denom amount tx w = (w', Inr r)"
  shows "\<exists>k ev q. r = deposit_result tx k ev \<and> extract_deposit_event q owner denom amount = Some ev \<and> ct_code tx = 0"
  using assms(2) poll_deposit_return [OF assms(1)]
  by (fastforce simp: deposit_finish_def rejected_by_chain_def dest: poll_deposit_found
      split: if_splits option.splits prod.splits poll_outcome.splits)

lemma cosmos_deposit_on_Inr:
  assumes "ctx_law cl" and "cosmos_deposit_on cl c req w = (w', Inr r)"
  shows "\<exists>tx k ev. r = deposit_result tx k ev \<and> event_complete ev \<and> ct_hash tx \<noteq> []"
proof -
  let ?o = "trim_space (dq_owner req)" and ?d = "trim_space (dq_denom req)" and ?a = "trim_space (dq_amount req)"
  obtain w1 out err where run: "cli_run cl (dc_binary c) ([''tx'', ''zkdex'', ''deposit'', ?d, ?a] @ deposit_tx_args c ?o) w = (w1, out, err)"
    by (metis prod_cases3)
  from assms(2) run have ne: "?o \<noteq> []" "?d \<noteq> []" "?a \<noteq> []"
    by (auto simp: cosmos_deposit_on_def Let_def split: if_splits)
  from assms(2) run ne obtain tx where tx: "parse_tx_result out = Inr tx"
      "deposit_finish cl c ?o ?d ?a tx w1 = (w', Inr r)"
    by (auto simp: cosmos_deposit_on_def Let_def split: if_splits option.splits sum.splits)
  from deposit_finish_Inr [OF assms(1) tx(2)] obtain k ev q where
      r: "r = deposit_result tx k ev" "extract_deposit_event q ?o ?d ?a = Some ev" by blast
  have "event_complete ev"
    using find_deposit_event_complete [of ?o ?d ?a] r(2) ne by (auto simp: extract_deposit_event_def)
  with r(1) parse_tx_result_hash [OF tx(1)] show ?thesis by blast
qed

subsection \<open>How often the binary runs\<close>

lemma query_tx_trace:
  "traced cl trace \<Longrightarrow> query_tx cl c h w = (w', r) \<Longrightarrow>
     \<exists>out err. trace w' = trace w @ [(dc_binary c, deposit_query_args c h, out, err)]"
  by (auto simp: query_tx_def dest: traced_run split: prod.splits option.splits)

lemma traced_wait: "traced cl trace \<Longrightarrow> cli_wait cl d w = (w', k) \<Longrightarrow> trace w' = trace w"
  unfolding traced_def by (metis fst_conv)

definition only_queries :: "deposit_config \<Rightarrow> string \<Rightarrow> cli_run_record list \<Rightarrow> bool" where
  "only_queries c h runs \<longleftrightarrow> (\<forall>(b, args, out, err) \<in> set runs. b = dc_binary c \<and> args = deposit_query_args c h)"

lemma poll_deposit_trace:
  assumes tr: "traced cl trace"
  shows "poll_deposit cl c h extract first n w = (w', r) \<Longrightarrow>
    \<exists>runs. trace w' = trace w @ runs \<and> length runs \<le> n \<and> only_queries c h runs"
proof (induction n arbitrary: first w)
  case (Suc n)
  obtain w1 k where wait: "(if first then (w, True) else cli_wait cl (dc_tx_query_interval c) w) = (w1, k)"
    by (metis prod.exhaust)
  have t1: "trace w1 = trace w" using wait traced_wait [OF tr] by (cases first) auto
  obtain w2 q where query: "query_tx cl c h w1 = (w2, q)" by (metis prod.exhaust)
  obtain out err where t2: "trace w2 = trace w @ [(dc_binary c, deposit_query_args c h, out, err)]"
    using query_tx_trace [OF tr query] t1 by auto
  have here: "\<exists>runs. trace w2 = trace w @ runs \<and> length runs \<le> Suc n \<and> only_queries c h runs"
    by (rule exI [of _ "[(dc_binary c, deposit_query_args c h, out, err)]"]) (simp add: t2 only_queries_def)
  from Suc.prems wait query consider "w' = w1" | "w' = w2" | "poll_deposit cl c h extract False n w2 = (w', r)"
    by (auto split: bool.splits sum.splits if_splits option.splits)
  then show ?case
  proof cases
    case 1 then show ?thesis using t1 by (auto simp: only_queries_def)
  next
    case 2 then show ?thesis using here by simp
  next
    case 3
    from Suc.IH [OF 3] obtain runs where "trace w' = trace w2 @ runs" "length runs \<le> n" "only_queries c h runs" by blast
    then show ?thesis using t2
      by (intro exI [of _ "(dc_binary c, deposit_query_args c h, out, err) # runs"]) (simp add: only_queries_def)
  qed
qed (auto simp: only_queries_def)

lemma deposit_finish_trace:
  assumes tr: "traced cl trace" and "deposit_finish cl c owner denom amount tx w = (w', r)"
  shows "\<exists>runs. trace w' = trace w @ runs \<and> length runs \<le> nat (dc_tx_query_retries c) \<and> only_queries c (ct_hash tx) runs"
proof -
  have none: "\<exists>runs. trace w = trace w @ runs \<and> length runs \<le> nat (dc_tx_query_retries c) \<and> only_queries c (ct_hash tx) runs"
    by (intro exI [of _ "[]"]) (simp add: only_queries_def)
  obtain w1 q where p: "poll_deposit cl c (ct_hash tx) (\<lambda>q. extract_deposit_event q owner denom amount) True
      (nat (dc_tx_query_retries c)) w = (w1, q)" by (metis prod.exhaust)
  have "w' = w \<or> w' = w1" using assms(2) p
    by (auto simp: deposit_finish_def split: if_splits option.splits poll_outcome.splits)
  with none poll_deposit_trace [OF tr p] show ?thesis by auto
qed

text \<open>
  One broadcast and then only queries for the transaction it announced. With the defaults that is at
  most 21 runs.
\<close>

lemma cosmos_deposit_on_trace:
  assumes tr: "traced cl trace" and d: "cosmos_deposit_on cl c req w = (w', r)"
  shows "trace w' = trace w \<or> (\<exists>b h runs. trace w' = trace w @ b # runs
     \<and> fst (snd b) = [''tx'', ''zkdex'', ''deposit'', trim_space (dq_denom req), trim_space (dq_amount req)]
         @ deposit_tx_args c (trim_space (dq_owner req))
     \<and> length runs \<le> nat (dc_tx_query_retries c) \<and> only_queries c h runs)"
proof (cases "w' = w")
  case False
  let ?o = "trim_space (dq_owner req)" and ?d = "trim_space (dq_denom req)" and ?a = "trim_space (dq_amount req)"
  let ?args = "[''tx'', ''zkdex'', ''deposit'', ?d, ?a] @ deposit_tx_args c ?o"
  obtain w1 out err where run: "cli_run cl (dc_binary c) ?args w = (w1, out, err)" by (metis prod_cases3)
  have t1: "trace w1 = trace w @ [(dc_binary c, ?args, out, err)]" by (rule traced_run [OF tr run])
  from d run False consider "w' = w1" | tx where "deposit_finish cl c ?o ?d ?a tx w1 = (w', r)"
    by (auto simp: cosmos_deposit_on_def Let_def split: if_splits option.splits sum.splits)
  then show ?thesis
  proof cases
    case 1
    show ?thesis
      by (intro disjI2 exI [of _ "(dc_binary c, ?args, out, err)"] exI [of _ "[]"]) (simp add: 1 t1 only_queries_def)
  next
    case (2 tx)
    from deposit_finish_trace [OF tr 2] obtain runs where
      "trace w' = trace w1 @ runs" "length runs \<le> nat (dc_tx_query_retries c)" "only_queries c (ct_hash tx) runs" by blast
    then show ?thesis
      by (intro disjI2 exI [of _ "(dc_binary c, ?args, out, err)"] exI [of _ "ct_hash tx"] exI [of _ runs]) (simp add: t1)
  qed
qed simp

subsection \<open>The deposit service over the chain binary\<close>

lemma apply_indexed_backend: "apply_indexed wg now r a = (a', q) \<Longrightarrow> ap_backend a' = ap_backend a \<and> ap_env a' = ap_env a"
  by (auto simp: apply_indexed_def ap_bind_def on_service_def split: if_splits prod.splits sum.splits)

lemma index_deposit_env: "index_deposit_from_tx wg now tx a = (a', q) \<Longrightarrow> ap_env a' = ap_env a"
  by (auto simp: index_deposit_from_tx_def ap_bind_def dest!: apply_indexed_backend
      split: option.splits sum.splits prod.splits)

lemma create_deposit_runs:
  assumes "wg_chain wg = cosmos_deposit cl cfg" and "traced cl trace" and "create_deposit wg now req a = (a', r)"
  shows "\<exists>runs. trace (ap_env a') = trace (ap_env a) @ runs \<and> length runs \<le> 1 + nat (dc_tx_query_retries (deposit_defaults cfg))
    \<and> (\<forall>run \<in> set (tl runs). \<exists>h. fst (snd run) = deposit_query_args (deposit_defaults cfg) h)"
proof -
  let ?c = "deposit_defaults cfg"
  obtain w q where w: "cosmos_deposit_on cl ?c req (ap_env a) = (w, q)" by (metis prod.exhaust)
  have env: "ap_env a' = w"
    using assms(1,3) w by (auto simp: create_deposit_def ap_bind_def on_env_def cosmos_deposit_def dest!: index_deposit_env
        split: sum.splits prod.splits)
  from cosmos_deposit_on_trace [OF assms(2) w]
  consider "trace w = trace (ap_env a)"
    | b h runs where "trace w = trace (ap_env a) @ b # runs" "length runs \<le> nat (dc_tx_query_retries ?c)" "only_queries ?c h runs"
    by blast
  then show ?thesis unfolding env
  proof cases
    case (2 b h runs)
    then have "\<forall>run \<in> set runs. \<exists>h. fst (snd run) = deposit_query_args ?c h" by (fastforce simp: only_queries_def)
    with 2 show "\<exists>runs. trace w = trace (ap_env a) @ runs \<and> length runs \<le> 1 + nat (dc_tx_query_retries ?c)
      \<and> (\<forall>run \<in> set (tl runs). \<exists>h. fst (snd run) = deposit_query_args ?c h)"
      by (intro exI [of _ "b # runs"]) simp
  qed simp
qed

lemma create_deposit_record:
  assumes "wg_chain wg = cosmos_deposit cl cfg" and "ctx_law cl" and "create_deposit wg now req a = (a', r)"
  shows "\<forall>h rec. r = Inr (h, rec) \<longrightarrow> deposit_complete rec \<and> h \<noteq> [] \<and> dep_tx_hash rec = h
    \<and> ms_deposits (be_store (ap_backend a')) (dep_id rec) = Some rec"
proof (intro allI impI)
  fix h rec assume r: "r = Inr (h, rec)"
  obtain w q where w: "cosmos_deposit_on cl (deposit_defaults cfg) req (ap_env a) = (w, q)" by (metis prod.exhaust)
  with assms(1,3) r obtain tx where q: "q = Inr tx" and h: "h = txr_hash tx"
    and ix: "index_deposit_from_tx wg now tx (a\<lparr>ap_env := w\<rparr>) = (a', Inr rec)"
    by (auto simp: create_deposit_def ap_bind_def on_env_def cosmos_deposit_def split: sum.splits prod.splits)
  from cosmos_deposit_on_Inr [OF assms(2) w [unfolded q]] obtain t k ev where
    tx: "tx = deposit_result t k ev" "event_complete ev" "ct_hash t \<noteq> []" by blast
  from event_complete_record(1) [OF tx(2)] event_complete_record(2) [OF tx(2), of tx] obtain rec' where
    rec': "deposit_record_from_event tx ev = Inr rec'" "deposit_complete rec'" "dep_tx_hash rec' = txr_hash tx"
    "ev_type ev = type_deposit" by blast
  from ix tx(1) rec'(1,4) have eq: "rec = rec'"
      "ap_backend a' = save_deposit rec' (ap_backend a)"
    by (auto simp: index_deposit_from_tx_def ap_bind_def deposit_result_def dest!: apply_indexed_backend
        split: sum.splits prod.splits)
  show "deposit_complete rec \<and> h \<noteq> [] \<and> dep_tx_hash rec = h \<and> ms_deposits (be_store (ap_backend a')) (dep_id rec) = Some rec"
    using rec'(2,3) tx(1,3) h by (simp add: eq deposit_result_def save_deposit_def ms_save_deposit_def)
qed

end
