(* ===== verification/Tendermint_Source.thy ===== *)
theory Tendermint_Source
  imports Chain_Query Cosmos_Deposit
begin

text \<open>
  \<^verbatim>\<open>internal/indexer/tendermint_event_source.go\<close>: the event source of the deposit poller over
  the RPC of a CometBFT node, and \<^verbatim>\<open>DepositPoller.Run\<close>, the polls on the ticks of its
  timer. The node is a parameter, a function from the URL of a GET to what it answers.
\<close>

subsection \<open>The answer of tx_search\<close>

record tx_search_tx =
  tst_hash :: string
  tst_height :: string
  tst_events :: "tx_event list"

record tx_search_envelope =
  tse_txs :: "tx_search_tx list"
  tse_error :: "(string \<times> string) option"

definition zero_tx_search_tx :: tx_search_tx where
  "zero_tx_search_tx = \<lparr>tst_hash = [], tst_height = [], tst_events = []\<rparr>"

definition zero_tx_search_envelope :: tx_search_envelope where
  "zero_tx_search_envelope = \<lparr>tse_txs = [], tse_error = None\<rparr>"

definition dec_tx_search_tx :: "tx_search_tx decoder" where
  "dec_tx_search_tx = dec_struct
     [(''hash'', dec_field tst_hash (\<lambda>x t. t\<lparr>tst_hash := x\<rparr>) dec_string),
      (''height'', dec_field tst_height (\<lambda>x t. t\<lparr>tst_height := x\<rparr>) dec_string),
      (''tx_result'', dec_field tst_events (\<lambda>x t. t\<lparr>tst_events := x\<rparr>)
         (dec_struct [(''events'', dec_list zero_tx_event dec_tx_event)]))]"

definition dec_rpc_error :: "(string \<times> string) decoder" where
  "dec_rpc_error = dec_struct
     [(''message'', dec_field fst (\<lambda>x e. (x, snd e)) dec_string),
      (''data'', dec_field snd (\<lambda>x e. (fst e, x)) dec_string)]"

definition dec_tx_search_envelope :: "tx_search_envelope decoder" where
  "dec_tx_search_envelope = dec_struct
     [(''result'', dec_field tse_txs (\<lambda>x e. e\<lparr>tse_txs := x\<rparr>)
         (dec_struct [(''txs'', dec_list zero_tx_search_tx dec_tx_search_tx)])),
      (''error'', dec_field tse_error (\<lambda>x e. e\<lparr>tse_error := x\<rparr>) (dec_pointer ([], []) dec_rpc_error))]"

subsection \<open>Attributes\<close>

definition base64_decode :: "string \<Rightarrow> string" where
  "base64_decode s0 = (let s = trim_space s0 in
     if s = [] then s else case base64_decode_string s of Some d \<Rightarrow> d | None \<Rightarrow> s)"

definition decode_attr_key :: "bool \<Rightarrow> string \<Rightarrow> string" where
  "decode_attr_key legacy key = trim_space (if legacy then base64_decode key else key)"

definition decode_attr_value :: "bool \<Rightarrow> string \<Rightarrow> string" where
  "decode_attr_value legacy value0 = (let value = trim_space value0 in
     unquote_attr_value (if legacy then base64_decode value else value))"

definition search_attributes :: "bool \<Rightarrow> (string \<times> string) list \<Rightarrow> string \<Rightarrow> string" where
  "search_attributes legacy attrs k =
     (case map_of (rev (map (\<lambda>(x, v). (decode_attr_key legacy x, decode_attr_value legacy v)) attrs)) k of
        None \<Rightarrow> [] | Some v \<Rightarrow> v)"

text \<open>Only the id is required here; the other fields may be empty.\<close>

fun deposit_event_from_tx_search :: "bool \<Rightarrow> tx_event list \<Rightarrow> chain_event option" where
  "deposit_event_from_tx_search legacy [] = None"
| "deposit_event_from_tx_search legacy (e # es) =
     (let attrs = search_attributes legacy (te_attributes e);
          i = first_non_empty [attrs ''depositId'', attrs ''deposit_id''] in
      if \<not> go_contains (te_type e) ''EventDeposit'' \<or> i = [] then deposit_event_from_tx_search legacy es
      else Some (deposit_event i (first_non_empty [attrs ''creator'', attrs ''owner'']) (attrs ''denom'') (attrs ''amount'')))"

subsection \<open>Fetching\<close>

text \<open>A height that is not an \<^verbatim>\<open>int64\<close> is zero (out of range, \<^verbatim>\<open>ParseInt\<close> gives the nearest bound).\<close>

definition parse_int64_value :: "string \<Rightarrow> int" where
  "parse_int64_value s = (case set_string10 s of None \<Rightarrow> 0
     | Some v \<Rightarrow> if v < - (2 ^ 63) then - (2 ^ 63) else if 2 ^ 63 \<le> v then 2 ^ 63 - 1 else v)"

fun collect_txs :: "bool \<Rightarrow> tx_search_tx list \<Rightarrow> int \<Rightarrow> tx_result list \<times> int" where
  "collect_txs legacy [] next_height = ([], next_height)"
| "collect_txs legacy (tx # txs) next_height =
     (let height = parse_int64_value (trim_space (tst_height tx)) in
      case deposit_event_from_tx_search legacy (tst_events tx) of
        None \<Rightarrow> collect_txs legacy txs next_height
      | Some ev \<Rightarrow>
          (case collect_txs legacy txs (if height > next_height then height else next_height) of
             (rs, n) \<Rightarrow> (\<lparr>txr_hash = tst_hash tx, txr_height = height, txr_events = [ev]\<rparr> # rs, n)))"

definition parse_tx_search_response :: "string \<Rightarrow> int \<Rightarrow> bool \<Rightarrow> (tx_result list \<times> int) res" where
  "parse_tx_search_response body from_height legacy =
     (case unmarshal_into dec_tx_search_envelope zero_tx_search_envelope body of
        None \<Rightarrow> Inl (ErrText ''decode tx_search'')
      | Some env \<Rightarrow> (case tse_error env of
          Some (message, data) \<Rightarrow> Inl (ErrExternal message)
        | None \<Rightarrow> Inr (collect_txs legacy (tse_txs env) from_height)))"

record tendermint_source =
  ts_rpc_url :: string
  ts_query :: string
  ts_legacy :: bool

definition new_tendermint_event_source :: "string \<Rightarrow> tendermint_source" where
  "new_tendermint_event_source rpc_url = \<lparr>ts_rpc_url = trim_right_slash rpc_url,
     ts_query = ''ob.zkdex.v1.EventDeposit.deposit_id EXISTS'', ts_legacy = False\<rparr>"

definition with_query :: "string \<Rightarrow> tendermint_source \<Rightarrow> tendermint_source" where
  "with_query query s = s\<lparr>ts_query := query\<rparr>"

definition with_legacy_base64_attributes :: "tendermint_source \<Rightarrow> tendermint_source" where
  "with_legacy_base64_attributes s = s\<lparr>ts_legacy := True\<rparr>"

definition in_quotes :: "string \<Rightarrow> string" where
  "in_quotes s = quote_char # s @ [quote_char]"

definition search_endpoint :: "tendermint_source \<Rightarrow> int \<Rightarrow> string" where
  "search_endpoint s from_height =
     (let query = (if from_height > 0 then ts_query s @ '' AND tx.height > '' @ int_to_dec from_height else ts_query s) in
      ts_rpc_url s @ ''/tx_search?query='' @ query_escape (in_quotes query)
        @ ''&order_by='' @ query_escape (in_quotes ''asc''))"

definition fetch_deposits_since :: "rest_server \<Rightarrow> tendermint_source \<Rightarrow> int \<Rightarrow> (tx_result list \<times> int) res" where
  "fetch_deposits_since server s from_height =
     (if ts_rpc_url s = [] then Inl (ErrText ''tendermint RPC URL is required'')
      else case server (search_endpoint s from_height) of
        NoResponse e \<Rightarrow> Inl (ErrExternal e)
      | Response status body \<Rightarrow>
          if \<not> status_ok status then Inl (ErrText ''tx_search failed'')
          else parse_tx_search_response body from_height (ts_legacy s))"

subsection \<open>The poller's loop\<close>

text \<open>
  One element per tick that comes before the context is cancelled: the time, and the node as it
  answers then. An error of a poll is logged; a panic ends the process.
\<close>

fun deposit_poller_run ::
    "'w wiring \<Rightarrow> tendermint_source \<Rightarrow> (nat \<times> rest_server) list \<Rightarrow> int \<Rightarrow> 'w app \<Rightarrow> ('w app \<times> int) \<times> unit res" where
  "deposit_poller_run wg s [] cursor a = ((a, cursor), Inr ())"
| "deposit_poller_run wg s ((now, server) # ticks) cursor a =
     (case poll_once wg now (fetch_deposits_since server s cursor) cursor a of
        ((a', cursor'), Inl (ErrPanic p)) \<Rightarrow> ((a', cursor'), Inl (ErrPanic p))
      | ((a', cursor'), _) \<Rightarrow> deposit_poller_run wg s ticks cursor' a')"

subsection \<open>The cursor\<close>

lemma collect_txs_height:
  "collect_txs legacy txs n = (rs, n') \<Longrightarrow> n \<le> n' \<and> (\<forall>r \<in> set rs. txr_height r \<le> n')
     \<and> (n' = n \<or> (\<exists>r \<in> set rs. txr_height r = n'))"
proof (induction txs arbitrary: n rs n')
  case (Cons tx txs)
  then show ?case
    by (fastforce simp: Let_def split: option.splits prod.splits if_splits)
qed simp

lemma fetch_Inr: "fetch_deposits_since server s h = Inr (txs, n) \<Longrightarrow>
    h \<le> n \<and> (\<forall>r \<in> set txs. txr_height r \<le> n) \<and> (n = h \<or> (\<exists>r \<in> set txs. txr_height r = n))"
  by (auto simp: fetch_deposits_since_def parse_tx_search_response_def dest: collect_txs_height
      split: if_splits http_response.splits option.splits prod.splits)

lemma poll_once_cursor: "poll_once wg now (fetch_deposits_since server s cursor) cursor a = ((a', c), r) \<Longrightarrow> cursor \<le> c"
  by (auto simp: poll_once_def split: sum.splits prod.splits if_splits)

text \<open>The transactions one poll hands to the indexer.\<close>

definition fetched :: "rest_server \<Rightarrow> tendermint_source \<Rightarrow> int \<Rightarrow> tx_result set" where
  "fetched server s cursor = (case fetch_deposits_since server s cursor of Inl _ \<Rightarrow> {} | Inr (txs, _) \<Rightarrow> set txs)"

lemma poll_once_passes:
  assumes "poll_once wg now (fetch_deposits_since server s cursor) cursor a = ((a', c), Inr k)"
    and "tx \<in> fetched server s cursor"
  shows "txr_height tx \<le> c"
  using assms fetch_Inr [of server s cursor]
  by (fastforce simp: poll_once_def fetched_def split: sum.splits prod.splits if_splits)

text \<open>
  The node answers a query with the condition on the height with later transactions only, which is
  what \<^verbatim>\<open>tx.height > n\<close> means to it.
\<close>

definition honest :: "tendermint_source \<Rightarrow> rest_server \<Rightarrow> bool" where
  "honest s server \<longleftrightarrow> (\<forall>cursor > 0. \<forall>tx \<in> fetched server s cursor. cursor < txr_height tx)"

lemma run_cursor:
  "deposit_poller_run wg s ticks cursor a = ((a', c), r) \<Longrightarrow> cursor \<le> c"
proof (induction ticks arbitrary: cursor a)
  case (Cons tick ticks)
  obtain now server where t: "tick = (now, server)" by (cases tick)
  obtain a1 c1 q where p: "poll_once wg now (fetch_deposits_since server s cursor) cursor a = ((a1, c1), q)"
    by (metis prod.exhaust)
  have "cursor \<le> c1" by (rule poll_once_cursor [OF p])
  moreover have "c1 \<le> c"
    using Cons t p by (cases q) (auto split: go_error.splits)
  ultimately show ?case by simp
qed simp

lemma later_poll_starts_after:
  assumes poll: "poll_once wg now (fetch_deposits_since server s cursor) cursor a = ((a1, c1), Inr k)"
    and run: "deposit_poller_run wg s ticks c1 a1 = ((a2, c2), Inr ())"
    and honest: "honest s server2"
    and tx: "tx \<in> fetched server s cursor" "0 < txr_height tx" and tx2: "tx2 \<in> fetched server2 s c2"
  shows "txr_height tx < txr_height tx2"
proof -
  have "txr_height tx \<le> c1" by (rule poll_once_passes [OF poll tx(1)])
  with run_cursor [OF run] tx(2) have "txr_height tx \<le> c2" "0 < c2" by simp_all
  with honest tx2 show ?thesis unfolding honest_def by force
qed

end
