(* ===== verification/Go_Duration.thy ===== *)
theory Go_Duration
  imports Go_Float
begin

text \<open>
  \<^verbatim>\<open>time.ParseDuration\<close>, which the configuration reads its intervals with: a sign, then numbers
  with a unit. The whole part is exact; a fraction goes through \<^verbatim>\<open>float64\<close> as
  \<^verbatim>\<open>float64(f) * (float64(unit) / scale)\<close>, each operation rounding.
\<close>

subsection \<open>Rounding a fraction to float64\<close>

text \<open>The nearest \<^verbatim>\<open>float64\<close> to \<open>p / q\<close>, itself as a fraction.\<close>

definition float_fraction :: "nat \<times> nat \<Rightarrow> nat \<times> nat" where
  "float_fraction x = (case x of (p, q) \<Rightarrow> if p = 0 then (0, 1) else
     (let k = last_bit p q; m = (case scale_pow2 p q k of (a, b) \<Rightarrow> round_half_even a b) in
      if 0 \<le> k then (m * 2 ^ nat k, 1) else (m, 2 ^ nat (- k))))"

definition float_mult :: "nat \<times> nat \<Rightarrow> nat \<times> nat \<Rightarrow> nat \<times> nat" where
  "float_mult x y = float_fraction (fst x * fst y, snd x * snd y)"

definition float_div :: "nat \<times> nat \<Rightarrow> nat \<times> nat \<Rightarrow> nat \<times> nat" where
  "float_div x y = float_fraction (fst x * snd y, snd x * fst y)"

subsection \<open>Parsing\<close>

definition max_magnitude :: nat where
  "max_magnitude = 2 ^ 63"

text \<open>\<^verbatim>\<open>leadingInt\<close>: an error above \<open>2 ^ 63\<close>.\<close>

fun leading_int :: "nat \<Rightarrow> string \<Rightarrow> (nat \<times> string) option" where
  "leading_int x [] = Some (x, [])"
| "leading_int x (c # s) = (case digit_val c of None \<Rightarrow> Some (x, c # s)
     | Some d \<Rightarrow> if max_magnitude div 10 < x then None
         else if max_magnitude < 10 * x + d then None else leading_int (10 * x + d) s)"

text \<open>\<^verbatim>\<open>leadingFraction\<close>: digits that no longer fit are dropped; the scale counts those that did.\<close>

fun leading_fraction :: "nat \<Rightarrow> nat \<Rightarrow> bool \<Rightarrow> string \<Rightarrow> nat \<times> nat \<times> string" where
  "leading_fraction x n overflow [] = (x, n, [])"
| "leading_fraction x n overflow (c # s) = (case digit_val c of None \<Rightarrow> (x, n, c # s)
     | Some d \<Rightarrow>
         if overflow \<or> (max_magnitude - 1) div 10 < x \<or> max_magnitude < 10 * x + d
         then leading_fraction x n True s
         else leading_fraction (10 * x + d) (n + 1) False s)"

definition unit_value :: "string \<Rightarrow> nat option" where
  "unit_value u =
     (if u = ''ns'' then Some 1
      else if u = ''us'' \<or> u = [CHR 0xC2, CHR 0xB5, CHR ''s''] \<or> u = [CHR 0xCE, CHR 0xBC, CHR ''s''] then Some 1000
      else if u = ''ms'' then Some 1000000
      else if u = ''s'' then Some 1000000000
      else if u = ''m'' then Some 60000000000
      else if u = ''h'' then Some 3600000000000
      else None)"

definition unit_char :: "char \<Rightarrow> bool" where
  "unit_char c \<longleftrightarrow> c \<noteq> CHR ''.'' \<and> \<not> is_digit c"

text \<open>One number with its unit: the nanoseconds it stands for, and the rest.\<close>

definition duration_term :: "string \<Rightarrow> (nat \<times> string) option" where
  "duration_term s =
     (case s of [] \<Rightarrow> None | c # _ \<Rightarrow> if c \<noteq> CHR ''.'' \<and> \<not> is_digit c then None else
      (case leading_int 0 s of None \<Rightarrow> None
       | Some (v, s1) \<Rightarrow>
         (let pre = (length s \<noteq> length s1);
              dot = (s1 \<noteq> [] \<and> hd s1 = CHR ''.'');
              (f, n, s2) = (if dot then leading_fraction 0 0 False (tl s1) else (0, 0, s1));
              post = (dot \<and> length (tl s1) \<noteq> length s2);
              u = takeWhile unit_char s2; s3 = dropWhile unit_char s2
          in if \<not> pre \<and> \<not> post then None
             else if u = [] then None
             else (case unit_value u of None \<Rightarrow> None
               | Some unit \<Rightarrow>
                   if max_magnitude div unit < v then None
                   else (let frac = (if 0 < f then
                              (case float_mult (float_fraction (f, 1)) (float_div (unit, 1) (float_fraction (10 ^ n, 1))) of
                                 (a, b) \<Rightarrow> a div b) else 0) in
                         if max_magnitude < v * unit + frac then None else Some (v * unit + frac, s3))))))"

text \<open>A term ends before a digit or a dot, or at the end, and has used at least its unit.\<close>

function duration_terms :: "nat \<Rightarrow> string \<Rightarrow> nat option" where
  "duration_terms d s = (if s = [] then Some d else
     (case duration_term s of None \<Rightarrow> None
      | Some (v, r) \<Rightarrow> if length s \<le> length r then None
          else if max_magnitude < d + v then None else duration_terms (d + v) r))"
  by pat_completeness auto
termination
  by (relation "measure (\<lambda>(d, s). length s)") auto

declare duration_terms.simps [simp del]

definition parse_duration :: "string \<Rightarrow> int option" where
  "parse_duration s0 =
     (let neg = (s0 \<noteq> [] \<and> hd s0 = CHR ''-'');
          s = (if s0 \<noteq> [] \<and> (hd s0 = CHR ''-'' \<or> hd s0 = CHR ''+'') then tl s0 else s0) in
      if s = ''0'' then Some 0
      else if s = [] then None
      else (case duration_terms 0 s of None \<Rightarrow> None
        | Some d \<Rightarrow> if neg then Some (- int d) else if max_magnitude - 1 < d then None else Some (int d)))"

subsection \<open>Whole seconds\<close>

lemma leading_int_digits:
  "digits_value x ds = Some n \<Longrightarrow> n < 2 ^ 60 \<Longrightarrow> (\<forall>c. s \<noteq> [] \<longrightarrow> \<not> is_digit (hd s)) \<Longrightarrow> leading_int x (ds @ s) = Some (n, s)"
proof (induction ds arbitrary: x)
  case Nil
  then show ?case by (cases s) (auto simp: is_digit_def)
next
  case (Cons c ds)
  then obtain d where d: "digit_val c = Some d" "digits_value (10 * x + d) ds = Some n" by (auto split: option.splits)
  have "10 * x + d \<le> n" using d(2)
  proof (induction ds arbitrary: x d)
    case (Cons c ds)
    then obtain e where "digits_value (10 * (10 * x + d) + e) ds = Some n" by (auto split: option.splits)
    from Cons.IH [OF this] show ?case by simp
  qed simp
  with Cons.prems(2) have "10 * x + d < 2 ^ 60" by simp
  then have "\<not> max_magnitude div 10 < x" "\<not> max_magnitude < 10 * x + d" by (simp_all add: max_magnitude_def)
  with Cons.IH [OF d(2) Cons.prems(2,3)] d(1) show ?case by simp
qed

theorem parse_duration_seconds:
  assumes "0 < n" and "n < 2 ^ 33"
  shows "parse_duration (nat_to_dec n @ ''s'') = Some (int n * 1000000000)"
proof -
  let ?s = "nat_to_dec n @ ''s''"
  have s_unit: "unit_char CHR ''s''" "\<not> is_digit CHR ''s''" by (simp_all add: unit_char_def is_digit_def digit_val_def)
  have li: "leading_int 0 ?s = Some (n, ''s'')"
    using leading_int_digits [OF digits_value_nat_to_dec [of n], of "''s''"] assms(2) s_unit by simp
  obtain c r where c: "nat_to_dec n = c # r" by (cases "nat_to_dec n") simp_all
  have dc: "is_digit c" using nat_to_dec_digits [of c n] c by (auto simp: is_digit_def)
  have sign: "c \<noteq> CHR ''-''" "c \<noteq> CHR ''+''" using dc by (auto simp: is_digit_def digit_val_def)
  have "max_magnitude div 1000000000 \<ge> n" "n * 1000000000 \<le> max_magnitude - 1" using assms(2) by (simp_all add: max_magnitude_def)
  then have t: "duration_term ?s = Some (n * 1000000000, [])"
    using li c dc s_unit by (simp add: duration_term_def unit_value_def Let_def)
  have "duration_terms 0 ?s = Some (n * 1000000000)"
    using t \<open>n * 1000000000 \<le> max_magnitude - 1\<close> by (simp add: duration_terms.simps [of 0 ?s] duration_terms.simps [of _ "[]"])
  then show ?thesis using c sign \<open>n * 1000000000 \<le> max_magnitude - 1\<close> by (simp add: parse_duration_def Let_def)
qed

end
