(* ===== verification/App_Main.thy ===== *)
theory App_Main
  imports App_Wiring
begin

text \<open>
  \<^verbatim>\<open>main\<close> of \<^verbatim>\<open>cmd/api/main.go\<close> from the first line to \<^verbatim>\<open>ListenAndServe\<close>: the
  process either stops with an error or listens, with the wiring, the state and the background workers
  it has set up.
\<close>

subsection \<open>Origins\<close>

definition cors_allowed_origins :: "env \<Rightarrow> string list" where
  "cors_allowed_origins env =
     (let raw = trim_space (env ''CORS_ALLOWED_ORIGINS'');
          out = filter (\<lambda>origin. origin \<noteq> []) (map trim_space (split_on CHR '','' raw)) in
      if raw = [] \<or> out = [] then [''http://localhost:3000''] else out)"

definition cors_allow_credentials :: "string list \<Rightarrow> bool" where
  "cors_allow_credentials origins \<longleftrightarrow> \<not> list_ex (\<lambda>origin. origin = ''*'') origins"

subsection \<open>Workers\<close>

text \<open>The poller is its source, the height it starts after and its interval.\<close>

definition start_deposit_poller :: "env \<Rightarrow> tendermint_source \<times> int \<times> int" where
  "start_deposit_poller env =
     (let source = new_tendermint_event_source (getenv env ''CHAIN_RPC_URL'' ''http://localhost:26657'');
          start_height = (case parse_int64 (env ''INDEXER_START_HEIGHT'') of Some h \<Rightarrow> h | None \<Rightarrow> 0);
          interval = (case parse_duration (env ''INDEXER_POLL_INTERVAL'') of Some d \<Rightarrow> d | None \<Rightarrow> 0) in
      (if env ''INDEXER_LEGACY_BASE64'' = ''true'' then with_legacy_base64_attributes source else source,
       new_deposit_poller start_height interval))"

definition settlement_worker :: "env \<Rightarrow> int option" where
  "settlement_worker env = (let c = api_config_of env in
     if getenv env ''SETTLEMENT_WORKER_ENABLED'' ''false'' = ''true'' \<and> ac_build_source c = source_pending \<and> needs_db c
     then Some (new_sequencer_interval (parse_duration_or (getenv env ''SETTLEMENT_INTERVAL'' ''8s'') (8 * second)))
     else None)"

subsection \<open>The preflight\<close>

definition expected_artifact_of :: "env \<Rightarrow> expected_artifact" where
  "expected_artifact_of env = \<lparr>ea_vk_id = env ''PROOF_VERIFICATION_KEY_ID'', ea_hash_mode = env ''PROOF_HASH_MODE''\<rparr>"

text \<open>An error is fatal in the strict mode only, and is logged otherwise.\<close>

definition preflight_prover_artifact :: "'w prover_client \<Rightarrow> expected_artifact \<Rightarrow> 'w \<Rightarrow> 'w \<times> go_error option" where
  "preflight_prover_artifact pc expected w = (case pc_artifact pc of
     None \<Rightarrow> (w, None)
   | Some fetch \<Rightarrow> (case fetch w of
       (w1, Inl e) \<Rightarrow> (w1, Some e)
     | (w1, Inr artifact) \<Rightarrow> (w1, validate_artifact_matches_expected artifact expected)))"

definition preflight_strict :: "env \<Rightarrow> bool" where
  "preflight_strict env \<longleftrightarrow> getenv env ''PROOF_PREFLIGHT_STRICT'' ''false'' = ''true''"

subsection \<open>The process\<close>

text \<open>The tables a database has when the process starts, and the outside world.\<close>

record 'w outside =
  os_tables :: app_db
  os_settlement :: settlement_db
  os_world :: 'w

record 'w process =
  pr_addr :: string
  pr_wiring :: "'w wiring"
  pr_app :: "'w app"
  pr_deps :: http_deps
  pr_poller :: "(tendermint_source \<times> int \<times> int) option"
  pr_sequencer :: "int option"
  pr_origins :: "string list"
  pr_credentials :: bool

text \<open>A rehydration that fails is logged.\<close>

definition rehydrate_at_start :: "bool \<Rightarrow> service \<Rightarrow> service" where
  "rehydrate_at_start on sv = (if on then fst (rehydrate_from_store sv) else sv)"

definition start_service :: "env \<Rightarrow> 'w outside \<Rightarrow> service" where
  "start_service env os = (let c = api_config_of env in
     rehydrate_at_start (ac_enabled c \<and> needs_db c)
       (new_service (Some (new_manager_with_genesis_root (env ''OFFCHAIN_GENESIS_ROOT'')))
          (if needs_db c then Some (os_settlement os) else None)))"

definition start_app :: "'w wiring \<Rightarrow> env \<Rightarrow> 'w outside \<Rightarrow> 'w app" where
  "start_app wg env os = set_state_rollback wg
     \<lparr>ap_backend = \<lparr>be_store = new_memory_store,
        be_db = (os_tables os)\<lparr>ad_pool := needs_db (api_config_of env)\<rparr>\<rparr>,
      ap_service = start_service env os, ap_baseline = None, ap_build_seq = 0, ap_env = os_world os\<rparr>"

definition open_database_if_needed :: "'w platform \<Rightarrow> env \<Rightarrow> string option" where
  "open_database_if_needed pf env =
     (if needs_db (api_config_of env) then open_pool pf (database_url_from_env env) else None)"

definition http_deps_of :: "rest_server \<Rightarrow> (int \<Rightarrow> int) \<Rightarrow> env \<Rightarrow> http_deps" where
  "http_deps_of rest big env = \<lparr>hd_server = rest, hd_base = new_rest_query_client (ac_rest_url (api_config_of env)),
     hd_big = big, hd_query_mode = ac_query_mode (api_config_of env)\<rparr>"

definition main_preflight :: "'w wiring \<Rightarrow> env \<Rightarrow> 'w \<Rightarrow> 'w \<times> go_error option" where
  "main_preflight wg env w = (case wg_verifier wg of None \<Rightarrow> (w, None)
     | Some _ \<Rightarrow> (case preflight_prover_artifact (wg_prover wg) (expected_artifact_of env) w of
         (w1, e) \<Rightarrow> (w1, if preflight_strict env then e else None)))"

definition main_start :: "'w platform \<Rightarrow> rest_server \<Rightarrow> (int \<Rightarrow> int) \<Rightarrow> env \<Rightarrow> 'w outside \<Rightarrow> 'w process res" where
  "main_start pf rest big env os =
     (let wg = main_wiring pf rest big env; a = start_app wg env os; origins = cors_allowed_origins env in
      case open_database_if_needed pf env of
        Some e \<Rightarrow> Inl (ErrExternal e)
      | None \<Rightarrow> (case main_preflight wg env (ap_env a) of
          (w, Some e) \<Rightarrow> Inl e
        | (w, None) \<Rightarrow> Inr
            \<lparr>pr_addr = '':'' @ getenv env ''PORT'' ''8080'', pr_wiring = wg, pr_app = a\<lparr>ap_env := w\<rparr>,
             pr_deps = http_deps_of rest big env,
             pr_poller = (if getenv env ''INDEXER_MODE'' ''mock'' = ''chain'' then Some (start_deposit_poller env) else None),
             pr_sequencer = settlement_worker env,
             pr_origins = origins, pr_credentials = cors_allow_credentials origins\<rparr>))"

subsection \<open>What a process that listens has\<close>

lemma with_repo_keeps: "sv_repo (fst (with_repo m s)) = None \<longleftrightarrow> sv_repo s = None"
  by (auto simp: with_repo_def split: option.split prod.split)

lemma rehydrate_keeps_repo: "sv_repo (fst (rehydrate_from_store s)) = None \<longleftrightarrow> sv_repo s = None"
proof -
  obtain s1 r1 where 1: "with_repo list_pending_deposits s = (s1, r1)" by (cases "with_repo list_pending_deposits s")
  obtain s2 r2 where 2: "with_repo list_pending_withdrawals s1 = (s2, r2)" by (cases "with_repo list_pending_withdrawals s1")
  have "sv_repo s1 = None \<longleftrightarrow> sv_repo s = None" "sv_repo s2 = None \<longleftrightarrow> sv_repo s1 = None"
    using with_repo_keeps [of list_pending_deposits s] with_repo_keeps [of list_pending_withdrawals s1] 1 2 by simp_all
  then show ?thesis by (cases r1; cases r2) (simp_all add: rehydrate_from_store_def sv_bind_def 1 2 Let_def)
qed

lemma start_service_repo: "sv_repo (start_service env os) = None \<longleftrightarrow> \<not> needs_db (api_config_of env)"
  by (simp add: start_service_def Let_def rehydrate_at_start_def rehydrate_keeps_repo new_service_def)

lemma start_app_facts:
  "ap_service (start_app wg env os) = start_service env os"
  "ad_pool (be_db (ap_backend (start_app wg env os))) = needs_db (api_config_of env)"
  "be_store (ap_backend (start_app wg env os)) = new_memory_store"
  "ap_baseline (start_app wg env os)
     = (if wg_rollback wg then Some (manager_snapshot (sv_manager (start_service env os))) else None)"
  "ap_env (start_app wg env os) = os_world os"
  "ad_requests (be_db (ap_backend (start_app wg env os))) = ad_requests (os_tables os)"
  "ad_records (be_db (ap_backend (start_app wg env os))) = ad_records (os_tables os)"
  by (simp_all add: start_app_def set_state_rollback_def)

lemma main_start_Inr:
  assumes "main_start pf rest big env os = Inr p"
  shows "pr_wiring p = main_wiring pf rest big env" "pr_sequencer p = settlement_worker env"
    "open_database_if_needed pf env = None"
    "\<exists>w. main_preflight (main_wiring pf rest big env) env (os_world os) = (w, None)
       \<and> pr_app p = (start_app (main_wiring pf rest big env) env os)\<lparr>ap_env := w\<rparr>"
  using assms by (auto simp: main_start_def Let_def start_app_facts(5) split: option.splits prod.splits)

text \<open>Which stores are in Postgres.\<close>

definition uses_postgres :: "'w wiring \<Rightarrow> bool" where
  "uses_postgres wg \<longleftrightarrow> requests_in_postgres (wg_withdraw_repo wg) \<or> records_in_postgres (wg_withdraw_repo wg)
     \<or> bp_build_store (wg_batch_repo wg) = store_postgres \<or> bp_submit_store (wg_batch_repo wg) = store_postgres
     \<or> wg_proof_store wg = store_postgres"

lemma main_wiring_facts:
  "wg_has_offchain (main_wiring pf rest big env) = needs_db (api_config_of env)"
  "wg_enabled (main_wiring pf rest big env) = ac_enabled (api_config_of env)"
  "wg_build_source (main_wiring pf rest big env) = ac_build_source (api_config_of env)"
  "wg_rollback (main_wiring pf rest big env) = rollback_wired (api_config_of env)"
  "wg_verifier (main_wiring pf rest big env) = verifier_of_mode pf env (api_config_of env)"
  "wg_prover (main_wiring pf rest big env) = prover_of_mode pf (ac_prover_mode (api_config_of env)) (ac_prover_url (api_config_of env))"
  by (simp_all add: main_wiring_def Let_def)

lemma main_wiring_postgres: "uses_postgres (main_wiring pf rest big env) \<Longrightarrow> needs_db (api_config_of env)"
  by (auto simp: uses_postgres_def main_wiring_def Let_def needs_db_def requests_in_postgres_def records_in_postgres_def
      new_withdraw_repository_with_db_def new_batch_repository_with_db_def new_proof_bundle_store_def
      store_memory_def store_postgres_def split: if_splits)

lemma main_wiring_verifier:
  "wg_verifier (main_wiring pf rest big env) \<noteq> None \<Longrightarrow>
     pc_artifact (wg_prover (main_wiring pf rest big env))
       = Some (remote_artifact (new_remote_client (ac_prover_url (api_config_of env))) (pf_http pf))"
  by (simp add: main_wiring_facts verifier_of_mode_def prover_of_mode_def remote_prover_def split: if_splits)

lemma strict_preflight:
  assumes "main_preflight wg env w = (w1, None)" and "wg_verifier wg \<noteq> None" and "preflight_strict env"
    and "pc_artifact (wg_prover wg) = Some fetch"
  shows "\<exists>artifact. fetch w = (w1, Inr artifact) \<and> validate_artifact_matches_expected artifact (expected_artifact_of env) = None"
  using assms by (auto simp: main_preflight_def preflight_prover_artifact_def split: prod.splits sum.splits)

lemma settlement_worker_Some:
  "settlement_worker env = Some i \<Longrightarrow>
     ac_build_source (api_config_of env) = source_pending \<and> needs_db (api_config_of env) \<and> 0 < i"
  by (auto simp: settlement_worker_def Let_def new_sequencer_interval_def default_interval_def second_def split: if_splits)

lemma start_consistent:
  assumes "main_start pf rest big env os = Inr p"
  defines "wg \<equiv> pr_wiring p" and "a \<equiv> pr_app p"
  shows "wg_has_offchain wg \<longleftrightarrow> sv_repo (ap_service a) \<noteq> None"
    and "wg_has_offchain wg \<longleftrightarrow> ad_pool (be_db (ap_backend a))"
    and "wg_enabled wg \<or> wg_build_source wg = source_pending \<or> uses_postgres wg \<Longrightarrow> wg_has_offchain wg"
    and "wg_rollback wg \<Longrightarrow> wg_build_source wg \<noteq> source_pending
      \<and> ap_baseline a = Some (manager_snapshot (sv_manager (ap_service a)))"
    and "pr_sequencer p = Some i \<Longrightarrow> wg_build_source wg = source_pending \<and> wg_has_offchain wg \<and> 0 < i"
    and "wg_verifier wg \<noteq> None \<Longrightarrow> preflight_strict env \<Longrightarrow> \<exists>artifact.
      remote_artifact (new_remote_client (ac_prover_url (api_config_of env))) (pf_http pf) (os_world os) = (ap_env a, Inr artifact)
      \<and> validate_artifact_matches_expected artifact (expected_artifact_of env) = None"
proof -
  note start = main_start_Inr [OF assms(1)]
  obtain w where w: "main_preflight (main_wiring pf rest big env) env (os_world os) = (w, None)"
    "pr_app p = (start_app (main_wiring pf rest big env) env os)\<lparr>ap_env := w\<rparr>" using start(4) by blast
  show "wg_has_offchain wg \<longleftrightarrow> sv_repo (ap_service a) \<noteq> None"
    by (simp add: wg_def a_def start(1) w(2) main_wiring_facts start_app_facts start_service_repo)
  show "wg_has_offchain wg \<longleftrightarrow> ad_pool (be_db (ap_backend a))"
    by (simp add: wg_def a_def start(1) w(2) main_wiring_facts start_app_facts)
  show "wg_has_offchain wg" if "wg_enabled wg \<or> wg_build_source wg = source_pending \<or> uses_postgres wg"
    using that main_wiring_postgres [of pf rest big env]
    by (auto simp: wg_def start(1) main_wiring_facts needs_db_def)
  show "wg_build_source wg \<noteq> source_pending \<and> ap_baseline a = Some (manager_snapshot (sv_manager (ap_service a)))"
    if "wg_rollback wg"
    using that by (simp add: wg_def a_def start(1) w(2) main_wiring_facts start_app_facts rollback_wired_def)
  show "wg_build_source wg = source_pending \<and> wg_has_offchain wg \<and> 0 < i" if "pr_sequencer p = Some i"
    using that settlement_worker_Some [of env i] by (simp add: wg_def start(1,2) main_wiring_facts)
  show "\<exists>artifact. remote_artifact (new_remote_client (ac_prover_url (api_config_of env))) (pf_http pf) (os_world os)
      = (ap_env a, Inr artifact) \<and> validate_artifact_matches_expected artifact (expected_artifact_of env) = None"
    if "wg_verifier wg \<noteq> None" "preflight_strict env"
    using strict_preflight [OF w(1) _ that(2) main_wiring_verifier] that(1)
    by (simp add: wg_def a_def start(1) w(2))
qed

end
