(* ===== verification/Http_Settlement.thy ===== *)
theory Http_Settlement
  imports Http_Interface Sequencer_Laws
begin

text \<open>
  A settlement driven over HTTP, as the scripts and the dashboard do it: post an empty body to
  \<^verbatim>\<open>/api/batch/build\<close>, post the answer to \<^verbatim>\<open>/api/proof/generate\<close>, and post the update,
  the commitments and the proof to \<^verbatim>\<open>/api/batch/submit\<close>. Nothing is lost in the JSON between the
  three requests, so the client does what one pass of the sequencer does.
\<close>

subsection \<open>Text that JSON leaves as it is\<close>

lemma utf8_valid_plain: "plain s \<Longrightarrow> utf8_valid s"
  by (rule utf8_valid_ascii) (auto simp: plain_def plain_char_def byte_def list_all_iff)

lemma utf8_valid_digests [simp]: "utf8_valid (sha256_hex m)" "utf8_valid (nat_to_dec n)" "utf8_valid (format_uint x)"
  by (simp_all add: utf8_valid_plain plain_sha256_hex plain_nat_to_dec format_uint_def)

lemma utf8_valid_batch_name [simp]: "utf8_valid (''batch-'' @ format_uint x)"
  by (rule utf8_valid_plain) (use plain_nat_to_dec in \<open>auto simp: plain_def format_uint_def plain_char_def\<close>)

definition text_request :: "withdraw_request \<Rightarrow> bool" where
  "text_request r \<longleftrightarrow> utf8_valid (wr_id r) \<and> utf8_valid (wr_owner r) \<and> utf8_valid (wr_denom r) \<and> utf8_valid (wr_destination r)"

definition text_deposit :: "deposit_move \<Rightarrow> bool" where
  "text_deposit d \<longleftrightarrow> utf8_valid (pd_id d) \<and> utf8_valid (pd_owner d) \<and> utf8_valid (pd_denom d)"

text \<open>What the users and the chain have given is valid UTF-8; everything else the program makes itself.\<close>

definition text_log :: "logged list \<Rightarrow> bool" where
  "text_log ms \<longleftrightarrow> (\<forall>d \<in> set (log_deposits ms). text_deposit d)
     \<and> (\<forall>w \<in> set (log_withdrawals ms). text_request (request_of_move w))"

lemma deposit_entry_text: "text_deposit d \<Longrightarrow> json_valid (settlement_deposit_json (deposit_entry (record_of_move d)))"
  by (simp add: settlement_deposit_json_def deposit_entry_def record_of_move_def text_deposit_def utf8_valid_ascii byte_def)

lemma withdrawal_entry_text:
  assumes "text_request (request_of_move w)" and "derived secrets (input_of_move w)"
  shows "json_valid (settlement_withdrawal_json (withdrawal_entry (input_of_move w)))"
proof -
  have "utf8_valid (pw_nullifier w)" "utf8_valid (pw_destination_hash w)"
    using assms(2) by (auto simp: derived_def input_of_move_def nullifier_for_def withdraw_address_hash_def Let_def
        split: if_splits sum.splits) (metis utf8_valid_digests(1))+
  with assms(1) show ?thesis
    by (simp add: settlement_withdrawal_json_def withdrawal_entry_def input_of_move_def text_request_def utf8_valid_ascii byte_def)
qed

lemma commitments_text: "json_valid (batch_commitments_json (build_commitments u))"
  by (simp add: batch_commitments_json_def build_commitments_def deposits_root_def withdrawals_root_def nullifiers_root_def
      withdraw_outputs_root_def utf8_valid_ascii [of "_ # _"] byte_def)

lemma party_text: "utf8_valid (fst p) \<Longrightarrow> json_valid (witness_account_json (party_witness Map.empty s ws s' p))"
  by (simp add: witness_account_json_def party_witness_def resolve_secret_def mvp_mock_secret_def utf8_valid_ascii byte_def)

lemma partial_state_text: "json_valid (partial_state_json built_state)"
  by (simp add: partial_state_json_def built_state_def empty_partial_state_def optional_field_def utf8_valid_ascii byte_def)

lemma log_owners_text:
  assumes "text_log pre" and "t \<in> set (log_transitions pre)"
  shows "utf8_valid (pt_owner t)"
proof -
  from assms(2) have "pt_owner t \<in> pd_owner ` set (log_deposits pre) \<union> pw_owner ` set (log_withdrawals pre)"
    using log_owners [of pre] by blast
  with assms(1) show ?thesis by (auto simp: text_log_def text_deposit_def text_request_def request_of_move_def)
qed

lemma output_text:
  assumes out: "output_of_log s0 pre s1 out" and ok: "buildable den Map.empty pre" and readable: "text_log pre"
    and roots: "utf8_valid (ls_root s0)" "utf8_valid (ls_root s1)"
  shows "json_valid (build_response_json (batch_of_output out))"
proof -
  from out obtain seq dms wms ps where
    perm: "mset dms = mset (log_deposits pre)" "mset wms = mset (log_withdrawals pre)"
    and upd: "bo_update out = batch_update seq (ls_root s0) (ls_root s1) (map record_of_move dms) (map input_of_move wms)"
    and com: "bo_commitments out = build_commitments (bo_update out)"
    and wit: "bo_witness out = \<lparr>wit_accounts = map (party_witness Map.empty s0 (map input_of_move wms) s1) ps, wit_state_path = []\<rparr>"
    and own: "fst ` set ps = pt_owner ` set (log_transitions pre)"
    unfolding output_of_log_def by blast
  have sets: "set dms = set (log_deposits pre)" "set wms = set (log_withdrawals pre)" using perm by (metis mset_eq_setD)+
  have "json_valid (settlement_deposit_json (deposit_entry (record_of_move d)))" if "d \<in> set dms" for d
    using that sets(1) readable by (simp add: text_log_def deposit_entry_text)
  moreover have "json_valid (settlement_withdrawal_json (withdrawal_entry (input_of_move w)))" if "w \<in> set wms" for w
    using that sets(2) readable ok by (intro withdrawal_entry_text [where secrets = Map.empty]) (simp_all add: text_log_def buildable_def)
  ultimately have "json_valid (settlement_update_json (bo_update out))"
    using roots by (simp add: upd settlement_update_json_def batch_update_def utf8_valid_ascii byte_def del: append.simps)
  moreover have "json_valid (witness_account_json (party_witness Map.empty s0 (map input_of_move wms) s1 q))" if "q \<in> set ps" for q
  proof -
    from that own obtain t where "t \<in> set (log_transitions pre)" "fst q = pt_owner t" by (metis image_iff)
    with log_owners_text [OF readable] show ?thesis by (simp add: party_text)
  qed
  then have "json_valid (witness_json (bo_witness out))"
    by (simp add: wit witness_json_def strings_json_def utf8_valid_ascii byte_def)
  ultimately show ?thesis
    using partial_state_text
    by (simp add: build_response_json_def batch_of_output_def com commitments_text utf8_valid_ascii byte_def)
qed

lemma local_proof_text:
  assumes "local_generate_proof u (build_commitments u) w = Inr p" and "utf8_valid (su_old_root u)" and "utf8_valid (su_new_root u)"
  shows "json_valid (proof_bundle_json p)" and "pb_proof p \<noteq> []"
  using assms
  by (auto simp: local_generate_proof_def proof_bundle_json_def strings_json_def settlement_inputs_list_def build_commitments_def
      deposits_root_def withdrawals_root_def nullifiers_root_def withdraw_outputs_root_def utf8_valid_ascii [of "_ # _"] byte_def
      hash_json_def local_hash_def split: if_splits)

subsection \<open>The three requests\<close>

text \<open>An empty JSON object, which is what the client posts first.\<close>

definition empty_body :: string where
  "empty_body = json_text (JObj [])"

lemma empty_body_decodes:
  "decode_into dec_build_body zero empty_body = Some zero"
  unfolding empty_body_def
  by (simp add: decode_into_text [where rest = "[]", simplified] dec_build_body_def max_nesting_def del: json_text.simps)

text \<open>
  What the client gets and posts: it is answered with the batch, sends it back to be proved, and sends
  the batch and the proof back to be submitted.
\<close>

definition client_settles :: "'w wiring \<Rightarrow> http_deps \<Rightarrow> nat \<Rightarrow> 'w app \<Rightarrow> build_batch_response \<Rightarrow> proof_bundle
    \<Rightarrow> submit_batch_response \<Rightarrow> 'w app \<Rightarrow> bool" where
  "client_settles wg deps now a built p res a3 \<longleftrightarrow> (\<exists>a1 a2.
     http_serve wg deps now (post (batch_path ''build'') empty_body) a = (a1, ReplyJson 200 (build_response_json built))
     \<and> http_serve wg deps now (post proof_path (written (build_response_json built))) a1 = (a2, ReplyJson 200 (proof_response_json p))
     \<and> http_serve wg deps now (post (batch_path ''submit'') (written (submit_body_json (submit_of built p)))) a2
       = (a3, ReplyJson 200 (submit_response_json res)))"

lemma stages_over_http:
  assumes st: "pass_stages wg a out p tx a1 a2 a3" and out: "output_of_log s0 pre s1 out"
    and accs: "wit_accounts (bo_witness out) \<noteq> []"
    and ok: "buildable den Map.empty pre" and readable: "text_log pre"
    and roots: "utf8_valid (ls_root s0)" "utf8_valid (ls_root s1)"
  shows "client_settles wg deps now a (batch_of_output out) p
    (submit_response (submit_of (batch_of_output out) p) (accepted_result tx (bo_update out))) a3"
proof -
  let ?b = "batch_of_output out"
  have b: "bbr_update ?b = bo_update out" "bbr_commitments ?b = bo_commitments out" "bbr_witness ?b = bo_witness out"
    by (simp_all add: batch_of_output_def)
  from out have u: "su_batch_id (bo_update out) \<noteq> []" "su_old_root (bo_update out) = ls_root s0"
      "su_new_root (bo_update out) = ls_root s1" "bo_commitments out = build_commitments (bo_update out)"
    by (auto simp: output_of_log_def batch_update_def)
  have "bc_deposits_root (bo_commitments out) \<noteq> []"
    by (simp add: u(4) build_commitments_def deposits_root_def sha256_hex_def hex_prefix_def)
  then have complete: "batch_complete ?b"
    using output_text [OF out ok readable roots] u(1) accs by (simp add: batch_complete_def b)
  from st have build: "build_batch wg \<lparr>bb_deposit_ids = [], bb_withdraw_ids = []\<rparr> a = (a1, Inr ?b)"
    and proved: "local_generate_proof (bo_update out) (build_commitments (bo_update out)) (bo_witness out) = Inr p"
    and prove: "generate_proof wg (bbr_update ?b) (bbr_commitments ?b) (bbr_witness ?b) a1 = (a2, Inr p)"
    and submit: "submit_batch wg (submit_of ?b p) a2 = (a3, Inr (submit_response (submit_of ?b p) (accepted_result tx (bo_update out))))"
    by (simp_all add: pass_stages_def Let_def b u(4) submit_of_def)
  note steps = client_steps [OF build empty_body_decodes complete prove _ _ submit]
  have "pb_proof p \<noteq> []" "json_valid (proof_bundle_json p)"
    using local_proof_text [OF proved] roots u(2,3) by simp_all
  from steps [OF this] show ?thesis unfolding client_settles_def by blast
qed

lemma http_settles:
  fixes a :: "'w app"
  assumes wg: "local_loop wg" and inv: "loop_inv (ap_service a) s0 None ms" and ne: "ms \<noteq> []"
    and rd: "roots_distinct s0 ms" and ok: "buildable den Map.empty (flight_prefix ms)"
    and readable: "text_log (flight_prefix ms)" "utf8_valid (ls_root s0)"
  shows "\<exists>built p res a' s1. client_settles wg deps now a built p res a' \<and> sbr_accepted res
    \<and> settle_once wg rec a = (a', Inr True)
    \<and> log_run s0 (flight_prefix ms) s1 \<and> loop_inv (ap_service a') s1 None (flight_rest ms)"
proof -
  obtain out p tx a1 a2 a3 s1 where st: "pass_stages wg a out p tx a1 a2 a3"
    and out: "output_of_log s0 (flight_prefix ms) s1 out" "wit_accounts (bo_witness out) \<noteq> []"
    and run: "log_run s0 (flight_prefix ms) s1" and inv3: "loop_inv (ap_service a3) s1 None (flight_rest ms)"
  proof -
    from settle_stages [OF wg inv ne rd ok] show thesis by (elim exE conjE) (rule that)
  qed
  from inv have "wf_local s0" by (simp add: loop_inv_def)
  then have "root_current s1" using log_run_wf [OF run] flight_prefix_not_Nil [OF ne] by blast
  then have r1: "utf8_valid (ls_root s1)" by (simp add: root_current_def compute_root_def)
  from stages_over_http [OF st out ok readable r1] stages_settle [OF st] run inv3
  show ?thesis by (intro exI conjI) (assumption | simp add: submit_response_def accepted_result_def)+
qed

end
