(* ===== verification/Boundary_Scenario.thy ===== *)
theory Boundary_Scenario
  imports App_Main Http_Settlement App_Scenario
begin

text \<open>
  Concrete inputs for the properties of the program's boundary: an environment of variables and a
  platform, what the chain binary prints for a deposit, a prover over HTTP, and the strings of Alice's
  deposit.
\<close>

subsection \<open>What the chain binary prints for a deposit\<close>

definition deposited_json :: json where
  "deposited_json = JObj [(''height'', JStr ''7''), (''txhash'', JStr ''T''), (''code'', JNum ''0''),
     (''events'', JArr [JObj [(''type'', JStr type_deposit), (''attributes'', JArr
        [JObj [(''key'', JStr ''depositId''), (''value'', JStr ''dep-1'')],
         JObj [(''key'', JStr ''creator''), (''value'', JStr ''alice'')]])]])]"

definition deposited_text :: string where
  "deposited_text = json_text deposited_json"

definition deposited_event :: tx_event where
  "deposited_event = \<lparr>te_type = type_deposit, te_attributes = [(''depositId'', ''dep-1''), (''creator'', ''alice'')]\<rparr>"

lemma deposited_fits: "json_fits max_nesting deposited_json"
  using set_string10_int_to_dec [of 0]
  by (simp add: deposited_json_def max_nesting_def int_to_dec_def nat_to_dec.simps digit_char_eval)

lemma deposited_valid: "json_valid deposited_json"
  by (simp add: deposited_json_def utf8_valid_ascii byte_def type_deposit_def)

lemma folded_names: "fold_name ''height'' = ''HEIGHT''" "fold_name ''txhash'' = ''TXHASH''" "fold_name ''code'' = ''CODE''"
  "fold_name ''raw_log'' = ''RAW_LOG''" "fold_name ''events'' = ''EVENTS''" "fold_name ''logs'' = ''LOGS''"
  by (simp_all add: fold_name.simps upper_ascii_def byte_def char_of_def bit_0 bit_Suc)

lemma deposited_tx: "dec_chain_tx zero_chain_tx deposited_json = Some \<lparr>ct_hash = ''T'', ct_code = 0, ct_raw_log = [],
    ct_height = 0, ct_events = [deposited_event], ct_logs = []\<rparr>"
  using parse_int64_format [of 0]
  by (simp add: dec_chain_tx_def zero_chain_tx_def deposited_json_def find_field_def dec_field_def dec_int_def
      format_int64_def int_to_dec_def nat_to_dec.simps digit_char_eval dec_tx_event_def zero_tx_event_def dec_attribute_def
      deposited_event_def folded_names dec_list_def)

lemma deposited_height: "dec_height_envelope [] deposited_json = Some ''7''"
  by (simp add: dec_height_envelope_def deposited_json_def find_field_def folded_names)

lemma deposited_parse: "parse_tx_result deposited_text = Inr \<lparr>ct_hash = ''T'', ct_code = 0, ct_raw_log = [],
    ct_height = 7, ct_events = [deposited_event], ct_logs = []\<rparr>"
proof -
  obtain kvs where o: "json_text deposited_json = json_object kvs" by (simp add: deposited_json_def)
  have t: "trim_space deposited_text = deposited_text"
    unfolding deposited_text_def o using trim_space_object [of "[]" kvs] by simp
  have s: "json_span deposited_text = Some (json_text deposited_json)"
    using json_span_object [of "[]" "[]" kvs] by (simp add: deposited_text_def o)
  have ne: "deposited_text \<noteq> []" by (simp add: deposited_text_def o json_object_def)
  have seven: "parse_int64 (trim_space ''7'') = Some 7"
    by (simp add: trim_space_ends_eval plain_char_def parse_int64_def set_string10_def unsigned10_def digit_val_def)
  have "envelope_height (json_text deposited_json) = 7"
    by (simp add: envelope_height_def unmarshal_into_text deposited_fits deposited_valid deposited_height seven)
  then show ?thesis
    by (simp add: parse_tx_result_def Let_def t s ne unmarshal_into_text deposited_fits deposited_valid deposited_tx)
qed

text \<open>A runner that prints it on every run.\<close>

definition deposit_cli :: "cli_run_record list cli" where
  "deposit_cli = prompt_cli\<lparr>cli_run := (\<lambda>b args n. (n @ [(b, args, deposited_text, None)], deposited_text, None))\<rparr>"

lemma deposit_cli_laws: "traced deposit_cli id" "ctx_law deposit_cli"
  by (simp_all add: deposit_cli_def prompt_cli_def traced_def ctx_law_def)

definition alice_wish :: deposit_request where
  "alice_wish = \<lparr>dq_owner = ''alice'', dq_denom = ''uusdc'', dq_amount = ''100''\<rparr>"

definition alice_event_seen :: chain_event where
  "alice_event_seen = deposit_event ''dep-1'' ''alice'' ''uusdc'' ''100''"

lemma deposited_event_found:
  "extract_deposit_event \<lparr>ct_hash = ''T'', ct_code = 0, ct_raw_log = [], ct_height = 7, ct_events = [deposited_event], ct_logs = []\<rparr>
     ''alice'' ''uusdc'' ''100'' = Some alice_event_seen"
proof -
  have t: "trim_space s = s" if "list_all plain_char s" "s \<noteq> []" for s
    using that by (simp add: trim_space_plain plain_def)
  have names: "trim_space ''depositId'' = ''depositId''" "trim_space ''creator'' = ''creator''" "trim_space ''dep-1'' = ''dep-1''"
    "trim_space ''alice'' = ''alice''" "trim_space ''uusdc'' = ''uusdc''" "trim_space ''100'' = ''100''"
    by (rule t; simp add: plain_char_def)+
  have at: "attribute_map (te_attributes deposited_event) k =
      (if k = ''creator'' then ''alice'' else if k = ''depositId'' then ''dep-1'' else [])" for k
    by (simp add: attribute_map_def deposited_event_def names unquote_attr_value_def Let_def quote_char_def)
  have c: "go_contains (te_type deposited_event) ''EventDeposit''"
    by (simp add: deposited_event_def type_deposit_def)
  show ?thesis
    by (simp add: extract_deposit_event_def Let_def c at names alice_event_seen_def)
qed

lemma alice_cosmos_deposit:
  "\<exists>w. cosmos_deposit deposit_cli cfg alice_wish [] = (w, Inr \<lparr>txr_hash = ''T'', txr_height = 7, txr_events = [alice_event_seen]\<rparr>)"
proof -
  have t: "trim_space s = s" if "list_all plain_char s" "s \<noteq> []" for s
    using that by (simp add: trim_space_plain plain_def)
  have names: "trim_space ''alice'' = ''alice''" "trim_space ''uusdc'' = ''uusdc''" "trim_space ''100'' = ''100''"
    by (rule t; simp add: plain_char_def)+
  have amount: "parse_int64 ''100'' = Some 100"
    by (simp add: parse_int64_def set_string10_def unsigned10_def digit_val_def)
  show ?thesis
    by (simp add: cosmos_deposit_def cosmos_deposit_on_def Let_def alice_wish_def names amount deposit_cli_def deposited_parse
        deposit_finish_def deposited_event_found deposit_result_def)
qed

subsection \<open>Environments\<close>

text \<open>A platform whose chain binary prints the deposit, whose database opens, and which reaches no prover.\<close>

definition test_platform :: "cli_run_record list platform" where
  "test_platform = \<lparr>pf_cli = deposit_cli, pf_http = (\<lambda>rq w. (w, NoResponse ''refused'')), pf_seq = (\<lambda>w. 1),
     pf_set_seq = (\<lambda>n w. w), pf_height = (\<lambda>w. 0), pf_open = (\<lambda>url. None)\<rparr>"

definition no_rest :: rest_server where
  "no_rest = (\<lambda>url. NoResponse ''refused'')"

definition cosmos_env :: env where
  "cosmos_env = (\<lambda>_. [])(''CHAIN_DEPOSIT_MODE'' := ''cosmos'')"

definition cosmos_wiring :: "cli_run_record list wiring" where
  "cosmos_wiring = main_wiring test_platform no_rest id cosmos_env"

lemma cosmos_wiring_chain: "wg_chain cosmos_wiring = cosmos_deposit deposit_cli (deposit_config_of cosmos_env)"
  by (simp add: cosmos_wiring_def main_wiring_def Let_def chain_client_of_mode_def getenv_def test_platform_def cosmos_env_def)

lemma cosmos_wiring_plain: "\<not> wg_enabled cosmos_wiring"
  by (simp add: cosmos_wiring_def main_wiring_facts api_config_of_def getenv_def cosmos_env_def)

definition cosmos_app :: "cli_run_record list app" where
  "cosmos_app = \<lparr>ap_backend = fresh_backend, ap_service = alice_service, ap_baseline = None, ap_build_seq = 0, ap_env = []\<rparr>"

lemma alice_deposit_by_cosmos:
  "\<exists>a' r. create_deposit cosmos_wiring 0 alice_wish cosmos_app = (a', Inr (''T'', r))"
proof -
  obtain w where w: "wg_chain cosmos_wiring alice_wish [] = (w, Inr \<lparr>txr_hash = ''T'', txr_height = 7, txr_events = [alice_event_seen]\<rparr>)"
    using alice_cosmos_deposit cosmos_wiring_chain by metis
  show ?thesis
    by (simp add: create_deposit_def ap_bind_def on_env_def cosmos_app_def w index_deposit_from_tx_def alice_event_seen_def
        deposit_event_def deposit_record_from_event_def Let_def apply_indexed_def cosmos_wiring_plain)
qed

text \<open>The pending mode with the worker, everything else at its default.\<close>

definition worker_env :: env where
  "worker_env = (\<lambda>_. [])(''BATCH_BUILD_SOURCE'' := ''pending'', ''SETTLEMENT_WORKER_ENABLED'' := ''true'')"

definition first_start :: "cli_run_record list outside" where
  "first_start = \<lparr>os_tables = be_db fresh_backend, os_settlement = empty_db (\<lambda>_. []), os_world = []\<rparr>"

lemma worker_config: "ac_build_source (api_config_of worker_env) = source_pending" "needs_db (api_config_of worker_env)"
  "ac_prover_mode (api_config_of worker_env) = ''local''" "ac_prover_url (api_config_of worker_env) = ''http://localhost:8090''"
  by (simp_all add: api_config_of_def getenv_def worker_env_def source_pending_def needs_db_def)

lemma worker_starts:
  obtains p where "main_start test_platform no_rest id worker_env first_start = Inr p" and "pr_sequencer p = Some (8 * second)"
proof -
  let ?wg = "main_wiring test_platform no_rest id worker_env"
  have open': "open_database_if_needed test_platform worker_env = None"
    by (simp add: open_database_if_needed_def open_pool_def test_platform_def)
  have v: "wg_verifier ?wg = None" by (simp add: main_wiring_facts verifier_of_mode_def worker_config)
  have eight: "parse_duration ''8s'' = Some (8 * second)"
    using parse_duration_seconds [of 8] by (simp add: nat_to_dec.simps digit_char_eval second_def)
  have worker: "settlement_worker worker_env = Some (8 * second)"
    by (simp add: settlement_worker_def Let_def worker_config) (simp add: getenv_def worker_env_def parse_duration_or_def eight
        new_sequencer_interval_def second_def)
  have "\<exists>p. main_start test_platform no_rest id worker_env first_start = Inr p"
    by (simp add: main_start_def Let_def open' main_preflight_def v)
  then obtain p where p: "main_start test_platform no_rest id worker_env first_start = Inr p" by blast
  then show ?thesis by (rule that) (simp add: main_start_Inr(2) [OF p] worker)
qed

subsection \<open>A prover over HTTP\<close>

definition some_bundle :: proof_bundle where
  "some_bundle = \<lparr>pb_proof = ''p'', pb_public_inputs = replicate 6 ''0x1'', pb_vk_id = ''vk-1''\<rparr>"

definition some_prover :: "unit transport" where
  "some_prover rq w = (w, case decode_into dec_proof_body zero_proof_body (hq_body rq) of
     Some b \<Rightarrow> Response 200 (written (prove_response_json some_bundle)) | None \<Rightarrow> Response 400 [])"

definition some_body :: proof_body where
  "some_body = \<lparr>prb_update = hand_update, prb_commitments = build_commitments hand_update,
     prb_witness = \<lparr>wit_accounts = [], wit_state_path = []\<rparr>\<rparr>"

lemma some_bundle_text: "json_valid (proof_bundle_json some_bundle)" "bundle_complete some_bundle"
  by (simp_all add: proof_bundle_json_def some_bundle_def strings_json_def bundle_complete_def utf8_valid_ascii byte_def)

lemma some_body_text: "json_valid (proof_body_json some_body)"
proof -
  have "json_valid (settlement_update_json hand_update)"
    by (simp add: settlement_update_json_def settlement_withdrawal_json_def hand_update_def alice_owner_def alice_denom_def
        utf8_valid_ascii byte_def)
  then show ?thesis
    by (simp add: proof_body_json_def some_body_def commitments_text witness_json_def strings_json_def utf8_valid_ascii byte_def)
qed

subsection \<open>Alice's log\<close>

lemma alice_logged_text:
  obtains sv mv where "loop_inv sv genesis None [LogDeposit mv]" and "roots_distinct genesis [LogDeposit mv]"
    and "clean_move alice_denom (LogDeposit mv)" and "text_log [LogDeposit mv]"
proof -
  obtain s where s: "apply_deposit genesis alice_deposit = Inr (s, ls_root s)" "root_current s" by (rule genesis_deposit)
  let ?mv = "deposit_move_of genesis alice_deposit s"
  from loop_deposit [OF alice_service_inv, of alice_deposit s "ls_root s"] s obtain sv where
    sv: "loop_inv sv genesis None [LogDeposit ?mv]" by auto
  have "ls_root s \<noteq> genesis_root" using genesis_not_current s(2) by blast
  moreover have "text_log [LogDeposit ?mv]"
    by (simp add: text_log_def text_deposit_def deposit_move_of_def alice_deposit_def alice_owner_def alice_denom_def
        utf8_valid_ascii byte_def)
  ultimately show ?thesis using sv alice_move [OF s(1)] by (intro that [of sv ?mv]) (auto simp: roots_distinct_def)
qed

lemma genesis_root_text: "utf8_valid (ls_root genesis)"
  by (simp add: genesis_def new_local_state_with_genesis_root_def genesis_root_def utf8_valid_ascii byte_def)

subsection \<open>A body that is not JSON\<close>

lemma decode_nothing: "decode_into dec zero ''nope'' = None"
  by (simp add: decode_into_def json_decode_next_def skip_ws_def json_space_def parse_value.simps parse_literal_def max_nesting_def
      scan_number_def scan_unsigned_def scan_int_part_def scan_digits_def is_digit_def digit_val_def)

end
