(* ===== verification/Boundary_Properties.thy ===== *)
theory Boundary_Properties
  imports Boundary_Scenario
begin

text \<open>
  The properties of the program's boundary: the HTTP interface, the remote prover, the client that
  settles over HTTP, the process that \<^verbatim>\<open>main\<close> starts, and a deposit through the chain binary.
\<close>

section \<open>HTTP\<close>

text \<open>
  C4: Whatever request arrives, the server does nothing, or one operation of the services (a step
  \<open>serve\<close>, which the invariants of the tables are about). A request that is not a POST changes nothing but
  the script of the database's answers. A path without a route, and a body that does not decode as the
  JSON its handler expects, leave the application as it was; the second is answered with status 400.
\<close>

theorem http_requests_are_steps:
  assumes "http_serve wg deps now rq a = (a', r)"
  shows "(a' = a \<or> serve wg a a') \<and> (wq_method rq \<noteq> ''POST'' \<longrightarrow> only_read a a')
    \<and> (find_route (wg_has_offchain wg) (wq_segments rq) = None \<longrightarrow> a' = a)
    \<and> (\<forall>e. find_route (wg_has_offchain wg) (wq_segments rq) = Some (wq_method rq, e) \<and> wq_method rq \<noteq> ''OPTIONS''
        \<and> \<not> body_decodes e (wq_body rq) \<longrightarrow> a' = a \<and> r = ReplyMessage http_bad_request ''invalid JSON body'')"
proof (intro conjI impI allI)
  show "a' = a \<or> serve wg a a'" using http_serve_serves [of wg deps now rq a] assms by simp
  show "only_read a a'" if "wq_method rq \<noteq> ''POST''" using http_get_only_reads [OF that] assms by (metis fst_conv)
  show "a' = a" if "find_route (wg_has_offchain wg) (wq_segments rq) = None"
    using that assms by (auto simp: http_serve_def split: if_splits)
next
  fix e assume e: "find_route (wg_has_offchain wg) (wq_segments rq) = Some (wq_method rq, e) \<and> wq_method rq \<noteq> ''OPTIONS''
    \<and> \<not> body_decodes e (wq_body rq)"
  with http_invalid_body [of wg rq e deps now a] assms
  show "a' = a" "r = ReplyMessage http_bad_request ''invalid JSON body''" by (auto simp: invalid_body_def)
qed

theorem http_requests_are_steps_witness:
  "\<exists>a' r. http_serve alice_wiring (http_deps_of no_rest id worker_env) 0 (post [''api'', ''deposit''] ''nope'') (app_on alice_service) = (a', r)
     \<and> a' = app_on alice_service \<and> r = ReplyMessage http_bad_request ''invalid JSON body''"
proof -
  let ?rq = "post [''api'', ''deposit''] ''nope''"
  obtain a' r where s: "http_serve alice_wiring (http_deps_of no_rest id worker_env) 0 ?rq (app_on alice_service) = (a', r)"
    by (metis prod.exhaust)
  have route: "find_route (wg_has_offchain alice_wiring) (wq_segments ?rq) = Some (wq_method ?rq, ECreateDeposit)"
    by (simp add: post_def find_route_def fixed_routes_def)
  have "\<not> body_decodes ECreateDeposit (wq_body ?rq)" by (simp add: post_def decode_nothing)
  with http_requests_are_steps [OF s] route show ?thesis using s by (auto simp: post_def)
qed

section \<open>The remote prover\<close>

text \<open>A prover that answers every body it can decode with the proof it makes of it.\<close>

definition answers_prove :: "string \<Rightarrow> (proof_body \<Rightarrow> proof_bundle) \<Rightarrow> 'w transport \<Rightarrow> bool" where
  "answers_prove base prove http \<longleftrightarrow> (\<forall>body b w. decode_into dec_proof_body zero_proof_body body = Some b \<longrightarrow>
     http (post_json (base @ ''/prove'') body) w = (w, Response 200 (written (prove_response_json (prove b)))))"

text \<open>
  C12: The JSON between the program and a remote prover loses nothing. Against a prover that answers every
  body it can decode with the proof it makes of it, the remote client is a local call: for a batch whose
  strings are valid UTF-8, what \<^verbatim>\<open>GenerateProof\<close> returns is the bundle the prover made of
  exactly that update, those commitments and that witness.
\<close>

theorem remote_prover_is_a_call:
  assumes "answers_prove base prove http"
    and "json_valid (proof_body_json \<lparr>prb_update = u, prb_commitments = c, prb_witness = wit\<rparr>)"
    and "bundle_complete (prove \<lparr>prb_update = u, prb_commitments = c, prb_witness = wit\<rparr>)"
    and "json_valid (proof_bundle_json (prove \<lparr>prb_update = u, prb_commitments = c, prb_witness = wit\<rparr>))"
  shows "pc_generate (remote_prover base http) u c wit w = (w, Inr (prove \<lparr>prb_update = u, prb_commitments = c, prb_witness = wit\<rparr>))"
proof -
  let ?b = "\<lparr>prb_update = u, prb_commitments = c, prb_witness = wit\<rparr>"
  have "http (post_json (base @ ''/prove'') (json_text (proof_body_json ?b))) w
      = (w, Response 200 (written (prove_response_json (prove ?b))))"
    using assms(1) sent_proof_body [OF assms(2)] unfolding answers_prove_def by blast
  moreover have "decode_into dec_prove_response zero_proof_bundle (written (prove_response_json (prove ?b))) = Some (prove ?b)"
    unfolding written_def by (rule received_proof [OF assms(4)]) simp
  ultimately show ?thesis using assms(3)
    by (simp add: remote_prover_def remote_prove_def answer_of_def remote_generate_proof_def status_ok_def bundle_complete_def)
qed

theorem remote_prover_is_a_call_witness:
  "pc_generate (remote_prover ''http://gazk'' some_prover) (prb_update some_body) (prb_commitments some_body) (prb_witness some_body) ()
     = ((), Inr some_bundle)"
proof -
  have "answers_prove ''http://gazk'' (\<lambda>_. some_bundle) some_prover"
    by (simp add: answers_prove_def some_prover_def post_json_def)
  moreover obtain u c wit where b: "some_body = \<lparr>prb_update = u, prb_commitments = c, prb_witness = wit\<rparr>"
    by (cases some_body)
  ultimately show ?thesis
    using remote_prover_is_a_call [of "''http://gazk''" "\<lambda>_. some_bundle" some_prover u c wit "()"] some_bundle_text some_body_text
    by (simp add: b)
qed

section \<open>Settling over HTTP\<close>

text \<open>
  C16: A client that posts an empty body to build, posts the answer back to be proved, and posts the
  update, the commitments and the proof back to be submitted does exactly what one pass of the sequencer
  does. On a clean log whose identifiers, owners and denominations are valid UTF-8, all three
  requests succeed, the batch is accepted, the application ends in the state \<open>settle_once\<close> leads to, and
  the first batch of the log is settled.
\<close>

theorem http_client_is_a_pass:
  fixes a :: "'w app"
  assumes "local_loop wg" and "loop_inv (ap_service a) s0 None ms" and "ms \<noteq> []"
    and "roots_distinct s0 ms" and "buildable den Map.empty (flight_prefix ms)"
    and "text_log (flight_prefix ms)" and "utf8_valid (ls_root s0)"
  shows "\<exists>built p res a1 a2 a3 s1.
    http_serve wg deps now (post [''api'', ''batch'', ''build''] (json_text (JObj []))) a
      = (a1, ReplyJson 200 (build_response_json built))
    \<and> http_serve wg deps now (post [''api'', ''proof'', ''generate''] (written (build_response_json built))) a1
      = (a2, ReplyJson 200 (proof_response_json p))
    \<and> http_serve wg deps now (post [''api'', ''batch'', ''submit''] (written (submit_body_json
        \<lparr>sb_update = bbr_update built, sb_commitments = bbr_commitments built, sb_proof = p\<rparr>))) a2
      = (a3, ReplyJson 200 (submit_response_json res))
    \<and> sbr_accepted res \<and> settle_once wg rec a = (a3, Inr True)
    \<and> log_run s0 (flight_prefix ms) s1 \<and> loop_inv (ap_service a3) s1 None (flight_rest ms)"
proof -
  obtain built p res a3 s1 where
    c: "client_settles wg deps now a built p res a3" and r: "sbr_accepted res" "settle_once wg rec a = (a3, Inr True)"
      "log_run s0 (flight_prefix ms) s1" "loop_inv (ap_service a3) s1 None (flight_rest ms)"
  proof -
    from http_settles [OF assms, where deps = deps and now = now and rec = rec] show thesis by (elim exE conjE) (rule that)
  qed
  from c obtain a1 a2 where
    "http_serve wg deps now (post (batch_path ''build'') empty_body) a = (a1, ReplyJson 200 (build_response_json built))"
    "http_serve wg deps now (post proof_path (written (build_response_json built))) a1 = (a2, ReplyJson 200 (proof_response_json p))"
    "http_serve wg deps now (post (batch_path ''submit'') (written (submit_body_json (submit_of built p)))) a2
      = (a3, ReplyJson 200 (submit_response_json res))" unfolding client_settles_def by blast
  then show ?thesis
    unfolding batch_path_def proof_path_def empty_body_def submit_of_def using r by (intro exI conjI)
qed

theorem http_client_is_a_pass_witness:
  "\<exists>sv built a1 a3. http_serve alice_wiring (http_deps_of no_rest id worker_env) 0
       (post [''api'', ''batch'', ''build''] (json_text (JObj []))) (app_on sv) = (a1, ReplyJson 200 (build_response_json built))
     \<and> settle_once alice_wiring True (app_on sv) = (a3, Inr True)"
proof -
  obtain sv mv where l: "loop_inv sv genesis None [LogDeposit mv]" "roots_distinct genesis [LogDeposit mv]"
    "clean_move alice_denom (LogDeposit mv)" "text_log [LogDeposit mv]" by (rule alice_logged_text)
  from l(1) have inv: "loop_inv (ap_service (app_on sv)) genesis None [LogDeposit mv]" by simp
  have pre: "text_log (flight_prefix [LogDeposit mv])" using l(4) by simp
  have ne: "[LogDeposit mv] \<noteq> []" by simp
  from http_client_is_a_pass [OF alice_local_loop inv ne l(2) alice_drainable(2) [OF l(3)] pre genesis_root_text,
      of "http_deps_of no_rest id worker_env" 0 True]
  show ?thesis by (elim exE conjE) (intro exI conjI)
qed

section \<open>Starting\<close>

text \<open>
  C18: A process that reaches \<^verbatim>\<open>ListenAndServe\<close> is wired consistently, whatever the
  environment says. The offchain settlement service exists with its database exactly when the pool is open,
  and it is there whenever the settlement is enabled, the pending mode is on or any store is in Postgres,
  so no operation meets a missing pool or a nil service. The rollback of the mirror is wired in the
  manual modes only, with the baseline taken. The sequencer runs only in the pending mode. With the
  strict preflight and a verifier, the prover's artifact has matched the pinned circuit.
\<close>

theorem startup_is_consistent:
  assumes "main_start pf rest big env os = Inr p" and "wg = pr_wiring p" and "a = pr_app p"
  shows "(wg_has_offchain wg \<longleftrightarrow> sv_repo (ap_service a) \<noteq> None) \<and> (wg_has_offchain wg \<longleftrightarrow> ad_pool (be_db (ap_backend a)))
    \<and> (wg_enabled wg \<or> wg_build_source wg = source_pending \<or> uses_postgres wg \<longrightarrow> wg_has_offchain wg)
    \<and> (wg_rollback wg \<longrightarrow> wg_build_source wg \<noteq> source_pending
        \<and> ap_baseline a = Some (manager_snapshot (sv_manager (ap_service a))))
    \<and> (\<forall>i. pr_sequencer p = Some i \<longrightarrow> wg_build_source wg = source_pending \<and> wg_has_offchain wg \<and> 0 < i)
    \<and> (wg_verifier wg \<noteq> None \<and> preflight_strict env \<longrightarrow> (\<exists>artifact.
        remote_artifact (new_remote_client (ac_prover_url (api_config_of env))) (pf_http pf) (os_world os) = (ap_env a, Inr artifact)
        \<and> validate_artifact_matches_expected artifact (expected_artifact_of env) = None))"
  unfolding assms(2,3) using start_consistent [OF assms(1)] by (intro conjI) blast+

theorem startup_is_consistent_witness:
  "\<exists>p. main_start test_platform no_rest id worker_env first_start = Inr p \<and> pr_sequencer p = Some (8 * second)
     \<and> wg_build_source (pr_wiring p) = source_pending \<and> wg_has_offchain (pr_wiring p)"
proof -
  obtain p where p: "main_start test_platform no_rest id worker_env first_start = Inr p" "pr_sequencer p = Some (8 * second)"
    by (rule worker_starts)
  with startup_is_consistent [OF p(1) refl refl] show ?thesis by auto
qed

section \<open>A deposit through the chain binary\<close>

text \<open>
  C40: A deposit of a user through the Cosmos client runs the deposit command at most once; every other run
  of the binary is a query for a transaction, and there are at most as many as the configured retries. When
  the service answers with a record, the record has an id, an owner, a denomination, an amount and the hash
  of the transaction, and it is stored under its id.
\<close>

theorem cosmos_deposit_recorded:
  assumes "wg_chain wg = cosmos_deposit cl cfg" and "ctx_law cl" and "traced cl trace" and "c = deposit_defaults cfg"
    and "create_deposit wg now req a = (a', r)"
  shows "(\<exists>runs. trace (ap_env a') = trace (ap_env a) @ runs \<and> length runs \<le> 1 + nat (dc_tx_query_retries c)
      \<and> (\<forall>run \<in> set (tl runs). \<exists>h. fst (snd run) = deposit_query_args c h))
    \<and> (\<forall>h rec. r = Inr (h, rec) \<longrightarrow> deposit_complete rec \<and> h \<noteq> [] \<and> dep_tx_hash rec = h
        \<and> ms_deposits (be_store (ap_backend a')) (dep_id rec) = Some rec)"
  using create_deposit_runs [OF assms(1,3,5)] create_deposit_record [OF assms(1,2,5)] unfolding assms(4) by blast

theorem cosmos_deposit_recorded_witness:
  "\<exists>a' rec. create_deposit cosmos_wiring 0 alice_wish cosmos_app = (a', Inr (''T'', rec)) \<and> deposit_complete rec
     \<and> length (ap_env a') \<le> 21 \<and> ms_deposits (be_store (ap_backend a')) (dep_id rec) = Some rec"
proof -
  obtain a' rec where c: "create_deposit cosmos_wiring 0 alice_wish cosmos_app = (a', Inr (''T'', rec))"
    using alice_deposit_by_cosmos by blast
  have start: "ap_env cosmos_app = []" and tries: "nat (dc_tx_query_retries (deposit_defaults (deposit_config_of cosmos_env))) = 20"
    by (simp_all add: cosmos_app_def deposit_defaults_def deposit_config_of_def)
  from cosmos_deposit_recorded [OF cosmos_wiring_chain deposit_cli_laws(2,1) refl c] c
  show ?thesis by (auto simp: start tries)
qed

end
