(* ===== verification/Go_Indent.thy ===== *)
theory Go_Indent
  imports Body_Decoders
begin

text \<open>
  \<^verbatim>\<open>json.MarshalIndent(v, "", "  ")\<close>: the text of a value over several lines, every element of
  an array and every member of an object on a line of its own, two blanks per level; an empty array
  or object stays on one line. Parsing the indented text gives the value, as it does for the compact
  one. The second half decides whether a concrete string is valid UTF-8.
\<close>

subsection \<open>The indented text\<close>

definition indent_line :: "nat \<Rightarrow> string" where
  "indent_line n = CHR 0x0A # replicate (2 * n) (CHR 0x20)"

fun indent_items :: "string \<Rightarrow> string list \<Rightarrow> string" where
  "indent_items line [] = []"
| "indent_items line [v] = v"
| "indent_items line (v # vs) = v @ CHR '','' # line @ indent_items line vs"

fun indent_text :: "nat \<Rightarrow> json \<Rightarrow> string" where
  "indent_text n (JArr vs) =
     (if vs = [] then ''[]''
      else CHR ''['' # indent_line (n + 1) @ indent_items (indent_line (n + 1)) (map (indent_text (n + 1)) vs)
        @ indent_line n @ '']'')"
| "indent_text n (JObj kvs) =
     (if kvs = [] then [CHR 0x7B, CHR 0x7D]
      else CHR 0x7B # indent_line (n + 1) @ indent_items (indent_line (n + 1))
          (map (\<lambda>(k, v). json_string k @ '': '' @ indent_text (n + 1) v) kvs)
        @ indent_line n @ [CHR 0x7D])"
| "indent_text n v = json_text v"

definition marshal_indent :: "json \<Rightarrow> string" where
  "marshal_indent v = indent_text 0 v"

subsection \<open>Blanks\<close>

lemma skip_ws_line [simp]: "skip_ws (indent_line n @ s) = skip_ws s"
proof -
  have "dropWhile json_space (replicate k (CHR 0x20) @ s) = dropWhile json_space s" for k
    by (induction k) (simp_all add: json_space_def)
  then show ?thesis by (simp add: skip_ws_def indent_line_def json_space_def)
qed

lemma skip_ws_blank [simp]: "skip_ws (CHR 0x20 # s) = skip_ws s" "skip_ws (CHR 0x0A # s) = skip_ws s"
  by (simp_all add: skip_ws_def json_space_def)

lemma parse_value_line [simp]: "parse_value d (indent_line n @ s) = parse_value d s"
  "parse_value d (CHR 0x20 # s) = parse_value d s"
  by (simp_all add: parse_value.simps [of d "indent_line n @ s"] parse_value.simps [of d "CHR 0x20 # s"]
      parse_value.simps [of d s])

lemma parse_items_line [simp]: "parse_items d (indent_line n @ s) = parse_items d s"
  by (simp add: parse_items_plain [of d "indent_line n @ s"] parse_items_plain [of d s])

lemma parse_members_line [simp]: "parse_members d (indent_line n @ s) = parse_members d s"
  by (simp add: parse_members_plain [of d "indent_line n @ s"] parse_members_plain [of d s])

lemma ends_value_line [simp]: "ends_value (indent_line n @ s)"
  by (simp add: indent_line_def)

subsection \<open>Reading an indented text\<close>

lemma indent_text_start: "json_fits d v \<Longrightarrow> \<exists>c r. indent_text n v = c # r \<and> value_start c"
  using json_text_start [of d v] by (cases v) (auto simp: value_start_def)

lemma parse_items_indent:
  assumes "vs \<noteq> []"
    and "\<And>v rest. v \<in> set vs \<Longrightarrow> ends_value rest \<Longrightarrow> parse_value d (indent_text m v @ rest) = Some (json_clean v, rest)"
  shows "parse_items d (indent_items (indent_line m) (map (indent_text m) vs) @ indent_line n @ CHR '']'' # rest)
    = Some (map json_clean vs, rest)"
  using assms
proof (induction vs rule: list_nonempty_induct)
  case (single v)
  then show ?case by (simp add: parse_items_plain [of d "indent_text m v @ _"])
next
  case (cons v vs)
  obtain w ws where vs: "vs = w # ws" using cons.hyps by (cases vs) simp_all
  have IH: "parse_items d (indent_items (indent_line m) (map (indent_text m) vs) @ indent_line n @ CHR '']'' # rest)
      = Some (map json_clean vs, rest)"
    using cons.IH cons.prems by auto
  have "indent_items (indent_line m) (map (indent_text m) (v # vs)) @ indent_line n @ CHR '']'' # rest
      = indent_text m v @ CHR '','' # indent_line m @ indent_items (indent_line m) (map (indent_text m) vs)
          @ indent_line n @ CHR '']'' # rest"
    by (simp add: vs)
  with IH cons.prems [of v] show ?case by (simp add: parse_items_plain [of d "indent_text m v @ _"])
qed

lemma parse_member_indent:
  assumes "\<And>rest. ends_value rest \<Longrightarrow> parse_value d (t @ rest) = Some (x, rest)" and "ends_value rest"
  shows "parse_members d (json_string k @ '': '' @ t @ rest) =
     (case skip_ws rest of [] \<Rightarrow> None | c # r' \<Rightarrow>
       if c = CHR 0x7D then Some ([(utf8_clean k, x)], r')
       else if c = CHR '','' then map_option (\<lambda>(kvs, r''). ((utf8_clean k, x) # kvs, r'')) (parse_members d r')
       else None)"
  using assms by (subst parse_members_plain) (simp add: json_string_def parse_json_chars)

lemma parse_members_indent:
  assumes "kvs \<noteq> []"
    and "\<And>k v rest. (k, v) \<in> set kvs \<Longrightarrow> ends_value rest \<Longrightarrow> parse_value d (indent_text m v @ rest) = Some (json_clean v, rest)"
  shows "parse_members d (indent_items (indent_line m) (map (\<lambda>(k, v). json_string k @ '': '' @ indent_text m v) kvs)
      @ indent_line n @ CHR 0x7D # rest)
    = Some (map (\<lambda>(k, v). (utf8_clean k, json_clean v)) kvs, rest)"
  using assms
proof (induction kvs rule: list_nonempty_induct)
  case (single kv)
  obtain k v where kv: "kv = (k, v)" by (cases kv)
  show ?case
    using single kv parse_member_indent [of d "indent_text m v" "json_clean v" "indent_line n @ CHR 0x7D # rest" k] by simp
next
  case (cons kv kvs)
  obtain k v where kv: "kv = (k, v)" by (cases kv)
  obtain w ws where vs: "kvs = w # ws" using cons.hyps by (cases kvs) simp_all
  have IH: "parse_members d (indent_items (indent_line m) (map (\<lambda>(k, v). json_string k @ '': '' @ indent_text m v) kvs)
      @ indent_line n @ CHR 0x7D # rest) = Some (map (\<lambda>(k, v). (utf8_clean k, json_clean v)) kvs, rest)"
    using cons.IH cons.prems by auto
  show ?case
    using IH cons.prems [of k v] kv vs
      parse_member_indent [of d "indent_text m v" "json_clean v" "CHR '','' # indent_line m @
        indent_items (indent_line m) (map (\<lambda>(k, v). json_string k @ '': '' @ indent_text m v) kvs)
        @ indent_line n @ CHR 0x7D # rest" k]
    by simp
qed

lemma indent_items_start:
  "vs \<noteq> [] \<Longrightarrow> hd vs = c # r \<Longrightarrow> \<exists>r'. indent_items line vs = c # r'"
  by (cases vs; cases "tl vs") auto

theorem parse_indent_text:
  "json_fits d v \<Longrightarrow> ends_value rest \<Longrightarrow> parse_value d (indent_text n v @ rest) = Some (json_clean v, rest)"
proof (induction v arbitrary: d rest n)
  case (JArr vs)
  have sub: "parse_value (d - 1) (indent_text m v @ rest) = Some (json_clean v, rest)"
    if "v \<in> set vs" "ends_value rest" for v rest m
    using JArr.IH [OF that(1) _ that(2), of "d - 1"] JArr.prems that(1) by simp
  show ?case
  proof (cases "vs = []")
    case True
    with JArr.prems show ?thesis by (subst parse_value.simps) simp
  next
    case False
    have "json_fits (d - 1) (hd vs)" using JArr.prems False by simp
    then obtain c r where c: "indent_text (n + 1) (hd vs) = c # r" "value_start c" using indent_text_start by blast
    then have "hd (map (indent_text (n + 1)) vs) = c # r" using False by (simp add: list.map_sel)
    with False obtain r' where "indent_items (indent_line (n + 1)) (map (indent_text (n + 1)) vs) = c # r'"
      using indent_items_start by blast
    with False parse_items_indent [where d = "d - 1" and rest = rest and m = "n + 1", OF False sub]
      value_start_facts [OF c(2)] JArr.prems show ?thesis
      by (subst parse_value.simps) (simp add: skip_ws_id)
  qed
next
  case (JObj kvs)
  have sub: "parse_value (d - 1) (indent_text m v @ rest) = Some (json_clean v, rest)"
    if "(k, v) \<in> set kvs" "ends_value rest" for k v rest m
    using JObj.IH [OF that(1) _ _ that(2), of v "d - 1"] JObj.prems that(1) by force
  show ?case
  proof (cases "kvs = []")
    case True
    with JObj.prems show ?thesis by (subst parse_value.simps) simp
  next
    case False
    let ?f = "\<lambda>(k, v). json_string k @ '': '' @ indent_text (n + 1) v"
    from False obtain r where "hd (map ?f kvs) = CHR 0x22 # r"
      by (cases kvs) (auto simp: json_string_def split: prod.splits)
    with False obtain r' where "indent_items (indent_line (n + 1)) (map ?f kvs) = CHR 0x22 # r'"
      using indent_items_start [of "map ?f kvs"] by auto
    with False parse_members_indent [where d = "d - 1" and rest = rest and m = "n + 1", OF False sub] JObj.prems
    show ?thesis by (subst parse_value.simps) simp
  qed
qed (simp_all add: parse_value_literal [simplified] parse_value_literal parse_value_string,
    auto simp: parse_value_number split: option.splits)

text \<open>A file holds the text and a newline; \<^verbatim>\<open>json.Unmarshal\<close> of it gives what was marshalled.\<close>

lemma unmarshal_into_indent:
  "json_fits max_nesting v \<Longrightarrow> json_valid v
     \<Longrightarrow> unmarshal_into f zero (marshal_indent v @ [CHR 0x0A]) = f zero v"
  using parse_indent_text [of max_nesting v "[CHR 0x0A]" 0]
  by (simp add: unmarshal_into_def json_unmarshal_def marshal_indent_def json_clean_valid)

subsection \<open>Deciding that a string is valid UTF-8\<close>

function utf8_ok :: "string \<Rightarrow> bool" where
  "utf8_ok s = (case s of [] \<Rightarrow> True | c # r \<Rightarrow>
     if byte c < 128 then utf8_ok r
     else if 1 < utf8_len s then utf8_ok (drop (utf8_len s) s) else False)"
  by pat_completeness auto
termination
  by (relation "measure length") auto

declare utf8_ok.simps [simp del]

lemma utf8_ok_valid: "utf8_ok s \<Longrightarrow> utf8_valid s"
  unfolding utf8_valid_def
proof (induction s rule: utf8_ok.induct)
  case (1 s)
  show ?case
  proof (cases s)
    case (Cons c r)
    show ?thesis
    proof (cases "byte c < 128")
      case True
      with 1 Cons show ?thesis by (simp add: utf8_ok.simps [of "c # r"])
    next
      case False
      then have ok: "1 < utf8_len s" "utf8_ok (drop (utf8_len s) s)"
        using "1.prems" Cons by (simp_all add: utf8_ok.simps [of "c # r"] split: if_splits)
      with "1.IH"(2) [OF Cons False ok(1)] have "utf8_clean (drop (utf8_len s) s) = drop (utf8_len s) s" by simp
      moreover have "utf8_clean s = take (utf8_len s) s @ utf8_clean (drop (utf8_len s) s)"
        using ok(1) False Cons by (simp add: utf8_clean.simps [of "c # r"])
      ultimately show ?thesis by simp
    qed
  qed simp
qed

text \<open>The lead byte and the continuation bytes by their bits.\<close>

lemma byte_Char:
  "byte (Char b0 b1 b2 b3 b4 b5 b6 b7) = of_bool b0 + 2 * of_bool b1 + 4 * of_bool b2 + 8 * of_bool b3
     + 16 * of_bool b4 + 32 * of_bool b5 + 64 * of_bool b6 + 128 * of_bool b7"
  by (simp add: byte_def of_char_def)

lemma cont_byte_Char: "cont_byte (Char b0 b1 b2 b3 b4 b5 False True)"
  by (cases b0; cases b1; cases b2; cases b3; cases b4; cases b5) (simp_all add: cont_byte_def byte_Char)

lemma utf8_ok_ascii: "utf8_ok (Char b0 b1 b2 b3 b4 b5 b6 False # r) = utf8_ok r"
proof -
  have "byte (Char b0 b1 b2 b3 b4 b5 b6 False) < 128"
    by (cases b0; cases b1; cases b2; cases b3; cases b4; cases b5; cases b6) (simp_all add: byte_Char)
  then show ?thesis by (simp add: utf8_ok.simps [of "Char b0 b1 b2 b3 b4 b5 b6 False # r"])
qed

lemma utf8_ok_sequence:
  assumes "\<not> byte a < 128" and "utf8_len (a # s @ r) = length (a # s)" and "s \<noteq> []"
  shows "utf8_ok (a # s @ r) = utf8_ok r"
  using assms by (simp add: utf8_ok.simps [of "a # s @ r"])

lemma utf8_ok_two:
  assumes "a1 \<or> a2 \<or> a3 \<or> a4"
  shows "utf8_ok (Char a0 a1 a2 a3 a4 False True True # Char b0 b1 b2 b3 b4 b5 False True # r) = utf8_ok r"
proof -
  have "194 \<le> byte (Char a0 a1 a2 a3 a4 False True True)" "byte (Char a0 a1 a2 a3 a4 False True True) \<le> 223"
    using assms by (cases a0; cases a1; cases a2; cases a3; cases a4; simp add: byte_Char)+
  with utf8_ok_sequence [of "Char a0 a1 a2 a3 a4 False True True" "[Char b0 b1 b2 b3 b4 b5 False True]" r]
  show ?thesis by (simp add: utf8_len_def cont_byte_Char)
qed

lemma utf8_ok_three:
  assumes "a0 \<or> a1 \<or> a2 \<or> a3 \<or> b5" and "\<not> (a0 \<and> \<not> a1 \<and> a2 \<and> a3 \<and> b5)"
  shows "utf8_ok (Char a0 a1 a2 a3 False True True True # Char b0 b1 b2 b3 b4 b5 False True
    # Char c0 c1 c2 c3 c4 c5 False True # r) = utf8_ok r"
proof -
  let ?a = "Char a0 a1 a2 a3 False True True True" and ?b = "Char b0 b1 b2 b3 b4 b5 False True"
  have "224 \<le> byte ?a" "byte ?a \<le> 239"
    by (cases a0; cases a1; cases a2; cases a3; simp add: byte_Char)+
  moreover have "byte ?a = 224 \<longrightarrow> 160 \<le> byte ?b" "byte ?a = 237 \<longrightarrow> byte ?b \<le> 159"
    using assms by (cases a0; cases a1; cases a2; cases a3; cases b5; simp add: byte_Char; linarith)+
  moreover have "128 \<le> byte ?b" "byte ?b \<le> 191" using cont_byte_Char by (simp_all add: cont_byte_def)
  ultimately show ?thesis
    using utf8_ok_sequence [of ?a "[?b, Char c0 c1 c2 c3 c4 c5 False True]" r]
    by (simp add: utf8_len_def cont_byte_Char)
qed

lemma utf8_ok_Nil: "utf8_ok []"
  by (simp add: utf8_ok.simps)

lemmas utf8_decide = utf8_ok_Nil utf8_ok_ascii utf8_ok_two utf8_ok_three

end
