(* ===== verification/Vector_Types.thy ===== *)
theory Vector_Types
  imports Go_Indent Json_Responses
begin

text \<open>
  The structs of \<^verbatim>\<open>pkg/testvectors\<close> (\<^verbatim>\<open>alice.go\<close>,
  \<^verbatim>\<open>manifest.go\<close>, \<^verbatim>\<open>failure_vectors.go\<close>), with a decoder and a JSON value for each
  by their field tags. The generator repeats the structs of the happy path under lower-case names with
  the same tags, and imports those of the failure vectors. Where the generator leaves a slice nil when
  it has no element, it is written as \<^verbatim>\<open>null\<close> (\<open>slice_json\<close>). Decoding the
  value of a datum gives the datum.
\<close>

subsection \<open>Types of pkg/types that only the vectors read\<close>

definition account_json :: "account \<Rightarrow> json" where
  "account_json a = JObj [(''owner'', JStr (acc_owner a)), (''denom'', JStr (acc_denom a)),
     (''balance'', JStr (acc_balance a)), (''nonce'', JStr (acc_nonce a))]"

definition zero_account_value :: account where
  "zero_account_value = \<lparr>acc_owner = [], acc_denom = [], acc_balance = [], acc_nonce = []\<rparr>"

definition dec_account :: "account decoder" where
  "dec_account = dec_struct
     [(''owner'', dec_field acc_owner (\<lambda>x a. a\<lparr>acc_owner := x\<rparr>) dec_string),
      (''denom'', dec_field acc_denom (\<lambda>x a. a\<lparr>acc_denom := x\<rparr>) dec_string),
      (''balance'', dec_field acc_balance (\<lambda>x a. a\<lparr>acc_balance := x\<rparr>) dec_string),
      (''nonce'', dec_field acc_nonce (\<lambda>x a. a\<lparr>acc_nonce := x\<rparr>) dec_string)]"

definition zero_deposit_record :: deposit_record where
  "zero_deposit_record = \<lparr>dep_id = [], dep_owner = [], dep_denom = [], dep_amount = [], dep_processed = False,
     dep_created_height = 0, dep_tx_hash = []\<rparr>"

definition dec_deposit_record :: "deposit_record decoder" where
  "dec_deposit_record = dec_struct
     [(''depositId'', dec_field dep_id (\<lambda>x d. d\<lparr>dep_id := x\<rparr>) dec_string),
      (''owner'', dec_field dep_owner (\<lambda>x d. d\<lparr>dep_owner := x\<rparr>) dec_string),
      (''denom'', dec_field dep_denom (\<lambda>x d. d\<lparr>dep_denom := x\<rparr>) dec_string),
      (''amount'', dec_field dep_amount (\<lambda>x d. d\<lparr>dep_amount := x\<rparr>) dec_string),
      (''processed'', dec_field dep_processed (\<lambda>x d. d\<lparr>dep_processed := x\<rparr>) dec_bool),
      (''createdHeight'', dec_field dep_created_height (\<lambda>x d. d\<lparr>dep_created_height := x\<rparr>) dec_int),
      (''txHash'', dec_field dep_tx_hash (\<lambda>x d. d\<lparr>dep_tx_hash := x\<rparr>) dec_string)]"

definition zero_withdraw_request :: withdraw_request where
  "zero_withdraw_request = \<lparr>wr_id = [], wr_owner = [], wr_denom = [], wr_amount = [], wr_destination = [],
     wr_nonce = [], wr_signature = []\<rparr>"

definition dec_withdraw_request :: "withdraw_request decoder" where
  "dec_withdraw_request = dec_struct
     [(''withdrawId'', dec_field wr_id (\<lambda>x r. r\<lparr>wr_id := x\<rparr>) dec_string),
      (''owner'', dec_field wr_owner (\<lambda>x r. r\<lparr>wr_owner := x\<rparr>) dec_string),
      (''denom'', dec_field wr_denom (\<lambda>x r. r\<lparr>wr_denom := x\<rparr>) dec_string),
      (''amount'', dec_field wr_amount (\<lambda>x r. r\<lparr>wr_amount := x\<rparr>) dec_string),
      (''destination'', dec_field wr_destination (\<lambda>x r. r\<lparr>wr_destination := x\<rparr>) dec_string),
      (''nonce'', dec_field wr_nonce (\<lambda>x r. r\<lparr>wr_nonce := x\<rparr>) dec_string),
      (''signature'', dec_field wr_signature (\<lambda>x r. r\<lparr>wr_signature := x\<rparr>) dec_string)]"

subsection \<open>The vectors of the happy path and their manifest\<close>

record state_snapshot =
  ss_root :: string
  ss_accounts :: "account list"
  ss_note :: string

definition zero_state_snapshot :: state_snapshot where
  "zero_state_snapshot = \<lparr>ss_root = [], ss_accounts = [], ss_note = []\<rparr>"

definition dec_state_snapshot :: "state_snapshot decoder" where
  "dec_state_snapshot = dec_struct
     [(''root'', dec_field ss_root (\<lambda>x. ss_root_update (\<lambda>_. x)) dec_string),
      (''accounts'', dec_field ss_accounts (\<lambda>x. ss_accounts_update (\<lambda>_. x)) (dec_list zero_account_value dec_account)),
      (''note'', dec_field ss_note (\<lambda>x. ss_note_update (\<lambda>_. x)) dec_string)]"

definition state_snapshot_json :: "state_snapshot \<Rightarrow> json" where
  "state_snapshot_json v = JObj ([(''root'', JStr (ss_root v)), (''accounts'', JArr (map account_json (ss_accounts v)))] @ optional_field ''note'' (ss_note v))"

record nullifier_vector =
  nv_withdraw_id :: string
  nv_owner :: string
  nv_nonce :: string
  nv_user_secret :: string
  nv_domain_tag :: string
  nv_hash_algorithm :: string
  nv_nullifier :: string
  nv_note :: string

definition zero_nullifier_vector :: nullifier_vector where
  "zero_nullifier_vector = \<lparr>nv_withdraw_id = [], nv_owner = [], nv_nonce = [], nv_user_secret = [], nv_domain_tag = [],
     nv_hash_algorithm = [], nv_nullifier = [], nv_note = []\<rparr>"

definition dec_nullifier_vector :: "nullifier_vector decoder" where
  "dec_nullifier_vector = dec_struct
     [(''withdrawId'', dec_field nv_withdraw_id (\<lambda>x. nv_withdraw_id_update (\<lambda>_. x)) dec_string),
      (''owner'', dec_field nv_owner (\<lambda>x. nv_owner_update (\<lambda>_. x)) dec_string),
      (''nonce'', dec_field nv_nonce (\<lambda>x. nv_nonce_update (\<lambda>_. x)) dec_string),
      (''userSecret'', dec_field nv_user_secret (\<lambda>x. nv_user_secret_update (\<lambda>_. x)) dec_string),
      (''domainTag'', dec_field nv_domain_tag (\<lambda>x. nv_domain_tag_update (\<lambda>_. x)) dec_string),
      (''hashAlgorithm'', dec_field nv_hash_algorithm (\<lambda>x. nv_hash_algorithm_update (\<lambda>_. x)) dec_string),
      (''nullifier'', dec_field nv_nullifier (\<lambda>x. nv_nullifier_update (\<lambda>_. x)) dec_string),
      (''note'', dec_field nv_note (\<lambda>x. nv_note_update (\<lambda>_. x)) dec_string)]"

definition nullifier_vector_json :: "nullifier_vector \<Rightarrow> json" where
  "nullifier_vector_json v = JObj ([(''withdrawId'', JStr (nv_withdraw_id v)), (''owner'', JStr (nv_owner v)),
      (''nonce'', JStr (nv_nonce v)), (''userSecret'', JStr (nv_user_secret v)),
      (''domainTag'', JStr (nv_domain_tag v)), (''hashAlgorithm'', JStr (nv_hash_algorithm v)),
      (''nullifier'', JStr (nv_nullifier v))] @ optional_field ''note'' (nv_note v))"

record destination_hash_vector =
  dv_withdraw_id :: string
  dv_destination :: string
  dv_domain_tag :: string
  dv_hash_algorithm :: string
  dv_destination_hash :: string
  dv_note :: string

definition zero_destination_hash_vector :: destination_hash_vector where
  "zero_destination_hash_vector = \<lparr>dv_withdraw_id = [], dv_destination = [], dv_domain_tag = [], dv_hash_algorithm = [],
     dv_destination_hash = [], dv_note = []\<rparr>"

definition dec_destination_hash_vector :: "destination_hash_vector decoder" where
  "dec_destination_hash_vector = dec_struct
     [(''withdrawId'', dec_field dv_withdraw_id (\<lambda>x. dv_withdraw_id_update (\<lambda>_. x)) dec_string),
      (''destination'', dec_field dv_destination (\<lambda>x. dv_destination_update (\<lambda>_. x)) dec_string),
      (''domainTag'', dec_field dv_domain_tag (\<lambda>x. dv_domain_tag_update (\<lambda>_. x)) dec_string),
      (''hashAlgorithm'', dec_field dv_hash_algorithm (\<lambda>x. dv_hash_algorithm_update (\<lambda>_. x)) dec_string),
      (''destinationHash'', dec_field dv_destination_hash (\<lambda>x. dv_destination_hash_update (\<lambda>_. x)) dec_string),
      (''note'', dec_field dv_note (\<lambda>x. dv_note_update (\<lambda>_. x)) dec_string)]"

definition destination_hash_vector_json :: "destination_hash_vector \<Rightarrow> json" where
  "destination_hash_vector_json v = JObj ([(''withdrawId'', JStr (dv_withdraw_id v)), (''destination'', JStr (dv_destination v)),
      (''domainTag'', JStr (dv_domain_tag v)), (''hashAlgorithm'', JStr (dv_hash_algorithm v)),
      (''destinationHash'', JStr (dv_destination_hash v))] @ optional_field ''note'' (dv_note v))"

record batch_commitments_vector =
  cv_batch_id :: string
  cv_commitments :: batch_commitments
  cv_deposits_tag :: string
  cv_withdrawals_tag :: string
  cv_nullifiers_tag :: string
  cv_withdraw_outs_tag :: string
  cv_hash_algorithm :: string
  cv_note :: string

definition zero_batch_commitments_vector :: batch_commitments_vector where
  "zero_batch_commitments_vector = \<lparr>cv_batch_id = [], cv_commitments = zero_batch_commitments, cv_deposits_tag = [],
     cv_withdrawals_tag = [], cv_nullifiers_tag = [], cv_withdraw_outs_tag = [],
     cv_hash_algorithm = [], cv_note = []\<rparr>"

definition dec_batch_commitments_vector :: "batch_commitments_vector decoder" where
  "dec_batch_commitments_vector = dec_struct
     [(''batchId'', dec_field cv_batch_id (\<lambda>x. cv_batch_id_update (\<lambda>_. x)) dec_string),
      (''commitments'', dec_field cv_commitments (\<lambda>x. cv_commitments_update (\<lambda>_. x)) dec_batch_commitments),
      (''depositsDomainTag'', dec_field cv_deposits_tag (\<lambda>x. cv_deposits_tag_update (\<lambda>_. x)) dec_string),
      (''withdrawalsDomainTag'', dec_field cv_withdrawals_tag (\<lambda>x. cv_withdrawals_tag_update (\<lambda>_. x)) dec_string),
      (''nullifiersDomainTag'', dec_field cv_nullifiers_tag (\<lambda>x. cv_nullifiers_tag_update (\<lambda>_. x)) dec_string),
      (''withdrawOutputsDomainTag'', dec_field cv_withdraw_outs_tag (\<lambda>x. cv_withdraw_outs_tag_update (\<lambda>_. x)) dec_string),
      (''hashAlgorithm'', dec_field cv_hash_algorithm (\<lambda>x. cv_hash_algorithm_update (\<lambda>_. x)) dec_string),
      (''note'', dec_field cv_note (\<lambda>x. cv_note_update (\<lambda>_. x)) dec_string)]"

definition batch_commitments_vector_json :: "batch_commitments_vector \<Rightarrow> json" where
  "batch_commitments_vector_json v = JObj ([(''batchId'', JStr (cv_batch_id v)),
      (''commitments'', batch_commitments_json (cv_commitments v)),
      (''depositsDomainTag'', JStr (cv_deposits_tag v)),
      (''withdrawalsDomainTag'', JStr (cv_withdrawals_tag v)),
      (''nullifiersDomainTag'', JStr (cv_nullifiers_tag v)),
      (''withdrawOutputsDomainTag'', JStr (cv_withdraw_outs_tag v)),
      (''hashAlgorithm'', JStr (cv_hash_algorithm v))] @ optional_field ''note'' (cv_note v))"

record public_inputs_vector =
  pv_batch_id :: string
  pv_count :: int
  pv_labels :: "string list"
  pv_public_inputs :: "string list"
  pv_note :: string

definition zero_public_inputs_vector :: public_inputs_vector where
  "zero_public_inputs_vector = \<lparr>pv_batch_id = [], pv_count = 0, pv_labels = [], pv_public_inputs = [], pv_note = []\<rparr>"

definition dec_public_inputs_vector :: "public_inputs_vector decoder" where
  "dec_public_inputs_vector = dec_struct
     [(''batchId'', dec_field pv_batch_id (\<lambda>x. pv_batch_id_update (\<lambda>_. x)) dec_string),
      (''count'', dec_field pv_count (\<lambda>x. pv_count_update (\<lambda>_. x)) dec_int),
      (''labels'', dec_field pv_labels (\<lambda>x. pv_labels_update (\<lambda>_. x)) (dec_list [] dec_string)),
      (''publicInputs'', dec_field pv_public_inputs (\<lambda>x. pv_public_inputs_update (\<lambda>_. x)) (dec_list [] dec_string)),
      (''note'', dec_field pv_note (\<lambda>x. pv_note_update (\<lambda>_. x)) dec_string)]"

definition public_inputs_vector_json :: "public_inputs_vector \<Rightarrow> json" where
  "public_inputs_vector_json v = JObj ([(''batchId'', JStr (pv_batch_id v)), (''count'', JNum (int_to_dec (pv_count v))),
      (''labels'', strings_json (pv_labels v)),
      (''publicInputs'', strings_json (pv_public_inputs v))] @ optional_field ''note'' (pv_note v))"

record manifest_entry =
  me_name :: string
  me_state_task :: string
  me_schema :: string
  me_consumers :: "string list"
  me_sha256 :: string
  me_note :: string

definition zero_manifest_entry :: manifest_entry where
  "zero_manifest_entry = \<lparr>me_name = [], me_state_task = [], me_schema = [], me_consumers = [], me_sha256 = [],
     me_note = []\<rparr>"

definition dec_manifest_entry :: "manifest_entry decoder" where
  "dec_manifest_entry = dec_struct
     [(''name'', dec_field me_name (\<lambda>x. me_name_update (\<lambda>_. x)) dec_string),
      (''stateTask'', dec_field me_state_task (\<lambda>x. me_state_task_update (\<lambda>_. x)) dec_string),
      (''schema'', dec_field me_schema (\<lambda>x. me_schema_update (\<lambda>_. x)) dec_string),
      (''consumers'', dec_field me_consumers (\<lambda>x. me_consumers_update (\<lambda>_. x)) (dec_list [] dec_string)),
      (''sha256'', dec_field me_sha256 (\<lambda>x. me_sha256_update (\<lambda>_. x)) dec_string),
      (''note'', dec_field me_note (\<lambda>x. me_note_update (\<lambda>_. x)) dec_string)]"

definition manifest_entry_json :: "manifest_entry \<Rightarrow> json" where
  "manifest_entry_json v = JObj ([(''name'', JStr (me_name v)), (''stateTask'', JStr (me_state_task v)),
      (''schema'', JStr (me_schema v)), (''consumers'', slice_json JStr (me_consumers v)),
      (''sha256'', JStr (me_sha256 v))] @ optional_field ''note'' (me_note v))"

record manifest_roots =
  mr_root_a :: string
  mr_root_b :: string
  mr_root_c :: string

definition zero_manifest_roots :: manifest_roots where
  "zero_manifest_roots = \<lparr>mr_root_a = [], mr_root_b = [], mr_root_c = []\<rparr>"

definition dec_manifest_roots :: "manifest_roots decoder" where
  "dec_manifest_roots = dec_struct
     [(''rootA'', dec_field mr_root_a (\<lambda>x. mr_root_a_update (\<lambda>_. x)) dec_string),
      (''rootB'', dec_field mr_root_b (\<lambda>x. mr_root_b_update (\<lambda>_. x)) dec_string),
      (''rootC'', dec_field mr_root_c (\<lambda>x. mr_root_c_update (\<lambda>_. x)) dec_string)]"

definition manifest_roots_json :: "manifest_roots \<Rightarrow> json" where
  "manifest_roots_json v = JObj ([(''rootA'', JStr (mr_root_a v)), (''rootB'', JStr (mr_root_b v)),
      (''rootC'', JStr (mr_root_c v))])"

record manifest_alice =
  ma_address :: string
  ma_denom :: string
  ma_deposit_amount :: string
  ma_withdraw_amount :: string
  ma_starting_balance :: string
  ma_final_balance :: string
  ma_module_final :: string

definition zero_manifest_alice :: manifest_alice where
  "zero_manifest_alice = \<lparr>ma_address = [], ma_denom = [], ma_deposit_amount = [], ma_withdraw_amount = [],
     ma_starting_balance = [], ma_final_balance = [], ma_module_final = []\<rparr>"

definition dec_manifest_alice :: "manifest_alice decoder" where
  "dec_manifest_alice = dec_struct
     [(''address'', dec_field ma_address (\<lambda>x. ma_address_update (\<lambda>_. x)) dec_string),
      (''denom'', dec_field ma_denom (\<lambda>x. ma_denom_update (\<lambda>_. x)) dec_string),
      (''depositAmount'', dec_field ma_deposit_amount (\<lambda>x. ma_deposit_amount_update (\<lambda>_. x)) dec_string),
      (''withdrawAmount'', dec_field ma_withdraw_amount (\<lambda>x. ma_withdraw_amount_update (\<lambda>_. x)) dec_string),
      (''startingBalance'', dec_field ma_starting_balance (\<lambda>x. ma_starting_balance_update (\<lambda>_. x)) dec_string),
      (''finalBalance'', dec_field ma_final_balance (\<lambda>x. ma_final_balance_update (\<lambda>_. x)) dec_string),
      (''moduleAccountFinalBalance'', dec_field ma_module_final (\<lambda>x. ma_module_final_update (\<lambda>_. x)) dec_string)]"

definition manifest_alice_json :: "manifest_alice \<Rightarrow> json" where
  "manifest_alice_json v = JObj ([(''address'', JStr (ma_address v)), (''denom'', JStr (ma_denom v)),
      (''depositAmount'', JStr (ma_deposit_amount v)),
      (''withdrawAmount'', JStr (ma_withdraw_amount v)),
      (''startingBalance'', JStr (ma_starting_balance v)),
      (''finalBalance'', JStr (ma_final_balance v)),
      (''moduleAccountFinalBalance'', JStr (ma_module_final v))])"

record manifest_domain_tags =
  mt_nullifier :: string
  mt_withdraw_address :: string
  mt_deposits_root :: string
  mt_withdrawals_root :: string
  mt_nullifiers_root :: string
  mt_withdraw_outputs_root :: string

definition zero_manifest_domain_tags :: manifest_domain_tags where
  "zero_manifest_domain_tags = \<lparr>mt_nullifier = [], mt_withdraw_address = [], mt_deposits_root = [], mt_withdrawals_root = [],
     mt_nullifiers_root = [], mt_withdraw_outputs_root = []\<rparr>"

definition dec_manifest_domain_tags :: "manifest_domain_tags decoder" where
  "dec_manifest_domain_tags = dec_struct
     [(''nullifier'', dec_field mt_nullifier (\<lambda>x. mt_nullifier_update (\<lambda>_. x)) dec_string),
      (''withdrawAddress'', dec_field mt_withdraw_address (\<lambda>x. mt_withdraw_address_update (\<lambda>_. x)) dec_string),
      (''depositsRoot'', dec_field mt_deposits_root (\<lambda>x. mt_deposits_root_update (\<lambda>_. x)) dec_string),
      (''withdrawalsRoot'', dec_field mt_withdrawals_root (\<lambda>x. mt_withdrawals_root_update (\<lambda>_. x)) dec_string),
      (''nullifiersRoot'', dec_field mt_nullifiers_root (\<lambda>x. mt_nullifiers_root_update (\<lambda>_. x)) dec_string),
      (''withdrawOutputsRoot'', dec_field mt_withdraw_outputs_root (\<lambda>x. mt_withdraw_outputs_root_update (\<lambda>_. x)) dec_string)]"

definition manifest_domain_tags_json :: "manifest_domain_tags \<Rightarrow> json" where
  "manifest_domain_tags_json v = JObj ([(''nullifier'', JStr (mt_nullifier v)), (''withdrawAddress'', JStr (mt_withdraw_address v)),
      (''depositsRoot'', JStr (mt_deposits_root v)),
      (''withdrawalsRoot'', JStr (mt_withdrawals_root v)),
      (''nullifiersRoot'', JStr (mt_nullifiers_root v)),
      (''withdrawOutputsRoot'', JStr (mt_withdraw_outputs_root v))])"

record manifest =
  mf_scenario :: string
  mf_description :: string
  mf_vector_version :: string
  mf_hash_algorithm :: string
  mf_generator :: string
  mf_alice :: manifest_alice
  mf_roots :: manifest_roots
  mf_domain_tags :: manifest_domain_tags
  mf_files :: "manifest_entry list"
  mf_note :: string

definition zero_manifest :: manifest where
  "zero_manifest = \<lparr>mf_scenario = [], mf_description = [], mf_vector_version = [], mf_hash_algorithm = [],
     mf_generator = [], mf_alice = zero_manifest_alice, mf_roots = zero_manifest_roots,
     mf_domain_tags = zero_manifest_domain_tags, mf_files = [], mf_note = []\<rparr>"

definition dec_manifest :: "manifest decoder" where
  "dec_manifest = dec_struct
     [(''scenario'', dec_field mf_scenario (\<lambda>x. mf_scenario_update (\<lambda>_. x)) dec_string),
      (''description'', dec_field mf_description (\<lambda>x. mf_description_update (\<lambda>_. x)) dec_string),
      (''vectorVersion'', dec_field mf_vector_version (\<lambda>x. mf_vector_version_update (\<lambda>_. x)) dec_string),
      (''hashAlgorithm'', dec_field mf_hash_algorithm (\<lambda>x. mf_hash_algorithm_update (\<lambda>_. x)) dec_string),
      (''generator'', dec_field mf_generator (\<lambda>x. mf_generator_update (\<lambda>_. x)) dec_string),
      (''alice'', dec_field mf_alice (\<lambda>x. mf_alice_update (\<lambda>_. x)) dec_manifest_alice),
      (''roots'', dec_field mf_roots (\<lambda>x. mf_roots_update (\<lambda>_. x)) dec_manifest_roots),
      (''domainTags'', dec_field mf_domain_tags (\<lambda>x. mf_domain_tags_update (\<lambda>_. x)) dec_manifest_domain_tags),
      (''files'', dec_field mf_files (\<lambda>x. mf_files_update (\<lambda>_. x)) (dec_list zero_manifest_entry dec_manifest_entry)),
      (''note'', dec_field mf_note (\<lambda>x. mf_note_update (\<lambda>_. x)) dec_string)]"

definition manifest_json :: "manifest \<Rightarrow> json" where
  "manifest_json v = JObj ([(''scenario'', JStr (mf_scenario v)), (''description'', JStr (mf_description v)),
      (''vectorVersion'', JStr (mf_vector_version v)),
      (''hashAlgorithm'', JStr (mf_hash_algorithm v)), (''generator'', JStr (mf_generator v)),
      (''alice'', manifest_alice_json (mf_alice v)), (''roots'', manifest_roots_json (mf_roots v)),
      (''domainTags'', manifest_domain_tags_json (mf_domain_tags v)),
      (''files'', slice_json manifest_entry_json (mf_files v))] @ optional_field ''note'' (mf_note v))"

subsection \<open>The failure vectors\<close>

record failure_rejection =
  fr_stage :: string
  fr_sentinel :: string
  fr_message_contains :: string
  fr_note :: string

definition zero_failure_rejection :: failure_rejection where
  "zero_failure_rejection = \<lparr>fr_stage = [], fr_sentinel = [], fr_message_contains = [], fr_note = []\<rparr>"

definition dec_failure_rejection :: "failure_rejection decoder" where
  "dec_failure_rejection = dec_struct
     [(''stage'', dec_field fr_stage (\<lambda>x. fr_stage_update (\<lambda>_. x)) dec_string),
      (''sentinel'', dec_field fr_sentinel (\<lambda>x. fr_sentinel_update (\<lambda>_. x)) dec_string),
      (''messageContains'', dec_field fr_message_contains (\<lambda>x. fr_message_contains_update (\<lambda>_. x)) dec_string),
      (''note'', dec_field fr_note (\<lambda>x. fr_note_update (\<lambda>_. x)) dec_string)]"

definition failure_rejection_json :: "failure_rejection \<Rightarrow> json" where
  "failure_rejection_json v = JObj ([(''stage'', JStr (fr_stage v)), (''sentinel'', JStr (fr_sentinel v)),
      (''messageContains'', JStr (fr_message_contains v))] @ optional_field ''note'' (fr_note v))"

record failure_meta =
  fm_case :: string
  fm_title :: string
  fm_description :: string
  fm_violated_invariant :: string
  fm_happy_path_reference :: string
  fm_mutation :: string
  fm_rejection :: failure_rejection
  fm_consumers :: "string list"

definition zero_failure_meta :: failure_meta where
  "zero_failure_meta = \<lparr>fm_case = [], fm_title = [], fm_description = [], fm_violated_invariant = [],
     fm_happy_path_reference = [], fm_mutation = [], fm_rejection = zero_failure_rejection,
     fm_consumers = []\<rparr>"

definition failure_meta_fields :: "(string \<times> failure_meta decoder) list" where
  "failure_meta_fields =
     [(''case'', dec_field fm_case (\<lambda>x. fm_case_update (\<lambda>_. x)) dec_string),
      (''title'', dec_field fm_title (\<lambda>x. fm_title_update (\<lambda>_. x)) dec_string),
      (''description'', dec_field fm_description (\<lambda>x. fm_description_update (\<lambda>_. x)) dec_string),
      (''violatedInvariant'', dec_field fm_violated_invariant (\<lambda>x. fm_violated_invariant_update (\<lambda>_. x)) dec_string),
      (''happyPathReference'', dec_field fm_happy_path_reference (\<lambda>x. fm_happy_path_reference_update (\<lambda>_. x)) dec_string),
      (''mutation'', dec_field fm_mutation (\<lambda>x. fm_mutation_update (\<lambda>_. x)) dec_string),
      (''rejection'', dec_field fm_rejection (\<lambda>x. fm_rejection_update (\<lambda>_. x)) dec_failure_rejection),
      (''consumers'', dec_field fm_consumers (\<lambda>x. fm_consumers_update (\<lambda>_. x)) (dec_list [] dec_string))]"

definition failure_meta_members :: "failure_meta \<Rightarrow> (string \<times> json) list" where
  "failure_meta_members v =
     [(''case'', JStr (fm_case v)), (''title'', JStr (fm_title v)),
      (''description'', JStr (fm_description v)),
      (''violatedInvariant'', JStr (fm_violated_invariant v)),
      (''happyPathReference'', JStr (fm_happy_path_reference v)),
      (''mutation'', JStr (fm_mutation v)),
      (''rejection'', failure_rejection_json (fm_rejection v)),
      (''consumers'', strings_json (fm_consumers v))]"

text \<open>The fields of an embedded struct stand among those of the outer one.\<close>

definition embedded_meta :: "('v \<Rightarrow> failure_meta) \<Rightarrow> (failure_meta \<Rightarrow> 'v \<Rightarrow> 'v) \<Rightarrow> (string \<times> 'v decoder) list" where
  "embedded_meta get put = map (\<lambda>(k, f). (k, dec_field get put f)) failure_meta_fields"

record withdraw_intent_vector =
  iv_owner :: string
  iv_denom :: string
  iv_amount :: string
  iv_destination :: string

definition zero_withdraw_intent_vector :: withdraw_intent_vector where
  "zero_withdraw_intent_vector = \<lparr>iv_owner = [], iv_denom = [], iv_amount = [], iv_destination = []\<rparr>"

definition dec_withdraw_intent_vector :: "withdraw_intent_vector decoder" where
  "dec_withdraw_intent_vector = dec_struct
     [(''owner'', dec_field iv_owner (\<lambda>x. iv_owner_update (\<lambda>_. x)) dec_string),
      (''denom'', dec_field iv_denom (\<lambda>x. iv_denom_update (\<lambda>_. x)) dec_string),
      (''amount'', dec_field iv_amount (\<lambda>x. iv_amount_update (\<lambda>_. x)) dec_string),
      (''destination'', dec_field iv_destination (\<lambda>x. iv_destination_update (\<lambda>_. x)) dec_string)]"

definition withdraw_intent_vector_json :: "withdraw_intent_vector \<Rightarrow> json" where
  "withdraw_intent_vector_json v = JObj ([(''owner'', JStr (iv_owner v)), (''denom'', JStr (iv_denom v)),
      (''amount'', JStr (iv_amount v)), (''destination'', JStr (iv_destination v))])"

record over_withdraw_vector =
  ov_meta :: failure_meta
  ov_account_snapshot :: account
  ov_intent :: withdraw_intent_vector

definition zero_over_withdraw_vector :: over_withdraw_vector where
  "zero_over_withdraw_vector = \<lparr>ov_meta = zero_failure_meta, ov_account_snapshot = zero_account_value,
     ov_intent = zero_withdraw_intent_vector\<rparr>"

definition dec_over_withdraw_vector :: "over_withdraw_vector decoder" where
  "dec_over_withdraw_vector = dec_struct
     (embedded_meta ov_meta (\<lambda>x. ov_meta_update (\<lambda>_. x)) @
     [(''accountSnapshot'', dec_field ov_account_snapshot (\<lambda>x. ov_account_snapshot_update (\<lambda>_. x)) dec_account),
      (''intent'', dec_field ov_intent (\<lambda>x. ov_intent_update (\<lambda>_. x)) dec_withdraw_intent_vector)])"

definition over_withdraw_vector_json :: "over_withdraw_vector \<Rightarrow> json" where
  "over_withdraw_vector_json v = JObj (failure_meta_members (ov_meta v) @
     [(''accountSnapshot'', account_json (ov_account_snapshot v)),
      (''intent'', withdraw_intent_vector_json (ov_intent v))])"

record wrong_root_vector =
  wv_meta :: failure_meta
  wv_correct_old_root :: string
  wv_tampered :: settlement_update
  wv_commitments :: batch_commitments
  wv_public_inputs :: "string list"

definition zero_wrong_root_vector :: wrong_root_vector where
  "zero_wrong_root_vector = \<lparr>wv_meta = zero_failure_meta, wv_correct_old_root = [], wv_tampered = zero_settlement_update,
     wv_commitments = zero_batch_commitments, wv_public_inputs = []\<rparr>"

definition dec_wrong_root_vector :: "wrong_root_vector decoder" where
  "dec_wrong_root_vector = dec_struct
     (embedded_meta wv_meta (\<lambda>x. wv_meta_update (\<lambda>_. x)) @
     [(''correctOldStateRoot'', dec_field wv_correct_old_root (\<lambda>x. wv_correct_old_root_update (\<lambda>_. x)) dec_string),
      (''tamperedSettlement'', dec_field wv_tampered (\<lambda>x. wv_tampered_update (\<lambda>_. x)) dec_settlement_update),
      (''batchCommitments'', dec_field wv_commitments (\<lambda>x. wv_commitments_update (\<lambda>_. x)) dec_batch_commitments),
      (''publicInputs'', dec_field wv_public_inputs (\<lambda>x. wv_public_inputs_update (\<lambda>_. x)) (dec_list [] dec_string))])"

definition wrong_root_vector_json :: "wrong_root_vector \<Rightarrow> json" where
  "wrong_root_vector_json v = JObj (failure_meta_members (wv_meta v) @
     [(''correctOldStateRoot'', JStr (wv_correct_old_root v)),
      (''tamperedSettlement'', settlement_update_json (wv_tampered v)),
      (''batchCommitments'', batch_commitments_json (wv_commitments v)),
      (''publicInputs'', strings_json (wv_public_inputs v))])"

record duplicate_nullifier_vector =
  nn_meta :: failure_meta
  nn_nullifier :: string
  nn_update :: settlement_update
  nn_commitments :: batch_commitments
  nn_public_inputs :: "string list"

definition zero_duplicate_nullifier_vector :: duplicate_nullifier_vector where
  "zero_duplicate_nullifier_vector = \<lparr>nn_meta = zero_failure_meta, nn_nullifier = [], nn_update = zero_settlement_update,
     nn_commitments = zero_batch_commitments, nn_public_inputs = []\<rparr>"

definition dec_duplicate_nullifier_vector :: "duplicate_nullifier_vector decoder" where
  "dec_duplicate_nullifier_vector = dec_struct
     (embedded_meta nn_meta (\<lambda>x. nn_meta_update (\<lambda>_. x)) @
     [(''nullifier'', dec_field nn_nullifier (\<lambda>x. nn_nullifier_update (\<lambda>_. x)) dec_string),
      (''settlementUpdate'', dec_field nn_update (\<lambda>x. nn_update_update (\<lambda>_. x)) dec_settlement_update),
      (''batchCommitments'', dec_field nn_commitments (\<lambda>x. nn_commitments_update (\<lambda>_. x)) dec_batch_commitments),
      (''publicInputs'', dec_field nn_public_inputs (\<lambda>x. nn_public_inputs_update (\<lambda>_. x)) (dec_list [] dec_string))])"

definition duplicate_nullifier_vector_json :: "duplicate_nullifier_vector \<Rightarrow> json" where
  "duplicate_nullifier_vector_json v = JObj (failure_meta_members (nn_meta v) @
     [(''nullifier'', JStr (nn_nullifier v)),
      (''settlementUpdate'', settlement_update_json (nn_update v)),
      (''batchCommitments'', batch_commitments_json (nn_commitments v)),
      (''publicInputs'', strings_json (nn_public_inputs v))])"

record tampered_destination_vector =
  tv_meta :: failure_meta
  tv_original :: string
  tv_tampered :: string
  tv_original_hash :: string
  tv_settlement :: settlement_update
  tv_commitments :: batch_commitments
  tv_public_inputs :: "string list"

definition zero_tampered_destination_vector :: tampered_destination_vector where
  "zero_tampered_destination_vector = \<lparr>tv_meta = zero_failure_meta, tv_original = [], tv_tampered = [], tv_original_hash = [],
     tv_settlement = zero_settlement_update, tv_commitments = zero_batch_commitments,
     tv_public_inputs = []\<rparr>"

definition dec_tampered_destination_vector :: "tampered_destination_vector decoder" where
  "dec_tampered_destination_vector = dec_struct
     (embedded_meta tv_meta (\<lambda>x. tv_meta_update (\<lambda>_. x)) @
     [(''originalDestination'', dec_field tv_original (\<lambda>x. tv_original_update (\<lambda>_. x)) dec_string),
      (''tamperedDestination'', dec_field tv_tampered (\<lambda>x. tv_tampered_update (\<lambda>_. x)) dec_string),
      (''originalDestinationHash'', dec_field tv_original_hash (\<lambda>x. tv_original_hash_update (\<lambda>_. x)) dec_string),
      (''tamperedSettlement'', dec_field tv_settlement (\<lambda>x. tv_settlement_update (\<lambda>_. x)) dec_settlement_update),
      (''batchCommitments'', dec_field tv_commitments (\<lambda>x. tv_commitments_update (\<lambda>_. x)) dec_batch_commitments),
      (''publicInputs'', dec_field tv_public_inputs (\<lambda>x. tv_public_inputs_update (\<lambda>_. x)) (dec_list [] dec_string))])"

definition tampered_destination_vector_json :: "tampered_destination_vector \<Rightarrow> json" where
  "tampered_destination_vector_json v = JObj (failure_meta_members (tv_meta v) @
     [(''originalDestination'', JStr (tv_original v)),
      (''tamperedDestination'', JStr (tv_tampered v)),
      (''originalDestinationHash'', JStr (tv_original_hash v)),
      (''tamperedSettlement'', settlement_update_json (tv_settlement v)),
      (''batchCommitments'', batch_commitments_json (tv_commitments v)),
      (''publicInputs'', strings_json (tv_public_inputs v))])"

record failure_manifest_entry =
  fe_name :: string
  fe_case :: string
  fe_schema :: string
  fe_consumers :: "string list"
  fe_sha256 :: string
  fe_note :: string

definition zero_failure_manifest_entry :: failure_manifest_entry where
  "zero_failure_manifest_entry = \<lparr>fe_name = [], fe_case = [], fe_schema = [], fe_consumers = [], fe_sha256 = [], fe_note = []\<rparr>"

definition dec_failure_manifest_entry :: "failure_manifest_entry decoder" where
  "dec_failure_manifest_entry = dec_struct
     [(''name'', dec_field fe_name (\<lambda>x. fe_name_update (\<lambda>_. x)) dec_string),
      (''case'', dec_field fe_case (\<lambda>x. fe_case_update (\<lambda>_. x)) dec_string),
      (''schema'', dec_field fe_schema (\<lambda>x. fe_schema_update (\<lambda>_. x)) dec_string),
      (''consumers'', dec_field fe_consumers (\<lambda>x. fe_consumers_update (\<lambda>_. x)) (dec_list [] dec_string)),
      (''sha256'', dec_field fe_sha256 (\<lambda>x. fe_sha256_update (\<lambda>_. x)) dec_string),
      (''note'', dec_field fe_note (\<lambda>x. fe_note_update (\<lambda>_. x)) dec_string)]"

definition failure_manifest_entry_json :: "failure_manifest_entry \<Rightarrow> json" where
  "failure_manifest_entry_json v = JObj ([(''name'', JStr (fe_name v)), (''case'', JStr (fe_case v)), (''schema'', JStr (fe_schema v)),
      (''consumers'', slice_json JStr (fe_consumers v)), (''sha256'', JStr (fe_sha256 v))] @ optional_field ''note'' (fe_note v))"

record failure_manifest =
  ff_scenario :: string
  ff_subfolder :: string
  ff_description :: string
  ff_vector_version :: string
  ff_hash_algorithm :: string
  ff_generator :: string
  ff_happy_roots :: manifest_roots
  ff_files :: "failure_manifest_entry list"
  ff_note :: string

definition zero_failure_manifest :: failure_manifest where
  "zero_failure_manifest = \<lparr>ff_scenario = [], ff_subfolder = [], ff_description = [], ff_vector_version = [],
     ff_hash_algorithm = [], ff_generator = [], ff_happy_roots = zero_manifest_roots,
     ff_files = [], ff_note = []\<rparr>"

definition dec_failure_manifest :: "failure_manifest decoder" where
  "dec_failure_manifest = dec_struct
     [(''scenario'', dec_field ff_scenario (\<lambda>x. ff_scenario_update (\<lambda>_. x)) dec_string),
      (''subfolder'', dec_field ff_subfolder (\<lambda>x. ff_subfolder_update (\<lambda>_. x)) dec_string),
      (''description'', dec_field ff_description (\<lambda>x. ff_description_update (\<lambda>_. x)) dec_string),
      (''vectorVersion'', dec_field ff_vector_version (\<lambda>x. ff_vector_version_update (\<lambda>_. x)) dec_string),
      (''hashAlgorithm'', dec_field ff_hash_algorithm (\<lambda>x. ff_hash_algorithm_update (\<lambda>_. x)) dec_string),
      (''generator'', dec_field ff_generator (\<lambda>x. ff_generator_update (\<lambda>_. x)) dec_string),
      (''happyPathRoots'', dec_field ff_happy_roots (\<lambda>x. ff_happy_roots_update (\<lambda>_. x)) dec_manifest_roots),
      (''files'', dec_field ff_files (\<lambda>x. ff_files_update (\<lambda>_. x)) (dec_list zero_failure_manifest_entry dec_failure_manifest_entry)),
      (''note'', dec_field ff_note (\<lambda>x. ff_note_update (\<lambda>_. x)) dec_string)]"

definition failure_manifest_json :: "failure_manifest \<Rightarrow> json" where
  "failure_manifest_json v = JObj ([(''scenario'', JStr (ff_scenario v)), (''subfolder'', JStr (ff_subfolder v)),
      (''description'', JStr (ff_description v)), (''vectorVersion'', JStr (ff_vector_version v)),
      (''hashAlgorithm'', JStr (ff_hash_algorithm v)), (''generator'', JStr (ff_generator v)),
      (''happyPathRoots'', manifest_roots_json (ff_happy_roots v)),
      (''files'', slice_json failure_manifest_entry_json (ff_files v))] @ optional_field ''note'' (ff_note v))"

subsection \<open>Decoding a value gives the datum\<close>

lemma dec_scalar_simps [simp]:
  "dec_bool cur (JBool x) = Some x" "dec_int 0 (JNum n) = parse_int64 n"
  by (simp_all add: dec_bool_def dec_int_def)

lemma dec_slice_map: "(\<And>x. f zero (g x) = Some x) \<Longrightarrow> dec_list zero f [] (slice_json g xs) = Some xs"
  by (simp add: slice_json_def dec_list_map) (simp add: dec_list_def)

lemma dec_members_append:
  "dec_members flds cur (kvs @ rest) =
     (case dec_members flds cur kvs of None \<Rightarrow> None | Some c \<Rightarrow> dec_members flds c rest)"
  by (induction flds cur kvs rule: dec_members.induct) (auto split: option.splits)

lemma optional_field_cases:
  "dec_members flds cur (optional_field k x) = (if x = [] then Some cur else dec_members flds cur [(k, JStr x)])"
  by (simp add: optional_field_def)

lemmas vector_eval = dec_members_append optional_field_cases find_field_def dec_field_def dec_list_map dec_strings
  dec_slice_map

lemmas embedded_eval = embedded_meta_def failure_meta_fields_def failure_meta_members_def zero_failure_meta_def

lemma parse_int64_print: "- (2 ^ 63) \<le> v \<Longrightarrow> v < 2 ^ 63 \<Longrightarrow> parse_int64 (int_to_dec v) = Some v"
  by (simp add: parse_int64_def set_string10_int_to_dec)

lemma dec_account_json: "dec_account zero_account_value (account_json v) = Some v"
  by (cases v) (simp add: dec_account_def zero_account_value_def account_json_def vector_eval)

lemma dec_deposit_record_json:
  "- (2 ^ 63) \<le> dep_created_height v \<Longrightarrow> dep_created_height v < 2 ^ 63
     \<Longrightarrow> dec_deposit_record zero_deposit_record (deposit_record_json v) = Some v"
  by (cases v) (simp add: parse_int64_print dec_deposit_record_def zero_deposit_record_def deposit_record_json_def vector_eval)

lemma dec_withdraw_request_json: "dec_withdraw_request zero_withdraw_request (withdraw_request_json v) = Some v"
  by (cases v) (simp add: dec_withdraw_request_def zero_withdraw_request_def withdraw_request_json_def vector_eval)

lemma dec_state_snapshot_json: "dec_state_snapshot zero_state_snapshot (state_snapshot_json v) = Some v"
  by (cases v) (simp add: dec_state_snapshot_def zero_state_snapshot_def state_snapshot_json_def vector_eval dec_account_json)

lemma dec_nullifier_vector_json: "dec_nullifier_vector zero_nullifier_vector (nullifier_vector_json v) = Some v"
  by (cases v) (simp add: dec_nullifier_vector_def zero_nullifier_vector_def nullifier_vector_json_def vector_eval)

lemma dec_destination_hash_vector_json: "dec_destination_hash_vector zero_destination_hash_vector (destination_hash_vector_json v) = Some v"
  by (cases v) (simp add: dec_destination_hash_vector_def zero_destination_hash_vector_def destination_hash_vector_json_def vector_eval)

lemma dec_batch_commitments_vector_json: "dec_batch_commitments_vector zero_batch_commitments_vector (batch_commitments_vector_json v) = Some v"
  by (cases v) (simp add: dec_batch_commitments_vector_def zero_batch_commitments_vector_def batch_commitments_vector_json_def vector_eval dec_batch_commitments_json)

lemma dec_public_inputs_vector_json:
  "- (2 ^ 63) \<le> pv_count v \<Longrightarrow> pv_count v < 2 ^ 63
     \<Longrightarrow> dec_public_inputs_vector zero_public_inputs_vector (public_inputs_vector_json v) = Some v"
  by (cases v) (simp add: parse_int64_print dec_public_inputs_vector_def zero_public_inputs_vector_def public_inputs_vector_json_def vector_eval)

lemma dec_manifest_entry_json: "dec_manifest_entry zero_manifest_entry (manifest_entry_json v) = Some v"
  by (cases v) (simp add: dec_manifest_entry_def zero_manifest_entry_def manifest_entry_json_def vector_eval)

lemma dec_manifest_roots_json: "dec_manifest_roots zero_manifest_roots (manifest_roots_json v) = Some v"
  by (cases v) (simp add: dec_manifest_roots_def zero_manifest_roots_def manifest_roots_json_def vector_eval)

lemma dec_manifest_alice_json: "dec_manifest_alice zero_manifest_alice (manifest_alice_json v) = Some v"
  by (cases v) (simp add: dec_manifest_alice_def zero_manifest_alice_def manifest_alice_json_def vector_eval)

lemma dec_manifest_domain_tags_json: "dec_manifest_domain_tags zero_manifest_domain_tags (manifest_domain_tags_json v) = Some v"
  by (cases v) (simp add: dec_manifest_domain_tags_def zero_manifest_domain_tags_def manifest_domain_tags_json_def vector_eval)

lemma dec_manifest_json: "dec_manifest zero_manifest (manifest_json v) = Some v"
  by (cases v) (simp add: dec_manifest_def zero_manifest_def manifest_json_def vector_eval dec_manifest_alice_json dec_manifest_domain_tags_json dec_manifest_entry_json dec_manifest_roots_json)

lemma dec_failure_rejection_json: "dec_failure_rejection zero_failure_rejection (failure_rejection_json v) = Some v"
  by (cases v) (simp add: dec_failure_rejection_def zero_failure_rejection_def failure_rejection_json_def vector_eval)

lemma dec_withdraw_intent_vector_json: "dec_withdraw_intent_vector zero_withdraw_intent_vector (withdraw_intent_vector_json v) = Some v"
  by (cases v) (simp add: dec_withdraw_intent_vector_def zero_withdraw_intent_vector_def withdraw_intent_vector_json_def vector_eval)

lemma dec_over_withdraw_vector_json: "dec_over_withdraw_vector zero_over_withdraw_vector (over_withdraw_vector_json v) = Some v"
  by (cases v) (simp add: dec_over_withdraw_vector_def zero_over_withdraw_vector_def over_withdraw_vector_json_def vector_eval dec_account_json dec_withdraw_intent_vector_json embedded_eval dec_failure_rejection_json)

lemma dec_wrong_root_vector_json: "dec_wrong_root_vector zero_wrong_root_vector (wrong_root_vector_json v) = Some v"
  by (cases v) (simp add: dec_wrong_root_vector_def zero_wrong_root_vector_def wrong_root_vector_json_def vector_eval dec_batch_commitments_json dec_settlement_update_json embedded_eval dec_failure_rejection_json)

lemma dec_duplicate_nullifier_vector_json: "dec_duplicate_nullifier_vector zero_duplicate_nullifier_vector (duplicate_nullifier_vector_json v) = Some v"
  by (cases v) (simp add: dec_duplicate_nullifier_vector_def zero_duplicate_nullifier_vector_def duplicate_nullifier_vector_json_def vector_eval dec_batch_commitments_json dec_settlement_update_json embedded_eval dec_failure_rejection_json)

lemma dec_tampered_destination_vector_json: "dec_tampered_destination_vector zero_tampered_destination_vector (tampered_destination_vector_json v) = Some v"
  by (cases v) (simp add: dec_tampered_destination_vector_def zero_tampered_destination_vector_def tampered_destination_vector_json_def vector_eval dec_batch_commitments_json dec_settlement_update_json embedded_eval dec_failure_rejection_json)

lemma dec_failure_manifest_entry_json: "dec_failure_manifest_entry zero_failure_manifest_entry (failure_manifest_entry_json v) = Some v"
  by (cases v) (simp add: dec_failure_manifest_entry_def zero_failure_manifest_entry_def failure_manifest_entry_json_def vector_eval)

lemma dec_failure_manifest_json: "dec_failure_manifest zero_failure_manifest (failure_manifest_json v) = Some v"
  by (cases v) (simp add: dec_failure_manifest_def zero_failure_manifest_def failure_manifest_json_def vector_eval dec_failure_manifest_entry_json dec_manifest_roots_json)

end
