(* ===== verification/Vector_Files.thy ===== *)
theory Vector_Files
  imports Prelude "HOL-Library.Sublist"
begin

text \<open>
  The files the test vectors live in, and the calls of \<^verbatim>\<open>os\<close> and
  \<^verbatim>\<open>path/filepath\<close> that \<^verbatim>\<open>pkg/testvectors\<close> and the generator make of them. A path
  is the list of the components of a clean absolute path; the file system maps paths to nodes. A
  \<open>Locked\<close> node is a file that can be seen but neither read, written nor removed. Links, and
  failures of the disk itself, are left out. An operation that fails returns \<open>None\<close>: the callers
  only print the cause.
\<close>

type_synonym file_path = "string list"

datatype node = Folder | Plain string | Locked

type_synonym files = "(file_path \<times> node) list"

text \<open>The root always exists.\<close>

definition node_at :: "files \<Rightarrow> file_path \<Rightarrow> node option" where
  "node_at fs p = (if p = [] then Some Folder else map_of fs p)"

subsection \<open>Paths\<close>

fun split_slash :: "string \<Rightarrow> string list" where
  "split_slash [] = [[]]"
| "split_slash (c # cs) = (if c = CHR ''/'' then [] # split_slash cs
     else (c # hd (split_slash cs)) # tl (split_slash cs))"

text \<open>\<^verbatim>\<open>filepath.Join(dir, name)\<close> cleans the joined path: blank and dot components vanish, a double dot takes one away.\<close>

definition clean_component :: "file_path \<Rightarrow> string \<Rightarrow> file_path" where
  "clean_component p c = (if c = [] \<or> c = ''.'' then p else if c = ''..'' then butlast p else p @ [c])"

definition join_path :: "file_path \<Rightarrow> string \<Rightarrow> file_path" where
  "join_path dir name = foldl clean_component dir (split_slash name)"

text \<open>A name that is one component.\<close>

definition simple_name :: "string \<Rightarrow> bool" where
  "simple_name n \<longleftrightarrow> n \<noteq> [] \<and> n \<noteq> ''.'' \<and> n \<noteq> ''..'' \<and> CHR ''/'' \<notin> set n"

lemma split_slash_simple: "CHR ''/'' \<notin> set n \<Longrightarrow> split_slash n = [n]"
  by (induction n) auto

lemma join_simple [simp]: "simple_name n \<Longrightarrow> join_path p n = p @ [n]"
  by (simp add: join_path_def simple_name_def split_slash_simple clean_component_def)

subsection \<open>Reading\<close>

definition os_stat :: "files \<Rightarrow> file_path \<Rightarrow> bool" where
  "os_stat fs p \<longleftrightarrow> node_at fs p \<noteq> None"

definition os_read_file :: "files \<Rightarrow> file_path \<Rightarrow> string option" where
  "os_read_file fs p = (case node_at fs p of Some (Plain s) \<Rightarrow> Some s | _ \<Rightarrow> None)"

text \<open>\<^verbatim>\<open>os.ReadDir\<close>: the names in a folder in their order, each with whether it is a folder itself.\<close>

definition names_in :: "files \<Rightarrow> file_path \<Rightarrow> string list" where
  "names_in fs dir = sort (remdups (map last (filter (\<lambda>p. p \<noteq> [] \<and> butlast p = dir) (map fst fs))))"

definition os_read_dir :: "files \<Rightarrow> file_path \<Rightarrow> (string \<times> bool) list option" where
  "os_read_dir fs dir = (if node_at fs dir = Some Folder
     then Some (map (\<lambda>n. (n, node_at fs (dir @ [n]) = Some Folder)) (names_in fs dir)) else None)"

lemma set_names_in: "n \<in> set (names_in fs dir) \<longleftrightarrow> node_at fs (dir @ [n]) \<noteq> None"
proof -
  have "n \<in> set (names_in fs dir) \<longleftrightarrow> (\<exists>p \<in> set (map fst fs). p \<noteq> [] \<and> butlast p = dir \<and> last p = n)"
    by (auto simp: names_in_def)
  also have "\<dots> \<longleftrightarrow> dir @ [n] \<in> set (map fst fs)"
    by (metis append_butlast_last_id append_is_Nil_conv butlast_snoc last_snoc not_Cons_self2)
  also have "\<dots> \<longleftrightarrow> node_at fs (dir @ [n]) \<noteq> None"
    by (simp add: node_at_def map_of_eq_None_iff)
  finally show ?thesis .
qed

subsection \<open>Writing\<close>

definition put_node :: "files \<Rightarrow> file_path \<Rightarrow> node \<Rightarrow> files" where
  "put_node fs p x = AList.update p x fs"

lemma node_at_put [simp]: "p \<noteq> [] \<Longrightarrow> node_at (put_node fs p x) q = (if q = p then Some x else node_at fs q)"
  by (simp add: node_at_def put_node_def)

definition os_write_file :: "files \<Rightarrow> file_path \<Rightarrow> string \<Rightarrow> files option" where
  "os_write_file fs p s =
     (if p = [] \<or> node_at fs (butlast p) \<noteq> Some Folder then None
      else case node_at fs p of Some Folder \<Rightarrow> None | Some Locked \<Rightarrow> None
        | _ \<Rightarrow> Some (put_node fs p (Plain s)))"

text \<open>\<^verbatim>\<open>os.MkdirAll\<close> makes the missing folders from the top down.\<close>

definition make_folder :: "files \<Rightarrow> file_path \<Rightarrow> files option" where
  "make_folder fs p = (case node_at fs p of None \<Rightarrow> Some (put_node fs p Folder)
     | Some Folder \<Rightarrow> Some fs | Some _ \<Rightarrow> None)"

fun mkdir_from :: "files \<Rightarrow> file_path \<Rightarrow> string list \<Rightarrow> files option" where
  "mkdir_from fs p [] = Some fs"
| "mkdir_from fs p (c # cs) = (case make_folder fs (p @ [c]) of None \<Rightarrow> None
     | Some fs' \<Rightarrow> mkdir_from fs' (p @ [c]) cs)"

definition os_mkdir_all :: "files \<Rightarrow> file_path \<Rightarrow> files option" where
  "os_mkdir_all fs p = mkdir_from fs [] p"

text \<open>
  \<^verbatim>\<open>os.Remove\<close>, with what its caller accepts: \<^verbatim>\<open>os.IsNotExist\<close> counts as success. An
  empty folder is removed like a file.
\<close>

definition os_remove_if_exists :: "files \<Rightarrow> file_path \<Rightarrow> files option" where
  "os_remove_if_exists fs p = (case node_at fs p of
       None \<Rightarrow> Some fs
     | Some Locked \<Rightarrow> None
     | Some Folder \<Rightarrow> if p \<noteq> [] \<and> names_in fs p = [] then Some (AList.delete p fs) else None
     | Some (Plain _) \<Rightarrow> Some (AList.delete p fs))"

lemma node_at_delete: "p \<noteq> [] \<Longrightarrow> node_at (AList.delete p fs) q = (if q = p then None else node_at fs q)"
  by (simp add: node_at_def delete_conv')

lemma os_write_file_ok:
  "p \<noteq> [] \<Longrightarrow> node_at fs (butlast p) = Some Folder \<Longrightarrow> node_at fs p \<notin> {Some Folder, Some Locked}
     \<Longrightarrow> os_write_file fs p s = Some (put_node fs p (Plain s))"
  by (auto simp: os_write_file_def split: option.split node.split)

lemma mkdir_from_ok:
  "(\<And>q. q \<noteq> [] \<Longrightarrow> prefix q cs \<Longrightarrow> node_at fs (p @ q) \<in> {None, Some Folder})
     \<Longrightarrow> \<exists>fs'. mkdir_from fs p cs = Some fs'
        \<and> (\<forall>q. node_at fs' q = (if \<exists>r. r \<noteq> [] \<and> prefix r cs \<and> q = p @ r then Some Folder else node_at fs q))"
proof (induction cs arbitrary: fs p)
  case (Cons c cs)
  have "node_at fs (p @ [c]) \<in> {None, Some Folder}" using Cons.prems [of "[c]"] by simp
  then obtain fs1 where fs1: "make_folder fs (p @ [c]) = Some fs1"
    "\<And>q. node_at fs1 q = (if q = p @ [c] then Some Folder else node_at fs q)"
    by (auto simp: make_folder_def)
  have "node_at fs1 ((p @ [c]) @ q) \<in> {None, Some Folder}" if "q \<noteq> []" "prefix q cs" for q
    using Cons.prems [of "c # q"] that fs1(2) by simp
  from Cons.IH [OF this] obtain fs2 where fs2: "mkdir_from fs1 (p @ [c]) cs = Some fs2"
    "\<And>q. node_at fs2 q = (if \<exists>r. r \<noteq> [] \<and> prefix r cs \<and> q = (p @ [c]) @ r then Some Folder else node_at fs1 q)" by blast
  have "(\<exists>r. r \<noteq> [] \<and> prefix r (c # cs) \<and> q = p @ r) \<longleftrightarrow> (\<exists>r. r \<noteq> [] \<and> prefix r cs \<and> q = (p @ [c]) @ r) \<or> q = p @ [c]" for q
    by (auto simp: prefix_Cons)
  with fs1 fs2 show ?case by auto
qed simp

end
