(* ===== verification/Vector_Manifest.thy ===== *)
theory Vector_Manifest
  imports Vector_Types Vector_Files
begin

text \<open>
  \<^verbatim>\<open>pkg/testvectors/manifest.go\<close>: where the vectors live, loading the manifest, and checking
  the files on disk against it. The path of the package's own source file, which
  \<^verbatim>\<open>runtime.Caller\<close> reports, is an argument (\<open>None\<close> where it reports nothing); it is
  absolute, as it is unless the binary was built with trimmed paths. An error is what
  \<^verbatim>\<open>errors.Is\<close> sees of it. \<open>verify_folder_None\<close> says exactly when a manifest is accepted.
\<close>

datatype vector_error = ErrManifestMismatch | ErrFailureManifestMismatch
  | ErrFile string | ErrParse string | ErrVector string

type_synonym 'a vres = "vector_error + 'a"

subsection \<open>Names\<close>

definition scenario_name :: string where
  "scenario_name = ''alice_100_40''"

definition manifest_file :: string where
  "manifest_file = ''MANIFEST.json''"

definition expected_vector_version :: string where
  "expected_vector_version = ''v0''"

definition expected_hash_algorithm :: string where
  "expected_hash_algorithm = ''sha256''"

definition repo_root_marker :: string where
  "repo_root_marker = ''go.mod''"

definition file_initial_state :: string where "file_initial_state = ''initial_state.json''"
definition file_deposit :: string where "file_deposit = ''deposit_dep_1.json''"
definition file_after_deposit :: string where "file_after_deposit = ''state_after_deposit.json''"
definition file_withdraw_request :: string where "file_withdraw_request = ''withdraw_request_wd_1.json''"
definition file_nullifier :: string where "file_nullifier = ''nullifier_wd_1.json''"
definition file_destination_hash :: string where "file_destination_hash = ''destination_hash_wd_1.json''"
definition file_after_withdrawal :: string where "file_after_withdrawal = ''state_after_withdrawal.json''"
definition file_settlement :: string where "file_settlement = ''settlement_update_batch_1.json''"
definition file_commitments :: string where "file_commitments = ''batch_commitments_batch_1.json''"
definition file_witness :: string where "file_witness = ''witness_batch_1.json''"
definition file_public_inputs :: string where "file_public_inputs = ''public_inputs_batch_1.json''"

definition find_by_name :: "manifest \<Rightarrow> string \<Rightarrow> manifest_entry option" where
  "find_by_name m name = find (\<lambda>e. me_name e = name) (mf_files m)"

subsection \<open>Paths\<close>

text \<open>The walk up from the folder of the source file.\<close>

function find_up :: "files \<Rightarrow> file_path \<Rightarrow> file_path option" where
  "find_up fs dir = (if os_stat fs (join_path dir repo_root_marker) then Some dir
     else if butlast dir = dir then None else find_up fs (butlast dir))"
  by pat_completeness auto
termination
  by (relation "measure (\<lambda>(fs, dir). length dir)") (auto simp: butlast_conv_take)

declare find_up.simps [simp del]

definition find_repo_root :: "file_path option \<Rightarrow> files \<Rightarrow> file_path vres" where
  "find_repo_root caller fs = (case caller of None \<Rightarrow> Inl (ErrVector ''runtime.Caller failed'')
     | Some source \<Rightarrow> (case find_up fs (butlast source) of
         None \<Rightarrow> Inl (ErrVector ''go.mod not found walking up'') | Some dir \<Rightarrow> Inr dir))"

definition scenario_dir :: "file_path option \<Rightarrow> files \<Rightarrow> file_path vres" where
  "scenario_dir caller fs = (case find_repo_root caller fs of Inl e \<Rightarrow> Inl e
     | Inr dir \<Rightarrow> Inr (join_path (join_path dir ''testvectors'') scenario_name))"

definition path_for :: "file_path option \<Rightarrow> files \<Rightarrow> string \<Rightarrow> file_path vres" where
  "path_for caller fs name = (case scenario_dir caller fs of Inl e \<Rightarrow> Inl e
     | Inr dir \<Rightarrow> Inr (join_path dir name))"

subsection \<open>Loading\<close>

text \<open>Reading a file and decoding it over a zero value, as the two loaders of the package do it.\<close>

definition read_json :: "files \<Rightarrow> 'a decoder \<Rightarrow> 'a \<Rightarrow> string \<Rightarrow> file_path \<Rightarrow> 'a vres" where
  "read_json fs f zero name p = (case os_read_file fs p of None \<Rightarrow> Inl (ErrFile name)
     | Some b \<Rightarrow> (case unmarshal_into f zero b of None \<Rightarrow> Inl (ErrParse name) | Some x \<Rightarrow> Inr x))"

definition load_manifest :: "file_path option \<Rightarrow> files \<Rightarrow> manifest vres" where
  "load_manifest caller fs =
     (case path_for caller fs manifest_file of Inl e \<Rightarrow> Inl e
      | Inr p \<Rightarrow> (case read_json fs dec_manifest zero_manifest manifest_file p of Inl e \<Rightarrow> Inl e
      | Inr m \<Rightarrow> if mf_scenario m \<noteq> scenario_name then Inl ErrManifestMismatch else Inr m))"

subsection \<open>Verifying\<close>

definition hash_file :: "files \<Rightarrow> file_path \<Rightarrow> string option" where
  "hash_file fs p = map_option (\<lambda>b. ''0x'' @ hex_encode (sha256_sum b)) (os_read_file fs p)"

text \<open>The map from names to digests: of two entries with the same name the later one counts.\<close>

definition expected_digests :: "(string \<times> string) list \<Rightarrow> (string \<times> string) list" where
  "expected_digests entries = fold (\<lambda>(n, h). AList.update n h) entries []"

text \<open>
  The loop over the map. Its order is not specified, and it does not matter: every failure is the
  same sentinel.
\<close>

definition digest_wrong :: "files \<Rightarrow> file_path \<Rightarrow> string \<times> string \<Rightarrow> bool" where
  "digest_wrong fs dir x = (case hash_file fs (join_path dir (fst x)) of None \<Rightarrow> True | Some got \<Rightarrow> got \<noteq> snd x)"

fun check_digests :: "vector_error \<Rightarrow> files \<Rightarrow> file_path \<Rightarrow> (string \<times> string) list \<Rightarrow> vector_error option" where
  "check_digests mismatch fs dir [] = None"
| "check_digests mismatch fs dir (x # xs) =
     (if digest_wrong fs dir x then Some mismatch else check_digests mismatch fs dir xs)"

text \<open>
  \<^verbatim>\<open>strings.EqualFold(name, "README.md")\<close>; no letter of it is the fold of a rune outside
  ASCII. The manifest of both folders has the same name.
\<close>

definition is_readme :: "string \<Rightarrow> bool" where
  "is_readme name \<longleftrightarrow> fold_name name = fold_name ''README.md''"

definition untracked :: "string \<times> bool \<Rightarrow> bool" where
  "untracked e \<longleftrightarrow> snd e \<or> fst e = manifest_file \<or> prefix ''.'' (fst e) \<or> is_readme (fst e)"

definition orphan_files :: "(string \<times> string) list \<Rightarrow> (string \<times> bool) list \<Rightarrow> string list" where
  "orphan_files expected entries =
     map fst (filter (\<lambda>e. \<not> untracked e \<and> map_of expected (fst e) = None) entries)"

definition verify_folder ::
    "vector_error \<Rightarrow> files \<Rightarrow> file_path \<Rightarrow> (string \<times> string) list \<Rightarrow> vector_error option" where
  "verify_folder mismatch fs dir entries =
     (let expected = expected_digests entries in
      case check_digests mismatch fs dir expected of Some e \<Rightarrow> Some e
      | None \<Rightarrow> (case os_read_dir fs dir of None \<Rightarrow> Some (ErrFile ''list'')
      | Some listing \<Rightarrow> if orphan_files expected listing \<noteq> [] then Some mismatch else None))"

definition verify_manifest :: "file_path option \<Rightarrow> files \<Rightarrow> manifest \<Rightarrow> vector_error option" where
  "verify_manifest caller fs m = (case scenario_dir caller fs of Inl e \<Rightarrow> Some e
     | Inr dir \<Rightarrow> verify_folder ErrManifestMismatch fs dir (map (\<lambda>e. (me_name e, me_sha256 e)) (mf_files m)))"

subsection \<open>What it decides\<close>

lemma hash_file_eq: "hash_file fs p = map_option sha256_hex (os_read_file fs p)"
  by (cases "os_read_file fs p") (simp_all add: hash_file_def sha256_hex_def hex_prefix_def)

lemma map_of_expected: "map_of (expected_digests entries) = map_of (rev entries)"
proof -
  have "map_of (fold (\<lambda>(n, h). AList.update n h) entries m) = map_of (rev entries @ m)" for m :: "(string \<times> string) list"
    by (induction entries arbitrary: m) (auto simp: fun_eq_iff map_add_def split: option.split)
  from this [of "[]"] show ?thesis by (simp add: expected_digests_def)
qed

lemma expected_distinct: "distinct (map fst (expected_digests entries))"
proof -
  have "distinct (map fst m) \<Longrightarrow> distinct (map fst (fold (\<lambda>(n, h). AList.update n h) entries m))" for m :: "(string \<times> string) list"
    by (induction entries arbitrary: m) auto
  then show ?thesis by (simp add: expected_digests_def)
qed

lemma check_digests_None: "check_digests e fs dir xs = None \<longleftrightarrow> (\<forall>x \<in> set xs. \<not> digest_wrong fs dir x)"
  by (induction xs) auto

lemma check_digests_Some: "check_digests e fs dir xs = Some e' \<Longrightarrow> e' = e"
  by (induction xs) (auto split: if_splits)

text \<open>
  A folder is accepted exactly when every name of the manifest is a file with its digest, and every
  file of the folder that is neither the manifest, nor hidden, nor a read-me is named there.
\<close>

definition folder_matches :: "files \<Rightarrow> file_path \<Rightarrow> (string \<rightharpoonup> string) \<Rightarrow> bool" where
  "folder_matches fs dir expected \<longleftrightarrow> node_at fs dir = Some Folder
     \<and> (\<forall>n h. expected n = Some h \<longrightarrow> (\<exists>b. os_read_file fs (join_path dir n) = Some b \<and> sha256_hex b = h))
     \<and> (\<forall>n. node_at fs (dir @ [n]) \<notin> {None, Some Folder} \<longrightarrow> \<not> untracked (n, False) \<longrightarrow> expected n \<noteq> None)"

lemma digest_right:
  "\<not> digest_wrong fs dir (n, h) \<longleftrightarrow> (\<exists>b. os_read_file fs (join_path dir n) = Some b \<and> sha256_hex b = h)"
  by (auto simp: digest_wrong_def hash_file_eq split: option.splits)

theorem verify_folder_None:
  "verify_folder e fs dir entries = None \<longleftrightarrow> folder_matches fs dir (map_of (rev entries))"
proof -
  let ?expected = "expected_digests entries"
  let ?listing = "map (\<lambda>n. (n, node_at fs (dir @ [n]) = Some Folder)) (names_in fs dir)"
  have digests: "check_digests e fs dir ?expected = None \<longleftrightarrow>
      (\<forall>n h. map_of (rev entries) n = Some h \<longrightarrow> (\<exists>b. os_read_file fs (join_path dir n) = Some b \<and> sha256_hex b = h))"
    using expected_distinct [of entries]
    by (auto simp: check_digests_None digest_right [symmetric] map_of_expected [symmetric] map_of_eq_Some_iff)
  have orphans: "orphan_files ?expected ?listing = [] \<longleftrightarrow>
      (\<forall>n. node_at fs (dir @ [n]) \<notin> {None, Some Folder} \<longrightarrow> \<not> untracked (n, False) \<longrightarrow> map_of (rev entries) n \<noteq> None)"
    by (auto simp: orphan_files_def filter_empty_conv set_names_in map_of_expected untracked_def)
  have "verify_folder e fs dir entries = None \<longleftrightarrow>
      check_digests e fs dir ?expected = None \<and> node_at fs dir = Some Folder \<and> orphan_files ?expected ?listing = []"
    by (simp add: verify_folder_def os_read_dir_def Let_def split: option.split)
  then show ?thesis unfolding digests orphans folder_matches_def by blast
qed

lemma verify_folder_errors:
  "verify_folder e fs dir entries = Some e' \<Longrightarrow> e' = e \<or> e' = ErrFile ''list''"
  by (auto simp: verify_folder_def Let_def split: option.splits if_splits dest: check_digests_Some)

text \<open>The root that is found has the marker, and no folder below it on the way does.\<close>

lemma find_up_Some:
  "find_up fs dir = Some r \<Longrightarrow> prefix r dir \<and> os_stat fs (r @ [repo_root_marker])
     \<and> (\<forall>q. prefix r q \<longrightarrow> prefix q dir \<longrightarrow> q \<noteq> r \<longrightarrow> \<not> os_stat fs (q @ [repo_root_marker]))"
proof (induction fs dir rule: find_up.induct)
  case (1 fs dir)
  have n: "simple_name repo_root_marker" by (simp add: simple_name_def repo_root_marker_def)
  show ?case
  proof (cases "os_stat fs (dir @ [repo_root_marker])")
    case True
    with "1.prems" n have "r = dir" by (simp add: find_up.simps [of fs dir])
    with True show ?thesis by (auto dest: prefix_order.antisym)
  next
    case False
    then have ne: "butlast dir \<noteq> dir" and up: "find_up fs (butlast dir) = Some r"
      using "1.prems" n by (auto simp: find_up.simps [of fs dir] split: if_splits)
    then have IH: "prefix r (butlast dir) \<and> os_stat fs (r @ [repo_root_marker])
       \<and> (\<forall>q. prefix r q \<longrightarrow> prefix q (butlast dir) \<longrightarrow> q \<noteq> r \<longrightarrow> \<not> os_stat fs (q @ [repo_root_marker]))"
      using "1.IH" False n by simp
    obtain d x where dir: "dir = d @ [x]" using ne by (cases dir rule: rev_cases) auto
    from IH False show ?thesis unfolding dir by (auto simp: prefix_snoc)
  qed
qed

end
