(* ===== verification/Vector_Scenario.thy ===== *)
theory Vector_Scenario
  imports Vector_Manifest
begin

text \<open>
  \<^verbatim>\<open>pkg/testvectors/alice.go\<close>: the scenario as one value, loaded from its eleven files and
  its manifest, and the check of the invariants that hold between the files.
  The loaders of single files end in \<^verbatim>\<open>return s, loadJSON(name, &s)\<close>; the model takes the
  value of \<open>s\<close> after the call, as the compiler evaluates it (the language leaves the order open).
\<close>

record alice_scenario =
  al_manifest :: manifest
  al_initial :: state_snapshot
  al_deposit :: deposit_record
  al_after_deposit :: state_snapshot
  al_request :: withdraw_request
  al_nullifier :: nullifier_vector
  al_destination :: destination_hash_vector
  al_after_withdrawal :: state_snapshot
  al_update :: settlement_update
  al_commitments :: batch_commitments_vector
  al_witness :: witness
  al_public_inputs :: public_inputs_vector

subsection \<open>Loading\<close>

definition load_json :: "file_path option \<Rightarrow> files \<Rightarrow> 'a decoder \<Rightarrow> 'a \<Rightarrow> string \<Rightarrow> 'a vres" where
  "load_json caller fs f zero name = (case path_for caller fs name of Inl e \<Rightarrow> Inl e
     | Inr p \<Rightarrow> read_json fs f zero name p)"

definition load_initial_state :: "file_path option \<Rightarrow> files \<Rightarrow> state_snapshot vres" where
  "load_initial_state caller fs = load_json caller fs dec_state_snapshot zero_state_snapshot file_initial_state"

definition load_deposit :: "file_path option \<Rightarrow> files \<Rightarrow> deposit_record vres" where
  "load_deposit caller fs = load_json caller fs dec_deposit_record zero_deposit_record file_deposit"

definition load_after_deposit :: "file_path option \<Rightarrow> files \<Rightarrow> state_snapshot vres" where
  "load_after_deposit caller fs = load_json caller fs dec_state_snapshot zero_state_snapshot file_after_deposit"

definition load_withdraw_request :: "file_path option \<Rightarrow> files \<Rightarrow> withdraw_request vres" where
  "load_withdraw_request caller fs = load_json caller fs dec_withdraw_request zero_withdraw_request file_withdraw_request"

definition load_nullifier :: "file_path option \<Rightarrow> files \<Rightarrow> nullifier_vector vres" where
  "load_nullifier caller fs = load_json caller fs dec_nullifier_vector zero_nullifier_vector file_nullifier"

definition load_destination_hash :: "file_path option \<Rightarrow> files \<Rightarrow> destination_hash_vector vres" where
  "load_destination_hash caller fs =
     load_json caller fs dec_destination_hash_vector zero_destination_hash_vector file_destination_hash"

definition load_after_withdrawal :: "file_path option \<Rightarrow> files \<Rightarrow> state_snapshot vres" where
  "load_after_withdrawal caller fs = load_json caller fs dec_state_snapshot zero_state_snapshot file_after_withdrawal"

definition load_settlement_update :: "file_path option \<Rightarrow> files \<Rightarrow> settlement_update vres" where
  "load_settlement_update caller fs = load_json caller fs dec_settlement_update zero_settlement_update file_settlement"

definition load_batch_commitments :: "file_path option \<Rightarrow> files \<Rightarrow> batch_commitments_vector vres" where
  "load_batch_commitments caller fs =
     load_json caller fs dec_batch_commitments_vector zero_batch_commitments_vector file_commitments"

definition load_witness :: "file_path option \<Rightarrow> files \<Rightarrow> witness vres" where
  "load_witness caller fs = load_json caller fs dec_witness zero_witness file_witness"

definition load_public_inputs :: "file_path option \<Rightarrow> files \<Rightarrow> public_inputs_vector vres" where
  "load_public_inputs caller fs = load_json caller fs dec_public_inputs_vector zero_public_inputs_vector file_public_inputs"

definition load_alice_scenario :: "file_path option \<Rightarrow> files \<Rightarrow> alice_scenario vres" where
  "load_alice_scenario caller fs =
     (case load_manifest caller fs of Inl e \<Rightarrow> Inl e
      | Inr m \<Rightarrow> (case load_initial_state caller fs of Inl e \<Rightarrow> Inl e
      | Inr initial \<Rightarrow> (case load_deposit caller fs of Inl e \<Rightarrow> Inl e
      | Inr deposit \<Rightarrow> (case load_after_deposit caller fs of Inl e \<Rightarrow> Inl e
      | Inr after_deposit \<Rightarrow> (case load_withdraw_request caller fs of Inl e \<Rightarrow> Inl e
      | Inr request \<Rightarrow> (case load_nullifier caller fs of Inl e \<Rightarrow> Inl e
      | Inr nullifier \<Rightarrow> (case load_destination_hash caller fs of Inl e \<Rightarrow> Inl e
      | Inr destination \<Rightarrow> (case load_after_withdrawal caller fs of Inl e \<Rightarrow> Inl e
      | Inr after_withdrawal \<Rightarrow> (case load_settlement_update caller fs of Inl e \<Rightarrow> Inl e
      | Inr update \<Rightarrow> (case load_batch_commitments caller fs of Inl e \<Rightarrow> Inl e
      | Inr commitments \<Rightarrow> (case load_witness caller fs of Inl e \<Rightarrow> Inl e
      | Inr wit \<Rightarrow> (case load_public_inputs caller fs of Inl e \<Rightarrow> Inl e
      | Inr inputs \<Rightarrow> Inr \<lparr>al_manifest = m, al_initial = initial, al_deposit = deposit,
           al_after_deposit = after_deposit, al_request = request, al_nullifier = nullifier,
           al_destination = destination, al_after_withdrawal = after_withdrawal, al_update = update,
           al_commitments = commitments, al_witness = wit, al_public_inputs = inputs\<rparr>))))))))))))"

text \<open>\<^verbatim>\<open>MustLoadAliceScenario\<close> panics where the load fails.\<close>

definition must_load_alice_scenario :: "file_path option \<Rightarrow> files \<Rightarrow> alice_scenario res" where
  "must_load_alice_scenario caller fs = (case load_alice_scenario caller fs of
     Inl _ \<Rightarrow> Inl (ErrPanic ''testvectors.MustLoadAliceScenario'') | Inr s \<Rightarrow> Inr s)"

subsection \<open>The invariants between the files\<close>

definition wanted_inputs :: "alice_scenario \<Rightarrow> string list" where
  "wanted_inputs s = (let c = cv_commitments (al_commitments s) in
     [ss_root (al_after_deposit s), ss_root (al_after_withdrawal s), bc_deposits_root c, bc_withdrawals_root c,
      bc_nullifiers_root c, bc_withdraw_outputs_root c])"

text \<open>The checks in the order of the code, each with what its error is about; a nil scenario is \<open>None\<close>.\<close>

definition sanity_check :: "alice_scenario option \<Rightarrow> vector_error option" where
  "sanity_check scenario = (case scenario of None \<Rightarrow> Some (ErrVector ''nil scenario'')
     | Some s \<Rightarrow>
     let root_b = ss_root (al_after_deposit s); root_c = ss_root (al_after_withdrawal s);
         root_a = ss_root (al_initial s) in
     if su_old_root (al_update s) \<noteq> root_b then Some (ErrVector ''OldStateRoot'')
     else if su_new_root (al_update s) \<noteq> root_c then Some (ErrVector ''NewStateRoot'')
     else if root_a = [] \<or> root_a = root_b \<or> root_a = root_c then Some (ErrVector ''rootA'')
     else if length (pv_public_inputs (al_public_inputs s)) \<noteq> 6 then Some (ErrVector ''publicInputs len'')
     else if \<exists>i < 6. pv_public_inputs (al_public_inputs s) ! i \<noteq> wanted_inputs s ! i then Some (ErrVector ''publicInputs'')
     else if length (wit_accounts (al_witness s)) \<noteq> 1 then Some (ErrVector ''witness accounts len'')
     else let wa = wit_accounts (al_witness s) ! 0 in
     if wa_old_balance wa \<noteq> ''0'' \<or> wa_new_balance wa \<noteq> ''60'' \<or> wa_nonce wa \<noteq> ''1'' then Some (ErrVector ''witness journey'')
     else if wr_nonce (al_request s) \<noteq> ''1'' then Some (ErrVector ''WithdrawRequest.Nonce'')
     else if length (ss_accounts (al_after_withdrawal s)) \<noteq> 1
         \<or> acc_nonce (ss_accounts (al_after_withdrawal s) ! 0) \<noteq> wr_nonce (al_request s)
       then Some (ErrVector ''account nonce'')
     else if length (su_withdrawals (al_update s)) \<noteq> 1 then Some (ErrVector ''Withdrawals len'')
     else let sw = su_withdrawals (al_update s) ! 0 in
     if sw_nullifier sw \<noteq> nv_nullifier (al_nullifier s) then Some (ErrVector ''nullifier'')
     else if sw_destination_hash sw \<noteq> dv_destination_hash (al_destination s) then Some (ErrVector ''destinationHash'')
     else if dep_amount (al_deposit s) \<noteq> ''100'' then Some (ErrVector ''Deposit.Amount'')
     else if wr_amount (al_request s) \<noteq> ''40'' then Some (ErrVector ''WithdrawRequest.Amount'')
     else None)"

subsection \<open>Loading as a whole\<close>

lemma scenario_dir_found:
  "find_repo_root caller fs = Inr dir \<Longrightarrow> scenario_dir caller fs = Inr (dir @ [''testvectors'', scenario_name])"
  by (simp add: scenario_dir_def simple_name_def scenario_name_def)

lemma load_json_found:
  assumes "scenario_dir caller fs = Inr dir" and "simple_name name"
    and "os_read_file fs (dir @ [name]) = Some (marshal_indent v @ [CHR 0x0A])"
    and "json_fits max_nesting v" and "json_valid v" and "f zero v = Some x"
  shows "load_json caller fs f zero name = Inr x"
  using assms by (simp add: load_json_def path_for_def read_json_def unmarshal_into_indent)

text \<open>What the check says of a scenario that passes it.\<close>

lemma sanity_check_None:
  assumes "sanity_check (Some s) = None"
  shows "su_old_root (al_update s) = ss_root (al_after_deposit s)"
    and "su_new_root (al_update s) = ss_root (al_after_withdrawal s)"
    and "pv_public_inputs (al_public_inputs s) = wanted_inputs s"
  using assms
  by (auto simp: sanity_check_def Let_def wanted_inputs_def split: if_splits intro!: nth_equalityI)

end
