(* ===== verification/Failure_Vectors.thy ===== *)
theory Failure_Vectors
  imports Vector_Scenario
begin

text \<open>
  \<^verbatim>\<open>pkg/testvectors/failure_vectors.go\<close>: the four failure vectors with a manifest of their
  own in a folder below the scenario, and the checks of the bundle. \<^verbatim>\<open>parseDecimal\<close> works on
  64-bit words: \<open>parse_decimal_mod\<close> says what it returns for any string of digits.
\<close>

definition failure_subdir :: string where "failure_subdir = ''failure_vectors''"
definition failure_manifest_file :: string where "failure_manifest_file = ''MANIFEST.json''"
definition failure_vector_version :: string where "failure_vector_version = ''v0''"

definition file_over_withdraw :: string where "file_over_withdraw = ''over_withdraw.json''"
definition file_wrong_root :: string where "file_wrong_root = ''wrong_root.json''"
definition file_duplicate_nullifier :: string where "file_duplicate_nullifier = ''duplicate_nullifier.json''"
definition file_tampered_destination :: string where "file_tampered_destination = ''tampered_destination.json''"

definition case_over_withdraw :: string where "case_over_withdraw = ''over_withdraw''"
definition case_wrong_root :: string where "case_wrong_root = ''wrong_root''"
definition case_duplicate_nullifier :: string where "case_duplicate_nullifier = ''duplicate_nullifier''"
definition case_tampered_destination :: string where "case_tampered_destination = ''tampered_destination''"

definition stage_request_builder :: string where "stage_request_builder = ''STATE-04 WithdrawRequestBuilder''"
definition stage_chain_verifier :: string where "stage_chain_verifier = ''P1 x/zkdex MsgSubmitBatchProof verifier''"
definition stage_circuit_binding :: string where "stage_circuit_binding = ''P2 ZK circuit binding (ZK-05/ZK-07)''"

record failure_bundle =
  fb_manifest :: failure_manifest
  fb_over_withdraw :: over_withdraw_vector
  fb_wrong_root :: wrong_root_vector
  fb_duplicate :: duplicate_nullifier_vector
  fb_tampered :: tampered_destination_vector

definition failure_find_by_name :: "failure_manifest \<Rightarrow> string \<Rightarrow> failure_manifest_entry option" where
  "failure_find_by_name m name = find (\<lambda>e. fe_name e = name) (ff_files m)"

subsection \<open>Paths and loading\<close>

definition failure_dir :: "file_path option \<Rightarrow> files \<Rightarrow> file_path vres" where
  "failure_dir caller fs = (case scenario_dir caller fs of Inl e \<Rightarrow> Inl e
     | Inr dir \<Rightarrow> Inr (join_path dir failure_subdir))"

definition failure_path_for :: "file_path option \<Rightarrow> files \<Rightarrow> string \<Rightarrow> file_path vres" where
  "failure_path_for caller fs name = (case failure_dir caller fs of Inl e \<Rightarrow> Inl e
     | Inr dir \<Rightarrow> Inr (join_path dir name))"

definition load_failure_manifest :: "file_path option \<Rightarrow> files \<Rightarrow> failure_manifest vres" where
  "load_failure_manifest caller fs =
     (case failure_path_for caller fs failure_manifest_file of Inl e \<Rightarrow> Inl e
      | Inr p \<Rightarrow> (case read_json fs dec_failure_manifest zero_failure_manifest failure_manifest_file p of Inl e \<Rightarrow> Inl e
      | Inr m \<Rightarrow> if ff_scenario m \<noteq> scenario_name then Inl ErrFailureManifestMismatch
          else if ff_subfolder m \<noteq> failure_subdir then Inl ErrFailureManifestMismatch
          else Inr m))"

definition verify_failure_manifest :: "file_path option \<Rightarrow> files \<Rightarrow> failure_manifest \<Rightarrow> vector_error option" where
  "verify_failure_manifest caller fs m = (case failure_dir caller fs of Inl e \<Rightarrow> Some e
     | Inr dir \<Rightarrow> verify_folder ErrFailureManifestMismatch fs dir (map (\<lambda>e. (fe_name e, fe_sha256 e)) (ff_files m)))"

definition load_failure_json :: "file_path option \<Rightarrow> files \<Rightarrow> 'a decoder \<Rightarrow> 'a \<Rightarrow> string \<Rightarrow> 'a vres" where
  "load_failure_json caller fs f zero name = (case failure_path_for caller fs name of Inl e \<Rightarrow> Inl e
     | Inr p \<Rightarrow> read_json fs f zero name p)"

definition load_over_withdraw :: "file_path option \<Rightarrow> files \<Rightarrow> over_withdraw_vector vres" where
  "load_over_withdraw caller fs = load_failure_json caller fs dec_over_withdraw_vector zero_over_withdraw_vector file_over_withdraw"

definition load_wrong_root :: "file_path option \<Rightarrow> files \<Rightarrow> wrong_root_vector vres" where
  "load_wrong_root caller fs = load_failure_json caller fs dec_wrong_root_vector zero_wrong_root_vector file_wrong_root"

definition load_duplicate_nullifier :: "file_path option \<Rightarrow> files \<Rightarrow> duplicate_nullifier_vector vres" where
  "load_duplicate_nullifier caller fs =
     load_failure_json caller fs dec_duplicate_nullifier_vector zero_duplicate_nullifier_vector file_duplicate_nullifier"

definition load_tampered_destination :: "file_path option \<Rightarrow> files \<Rightarrow> tampered_destination_vector vres" where
  "load_tampered_destination caller fs =
     load_failure_json caller fs dec_tampered_destination_vector zero_tampered_destination_vector file_tampered_destination"

definition bundle_cases :: "failure_bundle \<Rightarrow> (string \<times> string) list" where
  "bundle_cases b = [(fm_case (ov_meta (fb_over_withdraw b)), case_over_withdraw),
     (fm_case (wv_meta (fb_wrong_root b)), case_wrong_root),
     (fm_case (nn_meta (fb_duplicate b)), case_duplicate_nullifier),
     (fm_case (tv_meta (fb_tampered b)), case_tampered_destination)]"

definition discriminator_check :: "failure_bundle \<Rightarrow> vector_error option" where
  "discriminator_check b = (if \<exists>p \<in> set (bundle_cases b). fst p \<noteq> snd p then Some (ErrVector ''case'') else None)"

definition load_failure_bundle :: "file_path option \<Rightarrow> files \<Rightarrow> failure_bundle vres" where
  "load_failure_bundle caller fs =
     (case load_failure_manifest caller fs of Inl e \<Rightarrow> Inl e
      | Inr m \<Rightarrow> (case load_over_withdraw caller fs of Inl e \<Rightarrow> Inl e
      | Inr over \<Rightarrow> (case load_wrong_root caller fs of Inl e \<Rightarrow> Inl e
      | Inr wrong \<Rightarrow> (case load_duplicate_nullifier caller fs of Inl e \<Rightarrow> Inl e
      | Inr dup \<Rightarrow> (case load_tampered_destination caller fs of Inl e \<Rightarrow> Inl e
      | Inr tampered \<Rightarrow>
        let b = \<lparr>fb_manifest = m, fb_over_withdraw = over, fb_wrong_root = wrong, fb_duplicate = dup,
                 fb_tampered = tampered\<rparr>
        in (case discriminator_check b of Some e \<Rightarrow> Inl e | None \<Rightarrow> Inr b))))))"

definition must_load_failure_bundle :: "file_path option \<Rightarrow> files \<Rightarrow> failure_bundle res" where
  "must_load_failure_bundle caller fs = (case load_failure_bundle caller fs of
     Inl _ \<Rightarrow> Inl (ErrPanic ''testvectors.MustLoadFailureBundle'') | Inr b \<Rightarrow> Inr b)"

subsection \<open>Decimals on 64 bits\<close>

text \<open>
  The loop over the runes of the string. A byte of a longer sequence is no digit, as is the rune it
  belongs to.
\<close>

fun decimal_loop :: "64 word \<Rightarrow> string \<Rightarrow> 64 word option" where
  "decimal_loop n [] = Some n"
| "decimal_loop n (c # cs) = (case digit_val c of None \<Rightarrow> None
     | Some d \<Rightarrow> decimal_loop (n * 10 + of_nat d) cs)"

definition parse_decimal :: "string \<Rightarrow> 64 word option" where
  "parse_decimal s0 = (let s = trim_space s0 in if s = [] then None else decimal_loop 0 s)"

lemma decimal_loop_mod: "decimal_loop (of_nat a) s = map_option of_nat (digits_value a s)"
proof (induction s arbitrary: a)
  case (Cons c cs)
  show ?case
  proof (cases "digit_val c")
    case (Some d)
    have "of_nat a * 10 + of_nat d = (of_nat (10 * a + d) :: 64 word)" by (simp add: mult.commute)
    with Some Cons [of "10 * a + d"] show ?thesis by (simp only: decimal_loop.simps digits_value.simps option.case)
  qed simp
qed simp

theorem parse_decimal_mod: "parse_decimal s = map_option of_nat (unsigned10 (trim_space s))"
  using decimal_loop_mod [of 0] by (simp add: parse_decimal_def unsigned10_def Let_def)

text \<open>Read as the \<^verbatim>\<open>int64\<close> it is, the result is the number wrapped into the signed range.\<close>

lemma sint_of_nat_64: "sint (of_nat n :: 64 word) = (int n + 2 ^ 63) mod 2 ^ 64 - 2 ^ 63"
proof -
  have "sint (of_nat n :: 64 word) = signed_take_bit 63 (int n)"
    by (simp add: signed_of_nat)
  then show ?thesis by (simp add: signed_take_bit_eq_take_bit_shift take_bit_eq_mod)
qed

lemma parse_decimal_small:
  "unsigned10 (trim_space s) = Some n \<Longrightarrow> n < 2 ^ 63 \<Longrightarrow> \<exists>w. parse_decimal s = Some w \<and> sint w = int n"
  by (simp add: parse_decimal_mod sint_of_nat_64)

subsection \<open>The invariants of the bundle\<close>

text \<open>
  The checks in the order of the code; a nil bundle is \<open>None\<close>. The last loop is over a map, so
  which of the three vectors its error names is not specified.
\<close>

definition public_inputs_short :: "failure_bundle \<Rightarrow> bool" where
  "public_inputs_short b \<longleftrightarrow> length (wv_public_inputs (fb_wrong_root b)) \<noteq> 6
     \<or> length (nn_public_inputs (fb_duplicate b)) \<noteq> 6 \<or> length (tv_public_inputs (fb_tampered b)) \<noteq> 6"

definition tampered_check :: "tampered_destination_vector \<Rightarrow> vector_error option" where
  "tampered_check t =
     (if tv_tampered t = tv_original t then Some (ErrVector ''tampered == original'')
      else if su_withdrawals (tv_settlement t) = [] then Some (ErrVector ''settlement withdrawals empty'')
      else let sw = su_withdrawals (tv_settlement t) ! 0 in
      if sw_destination sw \<noteq> tv_tampered t then Some (ErrVector ''settlement.Destination'')
      else if sw_destination_hash sw \<noteq> tv_original_hash t then Some (ErrVector ''settlement.DestinationHash'')
      else None)"

definition failure_sanity_check :: "failure_bundle option \<Rightarrow> vector_error option" where
  "failure_sanity_check bundle = (case bundle of None \<Rightarrow> Some (ErrVector ''nil failure bundle'')
     | Some b \<Rightarrow>
     let o_w = fb_over_withdraw b; w_r = fb_wrong_root b; d_n = fb_duplicate b in
     case discriminator_check b of Some e \<Rightarrow> Some e
     | None \<Rightarrow>
     if acc_owner (ov_account_snapshot o_w) \<noteq> iv_owner (ov_intent o_w) then Some (ErrVector ''owner'')
     else if acc_denom (ov_account_snapshot o_w) \<noteq> iv_denom (ov_intent o_w) then Some (ErrVector ''denom'')
     else (case parse_decimal (acc_balance (ov_account_snapshot o_w)) of
         None \<Rightarrow> Some (ErrVector ''balance not numeric'')
       | Some bal \<Rightarrow> (case parse_decimal (iv_amount (ov_intent o_w)) of
         None \<Rightarrow> Some (ErrVector ''amount not numeric'')
       | Some amt \<Rightarrow>
         if \<not> sint bal < sint amt then Some (ErrVector ''balance not < amount'')
         else if su_old_root (wv_tampered w_r) = wv_correct_old_root w_r then Some (ErrVector ''wrong_root'')
         else if length (su_withdrawals (nn_update d_n)) < 2 then Some (ErrVector ''withdrawals len'')
         else if length (filter (\<lambda>w. sw_nullifier w = nn_nullifier d_n) (su_withdrawals (nn_update d_n))) < 2
           then Some (ErrVector ''withdrawals with the nullifier'')
         else (case tampered_check (fb_tampered b) of Some e \<Rightarrow> Some e
       | None \<Rightarrow> if public_inputs_short b then Some (ErrVector ''publicInputs len'') else None))))"

subsection \<open>Loading as a whole\<close>

lemma failure_dir_found:
  "find_repo_root caller fs = Inr dir
     \<Longrightarrow> failure_dir caller fs = Inr (dir @ [''testvectors'', scenario_name, failure_subdir])"
  using scenario_dir_found [of caller fs dir] by (simp add: failure_dir_def simple_name_def failure_subdir_def)

lemma load_failure_json_found:
  assumes "failure_dir caller fs = Inr dir" and "simple_name name"
    and "os_read_file fs (dir @ [name]) = Some (marshal_indent v @ [CHR 0x0A])"
    and "json_fits max_nesting v" and "json_valid v" and "f zero v = Some x"
  shows "load_failure_json caller fs f zero name = Inr x"
  using assms by (simp add: load_failure_json_def failure_path_for_def read_json_def unmarshal_into_indent)

end
