(* ===== verification/Vector_Generator.thy ===== *)
theory Vector_Generator
  imports Failure_Vectors
begin

text \<open>
  \<^verbatim>\<open>p3/script-test/gen_state_vectors\<close>: the program that writes the test vectors. It runs
  Alice's deposit and withdrawal on the mirror and the builders, writes one file per step, and
  ends with a manifest of the files and their digests; then it mutates the batch four times for the
  failure vectors. \<^verbatim>\<open>die\<close> ends the process: the result is then the files as they are and
  what the message is about. What the program prints is left out, as are the bytes a failed
  write leaves behind. Texts are the bytes of the source.
\<close>

subsection \<open>The writer\<close>

text \<open>
  \<^verbatim>\<open>writer\<close> and \<^verbatim>\<open>failureWriter\<close> differ in the entries they collect, so the entry
  type is a parameter.
\<close>

record 'e out_writer =
  ow_dir :: file_path
  ow_files :: "'e list"
  ow_seen :: "string set"

type_synonym dead = "files \<times> string"

definition new_out_writer :: "file_path \<Rightarrow> 'e out_writer" where
  "new_out_writer dir = \<lparr>ow_dir = dir, ow_files = [], ow_seen = {}\<rparr>"

definition file_text :: "json \<Rightarrow> string" where
  "file_text v = marshal_indent v @ [CHR 0x0A]"

text \<open>Marshalling these types cannot fail.\<close>

definition write_vector ::
    "(string \<Rightarrow> 'e) \<Rightarrow> bool \<Rightarrow> string \<Rightarrow> json \<Rightarrow> files \<times> 'e out_writer \<Rightarrow> dead + files \<times> 'e out_writer" where
  "write_vector entry described name v x = (case x of (fs, w) \<Rightarrow>
     if name \<in> ow_seen w then Inl (fs, ''duplicate file'')
     else if \<not> described then Inl (fs, ''manifest meta required'')
     else (case os_write_file fs (join_path (ow_dir w) name) (file_text v) of
         None \<Rightarrow> Inl (fs, ''write'')
       | Some fs' \<Rightarrow> Inr (fs', w\<lparr>ow_files := ow_files w @ [entry (''0x'' @ hex_encode (sha256_sum (file_text v)))],
           ow_seen := insert name (ow_seen w)\<rparr>)))"

definition emit_file :: "string \<Rightarrow> json \<Rightarrow> files \<times> 'e out_writer \<Rightarrow> dead + files" where
  "emit_file name v x = (case x of (fs, w) \<Rightarrow>
     case os_write_file fs (join_path (ow_dir w) name) (file_text v) of
       None \<Rightarrow> Inl (fs, ''write manifest'') | Some fs' \<Rightarrow> Inr fs')"

record file_meta =
  md_state_task :: string
  md_schema :: string
  md_consumers :: "string list"
  md_note :: string

definition meta_entry :: "string \<Rightarrow> file_meta \<Rightarrow> string \<Rightarrow> manifest_entry" where
  "meta_entry name md digest = \<lparr>me_name = name, me_state_task = md_state_task md, me_schema = md_schema md,
     me_consumers = md_consumers md, me_sha256 = digest, me_note = md_note md\<rparr>"

definition gen_write :: "string \<Rightarrow> json \<Rightarrow> file_meta \<Rightarrow> files \<times> manifest_entry out_writer
    \<Rightarrow> dead + files \<times> manifest_entry out_writer" where
  "gen_write name v md = write_vector (meta_entry name md) (md_state_task md \<noteq> [] \<and> md_schema md \<noteq> []) name v"

definition gen_emit_manifest :: "manifest \<Rightarrow> files \<times> manifest_entry out_writer \<Rightarrow> dead + files" where
  "gen_emit_manifest m x = emit_file manifest_file
     (manifest_json (m\<lparr>mf_files := sort_key me_name (ow_files (snd x))\<rparr>)) x"

subsection \<open>The constants\<close>

definition gen_out_dir :: "file_path \<Rightarrow> file_path" where
  "gen_out_dir cwd = join_path cwd ''testvectors/alice_100_40''"

definition gen_alice :: string where "gen_alice = ''cosmos1alice''"
definition gen_denom :: string where "gen_denom = ''uusdc''"
definition gen_secret :: string where "gen_secret = ''alice_secret''"
definition gen_vector_version :: string where "gen_vector_version = ''v0''"

definition canonical_tx_hash :: "string list \<Rightarrow> string" where
  "canonical_tx_hash parts = ''0x'' @ take 32 (hex_encode (sha256_sum (concat (map (\<lambda>p. p @ ''|'') parts))))"

subsection \<open>The steps of main\<close>

text \<open>The local variables of \<^verbatim>\<open>main\<close>; before its step a variable is unset.\<close>

record gen =
  g_fs :: files
  g_writer :: "manifest_entry out_writer"
  g_ls :: local_state
  g_root_a :: string
  g_old_balance :: string
  g_deposit :: deposit_record
  g_root_b :: string
  g_request :: withdraw_request
  g_nullifier :: string
  g_destination_hash :: string
  g_root_c :: string
  g_inputs :: settlement_inputs
  g_update :: settlement_update
  g_commitments :: batch_commitments
  g_witness :: witness
  g_public_inputs :: "string list"

type_synonym gen_step = "gen \<Rightarrow> dead + gen"

definition die :: "gen \<Rightarrow> string \<Rightarrow> dead + gen" where
  "die g reason = Inl (g_fs g, reason)"

definition gen_file :: "string \<Rightarrow> json \<Rightarrow> file_meta \<Rightarrow> gen_step" where
  "gen_file name v md g = (case gen_write name v md (g_fs g, g_writer g) of Inl e \<Rightarrow> Inl e
     | Inr (fs, w) \<Rightarrow> Inr (g\<lparr>g_fs := fs, g_writer := w\<rparr>))"

definition gen_zero :: "files \<Rightarrow> file_path \<Rightarrow> gen" where
  "gen_zero fs dir = \<lparr>g_fs = fs, g_writer = new_out_writer dir, g_ls = new_local_state, g_root_a = [],
     g_old_balance = [], g_deposit = zero_deposit_record, g_root_b = [], g_request = zero_withdraw_request,
     g_nullifier = [], g_destination_hash = [], g_root_c = [],
     g_inputs = \<lparr>si_old_root = [], si_new_root = [], si_deposits = [], si_withdrawals = []\<rparr>,
     g_update = zero_settlement_update, g_commitments = zero_batch_commitments, g_witness = zero_witness,
     g_public_inputs = []\<rparr>"

definition snapshot_of :: "string \<Rightarrow> local_state \<Rightarrow> string \<Rightarrow> state_snapshot" where
  "snapshot_of root ls note = \<lparr>ss_root = root, ss_accounts = snapshot_accounts (ls_accounts ls), ss_note = note\<rparr>"

definition md_initial :: file_meta where
  "md_initial = \<lparr>md_state_task = ''STATE-02'', md_schema = ''LocalStateSnapshot'',
     md_consumers = [''P1'', ''P2'', ''P3'', ''P4''], md_note = ''Baseline rootA = root of empty account set.''\<rparr>"

definition note_initial :: string where
  "note_initial = ''STATE-02 '' @ [CHR 0xE2, CHR 0x80, CHR 0x94] @ '' initial local state, empty accounts. rootA.''"

definition gen_initial :: gen_step where
  "gen_initial g = (let root_a = ls_root (g_ls g) in
     gen_file ''initial_state.json''
       (state_snapshot_json (snapshot_of root_a (g_ls g)
        note_initial))
       md_initial
       (g\<lparr>g_root_a := root_a\<rparr>))"

definition gen_dep1 :: deposit_record where
  "gen_dep1 = \<lparr>dep_id = ''dep-1'', dep_owner = gen_alice, dep_denom = gen_denom, dep_amount = ''100'',
     dep_processed = False, dep_created_height = 12345,
     dep_tx_hash = canonical_tx_hash [''deposit'', gen_alice, gen_denom, ''100'', ''dep-1'']\<rparr>"

definition md_deposit :: file_meta where
  "md_deposit = \<lparr>md_state_task = ''STATE-03 (input)'', md_schema = ''types.DepositRecord'',
     md_consumers = [''P1'', ''P3'', ''P4''],
     md_note = ''Canonical dep-1 record. TxHash kh'' @ [CHR 0xE1, CHR 0xBB, CHR 0x9B]
       @ ''p chain.MockClient determinism recipe.''\<rparr>"

definition gen_deposit_record :: gen_step where
  "gen_deposit_record g =
     gen_file ''deposit_dep_1.json'' (deposit_record_json gen_dep1)
       md_deposit
       (g\<lparr>g_old_balance := acc_balance (local_account (g_ls g) gen_alice gen_denom), g_deposit := gen_dep1\<rparr>)"

definition md_after_deposit :: file_meta where
  "md_after_deposit = \<lparr>md_state_task = ''STATE-03'', md_schema = ''LocalStateSnapshot'', md_consumers = [''P2'', ''P3'', ''P4''],
     md_note = ''Pending off-chain state sau khi deposit credit. rootB = settlementUpdate.oldStateRoot.''\<rparr>"

definition note_after_deposit :: string where
  "note_after_deposit = ''STATE-03 '' @ [CHR 0xE2, CHR 0x80, CHR 0x94]
       @ '' after applying dep-1, Alice balance=100. rootB.''"

definition gen_apply_deposit :: gen_step where
  "gen_apply_deposit g = (case apply_deposit (g_ls g) (g_deposit g) of Inl _ \<Rightarrow> die g ''apply deposit''
     | Inr (ls, root_b) \<Rightarrow>
       gen_file ''state_after_deposit.json''
         (state_snapshot_json (snapshot_of root_b ls
          note_after_deposit))
         md_after_deposit
         (g\<lparr>g_ls := ls, g_root_b := root_b\<rparr>))"

definition gen_intent :: withdraw_intent where
  "gen_intent = \<lparr>wi_owner = gen_alice, wi_denom = gen_denom, wi_amount = ''40'', wi_destination = gen_alice\<rparr>"

definition md_request :: file_meta where
  "md_request = \<lparr>md_state_task = ''STATE-04'', md_schema = ''types.WithdrawRequest'', md_consumers = [''P3'', ''P4'', ''P5''],
     md_note = ''Canonical wd-1 request. Nonce=1 '' @ [CHR 0xC4, CHR 0x83] @ ''n kh''
       @ [CHR 0xE1, CHR 0xBB, CHR 0x9B] @ ''p post-state nonce.''\<rparr>"

definition gen_build_request :: gen_step where
  "gen_build_request g = (case build_withdraw_request (g_ls g) 0 gen_intent of
       Inl _ \<Rightarrow> die g ''build withdraw request''
     | Inr (_, req) \<Rightarrow>
       (case gen_file ''withdraw_request_wd_1.json'' (withdraw_request_json req)
         md_request
         (g\<lparr>g_request := req\<rparr>) of Inl e \<Rightarrow> Inl e
       | Inr g' \<Rightarrow> if ls_root (g_ls g') \<noteq> g_root_b g' then die g' ''STATE-04 mutated root'' else Inr g'))"

definition md_nullifier :: file_meta where
  "md_nullifier = \<lparr>md_state_task = ''STATE-06'', md_schema = ''NullifierVector'', md_consumers = [''P1'', ''P2''],
     md_note = ''Demo-only userSecret = '' @ [CHR 0x27] @ ''alice_secret'' @ [CHR 0x27] @ ''. KH''
       @ [CHR 0xC3, CHR 0x94] @ ''NG bao gi'' @ [CHR 0xE1, CHR 0xBB, CHR 0x9D] @ '' commit secret th''
       @ [CHR 0xE1, CHR 0xBA, CHR 0xAD] @ ''t.''\<rparr>"

definition note_nullifier :: string where
  "note_nullifier = ''STATE-06 '' @ [CHR 0xE2, CHR 0x80, CHR 0x94]
       @ '' nullifier(domain | userSecret | nonce). Placeholder hash until ZK-02 ch''
       @ [CHR 0xE1, CHR 0xBB, CHR 0x91] @ ''t Poseidon/MiMC; bump domain tag r''
       @ [CHR 0xE1, CHR 0xBB, CHR 0x93] @ ''i regenerate.''"

definition gen_derive_nullifier :: gen_step where
  "gen_derive_nullifier g = (case nullifier_for gen_secret (wr_nonce (g_request g)) of
       Inl _ \<Rightarrow> die g ''nullifier''
     | Inr nullifier \<Rightarrow>
       gen_file ''nullifier_wd_1.json''
         (nullifier_vector_json \<lparr>nv_withdraw_id = wr_id (g_request g), nv_owner = gen_alice,
          nv_nonce = wr_nonce (g_request g), nv_user_secret = gen_secret, nv_domain_tag = nullifier_domain_tag,
          nv_hash_algorithm = ''sha256'', nv_nullifier = nullifier,
          nv_note = note_nullifier\<rparr>)
         md_nullifier
         (g\<lparr>g_nullifier := nullifier\<rparr>))"

definition md_destination :: file_meta where
  "md_destination = \<lparr>md_state_task = ''STATE-07'', md_schema = ''DestinationHashVector'', md_consumers = [''P1'', ''P2''],
     md_note = ''Domain-separated kh'' @ [CHR 0xE1, CHR 0xBB, CHR 0x8F] @ ''i nullifier ''
       @ [CHR 0xC4, CHR 0x91, CHR 0xE1, CHR 0xBB, CHR 0x83] @ '' ch'' @ [CHR 0xE1, CHR 0xBA, CHR 0xB7]
       @ ''n cross-domain collision.''\<rparr>"

definition note_destination :: string where
  "note_destination = ''STATE-07 '' @ [CHR 0xE2, CHR 0x80, CHR 0x94] @ '' destinationHash(domain | destination). T''
       @ [CHR 0xC3, CHR 0xAA] @ ''n tr'' @ [CHR 0xC6, CHR 0xB0, CHR 0xE1, CHR 0xBB, CHR 0x9D] @ ''ng ''
       @ [CHR 0xC4, CHR 0x91, CHR 0xC3, CHR 0xA3] @ '' ''
       @ [CHR 0xC4, CHR 0x91, CHR 0xE1, CHR 0xBB, CHR 0x93] @ ''ng b'' @ [CHR 0xE1, CHR 0xBB, CHR 0x99]
       @ '' Agreements (destination / destinationHash).''"

definition gen_derive_destination :: gen_step where
  "gen_derive_destination g = (case withdraw_address_hash (wr_destination (g_request g)) of
       Inl _ \<Rightarrow> die g ''destination hash''
     | Inr destination_hash \<Rightarrow>
       gen_file ''destination_hash_wd_1.json''
         (destination_hash_vector_json \<lparr>dv_withdraw_id = wr_id (g_request g),
          dv_destination = wr_destination (g_request g), dv_domain_tag = withdraw_address_domain_tag,
          dv_hash_algorithm = ''sha256'', dv_destination_hash = destination_hash,
          dv_note = note_destination\<rparr>)
         md_destination
         (g\<lparr>g_destination_hash := destination_hash\<rparr>))"

definition md_after_withdrawal :: file_meta where
  "md_after_withdrawal = \<lparr>md_state_task = ''STATE-05'', md_schema = ''LocalStateSnapshot'', md_consumers = [''P2'', ''P3'', ''P4''],
     md_note = ''Post-batch state. rootC = settlementUpdate.newStateRoot.''\<rparr>"

definition note_after_withdrawal :: string where
  "note_after_withdrawal = ''STATE-05 '' @ [CHR 0xE2, CHR 0x80, CHR 0x94]
       @ '' after applying wd-1, Alice balance=60, nonce=1. rootC.''"

definition gen_apply_withdrawal :: gen_step where
  "gen_apply_withdrawal g = (case apply_withdrawal (g_ls g) (g_request g) (g_nullifier g) of
       Inl _ \<Rightarrow> die g ''apply withdrawal''
     | Inr (ls, root_c) \<Rightarrow>
       gen_file ''state_after_withdrawal.json''
         (state_snapshot_json (snapshot_of root_c ls
          note_after_withdrawal))
         md_after_withdrawal
         (g\<lparr>g_ls := ls, g_root_c := root_c\<rparr>))"

definition md_settlement :: file_meta where
  "md_settlement = \<lparr>md_state_task = ''STATE-08'', md_schema = ''types.SettlementUpdate'',
     md_consumers = [''P1'', ''P2'', ''P4'', ''P5''],
     md_note = ''Batch-shaped: deposits[] + withdrawals[]. Schema kh'' @ [CHR 0xC3, CHR 0xB4] @ ''ng bao gi''
       @ [CHR 0xE1, CHR 0xBB, CHR 0x9D] @ '' r'' @ [CHR 0xE1, CHR 0xBB, CHR 0x9B] @ ''t v''
       @ [CHR 0xE1, CHR 0xBB, CHR 0x81] @ '' scalar form.''\<rparr>"

definition gen_settlement :: gen_step where
  "gen_settlement g =
     (let inputs = \<lparr>si_old_root = g_root_b g, si_new_root = g_root_c g, si_deposits = [g_deposit g],
        si_withdrawals = [\<lparr>wn_request = g_request g, wn_nullifier = g_nullifier g,
          wn_destination_hash = g_destination_hash g\<rparr>]\<rparr> in
      case settlement_build 0 inputs of Inl _ \<Rightarrow> die g ''build settlement update''
      | Inr (_, upd) \<Rightarrow>
       gen_file ''settlement_update_batch_1.json'' (settlement_update_json upd)
         md_settlement
         (g\<lparr>g_inputs := inputs, g_update := upd\<rparr>))"

definition md_commitments :: file_meta where
  "md_commitments = \<lparr>md_state_task = ''STATE-08-ext'', md_schema = ''BatchCommitmentsVector'',
     md_consumers = [''P1'', ''P2'', ''P4''],
     md_note = ''4 root '' @ [CHR 0xC4, CHR 0x91, CHR 0xC3, CHR 0xB3] @ ''ng vai tr'' @ [CHR 0xC3, CHR 0xB2]
       @ '' public inputs[2..5].''\<rparr>"

definition note_commitments :: string where
  "note_commitments = ''STATE-08 (extension) '' @ [CHR 0xE2, CHR 0x80, CHR 0x94] @ '' 4 commitment root bind batch v''
       @ [CHR 0xC3, CHR 0xA0] @ ''o proof public inputs[2..5].''"

definition gen_build_commitments :: gen_step where
  "gen_build_commitments g =
     (let com = build_commitments (g_update g);
          (dep_tag, wd_tag, nf_tag, wo_tag) = commitment_domain_tags in
      gen_file ''batch_commitments_batch_1.json''
        (batch_commitments_vector_json \<lparr>cv_batch_id = su_batch_id (g_update g), cv_commitments = com,
         cv_deposits_tag = dep_tag, cv_withdrawals_tag = wd_tag, cv_nullifiers_tag = nf_tag,
         cv_withdraw_outs_tag = wo_tag, cv_hash_algorithm = ''sha256'',
         cv_note = note_commitments\<rparr>)
        md_commitments
        (g\<lparr>g_commitments := com\<rparr>))"

definition md_witness :: file_meta where
  "md_witness = \<lparr>md_state_task = ''STATE-09'', md_schema = ''types.Witness'', md_consumers = [''P2''],
     md_note = ''Static vector: userSecret='' @ [CHR 0x27] @ ''alice_secret'' @ [CHR 0x27] @ ''. KH''
       @ [CHR 0xC3, CHR 0x81] @ ''C runtime fallback '' @ [CHR 0x27] @ ''mock-user-secret'' @ [CHR 0x27]
       @ '' (xem README).''\<rparr>"

definition gen_build_witness :: gen_step where
  "gen_build_witness g =
     (let new_balance = acc_balance (local_account (g_ls g) gen_alice gen_denom) in
      case build_witness \<lparr>wt_settlement = g_inputs g, wt_accounts = [\<lparr>aw_owner = gen_alice,
          aw_user_secret = gen_secret, aw_old_balance = g_old_balance g, aw_new_balance = new_balance\<rparr>],
          wt_state_path = []\<rparr> of
        Inl _ \<Rightarrow> die g ''build witness''
      | Inr wit \<Rightarrow>
       gen_file ''witness_batch_1.json'' (witness_json wit)
         md_witness
         (g\<lparr>g_witness := wit\<rparr>))"

definition md_public_inputs :: file_meta where
  "md_public_inputs = \<lparr>md_state_task = ''STATE-10'', md_schema = ''PublicInputsVector'', md_consumers = [''P1'', ''P2'', ''P4''],
     md_note = ''publicInputs[0..5] = (oldStateRoot, newStateRoot, depositsRoot, withdrawalsRoot, nullifiersRoot, withdrawOutputsRoot).''\<rparr>"

definition note_public_inputs :: string where
  "note_public_inputs = ''STATE-10 '' @ [CHR 0xE2, CHR 0x80, CHR 0x94]
       @ '' slice public input ordered theo Agreements (publicInputs[0..5]). P1 verifier / P2 circuit / P4 prover client ph''
       @ [CHR 0xE1, CHR 0xBA, CHR 0xA3] @ ''i '' @ [CHR 0xC4, CHR 0x91, CHR 0xE1, CHR 0xBB, CHR 0x8D]
       @ ''c '' @ [CHR 0xC4, CHR 0x91, CHR 0xC3, CHR 0xBA] @ ''ng th'' @ [CHR 0xE1, CHR 0xBB, CHR 0xA9]
       @ '' t'' @ [CHR 0xE1, CHR 0xBB, CHR 0xB1] @ '' n'' @ [CHR 0xC3, CHR 0xA0] @ ''y.''"

definition gen_build_public_inputs :: gen_step where
  "gen_build_public_inputs g = (case build_public_inputs (g_update g) (g_commitments g) of
       Inl _ \<Rightarrow> die g ''build public inputs''
     | Inr inputs \<Rightarrow>
       gen_file ''public_inputs_batch_1.json''
         (public_inputs_vector_json \<lparr>pv_batch_id = su_batch_id (g_update g), pv_count = int (length inputs),
          pv_labels = public_input_labels, pv_public_inputs = inputs,
          pv_note = note_public_inputs\<rparr>)
         md_public_inputs
         (g\<lparr>g_public_inputs := inputs\<rparr>))"

text \<open>The invariants the program checks of itself before it writes the manifest.\<close>

definition gen_post_checks :: gen_step where
  "gen_post_checks g = (let acc = local_account (g_ls g) gen_alice gen_denom in
     if acc_nonce acc \<noteq> wr_nonce (g_request g) then die g ''post-STATE-05 invariant violated''
     else if acc_balance acc \<noteq> ''60'' then die g ''post-STATE-05 balance''
     else Inr g)"

definition legacy_file :: string where
  "legacy_file = ''withdraw_address_hash_wd_1.json''"

definition gen_remove_legacy :: gen_step where
  "gen_remove_legacy g = (case os_remove_if_exists (g_fs g) (join_path (ow_dir (g_writer g)) legacy_file) of
     None \<Rightarrow> die g ''remove legacy'' | Some fs \<Rightarrow> Inr (g\<lparr>g_fs := fs\<rparr>))"

definition note_manifest :: string where
  "note_manifest = ''STATE-11 '' @ [CHR 0xE2, CHR 0x80, CHR 0x94]
       @ '' file inventory + SHA-256. Bump vectorVersion khi ZK-02 ch'' @ [CHR 0xE1, CHR 0xBB, CHR 0x91]
       @ ''t hash circuit. KH'' @ [CHR 0xC3, CHR 0x94] @ ''NG hand-edit; ch''
       @ [CHR 0xE1, CHR 0xBA, CHR 0xA1] @ ''y `go run ./p3/script-test/gen_state_vectors` ''
       @ [CHR 0xC4, CHR 0x91, CHR 0xE1, CHR 0xBB, CHR 0x83] @ '' regenerate.''"

definition gen_manifest_of :: "gen \<Rightarrow> manifest" where
  "gen_manifest_of g = (let (dep_tag, wd_tag, nf_tag, wo_tag) = commitment_domain_tags in
     \<lparr>mf_scenario = scenario_name,
      mf_description = ''Alice 100/40 canonical scenario: deposit 100 uusdc, withdraw 40 uusdc, final user balance = 60.'',
      mf_vector_version = gen_vector_version, mf_hash_algorithm = ''sha256'',
      mf_generator = ''p3/script-test/gen_state_vectors'',
      mf_alice = \<lparr>ma_address = gen_alice, ma_denom = gen_denom, ma_deposit_amount = ''100'',
        ma_withdraw_amount = ''40'', ma_starting_balance = ''1000'', ma_final_balance = ''60'', ma_module_final = ''60''\<rparr>,
      mf_roots = \<lparr>mr_root_a = g_root_a g, mr_root_b = g_root_b g, mr_root_c = g_root_c g\<rparr>,
      mf_domain_tags = \<lparr>mt_nullifier = nullifier_domain_tag, mt_withdraw_address = withdraw_address_domain_tag,
        mt_deposits_root = dep_tag, mt_withdrawals_root = wd_tag, mt_nullifiers_root = nf_tag,
        mt_withdraw_outputs_root = wo_tag\<rparr>,
      mf_files = [],
      mf_note = note_manifest\<rparr>)"

definition gen_manifest :: gen_step where
  "gen_manifest g = (case gen_emit_manifest (gen_manifest_of g) (g_fs g, g_writer g) of
     Inl e \<Rightarrow> Inl e | Inr fs \<Rightarrow> Inr (g\<lparr>g_fs := fs\<rparr>))"

definition happy_steps :: "gen_step list" where
  "happy_steps = [gen_initial, gen_deposit_record, gen_apply_deposit, gen_build_request, gen_derive_nullifier,
     gen_derive_destination, gen_apply_withdrawal, gen_settlement, gen_build_commitments, gen_build_witness,
     gen_build_public_inputs, gen_post_checks, gen_remove_legacy, gen_manifest]"

text \<open>\<^verbatim>\<open>main\<close> up to the failure vectors, in a working directory.\<close>

definition gen_happy :: "file_path \<Rightarrow> files \<Rightarrow> dead + gen" where
  "gen_happy cwd fs = (case os_mkdir_all fs (gen_out_dir cwd) of None \<Rightarrow> Inl (fs, ''mkdir'')
     | Some fs' \<Rightarrow> fold_res (\<lambda>g step. step g) (gen_zero fs' (gen_out_dir cwd)) happy_steps)"

end
