(* ===== verification/Failure_Generator.thy ===== *)
theory Failure_Generator
  imports Vector_Generator
begin

text \<open>
  \<^verbatim>\<open>gen_state_vectors/failure_vectors.go\<close>: the failure vectors, each the batch of the happy
  path with one mutation, and \<^verbatim>\<open>main\<close> as a whole.
\<close>

record failure_file_meta =
  fd_case :: string
  fd_schema :: string
  fd_consumers :: "string list"
  fd_note :: string

definition failure_entry :: "string \<Rightarrow> failure_file_meta \<Rightarrow> string \<Rightarrow> failure_manifest_entry" where
  "failure_entry name md digest = \<lparr>fe_name = name, fe_case = fd_case md, fe_schema = fd_schema md,
     fe_consumers = fd_consumers md, fe_sha256 = digest, fe_note = fd_note md\<rparr>"

type_synonym failure_writer = "files \<times> failure_manifest_entry out_writer"

definition failure_write :: "string \<Rightarrow> json \<Rightarrow> failure_file_meta \<Rightarrow> failure_writer \<Rightarrow> dead + failure_writer" where
  "failure_write name v md = write_vector (failure_entry name md) (fd_case md \<noteq> [] \<and> fd_schema md \<noteq> []) name v"

definition failure_emit_manifest :: "failure_manifest \<Rightarrow> failure_writer \<Rightarrow> dead + files" where
  "failure_emit_manifest m x = emit_file failure_manifest_file
     (failure_manifest_json (m\<lparr>ff_files := sort_key fe_name (ow_files (snd x))\<rparr>)) x"

record happy_artifacts =
  hp_root_a :: string
  hp_root_b :: string
  hp_root_c :: string
  hp_deposit :: deposit_record
  hp_request :: withdraw_request
  hp_nullifier :: string
  hp_destination_hash :: string
  hp_settlement :: settlement_update
  hp_commitments :: batch_commitments

definition sha256_hex32 :: "string \<Rightarrow> string" where
  "sha256_hex32 s = hex_encode (sha256_sum s)"

text \<open>Values are copied, so a clone is the value itself.\<close>

definition clone_settlement :: "settlement_update \<Rightarrow> settlement_update" where
  "clone_settlement src = src"

subsection \<open>The vectors\<close>

definition over_withdraw_meta :: failure_meta where
  "over_withdraw_meta = \<lparr>fm_case = case_over_withdraw,
     fm_title = ''Over-withdraw '' @ [CHR 0xE2, CHR 0x80, CHR 0x94] @ '' Alice c''
       @ [CHR 0xE1, CHR 0xBB, CHR 0x91] @ '' r'' @ [CHR 0xC3, CHR 0xBA] @ ''t v''
       @ [CHR 0xC6, CHR 0xB0, CHR 0xE1, CHR 0xBB, CHR 0xA3] @ ''t balance'',
     fm_description = ''Alice v'' @ [CHR 0xE1, CHR 0xBB, CHR 0xAB] @ ''a deposit 100, balance off-chain = 100, nh''
       @ [CHR 0xC6, CHR 0xB0] @ ''ng intent ghi amount=200. B'' @ [CHR 0xE1, CHR 0xBA, CHR 0xA5]
       @ ''t k'' @ [CHR 0xE1, CHR 0xBB, CHR 0xB3] @ '' pipeline n'' @ [CHR 0xC3, CHR 0xA0] @ ''o d''
       @ [CHR 0xE1, CHR 0xBA, CHR 0xAB] @ ''n intent qua STATE-04 builder ho''
       @ [CHR 0xE1, CHR 0xBA, CHR 0xB7] @ ''c tr'' @ [CHR 0xE1, CHR 0xBB, CHR 0xB1] @ ''c ti''
       @ [CHR 0xE1, CHR 0xBA, CHR 0xBF] @ ''p STATE-05 ''
       @ [CHR 0xC4, CHR 0x91, CHR 0xE1, CHR 0xBB, CHR 0x81] @ ''u ph'' @ [CHR 0xE1, CHR 0xBA, CHR 0xA3]
       @ ''i reject ngay t'' @ [CHR 0xE1, CHR 0xBA, CHR 0xA1] @ ''i stage validate balance.'',
     fm_violated_invariant = ''off-chain balance '' @ [CHR 0xE2, CHR 0x89, CHR 0xA5]
       @ '' withdraw amount (state.ErrInsufficientBalance)'',
     fm_happy_path_reference = scenario_name,
     fm_mutation = ''Intent.Amount = '' @ [CHR 0x27] @ ''200'' @ [CHR 0x27] @ '' (v''
       @ [CHR 0xC6, CHR 0xB0, CHR 0xE1, CHR 0xBB, CHR 0xA3] @ ''t balance=100). M''
       @ [CHR 0xE1, CHR 0xBB, CHR 0x8D] @ ''i field kh'' @ [CHR 0xC3, CHR 0xA1] @ ''c gi''
       @ [CHR 0xE1, CHR 0xBB, CHR 0xAF] @ '' y h'' @ [CHR 0xE1, CHR 0xBB, CHR 0x87]
       @ ''t withdraw_request_wd_1 happy path.'',
     fm_rejection = \<lparr>fr_stage = stage_request_builder, fr_sentinel = ''state.ErrInsufficientBalance'',
       fr_message_contains = ''insufficient balance'',
       fr_note = ''STATE-05 ApplyWithdrawal c'' @ [CHR 0xC5, CHR 0xA9] @ ''ng reject v''
       @ [CHR 0xE1, CHR 0xBB, CHR 0x9B] @ ''i c'' @ [CHR 0xC3, CHR 0xB9] @ ''ng sentinel n''
       @ [CHR 0xE1, CHR 0xBA, CHR 0xBF] @ ''u pipeline skip STATE-04 v'' @ [CHR 0xC3, CHR 0xA0] @ '' ''
       @ [CHR 0xC4, CHR 0x91, CHR 0xE1, CHR 0xBA, CHR 0xA9] @ ''y th'' @ [CHR 0xE1, CHR 0xBA, CHR 0xB3]
       @ ''ng request gi'' @ [CHR 0xE1, CHR 0xBA, CHR 0xA3] @ '' m'' @ [CHR 0xE1, CHR 0xBA, CHR 0xA1]
       @ ''o (amount=200) v'' @ [CHR 0xC3, CHR 0xA0] @ ''o ApplyWithdrawal.''\<rparr>,
     fm_consumers = [''P3'', ''P4'']\<rparr>"

definition over_withdraw_of :: "happy_artifacts \<Rightarrow> account \<Rightarrow> over_withdraw_vector" where
  "over_withdraw_of hp acc = \<lparr>ov_meta = over_withdraw_meta, ov_account_snapshot = acc,
     ov_intent = \<lparr>iv_owner = wr_owner (hp_request hp), iv_denom = wr_denom (hp_request hp), iv_amount = ''200'',
       iv_destination = wr_destination (hp_request hp)\<rparr>\<rparr>"

definition fd_over_withdraw :: failure_file_meta where
  "fd_over_withdraw = \<lparr>fd_case = case_over_withdraw, fd_schema = ''OverWithdrawVector'', fd_consumers = [''P3'', ''P4''],
     fd_note = ''STATE-04 builder reject ngay balance check, kh'' @ [CHR 0xC3, CHR 0xB4] @ ''ng c''
       @ [CHR 0xE1, CHR 0xBA, CHR 0xA7] @ ''n invoke STATE-05.''\<rparr>"

definition emit_over_withdraw :: "happy_artifacts \<Rightarrow> failure_writer \<Rightarrow> dead + failure_writer" where
  "emit_over_withdraw hp x = (case apply_deposit new_local_state (hp_deposit hp) of
       Inl _ \<Rightarrow> Inl (fst x, ''over_withdraw: re-apply deposit'')
     | Inr (ls, _) \<Rightarrow>
       failure_write file_over_withdraw
         (over_withdraw_vector_json (over_withdraw_of hp (local_account ls (wr_owner (hp_request hp)) (wr_denom (hp_request hp)))))
         fd_over_withdraw x)"

definition wrong_root_meta :: failure_meta where
  "wrong_root_meta = \<lparr>fm_case = case_wrong_root,
     fm_title = ''Wrong root '' @ [CHR 0xE2, CHR 0x80, CHR 0x94]
       @ '' relayer submit SettlementUpdate.OldStateRoot l'' @ [CHR 0xE1, CHR 0xBB, CHR 0x87] @ ''ch'',
     fm_description = ''Settlement update gi'' @ [CHR 0xE1, CHR 0xBB, CHR 0xAF] @ '' nguy'' @ [CHR 0xC3, CHR 0xAA]
       @ ''n deposits/withdrawals c'' @ [CHR 0xE1, CHR 0xBB, CHR 0xA7] @ ''a batch-1 happy path nh''
       @ [CHR 0xC6, CHR 0xB0] @ ''ng OldStateRoot b'' @ [CHR 0xE1, CHR 0xBB, CHR 0x8B] @ '' thay b''
       @ [CHR 0xE1, CHR 0xBA, CHR 0xB1] @ ''ng gi'' @ [CHR 0xC3, CHR 0xA1] @ '' tr''
       @ [CHR 0xE1, CHR 0xBB, CHR 0x8B] @ '' placeholder (KH'' @ [CHR 0xC3, CHR 0x94] @ ''NG kh''
       @ [CHR 0xE1, CHR 0xBB, CHR 0x9B] @ ''p currentStateRoot=rootB c''
       @ [CHR 0xE1, CHR 0xBB, CHR 0xA7] @ ''a chain). Chain verifier ph''
       @ [CHR 0xE1, CHR 0xBA, CHR 0xA3] @ ''i reject TR''
       @ [CHR 0xC6, CHR 0xAF, CHR 0xE1, CHR 0xBB, CHR 0x9A] @ ''C khi g''
       @ [CHR 0xE1, CHR 0xBB, CHR 0x8D] @ ''i VerifyProof.'',
     fm_violated_invariant = ''SettlementUpdate.OldStateRoot == x/zkdex.currentStateRoot'',
     fm_happy_path_reference = scenario_name,
     fm_mutation = ''tamperedSettlement.OldStateRoot = SHA256('' @ [CHR 0x27] @ ''STATE-12/wrong_root/oldStateRoot''
       @ [CHR 0x27] @ '') (deterministic, '' @ [CHR 0xE2, CHR 0x89, CHR 0xA0] @ '' rootB).'',
     fm_rejection = \<lparr>fr_stage = stage_chain_verifier, fr_sentinel = ''x/zkdex: ErrStaleStateRoot (P1 ONCHAIN-08)'',
       fr_message_contains = ''oldStateRoot'',
       fr_note = ''Verifier reject '' @ [CHR 0xE1, CHR 0xBB, CHR 0x9F] @ '' ONCHAIN-08 tr''
       @ [CHR 0xC6, CHR 0xB0, CHR 0xE1, CHR 0xBB, CHR 0x9B] @ ''c khi proof verify ch''
       @ [CHR 0xE1, CHR 0xBA, CHR 0xA1] @ ''y. STATE-10 PublicInputBuilder v''
       @ [CHR 0xE1, CHR 0xBA, CHR 0xAB] @ ''n build ''
       @ [CHR 0xC4, CHR 0x91, CHR 0xC6, CHR 0xB0, CHR 0xE1, CHR 0xBB, CHR 0xA3] @ ''c publicInputs[] v''
       @ [CHR 0xC3, CHR 0xAC] @ '' validateHex pass '' @ [CHR 0xE2, CHR 0x80, CHR 0x94] @ '' sai s''
       @ [CHR 0xC3, CHR 0xB3] @ ''t v'' @ [CHR 0xE1, CHR 0xBB, CHR 0x81] @ '' SEMANTIC root ch''
       @ [CHR 0xE1, CHR 0xBB, CHR 0x89] @ '' chain m'' @ [CHR 0xE1, CHR 0xBB, CHR 0x9B] @ ''i ''
       @ [CHR 0xC4, CHR 0x91, CHR 0xE1, CHR 0xBB, CHR 0x91] @ ''i chi'' @ [CHR 0xE1, CHR 0xBA, CHR 0xBF]
       @ ''u '' @ [CHR 0xC4, CHR 0x91, CHR 0xC6, CHR 0xB0, CHR 0xE1, CHR 0xBB, CHR 0xA3] @ ''c.''\<rparr>,
     fm_consumers = [''P1'', ''P4'']\<rparr>"

definition wrong_old_root :: string where
  "wrong_old_root = ''0x'' @ sha256_hex32 ''STATE-12/wrong_root/oldStateRoot''"

definition wrong_root_settlement :: "happy_artifacts \<Rightarrow> settlement_update" where
  "wrong_root_settlement hp = (clone_settlement (hp_settlement hp))\<lparr>su_old_root := wrong_old_root\<rparr>"

definition fd_wrong_root :: failure_file_meta where
  "fd_wrong_root = \<lparr>fd_case = case_wrong_root, fd_schema = ''WrongRootVector'', fd_consumers = [''P1'', ''P4''],
     fd_note = ''Reject '' @ [CHR 0xE1, CHR 0xBB, CHR 0x9F] @ '' ONCHAIN-08 (chain), kh'' @ [CHR 0xC3, CHR 0xB4]
       @ ''ng ph'' @ [CHR 0xE1, CHR 0xBA, CHR 0xA3] @ ''i '' @ [CHR 0xE1, CHR 0xBB, CHR 0x9F]
       @ '' P3 builder.''\<rparr>"

definition emit_wrong_root :: "happy_artifacts \<Rightarrow> failure_writer \<Rightarrow> dead + failure_writer" where
  "emit_wrong_root hp x = (let tampered = wrong_root_settlement hp; com = build_commitments tampered in
     case build_public_inputs tampered com of Inl _ \<Rightarrow> Inl (fst x, ''wrong_root: build public inputs'')
     | Inr pi \<Rightarrow>
       failure_write file_wrong_root
         (wrong_root_vector_json \<lparr>wv_meta = wrong_root_meta, wv_correct_old_root = hp_root_b hp,
          wv_tampered = tampered, wv_commitments = com, wv_public_inputs = pi\<rparr>)
         fd_wrong_root x)"

definition duplicate_meta :: failure_meta where
  "duplicate_meta = \<lparr>fm_case = case_duplicate_nullifier,
     fm_title = ''Duplicate nullifier '' @ [CHR 0xE2, CHR 0x80, CHR 0x94] @ '' withdrawal th''
       @ [CHR 0xE1, CHR 0xBB, CHR 0xA9] @ '' hai reuse nullifier wd-1 trong c'' @ [CHR 0xC3, CHR 0xB9]
       @ ''ng batch'',
     fm_description = ''Settlement update c'' @ [CHR 0xC3, CHR 0xB3] @ '' 2 withdrawals[]: wd-1 (happy path) v''
       @ [CHR 0xC3, CHR 0xA0] @ '' wd-2-replay (clone nullifier + destinationHash c''
       @ [CHR 0xE1, CHR 0xBB, CHR 0xA7] @ ''a wd-1). Chain ph'' @ [CHR 0xE1, CHR 0xBA, CHR 0xA3]
       @ ''i reject v'' @ [CHR 0xC3, CHR 0xAC] @ '' nullifier xu'' @ [CHR 0xE1, CHR 0xBA, CHR 0xA5]
       @ ''t hi'' @ [CHR 0xE1, CHR 0xBB, CHR 0x87] @ ''n 2 l'' @ [CHR 0xE1, CHR 0xBA, CHR 0xA7]
       @ ''n trong c'' @ [CHR 0xC3, CHR 0xB9] @ ''ng batch '' @ [CHR 0xE2, CHR 0x80, CHR 0x94]
       @ '' cross-batch replay (nullifierUsed[n] '' @ [CHR 0xC4, CHR 0x91, CHR 0xC3, CHR 0xA3]
       @ '' true) thu'' @ [CHR 0xE1, CHR 0xBB, CHR 0x99] @ ''c c'' @ [CHR 0xC3, CHR 0xB9]
       @ ''ng family invariant.'',
     fm_violated_invariant = ''Trong batch v'' @ [CHR 0xC3, CHR 0xA0] @ '' xuy'' @ [CHR 0xC3, CHR 0xAA] @ ''n batch, m''
       @ [CHR 0xE1, CHR 0xBB, CHR 0x97] @ ''i nullifier ch'' @ [CHR 0xE1, CHR 0xBB, CHR 0x89] @ '' ''
       @ [CHR 0xC4, CHR 0x91, CHR 0xC6, CHR 0xB0, CHR 0xE1, CHR 0xBB, CHR 0xA3] @ ''c s''
       @ [CHR 0xE1, CHR 0xBB, CHR 0xAD] @ '' d'' @ [CHR 0xE1, CHR 0xBB, CHR 0xA5] @ ''ng t''
       @ [CHR 0xE1, CHR 0xBB, CHR 0x91] @ ''i '' @ [CHR 0xC4, CHR 0x91] @ ''a m''
       @ [CHR 0xE1, CHR 0xBB, CHR 0x99] @ ''t l'' @ [CHR 0xE1, CHR 0xBA, CHR 0xA7]
       @ ''n (nullifierUsed[nullifier] == false tr''
       @ [CHR 0xC6, CHR 0xB0, CHR 0xE1, CHR 0xBB, CHR 0x9B] @ ''c khi apply).'',
     fm_happy_path_reference = scenario_name,
     fm_mutation = ''Append withdrawals[1] = {withdrawId:'' @ [CHR 0x27] @ ''wd-2-replay'' @ [CHR 0x27]
       @ '', amount:'' @ [CHR 0x27] @ ''20'' @ [CHR 0x27]
       @ '', nullifier: <happy path>, destinationHash: <happy path>'' @ [CHR 0x7D] @ ''; m''
       @ [CHR 0xE1, CHR 0xBB, CHR 0x8D] @ ''i field kh'' @ [CHR 0xC3, CHR 0xA1] @ ''c gi''
       @ [CHR 0xE1, CHR 0xBB, CHR 0xAF] @ '' nguy'' @ [CHR 0xC3, CHR 0xAA] @ ''n wd-1.'',
     fm_rejection = \<lparr>fr_stage = stage_chain_verifier, fr_sentinel = ''x/zkdex: ErrNullifierReplay (P1 ONCHAIN-08)'',
       fr_message_contains = ''nullifier'',
       fr_note = ''STATE-05 c'' @ [CHR 0xC5, CHR 0xA9] @ ''ng reject v'' @ [CHR 0xE1, CHR 0xBB, CHR 0x9B]
       @ ''i state.ErrWithdrawAlreadyApplied n'' @ [CHR 0xE1, CHR 0xBA, CHR 0xBF] @ ''u pipeline th''
       @ [CHR 0xE1, CHR 0xBB, CHR 0xAD] @ '' apply tu'' @ [CHR 0xE1, CHR 0xBA, CHR 0xA7] @ ''n t''
       @ [CHR 0xE1, CHR 0xBB, CHR 0xB1] @ '' '' @ [CHR 0xE2, CHR 0x80, CHR 0x94]
       @ '' sentinel state-side kh'' @ [CHR 0xC3, CHR 0xA1] @ ''c chain-side, nh''
       @ [CHR 0xC6, CHR 0xB0] @ ''ng c'' @ [CHR 0xC3, CHR 0xB9]
       @ ''ng family invariant. P3 batch.LocalBuilder.Build hi'' @ [CHR 0xE1, CHR 0xBB, CHR 0x87]
       @ ''n reject '' @ [CHR 0xE1, CHR 0xBB, CHR 0x9F] @ '' STATE-05 v''
       @ [CHR 0xE1, CHR 0xBB, CHR 0x9B] @ ''i ErrInvalidBuildInput wrap.''\<rparr>,
     fm_consumers = [''P1'', ''P3'', ''P4'']\<rparr>"

text \<open>\<^verbatim>\<open>tampered.Withdrawals[0]\<close> is an index panic where the batch has no withdrawal.\<close>

definition replay_settlement :: "happy_artifacts \<Rightarrow> settlement_update option" where
  "replay_settlement hp = (let tampered = clone_settlement (hp_settlement hp) in
     case su_withdrawals tampered of [] \<Rightarrow> None
     | replay # _ \<Rightarrow> Some (tampered\<lparr>su_withdrawals :=
         su_withdrawals tampered @ [replay\<lparr>sw_id := ''wd-2-replay'', sw_amount := ''20''\<rparr>]\<rparr>))"

definition fd_duplicate :: failure_file_meta where
  "fd_duplicate = \<lparr>fd_case = case_duplicate_nullifier, fd_schema = ''DuplicateNullifierVector'',
     fd_consumers = [''P1'', ''P3'', ''P4''],
     fd_note = ''Reject '' @ [CHR 0xE1, CHR 0xBB, CHR 0x9F] @ '' chain dup check (ONCHAIN-08) HO''
       @ [CHR 0xE1, CHR 0xBA, CHR 0xB6] @ ''C state.ErrWithdrawAlreadyApplied khi apply tu''
       @ [CHR 0xE1, CHR 0xBA, CHR 0xA7] @ ''n t'' @ [CHR 0xE1, CHR 0xBB, CHR 0xB1] @ ''.''\<rparr>"

definition emit_duplicate_nullifier :: "happy_artifacts \<Rightarrow> failure_writer \<Rightarrow> dead + failure_writer" where
  "emit_duplicate_nullifier hp x = (case replay_settlement hp of
       None \<Rightarrow> Inl (fst x, ''panic: index out of range'')
     | Some tampered \<Rightarrow> let com = build_commitments tampered in
     case build_public_inputs tampered com of Inl _ \<Rightarrow> Inl (fst x, ''duplicate_nullifier: build public inputs'')
     | Inr pi \<Rightarrow>
       failure_write file_duplicate_nullifier
         (duplicate_nullifier_vector_json \<lparr>nn_meta = duplicate_meta, nn_nullifier = hp_nullifier hp,
          nn_update = tampered, nn_commitments = com, nn_public_inputs = pi\<rparr>)
         fd_duplicate x)"

definition attacker_addr :: string where
  "attacker_addr = ''cosmos1attacker0000000000000000000000xxxxx''"

definition tampered_meta :: failure_meta where
  "tampered_meta = \<lparr>fm_case = case_tampered_destination,
     fm_title = ''Tampered destination '' @ [CHR 0xE2, CHR 0x80, CHR 0x94] @ '' relayer ''
       @ [CHR 0xC4, CHR 0x91, CHR 0xE1, CHR 0xBB, CHR 0x95] @ ''i destination nh''
       @ [CHR 0xC6, CHR 0xB0] @ ''ng KH'' @ [CHR 0xC3, CHR 0x94] @ ''NG ''
       @ [CHR 0xC4, CHR 0x91, CHR 0xE1, CHR 0xBB, CHR 0x95] @ ''i destinationHash'',
     fm_description = ''Relayer c'' @ [CHR 0xE1, CHR 0xBB, CHR 0x91] @ '' redirect 40 uusdc c''
       @ [CHR 0xE1, CHR 0xBB, CHR 0xA7] @ ''a Alice sang attacker b'' @ [CHR 0xE1, CHR 0xBA, CHR 0xB1]
       @ ''ng c'' @ [CHR 0xC3, CHR 0xA1] @ ''ch '' @ [CHR 0xC4, CHR 0x91, CHR 0xE1, CHR 0xBB, CHR 0x95]
       @ ''i withdrawals[0].Destination, nh'' @ [CHR 0xC6, CHR 0xB0] @ ''ng qu'' @ [CHR 0xC3, CHR 0xAA]
       @ ''n / kh'' @ [CHR 0xC3, CHR 0xB4] @ ''ng th'' @ [CHR 0xE1, CHR 0xBB, CHR 0x83]
       @ '' recompute destinationHash (v'' @ [CHR 0xC3, CHR 0xAC] @ '' c''
       @ [CHR 0xE1, CHR 0xBA, CHR 0xA7] @ ''n userSecret + circuit hash). Verifier ph''
       @ [CHR 0xE1, CHR 0xBA, CHR 0xA3] @ ''i recompute H(destination) v'' @ [CHR 0xC3, CHR 0xA0]
       @ '' '' @ [CHR 0xC4, CHR 0x91, CHR 0xE1, CHR 0xBB, CHR 0x91] @ ''i chi''
       @ [CHR 0xE1, CHR 0xBA, CHR 0xBF] @ ''u DestinationHash ''
       @ [CHR 0xC4, CHR 0x91, CHR 0xE1, CHR 0xBB, CHR 0x83] @ '' b'' @ [CHR 0xE1, CHR 0xBA, CHR 0xAF]
       @ ''t mismatch.'',
     fm_violated_invariant = ''destinationHash == H(domain | destination) trong settlement (ZK-07 binding).'',
     fm_happy_path_reference = scenario_name,
     fm_mutation = ''tamperedSettlement.Withdrawals[0].Destination = '' @ [CHR 0x27] @ attacker_addr
       @ [CHR 0x27] @ '', DestinationHash gi'' @ [CHR 0xE1, CHR 0xBB, CHR 0xAF] @ '' nguy''
       @ [CHR 0xC3, CHR 0xAA] @ ''n = hash c'' @ [CHR 0xE1, CHR 0xBB, CHR 0xA7] @ ''a '' @ [CHR 0x27]
       @ ''cosmos1alice'' @ [CHR 0x27] @ ''.'',
     fm_rejection = \<lparr>fr_stage = stage_circuit_binding, fr_sentinel = ''P2 circuit: destinationHash binding (ZK-07)'',
       fr_message_contains = ''destinationHash'',
       fr_note = ''P1 verifier c'' @ [CHR 0xC3, CHR 0xB3] @ '' th'' @ [CHR 0xE1, CHR 0xBB, CHR 0x83]
       @ '' recompute H(destination) on-chain '' @ [CHR 0xC4, CHR 0x91, CHR 0xE1, CHR 0xBB, CHR 0x83]
       @ '' fail-fast TR'' @ [CHR 0xC6, CHR 0xAF, CHR 0xE1, CHR 0xBB, CHR 0x9A] @ ''C proof verify ''
       @ [CHR 0xE2, CHR 0x80, CHR 0x94] @ '' STATE-12 cung c'' @ [CHR 0xE1, CHR 0xBA, CHR 0xA5] @ ''p ''
       @ [CHR 0xC4, CHR 0x91, CHR 0xE1, CHR 0xBB, CHR 0xA7] @ '' payload cho c''
       @ [CHR 0xE1, CHR 0xBA, CHR 0xA3] @ '' hai lo'' @ [CHR 0xE1, CHR 0xBA, CHR 0xA1] @ ''i check.''\<rparr>,
     fm_consumers = [''P1'', ''P2'', ''P4'']\<rparr>"

definition tampered_settlement :: "happy_artifacts \<Rightarrow> settlement_update option" where
  "tampered_settlement hp = (let tampered = clone_settlement (hp_settlement hp) in
     case su_withdrawals tampered of [] \<Rightarrow> None
     | w # ws \<Rightarrow> Some (tampered\<lparr>su_withdrawals := w\<lparr>sw_destination := attacker_addr\<rparr> # ws\<rparr>))"

definition fd_tampered :: failure_file_meta where
  "fd_tampered = \<lparr>fd_case = case_tampered_destination, fd_schema = ''TamperedDestinationVector'',
     fd_consumers = [''P1'', ''P2'', ''P4''],
     fd_note = ''Reject '' @ [CHR 0xE1, CHR 0xBB, CHR 0x9F] @ '' ZK circuit binding (ZK-07) ho''
       @ [CHR 0xE1, CHR 0xBA, CHR 0xB7] @ ''c P1 verifier on-chain recompute hash.''\<rparr>"

definition emit_tampered_destination :: "happy_artifacts \<Rightarrow> failure_writer \<Rightarrow> dead + failure_writer" where
  "emit_tampered_destination hp x = (case tampered_settlement hp of
       None \<Rightarrow> Inl (fst x, ''panic: index out of range'')
     | Some tampered \<Rightarrow> let com = build_commitments tampered in
     case build_public_inputs tampered com of Inl _ \<Rightarrow> Inl (fst x, ''tampered_destination: build public inputs'')
     | Inr pi \<Rightarrow>
       failure_write file_tampered_destination
         (tampered_destination_vector_json \<lparr>tv_meta = tampered_meta,
          tv_original = wr_destination (hp_request hp), tv_tampered = attacker_addr,
          tv_original_hash = hp_destination_hash hp, tv_settlement = tampered, tv_commitments = com,
          tv_public_inputs = pi\<rparr>)
         fd_tampered x)"

subsection \<open>The folder and main\<close>

definition failure_manifest_of :: "happy_artifacts \<Rightarrow> failure_manifest" where
  "failure_manifest_of hp = \<lparr>ff_scenario = scenario_name, ff_subfolder = failure_subdir,
     ff_description = ''STATE-12 '' @ [CHR 0xE2, CHR 0x80, CHR 0x94] @ '' b'' @ [CHR 0xE1, CHR 0xBB, CHR 0x91]
       @ ''n negative vector canonical cho lu'' @ [CHR 0xE1, CHR 0xBB, CHR 0x93]
       @ ''ng Alice 100/40. M'' @ [CHR 0xE1, CHR 0xBB, CHR 0x97] @ ''i file l'' @ [CHR 0xC3, CHR 0xA0]
       @ '' m'' @ [CHR 0xE1, CHR 0xBB, CHR 0x99] @ ''t input PH'' @ [CHR 0xE1, CHR 0xBA, CHR 0xA2]
       @ ''I b'' @ [CHR 0xE1, CHR 0xBB, CHR 0x8B] @ '' reject '' @ [CHR 0xE1, CHR 0xBB, CHR 0x9F]
       @ '' stage ch'' @ [CHR 0xE1, CHR 0xBB, CHR 0x89] @ '' ''
       @ [CHR 0xC4, CHR 0x91, CHR 0xE1, CHR 0xBB, CHR 0x8B] @ ''nh.'',
     ff_vector_version = gen_vector_version, ff_hash_algorithm = ''sha256'',
     ff_generator = ''p3/script-test/gen_state_vectors'',
     ff_happy_roots = \<lparr>mr_root_a = hp_root_a hp, mr_root_b = hp_root_b hp, mr_root_c = hp_root_c hp\<rparr>,
     ff_files = [],
     ff_note = ''STATE-12 '' @ [CHR 0xE2, CHR 0x80, CHR 0x94]
       @ '' file inventory + SHA-256 cho failure_vectors. KH'' @ [CHR 0xC3, CHR 0x94]
       @ ''NG hand-edit; ch'' @ [CHR 0xE1, CHR 0xBA, CHR 0xA1]
       @ ''y `go run ./p3/script-test/gen_state_vectors` ''
       @ [CHR 0xC4, CHR 0x91, CHR 0xE1, CHR 0xBB, CHR 0x83] @ '' regenerate.''\<rparr>"

definition failure_steps :: "happy_artifacts \<Rightarrow> (failure_writer \<Rightarrow> dead + failure_writer) list" where
  "failure_steps hp = [emit_over_withdraw hp, emit_wrong_root hp, emit_duplicate_nullifier hp, emit_tampered_destination hp]"

definition emit_failure_vectors :: "file_path \<Rightarrow> happy_artifacts \<Rightarrow> files \<Rightarrow> dead + files" where
  "emit_failure_vectors scenario hp fs = (let sub_dir = join_path scenario failure_subdir in
     case os_mkdir_all fs sub_dir of None \<Rightarrow> Inl (fs, ''mkdir failure subdir'')
     | Some fs' \<Rightarrow> (case fold_res (\<lambda>x step. step x) (fs', new_out_writer sub_dir) (failure_steps hp) of
         Inl e \<Rightarrow> Inl e
       | Inr x \<Rightarrow> failure_emit_manifest (failure_manifest_of hp) x))"

definition artifacts_of :: "gen \<Rightarrow> happy_artifacts" where
  "artifacts_of g = \<lparr>hp_root_a = g_root_a g, hp_root_b = g_root_b g, hp_root_c = g_root_c g,
     hp_deposit = g_deposit g, hp_request = g_request g, hp_nullifier = g_nullifier g,
     hp_destination_hash = g_destination_hash g, hp_settlement = g_update g, hp_commitments = g_commitments g\<rparr>"

definition gen_main :: "file_path \<Rightarrow> files \<Rightarrow> dead + files" where
  "gen_main cwd fs = (case gen_happy cwd fs of Inl e \<Rightarrow> Inl e
     | Inr g \<Rightarrow> emit_failure_vectors (gen_out_dir cwd) (artifacts_of g) (g_fs g))"

end
