(* ===== verification/Sha_Eval.thy ===== *)
theory Sha_Eval
  imports Go_Hash
begin

text \<open>
  Evaluation of the digest on concrete messages. A word is the list of its bits, the least
  significant first; the functions of the compression function become functions on bit lists, whose
  ground rules the simplifier applies. Nothing is trusted: \<open>sha_eval\<close> rewrites the definitions of
  \<open>Go_Hash\<close>.
\<close>

subsection \<open>Words as bit lists\<close>

definition u32_bits :: "bool list \<Rightarrow> u32" where
  "u32_bits bs = horner_sum of_bool 2 bs"

lemma bit_bits: "bit (u32_bits bs) n \<longleftrightarrow> n < 32 \<and> n < length bs \<and> bs ! n"
  by (auto simp: u32_bits_def bit_horner_sum_bit_word_iff)

lemma bits_eqI: "(\<And>n. n < 32 \<Longrightarrow> bit v n \<longleftrightarrow> bit (w :: u32) n) \<Longrightarrow> v = w"
  by (rule bit_word_eqI) simp

definition bit_xor3 :: "bool \<Rightarrow> bool \<Rightarrow> bool \<Rightarrow> bool" where
  "bit_xor3 a b c \<longleftrightarrow> a \<noteq> (b \<noteq> c)"

definition bit_choose :: "bool \<Rightarrow> bool \<Rightarrow> bool \<Rightarrow> bool" where
  "bit_choose a b c \<longleftrightarrow> (if a then b else c)"

definition bit_majority :: "bool \<Rightarrow> bool \<Rightarrow> bool \<Rightarrow> bool" where
  "bit_majority a b c \<longleftrightarrow> (if a then b \<or> c else b \<and> c)"

fun map3 :: "('a \<Rightarrow> 'a \<Rightarrow> 'a \<Rightarrow> 'b) \<Rightarrow> 'a list \<Rightarrow> 'a list \<Rightarrow> 'a list \<Rightarrow> 'b list" where
  "map3 f (x # xs) (y # ys) (z # zs) = f x y z # map3 f xs ys zs"
| "map3 f xs ys zs = []"

lemma length_map3: "length ys = length xs \<Longrightarrow> length zs = length xs \<Longrightarrow> length (map3 f xs ys zs) = length xs"
  by (induction f xs ys zs rule: map3.induct) simp_all

lemma nth_map3:
  "length ys = length xs \<Longrightarrow> length zs = length xs \<Longrightarrow> n < length xs
     \<Longrightarrow> map3 f xs ys zs ! n = f (xs ! n) (ys ! n) (zs ! n)"
proof (induction f xs ys zs arbitrary: n rule: map3.induct)
  case (1 f x xs y ys z zs)
  then show ?case by (cases n) simp_all
qed simp_all

definition shift_bits :: "nat \<Rightarrow> bool list \<Rightarrow> bool list" where
  "shift_bits n bs = drop n bs @ replicate n False"

lemma rotr_bits: "length bs = 32 \<Longrightarrow> n < 32 \<Longrightarrow> sha_rotr n (u32_bits bs) = u32_bits (rotate n bs)"
  by (rule bits_eqI) (auto simp: sha_rotr_def bit_simps bit_bits nth_rotate mod_if add.commute)

lemma drop_bits: "length bs = 32 \<Longrightarrow> n < 32 \<Longrightarrow> drop_bit n (u32_bits bs) = u32_bits (shift_bits n bs)"
  by (rule bits_eqI) (auto simp: bit_simps bit_bits shift_bits_def nth_append)

lemma xor3_bits:
  "length as = 32 \<Longrightarrow> length bs = 32 \<Longrightarrow> length cs = 32
     \<Longrightarrow> u32_bits as XOR u32_bits bs XOR u32_bits cs = u32_bits (map3 bit_xor3 as bs cs)"
  by (rule bits_eqI) (auto simp: bit_simps bit_bits nth_map3 length_map3 bit_xor3_def)

lemma sigma_bits:
  assumes "length bs = 32"
  shows "sha_big0 (u32_bits bs) = u32_bits (map3 bit_xor3 (rotate 2 bs) (rotate 13 bs) (rotate 22 bs))"
    and "sha_big1 (u32_bits bs) = u32_bits (map3 bit_xor3 (rotate 6 bs) (rotate 11 bs) (rotate 25 bs))"
    and "sha_small0 (u32_bits bs) = u32_bits (map3 bit_xor3 (rotate 7 bs) (rotate 18 bs) (shift_bits 3 bs))"
    and "sha_small1 (u32_bits bs) = u32_bits (map3 bit_xor3 (rotate 17 bs) (rotate 19 bs) (shift_bits 10 bs))"
  using assms by (simp_all add: sha_big0_def sha_big1_def sha_small0_def sha_small1_def rotr_bits drop_bits
      xor3_bits shift_bits_def)

lemma choose_bits:
  "length as = 32 \<Longrightarrow> length bs = 32 \<Longrightarrow> length cs = 32
     \<Longrightarrow> sha_choose (u32_bits as) (u32_bits bs) (u32_bits cs) = u32_bits (map3 bit_choose as bs cs)"
  by (rule bits_eqI) (auto simp: sha_choose_def bit_simps bit_bits nth_map3 length_map3 bit_choose_def)

lemma majority_bits:
  "length as = 32 \<Longrightarrow> length bs = 32 \<Longrightarrow> length cs = 32
     \<Longrightarrow> sha_majority (u32_bits as) (u32_bits bs) (u32_bits cs) = u32_bits (map3 bit_majority as bs cs)"
  by (rule bits_eqI) (auto simp: sha_majority_def bit_simps bit_bits nth_map3 length_map3 bit_majority_def)

text \<open>Addition carries from the least significant bit up.\<close>

fun add_bits :: "bool \<Rightarrow> bool list \<Rightarrow> bool list \<Rightarrow> bool list" where
  "add_bits c (a # as) (b # bs) = bit_xor3 a b c # add_bits (bit_majority a b c) as bs"
| "add_bits c as bs = []"

definition nat_bits :: "bool list \<Rightarrow> nat" where
  "nat_bits bs = horner_sum of_bool 2 bs"

lemma bits_of_nat: "u32_bits bs = of_nat (nat_bits bs)"
  unfolding u32_bits_def nat_bits_def by (induction bs) simp_all

lemma nat_bits_add:
  "length as = length bs \<Longrightarrow> \<exists>k. nat_bits as + nat_bits bs + of_bool c = nat_bits (add_bits c as bs) + k * 2 ^ length as"
proof (induction as arbitrary: bs c)
  case Nil
  then show ?case by (auto simp: nat_bits_def)
next
  case (Cons a as)
  then obtain b bs' where bs: "bs = b # bs'" "length as = length bs'" by (cases bs) auto
  from Cons.IH [OF bs(2), of "bit_majority a b c"] obtain k where
    k: "nat_bits as + nat_bits bs' + of_bool (bit_majority a b c)
      = nat_bits (add_bits (bit_majority a b c) as bs') + k * 2 ^ length as" by blast
  have "(of_bool a + of_bool b + of_bool c :: nat) = of_bool (bit_xor3 a b c) + 2 * of_bool (bit_majority a b c)"
    by (simp add: bit_xor3_def bit_majority_def)
  with k have "nat_bits (a # as) + nat_bits bs + of_bool c = nat_bits (add_bits c (a # as) bs) + k * 2 ^ length (a # as)"
    unfolding bs(1) by (simp add: nat_bits_def)
  then show ?case by blast
qed

lemma plus_bits:
  assumes "length as = 32" and "length bs = 32"
  shows "u32_bits as + u32_bits bs = u32_bits (add_bits False as bs)"
proof -
  from nat_bits_add [of as bs False] assms obtain k where
    "nat_bits as + nat_bits bs = nat_bits (add_bits False as bs) + k * 2 ^ 32" by auto
  then have "(of_nat (nat_bits as + nat_bits bs) :: u32) = of_nat (nat_bits (add_bits False as bs)) + of_nat k * 2 ^ 32"
    by (metis of_nat_add of_nat_mult of_nat_power of_nat_numeral)
  moreover have "(2 ^ 32 :: u32) = 0" using word_exp_length_eq_0 [where 'a = 32] by simp
  ultimately show ?thesis by (simp only: bits_of_nat of_nat_add mult_zero_right add_0_right)
qed

subsection \<open>Ground rules\<close>

lemma bit_rules:
  "bit_xor3 True True True = True" "bit_xor3 True True False = False" "bit_xor3 True False True = False"
  "bit_xor3 True False False = True" "bit_xor3 False True True = False" "bit_xor3 False True False = True"
  "bit_xor3 False False True = True" "bit_xor3 False False False = False"
  "bit_choose True b c = b" "bit_choose False b c = c"
  "bit_majority True True c = True" "bit_majority True False c = c"
  "bit_majority False True c = c" "bit_majority False False c = False"
  by (simp_all add: bit_xor3_def bit_choose_def bit_majority_def)

lemma add_rules:
  "add_bits True (True # as) (True # bs) = True # add_bits True as bs"
  "add_bits True (True # as) (False # bs) = False # add_bits True as bs"
  "add_bits True (False # as) (True # bs) = False # add_bits True as bs"
  "add_bits True (False # as) (False # bs) = True # add_bits False as bs"
  "add_bits False (True # as) (True # bs) = False # add_bits True as bs"
  "add_bits False (True # as) (False # bs) = True # add_bits False as bs"
  "add_bits False (False # as) (True # bs) = True # add_bits False as bs"
  "add_bits False (False # as) (False # bs) = False # add_bits False as bs"
  "add_bits c [] [] = []"
  by (simp_all add: bit_rules)

lemma replicate_step: "replicate (numeral k) x = x # replicate (pred_numeral k) x"
  by (simp add: numeral_eq_Suc)

lemmas sigma_rules = sigma_bits [of "[b0, b1, b2, b3, b4, b5, b6, b7, b8, b9, b10, b11, b12, b13, b14, b15, b16, b17, b18, b19, b20, b21, b22, b23, b24, b25, b26, b27, b28, b29, b30, b31]",
  simplified length_Cons list.size rotate_drop_take shift_bits_def, simplified, simplified replicate_step pred_numeral_simps BitM.simps, simplified]
  for b0 b1 b2 b3 b4 b5 b6 b7 b8 b9 b10 b11 b12 b13 b14 b15 b16 b17 b18 b19 b20 b21 b22 b23 b24 b25 b26 b27 b28 b29 b30 b31
lemmas choose_rules = choose_bits [of "[b0, b1, b2, b3, b4, b5, b6, b7, b8, b9, b10, b11, b12, b13, b14, b15, b16, b17, b18, b19, b20, b21, b22, b23, b24, b25, b26, b27, b28, b29, b30, b31]" "[c0, c1, c2, c3, c4, c5, c6, c7, c8, c9, c10, c11, c12, c13, c14, c15, c16, c17, c18, c19, c20, c21, c22, c23, c24, c25, c26, c27, c28, c29, c30, c31]" "[d0, d1, d2, d3, d4, d5, d6, d7, d8, d9, d10, d11, d12, d13, d14, d15, d16, d17, d18, d19, d20, d21, d22, d23, d24, d25, d26, d27, d28, d29, d30, d31]", simplified]
  for b0 b1 b2 b3 b4 b5 b6 b7 b8 b9 b10 b11 b12 b13 b14 b15 b16 b17 b18 b19 b20 b21 b22 b23 b24 b25 b26 b27 b28 b29 b30 b31
  c0 c1 c2 c3 c4 c5 c6 c7 c8 c9 c10 c11 c12 c13 c14 c15 c16 c17 c18 c19 c20 c21 c22 c23 c24 c25 c26 c27 c28 c29 c30 c31
  d0 d1 d2 d3 d4 d5 d6 d7 d8 d9 d10 d11 d12 d13 d14 d15 d16 d17 d18 d19 d20 d21 d22 d23 d24 d25 d26 d27 d28 d29 d30 d31
lemmas majority_rules = majority_bits [of "[b0, b1, b2, b3, b4, b5, b6, b7, b8, b9, b10, b11, b12, b13, b14, b15, b16, b17, b18, b19, b20, b21, b22, b23, b24, b25, b26, b27, b28, b29, b30, b31]" "[c0, c1, c2, c3, c4, c5, c6, c7, c8, c9, c10, c11, c12, c13, c14, c15, c16, c17, c18, c19, c20, c21, c22, c23, c24, c25, c26, c27, c28, c29, c30, c31]" "[d0, d1, d2, d3, d4, d5, d6, d7, d8, d9, d10, d11, d12, d13, d14, d15, d16, d17, d18, d19, d20, d21, d22, d23, d24, d25, d26, d27, d28, d29, d30, d31]", simplified]
  for b0 b1 b2 b3 b4 b5 b6 b7 b8 b9 b10 b11 b12 b13 b14 b15 b16 b17 b18 b19 b20 b21 b22 b23 b24 b25 b26 b27 b28 b29 b30 b31
  c0 c1 c2 c3 c4 c5 c6 c7 c8 c9 c10 c11 c12 c13 c14 c15 c16 c17 c18 c19 c20 c21 c22 c23 c24 c25 c26 c27 c28 c29 c30 c31
  d0 d1 d2 d3 d4 d5 d6 d7 d8 d9 d10 d11 d12 d13 d14 d15 d16 d17 d18 d19 d20 d21 d22 d23 d24 d25 d26 d27 d28 d29 d30 d31
lemma plus_rules:
  "u32_bits [b0, b1, b2, b3, b4, b5, b6, b7, b8, b9, b10, b11, b12, b13, b14, b15, b16, b17, b18, b19, b20, b21, b22, b23, b24, b25, b26, b27, b28, b29, b30, b31]
   + u32_bits [c0, c1, c2, c3, c4, c5, c6, c7, c8, c9, c10, c11, c12, c13, c14, c15, c16, c17, c18, c19, c20, c21, c22, c23, c24, c25, c26, c27, c28, c29, c30, c31]
   = u32_bits (add_bits False [b0, b1, b2, b3, b4, b5, b6, b7, b8, b9, b10, b11, b12, b13, b14, b15, b16, b17, b18, b19, b20, b21, b22, b23, b24, b25, b26, b27, b28, b29, b30, b31]
       [c0, c1, c2, c3, c4, c5, c6, c7, c8, c9, c10, c11, c12, c13, c14, c15, c16, c17, c18, c19, c20, c21, c22, c23, c24, c25, c26, c27, c28, c29, c30, c31])"
  by (rule plus_bits) simp_all

subsection \<open>Numerals, bytes and digits\<close>

text \<open>The constants of the standard.\<close>

fun num_bits :: "nat \<Rightarrow> num \<Rightarrow> bool list" where
  "num_bits 0 n = []"
| "num_bits (Suc k) num.One = True # replicate k False"
| "num_bits (Suc k) (num.Bit0 n) = False # num_bits k n"
| "num_bits (Suc k) (num.Bit1 n) = True # num_bits k n"

lemma nat_bits_Cons: "nat_bits (b # bs) = of_bool b + 2 * nat_bits bs"
  by (simp add: nat_bits_def)

lemma nat_bits_False: "nat_bits (replicate k False) = 0"
  by (induction k) (simp_all add: nat_bits_def)

lemma nat_bits_num: "nat_bits (num_bits k n) = numeral n mod 2 ^ k"
proof (induction k n rule: num_bits.induct)
  case (2 k)
  then show ?case by (simp add: nat_bits_Cons nat_bits_False)
next
  case (3 k n)
  have "numeral (num.Bit0 n) = (2 * numeral n :: nat)" unfolding numeral_Bit0 by simp
  with 3 show ?case by (simp only: num_bits.simps nat_bits_Cons) (simp only: mult_mod_right power_Suc of_bool_eq add_0)
next
  case (4 k n)
  have "numeral (num.Bit1 n) = (1 + 2 * numeral n :: nat)" by (simp only: numeral_Bit1 mult_2 ac_simps)
  moreover have "(1 + 2 * m) mod 2 ^ Suc k = (1 + 2 * (m mod 2 ^ k) :: nat)" for m by (simp add: mod_mult2_eq)
  ultimately show ?case using 4 by (simp only: num_bits.simps nat_bits_Cons of_bool_eq)
qed (simp add: nat_bits_def)

lemma of_nat_u32_mod: "(of_nat (n mod 2 ^ 32) :: u32) = of_nat n"
  by (simp only: word_unat_eq_iff unat_of_nat) simp

lemma numeral_bits: "(numeral k :: u32) = u32_bits (num_bits 32 k)"
  by (simp only: bits_of_nat nat_bits_num of_nat_u32_mod of_nat_numeral)

lemma num_bits_steps:
  "num_bits (numeral k) num.One = True # replicate (pred_numeral k) False"
  "num_bits (numeral k) (num.Bit0 n) = False # num_bits (pred_numeral k) n"
  "num_bits (numeral k) (num.Bit1 n) = True # num_bits (pred_numeral k) n"
  by (simp_all add: numeral_eq_Suc)

lemmas constant_bits = numeral_bits num_bits_steps num_bits.simps pred_numeral_simps replicate_step replicate.simps
  BitM.simps

lemmas key_bits = sha_round_keys_def [simplified constant_bits]
lemmas initial_bits = sha_initial_def [simplified constant_bits]

text \<open>Four bytes of a message.\<close>

lemma char_bits: "(of_char (Char b0 b1 b2 b3 b4 b5 b6 b7) :: u32) = of_nat (nat_bits [b0, b1, b2, b3, b4, b5, b6, b7])"
  by (simp add: of_char_def nat_bits_def)

lemma nat_bits_append: "nat_bits (as @ bs) = nat_bits as + 2 ^ length as * nat_bits bs"
  by (simp add: nat_bits_def horner_sum_append mult.commute)

lemma word_bits:
  "bytes_to_words ((Char a0 a1 a2 a3 a4 a5 a6 a7) # (Char b0 b1 b2 b3 b4 b5 b6 b7) # (Char c0 c1 c2 c3 c4 c5 c6 c7) # (Char d0 d1 d2 d3 d4 d5 d6 d7) # cs) = u32_bits [d0, d1, d2, d3, d4, d5, d6, d7, c0, c1, c2, c3, c4, c5, c6, c7, b0, b1, b2, b3, b4, b5, b6, b7, a0, a1, a2, a3, a4, a5, a6, a7] # bytes_to_words cs"
proof -
  have "nat_bits [d0, d1, d2, d3, d4, d5, d6, d7, c0, c1, c2, c3, c4, c5, c6, c7, b0, b1, b2, b3, b4, b5, b6, b7, a0, a1, a2, a3, a4, a5, a6, a7] = nat_bits ([d0, d1, d2, d3, d4, d5, d6, d7] @ [c0, c1, c2, c3, c4, c5, c6, c7] @ [b0, b1, b2, b3, b4, b5, b6, b7] @ [a0, a1, a2, a3, a4, a5, a6, a7])" by simp
  also have "\<dots> = nat_bits [a0, a1, a2, a3, a4, a5, a6, a7] * 16777216 + nat_bits [b0, b1, b2, b3, b4, b5, b6, b7] * 65536 + nat_bits [c0, c1, c2, c3, c4, c5, c6, c7] * 256 + nat_bits [d0, d1, d2, d3, d4, d5, d6, d7]"
    unfolding nat_bits_append by simp
  finally show ?thesis by (simp only: bytes_to_words.simps char_bits bits_of_nat) simp
qed

subsection \<open>Rounds and blocks\<close>

lemma round_rules:
  "sha_rounds s (k # ks) [w0, w1, w2, w3, w4, w5, w6, w7, w8, w9, w10, w11, w12, w13, w14, w15] =
     sha_rounds (sha_round s k w0) ks [w1, w2, w3, w4, w5, w6, w7, w8, w9, w10, w11, w12, w13, w14, w15, sha_small1 w14 + w9 + sha_small0 w1 + w0]"
  "sha_rounds s [] w = s"
  by (simp_all add: sha_next_word_def)

lemma block_rules:
  "sha_blocks s (Suc n) (w0 # w1 # w2 # w3 # w4 # w5 # w6 # w7 # w8 # w9 # w10 # w11 # w12 # w13 # w14 # w15 # ws) = sha_blocks (sha_block s [w0, w1, w2, w3, w4, w5, w6, w7, w8, w9, w10, w11, w12, w13, w14, w15]) n ws"
  "sha_blocks s 0 ws = s"
  by simp_all

lemmas sha_eval = round_rules sha_round.simps sha_mix.simps sigma_rules choose_rules majority_rules plus_rules
  add_rules bit_rules sha_add.simps

lemma block_eval: "sha_block s w = sha_add s (sha_rounds s sha_round_keys w)"
  by (simp add: sha_block_def)


subsection \<open>Messages and digests\<close>

definition word_hex :: "u32 \<Rightarrow> string" where
  "word_hex w = hex_encode (be_bytes 4 (unat w))"

fun digest_hex :: "sha_state \<Rightarrow> string" where
  "digest_hex (ShaState a b c d e f g h) = ''0x'' @ word_hex a @ word_hex b @ word_hex c @ word_hex d
     @ word_hex e @ word_hex f @ word_hex g @ word_hex h"

lemma hex_encode_append: "hex_encode (s @ t) = hex_encode s @ hex_encode t"
  by (simp add: hex_encode_def)

lemma sha256_hex_eval:
  assumes "length m = l" and "l mod 64 = r" and "(119 - r) mod 64 = z" and "l + z + 9 = 64 * k"
  shows "sha256_hex m = digest_hex (sha_blocks sha_initial k
     (bytes_to_words (m @ CHR 0x80 # replicate z (CHR 0x00) @ be_bytes 8 (8 * l))))"
proof -
  have p: "sha_pad m = m @ CHR 0x80 # replicate z (CHR 0x00) @ be_bytes 8 (8 * l)"
    using assms by (simp add: sha_pad_def)
  with assms have "length (sha_pad m) div 64 = k" by simp
  with p show ?thesis
    by (cases "sha_blocks sha_initial k (bytes_to_words (m @ CHR 0x80 # replicate z (CHR 0x00) @ be_bytes 8 (8 * l)))")
       (simp add: sha256_hex_def sha256_sum_def hex_prefix_def hex_encode_append word_hex_def)
qed

definition hex_nibble :: "bool \<Rightarrow> bool \<Rightarrow> bool \<Rightarrow> bool \<Rightarrow> char" where
  "hex_nibble b3 b2 b1 b0 = hex_digit (nat_bits [b0, b1, b2, b3])"

lemma hex_nibble_rules:
  "hex_nibble False False False False = CHR ''0''"
  "hex_nibble False False False True = CHR ''1''"
  "hex_nibble False False True False = CHR ''2''"
  "hex_nibble False False True True = CHR ''3''"
  "hex_nibble False True False False = CHR ''4''"
  "hex_nibble False True False True = CHR ''5''"
  "hex_nibble False True True False = CHR ''6''"
  "hex_nibble False True True True = CHR ''7''"
  "hex_nibble True False False False = CHR ''8''"
  "hex_nibble True False False True = CHR ''9''"
  "hex_nibble True False True False = CHR ''a''"
  "hex_nibble True False True True = CHR ''b''"
  "hex_nibble True True False False = CHR ''c''"
  "hex_nibble True True False True = CHR ''d''"
  "hex_nibble True True True False = CHR ''e''"
  "hex_nibble True True True True = CHR ''f''"
  by (simp_all add: hex_nibble_def nat_bits_def hex_digit_def char_of_def bit_simps bit_0 bit_Suc)

lemma nat_bits_div: "nat_bits bs div 2 ^ k = nat_bits (drop k bs)"
proof (induction k arbitrary: bs)
  case (Suc k)
  have "nat_bits bs div 2 ^ Suc k = nat_bits bs div 2 div 2 ^ k" by (simp only: power_Suc div_mult2_eq)
  also have "\<dots> = nat_bits (drop (Suc k) bs)"
    using Suc [of "tl bs"] by (cases bs) (simp_all add: nat_bits_Cons, simp add: nat_bits_def)
  finally show ?case .
qed simp

lemma nat_bits_div_mod:
  "nat_bits bs div 2 ^ k mod 2 ^ l = nat_bits (take l (drop k bs))"
  unfolding nat_bits_div unfolding nat_bits_def take_bit_eq_mod [symmetric] by (rule take_bit_horner_sum_bit_eq)

lemma unat_bits: "length bs = 32 \<Longrightarrow> unat (u32_bits bs) = nat_bits bs"
  using nat_bits_div_mod [of bs 0 32] by (simp add: bits_of_nat unat_of_nat)

lemma be_bytes_step: "be_bytes (numeral k) n = be_bytes (pred_numeral k) (n div 256) @ [char_of (n mod 256)]"
  by (simp only: numeral_eq_Suc [of k] be_bytes.simps)

lemma hex_encode_char: "hex_encode [char_of (m mod 256)] = [hex_digit (m div 16 mod 16), hex_digit (m mod 16)]"
proof -
  have "m mod 256 div 16 = m div 16 mod 16" "m mod 256 mod 16 = m mod 16"
    using mod_mult2_eq [of m 16 16] mod_mod_cancel [of 16 256 m] by simp_all
  then show ?thesis by (simp add: hex_encode_def)
qed

lemma hex_encode_be_bytes:
  "hex_encode (be_bytes 4 n) = map (\<lambda>k. hex_digit (n div 2 ^ k mod 2 ^ 4)) [28, 24, 20, 16, 12, 8, 4, 0]"
proof -
  have "be_bytes 4 n = [char_of (n div 256 div 256 div 256 mod 256)] @ [char_of (n div 256 div 256 mod 256)]
      @ [char_of (n div 256 mod 256)] @ [char_of (n mod 256)]"
    by (simp add: be_bytes_step)
  then show ?thesis
    by (simp only: hex_encode_append hex_encode_char) (simp add: div_mult2_eq [symmetric])
qed

lemma word_hex_rule:
  "word_hex (u32_bits [b0, b1, b2, b3, b4, b5, b6, b7, b8, b9, b10, b11, b12, b13, b14, b15, b16, b17, b18, b19, b20, b21, b22, b23, b24, b25, b26, b27, b28, b29, b30, b31]) = [hex_nibble b31 b30 b29 b28, hex_nibble b27 b26 b25 b24, hex_nibble b23 b22 b21 b20, hex_nibble b19 b18 b17 b16, hex_nibble b15 b14 b13 b12, hex_nibble b11 b10 b9 b8, hex_nibble b7 b6 b5 b4, hex_nibble b3 b2 b1 b0]"
proof -
  let ?bs = "[b0, b1, b2, b3, b4, b5, b6, b7, b8, b9, b10, b11, b12, b13, b14, b15, b16, b17, b18, b19, b20, b21, b22, b23, b24, b25, b26, b27, b28, b29, b30, b31]"
  have "unat (u32_bits ?bs) = nat_bits ?bs" by (rule unat_bits) simp
  then show ?thesis
    unfolding word_hex_def by (simp only: hex_encode_be_bytes list.map nat_bits_div_mod) (simp add: hex_nibble_def)
qed

text \<open>One digest: the length of the message, its padding, and then the words and the blocks.\<close>

lemma sha256_hex_by:
  "length m = l \<Longrightarrow> (119 - l mod 64) mod 64 = z \<Longrightarrow> l + z + 9 = 64 * k \<Longrightarrow> be_bytes 8 (8 * l) = t
     \<Longrightarrow> replicate z (CHR 0x00) = zs
     \<Longrightarrow> digest_hex (sha_blocks sha_initial k (bytes_to_words (m @ CHR 0x80 # zs @ t))) = d \<Longrightarrow> sha256_hex m = d"
  using sha256_hex_eval [of m l "l mod 64" z k] by simp

lemmas length_bytes_eval = be_bytes_step char_of_def bit_simps bit_0 bit_Suc

lemmas zero_bytes_eval = replicate_step pred_numeral_simps BitM.simps numeral_One replicate_0 replicate_Suc One_nat_def

lemmas digest_eval = append.simps word_bits bytes_to_words.simps(2) block_rules initial_bits block_eval key_bits sha_eval
  digest_hex.simps word_hex_rule hex_nibble_rules

end
