(* ===== verification/Vector_Digests.thy ===== *)
theory Vector_Digests
  imports Sha_Eval
begin

text \<open>
  The digests of the Alice 100/40 scenario, computed by the kernel: each lemma runs SHA-256
  on one preimage. The results are the values checked in under \<^verbatim>\<open>testvectors/alice_100_40\<close>.
\<close>

lemma digest_root_a:
  "sha256_hex (''zkdex/state/v1|[]'')
    = ''0xe4029e127d0d318624204f91c87aed84377819b97f1c80cc53edf9b35840805d''"
  by (rule sha256_hex_by [where l = 17 and z = 38 and k = "Suc 0"
        and t = "[CHR 0x00, CHR 0x00, CHR 0x00, CHR 0x00, CHR 0x00, CHR 0x00, CHR 0x00, CHR 0x88]"])
     (simp, simp, simp, simp add: be_bytes_step, simp add: length_bytes_eval, simp only: zero_bytes_eval, simp only: digest_eval)

lemma digest_root_b:
  "sha256_hex (''zkdex/state/v1|['' @ [CHR 0x7B, CHR 0x22] @ ''owner'' @ [CHR 0x22] @ '':'' @ [CHR 0x22]
      @ ''cosmos1alice'' @ [CHR 0x22] @ '','' @ [CHR 0x22] @ ''denom'' @ [CHR 0x22] @ '':'' @ [CHR 0x22]
      @ ''uusdc'' @ [CHR 0x22] @ '','' @ [CHR 0x22] @ ''balance'' @ [CHR 0x22] @ '':'' @ [CHR 0x22]
      @ ''100'' @ [CHR 0x22] @ '','' @ [CHR 0x22] @ ''nonce'' @ [CHR 0x22] @ '':'' @ [CHR 0x22] @ ''0''
      @ [CHR 0x22, CHR 0x7D] @ '']'')
    = ''0x9b325b4150d417adfd816930b6f291aaf9493995fe0f960864c616ff178f8620''"
  by (rule sha256_hex_by [where l = 85 and z = 34 and k = "Suc (Suc 0)"
        and t = "[CHR 0x00, CHR 0x00, CHR 0x00, CHR 0x00, CHR 0x00, CHR 0x00, CHR 0x02, CHR 0xA8]"])
     (simp, simp, simp, simp add: be_bytes_step, simp add: length_bytes_eval, simp only: zero_bytes_eval, simp only: digest_eval)

lemma digest_root_c:
  "sha256_hex (''zkdex/state/v1|['' @ [CHR 0x7B, CHR 0x22] @ ''owner'' @ [CHR 0x22] @ '':'' @ [CHR 0x22]
      @ ''cosmos1alice'' @ [CHR 0x22] @ '','' @ [CHR 0x22] @ ''denom'' @ [CHR 0x22] @ '':'' @ [CHR 0x22]
      @ ''uusdc'' @ [CHR 0x22] @ '','' @ [CHR 0x22] @ ''balance'' @ [CHR 0x22] @ '':'' @ [CHR 0x22]
      @ ''60'' @ [CHR 0x22] @ '','' @ [CHR 0x22] @ ''nonce'' @ [CHR 0x22] @ '':'' @ [CHR 0x22] @ ''1''
      @ [CHR 0x22, CHR 0x7D] @ '']'')
    = ''0x44d60f77db879799be6212c46d198243cbe2fe2969901ca3663dfb204276250c''"
  by (rule sha256_hex_by [where l = 84 and z = 35 and k = "Suc (Suc 0)"
        and t = "[CHR 0x00, CHR 0x00, CHR 0x00, CHR 0x00, CHR 0x00, CHR 0x00, CHR 0x02, CHR 0xA0]"])
     (simp, simp, simp, simp add: be_bytes_step, simp add: length_bytes_eval, simp only: zero_bytes_eval, simp only: digest_eval)

lemma digest_nullifier:
  "sha256_hex (''zkdex/nullifier/v0|alice_secret|1'')
    = ''0x1a1fdf4ccecb7040b7cd7e125226d14ed7717618d996dab969d4cb12550b22f7''"
  by (rule sha256_hex_by [where l = 33 and z = 22 and k = "Suc 0"
        and t = "[CHR 0x00, CHR 0x00, CHR 0x00, CHR 0x00, CHR 0x00, CHR 0x00, CHR 0x01, CHR 0x08]"])
     (simp, simp, simp, simp add: be_bytes_step, simp add: length_bytes_eval, simp only: zero_bytes_eval, simp only: digest_eval)

lemma digest_destination:
  "sha256_hex (''zkdex/withdrawAddr/v0|cosmos1alice'')
    = ''0xa75ac956249df4c45b83281c5af6187c59df9709fd1c25b5e61b12d71a8eb417''"
  by (rule sha256_hex_by [where l = 34 and z = 21 and k = "Suc 0"
        and t = "[CHR 0x00, CHR 0x00, CHR 0x00, CHR 0x00, CHR 0x00, CHR 0x00, CHR 0x01, CHR 0x10]"])
     (simp, simp, simp, simp add: be_bytes_step, simp add: length_bytes_eval, simp only: zero_bytes_eval, simp only: digest_eval)

lemma digest_tx:
  "sha256_hex (''deposit|cosmos1alice|uusdc|100|dep-1|'')
    = ''0x250e45522560609a604b00b437734ecd6c380d128741c6020cd0da679e349533''"
  by (rule sha256_hex_by [where l = 37 and z = 18 and k = "Suc 0"
        and t = "[CHR 0x00, CHR 0x00, CHR 0x00, CHR 0x00, CHR 0x00, CHR 0x00, CHR 0x01, CHR 0x28]"])
     (simp, simp, simp, simp add: be_bytes_step, simp add: length_bytes_eval, simp only: zero_bytes_eval, simp only: digest_eval)

lemma digest_deposits:
  "sha256_hex (''zkdex/batch/depositsRoot/v0|dep-1|cosmos1alice|uusdc|100;'')
    = ''0x5ed1bb5ad7bc2681e3ff91a63f2183052caa6479ba0e9d02d87392d24e1bbc40''"
  by (rule sha256_hex_by [where l = 57 and z = 62 and k = "Suc (Suc 0)"
        and t = "[CHR 0x00, CHR 0x00, CHR 0x00, CHR 0x00, CHR 0x00, CHR 0x00, CHR 0x01, CHR 0xC8]"])
     (simp, simp, simp, simp add: be_bytes_step, simp add: length_bytes_eval, simp only: zero_bytes_eval, simp only: digest_eval)

lemma digest_withdrawals:
  "sha256_hex (
      ''zkdex/batch/withdrawalsRoot/v0|wd-1|cosmos1alice|uusdc|40|cosmos1alice|0xa75ac956249df4c45b83281c5af6187c59df9709fd1c25b5e61b12d71a8eb417|0x1a1fdf4ccecb7040b7cd7e125226d14ed7717618d996dab969d4cb12550b22f7;'')
    = ''0xea5ccc9d188ad7d28786383089d136cc53d4bd9d9a43f755726038e9514efdb1''"
  by (rule sha256_hex_by [where l = 205 and z = 42 and k = "Suc (Suc (Suc (Suc 0)))"
        and t = "[CHR 0x00, CHR 0x00, CHR 0x00, CHR 0x00, CHR 0x00, CHR 0x00, CHR 0x06, CHR 0x68]"])
     (simp, simp, simp, simp add: be_bytes_step, simp add: length_bytes_eval, simp only: zero_bytes_eval, simp only: digest_eval)

lemma digest_nullifiers:
  "sha256_hex (
      ''zkdex/batch/nullifiersRoot/v0|0x1a1fdf4ccecb7040b7cd7e125226d14ed7717618d996dab969d4cb12550b22f7;'')
    = ''0x13b485d1c819a2ddff2411fbacae9d5e7aa0c6efe8c103189b44554bcab66f21''"
  by (rule sha256_hex_by [where l = 97 and z = 22 and k = "Suc (Suc 0)"
        and t = "[CHR 0x00, CHR 0x00, CHR 0x00, CHR 0x00, CHR 0x00, CHR 0x00, CHR 0x03, CHR 0x08]"])
     (simp, simp, simp, simp add: be_bytes_step, simp add: length_bytes_eval, simp only: zero_bytes_eval, simp only: digest_eval)

lemma digest_outputs:
  "sha256_hex (
      ''zkdex/batch/withdrawOutputsRoot/v0|0xa75ac956249df4c45b83281c5af6187c59df9709fd1c25b5e61b12d71a8eb417|40|uusdc;'')
    = ''0xce5e12744106271ca8f191db22631016126b96e19653e3884dc8923e1dde8e14''"
  by (rule sha256_hex_by [where l = 111 and z = 8 and k = "Suc (Suc 0)"
        and t = "[CHR 0x00, CHR 0x00, CHR 0x00, CHR 0x00, CHR 0x00, CHR 0x00, CHR 0x03, CHR 0x78]"])
     (simp, simp, simp, simp add: be_bytes_step, simp add: length_bytes_eval, simp only: zero_bytes_eval, simp only: digest_eval)

lemma digest_wrong_root:
  "sha256_hex (''STATE-12/wrong_root/oldStateRoot'')
    = ''0xa8a7a1722e9ac83a6e80bfc921d00fe42ea9090e7cf95d5d1e209f68d37f6cc8''"
  by (rule sha256_hex_by [where l = 32 and z = 23 and k = "Suc 0"
        and t = "[CHR 0x00, CHR 0x00, CHR 0x00, CHR 0x00, CHR 0x00, CHR 0x00, CHR 0x01, CHR 0x00]"])
     (simp, simp, simp, simp add: be_bytes_step, simp add: length_bytes_eval, simp only: zero_bytes_eval, simp only: digest_eval)

lemma digest_attacker:
  "sha256_hex (''zkdex/withdrawAddr/v0|cosmos1attacker0000000000000000000000xxxxx'')
    = ''0x6168f9a6ab776434e079d8b15d1c168879fbccf5531286e16dfa9aa3e501973e''"
  by (rule sha256_hex_by [where l = 64 and z = 55 and k = "Suc (Suc 0)"
        and t = "[CHR 0x00, CHR 0x00, CHR 0x00, CHR 0x00, CHR 0x00, CHR 0x00, CHR 0x02, CHR 0x00]"])
     (simp, simp, simp, simp add: be_bytes_step, simp add: length_bytes_eval, simp only: zero_bytes_eval, simp only: digest_eval)

end
