(* ===== verification/Vector_Values.thy ===== *)
theory Vector_Values
  imports Failure_Generator Vector_Digests
begin

text \<open>
  The values the generator computes on the way: the mirror after the deposit and after the
  withdrawal, the request, the batch, its commitments and its witness, each as a literal with the
  digests of \<open>Vector_Digests\<close>. They are those of the files checked in under
  \<^verbatim>\<open>testvectors/alice_100_40\<close>.
\<close>

subsection \<open>The literals\<close>

definition root_a :: string where
  "root_a = ''0xe4029e127d0d318624204f91c87aed84377819b97f1c80cc53edf9b35840805d''"

definition root_b :: string where
  "root_b = ''0x9b325b4150d417adfd816930b6f291aaf9493995fe0f960864c616ff178f8620''"

definition root_c :: string where
  "root_c = ''0x44d60f77db879799be6212c46d198243cbe2fe2969901ca3663dfb204276250c''"

definition vec_nullifier :: string where
  "vec_nullifier = ''0x1a1fdf4ccecb7040b7cd7e125226d14ed7717618d996dab969d4cb12550b22f7''"

definition vec_destination_hash :: string where
  "vec_destination_hash = ''0xa75ac956249df4c45b83281c5af6187c59df9709fd1c25b5e61b12d71a8eb417''"

definition vec_account :: "string \<Rightarrow> string \<Rightarrow> account" where
  "vec_account balance nonce = \<lparr>acc_owner = ''cosmos1alice'', acc_denom = ''uusdc'', acc_balance = balance, acc_nonce = nonce\<rparr>"

definition vec_key :: account_key where
  "vec_key = (''cosmos1alice'', ''uusdc'')"

definition state_b :: local_state where
  "state_b = \<lparr>ls_accounts = [(vec_key, vec_account ''100'' ''0'')], ls_root = root_b, ls_deposits = {''dep-1''},
     ls_nullifiers = {}\<rparr>"

definition state_c :: local_state where
  "state_c = \<lparr>ls_accounts = [(vec_key, vec_account ''60'' ''1'')], ls_root = root_c, ls_deposits = {''dep-1''},
     ls_nullifiers = {vec_nullifier}\<rparr>"

definition vec_request :: withdraw_request where
  "vec_request = \<lparr>wr_id = ''wd-1'', wr_owner = ''cosmos1alice'', wr_denom = ''uusdc'', wr_amount = ''40'',
     wr_destination = ''cosmos1alice'', wr_nonce = ''1'', wr_signature = []\<rparr>"

definition vec_withdrawal :: settlement_withdrawal where
  "vec_withdrawal = \<lparr>sw_id = ''wd-1'', sw_owner = ''cosmos1alice'', sw_denom = ''uusdc'', sw_amount = ''40'',
     sw_destination = ''cosmos1alice'', sw_destination_hash = vec_destination_hash, sw_nullifier = vec_nullifier\<rparr>"

definition vec_update :: settlement_update where
  "vec_update = \<lparr>su_batch_id = ''batch-1'', su_old_root = root_b, su_new_root = root_c,
     su_deposits = [\<lparr>sd_id = ''dep-1'', sd_owner = ''cosmos1alice'', sd_denom = ''uusdc'', sd_amount = ''100''\<rparr>],
     su_withdrawals = [vec_withdrawal]\<rparr>"

definition vec_commitments :: batch_commitments where
  "vec_commitments = \<lparr>bc_deposits_root = ''0x5ed1bb5ad7bc2681e3ff91a63f2183052caa6479ba0e9d02d87392d24e1bbc40'',
     bc_withdrawals_root = ''0xea5ccc9d188ad7d28786383089d136cc53d4bd9d9a43f755726038e9514efdb1'',
     bc_nullifiers_root = ''0x13b485d1c819a2ddff2411fbacae9d5e7aa0c6efe8c103189b44554bcab66f21'',
     bc_withdraw_outputs_root = ''0xce5e12744106271ca8f191db22631016126b96e19653e3884dc8923e1dde8e14''\<rparr>"

definition vec_witness :: witness where
  "vec_witness = \<lparr>wit_accounts = [\<lparr>wa_owner = ''cosmos1alice'', wa_user_secret = ''alice_secret'', wa_nonce = ''1'',
     wa_old_balance = ''0'', wa_new_balance = ''60''\<rparr>], wit_state_path = []\<rparr>"

definition vec_inputs :: settlement_inputs where
  "vec_inputs = \<lparr>si_old_root = root_b, si_new_root = root_c, si_deposits = [gen_dep1],
     si_withdrawals = [\<lparr>wn_request = vec_request, wn_nullifier = vec_nullifier,
       wn_destination_hash = vec_destination_hash\<rparr>]\<rparr>"

definition vec_public_inputs :: "string list" where
  "vec_public_inputs = [root_b, root_c, bc_deposits_root vec_commitments, bc_withdrawals_root vec_commitments,
     bc_nullifiers_root vec_commitments, bc_withdraw_outputs_root vec_commitments]"

subsection \<open>Evaluation\<close>

lemma vec_trims:
  "trim_space ''cosmos1alice'' = ''cosmos1alice''" "trim_space ''uusdc'' = ''uusdc''"
  "trim_space ''alice_secret'' = ''alice_secret''" "trim_space ''wd-1'' = ''wd-1''" "trim_space ''40'' = ''40''"
  "trim_space ''dep-1'' = ''dep-1''" "trim_space ''100'' = ''100''"
  "trim_space vec_nullifier = vec_nullifier" "trim_space vec_destination_hash = vec_destination_hash"
  by (simp_all add: trim_space_ends_eval plain_char_def vec_nullifier_def vec_destination_hash_def)

lemma vec_amounts:
  "parse_non_negative_amount ''100'' = Inr 100" "parse_non_negative_amount ''40'' = Inr 40"
  "parse_non_negative_amount ''60'' = Inr 60" "parse_non_negative_amount ''200'' = Inr 200"
  "parse_non_negative_amount ''0'' = Inr 0" "parse_non_negative_amount ''1'' = Inr 1"
  by (simp_all add: trim_space_ends_eval plain_char_def parse_non_negative_amount_def set_string10_def
      unsigned10_def digit_val_def)

lemma vec_positive:
  "parse_positive_amount ''100'' = Inr 100" "parse_positive_amount ''40'' = Inr 40" "parse_positive_amount ''200'' = Inr 200"
  by (simp_all add: parse_positive_amount_def vec_amounts)

lemma vec_decimals:
  "nat_to_dec 0 = ''0''" "nat_to_dec 1 = ''1''" "nat_to_dec 40 = ''40''" "nat_to_dec 60 = ''60''" "nat_to_dec 100 = ''100''"
  by (simp_all add: nat_to_dec.simps digit_char_eval)

lemma vec_not_empty: "vec_nullifier \<noteq> []" "vec_destination_hash \<noteq> []"
  by (simp_all add: vec_nullifier_def vec_destination_hash_def)

lemmas vec_eval = vec_trims vec_amounts vec_positive vec_decimals

lemma json_chars_step:
  "json_chars [] = []" "byte c < 128 \<Longrightarrow> json_chars (c # cs) = json_ascii c @ json_chars cs"
  by (simp_all add: json_chars.simps)

lemmas json_string_eval = json_string_def json_chars_step json_ascii_def byte_def

lemma initial_root: "ls_root new_local_state = root_a"
proof -
  have "root_preimage [] = ''zkdex/state/v1|[]''"
    by (simp add: root_preimage_def state_domain_tag_def json_array_def)
  then show ?thesis
    using digest_root_a
    by (simp add: new_local_state_def compute_root_def root_a_def snapshot_accounts_def new_account_state_def sort_accounts_def)
qed

lemma vec_account_root:
  "compute_root (snapshot_accounts [(vec_key, vec_account ''100'' ''0'')]) = root_b"
  "compute_root (snapshot_accounts [(vec_key, vec_account ''60'' ''1'')]) = root_c"
proof -
  have one: "snapshot_accounts [(k, a)] = [a]" for k a
    by (simp add: snapshot_accounts_def sort_accounts_def)
  have account: "json_account (vec_account b n) = [CHR 0x7B, CHR 0x22] @ ''owner'' @ [CHR 0x22] @ '':'' @ [CHR 0x22]
      @ ''cosmos1alice'' @ [CHR 0x22] @ '','' @ [CHR 0x22] @ ''denom'' @ [CHR 0x22] @ '':'' @ [CHR 0x22] @ ''uusdc''
      @ [CHR 0x22] @ '','' @ [CHR 0x22] @ ''balance'' @ [CHR 0x22] @ '':'' @ json_string b @ '','' @ [CHR 0x22] @ ''nonce''
      @ [CHR 0x22] @ '':'' @ json_string n @ [CHR 0x7D]" for b n
    by (simp add: json_account_def vec_account_def json_object_def json_string_eval)
  have "json_string ''100'' = [CHR 0x22] @ ''100'' @ [CHR 0x22]" "json_string ''0'' = [CHR 0x22] @ ''0'' @ [CHR 0x22]"
    "json_string ''60'' = [CHR 0x22] @ ''60'' @ [CHR 0x22]" "json_string ''1'' = [CHR 0x22] @ ''1'' @ [CHR 0x22]"
    by (simp_all add: json_string_eval)
  then show "compute_root (snapshot_accounts [(vec_key, vec_account ''100'' ''0'')]) = root_b"
    "compute_root (snapshot_accounts [(vec_key, vec_account ''60'' ''1'')]) = root_c"
    using digest_root_b digest_root_c
    by (simp_all add: one account compute_root_def root_preimage_def state_domain_tag_def json_array_def root_b_def root_c_def)
qed

lemmas gen_names = gen_alice_def gen_denom_def gen_secret_def

lemma gen_apply_deposit_eq: "apply_deposit new_local_state gen_dep1 = Inr (state_b, root_b)"
  using vec_account_root(1)
  by (simp add: apply_deposit_def validate_deposit_def gen_dep1_def gen_names vec_eval new_local_state_def
      new_account_state_def credit_def new_account_key_def zero_account_def state_b_def vec_key_def vec_account_def Let_def)

lemma gen_build_request_eq: "build_withdraw_request state_b 0 gen_intent = Inr (1, vec_request)"
  by (simp add: build_withdraw_request_def gen_intent_def gen_names vec_eval local_account_def account_get_or_zero_def
      account_get_def new_account_key_def state_b_def vec_key_def vec_account_def vec_request_def format_uint_def
      vec_decimals [simplified] Let_def)

lemma gen_nullifier_eq: "nullifier_for gen_secret ''1'' = Inr vec_nullifier"
  using digest_nullifier vec_decimals(2)
  by (simp add: nullifier_for_def gen_names vec_eval nullifier_preimage_def nullifier_domain_tag_def vec_nullifier_def Let_def)

lemma gen_destination_eq: "withdraw_address_hash ''cosmos1alice'' = Inr vec_destination_hash"
  using digest_destination
  by (simp add: withdraw_address_hash_def vec_eval address_preimage_def withdraw_address_domain_tag_def
      vec_destination_hash_def Let_def)

lemma gen_apply_withdrawal_eq: "apply_withdrawal state_b vec_request vec_nullifier = Inr (state_c, root_c)"
  using vec_account_root(2) vec_decimals(2)
  by (simp add: apply_withdrawal_def validate_withdraw_request_def vec_request_def vec_eval state_b_def state_c_def
      account_get_or_zero_def account_get_def new_account_key_def vec_key_def vec_account_def debit_def
      vec_not_empty Let_def)

subsection \<open>The batch\<close>

lemma vec_batch_amounts:
  "batch_parse_positive ''100'' = Inr 100" "batch_parse_positive ''40'' = Inr 40"
  "batch_parse_non_negative ''1'' = Inr 1" "batch_parse_non_negative ''0'' = Inr 0" "batch_parse_non_negative ''60'' = Inr 60"
  by (simp_all add: batch_parse_eq vec_amounts vec_positive)

text \<open>Every value with a prefix and a digit passes the shape checks; the digests here do.\<close>

lemma vec_hex [simp]:
  "hex_value root_b" "hex_value root_c" "hex_value vec_nullifier" "hex_value vec_destination_hash"
  by (simp_all add: hex_value_def root_b_def root_c_def vec_nullifier_def vec_destination_hash_def
      trim_space_ends_eval plain_char_def is_hex_prefixed_def strip_hex_def hex_prefix_def)

lemma vec_roots_differ: "root_a \<noteq> root_b" "root_a \<noteq> root_c" "root_b \<noteq> root_c" "root_a \<noteq> []"
  by (simp_all add: root_a_def root_b_def root_c_def)

lemma gen_settlement_eq: "settlement_build 0 vec_inputs = Inr (1, vec_update)"
  using gen_destination_eq
  by (simp add: settlement_build_def vec_inputs_def validate_root_eq validate_hex_eq vec_roots_differ pick_batch_denom_def
      gen_dep1_def gen_names settle_deposit_def batch_validate_deposit_def settle_withdrawal_def vec_request_def
      batch_validate_withdraw_def vec_eval vec_batch_amounts format_uint_def vec_decimals [simplified]
      vec_update_def vec_withdrawal_def)

lemma gen_commitments_eq: "build_commitments vec_update = vec_commitments"
  using digest_deposits digest_withdrawals digest_nullifiers digest_outputs
  by (simp add: build_commitments_def vec_update_def vec_withdrawal_def vec_commitments_def
      deposits_root_def deposits_preimage_def deposits_root_domain_tag_def
      withdrawals_root_def withdrawals_preimage_def withdrawals_root_domain_tag_def
      nullifiers_root_def nullifiers_preimage_def nullifiers_root_domain_tag_def
      withdraw_outputs_root_def withdraw_outputs_preimage_def withdraw_outputs_root_domain_tag_def
      vec_nullifier_def vec_destination_hash_def)

lemma gen_witness_eq:
  "build_witness \<lparr>wt_settlement = vec_inputs, wt_accounts = [\<lparr>aw_owner = gen_alice, aw_user_secret = gen_secret,
     aw_old_balance = ''0'', aw_new_balance = ''60''\<rparr>], wt_state_path = []\<rparr> = Inr vec_witness"
  using gen_nullifier_eq vec_decimals(2)
  by (simp add: build_witness_def witness_account_of_def gen_names vec_eval vec_batch_amounts vec_inputs_def gen_dep1_def
      witness_deposit_step_def witness_withdraw_step_def vec_request_def witness_check_nullifier_def
      witness_nonce_field_def vec_witness_def Let_def)

lemma gen_public_inputs_eq: "build_public_inputs vec_update vec_commitments = Inr vec_public_inputs"
  using hex_value_commitments [of vec_update]
  by (simp add: gen_commitments_eq build_public_inputs_eq vec_public_inputs_def vec_roots_differ)
     (simp add: vec_update_def vec_roots_differ)

end
