(* ===== verification/Generator_Run.thy ===== *)
theory Generator_Run
  imports Vector_Values
begin

text \<open>
  The run of the generator. \<open>alice_items\<close> and \<open>failure_items\<close> are the files it writes, each with
  its value and the entry it gets in a manifest; \<open>gen_after\<close> gives every local variable of
  \<^verbatim>\<open>main\<close> after a number of files. In a folder it can write to, the generator ends without
  \<^verbatim>\<open>die\<close>, and the file system differs from the one before in these files, their
  folders and the legacy file only (\<open>gen_main_files\<close>).
\<close>

subsection \<open>Writing files one after the other\<close>

type_synonym 'e item = "string \<times> json \<times> (string \<Rightarrow> 'e)"

definition item_entry :: "'e item \<Rightarrow> 'e" where
  "item_entry it = (case it of (n, v, entry) \<Rightarrow> entry (sha256_hex (file_text v)))"

definition written :: "file_path \<Rightarrow> files \<Rightarrow> 'e item list \<Rightarrow> files" where
  "written dir fs its = foldl (\<lambda>f (n, v, _). put_node f (dir @ [n]) (Plain (file_text v))) fs its"

definition writer_after :: "file_path \<Rightarrow> 'e item list \<Rightarrow> 'e out_writer" where
  "writer_after dir its = \<lparr>ow_dir = dir, ow_files = map item_entry its, ow_seen = set (map fst its)\<rparr>"

definition can_write :: "files \<Rightarrow> file_path \<Rightarrow> string \<Rightarrow> bool" where
  "can_write fs dir n \<longleftrightarrow> simple_name n \<and> node_at fs dir = Some Folder \<and> node_at fs (dir @ [n]) \<notin> {Some Folder, Some Locked}"

lemma written_Nil [simp]: "written dir fs [] = fs"
  by (simp add: written_def)

lemma written_snoc: "written dir fs (its @ [(n, v, e)]) = put_node (written dir fs its) (dir @ [n]) (Plain (file_text v))"
  by (simp add: written_def)

lemma node_at_written_other:
  "(\<And>n. n \<in> set (map fst its) \<Longrightarrow> q \<noteq> dir @ [n]) \<Longrightarrow> node_at (written dir fs its) q = node_at fs q"
proof (induction its rule: rev_induct)
  case (snoc it its)
  then show ?case by (cases it) (auto simp: written_snoc)
qed simp

lemma node_at_written:
  "distinct (map fst its) \<Longrightarrow> (n, v, e) \<in> set its \<Longrightarrow> node_at (written dir fs its) (dir @ [n]) = Some (Plain (file_text v))"
proof (induction its rule: rev_induct)
  case (snoc it its)
  then show ?case by (cases it) (auto simp: written_snoc image_iff)
qed simp

lemma can_write_written:
  "can_write fs dir n \<Longrightarrow> n \<notin> set (map fst its) \<Longrightarrow> can_write (written dir fs its) dir n"
  using node_at_written_other [of its dir dir fs] node_at_written_other [of its "dir @ [n]" dir fs]
  by (simp add: can_write_def) (metis image_iff)

lemma os_write_can: "can_write fs dir n \<Longrightarrow> os_write_file fs (dir @ [n]) s = Some (put_node fs (dir @ [n]) (Plain s))"
  by (rule os_write_file_ok) (auto simp: can_write_def)

lemma sha256_text: "''0x'' @ hex_encode (sha256_sum s) = sha256_hex s"
  by (simp add: sha256_hex_def hex_prefix_def)

lemma write_vector_next:
  assumes "can_write fs dir n" and "n \<notin> set (map fst its)"
  shows "write_vector entry True n v (written dir fs its, writer_after dir its)
    = Inr (written dir fs (its @ [(n, v, entry)]), writer_after dir (its @ [(n, v, entry)]))"
proof -
  have w: "can_write (written dir fs its) dir n" using assms by (rule can_write_written)
  then have "simple_name n" by (simp add: can_write_def)
  with assms(2) show ?thesis
    by (simp add: write_vector_def writer_after_def os_write_can [OF w] written_snoc item_entry_def sha256_text
        del: append_assoc append_Cons append_Nil)
qed

lemma emit_file_can:
  "can_write fs dir n \<Longrightarrow> ow_dir w = dir \<Longrightarrow> emit_file n v (fs, w) = Inr (put_node fs (dir @ [n]) (Plain (file_text v)))"
  by (simp add: emit_file_def os_write_can) (simp add: can_write_def os_write_can)

subsection \<open>The files of the happy path\<close>

definition vec_nullifier_vector :: nullifier_vector where
  "vec_nullifier_vector = \<lparr>nv_withdraw_id = ''wd-1'', nv_owner = gen_alice, nv_nonce = ''1'', nv_user_secret = gen_secret,
     nv_domain_tag = nullifier_domain_tag, nv_hash_algorithm = ''sha256'', nv_nullifier = vec_nullifier, nv_note = note_nullifier\<rparr>"

definition vec_destination_vector :: destination_hash_vector where
  "vec_destination_vector = \<lparr>dv_withdraw_id = ''wd-1'', dv_destination = ''cosmos1alice'',
     dv_domain_tag = withdraw_address_domain_tag, dv_hash_algorithm = ''sha256'',
     dv_destination_hash = vec_destination_hash, dv_note = note_destination\<rparr>"

definition vec_commitments_vector :: batch_commitments_vector where
  "vec_commitments_vector = \<lparr>cv_batch_id = ''batch-1'', cv_commitments = vec_commitments,
     cv_deposits_tag = deposits_root_domain_tag, cv_withdrawals_tag = withdrawals_root_domain_tag,
     cv_nullifiers_tag = nullifiers_root_domain_tag, cv_withdraw_outs_tag = withdraw_outputs_root_domain_tag,
     cv_hash_algorithm = ''sha256'', cv_note = note_commitments\<rparr>"

definition vec_public_inputs_vector :: public_inputs_vector where
  "vec_public_inputs_vector = \<lparr>pv_batch_id = ''batch-1'', pv_count = 6, pv_labels = public_input_labels,
     pv_public_inputs = vec_public_inputs, pv_note = note_public_inputs\<rparr>"

definition vec_snapshot_a :: state_snapshot where
  "vec_snapshot_a = \<lparr>ss_root = root_a, ss_accounts = [], ss_note = note_initial\<rparr>"

definition vec_snapshot_b :: state_snapshot where
  "vec_snapshot_b = \<lparr>ss_root = root_b, ss_accounts = [vec_account ''100'' ''0''], ss_note = note_after_deposit\<rparr>"

definition vec_snapshot_c :: state_snapshot where
  "vec_snapshot_c = \<lparr>ss_root = root_c, ss_accounts = [vec_account ''60'' ''1''], ss_note = note_after_withdrawal\<rparr>"

definition vector_item :: "string \<Rightarrow> json \<Rightarrow> file_meta \<Rightarrow> manifest_entry item" where
  "vector_item n v md = (n, v, meta_entry n md)"

definition alice_items :: "manifest_entry item list" where
  "alice_items =
     [vector_item ''initial_state.json'' (state_snapshot_json vec_snapshot_a) md_initial,
      vector_item ''deposit_dep_1.json'' (deposit_record_json gen_dep1) md_deposit,
      vector_item ''state_after_deposit.json'' (state_snapshot_json vec_snapshot_b) md_after_deposit,
      vector_item ''withdraw_request_wd_1.json'' (withdraw_request_json vec_request) md_request,
      vector_item ''nullifier_wd_1.json'' (nullifier_vector_json vec_nullifier_vector) md_nullifier,
      vector_item ''destination_hash_wd_1.json'' (destination_hash_vector_json vec_destination_vector) md_destination,
      vector_item ''state_after_withdrawal.json'' (state_snapshot_json vec_snapshot_c) md_after_withdrawal,
      vector_item ''settlement_update_batch_1.json'' (settlement_update_json vec_update) md_settlement,
      vector_item ''batch_commitments_batch_1.json'' (batch_commitments_vector_json vec_commitments_vector) md_commitments,
      vector_item ''witness_batch_1.json'' (witness_json vec_witness) md_witness,
      vector_item ''public_inputs_batch_1.json'' (public_inputs_vector_json vec_public_inputs_vector) md_public_inputs]"

text \<open>The local variables after \<open>k\<close> files.\<close>

definition gen_after :: "file_path \<Rightarrow> files \<Rightarrow> nat \<Rightarrow> gen" where
  "gen_after dir fs k = (let z = gen_zero fs dir in
     \<lparr>g_fs = written dir fs (take k alice_items), g_writer = writer_after dir (take k alice_items),
      g_ls = (if k < 3 then new_local_state else if k < 7 then state_b else state_c),
      g_root_a = (if k < 1 then [] else root_a),
      g_old_balance = (if k < 2 then [] else ''0''),
      g_deposit = (if k < 2 then zero_deposit_record else gen_dep1),
      g_root_b = (if k < 3 then [] else root_b),
      g_request = (if k < 4 then zero_withdraw_request else vec_request),
      g_nullifier = (if k < 5 then [] else vec_nullifier),
      g_destination_hash = (if k < 6 then [] else vec_destination_hash),
      g_root_c = (if k < 7 then [] else root_c),
      g_inputs = (if k < 8 then g_inputs z else vec_inputs),
      g_update = (if k < 8 then zero_settlement_update else vec_update),
      g_commitments = (if k < 9 then zero_batch_commitments else vec_commitments),
      g_witness = (if k < 10 then zero_witness else vec_witness),
      g_public_inputs = (if k < 11 then [] else vec_public_inputs)\<rparr>)"

lemma gen_after_zero: "gen_after dir fs 0 = gen_zero fs dir"
  by (simp add: gen_after_def gen_zero_def new_out_writer_def writer_after_def Let_def)

lemma gen_file_next:
  assumes "g_fs g = written dir fs its" and "g_writer g = writer_after dir its"
    and "can_write fs dir n" and "n \<notin> set (map fst its)" and "md_state_task md \<noteq> []" and "md_schema md \<noteq> []"
  shows "gen_file n v md g = Inr (g\<lparr>g_fs := written dir fs (its @ [vector_item n v md]),
    g_writer := writer_after dir (its @ [vector_item n v md])\<rparr>)"
  using write_vector_next [OF assms(3,4)] assms by (simp add: gen_file_def gen_write_def vector_item_def)

definition all_writable :: "file_path \<Rightarrow> files \<Rightarrow> bool" where
  "all_writable dir fs \<longleftrightarrow> (\<forall>it \<in> set alice_items. can_write fs dir (fst it))"

lemma all_writableD: "all_writable dir fs \<Longrightarrow> k < 11 \<Longrightarrow> can_write fs dir (fst (alice_items ! k))"
  unfolding all_writable_def by (rule bspec, assumption, rule nth_mem) (simp add: alice_items_def)

lemma alice_names: "map fst alice_items = [''initial_state.json'', ''deposit_dep_1.json'', ''state_after_deposit.json'',
    ''withdraw_request_wd_1.json'', ''nullifier_wd_1.json'', ''destination_hash_wd_1.json'',
    ''state_after_withdrawal.json'', ''settlement_update_batch_1.json'', ''batch_commitments_batch_1.json'',
    ''witness_batch_1.json'', ''public_inputs_batch_1.json'']"
  by (simp add: alice_items_def vector_item_def)

lemma alice_distinct: "distinct (map fst alice_items)"
  unfolding alice_names by simp

lemma distinct_nth_not_before: "distinct xs \<Longrightarrow> k < length xs \<Longrightarrow> xs ! k \<notin> set (take k xs)"
  using set_take_disj_set_drop_if_distinct [of xs k k] by (metis Cons_nth_drop_Suc disjoint_iff list.set_intros(1) order_refl)

lemma gen_file_step:
  assumes "all_writable dir fs" and "k < 11" and "alice_items ! k = vector_item n v md"
    and "md_state_task md \<noteq> []" and "md_schema md \<noteq> []"
    and "g_fs g = written dir fs (take k alice_items)" and "g_writer g = writer_after dir (take k alice_items)"
  shows "gen_file n v md g = Inr (g\<lparr>g_fs := written dir fs (take (Suc k) alice_items),
    g_writer := writer_after dir (take (Suc k) alice_items)\<rparr>)"
proof -
  have len: "k < length alice_items" using assms(2) by (simp add: alice_items_def)
  have n: "fst (alice_items ! k) = n" using assms(3) by (simp add: vector_item_def)
  have "n \<notin> set (map fst (take k alice_items))"
    using distinct_nth_not_before [OF alice_distinct, of k] len n by (simp add: take_map)
  from gen_file_next [OF assms(6,7) _ this assms(4,5)] all_writableD [OF assms(1,2)] n assms(3)
  show ?thesis by (simp add: take_Suc_conv_app_nth [OF len])
qed

subsection \<open>The steps\<close>

lemma snapshot_after:
  "snapshot_accounts (ls_accounts new_local_state) = []"
  "snapshot_accounts (ls_accounts state_b) = [vec_account ''100'' ''0'']"
  "snapshot_accounts (ls_accounts state_c) = [vec_account ''60'' ''1'']"
  by (simp_all add: new_local_state_def new_account_state_def snapshot_accounts_def sort_accounts_def state_b_def state_c_def)

lemma account_after:
  "acc_balance (local_account new_local_state gen_alice gen_denom) = ''0''"
  "local_account state_c gen_alice gen_denom = vec_account ''60'' ''1''"
  by (simp_all add: local_account_def account_get_or_zero_def account_get_def new_account_key_def gen_names vec_eval
      new_local_state_def new_account_state_def zero_account_def state_c_def vec_key_def)

lemmas step_eval = gen_after_def Let_def initial_root snapshot_of_def snapshot_after account_after gen_apply_deposit_eq
  gen_build_request_eq gen_nullifier_eq gen_apply_withdrawal_eq gen_settlement_eq gen_commitments_eq
  gen_witness_eq gen_public_inputs_eq

lemma alice_nth:
  "alice_items ! 0 = vector_item ''initial_state.json'' (state_snapshot_json vec_snapshot_a) md_initial"
  "alice_items ! 1 = vector_item ''deposit_dep_1.json'' (deposit_record_json gen_dep1) md_deposit"
  "alice_items ! 2 = vector_item ''state_after_deposit.json'' (state_snapshot_json vec_snapshot_b) md_after_deposit"
  "alice_items ! 3 = vector_item ''withdraw_request_wd_1.json'' (withdraw_request_json vec_request) md_request"
  "alice_items ! 4 = vector_item ''nullifier_wd_1.json'' (nullifier_vector_json vec_nullifier_vector) md_nullifier"
  "alice_items ! 5 = vector_item ''destination_hash_wd_1.json'' (destination_hash_vector_json vec_destination_vector) md_destination"
  "alice_items ! 6 = vector_item ''state_after_withdrawal.json'' (state_snapshot_json vec_snapshot_c) md_after_withdrawal"
  "alice_items ! 7 = vector_item ''settlement_update_batch_1.json'' (settlement_update_json vec_update) md_settlement"
  "alice_items ! 8 = vector_item ''batch_commitments_batch_1.json'' (batch_commitments_vector_json vec_commitments_vector) md_commitments"
  "alice_items ! 9 = vector_item ''witness_batch_1.json'' (witness_json vec_witness) md_witness"
  "alice_items ! 10 = vector_item ''public_inputs_batch_1.json'' (public_inputs_vector_json vec_public_inputs_vector) md_public_inputs"
  by (simp_all add: alice_items_def)

lemma md_described:
  "md_state_task md_initial \<noteq> []" "md_schema md_initial \<noteq> []"
  "md_state_task md_deposit \<noteq> []" "md_schema md_deposit \<noteq> []"
  "md_state_task md_after_deposit \<noteq> []" "md_schema md_after_deposit \<noteq> []"
  "md_state_task md_request \<noteq> []" "md_schema md_request \<noteq> []"
  "md_state_task md_nullifier \<noteq> []" "md_schema md_nullifier \<noteq> []"
  "md_state_task md_destination \<noteq> []" "md_schema md_destination \<noteq> []"
  "md_state_task md_after_withdrawal \<noteq> []" "md_schema md_after_withdrawal \<noteq> []"
  "md_state_task md_settlement \<noteq> []" "md_schema md_settlement \<noteq> []"
  "md_state_task md_commitments \<noteq> []" "md_schema md_commitments \<noteq> []"
  "md_state_task md_witness \<noteq> []" "md_schema md_witness \<noteq> []"
  "md_state_task md_public_inputs \<noteq> []" "md_schema md_public_inputs \<noteq> []"
  by (simp_all add: md_initial_def md_deposit_def md_after_deposit_def md_request_def md_nullifier_def md_destination_def md_after_withdrawal_def md_settlement_def md_commitments_def md_witness_def md_public_inputs_def)

lemma step_zero: "written dir fs [] = fs" "take 0 its = []" by simp_all

lemma gen_file_at:
  assumes "all_writable dir fs" and "alice_items ! k = vector_item n v md" and "k < 11" and "k' = Suc k"
    and "md_state_task md \<noteq> []" and "md_schema md \<noteq> []"
  shows "gen_file n v md \<lparr>g_fs = written dir fs (take k alice_items), g_writer = writer_after dir (take k alice_items),
      g_ls = a, g_root_a = b, g_old_balance = c, g_deposit = d, g_root_b = e, g_request = f, g_nullifier = g,
      g_destination_hash = h, g_root_c = i, g_inputs = j, g_update = l, g_commitments = m, g_witness = x, g_public_inputs = y\<rparr>
    = Inr \<lparr>g_fs = written dir fs (take k' alice_items), g_writer = writer_after dir (take k' alice_items),
      g_ls = a, g_root_a = b, g_old_balance = c, g_deposit = d, g_root_b = e, g_request = f, g_nullifier = g,
      g_destination_hash = h, g_root_c = i, g_inputs = j, g_update = l, g_commitments = m, g_witness = x, g_public_inputs = y\<rparr>"
  using gen_file_step [OF assms(1,3,2,5,6)] assms(4) by simp

lemma vec_fields:
  "wr_nonce vec_request = ''1''" "wr_id vec_request = ''wd-1''" "wr_destination vec_request = ''cosmos1alice''"
  "su_batch_id vec_update = ''batch-1''" "ls_root state_b = root_b" "length vec_public_inputs = 6"
  by (simp_all add: vec_request_def vec_update_def state_b_def vec_public_inputs_def)

lemma inputs_fold: "\<lparr>si_old_root = root_b, si_new_root = root_c, si_deposits = [gen_dep1],
    si_withdrawals = [\<lparr>wn_request = vec_request, wn_nullifier = vec_nullifier,
       wn_destination_hash = vec_destination_hash\<rparr>]\<rparr> = vec_inputs"
  by (simp add: vec_inputs_def)

lemma vec_account_fields: "acc_balance (vec_account b n) = b" "acc_nonce (vec_account b n) = n"
  by (simp_all add: vec_account_def)

lemmas step_simps = step_eval md_described vec_fields inputs_fold vec_account_fields gen_destination_eq commitment_domain_tags_def

lemma step_initial: "all_writable dir fs \<Longrightarrow> gen_initial (gen_after dir fs 0) = Inr (gen_after dir fs 1)"
  using gen_file_at [OF _ alice_nth(1), of dir fs 1] by (simp add: gen_initial_def step_simps vec_snapshot_a_def del: One_nat_def)

lemma step_deposit_record: "all_writable dir fs \<Longrightarrow> gen_deposit_record (gen_after dir fs 1) = Inr (gen_after dir fs 2)"
  using gen_file_at [OF _ alice_nth(2), of dir fs 2] by (simp add: gen_deposit_record_def step_simps del: One_nat_def)

lemma step_apply_deposit: "all_writable dir fs \<Longrightarrow> gen_apply_deposit (gen_after dir fs 2) = Inr (gen_after dir fs 3)"
  using gen_file_at [OF _ alice_nth(3), of dir fs 3] by (simp add: gen_apply_deposit_def step_simps vec_snapshot_b_def del: One_nat_def)

lemma step_build_request: "all_writable dir fs \<Longrightarrow> gen_build_request (gen_after dir fs 3) = Inr (gen_after dir fs 4)"
  using gen_file_at [OF _ alice_nth(4), of dir fs 4] by (simp add: gen_build_request_def step_simps del: One_nat_def)

lemma step_derive_nullifier: "all_writable dir fs \<Longrightarrow> gen_derive_nullifier (gen_after dir fs 4) = Inr (gen_after dir fs 5)"
  using gen_file_at [OF _ alice_nth(5), of dir fs 5] by (simp add: gen_derive_nullifier_def step_simps vec_nullifier_vector_def del: One_nat_def)

lemma step_derive_destination: "all_writable dir fs \<Longrightarrow> gen_derive_destination (gen_after dir fs 5) = Inr (gen_after dir fs 6)"
  using gen_file_at [OF _ alice_nth(6), of dir fs 6] by (simp add: gen_derive_destination_def step_simps vec_destination_vector_def del: One_nat_def)

lemma step_apply_withdrawal: "all_writable dir fs \<Longrightarrow> gen_apply_withdrawal (gen_after dir fs 6) = Inr (gen_after dir fs 7)"
  using gen_file_at [OF _ alice_nth(7), of dir fs 7] by (simp add: gen_apply_withdrawal_def step_simps vec_snapshot_c_def del: One_nat_def)

lemma step_settlement: "all_writable dir fs \<Longrightarrow> gen_settlement (gen_after dir fs 7) = Inr (gen_after dir fs 8)"
  using gen_file_at [OF _ alice_nth(8), of dir fs 8] by (simp add: gen_settlement_def step_simps del: One_nat_def)

lemma step_build_commitments: "all_writable dir fs \<Longrightarrow> gen_build_commitments (gen_after dir fs 8) = Inr (gen_after dir fs 9)"
  using gen_file_at [OF _ alice_nth(9), of dir fs 9] by (simp add: gen_build_commitments_def step_simps vec_commitments_vector_def del: One_nat_def)

lemma step_build_witness: "all_writable dir fs \<Longrightarrow> gen_build_witness (gen_after dir fs 9) = Inr (gen_after dir fs 10)"
  using gen_file_at [OF _ alice_nth(10), of dir fs 10] by (simp add: gen_build_witness_def step_simps del: One_nat_def)

lemma step_build_public_inputs:
  assumes "all_writable dir fs"
  shows "gen_build_public_inputs (gen_after dir fs 10) = Inr (gen_after dir fs 11)"
proof -
  have "(10 :: nat) < 11" "(11 :: nat) = Suc 10" by simp_all
  note at = gen_file_at [OF assms alice_nth(11) this md_described(21,22)]
  show ?thesis
    unfolding gen_build_public_inputs_def gen_after_def Let_def
    using at by (simp add: gen_public_inputs_eq vec_fields vec_public_inputs_vector_def del: One_nat_def)
qed

lemma step_post_checks: "gen_post_checks (gen_after dir fs 11) = Inr (gen_after dir fs 11)"
  by (simp add: gen_post_checks_def gen_after_def account_after vec_account_fields vec_fields Let_def)

subsection \<open>The legacy file and the manifest\<close>

definition vec_manifest :: manifest where
  "vec_manifest = \<lparr>mf_scenario = scenario_name,
     mf_description = ''Alice 100/40 canonical scenario: deposit 100 uusdc, withdraw 40 uusdc, final user balance = 60.'',
     mf_vector_version = ''v0'', mf_hash_algorithm = ''sha256'', mf_generator = ''p3/script-test/gen_state_vectors'',
     mf_alice = \<lparr>ma_address = ''cosmos1alice'', ma_denom = ''uusdc'', ma_deposit_amount = ''100'',
       ma_withdraw_amount = ''40'', ma_starting_balance = ''1000'', ma_final_balance = ''60'', ma_module_final = ''60''\<rparr>,
     mf_roots = \<lparr>mr_root_a = root_a, mr_root_b = root_b, mr_root_c = root_c\<rparr>,
     mf_domain_tags = \<lparr>mt_nullifier = nullifier_domain_tag, mt_withdraw_address = withdraw_address_domain_tag,
       mt_deposits_root = deposits_root_domain_tag, mt_withdrawals_root = withdrawals_root_domain_tag,
       mt_nullifiers_root = nullifiers_root_domain_tag, mt_withdraw_outputs_root = withdraw_outputs_root_domain_tag\<rparr>,
     mf_files = sort_key me_name (map item_entry alice_items), mf_note = note_manifest\<rparr>"

lemma manifest_after:
  "(gen_manifest_of (gen_after dir fs 11))\<lparr>mf_files := sort_key me_name (map item_entry alice_items)\<rparr> = vec_manifest"
  by (simp add: gen_manifest_of_def vec_manifest_def gen_after_def commitment_domain_tags_def gen_names
      gen_vector_version_def Let_def)

text \<open>The folder of the happy path can be written to, and neither the legacy file nor the manifest is in the way.\<close>

definition happy_ready :: "file_path \<Rightarrow> files \<Rightarrow> bool" where
  "happy_ready dir fs \<longleftrightarrow> all_writable dir fs \<and> can_write fs dir manifest_file \<and> can_write fs dir legacy_file"

definition without_legacy :: "file_path \<Rightarrow> files \<Rightarrow> files" where
  "without_legacy dir fs = (if node_at fs (dir @ [legacy_file]) = None then fs else AList.delete (dir @ [legacy_file]) fs)"

definition happy_files :: "file_path \<Rightarrow> files \<Rightarrow> files" where
  "happy_files dir fs = put_node (without_legacy dir (written dir fs alice_items)) (dir @ [manifest_file])
     (Plain (file_text (manifest_json vec_manifest)))"

lemma node_at_without_legacy [simp]:
  "node_at (without_legacy dir fs) q = (if q = dir @ [legacy_file] then None else node_at fs q)"
  by (simp add: without_legacy_def node_at_delete)

lemma legacy_fresh: "legacy_file \<notin> set (map fst alice_items)" "manifest_file \<notin> set (map fst alice_items)"
  "legacy_file \<noteq> manifest_file"
  unfolding alice_names by (simp_all add: legacy_file_def manifest_file_def)

lemma gen_after_end:
  "g_fs (gen_after dir fs 11) = written dir fs alice_items" "g_writer (gen_after dir fs 11) = writer_after dir alice_items"
proof -
  have "take 11 alice_items = alice_items" by (simp add: alice_items_def)
  then show "g_fs (gen_after dir fs 11) = written dir fs alice_items" "g_writer (gen_after dir fs 11) = writer_after dir alice_items"
    by (simp_all add: gen_after_def Let_def)
qed

lemma step_remove_legacy:
  assumes "happy_ready dir fs"
  shows "gen_remove_legacy (gen_after dir fs 11)
    = Inr ((gen_after dir fs 11)\<lparr>g_fs := without_legacy dir (written dir fs alice_items)\<rparr>)"
proof -
  have c: "can_write (written dir fs alice_items) dir legacy_file"
    using assms can_write_written legacy_fresh(1) by (auto simp: happy_ready_def)
  then have "simple_name legacy_file" by (simp add: can_write_def)
  with c show ?thesis
    by (auto simp: gen_remove_legacy_def gen_after_end writer_after_def os_remove_if_exists_def can_write_def
        without_legacy_def split: option.split node.split)
qed

lemma step_manifest:
  assumes "happy_ready dir fs"
  shows "gen_manifest ((gen_after dir fs 11)\<lparr>g_fs := without_legacy dir (written dir fs alice_items)\<rparr>)
    = Inr ((gen_after dir fs 11)\<lparr>g_fs := happy_files dir fs\<rparr>)"
proof -
  have "can_write (written dir fs alice_items) dir manifest_file"
    using assms can_write_written legacy_fresh(2) by (auto simp: happy_ready_def)
  then have c: "can_write (without_legacy dir (written dir fs alice_items)) dir manifest_file"
    using legacy_fresh(3) by (auto simp: can_write_def)
  have m: "(gen_manifest_of (g\<lparr>g_fs := f\<rparr>)) = gen_manifest_of g" for g f
    by (simp add: gen_manifest_of_def)
  show ?thesis
    using emit_file_can [OF c, of "writer_after dir alice_items" "manifest_json vec_manifest"] manifest_after [of dir fs]
    by (simp add: gen_manifest_def gen_emit_manifest_def gen_after_end m) (simp add: writer_after_def happy_files_def)
qed

lemma happy_steps_run:
  "happy_ready dir fs \<Longrightarrow> fold_res (\<lambda>g step. step g) (gen_zero fs dir) happy_steps
     = Inr ((gen_after dir fs 11)\<lparr>g_fs := happy_files dir fs\<rparr>)"
  unfolding happy_steps_def gen_after_zero [symmetric]
  by (simp add: step_initial step_deposit_record step_apply_deposit step_build_request step_derive_nullifier
      step_derive_destination step_apply_withdrawal step_settlement step_build_commitments step_build_witness
      step_build_public_inputs step_post_checks step_remove_legacy step_manifest happy_ready_def del: One_nat_def)

end
