(* ===== verification/Failure_Run.thy ===== *)
theory Failure_Run
  imports Generator_Run
begin

text \<open>
  The failure vectors the generator writes after the happy path, and the file system at the end of
  \<^verbatim>\<open>main\<close>: \<open>gen_main_files\<close> says of every path what it holds.
\<close>

subsection \<open>The values of the failure vectors\<close>

definition vec_artifacts :: happy_artifacts where
  "vec_artifacts = \<lparr>hp_root_a = root_a, hp_root_b = root_b, hp_root_c = root_c, hp_deposit = gen_dep1,
     hp_request = vec_request, hp_nullifier = vec_nullifier, hp_destination_hash = vec_destination_hash,
     hp_settlement = vec_update, hp_commitments = vec_commitments\<rparr>"

lemma artifacts_after: "artifacts_of ((gen_after dir fs 11)\<lparr>g_fs := f\<rparr>) = vec_artifacts"
  by (simp add: artifacts_of_def gen_after_def vec_artifacts_def Let_def)

definition bad_root :: string where
  "bad_root = ''0xa8a7a1722e9ac83a6e80bfc921d00fe42ea9090e7cf95d5d1e209f68d37f6cc8''"

lemma wrong_old_root_eq: "wrong_old_root = bad_root"
  unfolding wrong_old_root_def sha256_hex32_def sha256_text bad_root_def by (rule digest_wrong_root [simplified])

definition replay_withdrawal :: settlement_withdrawal where
  "replay_withdrawal = vec_withdrawal\<lparr>sw_id := ''wd-2-replay'', sw_amount := ''20''\<rparr>"

definition replay_update :: settlement_update where
  "replay_update = vec_update\<lparr>su_withdrawals := [vec_withdrawal, replay_withdrawal]\<rparr>"

definition bad_root_update :: settlement_update where
  "bad_root_update = vec_update\<lparr>su_old_root := bad_root\<rparr>"

definition stolen_update :: settlement_update where
  "stolen_update = vec_update\<lparr>su_withdrawals := [vec_withdrawal\<lparr>sw_destination := attacker_addr\<rparr>]\<rparr>"

definition inputs_of :: "settlement_update \<Rightarrow> string list" where
  "inputs_of u = (let c = build_commitments u in [su_old_root u, su_new_root u, bc_deposits_root c, bc_withdrawals_root c,
     bc_nullifiers_root c, bc_withdraw_outputs_root c])"

lemma build_inputs_of:
  "hex_value (su_old_root u) \<Longrightarrow> hex_value (su_new_root u) \<Longrightarrow> su_old_root u \<noteq> su_new_root u
     \<Longrightarrow> build_public_inputs u (build_commitments u) = Inr (inputs_of u)"
  by (simp add: build_public_inputs_eq inputs_of_def Let_def)

lemma bad_root_facts: "hex_value bad_root" "bad_root \<noteq> root_b" "bad_root \<noteq> root_c"
  by (simp_all add: hex_value_def bad_root_def root_b_def root_c_def trim_space_ends_eval plain_char_def
      is_hex_prefixed_def strip_hex_def hex_prefix_def)

lemma failure_updates:
  "wrong_root_settlement vec_artifacts = bad_root_update"
  "replay_settlement vec_artifacts = Some replay_update"
  "tampered_settlement vec_artifacts = Some stolen_update"
  by (simp_all add: wrong_root_settlement_def replay_settlement_def tampered_settlement_def clone_settlement_def
      vec_artifacts_def wrong_old_root_eq bad_root_update_def replay_update_def stolen_update_def vec_update_def
      replay_withdrawal_def Let_def)

lemma failure_inputs:
  "build_public_inputs bad_root_update (build_commitments bad_root_update) = Inr (inputs_of bad_root_update)"
  "build_public_inputs replay_update (build_commitments replay_update) = Inr (inputs_of replay_update)"
  "build_public_inputs stolen_update (build_commitments stolen_update) = Inr (inputs_of stolen_update)"
  by (rule build_inputs_of; simp add: bad_root_update_def replay_update_def stolen_update_def vec_update_def
      bad_root_facts vec_roots_differ)+

definition vec_over_withdraw :: over_withdraw_vector where
  "vec_over_withdraw = over_withdraw_of vec_artifacts (vec_account ''100'' ''0'')"

definition vec_wrong_root :: wrong_root_vector where
  "vec_wrong_root = \<lparr>wv_meta = wrong_root_meta, wv_correct_old_root = root_b, wv_tampered = bad_root_update,
     wv_commitments = build_commitments bad_root_update, wv_public_inputs = inputs_of bad_root_update\<rparr>"

definition vec_duplicate :: duplicate_nullifier_vector where
  "vec_duplicate = \<lparr>nn_meta = duplicate_meta, nn_nullifier = vec_nullifier, nn_update = replay_update,
     nn_commitments = build_commitments replay_update, nn_public_inputs = inputs_of replay_update\<rparr>"

definition vec_tampered :: tampered_destination_vector where
  "vec_tampered = \<lparr>tv_meta = tampered_meta, tv_original = ''cosmos1alice'', tv_tampered = attacker_addr,
     tv_original_hash = vec_destination_hash, tv_settlement = stolen_update,
     tv_commitments = build_commitments stolen_update, tv_public_inputs = inputs_of stolen_update\<rparr>"

subsection \<open>The run\<close>

definition failure_item :: "string \<Rightarrow> json \<Rightarrow> failure_file_meta \<Rightarrow> failure_manifest_entry item" where
  "failure_item n v md = (n, v, failure_entry n md)"

definition failure_items :: "failure_manifest_entry item list" where
  "failure_items =
     [failure_item file_over_withdraw (over_withdraw_vector_json vec_over_withdraw) fd_over_withdraw,
      failure_item file_wrong_root (wrong_root_vector_json vec_wrong_root) fd_wrong_root,
      failure_item file_duplicate_nullifier (duplicate_nullifier_vector_json vec_duplicate) fd_duplicate,
      failure_item file_tampered_destination (tampered_destination_vector_json vec_tampered) fd_tampered]"

lemmas failure_names_def = file_over_withdraw_def file_wrong_root_def file_duplicate_nullifier_def
  file_tampered_destination_def

lemma failure_names: "map fst failure_items = [''over_withdraw.json'', ''wrong_root.json'', ''duplicate_nullifier.json'',
    ''tampered_destination.json'']"
  by (simp add: failure_items_def failure_item_def failure_names_def)

lemma failure_distinct: "distinct (map fst failure_items)"
  unfolding failure_names by simp

lemma fd_described:
  "fd_case fd_over_withdraw \<noteq> []" "fd_schema fd_over_withdraw \<noteq> []" "fd_case fd_wrong_root \<noteq> []" "fd_schema fd_wrong_root \<noteq> []"
  "fd_case fd_duplicate \<noteq> []" "fd_schema fd_duplicate \<noteq> []" "fd_case fd_tampered \<noteq> []" "fd_schema fd_tampered \<noteq> []"
  by (simp_all add: fd_over_withdraw_def fd_wrong_root_def fd_duplicate_def fd_tampered_def case_over_withdraw_def
      case_wrong_root_def case_duplicate_nullifier_def case_tampered_destination_def)

lemma failure_write_next:
  assumes "can_write fs dir n" and "n \<notin> set (map fst its)" and "fd_case md \<noteq> []" and "fd_schema md \<noteq> []"
  shows "failure_write n v md (written dir fs its, writer_after dir its)
    = Inr (written dir fs (its @ [failure_item n v md]), writer_after dir (its @ [failure_item n v md]))"
  using write_vector_next [OF assms(1,2)] assms(3,4) by (simp add: failure_write_def failure_item_def)

definition failure_ready :: "file_path \<Rightarrow> files \<Rightarrow> bool" where
  "failure_ready dir fs \<longleftrightarrow> (\<forall>n \<in> set (failure_manifest_file # map fst failure_items). can_write fs dir n)"

lemma over_withdraw_account: "local_account state_b (wr_owner vec_request) (wr_denom vec_request) = vec_account ''100'' ''0''"
  by (simp add: local_account_def account_get_or_zero_def account_get_def new_account_key_def vec_request_def vec_eval
      state_b_def vec_key_def)

lemma artifact_fields:
  "hp_deposit vec_artifacts = gen_dep1" "hp_request vec_artifacts = vec_request" "hp_root_b vec_artifacts = root_b"
  "hp_nullifier vec_artifacts = vec_nullifier" "hp_destination_hash vec_artifacts = vec_destination_hash"
  by (simp_all add: vec_artifacts_def)

text \<open>One file of the failure folder, after those before it.\<close>

lemma failure_file_step:
  assumes "failure_ready dir fs" and "k < 4" and "failure_items ! k = failure_item n v md"
    and "fd_case md \<noteq> []" and "fd_schema md \<noteq> []"
  shows "failure_write n v md (written dir fs (take k failure_items), writer_after dir (take k failure_items))
    = Inr (written dir fs (take (Suc k) failure_items), writer_after dir (take (Suc k) failure_items))"
proof -
  have len: "k < length failure_items" using assms(2) by (simp add: failure_items_def)
  have n: "fst (failure_items ! k) = n" using assms(3) by (simp add: failure_item_def)
  have w: "can_write fs dir n" using assms(1) nth_mem [OF len] n by (auto simp: failure_ready_def)
  have "n \<notin> set (map fst (take k failure_items))"
    using distinct_nth_not_before [OF failure_distinct, of k] len n by (simp add: take_map)
  from failure_write_next [OF w this assms(4,5)] assms(3)
  show ?thesis by (simp add: take_Suc_conv_app_nth [OF len])
qed

lemma failure_steps_run:
  assumes "failure_ready dir fs"
  shows "fold_res (\<lambda>x step. step x) (fs, new_out_writer dir) (failure_steps vec_artifacts)
    = Inr (written dir fs failure_items, writer_after dir failure_items)"
proof -
  let ?x = "\<lambda>k. (written dir fs (take k failure_items), writer_after dir (take k failure_items))"
  note file_step = failure_file_step [OF assms]
  have "emit_over_withdraw vec_artifacts (?x 0) = Inr (?x 1)"
    using file_step [of 0 file_over_withdraw "over_withdraw_vector_json vec_over_withdraw" fd_over_withdraw]
    by (simp add: failure_items_def emit_over_withdraw_def artifact_fields gen_apply_deposit_eq over_withdraw_account
        vec_over_withdraw_def fd_described)
  moreover have "emit_wrong_root vec_artifacts (?x 1) = Inr (?x 2)"
    using file_step [of 1 file_wrong_root "wrong_root_vector_json vec_wrong_root" fd_wrong_root]
    by (simp add: failure_items_def emit_wrong_root_def artifact_fields failure_updates failure_inputs Let_def vec_wrong_root_def
        fd_described numeral_2_eq_2)
  moreover have "emit_duplicate_nullifier vec_artifacts (?x 2) = Inr (?x 3)"
    using file_step [of 2 file_duplicate_nullifier "duplicate_nullifier_vector_json vec_duplicate" fd_duplicate]
    by (simp add: failure_items_def emit_duplicate_nullifier_def artifact_fields failure_updates failure_inputs Let_def
        vec_duplicate_def fd_described numeral_2_eq_2 numeral_3_eq_3)
  moreover have "emit_tampered_destination vec_artifacts (?x 3) = Inr (?x 4)"
    using file_step [of 3 file_tampered_destination "tampered_destination_vector_json vec_tampered" fd_tampered]
    by (simp add: failure_items_def emit_tampered_destination_def artifact_fields failure_updates failure_inputs Let_def
        vec_tampered_def fd_described vec_fields)
  moreover have "?x 0 = (fs, new_out_writer dir)" by (simp add: new_out_writer_def writer_after_def)
  moreover have "take 4 failure_items = failure_items" by (simp add: failure_items_def)
  ultimately show ?thesis by (simp add: failure_steps_def del: take0 One_nat_def)
qed

subsection \<open>The file system at the end\<close>

definition vec_failure_manifest :: failure_manifest where
  "vec_failure_manifest = (failure_manifest_of vec_artifacts)\<lparr>ff_files := sort_key fe_name (map item_entry failure_items)\<rparr>"

definition item_files :: "file_path \<Rightarrow> 'e item list \<Rightarrow> (file_path \<times> string) list" where
  "item_files dir its = map (\<lambda>(n, v, _). (dir @ [n], file_text v)) its"

definition vector_files :: "file_path \<Rightarrow> (file_path \<times> string) list" where
  "vector_files dir = item_files dir alice_items @ [(dir @ [manifest_file], file_text (manifest_json vec_manifest))]
     @ item_files (dir @ [failure_subdir]) failure_items
     @ [(dir @ [failure_subdir, failure_manifest_file], file_text (failure_manifest_json vec_failure_manifest))]"

lemma item_files_None: "map_of (item_files dir its) q = None \<longleftrightarrow> (\<forall>n \<in> set (map fst its). q \<noteq> dir @ [n])"
  by (auto simp: item_files_def map_of_eq_None_iff image_iff)

lemma node_at_written_map:
  assumes "distinct (map fst its)"
  shows "node_at (written dir fs its) q = (case map_of (item_files dir its) q of Some s \<Rightarrow> Some (Plain s) | None \<Rightarrow> node_at fs q)"
proof (cases "map_of (item_files dir its) q")
  case None
  then have "\<And>n. n \<in> set (map fst its) \<Longrightarrow> q \<noteq> dir @ [n]" unfolding item_files_None by blast
  from node_at_written_other [OF this] None show ?thesis by simp
next
  case (Some s)
  then obtain n v e where "q = dir @ [n]" "s = file_text v" "(n, v, e) \<in> set its"
    by (auto simp: item_files_def dest!: map_of_SomeD)
  with node_at_written [OF assms] Some show ?thesis by auto
qed

text \<open>The generator can run: its folders are there or can be made, and nothing is in the way of a file.\<close>

definition free_file :: "files \<Rightarrow> file_path \<Rightarrow> bool" where
  "free_file fs p \<longleftrightarrow> node_at fs p \<notin> {Some Folder, Some Locked}"

definition generator_ready :: "file_path \<Rightarrow> files \<Rightarrow> bool" where
  "generator_ready cwd fs \<longleftrightarrow> (let dir = gen_out_dir cwd; sub = dir @ [failure_subdir] in
     (\<forall>q \<in> set (prefixes sub). q \<noteq> [] \<longrightarrow> node_at fs q \<in> {None, Some Folder})
     \<and> (\<forall>n \<in> set (legacy_file # manifest_file # map fst alice_items). free_file fs (dir @ [n]))
     \<and> (\<forall>n \<in> set (failure_manifest_file # map fst failure_items). free_file fs (sub @ [n])))"

lemma split_slash_append: "CHR ''/'' \<notin> set a \<Longrightarrow> split_slash (a @ CHR ''/'' # b) = a # split_slash b"
  by (induction a) auto

lemma gen_out_dir_eq: "gen_out_dir cwd = cwd @ [''testvectors'', ''alice_100_40'']"
  using split_slash_append [of "''testvectors''" "''alice_100_40''"] split_slash_simple [of "''alice_100_40''"]
  by (simp add: gen_out_dir_def join_path_def clean_component_def del: split_slash.simps)

lemma mkdir_all_ok:
  assumes "\<And>q. q \<noteq> [] \<Longrightarrow> prefix q p \<Longrightarrow> node_at fs q \<in> {None, Some Folder}"
  obtains fs' where "os_mkdir_all fs p = Some fs'"
    and "\<And>q. node_at fs' q = (if q \<noteq> [] \<and> prefix q p then Some Folder else node_at fs q)"
proof -
  have "\<exists>fs'. mkdir_from fs [] p = Some fs'
        \<and> (\<forall>q. node_at fs' q = (if \<exists>r. r \<noteq> [] \<and> prefix r p \<and> q = [] @ r then Some Folder else node_at fs q))"
    by (rule mkdir_from_ok) (use assms in auto)
  then obtain fs' where "mkdir_from fs [] p = Some fs'"
    "\<forall>q. node_at fs' q = (if \<exists>r. r \<noteq> [] \<and> prefix r p \<and> q = [] @ r then Some Folder else node_at fs q)" by blast
  then show thesis by (intro that [of fs']) (auto simp: os_mkdir_all_def)
qed

lemma simple_names:
  "n \<in> set (legacy_file # manifest_file # map fst alice_items) \<Longrightarrow> simple_name n"
  "n \<in> set (failure_manifest_file # map fst failure_items) \<Longrightarrow> simple_name n"
  "simple_name failure_subdir"
  unfolding alice_names failure_names
  by (auto simp: simple_name_def legacy_file_def manifest_file_def failure_manifest_file_def failure_subdir_def)

lemma names_not_subdir: "failure_subdir \<notin> set (legacy_file # manifest_file # map fst alice_items)"
  unfolding alice_names by (simp add: legacy_file_def manifest_file_def failure_subdir_def)

lemma node_at_happy_files:
  "node_at (happy_files dir fs) q = (if q = dir @ [manifest_file] then Some (Plain (file_text (manifest_json vec_manifest)))
     else if q = dir @ [legacy_file] then None
     else case map_of (item_files dir alice_items) q of Some s \<Rightarrow> Some (Plain s) | None \<Rightarrow> node_at fs q)"
  by (simp add: happy_files_def node_at_written_map [OF alice_distinct])

text \<open>What a path holds after the run.\<close>

definition after_run :: "file_path \<Rightarrow> files \<Rightarrow> file_path \<Rightarrow> node option" where
  "after_run dir fs q = (case map_of (vector_files dir) q of Some s \<Rightarrow> Some (Plain s)
     | None \<Rightarrow> if q = dir @ [legacy_file] then None
         else if q \<noteq> [] \<and> prefix q (dir @ [failure_subdir]) then Some Folder
         else node_at fs q)"

lemma gen_happy_run:
  assumes "generator_ready cwd fs"
  obtains fs1 where "gen_happy cwd fs
      = Inr ((gen_after (gen_out_dir cwd) fs1 11)\<lparr>g_fs := happy_files (gen_out_dir cwd) fs1\<rparr>)"
    and "\<And>q. node_at fs1 q = (if q \<noteq> [] \<and> prefix q (gen_out_dir cwd) then Some Folder else node_at fs q)"
proof -
  let ?dir = "gen_out_dir cwd"
  have "node_at fs q \<in> {None, Some Folder}" if "q \<noteq> []" "prefix q ?dir" for q
    using assms that by (auto simp: generator_ready_def Let_def)
  then obtain fs1 where m: "os_mkdir_all fs ?dir = Some fs1"
    and n: "\<And>q. node_at fs1 q = (if q \<noteq> [] \<and> prefix q ?dir then Some Folder else node_at fs q)"
    by (rule mkdir_all_ok) blast+
  have "can_write fs1 ?dir k" if k: "k \<in> set (legacy_file # manifest_file # map fst alice_items)" for k
  proof -
    have "free_file fs (?dir @ [k])" using assms k unfolding generator_ready_def Let_def by blast
    with simple_names(1) [OF k] show ?thesis
      by (auto simp: can_write_def n free_file_def gen_out_dir_eq dest: prefix_length_le)
  qed
  then have "happy_ready ?dir fs1" by (simp add: happy_ready_def all_writable_def)
  from happy_steps_run [OF this] show thesis by (intro that [OF _ n]) (simp add: gen_happy_def m)
qed

lemma failure_manifest_fresh: "failure_manifest_file \<notin> set (map fst failure_items)"
  unfolding failure_names by (simp add: failure_manifest_file_def)

lemma emit_failure_run:
  assumes "\<And>q. q \<noteq> [] \<Longrightarrow> prefix q (dir @ [failure_subdir]) \<Longrightarrow> node_at fs q \<in> {None, Some Folder}"
    and "\<And>n. n \<in> set (failure_manifest_file # map fst failure_items) \<Longrightarrow> free_file fs (dir @ [failure_subdir, n])"
  obtains fs' where "emit_failure_vectors dir vec_artifacts fs = Inr fs'"
    and "\<And>q. node_at fs' q = (if q = dir @ [failure_subdir, failure_manifest_file]
      then Some (Plain (file_text (failure_manifest_json vec_failure_manifest)))
      else case map_of (item_files (dir @ [failure_subdir]) failure_items) q of Some s \<Rightarrow> Some (Plain s)
      | None \<Rightarrow> if q \<noteq> [] \<and> prefix q (dir @ [failure_subdir]) then Some Folder else node_at fs q)"
proof -
  let ?sub = "dir @ [failure_subdir]"
  obtain fs1 where m: "os_mkdir_all fs ?sub = Some fs1"
    and fs1: "\<And>q. node_at fs1 q = (if q \<noteq> [] \<and> prefix q ?sub then Some Folder else node_at fs q)"
    using assms(1) by (rule mkdir_all_ok) blast+
  have w: "can_write fs1 ?sub k" if k: "k \<in> set (failure_manifest_file # map fst failure_items)" for k
    using assms(2) [OF k] simple_names(2) [OF k]
    by (auto simp: can_write_def fs1 free_file_def dest: prefix_length_le)
  then have ready: "failure_ready ?sub fs1" by (simp add: failure_ready_def)
  let ?fs2 = "written ?sub fs1 failure_items"
  have "can_write ?fs2 ?sub failure_manifest_file" using w failure_manifest_fresh by (simp add: can_write_written)
  note emit = emit_file_can [OF this, of "writer_after ?sub failure_items" "failure_manifest_json vec_failure_manifest"]
  show thesis
  proof (rule that)
    show "emit_failure_vectors dir vec_artifacts fs
      = Inr (put_node ?fs2 (?sub @ [failure_manifest_file]) (Plain (file_text (failure_manifest_json vec_failure_manifest))))"
      using emit by (simp add: emit_failure_vectors_def Let_def simple_names(3) m failure_steps_run [OF ready]
        failure_emit_manifest_def vec_failure_manifest_def) (simp add: writer_after_def)
  qed (simp add: node_at_written_map [OF failure_distinct] fs1 split: option.split)
qed

text \<open>The two halves of the run, seen from one path.\<close>

lemma after_run_happy:
  assumes k: "k \<in> set (legacy_file # manifest_file # map fst alice_items)" "q = dir @ [k]"
    and n: "\<And>q. node_at fs1 q = (if q \<noteq> [] \<and> prefix q dir then Some Folder else node_at fs q)"
  shows "after_run dir fs q = node_at (happy_files dir fs1) q"
    and "map_of (item_files (dir @ [failure_subdir]) failure_items) q = None"
    and "q \<noteq> dir @ [failure_subdir, failure_manifest_file]" and "\<not> prefix q (dir @ [failure_subdir])"
proof -
  let ?A = "item_files dir alice_items"
  show B: "map_of (item_files (dir @ [failure_subdir]) failure_items) q = None"
    "q \<noteq> dir @ [failure_subdir, failure_manifest_file]" using k by (auto simp: item_files_None)
  show p: "\<not> prefix q (dir @ [failure_subdir])" using k names_not_subdir by auto
  show "after_run dir fs q = node_at (happy_files dir fs1) q"
  proof (cases "map_of ?A q")
    case None
    then have "q = dir @ [legacy_file] \<or> q = dir @ [manifest_file]" using k unfolding item_files_None by auto
    with None B p legacy_fresh(3) show ?thesis
      unfolding node_at_happy_files after_run_def vector_files_def map_of_append
      by (cases "q = dir @ [manifest_file]") (simp_all add: map_add_def)
  next
    case (Some t)
    then have "\<exists>n \<in> set (map fst alice_items). q = dir @ [n]"
      using item_files_None [of dir alice_items q] by auto
    with legacy_fresh(1,2) have "q \<noteq> dir @ [manifest_file]" "q \<noteq> dir @ [legacy_file]"
      by (metis append1_eq_conv)+
    with Some B show ?thesis
      unfolding node_at_happy_files after_run_def vector_files_def map_of_append by (simp add: map_add_def)
  qed
qed

lemma happy_files_other:
  "(\<And>k. k \<in> set (legacy_file # manifest_file # map fst alice_items) \<Longrightarrow> q \<noteq> dir @ [k])
     \<Longrightarrow> node_at (happy_files dir fs) q = node_at fs q"
  using item_files_None [of dir alice_items q] by (simp add: node_at_happy_files)

theorem gen_main_run:
  assumes "generator_ready cwd fs"
  obtains fs' where "gen_main cwd fs = Inr fs'" and "\<And>q. node_at fs' q = after_run (gen_out_dir cwd) fs q"
proof -
  let ?dir = "gen_out_dir cwd"
  let ?sub = "?dir @ [failure_subdir]"
  let ?names = "set (legacy_file # manifest_file # map fst alice_items)"
  obtain fs1 where happy: "gen_happy cwd fs = Inr ((gen_after ?dir fs1 11)\<lparr>g_fs := happy_files ?dir fs1\<rparr>)"
    and fs1: "\<And>q. node_at fs1 q = (if q \<noteq> [] \<and> prefix q ?dir then Some Folder else node_at fs q)"
    using gen_happy_run [OF assms] by blast
  have "node_at (happy_files ?dir fs1) q \<in> {None, Some Folder}" if q: "q \<noteq> []" "prefix q ?sub" for q
  proof -
    have "node_at (happy_files ?dir fs1) q = node_at fs1 q" using q names_not_subdir by (intro happy_files_other) auto
    moreover have "node_at fs q \<in> {None, Some Folder}" using assms q by (auto simp: generator_ready_def Let_def)
    ultimately show ?thesis by (simp add: fs1)
  qed
  moreover have "free_file (happy_files ?dir fs1) (?dir @ [failure_subdir, n])"
    if "n \<in> set (failure_manifest_file # map fst failure_items)" for n
  proof -
    have "free_file fs (?sub @ [n])" using assms that unfolding generator_ready_def Let_def by blast
    then show ?thesis by (auto simp: free_file_def happy_files_other fs1 dest: prefix_length_le)
  qed
  ultimately obtain fs' where emit: "emit_failure_vectors ?dir vec_artifacts (happy_files ?dir fs1) = Inr fs'"
    and fs': "\<And>q. node_at fs' q = (if q = ?dir @ [failure_subdir, failure_manifest_file]
      then Some (Plain (file_text (failure_manifest_json vec_failure_manifest)))
      else case map_of (item_files ?sub failure_items) q of Some s \<Rightarrow> Some (Plain s)
      | None \<Rightarrow> if q \<noteq> [] \<and> prefix q ?sub then Some Folder else node_at (happy_files ?dir fs1) q)"
    by (rule emit_failure_run) blast+
  have "node_at fs' q = after_run ?dir fs q" for q
  proof (cases "\<exists>k \<in> ?names. q = ?dir @ [k]")
    case True
    then obtain k where k: "k \<in> ?names" "q = ?dir @ [k]" by blast
    with after_run_happy [OF k fs1] show ?thesis unfolding fs' by simp
  next
    case False
    then have A: "map_of (item_files ?dir alice_items) q = None" "q \<noteq> ?dir @ [manifest_file]" "q \<noteq> ?dir @ [legacy_file]"
      unfolding item_files_None by auto
    have "node_at (happy_files ?dir fs1) q = node_at fs1 q" using False by (intro happy_files_other) blast
    moreover have "map_of (item_files ?sub failure_items) (?sub @ [failure_manifest_file]) = None"
      unfolding item_files_None using failure_manifest_fresh by auto
    ultimately show ?thesis
      using A unfolding fs' after_run_def vector_files_def map_of_append fs1
      by (auto simp: map_add_def split: option.split)
  qed
  with emit that show thesis by (simp add: gen_main_def happy artifacts_after)
qed

end
