(* ===== verification/Vector_Texts.thy ===== *)
theory Vector_Texts
  imports Failure_Run Http_Settlement
begin

text \<open>
  Every text of the vectors is valid UTF-8, so every value the generator writes is read back as it is:
  \<open>vector_values_ok\<close> and its kin say so of the seventeen files.
\<close>

text \<open>A value that survives being written and read.\<close>

definition json_ok :: "json \<Rightarrow> bool" where
  "json_ok v \<longleftrightarrow> json_fits max_nesting v \<and> json_valid v"

lemma utf8_valid_by: "utf8_ok s \<Longrightarrow> utf8_valid s"
  by (rule utf8_ok_valid)

lemmas note_defs = note_initial_def note_after_deposit_def note_nullifier_def note_destination_def
  note_after_withdrawal_def note_commitments_def note_public_inputs_def note_manifest_def

lemma notes_valid:
  "utf8_valid note_initial" "utf8_valid note_after_deposit" "utf8_valid note_nullifier" "utf8_valid note_destination"
  "utf8_valid note_after_withdrawal" "utf8_valid note_commitments" "utf8_valid note_public_inputs" "utf8_valid note_manifest"
  unfolding note_defs by (rule utf8_valid_by; simp only: append.simps utf8_decide simp_thms)+

subsection \<open>The texts\<close>

lemmas utf8_text = append.simps utf8_decide simp_thms list.set insert_iff empty_iff

definition meta_text :: "file_meta \<Rightarrow> bool" where
  "meta_text md \<longleftrightarrow> list_all utf8_ok (md_state_task md # md_schema md # md_note md # md_consumers md)"

definition failure_text :: "failure_file_meta \<Rightarrow> bool" where
  "failure_text md \<longleftrightarrow> list_all utf8_ok (fd_case md # fd_schema md # fd_note md # fd_consumers md)"

lemma meta_texts:
  "meta_text md_initial" "meta_text md_deposit" "meta_text md_after_deposit" "meta_text md_request" "meta_text md_nullifier"
  "meta_text md_destination" "meta_text md_after_withdrawal" "meta_text md_settlement" "meta_text md_commitments"
  "meta_text md_witness" "meta_text md_public_inputs"
  by (simp_all only: meta_text_def md_initial_def md_deposit_def md_after_deposit_def md_request_def md_nullifier_def
      md_destination_def md_after_withdrawal_def md_settlement_def md_commitments_def md_witness_def md_public_inputs_def
      file_meta.simps list.pred_inject append.simps utf8_decide simp_thms)

lemma failure_texts:
  "failure_text fd_over_withdraw" "failure_text fd_wrong_root" "failure_text fd_duplicate" "failure_text fd_tampered"
  by (simp_all only: failure_text_def fd_over_withdraw_def fd_wrong_root_def fd_duplicate_def fd_tampered_def
      case_over_withdraw_def case_wrong_root_def case_duplicate_nullifier_def case_tampered_destination_def
      failure_file_meta.simps list.pred_inject append.simps utf8_decide simp_thms)

definition failure_meta_text :: "failure_meta \<Rightarrow> bool" where
  "failure_meta_text m \<longleftrightarrow> list_all utf8_ok ([fm_case m, fm_title m, fm_description m, fm_violated_invariant m,
     fm_happy_path_reference m, fm_mutation m, fr_stage (fm_rejection m), fr_sentinel (fm_rejection m),
     fr_message_contains (fm_rejection m), fr_note (fm_rejection m)] @ fm_consumers m)"

lemma failure_meta_texts:
  "failure_meta_text over_withdraw_meta" "failure_meta_text wrong_root_meta" "failure_meta_text duplicate_meta"
  "failure_meta_text tampered_meta"
  by (simp_all only: failure_meta_text_def over_withdraw_meta_def wrong_root_meta_def duplicate_meta_def tampered_meta_def
      case_over_withdraw_def case_wrong_root_def case_duplicate_nullifier_def case_tampered_destination_def
      stage_request_builder_def stage_chain_verifier_def stage_circuit_binding_def scenario_name_def attacker_addr_def
      failure_meta.simps failure_rejection.simps list.pred_inject append.simps utf8_decide simp_thms)

lemma failure_manifest_texts:
  "list_all utf8_ok [ff_scenario m, ff_subfolder m, ff_description m, ff_vector_version m, ff_hash_algorithm m,
     ff_generator m, ff_note m]" if "m = failure_manifest_of vec_artifacts"
  unfolding that failure_manifest_of_def
  by (simp_all only: scenario_name_def failure_subdir_def gen_vector_version_def failure_manifest.simps list.pred_inject
      append.simps utf8_decide simp_thms)

subsection \<open>The values of the happy path\<close>

lemma meta_text_valid:
  assumes "meta_text md"
  shows "utf8_valid (md_state_task md)" "utf8_valid (md_schema md)" "utf8_valid (md_note md)"
    "c \<in> set (md_consumers md) \<Longrightarrow> utf8_valid c"
  using assms by (auto simp: meta_text_def list_all_iff intro: utf8_valid_by)

lemma failure_text_valid:
  assumes "failure_text md"
  shows "utf8_valid (fd_case md)" "utf8_valid (fd_schema md)" "utf8_valid (fd_note md)"
    "c \<in> set (fd_consumers md) \<Longrightarrow> utf8_valid c"
  using assms by (auto simp: failure_text_def list_all_iff intro: utf8_valid_by)

lemmas text_eval = utf8_valid_by utf8_decide

lemma value_texts:
  "utf8_valid root_a" "utf8_valid root_b" "utf8_valid root_c" "utf8_valid vec_nullifier" "utf8_valid vec_destination_hash"
  "utf8_valid attacker_addr" "utf8_valid bad_root"
  "utf8_valid nullifier_domain_tag" "utf8_valid withdraw_address_domain_tag" "utf8_valid deposits_root_domain_tag"
  "utf8_valid withdrawals_root_domain_tag" "utf8_valid nullifiers_root_domain_tag" "utf8_valid withdraw_outputs_root_domain_tag"
  "utf8_valid gen_alice" "utf8_valid gen_denom" "utf8_valid gen_secret"
  unfolding root_a_def root_b_def root_c_def vec_nullifier_def vec_destination_hash_def attacker_addr_def bad_root_def
    nullifier_domain_tag_def withdraw_address_domain_tag_def deposits_root_domain_tag_def withdrawals_root_domain_tag_def
    nullifiers_root_domain_tag_def withdraw_outputs_root_domain_tag_def gen_names
  by (rule utf8_valid_by; simp only: utf8_decide simp_thms)+

lemma commitments_ok:
  "json_fits d (batch_commitments_json (build_commitments u)) \<longleftrightarrow> 0 < d" "json_valid (batch_commitments_json (build_commitments u))"
  by (simp_all add: batch_commitments_json_def build_commitments_def deposits_root_def withdrawals_root_def
      nullifiers_root_def withdraw_outputs_root_def text_eval)

lemma vec_commitments_ok:
  "json_fits d (batch_commitments_json vec_commitments) \<longleftrightarrow> 0 < d" "json_valid (batch_commitments_json vec_commitments)"
  using commitments_ok [where u = vec_update] by (simp_all add: gen_commitments_eq)

lemma strings_ok: "json_fits d (strings_json xs) \<longleftrightarrow> 0 < d" "json_valid (strings_json xs) \<longleftrightarrow> (\<forall>x \<in> set xs. utf8_valid x)"
  by (auto simp: strings_json_def)

lemma optional_ok:
  "(\<forall>kv \<in> set (optional_field k x). json_fits d (snd kv))"
  "(\<forall>kv \<in> set (optional_field k x). utf8_valid (fst kv) \<and> json_valid (snd kv)) \<longleftrightarrow> x = [] \<or> utf8_valid k \<and> utf8_valid x"
  by (simp_all add: optional_field_def)

lemmas value_eval = json_ok_def max_nesting_def text_eval value_texts notes_valid vec_commitments_ok strings_ok optional_ok
  ball_Un vec_account_def account_json_def

lemma gen_tx_eq: "dep_tx_hash gen_dep1 = ''0x250e45522560609a604b00b437734ecd''"
  using digest_tx
  by (simp add: gen_dep1_def canonical_tx_hash_def gen_names sha256_hex_def hex_prefix_def)

lemma numbers_ok: "json_fits d (JNum (int_to_dec n))"
  by (simp add: set_string10_int_to_dec)

lemma vector_values_ok:
  "json_ok (state_snapshot_json vec_snapshot_a)" "json_ok (state_snapshot_json vec_snapshot_b)"
  "json_ok (state_snapshot_json vec_snapshot_c)"
  "json_ok (withdraw_request_json vec_request)" "json_ok (nullifier_vector_json vec_nullifier_vector)"
  "json_ok (destination_hash_vector_json vec_destination_vector)" "json_ok (settlement_update_json vec_update)"
  "json_ok (batch_commitments_vector_json vec_commitments_vector)" "json_ok (witness_json vec_witness)"
  by (simp_all add: value_eval state_snapshot_json_def vec_snapshot_a_def vec_snapshot_b_def vec_snapshot_c_def
      withdraw_request_json_def vec_request_def nullifier_vector_json_def vec_nullifier_vector_def
      destination_hash_vector_json_def vec_destination_vector_def settlement_update_json_def vec_update_def
      settlement_deposit_json_def settlement_withdrawal_json_def vec_withdrawal_def
      batch_commitments_vector_json_def vec_commitments_vector_def witness_json_def vec_witness_def witness_account_json_def)

lemma vector_numbers_ok:
  "json_ok (deposit_record_json gen_dep1)" "json_ok (public_inputs_vector_json vec_public_inputs_vector)"
proof -
  show "json_ok (deposit_record_json gen_dep1)"
    using gen_tx_eq numbers_ok by (simp add: value_eval deposit_record_json_def) (simp add: gen_dep1_def gen_names text_eval)
  show "json_ok (public_inputs_vector_json vec_public_inputs_vector)"
    using numbers_ok [of _ 6] vec_commitments_ok(2)
    by (simp add: value_eval public_inputs_vector_json_def vec_public_inputs_vector_def public_input_labels_def
        vec_public_inputs_def batch_commitments_json_def)
qed

subsection \<open>The manifests and the failure vectors\<close>

lemma slice_ok:
  "json_fits d (slice_json f xs) \<longleftrightarrow> xs = [] \<or> 0 < d \<and> (\<forall>x \<in> set xs. json_fits (d - 1) (f x))"
  "json_valid (slice_json f xs) \<longleftrightarrow> (\<forall>x \<in> set xs. json_valid (f x))"
  by (auto simp: slice_json_def)

lemma manifest_entry_ok:
  assumes "meta_text md" and "utf8_valid n"
  shows "json_fits (Suc (Suc d)) (manifest_entry_json (meta_entry n md (sha256_hex m)))"
    "json_valid (manifest_entry_json (meta_entry n md (sha256_hex m)))"
  using meta_text_valid [OF assms(1)] assms(2)
  by (simp_all add: manifest_entry_json_def meta_entry_def ball_Un optional_ok slice_ok text_eval)

lemma failure_entry_ok:
  assumes "failure_text md" and "utf8_valid n"
  shows "json_fits (Suc (Suc d)) (failure_manifest_entry_json (failure_entry n md (sha256_hex m)))"
    "json_valid (failure_manifest_entry_json (failure_entry n md (sha256_hex m)))"
  using failure_text_valid [OF assms(1)] assms(2)
  by (simp_all add: failure_manifest_entry_json_def failure_entry_def ball_Un optional_ok slice_ok text_eval)

lemma alice_entries_ok:
  "e \<in> set (map item_entry alice_items) \<Longrightarrow> json_fits (Suc (Suc d)) (manifest_entry_json e) \<and> json_valid (manifest_entry_json e)"
  by (auto simp: alice_items_def vector_item_def item_entry_def manifest_entry_ok meta_texts text_eval)

lemma failure_entries_ok:
  "e \<in> set (map item_entry failure_items)
     \<Longrightarrow> json_fits (Suc (Suc d)) (failure_manifest_entry_json e) \<and> json_valid (failure_manifest_entry_json e)"
  by (auto simp: failure_items_def failure_item_def item_entry_def failure_entry_ok failure_texts text_eval failure_names_def)

lemma manifest_ok: "json_ok (manifest_json vec_manifest)"
proof -
  have "json_fits 9999 (slice_json manifest_entry_json (mf_files vec_manifest))"
    "json_valid (slice_json manifest_entry_json (mf_files vec_manifest))"
    using alice_entries_ok [where d = 9996] by (auto simp: slice_ok vec_manifest_def)
  then show ?thesis
    by (simp add: value_eval manifest_json_def) (simp add: vec_manifest_def manifest_alice_json_def manifest_roots_json_def
        manifest_domain_tags_json_def value_texts text_eval scenario_name_def notes_valid optional_ok)
qed

lemma failure_manifest_ok: "json_ok (failure_manifest_json vec_failure_manifest)"
proof -
  let ?m = "failure_manifest_of vec_artifacts"
  have "json_fits 9999 (slice_json failure_manifest_entry_json (ff_files vec_failure_manifest))"
    "json_valid (slice_json failure_manifest_entry_json (ff_files vec_failure_manifest))"
    using failure_entries_ok [where d = 9996] by (auto simp: slice_ok vec_failure_manifest_def)
  moreover have "ff_happy_roots ?m = \<lparr>mr_root_a = root_a, mr_root_b = root_b, mr_root_c = root_c\<rparr>"
    by (simp add: failure_manifest_of_def vec_artifacts_def)
  moreover have "utf8_valid (ff_scenario ?m)" "utf8_valid (ff_subfolder ?m)" "utf8_valid (ff_description ?m)"
    "utf8_valid (ff_vector_version ?m)" "utf8_valid (ff_hash_algorithm ?m)" "utf8_valid (ff_generator ?m)"
    "utf8_valid (ff_note ?m)"
    using failure_manifest_texts [OF refl] by (auto intro: utf8_valid_by)
  ultimately show ?thesis
    by (simp add: json_ok_def max_nesting_def failure_manifest_json_def vec_failure_manifest_def manifest_roots_json_def
        value_texts text_eval optional_ok ball_Un)
qed

lemma failure_meta_ok:
  assumes "failure_meta_text m"
  shows "\<forall>kv \<in> set (failure_meta_members m). json_fits (Suc (Suc d)) (snd kv)"
    "\<forall>kv \<in> set (failure_meta_members m). utf8_valid (fst kv) \<and> json_valid (snd kv)"
  using assms
  by (auto simp: failure_meta_text_def failure_meta_members_def failure_rejection_json_def strings_ok ball_Un optional_ok
      text_eval list_all_iff)

lemma failure_commitments_valid:
  "utf8_valid (bc_deposits_root (build_commitments u))" "utf8_valid (bc_withdrawals_root (build_commitments u))"
  "utf8_valid (bc_nullifiers_root (build_commitments u))" "utf8_valid (bc_withdraw_outputs_root (build_commitments u))"
  by (simp_all add: build_commitments_def deposits_root_def withdrawals_root_def nullifiers_root_def withdraw_outputs_root_def)

lemma failure_updates_ok:
  "json_fits 9999 (settlement_update_json bad_root_update)" "json_valid (settlement_update_json bad_root_update)"
  "json_fits 9999 (settlement_update_json replay_update)" "json_valid (settlement_update_json replay_update)"
  "json_fits 9999 (settlement_update_json stolen_update)" "json_valid (settlement_update_json stolen_update)"
  by (simp_all add: settlement_update_json_def bad_root_update_def replay_update_def stolen_update_def replay_withdrawal_def
      vec_update_def vec_withdrawal_def settlement_deposit_json_def settlement_withdrawal_json_def value_texts text_eval)

lemma failure_values_ok:
  "json_ok (over_withdraw_vector_json vec_over_withdraw)" "json_ok (wrong_root_vector_json vec_wrong_root)"
  "json_ok (duplicate_nullifier_vector_json vec_duplicate)" "json_ok (tampered_destination_vector_json vec_tampered)"
proof -
  have meta: "\<forall>kv \<in> set (failure_meta_members m). json_fits 9999 (snd kv)"
    "\<forall>kv \<in> set (failure_meta_members m). utf8_valid (fst kv) \<and> json_valid (snd kv)"
    if "failure_meta_text m" for m using failure_meta_ok(1) [OF that, where d = 9997] failure_meta_ok(2) [OF that] by simp_all
  note [simp] = meta [OF failure_meta_texts(1)] meta [OF failure_meta_texts(2)] meta [OF failure_meta_texts(3)]
    meta [OF failure_meta_texts(4)]
  note eval = json_ok_def max_nesting_def ball_Un commitments_ok strings_ok failure_commitments_valid failure_updates_ok
    value_texts text_eval inputs_of_def Let_def
  show "json_ok (over_withdraw_vector_json vec_over_withdraw)"
    by (simp add: eval over_withdraw_vector_json_def vec_over_withdraw_def over_withdraw_of_def account_json_def
        vec_account_def withdraw_intent_vector_json_def vec_artifacts_def vec_request_def)
  show "json_ok (wrong_root_vector_json vec_wrong_root)"
    by (simp add: eval wrong_root_vector_json_def vec_wrong_root_def) (simp add: bad_root_update_def vec_update_def value_texts)
  show "json_ok (duplicate_nullifier_vector_json vec_duplicate)"
    by (simp add: eval duplicate_nullifier_vector_json_def vec_duplicate_def) (simp add: replay_update_def vec_update_def value_texts)
  show "json_ok (tampered_destination_vector_json vec_tampered)"
    by (simp add: eval tampered_destination_vector_json_def vec_tampered_def) (simp add: stolen_update_def vec_update_def value_texts)
qed

end
