(* ===== verification/Vector_Roundtrip.thy ===== *)
theory Vector_Roundtrip
  imports Vector_Texts
begin

text \<open>
  What the generator writes, the library reads: after a run in the root of the repository the loaders
  return the values the generator computed, both manifests match the files on disk, and the checks
  between the files hold.
\<close>

definition vec_scenario :: alice_scenario where
  "vec_scenario = \<lparr>al_manifest = vec_manifest, al_initial = vec_snapshot_a, al_deposit = gen_dep1,
     al_after_deposit = vec_snapshot_b, al_request = vec_request, al_nullifier = vec_nullifier_vector,
     al_destination = vec_destination_vector, al_after_withdrawal = vec_snapshot_c, al_update = vec_update,
     al_commitments = vec_commitments_vector, al_witness = vec_witness, al_public_inputs = vec_public_inputs_vector\<rparr>"

definition vec_bundle :: failure_bundle where
  "vec_bundle = \<lparr>fb_manifest = vec_failure_manifest, fb_over_withdraw = vec_over_withdraw, fb_wrong_root = vec_wrong_root,
     fb_duplicate = vec_duplicate, fb_tampered = vec_tampered\<rparr>"

subsection \<open>Finding the root\<close>

lemma find_up_same:
  "(\<And>q. os_stat fs' (q @ [repo_root_marker]) = os_stat fs (q @ [repo_root_marker])) \<Longrightarrow> find_up fs' d = find_up fs d"
proof (induction fs d rule: find_up.induct)
  case (1 fs d)
  have "simple_name repo_root_marker" by (simp add: simple_name_def repo_root_marker_def)
  with 1 show ?case by (simp add: find_up.simps [of fs' d] find_up.simps [of fs d])
qed

text \<open>
  The program runs in the root of the repository, which exists; \<open>caller\<close> is where the package's
  source lies.
\<close>

definition in_repository :: "file_path option \<Rightarrow> file_path \<Rightarrow> files \<Rightarrow> bool" where
  "in_repository caller cwd fs \<longleftrightarrow> find_repo_root caller fs = Inr cwd
     \<and> (\<forall>q \<in> set (prefixes cwd). node_at fs q = Some Folder)"

lemma vector_files_names:
  "map_of (vector_files dir) q = None \<longleftrightarrow>
     (\<forall>n \<in> set (manifest_file # map fst alice_items). q \<noteq> dir @ [n])
     \<and> (\<forall>n \<in> set (failure_manifest_file # map fst failure_items). q \<noteq> dir @ [failure_subdir, n])"
  unfolding vector_files_def map_of_append map_add_None item_files_None by auto

lemma marker_elsewhere: "repo_root_marker \<notin> set (legacy_file # manifest_file # map fst alice_items)"
  "repo_root_marker \<notin> set (failure_manifest_file # map fst failure_items)"
  "repo_root_marker \<notin> {failure_subdir, ''testvectors'', ''alice_100_40''}"
  unfolding alice_names failure_names
  by (simp_all add: repo_root_marker_def legacy_file_def manifest_file_def failure_manifest_file_def failure_subdir_def)

lemma marker_after_run:
  assumes "\<forall>q \<in> set (prefixes cwd). node_at fs q = Some Folder"
    and "\<And>q. node_at fs' q = after_run (gen_out_dir cwd) fs q"
  shows "os_stat fs' (q @ [repo_root_marker]) = os_stat fs (q @ [repo_root_marker])"
proof -
  let ?p = "q @ [repo_root_marker]"
  have "map_of (vector_files (gen_out_dir cwd)) ?p = None"
    unfolding vector_files_names using marker_elsewhere by auto
  moreover have "?p \<noteq> gen_out_dir cwd @ [legacy_file]" using marker_elsewhere by auto
  moreover have "node_at fs ?p \<noteq> None" if "prefix ?p (gen_out_dir cwd @ [failure_subdir])"
  proof -
    from that consider "prefix ?p cwd" | us where "?p = cwd @ us" "prefix us [''testvectors'', ''alice_100_40'', failure_subdir]"
      by (auto simp: gen_out_dir_eq prefix_append)
    then have "prefix ?p cwd"
    proof cases
      case (2 us)
      have "us = []"
      proof (rule ccontr)
        assume "us \<noteq> []"
        with 2(1) have "repo_root_marker \<in> set us" by (metis last_appendR last_in_set last_snoc)
        with set_mono_prefix [OF 2(2)] marker_elsewhere(3) show False by auto
      qed
      with 2(1) show ?thesis by simp
    qed
    with assms(1) show ?thesis by auto
  qed
  ultimately show ?thesis by (auto simp: os_stat_def assms(2) after_run_def)
qed

lemma root_after_run:
  assumes "in_repository caller cwd fs" and "\<And>q. node_at fs' q = after_run (gen_out_dir cwd) fs q"
  shows "scenario_dir caller fs' = Inr (gen_out_dir cwd)"
    and "failure_dir caller fs' = Inr (gen_out_dir cwd @ [failure_subdir])"
proof -
  have "find_up fs' d = find_up fs d" for d
    by (rule find_up_same, rule marker_after_run) (use assms in \<open>auto simp: in_repository_def\<close>)
  with assms(1) have r: "find_repo_root caller fs' = Inr cwd"
    by (auto simp: in_repository_def find_repo_root_def split: option.splits)
  show "scenario_dir caller fs' = Inr (gen_out_dir cwd)"
    "failure_dir caller fs' = Inr (gen_out_dir cwd @ [failure_subdir])"
    using scenario_dir_found [OF r] failure_dir_found [OF r] by (simp_all add: gen_out_dir_eq scenario_name_def)
qed

subsection \<open>Reading the files\<close>

lemma item_files_paths: "map fst (item_files dir its) = map (\<lambda>it. dir @ [fst it]) its"
  by (auto simp: item_files_def)

lemma item_files_distinct: "distinct (map fst its) \<Longrightarrow> distinct (map fst (item_files dir its))"
  by (simp add: item_files_paths distinct_map inj_on_def)

lemma vector_files_distinct: "distinct (map fst (vector_files dir))"
  using item_files_distinct [OF alice_distinct, of dir] item_files_distinct [OF failure_distinct, of "dir @ [failure_subdir]"]
    legacy_fresh(2) failure_manifest_fresh
  unfolding vector_files_def map_append item_files_paths by (auto simp: image_iff)

lemma item_files_mem: "it \<in> set its \<Longrightarrow> (dir @ [fst it], file_text (fst (snd it))) \<in> set (item_files dir its)"
  by (cases it) (force simp: item_files_def)

lemma vector_files_mem:
  "it \<in> set alice_items \<Longrightarrow> (dir @ [fst it], file_text (fst (snd it))) \<in> set (vector_files dir)"
  "it' \<in> set failure_items \<Longrightarrow> (dir @ [failure_subdir, fst it'], file_text (fst (snd it'))) \<in> set (vector_files dir)"
  using item_files_mem [of it' failure_items "dir @ [failure_subdir]"] by (simp_all add: vector_files_def item_files_mem)

lemma read_after_run:
  assumes "\<And>q. node_at fs' q = after_run dir fs q" and "(p, s) \<in> set (vector_files dir)"
  shows "os_read_file fs' p = Some s"
  using assms map_of_is_SomeI [OF vector_files_distinct assms(2)] by (simp add: os_read_file_def after_run_def)

definition item_value :: "'e item \<Rightarrow> string \<times> json" where
  "item_value it = (fst it, fst (snd it))"

text \<open>One file of each folder, loaded.\<close>

lemma load_vector:
  assumes "scenario_dir caller fs' = Inr dir" and "\<And>q. node_at fs' q = after_run dir fs q"
    and "(n, v) \<in> item_value ` set alice_items" and "json_ok v" and "f zero v = Some x"
  shows "load_json caller fs' f zero n = Inr x"
proof -
  have "(dir @ [n], file_text v) \<in> set (vector_files dir)"
    using assms(3) by (force simp: vector_files_def item_files_def item_value_def)
  from read_after_run [OF assms(2) this] have "os_read_file fs' (dir @ [n]) = Some (marshal_indent v @ [CHR 0x0A])"
    by (simp add: file_text_def)
  moreover have "simple_name n" using assms(3) by (intro simple_names(1)) (force simp: item_value_def)
  ultimately show ?thesis
    using assms(4,5) unfolding json_ok_def by (blast intro: load_json_found [OF assms(1)])
qed

lemma load_failure_vector:
  assumes "failure_dir caller fs' = Inr (dir @ [failure_subdir])" and "\<And>q. node_at fs' q = after_run dir fs q"
    and "(n, v) \<in> item_value ` set failure_items" and "json_ok v" and "f zero v = Some x"
  shows "load_failure_json caller fs' f zero n = Inr x"
proof -
  have "(dir @ [failure_subdir, n], file_text v) \<in> set (vector_files dir)"
    using assms(3) by (force simp: vector_files_def item_files_def item_value_def)
  from read_after_run [OF assms(2) this]
  have "os_read_file fs' ((dir @ [failure_subdir]) @ [n]) = Some (marshal_indent v @ [CHR 0x0A])"
    by (simp add: file_text_def)
  moreover have "simple_name n" using assms(3) by (intro simple_names(2)) (force simp: item_value_def)
  ultimately show ?thesis
    using assms(4,5) unfolding json_ok_def by (blast intro: load_failure_json_found [OF assms(1)])
qed

lemma manifest_files: "(dir @ [manifest_file], file_text (manifest_json vec_manifest)) \<in> set (vector_files dir)"
  "(dir @ [failure_subdir, failure_manifest_file], file_text (failure_manifest_json vec_failure_manifest)) \<in> set (vector_files dir)"
  by (simp_all add: vector_files_def)

lemma load_manifests:
  assumes "in_repository caller cwd fs" and run: "\<And>q. node_at fs' q = after_run (gen_out_dir cwd) fs q"
  shows "load_manifest caller fs' = Inr vec_manifest" and "load_failure_manifest caller fs' = Inr vec_failure_manifest"
proof -
  note dirs = root_after_run [OF assms]
  have names: "simple_name manifest_file" "simple_name failure_manifest_file" using simple_names(1,2) by simp_all
  have "unmarshal_into dec_manifest zero_manifest (file_text (manifest_json vec_manifest)) = Some vec_manifest"
    using manifest_ok by (simp add: file_text_def json_ok_def unmarshal_into_indent dec_manifest_json)
  moreover have "mf_scenario vec_manifest = scenario_name" by (simp add: vec_manifest_def)
  ultimately show "load_manifest caller fs' = Inr vec_manifest"
    using read_after_run [OF run manifest_files(1)] names
    by (simp add: load_manifest_def path_for_def dirs read_json_def)
  have "unmarshal_into dec_failure_manifest zero_failure_manifest (file_text (failure_manifest_json vec_failure_manifest))
      = Some vec_failure_manifest"
    using failure_manifest_ok by (simp add: file_text_def json_ok_def unmarshal_into_indent dec_failure_manifest_json)
  moreover have "ff_scenario vec_failure_manifest = scenario_name" "ff_subfolder vec_failure_manifest = failure_subdir"
    by (simp_all add: vec_failure_manifest_def failure_manifest_of_def)
  ultimately show "load_failure_manifest caller fs' = Inr vec_failure_manifest"
    using read_after_run [OF run manifest_files(2)] names
    by (simp add: load_failure_manifest_def failure_path_for_def dirs read_json_def)
qed

lemma vec_in_range:
  "dec_deposit_record zero_deposit_record (deposit_record_json gen_dep1) = Some gen_dep1"
  "dec_public_inputs_vector zero_public_inputs_vector (public_inputs_vector_json vec_public_inputs_vector) = Some vec_public_inputs_vector"
  by (rule dec_deposit_record_json dec_public_inputs_vector_json; simp add: gen_dep1_def vec_public_inputs_vector_def)+

lemma load_vectors:
  assumes "in_repository caller cwd fs" and run: "\<And>q. node_at fs' q = after_run (gen_out_dir cwd) fs q"
  shows "load_initial_state caller fs' = Inr vec_snapshot_a"
    "load_deposit caller fs' = Inr gen_dep1"
    "load_after_deposit caller fs' = Inr vec_snapshot_b"
    "load_withdraw_request caller fs' = Inr vec_request"
    "load_nullifier caller fs' = Inr vec_nullifier_vector"
    "load_destination_hash caller fs' = Inr vec_destination_vector"
    "load_after_withdrawal caller fs' = Inr vec_snapshot_c"
    "load_settlement_update caller fs' = Inr vec_update"
    "load_batch_commitments caller fs' = Inr vec_commitments_vector"
    "load_witness caller fs' = Inr vec_witness"
    "load_public_inputs caller fs' = Inr vec_public_inputs_vector"
proof -
  note load = load_vector [OF root_after_run(1) [OF assms] run]
  show "load_initial_state caller fs' = Inr vec_snapshot_a"
    unfolding load_initial_state_def by (rule load [where v = "state_snapshot_json vec_snapshot_a"])
      (simp_all add: item_value_def alice_items_def vector_item_def file_initial_state_def vector_values_ok(1) dec_state_snapshot_json)
  show "load_deposit caller fs' = Inr gen_dep1"
    unfolding load_deposit_def by (rule load [where v = "deposit_record_json gen_dep1"])
      (simp_all add: item_value_def alice_items_def vector_item_def file_deposit_def vector_numbers_ok(1) vec_in_range(1))
  show "load_after_deposit caller fs' = Inr vec_snapshot_b"
    unfolding load_after_deposit_def by (rule load [where v = "state_snapshot_json vec_snapshot_b"])
      (simp_all add: item_value_def alice_items_def vector_item_def file_after_deposit_def vector_values_ok(2) dec_state_snapshot_json)
  show "load_withdraw_request caller fs' = Inr vec_request"
    unfolding load_withdraw_request_def by (rule load [where v = "withdraw_request_json vec_request"])
      (simp_all add: item_value_def alice_items_def vector_item_def file_withdraw_request_def vector_values_ok(4) dec_withdraw_request_json)
  show "load_nullifier caller fs' = Inr vec_nullifier_vector"
    unfolding load_nullifier_def by (rule load [where v = "nullifier_vector_json vec_nullifier_vector"])
      (simp_all add: item_value_def alice_items_def vector_item_def file_nullifier_def vector_values_ok(5) dec_nullifier_vector_json)
  show "load_destination_hash caller fs' = Inr vec_destination_vector"
    unfolding load_destination_hash_def by (rule load [where v = "destination_hash_vector_json vec_destination_vector"])
      (simp_all add: item_value_def alice_items_def vector_item_def file_destination_hash_def vector_values_ok(6) dec_destination_hash_vector_json)
  show "load_after_withdrawal caller fs' = Inr vec_snapshot_c"
    unfolding load_after_withdrawal_def by (rule load [where v = "state_snapshot_json vec_snapshot_c"])
      (simp_all add: item_value_def alice_items_def vector_item_def file_after_withdrawal_def vector_values_ok(3) dec_state_snapshot_json)
  show "load_settlement_update caller fs' = Inr vec_update"
    unfolding load_settlement_update_def by (rule load [where v = "settlement_update_json vec_update"])
      (simp_all add: item_value_def alice_items_def vector_item_def file_settlement_def vector_values_ok(7) dec_settlement_update_json)
  show "load_batch_commitments caller fs' = Inr vec_commitments_vector"
    unfolding load_batch_commitments_def by (rule load [where v = "batch_commitments_vector_json vec_commitments_vector"])
      (simp_all add: item_value_def alice_items_def vector_item_def file_commitments_def vector_values_ok(8) dec_batch_commitments_vector_json)
  show "load_witness caller fs' = Inr vec_witness"
    unfolding load_witness_def by (rule load [where v = "witness_json vec_witness"])
      (simp_all add: item_value_def alice_items_def vector_item_def file_witness_def vector_values_ok(9) dec_witness_json)
  show "load_public_inputs caller fs' = Inr vec_public_inputs_vector"
    unfolding load_public_inputs_def by (rule load [where v = "public_inputs_vector_json vec_public_inputs_vector"])
      (simp_all add: item_value_def alice_items_def vector_item_def file_public_inputs_def vector_numbers_ok(2) vec_in_range(2))
qed

lemma load_failure_vectors:
  assumes "in_repository caller cwd fs" and run: "\<And>q. node_at fs' q = after_run (gen_out_dir cwd) fs q"
  shows "load_over_withdraw caller fs' = Inr vec_over_withdraw"
    "load_wrong_root caller fs' = Inr vec_wrong_root"
    "load_duplicate_nullifier caller fs' = Inr vec_duplicate"
    "load_tampered_destination caller fs' = Inr vec_tampered"
proof -
  note load = load_failure_vector [OF root_after_run(2) [OF assms] run]
  show "load_over_withdraw caller fs' = Inr vec_over_withdraw"
    unfolding load_over_withdraw_def by (rule load [where v = "over_withdraw_vector_json vec_over_withdraw"])
      (simp_all add: item_value_def failure_items_def failure_item_def failure_values_ok(1) dec_over_withdraw_vector_json)
  show "load_wrong_root caller fs' = Inr vec_wrong_root"
    unfolding load_wrong_root_def by (rule load [where v = "wrong_root_vector_json vec_wrong_root"])
      (simp_all add: item_value_def failure_items_def failure_item_def failure_values_ok(2) dec_wrong_root_vector_json)
  show "load_duplicate_nullifier caller fs' = Inr vec_duplicate"
    unfolding load_duplicate_nullifier_def by (rule load [where v = "duplicate_nullifier_vector_json vec_duplicate"])
      (simp_all add: item_value_def failure_items_def failure_item_def failure_values_ok(3) dec_duplicate_nullifier_vector_json)
  show "load_tampered_destination caller fs' = Inr vec_tampered"
    unfolding load_tampered_destination_def by (rule load [where v = "tampered_destination_vector_json vec_tampered"])
      (simp_all add: item_value_def failure_items_def failure_item_def failure_values_ok(4) dec_tampered_destination_vector_json)
qed

lemma load_scenario:
  assumes "in_repository caller cwd fs" and run: "\<And>q. node_at fs' q = after_run (gen_out_dir cwd) fs q"
  shows "load_alice_scenario caller fs' = Inr vec_scenario"
  by (simp add: load_alice_scenario_def load_manifests [OF assms] load_vectors [OF assms] vec_scenario_def)

lemma vec_discriminator: "discriminator_check vec_bundle = None"
  by (simp add: discriminator_check_def bundle_cases_def vec_bundle_def vec_over_withdraw_def over_withdraw_of_def
      vec_wrong_root_def vec_duplicate_def vec_tampered_def over_withdraw_meta_def wrong_root_meta_def duplicate_meta_def
      tampered_meta_def)

lemma load_bundle:
  assumes "in_repository caller cwd fs" and run: "\<And>q. node_at fs' q = after_run (gen_out_dir cwd) fs q"
  shows "load_failure_bundle caller fs' = Inr vec_bundle"
  using vec_discriminator
  by (simp add: load_failure_bundle_def load_manifests [OF assms] load_failure_vectors [OF assms] vec_bundle_def Let_def)

subsection \<open>The manifests match\<close>

definition item_digest :: "'e item \<Rightarrow> string \<times> string" where
  "item_digest it = (fst it, sha256_hex (file_text (fst (snd it))))"

lemma verify_items:
  assumes "set entries = item_digest ` set its" and "distinct (map fst entries)" and "node_at fs dir = Some Folder"
    and "\<And>it. it \<in> set its \<Longrightarrow> simple_name (fst it) \<and> os_read_file fs (dir @ [fst it]) = Some (file_text (fst (snd it)))"
    and "\<And>n. node_at fs (dir @ [n]) \<notin> {None, Some Folder} \<Longrightarrow> \<not> untracked (n, False) \<Longrightarrow> n \<in> fst ` set its"
  shows "verify_folder mismatch fs dir entries = None"
proof -
  have d: "distinct (map fst (rev entries))" using assms(2) by (simp add: rev_map [symmetric])
  have m: "map_of (rev entries) n = Some h \<longleftrightarrow> (n, h) \<in> item_digest ` set its" for n h
    using map_of_eq_Some_iff [OF d] assms(1) by simp
  have "map_of (rev entries) n \<noteq> None" if "n \<in> fst ` set its" for n
    using that m [of n] by (auto simp: item_digest_def)
  with assms(3-5) show ?thesis
    unfolding verify_folder_None folder_matches_def m by (auto simp: item_digest_def)
qed

lemma item_names: "map me_name (map item_entry alice_items) = map fst alice_items"
  "map fe_name (map item_entry failure_items) = map fst failure_items"
  by (simp_all add: alice_items_def vector_item_def failure_items_def failure_item_def item_entry_def meta_entry_def failure_entry_def)

lemma item_digests:
  "map (\<lambda>e. (me_name e, me_sha256 e)) (map item_entry alice_items) = map item_digest alice_items"
  "map (\<lambda>e. (fe_name e, fe_sha256 e)) (map item_entry failure_items) = map item_digest failure_items"
  by (simp_all add: alice_items_def vector_item_def failure_items_def failure_item_def item_entry_def item_digest_def
      meta_entry_def failure_entry_def)

lemma distinct_sort_key: "distinct (map f xs) \<Longrightarrow> distinct (map f (sort_key k xs))"
  by (metis mset_eq_imp_distinct_iff mset_map mset_sort)

lemma manifest_entries:
  "set (map (\<lambda>e. (me_name e, me_sha256 e)) (mf_files vec_manifest)) = item_digest ` set alice_items"
  "distinct (map fst (map (\<lambda>e. (me_name e, me_sha256 e)) (mf_files vec_manifest)))"
  "set (map (\<lambda>e. (fe_name e, fe_sha256 e)) (ff_files vec_failure_manifest)) = item_digest ` set failure_items"
  "distinct (map fst (map (\<lambda>e. (fe_name e, fe_sha256 e)) (ff_files vec_failure_manifest)))"
proof -
  have files: "mf_files vec_manifest = sort_key me_name (map item_entry alice_items)"
    "ff_files vec_failure_manifest = sort_key fe_name (map item_entry failure_items)"
    by (simp_all add: vec_manifest_def vec_failure_manifest_def)
  show "set (map (\<lambda>e. (me_name e, me_sha256 e)) (mf_files vec_manifest)) = item_digest ` set alice_items"
    using arg_cong [OF item_digests(1), of set] by (simp add: files image_image)
  show "set (map (\<lambda>e. (fe_name e, fe_sha256 e)) (ff_files vec_failure_manifest)) = item_digest ` set failure_items"
    using arg_cong [OF item_digests(2), of set] by (simp add: files image_image)
  have "distinct (map me_name (sort_key me_name (map item_entry alice_items)))"
    using alice_distinct unfolding item_names(1) [symmetric] by (rule distinct_sort_key)
  then show "distinct (map fst (map (\<lambda>e. (me_name e, me_sha256 e)) (mf_files vec_manifest)))" by (simp add: files comp_def)
  have "distinct (map fe_name (sort_key fe_name (map item_entry failure_items)))"
    using failure_distinct unfolding item_names(2) [symmetric] by (rule distinct_sort_key)
  then show "distinct (map fst (map (\<lambda>e. (fe_name e, fe_sha256 e)) (ff_files vec_failure_manifest)))" by (simp add: files comp_def)
qed

text \<open>No file of another origin lies in the two folders.\<close>

definition no_strays :: "file_path \<Rightarrow> files \<Rightarrow> bool" where
  "no_strays dir fs \<longleftrightarrow>
     (\<forall>n \<in> set (names_in fs dir). node_at fs (dir @ [n]) = Some Folder \<or> untracked (n, False) \<or> n = legacy_file \<or> n \<in> set (map fst alice_items))
     \<and> (\<forall>n \<in> set (names_in fs (dir @ [failure_subdir])). node_at fs (dir @ [failure_subdir, n]) = Some Folder
          \<or> untracked (n, False) \<or> n \<in> set (map fst failure_items))"

lemma after_run_folders:
  "after_run (gen_out_dir cwd) fs (gen_out_dir cwd) = Some Folder"
  "after_run (gen_out_dir cwd) fs (gen_out_dir cwd @ [failure_subdir]) = Some Folder"
proof -
  let ?dir = "gen_out_dir cwd"
  have "map_of (vector_files ?dir) ?dir = None" "map_of (vector_files ?dir) (?dir @ [failure_subdir]) = None"
    unfolding vector_files_names using names_not_subdir by auto
  then show "after_run ?dir fs ?dir = Some Folder" "after_run ?dir fs (?dir @ [failure_subdir]) = Some Folder"
    using names_not_subdir by (auto simp: after_run_def gen_out_dir_eq)
qed

text \<open>A tracked file that is there after the run is one of those written.\<close>

lemma stray_after_run:
  assumes "no_strays dir fs" and "\<not> untracked (n, False)"
  shows "after_run dir fs (dir @ [n]) \<notin> {None, Some Folder} \<Longrightarrow> n \<in> fst ` set alice_items"
    and "after_run dir fs (dir @ [failure_subdir, n]) \<notin> {None, Some Folder} \<Longrightarrow> n \<in> fst ` set failure_items"
proof -
  have m: "n \<noteq> manifest_file" "n \<noteq> failure_manifest_file"
    using assms(2) by (auto simp: untracked_def manifest_file_def failure_manifest_file_def)
  show "n \<in> fst ` set alice_items" if "after_run dir fs (dir @ [n]) \<notin> {None, Some Folder}"
  proof (rule ccontr)
    assume "n \<notin> fst ` set alice_items"
    moreover from this have "map_of (vector_files dir) (dir @ [n]) = None" unfolding vector_files_names using m by auto
    ultimately show False
      using that assms by (auto simp: after_run_def no_strays_def set_names_in split: if_splits)
  qed
  show "n \<in> fst ` set failure_items" if "after_run dir fs (dir @ [failure_subdir, n]) \<notin> {None, Some Folder}"
  proof (rule ccontr)
    assume "n \<notin> fst ` set failure_items"
    moreover from this have "map_of (vector_files dir) (dir @ [failure_subdir, n]) = None"
      unfolding vector_files_names using m by auto
    ultimately show False
      using that assms by (auto simp: after_run_def no_strays_def set_names_in split: if_splits)
  qed
qed

lemma verify_vectors:
  assumes "in_repository caller cwd fs" and run: "\<And>q. node_at fs' q = after_run (gen_out_dir cwd) fs q"
    and "no_strays (gen_out_dir cwd) fs"
  shows "verify_manifest caller fs' vec_manifest = None" and "verify_failure_manifest caller fs' vec_failure_manifest = None"
proof -
  let ?dir = "gen_out_dir cwd"
  have folders: "node_at fs' ?dir = Some Folder" "node_at fs' (?dir @ [failure_subdir]) = Some Folder"
    by (simp_all only: run after_run_folders)
  have read: "os_read_file fs' (?dir @ [fst it]) = Some (file_text (fst (snd it)))" if "it \<in> set alice_items" for it
    using that by (intro read_after_run [OF run] vector_files_mem)
  have read': "os_read_file fs' ((?dir @ [failure_subdir]) @ [fst it]) = Some (file_text (fst (snd it)))"
    if "it \<in> set failure_items" for it
    using read_after_run [OF run vector_files_mem(2) [OF that]] by simp
  note strays = stray_after_run [OF assms(3)]
  show "verify_manifest caller fs' vec_manifest = None"
    unfolding verify_manifest_def root_after_run [OF assms(1) run] sum.case
    by (rule verify_items [OF manifest_entries(1,2) folders(1)]) (use simple_names(1) read strays(1) run in auto)
  show "verify_failure_manifest caller fs' vec_failure_manifest = None"
    unfolding verify_failure_manifest_def root_after_run [OF assms(1) run] sum.case
    by (rule verify_items [OF manifest_entries(3,4) folders(2)]) (use simple_names(2) read' strays(2) run in auto)
qed

subsection \<open>The checks between the files\<close>

lemma scenario_fields:
  "al_initial vec_scenario = vec_snapshot_a" "al_after_deposit vec_scenario = vec_snapshot_b"
  "al_after_withdrawal vec_scenario = vec_snapshot_c" "al_update vec_scenario = vec_update"
  "al_witness vec_scenario = vec_witness" "al_request vec_scenario = vec_request" "al_deposit vec_scenario = gen_dep1"
  "al_nullifier vec_scenario = vec_nullifier_vector" "al_destination vec_scenario = vec_destination_vector"
  "pv_public_inputs (al_public_inputs vec_scenario) = wanted_inputs vec_scenario" "length (wanted_inputs vec_scenario) = 6"
  by (simp_all add: vec_scenario_def wanted_inputs_def vec_public_inputs_vector_def vec_public_inputs_def vec_snapshot_b_def
      vec_snapshot_c_def vec_commitments_vector_def Let_def)

lemma vec_sanity: "sanity_check (Some vec_scenario) = None"
proof -
  have "ss_root vec_snapshot_a = root_a" "ss_root vec_snapshot_b = root_b" "ss_root vec_snapshot_c = root_c"
    "ss_accounts vec_snapshot_c = [vec_account ''60'' ''1'']" "su_old_root vec_update = root_b" "su_new_root vec_update = root_c"
    "su_withdrawals vec_update = [vec_withdrawal]" "sw_nullifier vec_withdrawal = nv_nullifier vec_nullifier_vector"
    "sw_destination_hash vec_withdrawal = dv_destination_hash vec_destination_vector" "dep_amount gen_dep1 = ''100''"
    "wr_amount vec_request = ''40''" "acc_nonce (vec_account ''60'' ''1'') = ''1''"
    by (simp_all add: vec_snapshot_a_def vec_snapshot_b_def vec_snapshot_c_def vec_update_def vec_withdrawal_def
        vec_nullifier_vector_def vec_destination_vector_def gen_dep1_def vec_request_def vec_account_def)
  then show ?thesis
    unfolding sanity_check_def option.case Let_def scenario_fields
    by (simp add: vec_roots_differ vec_fields vec_witness_def)
qed

lemma vec_failure_sanity: "failure_sanity_check (Some vec_bundle) = None"
proof -
  have "parse_decimal ''100'' = Some 100" "parse_decimal ''200'' = Some 200"
    by (simp_all add: parse_decimal_def trim_space_ends_eval plain_char_def digit_val_def)
  moreover have "tampered_check vec_tampered = None"
    by (simp add: tampered_check_def vec_tampered_def stolen_update_def vec_withdrawal_def attacker_addr_def)
  moreover have "length (inputs_of u) = 6" for u by (simp add: inputs_of_def Let_def)
  ultimately show ?thesis
    unfolding failure_sanity_check_def option.case Let_def vec_discriminator
    by (simp add: vec_bundle_def vec_over_withdraw_def over_withdraw_of_def vec_account_def
        vec_artifacts_def vec_request_def vec_wrong_root_def bad_root_update_def bad_root_facts vec_duplicate_def
        replay_update_def vec_withdrawal_def replay_withdrawal_def vec_tampered_def public_inputs_short_def)
qed

end
