(* ===== verification/Vector_Properties.thy ===== *)
theory Vector_Properties
  imports Vector_Roundtrip Submit_Laws
begin

text \<open>
  The properties of the test vectors: what the generator writes, that the library reads it back and
  accepts it, what the manifest check decides, and that the failure vectors fail where they say. The
  witnesses run in an empty repository at \<^verbatim>\<open>/w\<close>.
\<close>

subsection \<open>A repository\<close>

definition small_repo :: files where
  "small_repo = [([''w''], Folder), ([''w'', ''go.mod''], Plain ''module'')]"

definition small_caller :: "file_path option" where
  "small_caller = Some [''w'', ''pkg'', ''testvectors'', ''manifest.go'']"

lemma small_in_repository: "in_repository small_caller [''w''] small_repo"
proof -
  have "simple_name repo_root_marker" by (simp add: simple_name_def repo_root_marker_def)
  then have "find_up small_repo [''w'', ''pkg'', ''testvectors''] = Some [''w'']"
    by (simp add: find_up.simps [of _ "[''w'']"] find_up.simps [of _ "[''w'', ''pkg'']"]
        find_up.simps [of _ "[''w'', ''pkg'', ''testvectors'']"] os_stat_def node_at_def small_repo_def repo_root_marker_def)
  then show ?thesis
    by (simp add: in_repository_def find_repo_root_def small_caller_def) (simp add: node_at_def small_repo_def)
qed

lemma small_ready: "generator_ready [''w''] small_repo"
  by (simp add: generator_ready_def gen_out_dir_eq free_file_def node_at_def small_repo_def Let_def
      repo_root_marker_def legacy_file_def)

lemma small_no_strays: "no_strays (gen_out_dir [''w'']) small_repo"
  by (simp add: no_strays_def gen_out_dir_eq names_in_def small_repo_def)

subsection \<open>Where the failure vectors fail\<close>

definition intent_of :: "withdraw_intent_vector \<Rightarrow> withdraw_intent" where
  "intent_of v = \<lparr>wi_owner = iv_owner v, wi_denom = iv_denom v, wi_amount = iv_amount v, wi_destination = iv_destination v\<rparr>"

definition request_of_withdrawal :: "settlement_withdrawal \<Rightarrow> string \<Rightarrow> withdraw_request" where
  "request_of_withdrawal w nonce = \<lparr>wr_id = sw_id w, wr_owner = sw_owner w, wr_denom = sw_denom w, wr_amount = sw_amount w,
     wr_destination = sw_destination w, wr_nonce = nonce, wr_signature = []\<rparr>"

definition input_of_withdrawal :: "settlement_withdrawal \<Rightarrow> string \<Rightarrow> withdrawal_input" where
  "input_of_withdrawal w nonce = \<lparr>wn_request = request_of_withdrawal w nonce, wn_nullifier = sw_nullifier w,
     wn_destination_hash = sw_destination_hash w\<rparr>"

text \<open>
  A mirror in which the account is that of the vector refuses the intent, and the request with its
  amount.
\<close>

definition rejects_over_withdraw :: "over_withdraw_vector \<Rightarrow> bool" where
  "rejects_over_withdraw v \<longleftrightarrow> (\<forall>s seq nf. let i = ov_intent v in
     local_account s (iv_owner i) (iv_denom i) = ov_account_snapshot v \<longrightarrow>
     build_withdraw_request s seq (intent_of i) = Inl ErrInsufficientBalance
     \<and> (trim_space nf \<noteq> [] \<longrightarrow> trim_space nf \<notin> ls_nullifiers s \<longrightarrow>
        apply_withdrawal s (vec_request\<lparr>wr_amount := iv_amount i\<rparr>) nf = Inl ErrInsufficientBalance))"

text \<open>Whenever the first withdrawal of the batch was applied, the second one is refused.\<close>

definition rejects_duplicate :: "duplicate_nullifier_vector \<Rightarrow> bool" where
  "rejects_duplicate v \<longleftrightarrow> (case su_withdrawals (nn_update v) of
       [w, w'] \<Rightarrow> (\<forall>s s' root nonce nonce'.
         apply_withdrawal s (request_of_withdrawal w nonce) (sw_nullifier w) = Inr (s', root) \<longrightarrow>
         is_ok (parse_non_negative_amount nonce') \<longrightarrow>
         apply_withdrawal s' (request_of_withdrawal w' nonce') (sw_nullifier w') = Inl ErrWithdrawAlreadyApplied)
     | _ \<Rightarrow> False)"

text \<open>The recomputed hash differs, and no batch with the withdrawal can be built.\<close>

definition rejects_tampered :: "tampered_destination_vector \<Rightarrow> bool" where
  "rejects_tampered v \<longleftrightarrow> (\<exists>w. su_withdrawals (tv_settlement v) = [w]
     \<and> withdraw_address_hash (sw_destination w) \<noteq> Inr (sw_destination_hash w)
     \<and> (\<forall>seq inp nonce. input_of_withdrawal w nonce \<in> set (si_withdrawals inp)
          \<longrightarrow> settlement_build seq inp = Inl ErrInvalidSettlementInputs))"

text \<open>
  The vector is a well-formed batch: its public inputs are built. A proof made for any batch from the right
  root is refused with it, by the gate of the service and by the local relayer. That the root is stale only the
  chain can tell.
\<close>

definition wrong_root_unprovable :: "wrong_root_vector \<Rightarrow> bool" where
  "wrong_root_unprovable v \<longleftrightarrow> su_old_root (wv_tampered v) \<noteq> wv_correct_old_root v
     \<and> build_public_inputs (wv_tampered v) (wv_commitments v) = Inr (wv_public_inputs v)
     \<and> (\<forall>u c inputs vk req. su_old_root u = wv_correct_old_root v \<longrightarrow> build_public_inputs u c = Inr inputs \<longrightarrow>
          sb_update req = wv_tampered v \<longrightarrow> pb_public_inputs (sb_proof req) = inputs \<longrightarrow>
          guard_proof_contract vk req = Some ErrProofVerificationFailed \<and> \<not> is_ok (local_submit_batch req))"

lemma over_withdraw_rejected: "rejects_over_withdraw vec_over_withdraw"
proof -
  let ?i = "\<lparr>iv_owner = ''cosmos1alice'', iv_denom = ''uusdc'', iv_amount = ''200'', iv_destination = ''cosmos1alice''\<rparr>"
  have v: "ov_intent vec_over_withdraw = ?i" "ov_account_snapshot vec_over_withdraw = vec_account ''100'' ''0''"
    by (simp_all add: vec_over_withdraw_def over_withdraw_of_def vec_artifacts_def vec_request_def)
  have t: "trim_space ''200'' = ''200''" by (simp add: trim_space_ends_eval plain_char_def)
  show ?thesis
    unfolding rejects_over_withdraw_def v
    by (auto simp: build_withdraw_request_def intent_of_def vec_eval t vec_account_fields apply_withdrawal_def
        validate_withdraw_request_def vec_request_def local_account_def Let_def)
qed

lemma apply_withdrawal_spends:
  "apply_withdrawal s r nf = Inr (s', x) \<Longrightarrow> trim_space nf \<in> ls_nullifiers s'"
  by (auto simp: apply_withdrawal_def Let_def split: option.splits if_splits sum.splits)

lemma duplicate_rejected: "rejects_duplicate vec_duplicate"
proof -
  have v: "su_withdrawals (nn_update vec_duplicate) = [vec_withdrawal, replay_withdrawal]"
    by (simp add: vec_duplicate_def replay_update_def)
  have p: "parse_positive_amount ''20'' = Inr 20" and t: "trim_space ''wd-2-replay'' = ''wd-2-replay''"
    by (simp_all add: parse_positive_amount_def trim_space_ends_eval plain_char_def parse_non_negative_amount_def
        set_string10_def unsigned10_def digit_val_def)
  have n: "sw_nullifier vec_withdrawal = vec_nullifier" by (simp add: vec_withdrawal_def)
  have "apply_withdrawal s' (request_of_withdrawal replay_withdrawal nonce') vec_nullifier = Inl ErrWithdrawAlreadyApplied"
    if "vec_nullifier \<in> ls_nullifiers s'" "is_ok (parse_non_negative_amount nonce')" for s' nonce'
    using that p t
    by (auto simp: apply_withdrawal_def validate_withdraw_request_def request_of_withdrawal_def replay_withdrawal_def
        vec_withdrawal_def vec_eval vec_not_empty is_ok_iff Let_def)
  then show ?thesis
    using apply_withdrawal_spends [of _ _ vec_nullifier]
    by (auto simp: rejects_duplicate_def v n replay_withdrawal_def vec_trims)
qed

lemma tampered_rejected: "rejects_tampered vec_tampered"
proof -
  let ?w = "vec_withdrawal\<lparr>sw_destination := attacker_addr\<rparr>"
  have t: "trim_space attacker_addr = attacker_addr" "attacker_addr \<noteq> []"
    by (simp_all add: trim_space_ends_eval plain_char_def attacker_addr_def)
  have h: "withdraw_address_hash attacker_addr \<noteq> Inr vec_destination_hash"
    using digest_attacker t
    by (simp add: withdraw_address_hash_def address_preimage_def withdraw_address_domain_tag_def vec_destination_hash_def
        attacker_addr_def Let_def)
  then have "\<not> good_withdrawal d (input_of_withdrawal ?w nonce)" for d nonce
    by (simp add: good_withdrawal_def input_of_withdrawal_def request_of_withdrawal_def vec_withdrawal_def)
  then have "settlement_build seq inp = Inl ErrInvalidSettlementInputs"
    if "input_of_withdrawal ?w nonce \<in> set (si_withdrawals inp)" for seq inp nonce
    using that by (auto simp: settlement_build_eq inputs_valid_def)
  with h show ?thesis
    by (auto simp: rejects_tampered_def vec_tampered_def stolen_update_def vec_withdrawal_def)
qed

lemma other_root_refused:
  assumes "su_old_root u \<noteq> su_old_root (sb_update req)" and "build_public_inputs u c = Inr (pb_public_inputs (sb_proof req))"
  shows "guard_proof_contract vk req = Some ErrProofVerificationFailed" and "\<not> is_ok (local_submit_batch req)"
proof -
  obtain xs where p: "pb_public_inputs (sb_proof req) = su_old_root u # xs"
    using assms(2) by (cases "pb_public_inputs (sb_proof req)") (auto simp: build_public_inputs_eq split: if_splits)
  then have "build_public_inputs (sb_update req) (sb_commitments req) \<noteq> Inr (pb_public_inputs (sb_proof req))"
    using assms(1) by (simp add: build_public_inputs_eq)
  then show "guard_proof_contract vk req = Some ErrProofVerificationFailed"
    using guard_None [of vk req] guard_error [of vk req] by (cases "guard_proof_contract vk req") auto
  show "\<not> is_ok (local_submit_batch req)"
    using assms(1) p by (auto simp: local_submit_batch_def validate_public_inputs_def is_ok_iff Let_def split: option.splits if_splits)
qed

lemma wrong_root_refused: "wrong_root_unprovable vec_wrong_root"
proof -
  have v: "wv_correct_old_root vec_wrong_root = root_b" "su_old_root (wv_tampered vec_wrong_root) = bad_root"
    by (simp_all add: vec_wrong_root_def bad_root_update_def)
  have "build_public_inputs (wv_tampered vec_wrong_root) (wv_commitments vec_wrong_root) = Inr (wv_public_inputs vec_wrong_root)"
    using failure_inputs(1) by (simp add: vec_wrong_root_def)
  moreover have "guard_proof_contract vk req = Some ErrProofVerificationFailed \<and> \<not> is_ok (local_submit_batch req)"
    if "su_old_root u = root_b" "build_public_inputs u c = Inr inputs" "sb_update req = wv_tampered vec_wrong_root"
      "pb_public_inputs (sb_proof req) = inputs" for u c inputs vk req
    using other_root_refused(1) [of u req c vk] other_root_refused(2) [of u req c] that v bad_root_facts(2) by simp
  ultimately show ?thesis using bad_root_facts(2) unfolding wrong_root_unprovable_def v by blast
qed

subsection \<open>What a check of a folder says\<close>

definition digests_match :: "files \<Rightarrow> file_path \<Rightarrow> (string \<rightharpoonup> string) \<Rightarrow> bool" where
  "digests_match fs dir expected \<longleftrightarrow>
     (\<forall>n h. expected n = Some h \<longrightarrow> (\<exists>b. os_read_file fs (join_path dir n) = Some b \<and> sha256_hex b = h))"

lemma check_digests_match:
  "check_digests mismatch fs dir (expected_digests entries) = None \<longleftrightarrow> digests_match fs dir (map_of (rev entries))"
  using expected_distinct [of entries]
  by (auto simp: digests_match_def check_digests_None digest_right [symmetric] map_of_expected [symmetric] map_of_eq_Some_iff)

lemma verify_folder_eq:
  "verify_folder mismatch fs dir entries = (let expected = map_of (rev entries) in
     if folder_matches fs dir expected then None
     else if digests_match fs dir expected \<and> node_at fs dir \<noteq> Some Folder then Some (ErrFile ''list'')
     else Some mismatch)"
proof (cases "folder_matches fs dir (map_of (rev entries))")
  case True
  then show ?thesis by (simp add: verify_folder_None Let_def)
next
  case False
  then have "verify_folder mismatch fs dir entries \<noteq> None" by (simp add: verify_folder_None)
  with False check_digests_match [of mismatch fs dir entries] show ?thesis
    by (auto simp: verify_folder_def os_read_dir_def Let_def split: option.splits if_splits dest: check_digests_Some)
qed

subsection \<open>Running twice\<close>

lemma after_run_folder: "q \<noteq> [] \<Longrightarrow> prefix q (dir @ [failure_subdir]) \<Longrightarrow> after_run dir fs q = Some Folder"
proof -
  assume q: "q \<noteq> []" "prefix q (dir @ [failure_subdir])"
  then have "q \<noteq> dir @ [n]" if "n \<in> set (legacy_file # manifest_file # map fst alice_items)" for n
    using that names_not_subdir by auto
  moreover have "q \<noteq> dir @ [failure_subdir, n]" for n using q(2) by (auto dest: prefix_length_le)
  ultimately have "map_of (vector_files dir) q = None" "q \<noteq> dir @ [legacy_file]" unfolding vector_files_names by auto
  with q show "after_run dir fs q = Some Folder" by (simp add: after_run_def)
qed

lemma after_run_free:
  "n \<in> set (legacy_file # manifest_file # map fst alice_items) \<Longrightarrow> after_run dir fs (dir @ [n]) \<notin> {Some Folder, Some Locked}"
  "n \<in> set (failure_manifest_file # map fst failure_items) \<Longrightarrow> after_run dir fs (dir @ [failure_subdir, n]) \<notin> {Some Folder, Some Locked}"
proof -
  have named: "map_of (vector_files dir) (dir @ [n]) \<noteq> None" if "n \<in> set (manifest_file # map fst alice_items)"
    using that vector_files_names [of dir "dir @ [n]"] by auto
  show "after_run dir fs (dir @ [n]) \<notin> {Some Folder, Some Locked}"
    if "n \<in> set (legacy_file # manifest_file # map fst alice_items)"
    using that named by (cases "map_of (vector_files dir) (dir @ [n])") (auto simp: after_run_def)
  have "map_of (vector_files dir) (dir @ [failure_subdir, n]) \<noteq> None"
    if "n \<in> set (failure_manifest_file # map fst failure_items)"
    using that vector_files_names [of dir "dir @ [failure_subdir, n]"] by auto
  then show "after_run dir fs (dir @ [failure_subdir, n]) \<notin> {Some Folder, Some Locked}"
    if "n \<in> set (failure_manifest_file # map fst failure_items)"
    using that by (cases "map_of (vector_files dir) (dir @ [failure_subdir, n])") (auto simp: after_run_def)
qed

lemma ready_after_run:
  assumes "\<And>q. node_at fs' q = after_run (gen_out_dir cwd) fs q"
  shows "generator_ready cwd fs'" and "after_run (gen_out_dir cwd) fs' q = after_run (gen_out_dir cwd) fs q"
proof -
  show "generator_ready cwd fs'"
    using after_run_folder after_run_free by (simp add: generator_ready_def free_file_def assms Let_def)
  show "after_run (gen_out_dir cwd) fs' q = after_run (gen_out_dir cwd) fs q"
    by (cases "map_of (vector_files (gen_out_dir cwd)) q") (auto simp: after_run_def assms split: option.split)
qed

subsection \<open>The properties\<close>

text \<open>
  C24: What the generator does to a file system it can write to: it ends without dying, every path holds
  what \<open>after_run\<close> says (the seventeen files with their texts, their folders, no legacy file, and
  every other path as before), and a second run changes nothing.
\<close>

theorem generator_writes_exactly:
  assumes "generator_ready cwd fs"
  shows "\<exists>fs'. gen_main cwd fs = Inr fs' \<and> (\<forall>q. node_at fs' q = after_run (gen_out_dir cwd) fs q)
    \<and> (\<exists>fs''. gen_main cwd fs' = Inr fs'' \<and> (\<forall>q. node_at fs'' q = node_at fs' q))"
proof -
  obtain fs' where run: "gen_main cwd fs = Inr fs'" "\<And>q. node_at fs' q = after_run (gen_out_dir cwd) fs q"
    using gen_main_run [OF assms] by blast
  note again = ready_after_run [OF run(2)]
  obtain fs'' where "gen_main cwd fs' = Inr fs''" "\<And>q. node_at fs'' q = after_run (gen_out_dir cwd) fs' q"
    using gen_main_run [OF again(1)] by blast
  with run again(2) show ?thesis by auto
qed

theorem generator_writes_exactly_witness:
  "\<exists>fs'. gen_main [''w''] small_repo = Inr fs' \<and> (\<forall>q. node_at fs' q = after_run (gen_out_dir [''w'']) small_repo q)
    \<and> (\<exists>fs''. gen_main [''w''] fs' = Inr fs'' \<and> (\<forall>q. node_at fs'' q = node_at fs' q))"
  by (rule generator_writes_exactly [OF small_ready])

text \<open>
  C6: The vectors round-trip. After a run in the root of a repository without stray files the library
  loads the scenario and the failure bundle, both manifests are those of the files on disk, and
  every check between the files passes.
\<close>

theorem vectors_roundtrip:
  assumes "in_repository caller cwd fs" and "generator_ready cwd fs" and "no_strays (gen_out_dir cwd) fs"
  shows "\<exists>fs' s b. gen_main cwd fs = Inr fs'
    \<and> load_alice_scenario caller fs' = Inr s \<and> verify_manifest caller fs' (al_manifest s) = None
    \<and> sanity_check (Some s) = None
    \<and> load_failure_bundle caller fs' = Inr b \<and> verify_failure_manifest caller fs' (fb_manifest b) = None
    \<and> failure_sanity_check (Some b) = None"
proof -
  obtain fs' where run: "gen_main cwd fs = Inr fs'" "\<And>q. node_at fs' q = after_run (gen_out_dir cwd) fs q"
    using gen_main_run [OF assms(2)] by blast
  have "al_manifest vec_scenario = vec_manifest" "fb_manifest vec_bundle = vec_failure_manifest"
    by (simp_all add: vec_scenario_def vec_bundle_def)
  with run(1) load_scenario [OF assms(1) run(2)] load_bundle [OF assms(1) run(2)]
    verify_vectors [OF assms(1) run(2) assms(3)] vec_sanity vec_failure_sanity
  show ?thesis by metis
qed

theorem vectors_roundtrip_witness:
  "\<exists>fs' s b. gen_main [''w''] small_repo = Inr fs'
    \<and> load_alice_scenario small_caller fs' = Inr s \<and> verify_manifest small_caller fs' (al_manifest s) = None
    \<and> sanity_check (Some s) = None
    \<and> load_failure_bundle small_caller fs' = Inr b \<and> verify_failure_manifest small_caller fs' (fb_manifest b) = None
    \<and> failure_sanity_check (Some b) = None"
  by (rule vectors_roundtrip [OF small_in_repository small_ready small_no_strays])

text \<open>
  C7: The values the generator computes. Its run over the real mirror, builder and commitments, with SHA-256
  computed in the logic, gives the roots, the nullifier, the destination hash, the transaction hash, the four
  commitments and the balances of the vectors that are checked in under \<^verbatim>\<open>testvectors/alice_100_40\<close>.
\<close>

theorem generator_golden_values:
  assumes "generator_ready cwd fs"
  shows "\<exists>g. gen_happy cwd fs = Inr g
    \<and> g_root_a g = ''0xe4029e127d0d318624204f91c87aed84377819b97f1c80cc53edf9b35840805d''
    \<and> g_root_b g = ''0x9b325b4150d417adfd816930b6f291aaf9493995fe0f960864c616ff178f8620''
    \<and> g_root_c g = ''0x44d60f77db879799be6212c46d198243cbe2fe2969901ca3663dfb204276250c''
    \<and> g_nullifier g = ''0x1a1fdf4ccecb7040b7cd7e125226d14ed7717618d996dab969d4cb12550b22f7''
    \<and> g_destination_hash g = ''0xa75ac956249df4c45b83281c5af6187c59df9709fd1c25b5e61b12d71a8eb417''
    \<and> dep_tx_hash (g_deposit g) = ''0x250e45522560609a604b00b437734ecd''
    \<and> bc_deposits_root (g_commitments g) = ''0x5ed1bb5ad7bc2681e3ff91a63f2183052caa6479ba0e9d02d87392d24e1bbc40''
    \<and> bc_withdrawals_root (g_commitments g) = ''0xea5ccc9d188ad7d28786383089d136cc53d4bd9d9a43f755726038e9514efdb1''
    \<and> bc_nullifiers_root (g_commitments g) = ''0x13b485d1c819a2ddff2411fbacae9d5e7aa0c6efe8c103189b44554bcab66f21''
    \<and> bc_withdraw_outputs_root (g_commitments g) = ''0xce5e12744106271ca8f191db22631016126b96e19653e3884dc8923e1dde8e14''
    \<and> g_public_inputs g = [g_root_b g, g_root_c g, bc_deposits_root (g_commitments g),
        bc_withdrawals_root (g_commitments g), bc_nullifiers_root (g_commitments g), bc_withdraw_outputs_root (g_commitments g)]
    \<and> local_account (g_ls g) gen_alice gen_denom
        = \<lparr>acc_owner = gen_alice, acc_denom = gen_denom, acc_balance = ''60'', acc_nonce = ''1''\<rparr>"
proof -
  obtain fs1 where happy: "gen_happy cwd fs
      = Inr ((gen_after (gen_out_dir cwd) fs1 11)\<lparr>g_fs := happy_files (gen_out_dir cwd) fs1\<rparr>)"
    using gen_happy_run [OF assms] by blast
  have "local_account state_c gen_alice gen_denom = vec_account ''60'' ''1''"
    by (simp add: local_account_def account_get_or_zero_def account_get_def new_account_key_def gen_names vec_eval
        state_c_def vec_key_def)
  with happy gen_tx_eq show ?thesis
    by (simp add: gen_after_def Let_def root_a_def root_b_def root_c_def vec_nullifier_def vec_destination_hash_def
        vec_commitments_def vec_public_inputs_def vec_account_def gen_names)
qed

theorem generator_golden_values_witness:
  "\<exists>g. gen_happy [''w''] small_repo = Inr g
    \<and> g_root_a g = ''0xe4029e127d0d318624204f91c87aed84377819b97f1c80cc53edf9b35840805d''
    \<and> g_root_b g = ''0x9b325b4150d417adfd816930b6f291aaf9493995fe0f960864c616ff178f8620''
    \<and> g_root_c g = ''0x44d60f77db879799be6212c46d198243cbe2fe2969901ca3663dfb204276250c''
    \<and> g_nullifier g = ''0x1a1fdf4ccecb7040b7cd7e125226d14ed7717618d996dab969d4cb12550b22f7''
    \<and> g_destination_hash g = ''0xa75ac956249df4c45b83281c5af6187c59df9709fd1c25b5e61b12d71a8eb417''
    \<and> dep_tx_hash (g_deposit g) = ''0x250e45522560609a604b00b437734ecd''
    \<and> bc_deposits_root (g_commitments g) = ''0x5ed1bb5ad7bc2681e3ff91a63f2183052caa6479ba0e9d02d87392d24e1bbc40''
    \<and> bc_withdrawals_root (g_commitments g) = ''0xea5ccc9d188ad7d28786383089d136cc53d4bd9d9a43f755726038e9514efdb1''
    \<and> bc_nullifiers_root (g_commitments g) = ''0x13b485d1c819a2ddff2411fbacae9d5e7aa0c6efe8c103189b44554bcab66f21''
    \<and> bc_withdraw_outputs_root (g_commitments g) = ''0xce5e12744106271ca8f191db22631016126b96e19653e3884dc8923e1dde8e14''
    \<and> g_public_inputs g = [g_root_b g, g_root_c g, bc_deposits_root (g_commitments g),
        bc_withdrawals_root (g_commitments g), bc_nullifiers_root (g_commitments g), bc_withdraw_outputs_root (g_commitments g)]
    \<and> local_account (g_ls g) gen_alice gen_denom
        = \<lparr>acc_owner = gen_alice, acc_denom = gen_denom, acc_balance = ''60'', acc_nonce = ''1''\<rparr>"
  by (rule generator_golden_values [OF small_ready])

text \<open>
  C15: What this program does with the failure vectors the library loads. Three are rejected by its own
  components: the amount beyond the balance by the request builder and by the mirror, the second withdrawal
  with a spent nullifier by the mirror, the changed destination by its hash and by the settlement builder. The
  wrong old root is for the chain to reject, which is not modelled: here the public input builder accepts it, and
  no proof made for a batch from the right root passes the gate of the submit or the local relayer with it.
\<close>

theorem failure_vectors_rejected:
  assumes "in_repository caller cwd fs" and "generator_ready cwd fs"
  shows "\<exists>fs' b. gen_main cwd fs = Inr fs' \<and> load_failure_bundle caller fs' = Inr b
    \<and> rejects_over_withdraw (fb_over_withdraw b) \<and> rejects_duplicate (fb_duplicate b)
    \<and> rejects_tampered (fb_tampered b) \<and> wrong_root_unprovable (fb_wrong_root b)"
proof -
  obtain fs' where run: "gen_main cwd fs = Inr fs'" "\<And>q. node_at fs' q = after_run (gen_out_dir cwd) fs q"
    using gen_main_run [OF assms(2)] by blast
  with load_bundle [OF assms(1) run(2)] over_withdraw_rejected duplicate_rejected tampered_rejected wrong_root_refused
  show ?thesis by (auto simp: vec_bundle_def)
qed

theorem failure_vectors_rejected_witness:
  "\<exists>fs' b. gen_main [''w''] small_repo = Inr fs' \<and> load_failure_bundle small_caller fs' = Inr b
    \<and> rejects_over_withdraw (fb_over_withdraw b) \<and> rejects_duplicate (fb_duplicate b)
    \<and> rejects_tampered (fb_tampered b) \<and> wrong_root_unprovable (fb_wrong_root b)"
  by (rule failure_vectors_rejected [OF small_in_repository small_ready])

text \<open>
  C10: Verifying a manifest decides. It is accepted exactly when the scenario folder is found, every name of
  the manifest is a file with its digest (of two entries with one name the later counts), and every
  other file there is the manifest, hidden or a read-me. Otherwise the error is that of finding the
  folder, or the mismatch, or, where every digest is right, that the folder cannot be listed.
\<close>

theorem verify_manifest_decides:
  "verify_manifest caller fs m = (case scenario_dir caller fs of Inl e \<Rightarrow> Some e
     | Inr dir \<Rightarrow> let expected = map_of (rev (map (\<lambda>e. (me_name e, me_sha256 e)) (mf_files m))) in
         if folder_matches fs dir expected then None
         else if digests_match fs dir expected \<and> node_at fs dir \<noteq> Some Folder then Some (ErrFile ''list'')
         else Some ErrManifestMismatch)"
  by (simp add: verify_manifest_def verify_folder_eq Let_def split: sum.split)

end
