(* ===== verification/Manager_Demo.thy ===== *)
theory Manager_Demo
  imports Vector_Values Offchain_Manager
begin

text \<open>
  \<^verbatim>\<open>p3/script-test/state14_manager_demo/main.go\<close>: the executable documentation of the
  off-chain manager. A run is the list of the lines it prints, one for each
  \<^verbatim>\<open>Printf\<close> or \<^verbatim>\<open>Println\<close>, or those lines with the label of the
  \<^verbatim>\<open>FAIL\<close> message it exits with (the values after the label are left out). The kernel runs it:
  it exits without failing, with the trace of \<open>manager_demo_trace\<close>.
\<close>

subsection \<open>The program\<close>

type_synonym trace = "string list"

definition demo_alice :: string where "demo_alice = ''cosmos1alice''"
definition demo_denom :: string where "demo_denom = ''uusdc''"
definition demo_secret :: string where "demo_secret = ''mock-user-secret''"

text \<open>The bytes of the character U+2026.\<close>

definition ellipsis :: string where "ellipsis = [CHR 0xE2, CHR 0x80, CHR 0xA6]"

definition short :: "string \<Rightarrow> string" where
  "short s = (if length s \<le> 18 then s else take 10 s @ ellipsis @ drop (length s - 6) s)"

definition demo_die :: "trace \<Rightarrow> string \<Rightarrow> (trace \<times> string) + trace" where
  "demo_die out label = Inl (out, label)"

definition expect :: "string \<Rightarrow> string \<Rightarrow> string \<Rightarrow> trace \<Rightarrow> (trace \<times> string) + trace" where
  "expect label got want out = (if got \<noteq> want then Inl (out, label) else Inr out)"

definition show_bool :: "bool \<Rightarrow> string" where
  "show_bool b = (if b then ''true'' else ''false'')"

definition demo_dep :: deposit_record where
  "demo_dep = zero_deposit_record\<lparr>dep_id := ''dep-1'', dep_owner := demo_alice, dep_denom := demo_denom, dep_amount := ''100''\<rparr>"

definition demo_req :: withdraw_request where
  "demo_req = zero_withdraw_request\<lparr>wr_id := ''wd-1'', wr_owner := demo_alice, wr_denom := demo_denom,
     wr_amount := ''40'', wr_destination := demo_alice, wr_nonce := ''1''\<rparr>"

definition demo_account :: "manager \<Rightarrow> account" where
  "demo_account m = manager_account m demo_alice demo_denom"

text \<open>\<^verbatim>\<open>runHappyPath\<close>: deposit, withdrawal, snapshot, and nothing to undo.\<close>

definition run_happy_path :: "trace \<Rightarrow> (trace \<times> string) + trace" where
  "run_happy_path out =
     (let out = out @ [''-- Happy path (deposit -> withdraw -> batch -> submit accept) --''];
          m = new_manager;
          out = out @ [''[init]               root='' @ short (manager_root m) @ '' gen='' @ format_uint (manager_generation m)]
      in case manager_apply_deposit m demo_dep of Inl _ \<Rightarrow> demo_die out ''ApplyDeposit''
      | Inr (m, _) \<Rightarrow>
     (let out = out @ [''[after dep-1=100]   root='' @ short (manager_root m) @ '' gen='' @ format_uint (manager_generation m)
            @ '' balance='' @ acc_balance (demo_account m) @ '' nonce='' @ acc_nonce (demo_account m)]
      in case nullifier_for demo_secret ''1'' of Inl _ \<Rightarrow> demo_die out ''NullifierFor''
      | Inr nullifier \<Rightarrow>
     (case manager_apply_withdraw_request m demo_req nullifier of Inl _ \<Rightarrow> demo_die out ''ApplyWithdrawRequest''
      | Inr (m, _) \<Rightarrow>
     (let out = out @ [''[after wd-1=40]     root='' @ short (manager_root m) @ '' gen='' @ format_uint (manager_generation m)
            @ '' balance='' @ acc_balance (demo_account m) @ '' nonce='' @ acc_nonce (demo_account m)
            @ '' nullifier='' @ short nullifier];
          snap = manager_snapshot m;
          out = out @ [''[snapshot for batch] root='' @ short (sn_root snap) @ '' gen='' @ format_uint (sn_gen snap) @ '' (immutable)'']
      in Inr (out @ [''[submit accept]      manager state unchanged. final balance='' @ acc_balance (demo_account m)])))))"

text \<open>\<^verbatim>\<open>runRollbackOnSubmitFail\<close>, with the final checks on their own.\<close>

definition check_rolled_back :: "manager \<Rightarrow> string \<Rightarrow> trace \<Rightarrow> (trace \<times> string) + trace" where
  "check_rolled_back m nullifier out =
     (case expect ''balance after rollback'' (acc_balance (demo_account m)) ''100'' out of Inl e \<Rightarrow> Inl e
      | Inr out \<Rightarrow>
     (case expect ''nonce after rollback'' (acc_nonce (demo_account m)) ''0'' out of Inl e \<Rightarrow> Inl e
      | Inr out \<Rightarrow>
       if manager_is_nullifier_applied m nullifier then demo_die out ''rollback should clear nullifier''
       else if \<not> manager_is_deposit_applied m ''dep-1''
       then demo_die out ''pre-snapshot deposit must persist through rollback''
       else Inr (out @ [''[ok]                 rollback restored pre-batch state correctly''])))"

definition run_rollback_on_submit_fail :: "trace \<Rightarrow> (trace \<times> string) + trace" where
  "run_rollback_on_submit_fail out =
     (let out = out @ [''-- Rollback path (deposit -> withdraw -> batch -> submit FAIL -> rollback) --''];
          m = new_manager
      in case manager_apply_deposit m demo_dep of Inl _ \<Rightarrow> demo_die out ''ApplyDeposit''
      | Inr (m, _) \<Rightarrow>
     (let out = out @ [''[after deposit]      balance='' @ acc_balance (demo_account m)];
          pre_batch_snap = manager_snapshot m;
          out = out @ [''[pre-batch snapshot] root='' @ short (sn_root pre_batch_snap)]
      in case nullifier_for demo_secret ''1'' of Inl _ \<Rightarrow> demo_die out ''NullifierFor''
      | Inr nullifier \<Rightarrow>
     (case manager_apply_withdraw_request m demo_req nullifier of Inl _ \<Rightarrow> demo_die out ''ApplyWithdrawRequest''
      | Inr (m, _) \<Rightarrow>
     (let out = out @ [''[after withdraw]     balance='' @ acc_balance (demo_account m) @ '' nonce='' @ acc_nonce (demo_account m)
            @ '' nullifier_consumed='' @ show_bool (manager_is_nullifier_applied m nullifier)];
          out = out @ [''[submit FAIL]        rolling back to pre-batch snapshot...''];
          m = manager_rollback pre_batch_snap m;
          out = out @ [''[after rollback]     root='' @ short (manager_root m) @ '' balance='' @ acc_balance (demo_account m)
            @ '' nonce='' @ acc_nonce (demo_account m)
            @ '' nullifier_consumed='' @ show_bool (manager_is_nullifier_applied m nullifier)
            @ '' gen='' @ format_uint (manager_generation m)]
      in check_rolled_back m nullifier out))))"

definition manager_demo :: "(trace \<times> string) + trace" where
  "manager_demo = (case run_happy_path [''== STATE-14 OffchainStateManager demo =='', []] of Inl e \<Rightarrow> Inl e
     | Inr out \<Rightarrow> run_rollback_on_submit_fail (out @ [[]]))"

subsection \<open>Running it\<close>

definition demo_nullifier :: string where
  "demo_nullifier = ''0xac441258225277bef8aa13fc03cf4d9e8f10549fbdca6b860c89dd0c4148ea91''"

lemma digest_demo:
  "sha256_hex (''zkdex/nullifier/v0|mock-user-secret|1'')
    = ''0xac441258225277bef8aa13fc03cf4d9e8f10549fbdca6b860c89dd0c4148ea91''"
  by (rule sha256_hex_by [where l = 37 and z = 18 and k = "Suc 0"
        and t = "[CHR 0x00, CHR 0x00, CHR 0x00, CHR 0x00, CHR 0x00, CHR 0x00, CHR 0x01, CHR 0x28]"])
     (simp, simp, simp, simp add: be_bytes_step, simp add: length_bytes_eval, simp only: zero_bytes_eval, simp only: digest_eval)

lemma demo_trims: "trim_space ''mock-user-secret'' = ''mock-user-secret''" "trim_space demo_nullifier = demo_nullifier"
  by (simp_all add: trim_space_ends_eval plain_char_def demo_nullifier_def)

lemma demo_nullifier_eq: "nullifier_for demo_secret ''1'' = Inr demo_nullifier" "demo_nullifier \<noteq> []"
  using digest_demo vec_decimals(2)
  by (simp_all add: nullifier_for_def demo_secret_def demo_trims vec_eval nullifier_preimage_def
      nullifier_domain_tag_def demo_nullifier_def Let_def)

lemmas demo_names = demo_alice_def demo_denom_def

definition demo_credited :: manager where
  "demo_credited = \<lparr>mg_ls = state_b, mg_gen = 1\<rparr>"

definition demo_debited :: manager where
  "demo_debited = \<lparr>mg_ls = state_c\<lparr>ls_nullifiers := {demo_nullifier}\<rparr>, mg_gen = 2\<rparr>"

lemma demo_deposit_eq: "manager_apply_deposit new_manager demo_dep = Inr (demo_credited, root_b)"
  using vec_account_root(1)
  by (simp add: manager_apply_deposit_def new_manager_def demo_credited_def apply_deposit_def validate_deposit_def
      demo_dep_def demo_names vec_eval new_local_state_def new_account_state_def credit_def new_account_key_def
      zero_account_def state_b_def vec_key_def vec_account_def Let_def vec_decimals [simplified])

lemma demo_withdraw_eq:
  "manager_apply_withdraw_request demo_credited demo_req demo_nullifier = Inr (demo_debited, root_c)"
  using vec_account_root(2) vec_decimals(2)
  by (simp add: manager_apply_withdraw_request_def demo_credited_def demo_debited_def apply_withdrawal_def
      validate_withdraw_request_def demo_req_def demo_names demo_trims demo_nullifier_eq(2) vec_eval state_b_def
      state_c_def account_get_or_zero_def account_get_def new_account_key_def vec_key_def vec_account_def debit_def Let_def)

lemma demo_accounts:
  "demo_account demo_credited = vec_account ''100'' ''0''" "demo_account demo_debited = vec_account ''60'' ''1''"
  by (simp_all add: demo_account_def demo_credited_def demo_debited_def manager_account_def local_account_def
      account_get_or_zero_def account_get_def new_account_key_def demo_names vec_eval state_b_def state_c_def vec_key_def)

lemma demo_rollback:
  "manager_rollback (manager_snapshot demo_credited) demo_debited = demo_credited\<lparr>mg_gen := 3\<rparr>"
  by (simp add: manager_rollback_def local_state_from_manager_snapshot demo_credited_def demo_debited_def
      manager_snapshot_def new_local_state_from_snapshot_def state_b_def root_b_def)

lemma demo_account_gen [simp]: "demo_account (m\<lparr>mg_gen := g\<rparr>) = demo_account m"
  by (simp add: demo_account_def manager_account_def)

lemma short_roots:
  "short root_a = ''0xe4029e12'' @ ellipsis @ ''40805d''" "short root_b = ''0x9b325b41'' @ ellipsis @ ''8f8620''"
  "short root_c = ''0x44d60f77'' @ ellipsis @ ''76250c''" "short demo_nullifier = ''0xac441258'' @ ellipsis @ ''48ea91''"
  by (simp_all add: short_def root_a_def root_b_def root_c_def demo_nullifier_def)

lemma demo_gens:
  "format_uint 0 = ''0''" "format_uint 1 = ''1''" "format_uint 2 = ''2''" "format_uint 3 = ''3''"
  by (simp_all add: format_uint_def nat_to_dec.simps digit_char_eval)

lemmas demo_observe = manager_root_def manager_generation_def manager_is_nullifier_applied_def
  manager_is_deposit_applied_def is_nullifier_applied_def is_deposit_applied_def manager_snapshot_def
  new_manager_def initial_root demo_credited_def demo_debited_def state_b_def state_c_def
  demo_trims demo_nullifier_eq(2) vec_trims Let_def

definition happy_trace :: trace where
  "happy_trace = [
      ''-- Happy path (deposit -> withdraw -> batch -> submit accept) --'',
      ''[init]               root=0xe4029e12'' @ ellipsis @ ''40805d gen=0'',
      ''[after dep-1=100]   root=0x9b325b41'' @ ellipsis @ ''8f8620 gen=1 balance=100 nonce=0'',
      ''[after wd-1=40]     root=0x44d60f77'' @ ellipsis @ ''76250c gen=2 balance=60 nonce=1 nullifier=0xac441258'' @ ellipsis @ ''48ea91'',
      ''[snapshot for batch] root=0x44d60f77'' @ ellipsis @ ''76250c gen=2 (immutable)'',
      ''[submit accept]      manager state unchanged. final balance=60'']"

definition rollback_trace :: trace where
  "rollback_trace = [
      ''-- Rollback path (deposit -> withdraw -> batch -> submit FAIL -> rollback) --'',
      ''[after deposit]      balance=100'',
      ''[pre-batch snapshot] root=0x9b325b41'' @ ellipsis @ ''8f8620'',
      ''[after withdraw]     balance=60 nonce=1 nullifier_consumed=true'',
      ''[submit FAIL]        rolling back to pre-batch snapshot...'',
      ''[after rollback]     root=0x9b325b41'' @ ellipsis @ ''8f8620 balance=100 nonce=0 nullifier_consumed=false gen=3'',
      ''[ok]                 rollback restored pre-batch state correctly'']"

lemma happy_path_run: "run_happy_path out = Inr (out @ happy_trace)"
proof -
  have "manager_root new_manager = root_a" "manager_generation new_manager = 0"
    "manager_root demo_credited = root_b" "manager_generation demo_credited = 1"
    "manager_root demo_debited = root_c" "manager_generation demo_debited = 2"
    "sn_root (manager_snapshot demo_debited) = root_c" "sn_gen (manager_snapshot demo_debited) = 2"
    by (simp_all add: demo_observe)
  then show ?thesis
    by (simp add: run_happy_path_def demo_deposit_eq demo_withdraw_eq demo_nullifier_eq(1) demo_accounts vec_account_def
        short_roots demo_gens happy_trace_def Let_def)
qed

lemma rollback_path_run: "run_rollback_on_submit_fail out = Inr (out @ rollback_trace)"
proof -
  have "sn_root (manager_snapshot demo_credited) = root_b" "manager_is_nullifier_applied demo_debited demo_nullifier"
    "manager_root (demo_credited\<lparr>mg_gen := 3\<rparr>) = root_b" "manager_generation (demo_credited\<lparr>mg_gen := 3\<rparr>) = 3"
    "\<not> manager_is_nullifier_applied (demo_credited\<lparr>mg_gen := 3\<rparr>) demo_nullifier"
    "manager_is_deposit_applied (demo_credited\<lparr>mg_gen := 3\<rparr>) ''dep-1''"
    by (simp_all add: demo_observe)
  then show ?thesis
    by (simp add: run_rollback_on_submit_fail_def check_rolled_back_def expect_def show_bool_def demo_deposit_eq
        demo_withdraw_eq demo_nullifier_eq(1) demo_accounts demo_rollback vec_account_def short_roots demo_gens
        rollback_trace_def Let_def)
qed

theorem manager_demo_trace:
  "manager_demo = Inr ([''== STATE-14 OffchainStateManager demo =='', []] @ happy_trace @ [[]] @ rollback_trace)"
  by (simp add: manager_demo_def happy_path_run rollback_path_run)

end
