(* ===== verification/Store_Clones.thy ===== *)
theory Store_Clones
  imports Memory_Store "HOL-Library.DAList" "HOL-Library.Sublist"
begin

text \<open>
  The clone helpers of \<^verbatim>\<open>internal/store/memory_store.go\<close>, on a heap. Where the other theories take
  a dashboard state as a value, here its maps, its slices and the structs behind its pointers are
  cells with addresses, as in the program, and a clone allocates. Each helper is an instance of the
  locale \<open>clonable\<close>: its result reads the same and shares no cell with anything that existed before.
\<close>

subsection \<open>The heap\<close>

text \<open>
  An address is an index; nothing is freed. A pointer, a map or a slice is an address or nil, a slice
  being the whole of its array. A struct that holds slices holds their addresses. Strings are
  immutable in Go, so they are values.
\<close>

type_synonym addr = nat

record stored_settlement =
  ss_batch_id :: string
  ss_old_root :: string
  ss_new_root :: string
  ss_deposits :: "addr option"
  ss_withdrawals :: "addr option"

record stored_proof =
  sp_proof :: string
  sp_public_inputs :: "addr option"
  sp_vk_id :: string

datatype cell =
    BalanceMap "(string, string) alist"
  | DepositCell deposit_record
  | RequestCell withdraw_request
  | SettlementCell stored_settlement
  | DepositArray "settlement_deposit list"
  | WithdrawalArray "settlement_withdrawal list"
  | CommitmentsCell batch_commitments
  | ProofCell stored_proof
  | StringArray "string list"
  | RecordArray "withdraw_record list"

type_synonym heap = "cell list"

fun as_map :: "cell \<Rightarrow> (string, string) alist option" where
  "as_map (BalanceMap m) = Some m" | "as_map _ = None"
fun as_deposit :: "cell \<Rightarrow> deposit_record option" where
  "as_deposit (DepositCell d) = Some d" | "as_deposit _ = None"
fun as_request :: "cell \<Rightarrow> withdraw_request option" where
  "as_request (RequestCell r) = Some r" | "as_request _ = None"
fun as_settlement :: "cell \<Rightarrow> stored_settlement option" where
  "as_settlement (SettlementCell u) = Some u" | "as_settlement _ = None"
fun as_deposits :: "cell \<Rightarrow> settlement_deposit list option" where
  "as_deposits (DepositArray xs) = Some xs" | "as_deposits _ = None"
fun as_withdrawals :: "cell \<Rightarrow> settlement_withdrawal list option" where
  "as_withdrawals (WithdrawalArray xs) = Some xs" | "as_withdrawals _ = None"
fun as_commitments :: "cell \<Rightarrow> batch_commitments option" where
  "as_commitments (CommitmentsCell c) = Some c" | "as_commitments _ = None"
fun as_proof :: "cell \<Rightarrow> stored_proof option" where
  "as_proof (ProofCell p) = Some p" | "as_proof _ = None"
fun as_strings :: "cell \<Rightarrow> string list option" where
  "as_strings (StringArray xs) = Some xs" | "as_strings _ = None"
fun as_records :: "cell \<Rightarrow> withdraw_record list option" where
  "as_records (RecordArray xs) = Some xs" | "as_records _ = None"

definition follow :: "(cell \<Rightarrow> 'a option) \<Rightarrow> heap \<Rightarrow> addr option \<Rightarrow> 'a option" where
  "follow f h p = (case p of None \<Rightarrow> None | Some a \<Rightarrow> if a < length h then f (h ! a) else None)"

definition slice_at :: "(cell \<Rightarrow> 'a list option) \<Rightarrow> heap \<Rightarrow> addr option \<Rightarrow> 'a list" where
  "slice_at f h p = (case follow f h p of None \<Rightarrow> [] | Some xs \<Rightarrow> xs)"

definition alloc :: "cell \<Rightarrow> heap \<Rightarrow> heap \<times> addr option" where
  "alloc c h = (h @ [c], Some (length h))"

text \<open>\<^verbatim>\<open>append([]T(nil), xs...)\<close> allocates an array, and none where there is nothing to append.\<close>

definition append_to_nil :: "('a list \<Rightarrow> cell) \<Rightarrow> 'a list \<Rightarrow> heap \<Rightarrow> heap \<times> addr option" where
  "append_to_nil array xs h = (if xs = [] then (h, None) else alloc (array xs) h)"

subsection \<open>The helpers\<close>

definition clone_string_map :: "addr option \<Rightarrow> heap \<Rightarrow> heap \<times> addr option" where
  "clone_string_map src h = (case follow as_map h src of None \<Rightarrow> (h, None)
     | Some m \<Rightarrow> alloc (BalanceMap (fold (\<lambda>(k, v) dst. DAList.update k v dst) (DAList.impl_of m) DAList.empty)) h)"

definition clone_deposit_record_ptr :: "deposit_record \<Rightarrow> heap \<Rightarrow> heap \<times> addr option" where
  "clone_deposit_record_ptr r h = alloc (DepositCell r) h"

definition clone_deposit_record_ptr_value :: "addr option \<Rightarrow> heap \<Rightarrow> heap \<times> addr option" where
  "clone_deposit_record_ptr_value p h = (case follow as_deposit h p of None \<Rightarrow> (h, None)
     | Some r \<Rightarrow> alloc (DepositCell r) h)"

definition clone_withdraw_request_ptr :: "withdraw_request \<Rightarrow> heap \<Rightarrow> heap \<times> addr option" where
  "clone_withdraw_request_ptr r h = alloc (RequestCell r) h"

definition clone_withdraw_request_ptr_value :: "addr option \<Rightarrow> heap \<Rightarrow> heap \<times> addr option" where
  "clone_withdraw_request_ptr_value p h = (case follow as_request h p of None \<Rightarrow> (h, None)
     | Some r \<Rightarrow> alloc (RequestCell r) h)"

definition clone_settlement_update_ptr :: "stored_settlement \<Rightarrow> heap \<Rightarrow> heap \<times> addr option" where
  "clone_settlement_update_ptr u h =
     (case append_to_nil DepositArray (slice_at as_deposits h (ss_deposits u)) h of (h1, ds) \<Rightarrow>
      case append_to_nil WithdrawalArray (slice_at as_withdrawals h1 (ss_withdrawals u)) h1 of (h2, ws) \<Rightarrow>
        alloc (SettlementCell (u\<lparr>ss_deposits := ds, ss_withdrawals := ws\<rparr>)) h2)"

definition clone_settlement_update_ptr_value :: "addr option \<Rightarrow> heap \<Rightarrow> heap \<times> addr option" where
  "clone_settlement_update_ptr_value p h = (case follow as_settlement h p of None \<Rightarrow> (h, None)
     | Some u \<Rightarrow> clone_settlement_update_ptr u h)"

definition clone_batch_commitments_ptr :: "batch_commitments \<Rightarrow> heap \<Rightarrow> heap \<times> addr option" where
  "clone_batch_commitments_ptr c h = alloc (CommitmentsCell c) h"

definition clone_batch_commitments_ptr_value :: "addr option \<Rightarrow> heap \<Rightarrow> heap \<times> addr option" where
  "clone_batch_commitments_ptr_value p h = (case follow as_commitments h p of None \<Rightarrow> (h, None)
     | Some c \<Rightarrow> alloc (CommitmentsCell c) h)"

definition clone_proof_bundle_ptr :: "stored_proof \<Rightarrow> heap \<Rightarrow> heap \<times> addr option" where
  "clone_proof_bundle_ptr p h =
     (case append_to_nil StringArray (slice_at as_strings h (sp_public_inputs p)) h of (h1, xs) \<Rightarrow>
        alloc (ProofCell (p\<lparr>sp_public_inputs := xs\<rparr>)) h1)"

definition clone_proof_bundle_ptr_value :: "addr option \<Rightarrow> heap \<Rightarrow> heap \<times> addr option" where
  "clone_proof_bundle_ptr_value p h = (case follow as_proof h p of None \<Rightarrow> (h, None)
     | Some b \<Rightarrow> clone_proof_bundle_ptr b h)"

definition clone_withdraw_records :: "addr option \<Rightarrow> heap \<Rightarrow> heap \<times> addr option" where
  "clone_withdraw_records p h = (case follow as_records h p of None \<Rightarrow> (h, None)
     | Some rs \<Rightarrow> append_to_nil RecordArray rs h)"

subsection \<open>What an address reads as, and which cells it reaches\<close>

definition map_at :: "heap \<Rightarrow> addr option \<Rightarrow> (string \<rightharpoonup> string)" where
  "map_at h p = (case follow as_map h p of None \<Rightarrow> Map.empty | Some m \<Rightarrow> DAList.lookup m)"

definition settlement_of :: "heap \<Rightarrow> stored_settlement \<Rightarrow> settlement_update" where
  "settlement_of h u = \<lparr>su_batch_id = ss_batch_id u, su_old_root = ss_old_root u, su_new_root = ss_new_root u,
     su_deposits = slice_at as_deposits h (ss_deposits u), su_withdrawals = slice_at as_withdrawals h (ss_withdrawals u)\<rparr>"

definition settlement_at :: "heap \<Rightarrow> addr option \<Rightarrow> settlement_update option" where
  "settlement_at h p = map_option (settlement_of h) (follow as_settlement h p)"

definition proof_of :: "heap \<Rightarrow> stored_proof \<Rightarrow> proof_bundle" where
  "proof_of h p = \<lparr>pb_proof = sp_proof p, pb_public_inputs = slice_at as_strings h (sp_public_inputs p), pb_vk_id = sp_vk_id p\<rparr>"

definition proof_at :: "heap \<Rightarrow> addr option \<Rightarrow> proof_bundle option" where
  "proof_at h p = map_option (proof_of h) (follow as_proof h p)"

definition settlement_slices :: "stored_settlement \<Rightarrow> addr set" where
  "settlement_slices u = set_option (ss_deposits u) \<union> set_option (ss_withdrawals u)"

definition settlement_reach :: "heap \<Rightarrow> addr option \<Rightarrow> addr set" where
  "settlement_reach h p = set_option p \<union> (case follow as_settlement h p of None \<Rightarrow> {} | Some u \<Rightarrow> settlement_slices u)"

definition proof_reach :: "heap \<Rightarrow> addr option \<Rightarrow> addr set" where
  "proof_reach h p = set_option p \<union> (case follow as_proof h p of None \<Rightarrow> {} | Some b \<Rightarrow> set_option (sp_public_inputs b))"

text \<open>Two heaps that agree on some cells, each of which is allocated in both.\<close>

definition agree :: "addr set \<Rightarrow> heap \<Rightarrow> heap \<Rightarrow> bool" where
  "agree A h h' \<longleftrightarrow> (\<forall>a \<in> A. a < length h \<and> a < length h' \<and> h' ! a = h ! a)"

lemma agree_union [simp]: "agree (A \<union> B) h h' \<longleftrightarrow> agree A h h' \<and> agree B h h'"
  by (auto simp: agree_def)

lemma agree_prefix: "A \<subseteq> {..<length h} \<Longrightarrow> prefix h h' \<Longrightarrow> agree A h h'"
  by (auto simp: agree_def prefix_def nth_append)

lemma follow_agree: "agree (set_option p) h h' \<Longrightarrow> follow f h' p = follow f h p"
  by (cases p) (auto simp: follow_def agree_def)

lemma slice_agree: "agree (set_option p) h h' \<Longrightarrow> slice_at f h' p = slice_at f h p"
  by (simp add: slice_at_def follow_agree)

lemma settlement_of_agree: "agree (settlement_slices u) h h' \<Longrightarrow> settlement_of h' u = settlement_of h u"
  by (simp add: settlement_of_def settlement_slices_def slice_agree)

lemma alloc_eq: "alloc c h = (h', q) \<longleftrightarrow> h' = h @ [c] \<and> q = Some (length h)"
  by (auto simp: alloc_def)

lemma follow_alloc [simp]: "follow f (h @ [c]) (Some (length h)) = f c"
  by (simp add: follow_def)

text \<open>
  Where a helper puts a slice: reading it later gives the list, and its cell is new.
\<close>

lemma append_to_nil_ok:
  assumes "append_to_nil array xs h = (h', q)" and "\<And>ys. f (array ys) = Some ys"
  shows "prefix h h'" and "set_option q \<subseteq> {length h..<length h'}"
    and "prefix h' h'' \<Longrightarrow> slice_at f h'' q = xs"
  using assms by (auto simp: append_to_nil_def alloc_eq slice_at_def follow_def prefix_def nth_append split: if_splits)

subsection \<open>Clones in general\<close>

text \<open>
  A kind of reference with its clone helper: what it reads as and reaches depends on the cells it
  reaches only, and its clone reads the same and is new.
\<close>

locale clonable =
  fixes look :: "heap \<Rightarrow> addr option \<Rightarrow> 'v" and reach :: "heap \<Rightarrow> addr option \<Rightarrow> addr set"
    and clone :: "addr option \<Rightarrow> heap \<Rightarrow> heap \<times> addr option"
  assumes look_agree: "agree (reach h p) h h' \<Longrightarrow> look h' p = look h p"
    and reach_agree: "agree (reach h p) h h' \<Longrightarrow> reach h' p = reach h p"
    and clone_new: "reach h p \<subseteq> {..<length h} \<Longrightarrow> clone p h = (h', q) \<Longrightarrow>
      prefix h h' \<and> look h' q = look h p \<and> reach h' q \<subseteq> {length h..<length h'}"
begin

lemma later:
  "reach h p \<subseteq> {..<length h} \<Longrightarrow> prefix h h' \<Longrightarrow> look h' p = look h p \<and> reach h' p = reach h p"
  using look_agree reach_agree agree_prefix by blast

text \<open>Other cells may be allocated between the reading and the cloning, and after it.\<close>

lemma clone_between:
  assumes "reach h p \<subseteq> {..<length h}" and "prefix h h1" and "clone p h1 = (h2, q)" and "prefix h2 h3"
  shows "prefix h1 h2 \<and> look h3 q = look h p \<and> reach h3 q \<subseteq> {length h1..<length h2}"
proof -
  have l: "look h1 p = look h p" "reach h1 p = reach h p" using later [OF assms(1,2)] by simp_all
  have "reach h1 p \<subseteq> {..<length h1}" using assms(1) prefix_length_le [OF assms(2)] unfolding l by fastforce
  from clone_new [OF this assms(3)] l
  have c: "prefix h1 h2" "look h2 q = look h p" "reach h2 q \<subseteq> {length h1..<length h2}" by simp_all
  then have "reach h2 q \<subseteq> {..<length h2}" by auto
  from later [OF this assms(4)] c show ?thesis by simp
qed

end

lemma flat_clonable:
  assumes "\<And>p h. clone p h = (case follow f h p of None \<Rightarrow> (h, None)
      | Some x \<Rightarrow> if hollow x then (h, None) else alloc (wrap x) h)"
    and "\<And>x. \<not> hollow x \<Longrightarrow> \<exists>y. f (wrap x) = Some y \<and> g (Some y) = g (Some x)" and "\<And>x. hollow x \<Longrightarrow> g (Some x) = g None"
  shows "clonable (\<lambda>h p. g (follow f h p)) (\<lambda>h p. set_option p) clone"
proof
  fix h p h' q
  assume "clone p h = (h', q)"
  then show "prefix h h' \<and> g (follow f h' q) = g (follow f h p) \<and> set_option q \<subseteq> {length h..<length h'}"
    using assms(2,3) unfolding assms(1)
    by (auto simp: alloc_eq follow_def [of f _ None] split: option.splits if_splits) metis
qed (simp_all add: follow_agree)

subsection \<open>The helpers are clones\<close>

lemma copied_map:
  fixes m :: "(string, string) alist"
  shows "DAList.lookup (fold (\<lambda>(k, v) dst. DAList.update k v dst) (DAList.impl_of m) DAList.empty) = DAList.lookup m"
proof -
  have "distinct (map fst xs) \<Longrightarrow> DAList.lookup (fold (\<lambda>(k, v) dst. DAList.update k v dst) xs d) k
      = (case map_of xs k of None \<Rightarrow> DAList.lookup d k | Some v \<Rightarrow> Some v)" for xs :: "(string \<times> string) list" and d k
    by (induction xs arbitrary: d) (auto simp: DAList.lookup_update split: option.splits simp flip: map_of_eq_None_iff)
  from this [of "DAList.impl_of m" DAList.empty] show ?thesis
    by (auto simp: fun_eq_iff simp flip: DAList.lookup.rep_eq split: option.split)
qed

interpretation balances: clonable map_at "\<lambda>h p. set_option p" clone_string_map
proof -
  let ?g = "\<lambda>x. case x of None \<Rightarrow> Map.empty | Some m \<Rightarrow> DAList.lookup m"
  have "clonable (\<lambda>h p. ?g (follow as_map h p)) (\<lambda>h p. set_option p) clone_string_map"
    by (rule flat_clonable [where hollow = "\<lambda>_. False" and wrap = "\<lambda>m. BalanceMap
          (fold (\<lambda>(k, v) dst. DAList.update k v dst) (DAList.impl_of m) DAList.empty)"])
       (simp_all add: clone_string_map_def copied_map cong: option.case_cong)
  then show "clonable map_at (\<lambda>h p. set_option p) clone_string_map" by (simp add: map_at_def [abs_def])
qed

interpretation deposits: clonable "follow as_deposit" "\<lambda>h p. set_option p" clone_deposit_record_ptr_value
  by (rule flat_clonable [where hollow = "\<lambda>_. False" and wrap = DepositCell and g = "\<lambda>x. x" and f = as_deposit])
     (simp_all add: clone_deposit_record_ptr_value_def split: option.split)

interpretation requests: clonable "follow as_request" "\<lambda>h p. set_option p" clone_withdraw_request_ptr_value
  by (rule flat_clonable [where hollow = "\<lambda>_. False" and wrap = RequestCell and g = "\<lambda>x. x" and f = as_request])
     (simp_all add: clone_withdraw_request_ptr_value_def split: option.split)

interpretation commitments: clonable "follow as_commitments" "\<lambda>h p. set_option p" clone_batch_commitments_ptr_value
  by (rule flat_clonable [where hollow = "\<lambda>_. False" and wrap = CommitmentsCell and g = "\<lambda>x. x" and f = as_commitments])
     (simp_all add: clone_batch_commitments_ptr_value_def split: option.split)

interpretation records: clonable "slice_at as_records" "\<lambda>h p. set_option p" clone_withdraw_records
proof -
  let ?g = "\<lambda>x :: withdraw_record list option. case x of None \<Rightarrow> [] | Some xs \<Rightarrow> xs"
  have "clonable (\<lambda>h p. ?g (follow as_records h p)) (\<lambda>h p. set_option p) clone_withdraw_records"
    by (rule flat_clonable [where hollow = "\<lambda>xs. xs = []" and wrap = RecordArray])
       (simp_all add: clone_withdraw_records_def append_to_nil_def cong: option.case_cong)
  then show "clonable (slice_at as_records) (\<lambda>h p. set_option p) clone_withdraw_records" by (simp add: slice_at_def [abs_def])
qed

lemma reach_nil:
  "settlement_at h None = None" "settlement_reach h None = {}" "proof_at h None = None" "proof_reach h None = {}"
  by (simp_all add: settlement_at_def settlement_reach_def proof_at_def proof_reach_def follow_def)

text \<open>Pointers to structs that hold slices. The struct is new, and so are its slices.\<close>

lemma clone_settlement_ok:
  assumes "clone_settlement_update_ptr u h = (h', q)" and "settlement_slices u \<subseteq> {..<length h}"
  shows "prefix h h' \<and> settlement_at h' q = Some (settlement_of h u) \<and> settlement_reach h' q \<subseteq> {length h..<length h'}"
proof -
  obtain h1 ds h2 ws where
    d: "append_to_nil DepositArray (slice_at as_deposits h (ss_deposits u)) h = (h1, ds)"
    and w: "append_to_nil WithdrawalArray (slice_at as_withdrawals h1 (ss_withdrawals u)) h1 = (h2, ws)"
    and h': "h' = h2 @ [SettlementCell (u\<lparr>ss_deposits := ds, ss_withdrawals := ws\<rparr>)]" and q: "q = Some (length h2)"
    using assms(1) by (auto simp: clone_settlement_update_ptr_def alloc_eq split: prod.splits)
  note d' = append_to_nil_ok [OF d, where f = as_deposits, simplified]
  note w' = append_to_nil_ok [OF w, where f = as_withdrawals, simplified]
  have "prefix h1 h'" using w'(1) by (simp add: h')
  then have deps: "slice_at as_deposits h' ds = slice_at as_deposits h (ss_deposits u)" by (rule d'(3))
  have "agree (set_option (ss_withdrawals u)) h h1"
    using assms(2) d'(1) by (intro agree_prefix) (auto simp: settlement_slices_def)
  then have "slice_at as_withdrawals h1 (ss_withdrawals u) = slice_at as_withdrawals h (ss_withdrawals u)" by (rule slice_agree)
  moreover have "slice_at as_withdrawals h' ws = slice_at as_withdrawals h1 (ss_withdrawals u)" by (rule w'(3)) (simp add: h')
  ultimately have "settlement_at h' q = Some (settlement_of h u)"
    using deps by (simp add: settlement_at_def settlement_of_def follow_def q h')
  moreover have "settlement_reach h' q \<subseteq> {length h..<length h'}"
    using d'(2) w'(2) prefix_length_le [OF d'(1)] prefix_length_le [OF w'(1)]
    by (fastforce simp: settlement_reach_def settlement_slices_def follow_def q h')
  moreover have "prefix h h'" using d'(1) w'(1) by (auto simp: h' prefix_def)
  ultimately show ?thesis by simp
qed

lemma clone_proof_ok:
  assumes "clone_proof_bundle_ptr b h = (h', q)"
  shows "prefix h h' \<and> proof_at h' q = Some (proof_of h b) \<and> proof_reach h' q \<subseteq> {length h..<length h'}"
proof -
  obtain h1 xs where x: "append_to_nil StringArray (slice_at as_strings h (sp_public_inputs b)) h = (h1, xs)"
    and h': "h' = h1 @ [ProofCell (b\<lparr>sp_public_inputs := xs\<rparr>)]" and q: "q = Some (length h1)"
    using assms by (auto simp: clone_proof_bundle_ptr_def alloc_eq split: prod.splits)
  note x' = append_to_nil_ok [OF x, where f = as_strings, simplified]
  have "slice_at as_strings h' xs = slice_at as_strings h (sp_public_inputs b)" by (rule x'(3)) (simp add: h')
  then have "proof_at h' q = Some (proof_of h b)" by (simp add: proof_at_def proof_of_def follow_def q h')
  moreover have "proof_reach h' q \<subseteq> {length h..<length h'}"
    using x'(2) prefix_length_le [OF x'(1)] by (fastforce simp: proof_reach_def follow_def q h')
  ultimately show ?thesis using x'(1) by (auto simp: h' prefix_def)
qed

interpretation settlements: clonable settlement_at settlement_reach clone_settlement_update_ptr_value
proof
  fix h h' p q
  show "agree (settlement_reach h p) h h' \<Longrightarrow> settlement_at h' p = settlement_at h p"
    "agree (settlement_reach h p) h h' \<Longrightarrow> settlement_reach h' p = settlement_reach h p"
    by (auto simp: settlement_at_def settlement_reach_def follow_agree settlement_of_agree split: option.splits)
  show "settlement_reach h p \<subseteq> {..<length h} \<Longrightarrow> clone_settlement_update_ptr_value p h = (h', q) \<Longrightarrow>
      prefix h h' \<and> settlement_at h' q = settlement_at h p \<and> settlement_reach h' q \<subseteq> {length h..<length h'}"
    using clone_settlement_ok [of _ h h' q]
    by (cases "follow as_settlement h p")
       (auto simp: clone_settlement_update_ptr_value_def settlement_at_def [of _ p] settlement_reach_def [of _ p]
         reach_nil)
qed

interpretation proofs: clonable proof_at proof_reach clone_proof_bundle_ptr_value
proof
  fix h h' p q
  have "agree (proof_reach h p) h h' \<Longrightarrow> follow as_proof h p = Some b \<Longrightarrow> proof_of h' b = proof_of h b" for b
    by (simp add: proof_reach_def proof_of_def slice_agree)
  then show "agree (proof_reach h p) h h' \<Longrightarrow> proof_at h' p = proof_at h p"
    "agree (proof_reach h p) h h' \<Longrightarrow> proof_reach h' p = proof_reach h p"
    by (auto simp: proof_at_def proof_reach_def follow_agree split: option.splits)
  show "proof_reach h p \<subseteq> {..<length h} \<Longrightarrow> clone_proof_bundle_ptr_value p h = (h', q) \<Longrightarrow>
      prefix h h' \<and> proof_at h' q = proof_at h p \<and> proof_reach h' q \<subseteq> {length h..<length h'}"
    using clone_proof_ok [of _ h h' q]
    by (cases "follow as_proof h p")
       (auto simp: clone_proof_bundle_ptr_value_def proof_at_def [of _ p] proof_reach_def [of _ p]
         reach_nil)
qed

subsection \<open>The dashboard state\<close>

record stored_state =
  st_mode :: string
  st_root :: string
  st_user :: "addr option"
  st_module :: "addr option"
  st_deposit :: "addr option"
  st_request :: "addr option"
  st_settlement :: "addr option"
  st_commitments :: "addr option"
  st_proof :: "addr option"
  st_records :: "addr option"
  st_proof_status :: string
  st_deposit_status :: string
  st_withdraw_status :: string
  st_batch_status :: string

definition clone_app_state :: "stored_state \<Rightarrow> heap \<Rightarrow> heap \<times> stored_state" where
  "clone_app_state s h0 =
     (case clone_string_map (st_user s) h0 of (h1, user) \<Rightarrow>
      case clone_string_map (st_module s) h1 of (h2, module) \<Rightarrow>
      case clone_deposit_record_ptr_value (st_deposit s) h2 of (h3, deposit) \<Rightarrow>
      case clone_withdraw_request_ptr_value (st_request s) h3 of (h4, request) \<Rightarrow>
      case clone_settlement_update_ptr_value (st_settlement s) h4 of (h5, settlement) \<Rightarrow>
      case clone_batch_commitments_ptr_value (st_commitments s) h5 of (h6, coms) \<Rightarrow>
      case clone_proof_bundle_ptr_value (st_proof s) h6 of (h7, bundle) \<Rightarrow>
      case clone_withdraw_records (st_records s) h7 of (h8, recs) \<Rightarrow>
      (h8, \<lparr>st_mode = st_mode s, st_root = st_root s, st_user = user, st_module = module, st_deposit = deposit,
         st_request = request, st_settlement = settlement, st_commitments = coms, st_proof = bundle, st_records = recs,
         st_proof_status = st_proof_status s, st_deposit_status = st_deposit_status s,
         st_withdraw_status = st_withdraw_status s, st_batch_status = st_batch_status s\<rparr>))"

definition app_at :: "heap \<Rightarrow> stored_state \<Rightarrow> app_state" where
  "app_at h s = \<lparr>as_mode = st_mode s, as_current_root = st_root s, as_user_balances = map_at h (st_user s),
     as_module_balance = map_at h (st_module s), as_latest_deposit = follow as_deposit h (st_deposit s),
     as_latest_request = follow as_request h (st_request s), as_latest_settlement = settlement_at h (st_settlement s),
     as_latest_commitments = follow as_commitments h (st_commitments s), as_latest_proof = proof_at h (st_proof s),
     as_latest_records = slice_at as_records h (st_records s), as_proof_status = st_proof_status s,
     as_deposit_status = st_deposit_status s, as_withdraw_status = st_withdraw_status s, as_batch_status = st_batch_status s\<rparr>"

definition state_reach :: "heap \<Rightarrow> stored_state \<Rightarrow> addr set" where
  "state_reach h s = set_option (st_user s) \<union> set_option (st_module s) \<union> set_option (st_deposit s)
     \<union> set_option (st_request s) \<union> settlement_reach h (st_settlement s) \<union> set_option (st_commitments s)
     \<union> proof_reach h (st_proof s) \<union> set_option (st_records s)"

lemma state_agree:
  assumes "agree (state_reach h s) h h'"
  shows "app_at h' s = app_at h s" and "state_reach h' s = state_reach h s"
  using assms
  by (simp_all add: app_at_def state_reach_def balances.look_agree follow_agree slice_agree settlements.look_agree
      proofs.look_agree settlements.reach_agree [of h _ h'] proofs.reach_agree [of h _ h'])

theorem clone_app_state_ok:
  assumes reach: "state_reach h s \<subseteq> {..<length h}" and clone: "clone_app_state s h = (h', s')"
  shows "prefix h h' \<and> app_at h' s' = app_at h s \<and> state_reach h' s' \<subseteq> {length h..<length h'}"
proof -
  obtain h1 h2 h3 h4 h5 h6 h7 p1 p2 p3 p4 p5 p6 p7 p8 where
    c: "clone_string_map (st_user s) h = (h1, p1)" "clone_string_map (st_module s) h1 = (h2, p2)"
      "clone_deposit_record_ptr_value (st_deposit s) h2 = (h3, p3)"
      "clone_withdraw_request_ptr_value (st_request s) h3 = (h4, p4)"
      "clone_settlement_update_ptr_value (st_settlement s) h4 = (h5, p5)"
      "clone_batch_commitments_ptr_value (st_commitments s) h5 = (h6, p6)"
      "clone_proof_bundle_ptr_value (st_proof s) h6 = (h7, p7)" "clone_withdraw_records (st_records s) h7 = (h', p8)"
    and s': "s' = \<lparr>st_mode = st_mode s, st_root = st_root s, st_user = p1, st_module = p2, st_deposit = p3,
         st_request = p4, st_settlement = p5, st_commitments = p6, st_proof = p7, st_records = p8,
         st_proof_status = st_proof_status s, st_deposit_status = st_deposit_status s,
         st_withdraw_status = st_withdraw_status s, st_batch_status = st_batch_status s\<rparr>"
    using clone by (auto simp: clone_app_state_def split: prod.splits)
  have r: "set_option (st_user s) \<subseteq> {..<length h}" "set_option (st_module s) \<subseteq> {..<length h}"
      "set_option (st_deposit s) \<subseteq> {..<length h}" "set_option (st_request s) \<subseteq> {..<length h}"
      "settlement_reach h (st_settlement s) \<subseteq> {..<length h}" "set_option (st_commitments s) \<subseteq> {..<length h}"
      "proof_reach h (st_proof s) \<subseteq> {..<length h}" "set_option (st_records s) \<subseteq> {..<length h}"
    using reach unfolding state_reach_def by blast+
  note refl = prefix_order.refl and trans = prefix_order.trans
  have q1: "prefix h h1" using balances.clone_between [OF r(1) refl c(1) refl] by simp
  have s2: "prefix h1 h2" using balances.clone_between [OF r(2) q1 c(2) refl] by simp
  note q2 = trans [OF q1 s2]
  have s3: "prefix h2 h3" using deposits.clone_between [OF r(3) q2 c(3) refl] by simp
  note q3 = trans [OF q2 s3]
  have s4: "prefix h3 h4" using requests.clone_between [OF r(4) q3 c(4) refl] by simp
  note q4 = trans [OF q3 s4]
  have s5: "prefix h4 h5" using settlements.clone_between [OF r(5) q4 c(5) refl] by simp
  note q5 = trans [OF q4 s5]
  have s6: "prefix h5 h6" using commitments.clone_between [OF r(6) q5 c(6) refl] by simp
  note q6 = trans [OF q5 s6]
  have s7: "prefix h6 h7" using proofs.clone_between [OF r(7) q6 c(7) refl] by simp
  note q7 = trans [OF q6 s7]
  have e7: "prefix h7 h'" using records.clone_between [OF r(8) q7 c(8) refl] by simp
  note e6 = trans [OF s7 e7]
  note e5 = trans [OF s6 e6]
  note e4 = trans [OF s5 e5]
  note e3 = trans [OF s4 e4]
  note e2 = trans [OF s3 e3]
  note e1 = trans [OF s2 e2]
  note facts = balances.clone_between [OF r(1) refl c(1) e1] balances.clone_between [OF r(2) q1 c(2) e2]
    deposits.clone_between [OF r(3) q2 c(3) e3] requests.clone_between [OF r(4) q3 c(4) e4]
    settlements.clone_between [OF r(5) q4 c(5) e5] commitments.clone_between [OF r(6) q5 c(6) e6]
    proofs.clone_between [OF r(7) q6 c(7) e7] records.clone_between [OF r(8) q7 c(8) refl]
  note lengths = q1 q2 q3 q4 q5 q6 q7 e1 e2 e3 e4 e5 e6 e7
  have "app_at h' s' = app_at h s" using facts by (simp add: app_at_def s')
  moreover have "state_reach h' s' \<subseteq> {length h..<length h'}"
    using facts lengths [THEN prefix_length_le] unfolding state_reach_def s' by fastforce
  ultimately show ?thesis using trans [OF q7 e7] by simp
qed

end
