(* ===== verification/Shared_Store.thy ===== *)
theory Shared_Store
  imports Store_Clones
begin

text \<open>
  \<^verbatim>\<open>MemoryStore\<close> with its dashboard state on the heap of \<open>Store_Clones\<close>. The methods that write a
  balance or claim a record do so in place, and the callers keep and change what they were given. The tables
  hold structs without pointers, so they are those of \<open>Memory_Store\<close>. The result is that the store
  of values of \<open>Memory_Store\<close> is what every caller sees, whatever the callers do to their copies.
\<close>

subsection \<open>The store on the heap\<close>

record shared_store =
  sh_heap :: heap
  sh_app :: stored_state
  sh_tables :: memory_store

definition store_of :: "shared_store \<Rightarrow> memory_store" where
  "store_of x = (sh_tables x)\<lparr>ms_app := app_at (sh_heap x) (sh_app x)\<rparr>"

definition new_shared_store :: shared_store where
  "new_shared_store = \<lparr>
     sh_heap = [BalanceMap (DAList.update ''cosmos1alice/uusdc'' ''1000'' DAList.empty),
       BalanceMap (DAList.update ''uusdc'' ''0'' DAList.empty)],
     sh_app = \<lparr>st_mode = ''local'', st_root = ''0xrootA'', st_user = Some 0, st_module = Some 1, st_deposit = None,
       st_request = None, st_settlement = None, st_commitments = None, st_proof = None, st_records = None,
       st_proof_status = ''idle'', st_deposit_status = ''none'', st_withdraw_status = ''none'', st_batch_status = ''none''\<rparr>,
     sh_tables = new_memory_store\<rparr>"

text \<open>\<^verbatim>\<open>balances[key] = v\<close>, in place.\<close>

definition put_balance :: "(64 word \<Rightarrow> 64 word) \<Rightarrow> addr option \<Rightarrow> string \<Rightarrow> heap \<Rightarrow> heap" where
  "put_balance change p key h = (case p of None \<Rightarrow> h
     | Some a \<Rightarrow> (case follow as_map h p of None \<Rightarrow> h
       | Some m \<Rightarrow> h[a := BalanceMap (DAList.update key (format_int64 (change (balance_at (DAList.lookup m) key))) m)]))"

definition credit_in_place :: "addr option \<Rightarrow> string \<Rightarrow> string \<Rightarrow> heap \<Rightarrow> heap" where
  "credit_in_place p key amount h = put_balance (\<lambda>b. b + parse_int64_or_zero amount) p key h"

definition debit_in_place :: "addr option \<Rightarrow> string \<Rightarrow> string \<Rightarrow> heap \<Rightarrow> heap" where
  "debit_in_place p key amount h = put_balance (\<lambda>b. b - parse_int64_or_zero amount) p key h"

definition shared_save_deposit :: "deposit_record \<Rightarrow> shared_store \<Rightarrow> shared_store" where
  "shared_save_deposit r x =
     (case clone_deposit_record_ptr r (sh_heap x) of (h1, p) \<Rightarrow>
      let s = (sh_app x)\<lparr>st_deposit := p, st_deposit_status := ''indexed''\<rparr>;
          h2 = debit_in_place (st_user s) (dep_owner r @ ''/'' @ dep_denom r) (dep_amount r) h1;
          h3 = credit_in_place (st_module s) (dep_denom r) (dep_amount r) h2
      in \<lparr>sh_heap = h3, sh_app = s, sh_tables = ms_save_deposit r (sh_tables x)\<rparr>)"

definition shared_save_request :: "withdraw_request \<Rightarrow> shared_store \<Rightarrow> shared_store" where
  "shared_save_request r x =
     (case clone_withdraw_request_ptr r (sh_heap x) of (h1, p) \<Rightarrow>
      \<lparr>sh_heap = h1, sh_app = (sh_app x)\<lparr>st_request := p, st_withdraw_status := ''requested''\<rparr>,
       sh_tables = ms_save_withdraw_request r (sh_tables x)\<rparr>)"

definition shared_save_batch_build :: "stored_settlement \<Rightarrow> batch_commitments \<Rightarrow> shared_store \<Rightarrow> shared_store" where
  "shared_save_batch_build u c x =
     (case clone_settlement_update_ptr u (sh_heap x) of (h1, p) \<Rightarrow>
      case clone_batch_commitments_ptr c h1 of (h2, q) \<Rightarrow>
      x\<lparr>sh_heap := h2, sh_app := (sh_app x)\<lparr>st_settlement := p, st_commitments := q, st_batch_status := ''built'',
          st_proof_status := ''idle'', st_withdraw_status := ''batchBuilt''\<rparr>\<rparr>)"

definition shared_save_proof_bundle :: "stored_proof \<Rightarrow> shared_store \<Rightarrow> shared_store" where
  "shared_save_proof_bundle b x =
     (case clone_proof_bundle_ptr b (sh_heap x) of (h1, p) \<Rightarrow>
      x\<lparr>sh_heap := h1, sh_app := (sh_app x)\<lparr>st_proof := p, st_proof_status := ''ready''\<rparr>\<rparr>)"

definition shared_save_batch_submitted ::
    "stored_settlement \<Rightarrow> batch_commitments \<Rightarrow> addr option \<Rightarrow> shared_store \<Rightarrow> shared_store" where
  "shared_save_batch_submitted u c recs x =
     (let tables = foldl (\<lambda>t r. ms_save_withdraw_record r t) (sh_tables x) (slice_at as_records (sh_heap x) recs)
      in case clone_settlement_update_ptr u (sh_heap x) of (h1, p) \<Rightarrow>
      case clone_batch_commitments_ptr c h1 of (h2, q) \<Rightarrow>
      case clone_withdraw_records recs h2 of (h3, rs) \<Rightarrow>
      \<lparr>sh_heap = h3, sh_app = (sh_app x)\<lparr>st_root := ss_new_root u, st_settlement := p, st_commitments := q,
         st_records := rs, st_deposit_status := ''processed'', st_proof_status := ''accepted'',
         st_withdraw_status := ''readyToClaim'', st_batch_status := ''accepted''\<rparr>, sh_tables = tables\<rparr>)"

text \<open>The claim puts the record into the array of the latest records, in place.\<close>

definition replace_in_place :: "string \<Rightarrow> withdraw_record \<Rightarrow> addr option \<Rightarrow> heap \<Rightarrow> heap" where
  "replace_in_place i r p h = (case p of None \<Rightarrow> h
     | Some a \<Rightarrow> (case follow as_records h p of None \<Rightarrow> h
       | Some rs \<Rightarrow> h[a := RecordArray (replace_first (\<lambda>x. wrec_id x = i) r rs)]))"

definition shared_claim_record :: "string \<Rightarrow> shared_store \<Rightarrow> shared_store \<times> withdraw_record option" where
  "shared_claim_record i x = (case ms_records (sh_tables x) i of None \<Rightarrow> (x, None)
     | Some r0 \<Rightarrow>
       let r = r0\<lparr>wrec_claimed := True\<rparr>;
           h1 = replace_in_place i r (st_records (sh_app x)) (sh_heap x);
           h2 = credit_in_place (st_user (sh_app x)) (wrec_destination r @ ''/'' @ wrec_denom r) (wrec_amount r) h1;
           h3 = debit_in_place (st_module (sh_app x)) (wrec_denom r) (wrec_amount r) h2
       in (\<lparr>sh_heap = h3, sh_app = (sh_app x)\<lparr>st_withdraw_status := ''claimed''\<rparr>,
            sh_tables = (sh_tables x)\<lparr>ms_records := (ms_records (sh_tables x))(i \<mapsto> r)\<rparr>\<rparr>, Some r))"

definition shared_get_app_state :: "shared_store \<Rightarrow> shared_store \<times> stored_state" where
  "shared_get_app_state x = (case clone_app_state (sh_app x) (sh_heap x) of (h, s) \<Rightarrow> (x\<lparr>sh_heap := h\<rparr>, s))"

definition shared_get_balances :: "shared_store \<Rightarrow> shared_store \<times> addr option \<times> addr option" where
  "shared_get_balances x =
     (case clone_string_map (st_user (sh_app x)) (sh_heap x) of (h1, p) \<Rightarrow>
      case clone_string_map (st_module (sh_app x)) h1 of (h2, q) \<Rightarrow> (x\<lparr>sh_heap := h2\<rparr>, p, q))"

subsection \<open>Writing in place\<close>

text \<open>A write to a map or to an array of records leaves everything of another type.\<close>

definition quiet :: "heap \<Rightarrow> heap \<Rightarrow> bool" where
  "quiet h h' \<longleftrightarrow> length h' = length h \<and> follow as_deposit h' = follow as_deposit h \<and> follow as_request h' = follow as_request h
     \<and> follow as_settlement h' = follow as_settlement h \<and> follow as_deposits h' = follow as_deposits h
     \<and> follow as_withdrawals h' = follow as_withdrawals h \<and> follow as_commitments h' = follow as_commitments h
     \<and> follow as_proof h' = follow as_proof h \<and> follow as_strings h' = follow as_strings h"

lemma quiet_refl [simp]: "quiet h h"
  by (simp add: quiet_def)

lemma quiet_trans: "quiet h h1 \<Longrightarrow> quiet h1 h2 \<Longrightarrow> quiet h h2"
  by (simp add: quiet_def)

lemma quiet_view:
  assumes "quiet h h'"
  shows "settlement_at h' = settlement_at h" "settlement_reach h' = settlement_reach h"
    "proof_at h' = proof_at h" "proof_reach h' = proof_reach h" "state_reach h' = state_reach h"
  using assms
  by (auto simp: quiet_def fun_eq_iff settlement_at_def settlement_of_def settlement_reach_def proof_at_def proof_of_def
      proof_reach_def slice_at_def state_reach_def cong: option.map_cong)

lemma follow_write: "a < length h \<Longrightarrow> f c = f (h ! a) \<Longrightarrow> follow f (h[a := c]) = follow f h"
  by (auto simp: fun_eq_iff follow_def nth_list_update split: option.split)

lemma follow_written: "a < length h \<Longrightarrow> follow f (h[a := c]) q = (if q = Some a then f c else follow f h q)"
  by (auto simp: follow_def nth_list_update split: option.split)

lemma as_map_Some: "as_map c = Some m \<longleftrightarrow> c = BalanceMap m"
  by (cases c) auto

lemma as_records_Some: "as_records c = Some rs \<longleftrightarrow> c = RecordArray rs"
  by (cases c) auto

lemma put_balance_ok:
  assumes "follow as_map h p \<noteq> None" and h': "h' = put_balance change p key h"
  shows "quiet h h'" "slice_at as_records h' = slice_at as_records h" "a \<notin> set_option p \<Longrightarrow> h' ! a = h ! a"
    "map_at h' = (map_at h)(p := (map_at h p)(key \<mapsto> format_int64 (change (balance_at (map_at h p) key))))"
    "follow as_map h' q \<noteq> None \<longleftrightarrow> follow as_map h q \<noteq> None"
proof -
  obtain b m where p: "p = Some b" "b < length h" "h ! b = BalanceMap m"
    using assms(1) by (auto simp: follow_def as_map_Some split: option.splits if_splits)
  then have m: "follow as_map h p = Some m" by (simp add: follow_def)
  with p(1) have w: "h' = h[b := BalanceMap (DAList.update key (format_int64 (change (balance_at (DAList.lookup m) key))) m)]"
    by (simp add: h' put_balance_def)
  show "quiet h h'" "slice_at as_records h' = slice_at as_records h"
    using p(2,3) by (simp_all add: w quiet_def follow_write slice_at_def fun_eq_iff)
  show "h' ! a = h ! a" if "a \<notin> set_option p" using that by (simp add: w p(1))
  show "follow as_map h' q \<noteq> None \<longleftrightarrow> follow as_map h q \<noteq> None" using p m by (simp add: w follow_written)
  show "map_at h' = (map_at h)(p := (map_at h p)(key \<mapsto> format_int64 (change (balance_at (map_at h p) key))))"
    using p m by (auto simp: w fun_eq_iff map_at_def follow_written DAList.lookup_update split: option.split)
qed

lemma replace_ok:
  assumes h': "h' = replace_in_place i r p h"
  shows "quiet h h'" "map_at h' = map_at h" "a \<notin> set_option p \<Longrightarrow> h' ! a = h ! a"
    "follow as_map h' = follow as_map h"
    "slice_at as_records h' p = replace_first (\<lambda>x. wrec_id x = i) r (slice_at as_records h p)"
proof -
  consider "follow as_records h p = None" "h' = h"
    | b rs where "p = Some b" "b < length h" "h ! b = RecordArray rs" "follow as_records h p = Some rs"
        "h' = h[b := RecordArray (replace_first (\<lambda>x. wrec_id x = i) r rs)]"
    by (cases "follow as_records h p")
       (auto simp: h' replace_in_place_def follow_def as_records_Some split: option.splits if_splits)
  note cs = this
  show "quiet h h'" by (cases rule: cs) (simp_all add: quiet_def follow_write)
  show "map_at h' = map_at h" by (cases rule: cs) (simp_all add: fun_eq_iff map_at_def follow_write)
  show "follow as_map h' = follow as_map h" by (cases rule: cs) (simp_all add: follow_write)
  show "h' ! a = h ! a" if "a \<notin> set_option p" by (cases rule: cs) (use that in auto)
  show "slice_at as_records h' p = replace_first (\<lambda>x. wrec_id x = i) r (slice_at as_records h p)"
    by (cases rule: cs) (simp_all add: slice_at_def follow_written)
qed

subsection \<open>One step of the store\<close>

text \<open>
  The two maps are there and are two, and nothing dangles. A step of the store writes to its own cells
  and to new ones only.
\<close>

definition wf_shared :: "heap \<Rightarrow> stored_state \<Rightarrow> bool" where
  "wf_shared h s \<longleftrightarrow> state_reach h s \<subseteq> {..<length h} \<and> follow as_map h (st_user s) \<noteq> None
     \<and> follow as_map h (st_module s) \<noteq> None \<and> st_user s \<noteq> st_module s"

definition own_step :: "heap \<Rightarrow> stored_state \<Rightarrow> heap \<Rightarrow> stored_state \<Rightarrow> bool" where
  "own_step h s h' s' \<longleftrightarrow> wf_shared h' s' \<and> length h \<le> length h'
     \<and> (\<forall>a < length h. a \<notin> state_reach h s \<longrightarrow> h' ! a = h ! a)
     \<and> state_reach h' s' \<subseteq> state_reach h s \<union> {length h..<length h'}"

lemma own_step_trans: "own_step h s h1 s1 \<Longrightarrow> own_step h1 s1 h2 s2 \<Longrightarrow> own_step h s h2 s2"
  unfolding own_step_def by (auto simp: subset_iff) (metis atLeastLessThan_iff leD order_less_le_trans)+

lemma wf_grows:
  assumes "wf_shared h s" and "prefix h h'"
  shows "wf_shared h' s" and "app_at h' s = app_at h s" and "state_reach h' s = state_reach h s"
proof -
  have a: "agree (state_reach h s) h h'" using assms by (auto simp: wf_shared_def intro: agree_prefix)
  note e = state_agree [OF a]
  from a have "agree (set_option (st_user s)) h h'" "agree (set_option (st_module s)) h h'" by (simp_all add: state_reach_def)
  then have "follow as_map h' (st_user s) = follow as_map h (st_user s)"
    "follow as_map h' (st_module s) = follow as_map h (st_module s)" by (simp_all add: follow_agree)
  with assms(1) e(2) prefix_length_le [OF assms(2)] show "wf_shared h' s" by (fastforce simp: wf_shared_def)
  show "app_at h' s = app_at h s" "state_reach h' s = state_reach h s" by (rule e)+
qed

lemma alloc_step:
  assumes "wf_shared h s" and "prefix h h'" and "st_user s' = st_user s" "st_module s' = st_module s"
    and "state_reach h' s' \<subseteq> state_reach h' s \<union> {length h..<length h'}"
  shows "own_step h s h' s'"
proof -
  note g = wf_grows [OF assms(1,2)]
  have "wf_shared h' s'" using g(1) assms(3-5) by (fastforce simp: wf_shared_def)
  moreover have "\<forall>a < length h. h' ! a = h ! a" using assms(2) by (auto simp: prefix_def nth_append)
  ultimately show ?thesis using assms(5) prefix_length_le [OF assms(2)] unfolding own_step_def g(3) by blast
qed

lemma put_step:
  assumes "wf_shared h s" and "p = st_user s \<or> p = st_module s"
  shows "own_step h s (put_balance change p key h) s"
proof -
  have "follow as_map h p \<noteq> None" using assms by (auto simp: wf_shared_def)
  note w = put_balance_ok [OF this refl, where change = change and key = key]
  have "set_option p \<subseteq> state_reach h s" using assms(2) by (auto simp: state_reach_def)
  then show ?thesis
    using assms(1) w(1,3,5) quiet_view(5) [OF w(1)] by (auto simp: own_step_def wf_shared_def quiet_def)
qed

lemma put_view:
  assumes "wf_shared h s"
  shows "app_at (put_balance change (st_user s) key h) s = (app_at h s)\<lparr>as_user_balances :=
      (as_user_balances (app_at h s))(key \<mapsto> format_int64 (change (balance_at (as_user_balances (app_at h s)) key)))\<rparr>"
    and "app_at (put_balance change (st_module s) key h) s = (app_at h s)\<lparr>as_module_balance :=
      (as_module_balance (app_at h s))(key \<mapsto> format_int64 (change (balance_at (as_module_balance (app_at h s)) key)))\<rparr>"
proof -
  have m: "follow as_map h (st_user s) \<noteq> None" "follow as_map h (st_module s) \<noteq> None" "st_user s \<noteq> st_module s"
    using assms by (simp_all add: wf_shared_def)
  note u = put_balance_ok [OF m(1) refl, where change = change and key = key]
    and v = put_balance_ok [OF m(2) refl, where change = change and key = key]
  show "app_at (put_balance change (st_user s) key h) s = (app_at h s)\<lparr>as_user_balances :=
      (as_user_balances (app_at h s))(key \<mapsto> format_int64 (change (balance_at (as_user_balances (app_at h s)) key)))\<rparr>"
    using m(3) u(1) quiet_view [OF u(1)] by (simp add: app_at_def u(2,4) quiet_def)
  show "app_at (put_balance change (st_module s) key h) s = (app_at h s)\<lparr>as_module_balance :=
      (as_module_balance (app_at h s))(key \<mapsto> format_int64 (change (balance_at (as_module_balance (app_at h s)) key)))\<rparr>"
    using m(3) v(1) quiet_view [OF v(1)] by (simp add: app_at_def v(2,4) quiet_def)
qed

lemmas in_place_defs = credit_in_place_def debit_in_place_def credit_balance_def debit_balance_def

lemma replace_step:
  assumes "wf_shared h s"
  shows "own_step h s (replace_in_place i r (st_records s) h) s"
    and "app_at (replace_in_place i r (st_records s) h) s = (app_at h s)\<lparr>as_latest_records :=
      replace_first (\<lambda>x. wrec_id x = i) r (as_latest_records (app_at h s))\<rparr>"
proof -
  note w = replace_ok [OF refl, where i = i and r = r and p = "st_records s" and h = h]
  have "set_option (st_records s) \<subseteq> state_reach h s" by (auto simp: state_reach_def)
  then show "own_step h s (replace_in_place i r (st_records s) h) s"
    using assms w(1,3) quiet_view(5) [OF w(1)] by (auto simp: own_step_def wf_shared_def quiet_def w(4))
  show "app_at (replace_in_place i r (st_records s) h) s = (app_at h s)\<lparr>as_latest_records :=
      replace_first (\<lambda>x. wrec_id x = i) r (as_latest_records (app_at h s))\<rparr>"
    using w(1) quiet_view [OF w(1)] by (simp add: app_at_def w(2,5) quiet_def)
qed

subsection \<open>The methods do what those of the values do\<close>

abbreviation shared_step :: "shared_store \<Rightarrow> shared_store \<Rightarrow> bool" where
  "shared_step x x' \<equiv> own_step (sh_heap x) (sh_app x) (sh_heap x') (sh_app x')"

lemma store_of_app: "ms_app (store_of x) = app_at (sh_heap x) (sh_app x)"
  by (simp add: store_of_def)

lemma save_request_ok:
  assumes "wf_shared (sh_heap x) (sh_app x)"
  shows "shared_step x (shared_save_request r x)"
    and "store_of (shared_save_request r x) = ms_save_withdraw_request r (store_of x)"
proof -
  let ?h = "sh_heap x" and ?s = "sh_app x"
  let ?h1 = "?h @ [RequestCell r]"
  have p: "prefix ?h ?h1" by simp
  show "shared_step x (shared_save_request r x)"
    by (simp add: shared_save_request_def clone_withdraw_request_ptr_def alloc_def)
       (rule alloc_step [OF assms p], auto simp: state_reach_def)
  have "app_at ?h1 ?s = app_at ?h ?s" by (rule wf_grows(2) [OF assms p])
  then show "store_of (shared_save_request r x) = ms_save_withdraw_request r (store_of x)"
    by (simp add: shared_save_request_def clone_withdraw_request_ptr_def alloc_def store_of_def
        ms_save_withdraw_request_def app_at_def)
qed

lemma save_deposit_ok:
  assumes "wf_shared (sh_heap x) (sh_app x)"
  shows "shared_step x (shared_save_deposit r x)"
    and "store_of (shared_save_deposit r x) = ms_save_deposit r (store_of x)"
proof -
  let ?h = "sh_heap x" and ?s = "sh_app x"
  let ?h1 = "?h @ [DepositCell r]" and ?s1 = "?s\<lparr>st_deposit := Some (length ?h), st_deposit_status := ''indexed''\<rparr>"
  let ?h2 = "debit_in_place (st_user ?s) (dep_owner r @ ''/'' @ dep_denom r) (dep_amount r) ?h1"
  let ?h3 = "credit_in_place (st_module ?s) (dep_denom r) (dep_amount r) ?h2"
  have p: "prefix ?h ?h1" by simp
  have s1: "own_step ?h ?s ?h1 ?s1" by (rule alloc_step [OF assms p]) (auto simp: state_reach_def)
  then have w1: "wf_shared ?h1 ?s1" by (simp add: own_step_def)
  have s2: "own_step ?h1 ?s1 ?h2 ?s1" using put_step [OF w1] by (simp add: in_place_defs)
  then have w2: "wf_shared ?h2 ?s1" by (simp add: own_step_def)
  have s3: "own_step ?h2 ?s1 ?h3 ?s1" using put_step [OF w2] by (simp add: in_place_defs)
  have x': "shared_save_deposit r x = \<lparr>sh_heap = ?h3, sh_app = ?s1, sh_tables = ms_save_deposit r (sh_tables x)\<rparr>"
    by (simp add: shared_save_deposit_def clone_deposit_record_ptr_def alloc_def Let_def)
  show "shared_step x (shared_save_deposit r x)"
    using own_step_trans [OF own_step_trans [OF s1 s2] s3] by (simp add: x')
  have "app_at ?h1 ?s1 = (app_at ?h1 ?s)\<lparr>as_latest_deposit := Some r, as_deposit_status := ''indexed''\<rparr>"
    by (simp add: app_at_def)
  then have "app_at ?h3 ?s1 = ms_app (ms_save_deposit r (store_of x))"
    using put_view(1) [OF w1] put_view(2) [OF w2] wf_grows(2) [OF assms p]
    by (simp add: in_place_defs ms_save_deposit_def store_of_app)
  then show "store_of (shared_save_deposit r x) = ms_save_deposit r (store_of x)"
    by (simp add: x' store_of_def ms_save_deposit_def)
qed

lemma fresh_ok: "A \<subseteq> {length h..<length h'} \<Longrightarrow> A \<subseteq> {..<length h'}"
  by auto

text \<open>The two clones of a saved batch, as \<^verbatim>\<open>SaveBatchBuild\<close> and \<^verbatim>\<open>SaveBatchSubmitted\<close> make them.\<close>

lemma clone_batch_ok:
  assumes "settlement_slices u \<subseteq> {..<length h}"
    and "clone_settlement_update_ptr u h = (h1, p)" and "clone_batch_commitments_ptr c h1 = (h2, q)" and "prefix h2 h3"
  shows "prefix h h2" and "settlement_at h3 p = Some (settlement_of h u)" and "follow as_commitments h3 q = Some c"
    and "settlement_reach h3 p \<subseteq> {length h..<length h2}" and "set_option q \<subseteq> {length h..<length h2}"
proof -
  note c1 = clone_settlement_ok [OF assms(2,1)]
  have h2: "h2 = h1 @ [CommitmentsCell c]" and q: "q = Some (length h1)"
    using assms(3) by (simp_all add: clone_batch_commitments_ptr_def alloc_eq)
  then have "prefix h1 h3" using assms(4) by (auto simp: prefix_def)
  from settlements.later [OF fresh_ok [OF c1 [THEN conjunct2, THEN conjunct2]] this] c1
  show "settlement_at h3 p = Some (settlement_of h u)" "settlement_reach h3 p \<subseteq> {length h..<length h2}" by (auto simp: h2)
  show "follow as_commitments h3 q = Some c" using assms(4) by (auto simp: h2 q follow_def prefix_def nth_append)
  show "prefix h h2" "set_option q \<subseteq> {length h..<length h2}" using c1 by (auto simp: h2 q prefix_def)
qed

lemma save_batch_build_ok:
  assumes "wf_shared (sh_heap x) (sh_app x)" and "settlement_slices u \<subseteq> {..<length (sh_heap x)}"
  shows "shared_step x (shared_save_batch_build u c x)"
    and "store_of (shared_save_batch_build u c x) = ms_save_batch_build (settlement_of (sh_heap x) u) c (store_of x)"
proof -
  obtain h1 p h2 q where c: "clone_settlement_update_ptr u (sh_heap x) = (h1, p)" "clone_batch_commitments_ptr c h1 = (h2, q)"
    by fastforce
  note b = clone_batch_ok [OF assms(2) c prefix_order.refl]
  have x': "shared_save_batch_build u c x = x\<lparr>sh_heap := h2, sh_app := (sh_app x)\<lparr>st_settlement := p, st_commitments := q,
      st_batch_status := ''built'', st_proof_status := ''idle'', st_withdraw_status := ''batchBuilt''\<rparr>\<rparr>"
    by (simp add: shared_save_batch_build_def c)
  show "shared_step x (shared_save_batch_build u c x)"
    using b(4,5) by (simp add: x') (rule alloc_step [OF assms(1) b(1)], auto simp: state_reach_def)
  show "store_of (shared_save_batch_build u c x) = ms_save_batch_build (settlement_of (sh_heap x) u) c (store_of x)"
    using wf_grows(2) [OF assms(1) b(1)] b(2,3) by (simp add: x' store_of_def ms_save_batch_build_def app_at_def)
qed

lemma save_proof_bundle_ok:
  assumes "wf_shared (sh_heap x) (sh_app x)"
  shows "shared_step x (shared_save_proof_bundle b x)"
    and "store_of (shared_save_proof_bundle b x) = ms_save_proof_bundle (proof_of (sh_heap x) b) (store_of x)"
proof -
  obtain h1 p where c: "clone_proof_bundle_ptr b (sh_heap x) = (h1, p)" by fastforce
  then have x': "shared_save_proof_bundle b x = x\<lparr>sh_heap := h1, sh_app := (sh_app x)\<lparr>st_proof := p, st_proof_status := ''ready''\<rparr>\<rparr>"
    by (simp add: shared_save_proof_bundle_def)
  from clone_proof_ok [OF c] have k: "prefix (sh_heap x) h1" "proof_at h1 p = Some (proof_of (sh_heap x) b)"
    "proof_reach h1 p \<subseteq> {length (sh_heap x)..<length h1}" by simp_all
  show "shared_step x (shared_save_proof_bundle b x)"
    using k(3) by (simp add: x') (rule alloc_step [OF assms k(1)], auto simp: state_reach_def)
  show "store_of (shared_save_proof_bundle b x) = ms_save_proof_bundle (proof_of (sh_heap x) b) (store_of x)"
    using wf_grows(2) [OF assms k(1)] k(2) by (simp add: x' store_of_def ms_save_proof_bundle_def app_at_def)
qed

lemma save_records_tables:
  "foldl (\<lambda>t r. ms_save_withdraw_record r t) (t\<lparr>ms_app := v\<rparr>) rs
    = (foldl (\<lambda>t r. ms_save_withdraw_record r t) t rs)\<lparr>ms_app := v\<rparr>"
proof -
  have "ms_save_withdraw_record r (t\<lparr>ms_app := v\<rparr>) = (ms_save_withdraw_record r t)\<lparr>ms_app := v\<rparr>" for t r
    by (simp add: ms_save_withdraw_record_def)
  then show ?thesis by (induction rs arbitrary: t) simp_all
qed

lemma save_batch_submitted_ok:
  assumes "wf_shared (sh_heap x) (sh_app x)" and "settlement_slices u \<subseteq> {..<length (sh_heap x)}"
    and "set_option recs \<subseteq> {..<length (sh_heap x)}"
  shows "shared_step x (shared_save_batch_submitted u c recs x)"
    and "store_of (shared_save_batch_submitted u c recs x) = ms_save_batch_submitted (settlement_of (sh_heap x) u) c
      (slice_at as_records (sh_heap x) recs) (store_of x)"
proof -
  obtain h1 p h2 q h3 rs where c: "clone_settlement_update_ptr u (sh_heap x) = (h1, p)" "clone_batch_commitments_ptr c h1 = (h2, q)"
    and r: "clone_withdraw_records recs h2 = (h3, rs)" by (metis surj_pair)
  note b0 = clone_batch_ok [OF assms(2) c prefix_order.refl]
  note k = records.clone_between [OF assms(3) b0(1) r prefix_order.refl]
  note b = clone_batch_ok [OF assms(2) c k [THEN conjunct1]]
  have p: "prefix (sh_heap x) h3" using b0(1) k prefix_order.trans by blast
  let ?s = "(sh_app x)\<lparr>st_root := ss_new_root u, st_settlement := p, st_commitments := q,
         st_records := rs, st_deposit_status := ''processed'', st_proof_status := ''accepted'',
         st_withdraw_status := ''readyToClaim'', st_batch_status := ''accepted''\<rparr>"
  have x': "shared_save_batch_submitted u c recs x = \<lparr>sh_heap = h3, sh_app = ?s,
      sh_tables = foldl (\<lambda>t r. ms_save_withdraw_record r t) (sh_tables x) (slice_at as_records (sh_heap x) recs)\<rparr>"
    by (simp add: shared_save_batch_submitted_def c r Let_def)
  have "length (sh_heap x) \<le> length h2" "length h2 \<le> length h3" using b0(1) k by (auto dest: prefix_length_le)
  with b(4,5) k have "state_reach h3 ?s \<subseteq> state_reach h3 (sh_app x) \<union> {length (sh_heap x)..<length h3}"
    unfolding state_reach_def by fastforce
  then show "shared_step x (shared_save_batch_submitted u c recs x)"
    by (simp add: x') (rule alloc_step [OF assms(1) p], simp_all)
  show "store_of (shared_save_batch_submitted u c recs x) = ms_save_batch_submitted (settlement_of (sh_heap x) u) c
      (slice_at as_records (sh_heap x) recs) (store_of x)"
    using wf_grows(2) [OF assms(1) p] b(2,3) k
    by (simp add: x' store_of_def ms_save_batch_submitted_def save_records_tables Let_def app_at_def settlement_of_def)
qed

lemma claim_record_ok:
  assumes "wf_shared (sh_heap x) (sh_app x)"
  shows "shared_step x (fst (shared_claim_record i x))"
    and "store_of (fst (shared_claim_record i x)) = fst (ms_claim_withdraw_record i (store_of x))"
    and "snd (shared_claim_record i x) = snd (ms_claim_withdraw_record i (store_of x))"
proof -
  let ?s = "sh_app x" and ?s' = "(sh_app x)\<lparr>st_withdraw_status := ''claimed''\<rparr>"
  have all: "shared_step x (fst (shared_claim_record i x))
    \<and> store_of (fst (shared_claim_record i x)) = fst (ms_claim_withdraw_record i (store_of x))
    \<and> snd (shared_claim_record i x) = snd (ms_claim_withdraw_record i (store_of x))"
  proof (cases "ms_records (sh_tables x) i")
    case None
    with assms show ?thesis by (auto simp: shared_claim_record_def ms_claim_withdraw_record_def store_of_def own_step_def wf_shared_def)
  next
    case (Some r0)
    let ?r = "r0\<lparr>wrec_claimed := True\<rparr>"
    let ?h1 = "replace_in_place i ?r (st_records ?s) (sh_heap x)"
    let ?h2 = "credit_in_place (st_user ?s) (wrec_destination ?r @ ''/'' @ wrec_denom ?r) (wrec_amount ?r) ?h1"
    let ?h3 = "debit_in_place (st_module ?s) (wrec_denom ?r) (wrec_amount ?r) ?h2"
    have s1: "own_step (sh_heap x) ?s ?h1 ?s" by (rule replace_step(1) [OF assms])
    then have w1: "wf_shared ?h1 ?s" by (simp add: own_step_def)
    have s2: "own_step ?h1 ?s ?h2 ?s" using put_step [OF w1] by (simp add: in_place_defs)
    then have w2: "wf_shared ?h2 ?s" by (simp add: own_step_def)
    have s3: "own_step ?h2 ?s ?h3 ?s" using put_step [OF w2] by (simp add: in_place_defs)
    have status: "app_at h ?s' = (app_at h ?s)\<lparr>as_withdraw_status := ''claimed''\<rparr>"
      "own_step h0 s0 h ?s' \<longleftrightarrow> own_step h0 s0 h ?s" for h h0 s0
      by (simp_all add: app_at_def own_step_def wf_shared_def state_reach_def)
    have x': "shared_claim_record i x = (\<lparr>sh_heap = ?h3, sh_app = ?s',
        sh_tables = (sh_tables x)\<lparr>ms_records := (ms_records (sh_tables x))(i \<mapsto> ?r)\<rparr>\<rparr>, Some ?r)"
      by (simp add: shared_claim_record_def Some Let_def)
    have "app_at ?h3 ?s = (app_at (sh_heap x) ?s)\<lparr>
        as_latest_records := replace_first (\<lambda>x. wrec_id x = i) ?r (as_latest_records (app_at (sh_heap x) ?s)),
        as_user_balances := credit_balance (as_user_balances (app_at (sh_heap x) ?s))
          (wrec_destination ?r @ ''/'' @ wrec_denom ?r) (wrec_amount ?r),
        as_module_balance := debit_balance (as_module_balance (app_at (sh_heap x) ?s)) (wrec_denom ?r) (wrec_amount ?r)\<rparr>"
      using replace_step(2) [OF assms, of i ?r] put_view(1) [OF w1] put_view(2) [OF w2] by (simp add: in_place_defs)
    then show ?thesis
      using own_step_trans [OF own_step_trans [OF s1 s2] s3]
      by (simp add: x' status store_of_def ms_claim_withdraw_record_def Some Let_def)
  qed
  then show "shared_step x (fst (shared_claim_record i x))"
    "store_of (fst (shared_claim_record i x)) = fst (ms_claim_withdraw_record i (store_of x))"
    "snd (shared_claim_record i x) = snd (ms_claim_withdraw_record i (store_of x))" by simp_all
qed

lemma get_app_state_ok:
  assumes "wf_shared (sh_heap x) (sh_app x)" and "shared_get_app_state x = (x', s')"
  shows "shared_step x x'" and "store_of x' = store_of x" and "app_at (sh_heap x') s' = get_app_state (store_of x)"
    and "state_reach (sh_heap x') (sh_app x') = state_reach (sh_heap x) (sh_app x)"
    and "state_reach (sh_heap x') s' \<subseteq> {length (sh_heap x)..<length (sh_heap x')}"
proof -
  have reach: "state_reach (sh_heap x) (sh_app x) \<subseteq> {..<length (sh_heap x)}" using assms(1) by (simp add: wf_shared_def)
  obtain h where c: "clone_app_state (sh_app x) (sh_heap x) = (h, s')" and x': "x' = x\<lparr>sh_heap := h\<rparr>"
    using assms(2) by (auto simp: shared_get_app_state_def split: prod.splits)
  note k = clone_app_state_ok [OF reach c]
  then have p: "prefix (sh_heap x) h" by simp
  show "shared_step x x'" by (simp add: x') (rule alloc_step [OF assms(1) p], simp_all)
  show "store_of x' = store_of x" "state_reach (sh_heap x') (sh_app x') = state_reach (sh_heap x) (sh_app x)"
    using wf_grows [OF assms(1) p] by (simp_all add: x' store_of_def)
  show "app_at (sh_heap x') s' = get_app_state (store_of x)"
    "state_reach (sh_heap x') s' \<subseteq> {length (sh_heap x)..<length (sh_heap x')}"
    using k by (simp_all add: x' get_app_state_def store_of_app)
qed

lemma get_balances_ok:
  assumes "wf_shared (sh_heap x) (sh_app x)" and "shared_get_balances x = (x', p, q)"
  shows "shared_step x x'" and "store_of x' = store_of x"
    and "state_reach (sh_heap x') (sh_app x') = state_reach (sh_heap x) (sh_app x)"
    and "\<lparr>bs_user = map_at (sh_heap x') p, bs_module = map_at (sh_heap x') q\<rparr> = ms_get_balance_snapshot (store_of x)"
    and "set_option p \<union> set_option q \<subseteq> {length (sh_heap x)..<length (sh_heap x')}"
proof -
  have reach: "set_option (st_user (sh_app x)) \<subseteq> {..<length (sh_heap x)}" "set_option (st_module (sh_app x)) \<subseteq> {..<length (sh_heap x)}"
    using assms(1) by (auto simp: wf_shared_def state_reach_def)
  obtain h1 h2 where c: "clone_string_map (st_user (sh_app x)) (sh_heap x) = (h1, p)"
    "clone_string_map (st_module (sh_app x)) h1 = (h2, q)" and x': "x' = x\<lparr>sh_heap := h2\<rparr>"
    using assms(2) by (auto simp: shared_get_balances_def split: prod.splits)
  have p1: "prefix (sh_heap x) h1" using balances.clone_between [OF reach(1) prefix_order.refl c(1) prefix_order.refl] by simp
  note k2 = balances.clone_between [OF reach(2) p1 c(2) prefix_order.refl]
  note k1 = balances.clone_between [OF reach(1) prefix_order.refl c(1) k2 [THEN conjunct1]]
  have p2: "prefix (sh_heap x) h2" using p1 k2 prefix_order.trans by blast
  show "shared_step x x'" by (simp add: x') (rule alloc_step [OF assms(1) p2], simp_all)
  show "store_of x' = store_of x" "state_reach (sh_heap x') (sh_app x') = state_reach (sh_heap x) (sh_app x)"
    using wf_grows [OF assms(1) p2] by (simp_all add: x' store_of_def)
  show "\<lparr>bs_user = map_at (sh_heap x') p, bs_module = map_at (sh_heap x') q\<rparr> = ms_get_balance_snapshot (store_of x)"
    using k1 k2 by (simp add: x' ms_get_balance_snapshot_def store_of_app) (simp add: app_at_def)
  have "length (sh_heap x) \<le> length h1" "length h1 \<le> length h2" using p1 k2 by (auto dest: prefix_length_le)
  with k1 k2 show "set_option p \<union> set_option q \<subseteq> {length (sh_heap x)..<length (sh_heap x')}" unfolding x' by fastforce
qed

subsection \<open>The store among its callers\<close>

text \<open>
  What can happen: a method is called, with pointers the caller holds; a caller allocates; a caller writes to
  a cell it holds. The third component of a world are the addresses that callers hold: what they
  allocated and everything the returned values reach.
\<close>

datatype event =
    SaveDeposit deposit_record
  | SaveRequest withdraw_request
  | SaveBatchBuild stored_settlement batch_commitments
  | SaveProofBundle stored_proof
  | SaveBatchSubmitted stored_settlement batch_commitments "addr option"
  | SaveWithdrawRecord withdraw_record
  | NextSequence
  | ClaimRecord string
  | GetAppState
  | GetBalances
  | CallerAlloc cell
  | CallerWrite addr cell

type_synonym world = "shared_store \<times> addr set"

fun held :: "addr set \<Rightarrow> event \<Rightarrow> bool" where
  "held K (SaveBatchBuild u c) \<longleftrightarrow> settlement_slices u \<subseteq> K"
| "held K (SaveProofBundle b) \<longleftrightarrow> set_option (sp_public_inputs b) \<subseteq> K"
| "held K (SaveBatchSubmitted u c recs) \<longleftrightarrow> settlement_slices u \<subseteq> K \<and> set_option recs \<subseteq> K"
| "held K (CallerWrite a c) \<longleftrightarrow> a \<in> K"
| "held K _ \<longleftrightarrow> True"

fun happen :: "event \<Rightarrow> world \<Rightarrow> world" where
  "happen (SaveDeposit r) (x, K) = (shared_save_deposit r x, K)"
| "happen (SaveRequest r) (x, K) = (shared_save_request r x, K)"
| "happen (SaveBatchBuild u c) (x, K) = (shared_save_batch_build u c x, K)"
| "happen (SaveProofBundle b) (x, K) = (shared_save_proof_bundle b x, K)"
| "happen (SaveBatchSubmitted u c recs) (x, K) = (shared_save_batch_submitted u c recs x, K)"
| "happen (SaveWithdrawRecord r) (x, K) = (x\<lparr>sh_tables := ms_save_withdraw_record r (sh_tables x)\<rparr>, K)"
| "happen NextSequence (x, K) = (x\<lparr>sh_tables := fst (ms_next_withdraw_sequence (sh_tables x))\<rparr>, K)"
| "happen (ClaimRecord i) (x, K) = (fst (shared_claim_record i x), K)"
| "happen GetAppState (x, K) = (case shared_get_app_state x of (x', s) \<Rightarrow> (x', K \<union> state_reach (sh_heap x') s))"
| "happen GetBalances (x, K) = (case shared_get_balances x of (x', p, q) \<Rightarrow> (x', K \<union> set_option p \<union> set_option q))"
| "happen (CallerAlloc c) (x, K) = (x\<lparr>sh_heap := sh_heap x @ [c]\<rparr>, insert (length (sh_heap x)) K)"
| "happen (CallerWrite a c) (x, K) = (x\<lparr>sh_heap := (sh_heap x)[a := c]\<rparr>, K)"

text \<open>The same event for the store of values; a pointer argument is read when the method is called.\<close>

fun value_step :: "heap \<Rightarrow> event \<Rightarrow> memory_store \<Rightarrow> memory_store" where
  "value_step h (SaveDeposit r) s = ms_save_deposit r s"
| "value_step h (SaveRequest r) s = ms_save_withdraw_request r s"
| "value_step h (SaveBatchBuild u c) s = ms_save_batch_build (settlement_of h u) c s"
| "value_step h (SaveProofBundle b) s = ms_save_proof_bundle (proof_of h b) s"
| "value_step h (SaveBatchSubmitted u c recs) s = ms_save_batch_submitted (settlement_of h u) c (slice_at as_records h recs) s"
| "value_step h (SaveWithdrawRecord r) s = ms_save_withdraw_record r s"
| "value_step h NextSequence s = fst (ms_next_withdraw_sequence s)"
| "value_step h (ClaimRecord i) s = fst (ms_claim_withdraw_record i s)"
| "value_step h _ s = s"

fun values_after :: "event list \<Rightarrow> world \<Rightarrow> memory_store \<Rightarrow> memory_store" where
  "values_after [] w s = s"
| "values_after (e # es) w s = (if held (snd w) e
     then values_after es (happen e w) (value_step (sh_heap (fst w)) e s) else values_after es w s)"

fun world_after :: "event list \<Rightarrow> world \<Rightarrow> world" where
  "world_after [] w = w"
| "world_after (e # es) w = world_after es (if held (snd w) e then happen e w else w)"

text \<open>The callers hold nothing of the store.\<close>

definition apart :: "world \<Rightarrow> bool" where
  "apart w \<longleftrightarrow> (case w of (x, K) \<Rightarrow> wf_shared (sh_heap x) (sh_app x) \<and> K \<subseteq> {..<length (sh_heap x)}
     \<and> K \<inter> state_reach (sh_heap x) (sh_app x) = {})"

lemma own_step_apart:
  assumes "apart (x, K)" and "shared_step x x'" and "N \<subseteq> {length (sh_heap x)..<length (sh_heap x')}"
    and "N \<inter> state_reach (sh_heap x') (sh_app x') = {}"
  shows "apart (x', K \<union> N)" and "agree K (sh_heap x) (sh_heap x')"
proof -
  have K: "a < length (sh_heap x) \<and> a \<notin> state_reach (sh_heap x) (sh_app x)" if "a \<in> K" for a
    using assms(1) that by (auto simp: apart_def)
  have step: "wf_shared (sh_heap x') (sh_app x')" "length (sh_heap x) \<le> length (sh_heap x')"
    "\<And>a. a < length (sh_heap x) \<Longrightarrow> a \<notin> state_reach (sh_heap x) (sh_app x) \<Longrightarrow> sh_heap x' ! a = sh_heap x ! a"
    "\<And>a. a \<in> state_reach (sh_heap x') (sh_app x') \<Longrightarrow> a \<in> state_reach (sh_heap x) (sh_app x) \<or> length (sh_heap x) \<le> a"
    using assms(2) by (auto simp: own_step_def)
  have "K \<inter> state_reach (sh_heap x') (sh_app x') = {}" using K step(4) by (meson disjoint_iff leD)
  moreover have below: "K \<subseteq> {..<length (sh_heap x')}" using K step(2) order_less_le_trans by blast
  moreover have "N \<subseteq> {..<length (sh_heap x')}" using assms(3) by auto
  ultimately show "apart (x', K \<union> N)" using step(1) assms(4) by (simp add: apart_def Int_Un_distrib2)
  show "agree K (sh_heap x) (sh_heap x')" using K step(3) below by (auto simp: agree_def)
qed

lemma apart_new: "apart (new_shared_store, {})"
  by (auto simp: apart_def new_shared_store_def wf_shared_def state_reach_def settlement_reach_def proof_reach_def follow_def)

lemma store_of_new: "store_of new_shared_store = new_memory_store"
  by (auto simp: store_of_def new_shared_store_def new_memory_store_def app_at_def map_at_def settlement_at_def proof_at_def
      slice_at_def follow_def fun_eq_iff DAList.lookup_update)

text \<open>A cell outside the store, new or written by a caller, is not seen by it.\<close>

lemma outside_step:
  assumes "apart (x, K)" and "\<And>a. a \<in> state_reach (sh_heap x) (sh_app x) \<Longrightarrow> h ! a = sh_heap x ! a"
    and "length (sh_heap x) \<le> length h"
  shows "store_of (x\<lparr>sh_heap := h\<rparr>) = store_of x" and "wf_shared h (sh_app x)"
    and "state_reach h (sh_app x) = state_reach (sh_heap x) (sh_app x)"
proof -
  have wf: "wf_shared (sh_heap x) (sh_app x)" using assms(1) by (simp add: apart_def)
  then have a: "agree (state_reach (sh_heap x) (sh_app x)) (sh_heap x) h"
    using assms(2,3) by (fastforce simp: agree_def wf_shared_def)
  note e = state_agree [OF a]
  from a have "agree (set_option (st_user (sh_app x))) (sh_heap x) h" "agree (set_option (st_module (sh_app x))) (sh_heap x) h"
    by (simp_all add: state_reach_def)
  then have "follow as_map h (st_user (sh_app x)) = follow as_map (sh_heap x) (st_user (sh_app x))"
    "follow as_map h (st_module (sh_app x)) = follow as_map (sh_heap x) (st_module (sh_app x))" by (simp_all add: follow_agree)
  with wf e(2) assms(3) show "wf_shared h (sh_app x)" by (fastforce simp: wf_shared_def)
  show "store_of (x\<lparr>sh_heap := h\<rparr>) = store_of x" "state_reach h (sh_app x) = state_reach (sh_heap x) (sh_app x)"
    using e by (simp_all add: store_of_def)
qed

lemma call_ok:
  assumes "apart (x, K)" and "held K e" and "happen e (x, K) = (x', K)" and "shared_step x x'"
  shows "apart (happen e (x, K))" and "agree K (sh_heap x) (sh_heap (fst (happen e (x, K))))"
  using own_step_apart [OF assms(1,4), of "{}"] by (simp_all add: assms(3))

lemma same_app_step:
  "wf_shared (sh_heap x) (sh_app x) \<Longrightarrow> sh_heap x' = sh_heap x \<Longrightarrow> sh_app x' = sh_app x \<Longrightarrow> shared_step x x'"
  by (simp add: own_step_def)

theorem event_ok:
  assumes "apart w" and "held (snd w) e"
  shows "apart (happen e w)" and "store_of (fst (happen e w)) = value_step (sh_heap (fst w)) e (store_of (fst w))"
    and "(\<forall>a c. e \<noteq> CallerWrite a c) \<longrightarrow> agree (snd w) (sh_heap (fst w)) (sh_heap (fst (happen e w)))"
proof -
  obtain x K where w: "w = (x, K)" by force
  have wf: "wf_shared (sh_heap x) (sh_app x)" and K: "K \<subseteq> {..<length (sh_heap x)}" "K \<inter> state_reach (sh_heap x) (sh_app x) = {}"
    and ap: "apart (x, K)"
    using assms(1) by (simp_all add: apart_def w)
  have "apart (happen e (x, K)) \<and> store_of (fst (happen e (x, K))) = value_step (sh_heap x) e (store_of x)
    \<and> ((\<forall>a c. e \<noteq> CallerWrite a c) \<longrightarrow> agree K (sh_heap x) (sh_heap (fst (happen e (x, K)))))"
  proof (cases e)
    case (SaveDeposit r)
    note k = save_deposit_ok [OF wf, of r]
    from call_ok [OF ap, of e "shared_save_deposit r x"] k show ?thesis by (simp add: SaveDeposit)
  next
    case (SaveRequest r)
    note k = save_request_ok [OF wf, of r]
    from call_ok [OF ap, of e "shared_save_request r x"] k show ?thesis by (simp add: SaveRequest)
  next
    case (SaveBatchBuild u c)
    with assms(2) K(1) have u: "settlement_slices u \<subseteq> {..<length (sh_heap x)}" "settlement_slices u \<subseteq> K" by (auto simp: w)
    note k = save_batch_build_ok [OF wf u(1), of c]
    from call_ok [OF ap, of e "shared_save_batch_build u c x"] k u(2) show ?thesis by (simp add: SaveBatchBuild)
  next
    case (SaveProofBundle b)
    note k = save_proof_bundle_ok [OF wf, of b]
    from call_ok [OF ap, of e "shared_save_proof_bundle b x"] k assms(2) show ?thesis by (simp add: SaveProofBundle w)
  next
    case (SaveBatchSubmitted u c recs)
    with assms(2) K(1) have u: "settlement_slices u \<subseteq> {..<length (sh_heap x)}" "set_option recs \<subseteq> {..<length (sh_heap x)}"
      "held K e" by (auto simp: w)
    note k = save_batch_submitted_ok [OF wf u(1,2), of c]
    from call_ok [OF ap u(3), of "shared_save_batch_submitted u c recs x"] k show ?thesis by (simp add: SaveBatchSubmitted)
  next
    case (SaveWithdrawRecord r)
    from call_ok [OF ap, of e "x\<lparr>sh_tables := ms_save_withdraw_record r (sh_tables x)\<rparr>"] same_app_step [OF wf] show ?thesis
      by (simp add: SaveWithdrawRecord store_of_def ms_save_withdraw_record_def)
  next
    case NextSequence
    from call_ok [OF ap, of e "x\<lparr>sh_tables := fst (ms_next_withdraw_sequence (sh_tables x))\<rparr>"] same_app_step [OF wf] show ?thesis
      by (simp add: NextSequence store_of_def ms_next_withdraw_sequence_def)
  next
    case (ClaimRecord i)
    note k = claim_record_ok [OF wf, of i]
    from call_ok [OF ap, of e "fst (shared_claim_record i x)"] k show ?thesis by (simp add: ClaimRecord)
  next
    case GetAppState
    obtain x' s where g: "shared_get_app_state x = (x', s)" by fastforce
    note k = get_app_state_ok [OF wf g]
    have "state_reach (sh_heap x') s \<inter> state_reach (sh_heap x') (sh_app x') = {}"
      using k(4,5) wf by (fastforce simp: wf_shared_def)
    from own_step_apart [OF ap k(1,5) this] k(2) show ?thesis by (simp add: GetAppState g)
  next
    case GetBalances
    obtain x' p q where g: "shared_get_balances x = (x', p, q)" by (metis surj_pair)
    note k = get_balances_ok [OF wf g]
    have "(set_option p \<union> set_option q) \<inter> state_reach (sh_heap x') (sh_app x') = {}"
      using k(3,5) wf by (fastforce simp: wf_shared_def)
    from own_step_apart [OF ap k(1,5) this] k(2) show ?thesis by (simp add: GetBalances g Un_assoc)
  next
    case (CallerAlloc c)
    have "(sh_heap x @ [c]) ! a = sh_heap x ! a" if "a \<in> state_reach (sh_heap x) (sh_app x)" for a
      using that wf by (auto simp: wf_shared_def nth_append)
    note o = outside_step [OF ap this]
    have "length (sh_heap x) \<notin> state_reach (sh_heap x) (sh_app x)" using wf by (auto simp: wf_shared_def)
    with o K show ?thesis by (auto simp: CallerAlloc apart_def agree_def nth_append)
  next
    case (CallerWrite a c)
    with assms(2) K(2) have "a \<notin> state_reach (sh_heap x) (sh_app x)" by (auto simp: w)
    then have "(sh_heap x)[a := c] ! b = sh_heap x ! b" if "b \<in> state_reach (sh_heap x) (sh_app x)" for b
      using that by (cases "b = a") simp_all
    note o = outside_step [OF ap this]
    from o K show ?thesis by (simp add: CallerWrite apart_def)
  qed
  then show "apart (happen e w)" "store_of (fst (happen e w)) = value_step (sh_heap (fst w)) e (store_of (fst w))"
    "(\<forall>a c. e \<noteq> CallerWrite a c) \<longrightarrow> agree (snd w) (sh_heap (fst w)) (sh_heap (fst (happen e w)))"
    by (simp_all add: w)
qed

lemma world_ok:
  assumes "apart w"
  shows "apart (world_after es w)" and "store_of (fst (world_after es w)) = values_after es w (store_of (fst w))"
proof -
  have "apart (world_after es w) \<and> store_of (fst (world_after es w)) = values_after es w (store_of (fst w))"
    using assms
  proof (induction es arbitrary: w)
    case (Cons e es)
    then show ?case using event_ok [of w e] by simp
  qed simp
  then show "apart (world_after es w)" "store_of (fst (world_after es w)) = values_after es w (store_of (fst w))" by simp_all
qed

subsection \<open>The property\<close>

text \<open>
  C37: The dashboard state behaves as a value. Whatever methods are called and whatever the callers write into
  the cells they hold (what they allocated, and all that the returned values reach), the store reads as the store
  of values after the same calls. What \<^verbatim>\<open>GetAppState\<close> returns then reads as that state and shares no
  cell with the store.
\<close>

theorem callers_isolated:
  "case world_after events (new_shared_store, {}) of (x, held_addrs) \<Rightarrow>
     store_of x = values_after events (new_shared_store, {}) new_memory_store
     \<and> held_addrs \<inter> state_reach (sh_heap x) (sh_app x) = {}
     \<and> (case shared_get_app_state x of (x', s) \<Rightarrow> store_of x' = store_of x
        \<and> app_at (sh_heap x') s = get_app_state (store_of x)
        \<and> state_reach (sh_heap x') s \<inter> state_reach (sh_heap x') (sh_app x') = {})"
proof -
  obtain x K where w: "world_after events (new_shared_store, {}) = (x, K)" by force
  from world_ok [OF apart_new, of events] have k: "apart (x, K)"
    "store_of x = values_after events (new_shared_store, {}) new_memory_store"
    by (simp_all add: w store_of_new)
  then have wf: "wf_shared (sh_heap x) (sh_app x)" by (simp add: apart_def)
  obtain x' s where g: "shared_get_app_state x = (x', s)" by fastforce
  note r = get_app_state_ok [OF wf g]
  from r(4,5) wf have "state_reach (sh_heap x') s \<inter> state_reach (sh_heap x') (sh_app x') = {}"
    by (fastforce simp: wf_shared_def)
  with k r show ?thesis by (simp add: w g apart_def)
qed

end
