(* ===== verification/Spec2Isabelle.thy ===== *)
theory Spec2Isabelle
  imports App_Properties Boundary_Properties Vector_Properties Manager_Demo Shared_Store
begin

text \<open>
  \<^bold>\<open>The program.\<close> The Go backend under \<^verbatim>\<open>src/internal\<close> keeps an off-chain mirror of the
  balances of a settlement chain. Deposits the chain reports and withdrawals the users ask for are applied to the
  mirror and logged in a database as pending. Operations of the log are gathered into a batch, a prover
  makes a proof of it, a relayer submits it to the chain, and the log is settled; then the users claim
  their withdrawals. The server runs the requests of the users, the poller of deposits and the sequencer of
  settlements.

  \<^bold>\<open>The layers, and the theories that model them.\<close>

  \<^item> Go itself. \<open>Go_Strings\<close>: byte strings, \<^verbatim>\<open>strings\<close>, \<^verbatim>\<open>math/big\<close> and \<^verbatim>\<open>strconv\<close> on decimal numerals, 64-bit
    integers as words. \<open>Go_Hash\<close>: \<^verbatim>\<open>pkg/hash/hash.go\<close> and SHA-256, computed in the logic. \<open>Go_Json\<close> and
    \<open>Json_Bodies\<close>: \<^verbatim>\<open>json.Marshal\<close>. \<open>Go_Json_Decode\<close>: \<^verbatim>\<open>json.Unmarshal\<close> and \<^verbatim>\<open>json.Decoder\<close>, from the bytes to a value and from
    the value to a Go variable; \<open>Json_Roundtrip\<close>: what was marshalled is decoded again. \<open>Go_Text\<close>: \<^verbatim>\<open>strconv.Unquote\<close>,
    base64, URL escaping. \<open>Go_Float\<close>: a decimal literal through \<^verbatim>\<open>float64\<close> to an integer, correctly rounded.
    \<open>Go_Duration\<close>: \<^verbatim>\<open>time.ParseDuration\<close>. \<open>Go_Types\<close>: the structs of \<^verbatim>\<open>pkg/types\<close> as records
    and the errors as values, an error being what \<^verbatim>\<open>errors.Is\<close> sees of it. \<open>Prelude\<close>: shared lemmas on lists,
    maps, sorting and folds.
  \<^item> The mirror, \<^verbatim>\<open>internal/state\<close>. \<open>Account_State\<close>: the table of accounts. \<open>Local_State\<close>: applying deposits and
    withdrawals, the root, nullifiers, the request builder, and the abstract mirror they refine.
    \<open>Offchain_Manager\<close>: the manager with snapshot and rollback. \<open>Mirror_Log\<close>: runs of operations.
  \<^item> Batches, \<^verbatim>\<open>internal/batch\<close>. \<open>Settlement_Builder\<close>, \<open>Batch_Commitments\<close>, \<open>Public_Inputs\<close>, \<open>Witness_Builder\<close>, and
    \<open>Batch_Facade\<close> for the local and the snapshot builder.
  \<^item> The pending log. \<open>Settlement_Repository\<close>: \<^verbatim>\<open>offchain_settlement_repository.go\<close> over its tables, with a
    script of database failures. \<open>Settlement_Service\<close>: \<^verbatim>\<open>offchain_settlement_service.go\<close>. \<open>Settlement_Log\<close>: what a log
    means. \<open>Settlement_Loop\<close> and \<open>Settlement_Recovery\<close>: the loop invariant \<open>loop_inv\<close> and what every
    operation of the service does to it.
  \<^item> The tables of the dashboard and of the users. \<open>Memory_Store\<close>: \<^verbatim>\<open>memory_store.go\<close> as a store of
    values; \<open>Store_Clones\<close> and \<open>Shared_Store\<close>: its dashboard state on a heap, with the clone helpers and the callers
    that keep what they were given. \<open>App_Database\<close>: the Postgres tables of
    the migrations, as lists of rows. \<open>Withdraw_Repository\<close> and \<open>Batch_Repository\<close>: the other repositories of
    \<^verbatim>\<open>internal/repository\<close>.
  \<^item> The outside. \<open>Body_Decoders\<close>: the JSON of the structs that are exchanged. \<open>Prover\<close> and \<open>Remote_Prover\<close>:
    \<^verbatim>\<open>internal/prover\<close>, with the requests and answers of the remote prover. \<open>Relayer\<close>: \<^verbatim>\<open>internal/relayer\<close>, with the Cosmos
    relayer over a process runner. \<open>Cosmos_Deposit\<close>, \<open>Chain_Query\<close>, \<open>Tendermint_Source\<close>: \<^verbatim>\<open>cosmos_client.go\<close> and
    \<^verbatim>\<open>rest_query_client.go\<close> of \<^verbatim>\<open>internal/chain\<close>, and the event source of \<^verbatim>\<open>internal/indexer\<close> with the
    loop of the poller.
  \<^item> The services. \<open>App_System\<close>: what \<^verbatim>\<open>cmd/api/main.go\<close> wires together, as a fixed wiring and the state of an
    application. \<open>Batch_Service\<close>: \<^verbatim>\<open>batch_service.go\<close> and \<^verbatim>\<open>proof_service.go\<close>. \<open>User_Services\<close>:
    \<^verbatim>\<open>withdraw_service.go\<close>, \<^verbatim>\<open>deposit_service.go\<close>, \<^verbatim>\<open>state_service.go\<close>, the indexer and the poller, the local
    chain. \<open>Sequencer\<close>: \<^verbatim>\<open>settlement_sequencer.go\<close>.
  \<^item> The server. \<open>Json_Responses\<close> and \<open>Http_Interface\<close>: the router, the handlers, \<^verbatim>\<open>internal/request\<close> and
    \<^verbatim>\<open>internal/response\<close>, from a request to a reply. \<open>App_Wiring\<close> and \<open>App_Main\<close>: \<^verbatim>\<open>main\<close>, from the environment to the process
    that listens.
  \<^item> What the services guarantee. \<open>Sequencer_Laws\<close>: passes and drains. \<open>Submit_Laws\<close>: the gate, the
    rollback, repeated submits. \<open>Service_Laws\<close>: creating withdrawals and indexing deposits.
    \<open>Backend_Invariant\<close>: the tables under every request, by rule induction over the steps \<open>serve\<close> of the server.
    \<open>Http_Settlement\<close>: a settlement driven over HTTP.
  \<^item> The test vectors. \<open>Vector_Files\<close>: the file system as a list of paths with their nodes, and what the source uses of
    \<^verbatim>\<open>os\<close> and \<^verbatim>\<open>filepath\<close>. \<open>Vector_Types\<close>: the structs of \<^verbatim>\<open>pkg/testvectors\<close> with their JSON in both directions.
    \<open>Vector_Manifest\<close>: \<^verbatim>\<open>manifest.go\<close>. \<open>Vector_Scenario\<close>: \<^verbatim>\<open>alice.go\<close>. \<open>Failure_Vectors\<close>: \<^verbatim>\<open>failure_vectors.go\<close>.
    \<open>Go_Indent\<close>: \<^verbatim>\<open>json.MarshalIndent\<close>.
  \<^item> The generator \<^verbatim>\<open>p3/script-test/gen_state_vectors\<close>. \<open>Vector_Generator\<close>: \<^verbatim>\<open>main.go\<close>, one step for each file it writes.
    \<open>Failure_Generator\<close>: its \<^verbatim>\<open>failure_vectors.go\<close>. \<open>Sha_Eval\<close>, \<open>Vector_Digests\<close> and \<open>Vector_Values\<close>: the digests of the
    scenario and the values of the steps, evaluated in the logic. \<open>Generator_Run\<close> and \<open>Failure_Run\<close>: the run as a whole;
    \<open>Vector_Texts\<close> and \<open>Vector_Roundtrip\<close>: what it wrote is loaded again.
  \<^item> \<open>Manager_Demo\<close>: \<^verbatim>\<open>p3/script-test/state14_manager_demo\<close>, whose trace the logic computes (\<open>manager_demo_trace\<close>): the
    rollback it demonstrates restores the balance and the nonce and clears the nullifier.
  \<^item> Concrete inputs. \<open>Alice_Scenario\<close> and \<open>App_Scenario\<close> set up the scenario of Alice's deposit of 100 and
    withdrawal of 40, \<open>Boundary_Scenario\<close> environments, a chain binary and a prover; the witnesses of the properties evaluate the
    model on them.

  \<^bold>\<open>How state corresponds.\<close> A struct with methods is a record and one function per method, which takes the
  record and returns it updated, with a result \<open>Inl e\<close> for every error return. A Go map that is
  iterated is an association list, another one is a map. A method that holds a mutex for its whole body is
  one function; so is a database transaction. A panic is the error \<open>ErrPanic\<close>, which passes every handler. The
  interfaces between components are locales, each interpreted on the definitions of its provider:
  \<^verbatim>\<open>batch.Builder\<close> (\<open>batch_builder\<close>, on both builders), \<^verbatim>\<open>service.StateRollback\<close> (\<open>state_rollback\<close>, on the manager),
  \<^verbatim>\<open>relayer.Client\<close> (\<open>relayer_client\<close>, on both relayers), the clone helpers (\<open>clonable\<close>, on each kind of
  reference), and the shape of a digest, on SHA-256.

  \<^bold>\<open>The outside world as parameters.\<close> The chain binary is a function from its arguments and the state of the
  world to what it prints (\<open>cli\<close>), the prover a function from a request to a response (\<open>transport\<close>), the REST server of the
  chain and the RPC of the node functions from a URL to a response (\<open>rest_server\<close>). What they answer is bytes, which the
  model decodes as the program does.

  \<^bold>\<open>What is shown.\<close> This theory holds the properties of the mirror (C1, C2, C3, C5, C8: it refines its specification, conserves money,
  never credits or spends twice, and rollback restores it), of the builders (C9, C11, C13, C14: they decide exactly the valid
  batches, and the commitments determine their entries) and of the pending log (C17, C19 to C23, C25 to C27: it is a faithful run of the
  mirror, a batch is always built from a clean log, commit and cancel do what they should, and what
  a failed batch and a restart lose). \<open>Relayer\<close> holds C28 and C29: the runs of the chain binary are bounded, and
  an accepted submit was confirmed. \<open>App_Properties\<close> holds C30 to C36, C38 and C39: a drain settles everything, a failed pass gives its batch
  back, no bad proof reaches the relayer, what a submit does to the mirror on every outcome, single claims, the
  invariant of the tables, every outcome of creating a withdrawal, and three ways in which the services
  misbehave (C34, C39, \<open>reindexed_deposit_counted_twice\<close>). \<open>Shared_Store\<close> holds C37: no caller sees or
  changes the store through the pointers it holds. \<open>Boundary_Properties\<close> holds C4, C12, C16, C18 and C40: a request is at most one step, the JSON to a remote
  prover loses nothing, a client over HTTP does what the sequencer does, a process that listens is wired
  consistently, and a deposit is sent to the chain once and recorded completely. \<open>Vector_Properties\<close> holds C6, C7, C10, C15 and C24: the
  generator ends in every file system it can write to, changes exactly its files and computes the values that are checked in; the
  library loads what it wrote with every check passed, its failure vectors are rejected, but the one that is for the chain, which
  no proof for a batch from the right root gets through the submit, and the
  verification of a manifest accepts exactly the folders that match it. Theorems without a number are
  further laws of the components.

  \<^bold>\<open>Bounds and fuel.\<close> Every loop of the source that is over a list is a structural recursion. The retry loops of the Cosmos
  clients recurse on the attempts left. The drain of the sequencer has fuel, one unit for each pass;
  C30 shows that one more than the number of batches in the log is enough. The decoder of JSON has the nesting limit of
  \<^verbatim>\<open>encoding/json\<close> as its fuel, 10000. Sequence numbers are
  64-bit words and wrap around; the sequence of Postgres fails at its end.

  \<^bold>\<open>Not modelled.\<close> The chain itself and its checks of a batch. Logging. HTTP headers, the splitting of a path and \<^verbatim>\<open>rs/cors\<close>, which are libraries. The timers of
  \<^verbatim>\<open>Run\<close> of the poller and of the sequencer: a run is a fold over the ticks that come. What the vector
  generator prints, symbolic links and the times and owners of files. The shell scripts, the tests and the Go helpers that
  only they use (\<^verbatim>\<open>src/tests\<close>). Two requests do not interleave: a request runs to its end, and the races of the source (a claim is two
  statements, applying and logging a deposit are two steps) are stated on sequences of the smaller
  operations. A nil slice in a body that arrives is the empty list, so where the program passes it on as
  \<^verbatim>\<open>null\<close> the model writes an empty array; the slices of the dashboard state are written as they are.
\<close>

section \<open>The mirror\<close>

text \<open>
  C1: On a well-formed mirror, \<^verbatim>\<open>LocalState.ApplyDeposit\<close> does exactly what the abstract
  specification says, on every branch: it returns the same error, or it returns a state whose ledger
  and applied deposits are the specified ones, which is well-formed again and whose root, also the
  returned value, is the digest of its accounts.
\<close>

theorem mirror_deposit_refines:
  assumes "wf_local s"
  shows "abstracts (apply_deposit s d) (spec_deposit (mirror_of s) d)"
  by (rule apply_deposit_refines [OF assms])

theorem mirror_deposit_refines_witness:
  "abstracts (apply_deposit genesis alice_deposit) (spec_deposit (mirror_of genesis) alice_deposit)
   \<and> spec_deposit (mirror_of genesis) alice_deposit = Inr alice_after_deposit"
  using mirror_deposit_refines [of genesis alice_deposit]
  by (simp add: genesis_def alice_spec_deposit)

text \<open>
  C2: On a well-formed mirror, \<^verbatim>\<open>LocalState.ApplyWithdrawal\<close> refines the abstract
  withdrawal, with the order of its checks (shape, spent nullifier, balance, nonce): the errors agree,
  and on success the account is debited, its nonce advances by one and the nullifier is spent.
\<close>

theorem mirror_withdrawal_refines:
  assumes "wf_local s"
  shows "abstracts (apply_withdrawal s r nf) (spec_withdrawal (mirror_of s) r nf)"
  by (rule apply_withdrawal_refines [OF assms])

theorem mirror_withdrawal_refines_witness:
  "\<exists>s. mirror_of s = alice_after_deposit
     \<and> abstracts (apply_withdrawal s alice_request alice_nullifier) (Inr alice_final)"
proof -
  obtain s where s: "mirror_of s = alice_after_deposit" "wf_local s" by (rule genesis_deposit)
  with mirror_withdrawal_refines [OF s(2), of alice_request alice_nullifier] alice_spec_withdrawal
  show ?thesis by auto
qed

text \<open>
  C3: Conservation. Along any run of deposits and withdrawals the mirror accepts, what an account
  holds at the end plus what it withdrew is what it held at the start plus what was deposited to it.
\<close>

theorem ledger_conservation:
  assumes "wf_local s" and "fold_res op_apply s xs = Inr s'"
  shows "bal_of (local_ledger s') k + withdrawn k xs = bal_of (local_ledger s) k + deposited k xs"
  by (rule run_balance_equation [OF assms])

theorem ledger_conservation_witness:
  "\<exists>s. fold_res op_apply new_local_state alice_ops = Inr s
     \<and> bal_of (local_ledger s) (alice_owner, alice_denom) + 40 = 100"
proof -
  obtain s where s: "fold_res op_apply new_local_state alice_ops = Inr s" by (rule alice_run)
  with ledger_conservation [OF wf_local_new s, of "(alice_owner, alice_denom)"] show ?thesis
    by (auto simp: alice_ops_def alice_deposit_def alice_request_def new_local_state_def)
qed

text \<open>
  The nonces of an account's accepted withdrawals are consecutive, starting right after the
  nonce the account had.
\<close>

theorem nonces_consecutive:
  assumes "wf_local s" and "fold_res op_apply s xs = Inr s'"
  shows "nonces_used k xs = [nonce_of (local_ledger s) k + 1 ..< nonce_of (local_ledger s') k + 1]"
  using op_run_ok [OF assms] spec_run_nonces [of "mirror_of s" xs "mirror_of s'" k]
  by (simp add: mirror_of_def)

theorem nonces_consecutive_witness:
  "\<exists>s. fold_res op_apply new_local_state alice_ops = Inr s
     \<and> [1] = [1 ..< nonce_of (local_ledger s) (alice_owner, alice_denom) + 1]"
proof -
  obtain s where s: "fold_res op_apply new_local_state alice_ops = Inr s" by (rule alice_run)
  with nonces_consecutive [OF wf_local_new s, of "(alice_owner, alice_denom)"] show ?thesis
    by (auto simp: alice_ops_def alice_deposit_def alice_request_def new_local_state_def)
qed

text \<open>
  C5: No deposit is credited twice and no nullifier is spent twice, in a run and with respect to
  what the mirror had applied before it; and the mirror remembers all of them.
\<close>

theorem no_double_credit_or_spend:
  assumes "wf_local s" and "fold_res op_apply s xs = Inr s'"
  shows "distinct (deposit_ids xs) \<and> set (deposit_ids xs) \<inter> ls_deposits s = {}
    \<and> ls_deposits s' = ls_deposits s \<union> set (deposit_ids xs)
    \<and> distinct (spent_nullifiers xs) \<and> set (spent_nullifiers xs) \<inter> ls_nullifiers s = {}
    \<and> ls_nullifiers s' = ls_nullifiers s \<union> set (spent_nullifiers xs)"
  using op_run_ok [OF assms] spec_run_ids [of "mirror_of s" xs "mirror_of s'"]
  by (simp add: mirror_of_def)

theorem no_double_credit_or_spend_witness:
  "\<exists>s. fold_res op_apply new_local_state alice_ops = Inr s
     \<and> ls_deposits s = {''dep-1''} \<and> ls_nullifiers s = {alice_nullifier}"
proof -
  obtain s where s: "fold_res op_apply new_local_state alice_ops = Inr s" by (rule alice_run)
  with no_double_credit_or_spend [OF wf_local_new s] show ?thesis
    by (auto simp: alice_ops_def alice_deposit_def alice_request_def new_local_state_def)
qed

text \<open>
  A history can be replayed with all its deposits first. The replay is accepted, ends with the
  same ledger, the same applied deposits and spent nullifiers, and the same state root.
\<close>

theorem replay_deposits_first_same_mirror:
  assumes "wf_local s" and "fold_res op_apply s xs = Inr s'"
  shows "\<exists>t. fold_res op_apply s (deposits_first xs) = Inr t \<and> mirror_of t = mirror_of s'
    \<and> (xs \<noteq> [] \<longrightarrow> ls_root t = ls_root s')"
  by (rule replay_deposits_first [OF assms])

theorem replay_deposits_first_same_mirror_witness:
  "\<exists>t. fold_res op_apply new_local_state (deposits_first alice_ops) = Inr t \<and> mirror_of t = alice_final"
proof -
  obtain s where s: "fold_res op_apply new_local_state alice_ops = Inr s" "mirror_of s = alice_final"
    by (rule alice_run)
  with replay_deposits_first_same_mirror [OF wf_local_new s(1)] show ?thesis by auto
qed

text \<open>
  The state root is a function of the ledger alone. Two mirrors with the same balances and
  nonces have the same root, whatever the order in which the accounts were created or the map is
  iterated.
\<close>

theorem root_content_addressed:
  assumes "wf_local s" "wf_local s'" "root_current s" "root_current s'"
    and "local_ledger s = local_ledger s'"
  shows "ls_root s = ls_root s'"
  by (rule root_determined [OF assms(1-4)]) (simp add: mirror_of_def assms(5))

theorem root_content_addressed_witness:
  "\<exists>s t. apply_deposit genesis alice_deposit = Inr (s, ls_root s)
     \<and> apply_deposit new_local_state alice_deposit = Inr (t, ls_root t) \<and> ls_root s = ls_root t"
proof -
  obtain s where s: "apply_deposit genesis alice_deposit = Inr (s, ls_root s)" "mirror_of s = alice_after_deposit"
    "wf_local s" "root_current s" by (rule genesis_deposit)
  have "spec_op (mirror_of new_local_state) (OpDeposit alice_deposit) = Inr alice_after_deposit"
    by (simp add: alice_spec_deposit)
  from op_apply_spec [OF wf_local_new this] obtain t where
    t: "op_apply new_local_state (OpDeposit alice_deposit) = Inr t" "mirror_of t = alice_after_deposit"
      "wf_local t" "root_current t" by blast
  from t(1) obtain root where r: "apply_deposit new_local_state alice_deposit = Inr (t, root)"
    unfolding op_apply_Inr by blast
  have "local_ledger s = local_ledger t" using s(2) t(2) by (simp add: mirror_of_def alice_after_deposit_def)
  from root_content_addressed [OF s(3) t(3) s(4) t(4) this] have eq: "ls_root s = ls_root t" .
  show ?thesis
  proof (intro exI conjI)
    show "apply_deposit new_local_state alice_deposit = Inr (t, ls_root t)"
      using r apply_deposit_ok(4) [OF wf_local_new r] by simp
  qed (fact s(1), fact eq)
qed

text \<open>
  C8: \<^verbatim>\<open>Rollback\<close> to a snapshot gives the mirror of the time of the snapshot back (accounts,
  root, applied deposits, spent nullifiers), whatever the manager has become since, and moves the
  generation counter on.
\<close>

theorem rollback_restores_mirror:
  assumes "wf_manager m"
  shows "mg_ls (manager_rollback (manager_snapshot m) m') = mg_ls m
    \<and> mg_gen (manager_rollback (manager_snapshot m) m') = mg_gen m' + 1
    \<and> wf_manager (manager_rollback (manager_snapshot m) m')"
  using mgr.restore_snapshot [OF assms] mgr.restore_ok [OF assms] by (simp add: manager_rollback_def)

theorem rollback_restores_mirror_witness:
  "\<exists>m'. manager_apply_deposit new_manager alice_deposit = Inr (m', manager_root m')
     \<and> mg_ls (manager_rollback (manager_snapshot new_manager) m') = new_local_state \<and> mg_ls m' \<noteq> new_local_state"
proof -
  have "spec_op (mirror_of new_local_state) (OpDeposit alice_deposit) = Inr alice_after_deposit"
    by (simp add: alice_spec_deposit)
  from op_apply_spec [OF wf_local_new this] obtain t root where
    t: "apply_deposit new_local_state alice_deposit = Inr (t, root)" "mirror_of t = alice_after_deposit"
    unfolding op_apply_Inr by blast
  have "t \<noteq> new_local_state" using t(2) by (auto simp: alice_after_deposit_def dest: arg_cong [of _ _ mi_deposits])
  with t apply_deposit_ok(4) [OF wf_local_new t(1)]
    rollback_restores_mirror [of new_manager "\<lparr>mg_ls = t, mg_gen = 1\<rparr>"] wf_manager_new(1)
  show ?thesis
    by (intro exI [of _ "\<lparr>mg_ls = t, mg_gen = 1\<rparr>"])
       (simp add: manager_apply_deposit_def new_manager_def manager_root_def)
qed

section \<open>Batches\<close>

text \<open>
  C9: \<^verbatim>\<open>SettlementUpdateBuilder.Build\<close> decides \<open>inputs_valid\<close>: on valid inputs it returns
  the next batch number and the update that carries the roots, the deposits and the withdrawals in
  their order with canonical amounts; on anything else it returns
  \<^verbatim>\<open>ErrInvalidSettlementInputs\<close> and no number is used up.
\<close>

theorem settlement_build_decides:
  "settlement_build seq inp =
     (if inputs_valid inp
      then Inr (seq + 1, \<lparr>su_batch_id = ''batch-'' @ format_uint (seq + 1),
             su_old_root = si_old_root inp, su_new_root = si_new_root inp,
             su_deposits = map deposit_entry (si_deposits inp),
             su_withdrawals = map withdrawal_entry (si_withdrawals inp)\<rparr>)
      else Inl ErrInvalidSettlementInputs)"
  by (rule settlement_build_eq)

text \<open>
  In every update the builder returns, each withdrawal's destination hash is the hash of its
  destination, its nullifier is a prefixed hexadecimal value, and every entry has the denomination of
  the batch and an amount printed from a positive number.
\<close>

theorem settlement_binds_destinations:
  assumes "settlement_build seq inp = Inr (seq', upd)"
  shows "list_all (\<lambda>w. withdraw_address_hash (sw_destination w) = Inr (sw_destination_hash w)
      \<and> hex_value (sw_nullifier w) \<and> sw_denom w = batch_denom inp
      \<and> (\<exists>n > 0. sw_amount w = nat_to_dec n)) (su_withdrawals upd)
    \<and> list_all (\<lambda>d. sd_denom d = batch_denom inp \<and> (\<exists>n > 0. sd_amount d = nat_to_dec n)) (su_deposits upd)"
proof -
  from assms have valid: "inputs_valid inp" and upd: "su_withdrawals upd = map withdrawal_entry (si_withdrawals inp)"
    "su_deposits upd = map deposit_entry (si_deposits inp)"
    by (auto simp: settlement_build_eq split: if_splits)
  have "withdraw_address_hash (sw_destination (withdrawal_entry w)) = Inr (sw_destination_hash (withdrawal_entry w))
      \<and> hex_value (sw_nullifier (withdrawal_entry w)) \<and> sw_denom (withdrawal_entry w) = den
      \<and> (\<exists>n > 0. sw_amount (withdrawal_entry w) = nat_to_dec n)" if "good_withdrawal den w" for w den
    using that by (simp add: good_withdrawal_def withdrawal_entry_def amount_of_pos nat_to_dec_inj)
  moreover have "sd_denom (deposit_entry d) = den \<and> (\<exists>n > 0. sd_amount (deposit_entry d) = nat_to_dec n)"
    if "good_deposit den d" for d den
    using that by (simp add: good_deposit_def deposit_entry_def amount_of_pos nat_to_dec_inj)
  ultimately show ?thesis using valid unfolding upd by (auto simp: inputs_valid_def list_all_iff)
qed

theorem settlement_binds_destinations_witness:
  "\<exists>upd. settlement_build 0 \<lparr>si_old_root = genesis_root, si_new_root = ''0xbb'', si_deposits = [alice_deposit],
       si_withdrawals = []\<rparr> = Inr (1, upd) \<and> list_all (\<lambda>d. sd_denom d = alice_denom) (su_deposits upd)"
proof -
  let ?inp = "\<lparr>si_old_root = genesis_root, si_new_root = ''0xbb'', si_deposits = [alice_deposit], si_withdrawals = []\<rparr>"
  have den: "batch_denom ?inp = alice_denom" by (simp add: batch_denom_def alice_deposit_def)
  have "hex_value ''0xbb''"
    by (simp add: hex_value_def trim_space_ends_eval plain_char_def is_hex_prefixed_def strip_hex_def hex_prefix_def)
  then have "inputs_valid ?inp"
    by (simp add: inputs_valid_def den) (simp add: good_deposit_def alice_deposit_def genesis_root_def)
  then obtain upd where u: "settlement_build 0 ?inp = Inr (1, upd)" by (simp add: settlement_build_eq)
  from settlement_binds_destinations [OF u] u den show ?thesis by (auto simp: list_all_iff)
qed

text \<open>
  C11: On entries whose fields do not hold the separators, the preimages of the deposits root and of
  the withdrawals root determine the entries, in order; the two roots are the digests of these
  preimages. So equal roots of different entries are an explicit collision of SHA-256.
\<close>

theorem commitments_bind_entries:
  assumes "list_all clean_deposit (su_deposits u)" "list_all clean_deposit (su_deposits v)"
    and "list_all clean_withdrawal (su_withdrawals u)" "list_all clean_withdrawal (su_withdrawals v)"
  shows "(deposits_preimage (su_deposits u) = deposits_preimage (su_deposits v) \<longleftrightarrow> su_deposits u = su_deposits v)
    \<and> (withdrawals_preimage (su_withdrawals u) = withdrawals_preimage (su_withdrawals v)
        \<longleftrightarrow> su_withdrawals u = su_withdrawals v)
    \<and> bc_deposits_root (build_commitments u) = sha256_hex (deposits_preimage (su_deposits u))
    \<and> bc_withdrawals_root (build_commitments u) = sha256_hex (withdrawals_preimage (su_withdrawals u))"
  using deposits_body_inj [OF _ assms(1,2)] withdrawals_body_inj [OF _ assms(3,4)]
  by (auto simp: deposits_preimage_def withdrawals_preimage_def build_commitments_def deposits_root_def withdrawals_root_def)

theorem commitments_bind_entries_witness:
  "deposits_preimage [deposit_entry alice_deposit] \<noteq> deposits_preimage [(deposit_entry alice_deposit)\<lparr>sd_amount := ''101''\<rparr>]"
proof -
  let ?u = "batch_update 1 genesis_root ''0xbb'' [alice_deposit] []"
  let ?v = "?u\<lparr>su_deposits := [(deposit_entry alice_deposit)\<lparr>sd_amount := ''101''\<rparr>]\<rparr>"
  have clean: "list_all clean_deposit (su_deposits ?u)" "list_all clean_withdrawal (su_withdrawals ?u)"
    by (simp_all add: batch_update_def clean_deposit_entry)
       (simp_all add: alice_deposit_def alice_owner_def alice_denom_def)
  have clean': "list_all clean_deposit (su_deposits ?v)" "list_all clean_withdrawal (su_withdrawals ?v)"
    by (simp_all add: batch_update_def clean_deposit_def deposit_entry_def alice_deposit_def alice_owner_def alice_denom_def)
  have amt: "sd_amount (deposit_entry alice_deposit) = ''100''"
    by (simp add: deposit_entry_def alice_deposit_def nat_to_dec.simps digit_char_eval)
  have "deposit_entry alice_deposit \<noteq> (deposit_entry alice_deposit)\<lparr>sd_amount := ''101''\<rparr>"
  proof
    assume "deposit_entry alice_deposit = (deposit_entry alice_deposit)\<lparr>sd_amount := ''101''\<rparr>"
    from arg_cong [OF this, of sd_amount] amt show False by simp
  qed
  with commitments_bind_entries [OF clean(1) clean'(1) clean(2) clean'(2)] show ?thesis
    by (simp add: batch_update_def)
qed

text \<open>
  The seven digests of the system never share a preimage across their domains: state root,
  nullifier, destination hash and the four batch commitments.
\<close>

theorem preimages_domain_separated:
  "distinct [root_preimage accs, nullifier_preimage sec n, address_preimage dest, deposits_preimage ds,
     withdrawals_preimage ws, nullifiers_preimage ws', withdraw_outputs_preimage ws'']"
proof -
  have "t @ CHR ''|'' # x \<noteq> u @ CHR ''|'' # y" if "t \<in> set domain_tags" "u \<in> set domain_tags" "t \<noteq> u" for t u x y
    using domain_separated [OF that(1,2)] that(3) by blast
  note sep = this [unfolded domain_tags_def]
  show ?thesis
    unfolding root_preimage_def nullifier_preimage_def address_preimage_def deposits_preimage_def
      withdrawals_preimage_def nullifiers_preimage_def withdraw_outputs_preimage_def
    using domain_tags_distinct sep by (simp add: domain_tags_def)
qed

text \<open>
  C13: \<^verbatim>\<open>WitnessBuilder.Build\<close> decides \<open>account_consistent\<close> for every account: shapes,
  a deposit or withdrawal of that owner, the balance equation ZK-04 and the nullifiers ZK-05. It
  returns one canonical entry per account in the given order, or \<^verbatim>\<open>ErrInvalidWitnessInputs\<close>.
\<close>

theorem witness_builder_decides:
  "build_witness inp =
     (if wt_accounts inp \<noteq> [] \<and> list_all (account_consistent (wt_settlement inp)) (wt_accounts inp)
      then Inr \<lparr>wit_accounts = map (witness_entry (wt_settlement inp)) (wt_accounts inp),
                wit_state_path = wt_state_path inp\<rparr>
      else Inl ErrInvalidWitnessInputs)"
  by (simp add: build_witness_eq list_all_iff)

text \<open>
  C14: \<^verbatim>\<open>SnapshotBuilder.Build\<close> on a well-formed manager, with owners written without
  surrounding spaces. Either it fails before the settlement is built, and then no batch number is
  used up, with one of three errors; or it returns the batch: every nullifier and destination hash
  derived from the request, the operations accepted by the manager's mirror, the roots before and
  after, and one witness entry per participant. In particular the witness builder never refuses what
  the settlement builder accepted.
\<close>

theorem snapshot_build_complete:
  assumes "wf_manager m" and "owners_trimmed (bi_deposits inp) (bi_requests inp)"
  shows "case snapshot_build m seq None inp of
      (seq', Inl e) \<Rightarrow> seq' = seq \<and> facade_error e
    | (seq', Inr out) \<Rightarrow> seq' = seq + 1 \<and> snapshot_built m seq' inp out"
  by (cases "snapshot_build m seq None inp") (use snapshot_build_result [OF assms] in \<open>auto split: sum.splits\<close>)

theorem snapshot_build_complete_witness:
  "\<exists>out. snapshot_build (new_manager_with_genesis_root genesis_root) 0 None alice_input = (1, Inr out)
     \<and> snapshot_built (new_manager_with_genesis_root genesis_root) 1 alice_input out"
proof -
  obtain out where out: "snapshot_build (new_manager_with_genesis_root genesis_root) 0 None alice_input = (1, Inr out)"
    by (rule alice_snapshot_build)
  have "owners_trimmed (bi_deposits alice_input) (bi_requests alice_input)"
    by (simp add: alice_input_def owners_trimmed_def batch_parties_def alice_deposit_def)
  from snapshot_build_complete [OF wf_manager_new(2) [of genesis_root] this, where seq = 0] out show ?thesis by auto
qed

text \<open>
  The public inputs of the proof can be derived from every batch the snapshot builder returns,
  and they are the two roots and the four commitments of its update, in the order the verifier
  expects.
\<close>

theorem snapshot_build_public_inputs:
  assumes "snapshot_build m seq ctx inp = (seq', Inr out)"
  shows "build_public_inputs (bo_update out) (bo_commitments out) =
       Inr [su_old_root (bo_update out), su_new_root (bo_update out),
            deposits_root (su_deposits (bo_update out)), withdrawals_root (su_withdrawals (bo_update out)),
            nullifiers_root (su_withdrawals (bo_update out)),
            withdraw_outputs_root (su_withdrawals (bo_update out))]"
  by (rule sb.public_inputs [OF assms])

theorem snapshot_build_public_inputs_witness:
  "\<exists>out pis. snapshot_build (new_manager_with_genesis_root genesis_root) 0 None alice_input = (1, Inr out)
     \<and> build_public_inputs (bo_update out) (bo_commitments out) = Inr pis \<and> length pis = 6"
proof -
  obtain out where out: "snapshot_build (new_manager_with_genesis_root genesis_root) 0 None alice_input = (1, Inr out)"
    by (rule alice_snapshot_build)
  from snapshot_build_public_inputs [OF out] out show ?thesis by simp
qed

text \<open>
  The batches one builder returns have different names, whatever fails in between, until its
  64-bit counter has gone around.
\<close>

theorem snapshot_batch_names_distinct:
  assumes "length is < 2 ^ 64"
  shows "distinct (map (\<lambda>out. su_batch_id (bo_update out))
    (build_all (\<lambda>seq (ctx, inp). snapshot_build m seq ctx inp) seq is))"
  by (rule sb.ids_distinct [OF assms])

theorem snapshot_batch_names_distinct_witness:
  "distinct (map (\<lambda>out. su_batch_id (bo_update out))
    (build_all (\<lambda>seq (ctx, inp). snapshot_build (new_manager_with_genesis_root genesis_root) seq ctx inp) (- 1)
      [(None, alice_input), (Some (ErrText ''context canceled''), alice_input), (None, alice_input)]))"
  by (rule snapshot_batch_names_distinct) simp

section \<open>The settlement loop\<close>

text \<open>
  C17: The pending operations are ordered by their roots exactly when every one has its two roots and
  no two start from the same root; the result is the chain from the committed root, as long as the
  list of operations and made of them only. On anything else the error is
  \<^verbatim>\<open>ErrInvalidPendingSettlement\<close>.
\<close>

theorem pending_order_exact:
  "(order_pending_transitions r ds ws = Inr ts \<longleftrightarrow>
     list_all rooted (all_transitions ds ws) \<and> distinct (map pt_root_before (all_transitions ds ws))
     \<and> length ts = length (all_transitions ds ws) \<and> root_chain r ts \<and> set ts \<subseteq> set (all_transitions ds ws))
   \<and> (order_pending_transitions r ds ws = Inl e \<longleftrightarrow>
     e = ErrInvalidPendingSettlement \<and> (\<nexists>us. order_pending_transitions r ds ws = Inr us))"
proof (intro conjI)
  show "order_pending_transitions r ds ws = Inl e \<longleftrightarrow>
     e = ErrInvalidPendingSettlement \<and> (\<nexists>us. order_pending_transitions r ds ws = Inr us)"
    by (cases "order_pending_transitions r ds ws") (auto dest: order_pending_Inl)
qed (rule order_pending_Inr)

text \<open>
  The part of the chain that goes into one batch ends at the first withdrawal: it is the whole
  chain when there is none, and never holds two. The comment of
  \<^verbatim>\<open>boundSingleWithdrawalPrefix\<close> promises the longest prefix with at most one
  withdrawal; deposits that follow the first withdrawal are left out.
\<close>

theorem bounded_prefix_ends_at_withdrawal:
  "bound_single_withdrawal_prefix ts =
     takeWhile (\<lambda>t. pt_kind t \<noteq> ''withdrawal'') ts @ take 1 (dropWhile (\<lambda>t. pt_kind t \<noteq> ''withdrawal'') ts)
   \<and> length (filter (\<lambda>t. pt_kind t = ''withdrawal'') (bound_single_withdrawal_prefix ts)) \<le> 1
   \<and> (pt_kind w = ''withdrawal'' \<and> pt_kind d = ''deposit''
      \<longrightarrow> bound_single_withdrawal_prefix [w, d] = [w]
          \<and> length (filter (\<lambda>t. pt_kind t = ''withdrawal'') [w, d]) = 1)"
proof (intro conjI)
  show "bound_single_withdrawal_prefix ts = takeWhile (\<lambda>t. pt_kind t \<noteq> ''withdrawal'') ts
      @ take 1 (dropWhile (\<lambda>t. pt_kind t \<noteq> ''withdrawal'') ts)"
    by (induction ts) auto
qed (use bound_one_withdrawal in simp_all)

theorem bounded_prefix_ends_at_withdrawal_witness:
  "\<exists>w d. pt_kind w = ''withdrawal'' \<and> pt_kind d = ''deposit'' \<and> bound_single_withdrawal_prefix [w, d] = [w]"
proof -
  let ?t = "\<lambda>k. \<lparr>pt_kind = k, pt_id = ''a'', pt_owner = alice_owner, pt_denom = alice_denom,
    pt_root_before = ''0xaa'', pt_root_after = ''0xbb'', pt_balance_before = ''0'', pt_balance_after = ''1''\<rparr>"
  from bounded_prefix_ends_at_withdrawal [of "[]" "?t ''withdrawal''" "?t ''deposit''"] show ?thesis
    by (intro exI [of _ "?t ''withdrawal''"] exI [of _ "?t ''deposit''"]) simp
qed

text \<open>
  C19: \<^verbatim>\<open>ApplyIndexedDeposit\<close> extends the history. When the mirror accepts the
  deposit, the service logs a pending move with the roots and balances around it, and the invariant
  holds with the move at the end of the log; when the mirror refuses it, the same error comes back,
  and mirror and log are as before.
\<close>

theorem deposit_extends_log:
  assumes "loop_inv s s0 fl rest"
  shows "case apply_deposit (mg_ls (sv_manager s)) d of
      Inl e \<Rightarrow> (\<exists>s'. service_apply_indexed_deposit now d s = (s', Inl e) \<and> loop_inv s' s0 fl rest
        \<and> sv_manager s' = sv_manager s)
    | Inr (ls', new_root) \<Rightarrow> (\<exists>s' t. service_apply_indexed_deposit now d s = (s', Inr t)
        \<and> tr_move t = deposit_move_of (mg_ls (sv_manager s)) d ls' \<and> mg_ls (sv_manager s') = ls'
        \<and> loop_inv s' s0 fl (rest @ [LogDeposit (deposit_move_of (mg_ls (sv_manager s)) d ls')]))"
  using loop_deposit_refused [OF assms, of d _ now] loop_deposit [OF assms, of d _ _ now]
  by (cases "apply_deposit (mg_ls (sv_manager s)) d") (simp_all split: prod.split)

theorem deposit_extends_log_witness:
  "\<exists>s' t. service_apply_indexed_deposit 7 alice_deposit alice_service = (s', Inr t)
     \<and> loop_inv s' genesis None [LogDeposit (tr_move t)]"
proof -
  obtain s where s: "apply_deposit genesis alice_deposit = Inr (s, ls_root s)" by (rule genesis_deposit)
  from deposit_extends_log [OF alice_service_inv, where d = alice_deposit and now = 7] s show ?thesis by auto
qed

text \<open>
  C20: \<^verbatim>\<open>ApplyWithdrawRequest\<close> extends the history in the same way, with the nullifier
  derived from the secret and the nonce and the hash of the destination; it needs a withdraw id that
  no stored row has, because the row of that id would be overwritten.
\<close>

theorem withdrawal_extends_log:
  assumes "loop_inv s s0 fl rest" and "unused_withdraw_id s (wr_id r)"
    and "nullifier_for (effective_secret sec) (wr_nonce r) = Inr nf"
    and "withdraw_address_hash (wr_destination r) = Inr h"
  shows "case apply_withdrawal (mg_ls (sv_manager s)) r nf of
      Inl e \<Rightarrow> (\<exists>s'. service_apply_withdraw_request now r sec s = (s', Inl e) \<and> loop_inv s' s0 fl rest
        \<and> sv_manager s' = sv_manager s)
    | Inr (ls', new_root) \<Rightarrow> (\<exists>s' t. service_apply_withdraw_request now r sec s = (s', Inr t)
        \<and> tr_move t = withdrawal_move_of (mg_ls (sv_manager s)) r nf h ls' \<and> mg_ls (sv_manager s') = ls'
        \<and> loop_inv s' s0 fl (rest @ [LogWithdraw (withdrawal_move_of (mg_ls (sv_manager s)) r nf h ls')]))"
  using loop_withdraw_refused [OF assms(1,3,4), of _ now] loop_withdraw [OF assms(1,3,4) _ assms(2), of _ _ now]
  by (cases "apply_withdrawal (mg_ls (sv_manager s)) r nf") (simp_all split: prod.split)

theorem withdrawal_extends_log_witness:
  "\<exists>sv s' t. service_apply_withdraw_request 7 alice_request alice_secret sv = (s', Inr t)
     \<and> mirror_of (mg_ls (sv_manager s')) = alice_final"
proof -
  obtain sv mv where l: "loop_inv sv genesis None [LogDeposit mv]" "mirror_of (mg_ls (sv_manager sv)) = alice_after_deposit"
    by (rule alice_logged)
  obtain h where h: "withdraw_address_hash (wr_destination alice_request) = Inr h" by (rule alice_destination)
  obtain ls where ls: "apply_withdrawal (mg_ls (sv_manager sv)) alice_request alice_nullifier = Inr (ls, ls_root ls)"
    "mirror_of ls = alice_final" by (rule alice_withdrawal [OF l])
  from withdrawal_extends_log [OF l(1) alice_request_unused [OF l] alice_effective h, where now = 7] ls
  show ?thesis by auto
qed

text \<open>
  C21: A batch can always be built from a clean history. When nothing is in flight, the log is not
  empty, its roots do not repeat, and the part up to the first withdrawal has one denomination,
  trimmed owners and nullifiers that open with the secrets, \<^verbatim>\<open>BuildPendingBatch\<close>
  returns the batch of exactly these operations between the roots around them, and marks them as
  included; the rest stays pending.
\<close>

theorem clean_log_builds:
  assumes "loop_inv s s0 None ms" and "ms \<noteq> []" and "roots_distinct s0 ms"
    and "buildable den secrets (flight_prefix ms)" and "index_account_secrets accs = Inr secrets"
  shows "\<exists>s' out s1 dms wms. build_pending_batch accs s = (s', Inr out)
    \<and> log_run s0 (flight_prefix ms) s1
    \<and> mset dms = mset (log_deposits (flight_prefix ms)) \<and> mset wms = mset (log_withdrawals (flight_prefix ms))
    \<and> bo_update out = batch_update (sv_seq s + 1) (ls_root s0) (ls_root s1) (map record_of_move dms) (map input_of_move wms)
    \<and> bo_commitments out = build_commitments (bo_update out)
    \<and> sv_manager s' = sv_manager s \<and> sv_seq s' = sv_seq s + 1
    \<and> loop_inv s' s0 (Some (su_batch_id (bo_update out), flight_prefix ms)) (flight_rest ms)"
  by (rule loop_build [OF assms])

theorem clean_log_builds_witness:
  "\<exists>sv s' out. build_pending_batch [] sv = (s', Inr out) \<and> su_old_root (bo_update out) = genesis_root
     \<and> length (su_deposits (bo_update out)) = 1"
proof -
  obtain sv mv where l: "loop_inv sv genesis None [LogDeposit mv]" "roots_distinct genesis [LogDeposit mv]"
    "clean_move alice_denom (LogDeposit mv)" by (rule alice_logged)
  from l(3) have "buildable alice_denom Map.empty (flight_prefix [LogDeposit mv])" by (simp add: buildable_def)
  from clean_log_builds [OF l(1) _ l(2) this, of "[]"]
  have "\<exists>s' out. build_pending_batch [] sv = (s', Inr out) \<and> su_old_root (bo_update out) = genesis_root
      \<and> length (su_deposits (bo_update out)) = 1"
    by (auto simp: index_account_secrets_def batch_update_def)
  then show ?thesis by blast
qed

text \<open>
  C22: Committing the batch in flight moves the committed root to the root after the batch; the
  moves of the batch leave the pending and included rows, the rest of the log stays pending, and the
  mirror is untouched.
\<close>

theorem commit_advances:
  assumes "loop_inv s s0 (Some (b, pre)) rest" and "log_run s0 pre s1"
  shows "\<exists>s'. commit_batch b tx (ls_root s1) s = (s', Inr ()) \<and> loop_inv s' s1 None rest
    \<and> sv_manager s' = sv_manager s"
  by (rule loop_commit [OF assms])

theorem commit_advances_witness:
  "\<exists>sv b s' s1. commit_batch b ''0xtx'' (ls_root s1) sv = (s', Inr ()) \<and> loop_inv s' s1 None []"
proof -
  obtain sv b mv s1 where "loop_inv sv genesis (Some (b, [LogDeposit mv])) []" "log_run genesis [LogDeposit mv] s1"
    by (rule alice_in_flight)
  from commit_advances [OF this, of "''0xtx''"] show ?thesis by blast
qed

text \<open>
  C23: Cancelling the batch in flight puts its moves back in front of the pending ones: the log, the
  committed root and the mirror are what they were before the batch was built.
\<close>

theorem cancel_restores_log:
  assumes "loop_inv s s0 (Some (b, pre)) rest"
  shows "\<exists>s'. cancel_included_batch b reason s = (s', Inr ()) \<and> loop_inv s' s0 None (pre @ rest)
    \<and> sv_manager s' = sv_manager s"
  by (rule loop_cancel [OF assms])

theorem cancel_restores_log_witness:
  "\<exists>sv b mv s'. loop_inv sv genesis (Some (b, [LogDeposit mv])) []
     \<and> cancel_included_batch b ''timeout'' sv = (s', Inr ()) \<and> loop_inv s' genesis None [LogDeposit mv]"
proof -
  obtain sv b mv s1 where f: "loop_inv sv genesis (Some (b, [LogDeposit mv])) []" by (rule alice_in_flight)
  from cancel_restores_log [OF f, of "''timeout''"] f show ?thesis by auto
qed

text \<open>
  While a batch is in flight, no second one can be built from the operations behind it: their
  chain does not start at the committed root, so \<^verbatim>\<open>BuildPendingBatch\<close> refuses and
  changes nothing.
\<close>

theorem no_second_batch_in_flight:
  assumes "loop_inv s s0 (Some (b, pre)) rest" and "no_return s0 (pre @ rest)" and "rest \<noteq> []"
  shows "build_pending_batch accs s = (s, Inl ErrInvalidPendingSettlement)"
  by (rule loop_build_in_flight [OF assms])

theorem no_second_batch_in_flight_witness:
  "\<exists>sv b mv mv'. loop_inv sv genesis (Some (b, [LogDeposit mv])) [LogDeposit mv']
     \<and> build_pending_batch [] sv = (sv, Inl ErrInvalidPendingSettlement)"
proof -
  obtain sv b mv mv' where f: "loop_inv sv genesis (Some (b, [LogDeposit mv])) [LogDeposit mv']"
    "no_return genesis [LogDeposit mv, LogDeposit mv']" by (rule alice_two_moves)
  from f(2) have "no_return genesis ([LogDeposit mv] @ [LogDeposit mv'])" by simp
  from no_second_batch_in_flight [OF f(1) this, of "[]"] f(1) show ?thesis by blast
qed

text \<open>
  C25: Marking the batch in flight as failed strands it. \<^verbatim>\<open>CancelIncludedBatch\<close> finds
  nothing to reopen afterwards, the mirror keeps the operations applied, and no batch can be built
  any more: with operations behind the failed batch the chain is broken, without them there is
  nothing pending. This is what the pending submit path of the batch service and the sequencer do
  when the chain does not accept a batch.
\<close>

theorem failed_batch_strands:
  assumes "loop_inv s s0 (Some (b, pre)) rest" and "no_return s0 (pre @ rest)"
  shows "\<exists>s'. fail_batch b reason s = (s', Inr ()) \<and> sv_manager s' = sv_manager s
    \<and> cancel_included_batch b reason' s' = (s', Inl ErrOffchainSettlementRecordNotFound)
    \<and> snd (build_pending_batch accs s') =
      Inl (if rest = [] then ErrNoPendingSettlementOperations else ErrInvalidPendingSettlement)"
  by (rule loop_fail_strands [OF assms, of reason reason' accs]) blast

theorem failed_batch_strands_witness:
  "\<exists>sv b s'. fail_batch b ''rejected'' sv = (s', Inr ())
     \<and> snd (build_pending_batch [] s') = Inl ErrInvalidPendingSettlement"
proof -
  obtain sv b mv mv' where f: "loop_inv sv genesis (Some (b, [LogDeposit mv])) [LogDeposit mv']"
    "no_return genesis [LogDeposit mv, LogDeposit mv']" by (rule alice_two_moves)
  from f(2) have "no_return genesis ([LogDeposit mv] @ [LogDeposit mv'])" by simp
  from failed_batch_strands [OF f(1) this, of "''rejected''" "[]" "[]"] show ?thesis by auto
qed

text \<open>
  C26: What a restart does before the first commit, where the process starts again from the manager it
  started from (with its genesis root) over the same database. With no batch in flight,
  \<^verbatim>\<open>RehydrateFromStore\<close>, replaying the deposits first and each table in the order of the database,
  restores the ledger, the applied deposits, the spent nullifiers and the root, provided the withdrawals are
  listed in the order in which they were applied. With a batch in flight it restores a different mirror: the rows
  of the batch are included and no longer pending, so none of its deposits is applied and none of its
  nullifiers spent.
\<close>

theorem rehydrate_restores_mirror:
  assumes "loop_inv s (mg_ls m0) fl ms" and "sv_repo s = Some db"
    and "fl = None \<Longrightarrow> pending_moves (db_collation db) pw_id (db_withdrawals db) = log_withdrawals ms"
  shows "\<exists>s'. rehydrate_from_store (new_service (Some m0) (Some db)) = (s', Inr ())
    \<and> (case fl of
        None \<Rightarrow> mirror_of (mg_ls (sv_manager s')) = mirror_of (mg_ls (sv_manager s))
          \<and> ls_root (mg_ls (sv_manager s')) = ls_root (mg_ls (sv_manager s))
      | Some (b, pre) \<Rightarrow> pd_id ` set (log_deposits pre) \<inter> ls_deposits (mg_ls (sv_manager s')) = {}
          \<and> trim_space ` pw_nullifier ` set (log_withdrawals pre) \<inter> ls_nullifiers (mg_ls (sv_manager s')) = {}
          \<and> mirror_of (mg_ls (sv_manager s')) \<noteq> mirror_of (mg_ls (sv_manager s)))"
proof (cases fl)
  case None
  with rehydrate_restores [of s m0 ms db] assms show ?thesis by simp
next
  case (Some f)
  with rehydrate_forgets_flight [of s m0 "fst f" "snd f" ms db] assms(1,2) show ?thesis by (cases f) simp
qed

theorem rehydrate_restores_mirror_witness:
  "(\<exists>s' db. rehydrate_from_store (new_service (Some new_manager) (Some db)) = (s', Inr ())
     \<and> mirror_of (mg_ls (sv_manager s')) = alice_after_deposit)
   \<and> (\<exists>(sv :: service) db s'. mirror_of (mg_ls (sv_manager sv)) = alice_after_deposit \<and> sv_repo sv = Some db
     \<and> rehydrate_from_store (new_service (Some (new_manager_with_genesis_root genesis_root)) (Some db)) = (s', Inr ())
     \<and> mirror_of (mg_ls (sv_manager s')) \<noteq> alice_after_deposit)"
proof
  obtain sv mv db where s: "loop_inv sv new_local_state None [LogDeposit mv]" "sv_repo sv = Some db"
    "mirror_of (mg_ls (sv_manager sv)) = alice_after_deposit" "db_withdrawals db = []"
    by (rule alice_logged_plain)
  have start: "mg_ls new_manager = new_local_state" by (simp add: new_manager_def)
  have "pending_moves (db_collation db) pw_id (db_withdrawals db) = log_withdrawals [LogDeposit mv]"
    by (simp add: s(4) pending_moves_def pending_rows_def)
  from rehydrate_restores_mirror [of sv new_manager, unfolded start, OF s(1,2) this] s(3)
  show "\<exists>s' db. rehydrate_from_store (new_service (Some new_manager) (Some db)) = (s', Inr ())
     \<and> mirror_of (mg_ls (sv_manager s')) = alice_after_deposit" by auto
next
  let ?m0 = "new_manager_with_genesis_root genesis_root"
  obtain sv b mv s1 where f: "loop_inv sv genesis (Some (b, [LogDeposit mv])) []"
    "mirror_of (mg_ls (sv_manager sv)) = alice_after_deposit" by (rule alice_in_flight)
  from f(1) obtain db where db: "sv_repo sv = Some db" by (auto simp: loop_inv_def)
  have start: "mg_ls ?m0 = genesis" by (simp add: new_manager_with_genesis_root_def genesis_def)
  from rehydrate_restores_mirror [of sv ?m0, unfolded start, OF f(1) db] f(2) db
  show "\<exists>(sv :: service) db s'. mirror_of (mg_ls (sv_manager sv)) = alice_after_deposit \<and> sv_repo sv = Some db
     \<and> rehydrate_from_store (new_service (Some ?m0) (Some db)) = (s', Inr ())
     \<and> mirror_of (mg_ls (sv_manager s')) \<noteq> alice_after_deposit" by auto
qed

text \<open>
  C27: A restart after the pending operations were committed restores nothing: the rows are no longer
  pending, so the new service starts from the empty mirror. The deposits and nullifiers it had
  applied are forgotten.
\<close>

theorem rehydrate_forgets_committed:
  assumes "loop_inv s s0 fl []" and "sv_repo s = Some db"
  shows "\<exists>s'. rehydrate_from_store (new_service None (Some db)) = (s', Inr ())
    \<and> mg_ls (sv_manager s') = new_local_state \<and> ls_deposits (mg_ls (sv_manager s')) = {}
    \<and> ls_nullifiers (mg_ls (sv_manager s')) = {}"
  using rehydrate_forgets [OF assms] by (simp add: new_service_def new_manager_def new_local_state_def)

theorem rehydrate_forgets_committed_witness:
  "\<exists>(sv :: service) db s'. sv_repo sv = Some db \<and> mirror_of (mg_ls (sv_manager sv)) = alice_after_deposit
     \<and> rehydrate_from_store (new_service None (Some db)) = (s', Inr ()) \<and> ls_deposits (mg_ls (sv_manager s')) = {}"
proof -
  obtain sv b mv s1 where f: "loop_inv sv genesis (Some (b, [LogDeposit mv])) []"
    "mirror_of (mg_ls (sv_manager sv)) = alice_after_deposit" by (rule alice_in_flight)
  from f(1) obtain db where db: "sv_repo sv = Some db" by (auto simp: loop_inv_def)
  from rehydrate_forgets_committed [OF f(1) db] obtain s' where
    "rehydrate_from_store (new_service None (Some db)) = (s', Inr ())" "ls_deposits (mg_ls (sv_manager s')) = {}"
    by blast
  with db f(2) show ?thesis by (intro exI conjI)
qed

end
